(* ===== verification/Umeq_Prelude.thy ===== *)
theory Umeq_Prelude
  imports Main "HOL-Library.Word" "HOL-Library.Monad_Syntax"
begin

text \<open>
  Shared vocabulary of the development: names for the machine integers of the C code,
  little-endian byte strings and memories, the truncation of a 64-bit value to the width of
  an intermediate register, and the lemma collections the component theories use.

  An assertion that fails in the C code ends the process; every operation that contains one
  returns \<open>None\<close> on that branch, and sequences of such operations are written in the
  option monad.
\<close>

unbundle bit_operations_syntax

type_synonym u8 = "8 word"
type_synonym u16 = "16 word"
type_synonym u32 = "32 word"
type_synonym u64 = "64 word"
type_synonym u128 = "128 word"
type_synonym memory = "u64 \<Rightarrow> u8"

named_theorems gen_simps \<open>the code emitters, for lengths and concrete code\<close>
named_theorems cache_simps \<open>the operations of the code cache, for concrete caches\<close>

subsection \<open>Arithmetic\<close>

lemma int_div_less_iff: "(0::int) < s \<Longrightarrow> p div s < k \<longleftrightarrow> p < s * k"
  using pos_imp_zdiv_neg_iff [of s "p - s * k"] div_mult_self4 [of s "- k" p]
  by simp

subsection \<open>Lists\<close>

lemma nth_map_snoc [simp]: "(map f xs @ [y]) ! length xs = y"
  by (simp add: nth_append)

subsection \<open>Bytes of a word\<close>

definition byte :: "nat \<Rightarrow> 'a::len word \<Rightarrow> u8" where
  "byte i v = ucast (drop_bit (8 * i) v)"

fun fetch_le :: "(nat \<Rightarrow> u8) \<Rightarrow> nat \<Rightarrow> nat \<Rightarrow> u64" where
  "fetch_le f i 0 = 0"
| "fetch_le f i (Suc n) = ucast (f i) OR push_bit 8 (fetch_le f (Suc i) n)"

fun read_mem :: "memory \<Rightarrow> u64 \<Rightarrow> nat \<Rightarrow> u64" where
  "read_mem m a 0 = 0"
| "read_mem m a (Suc n) = ucast (m a) OR push_bit 8 (read_mem m (a + 1) n)"

fun write_mem :: "memory \<Rightarrow> u64 \<Rightarrow> nat \<Rightarrow> u64 \<Rightarrow> memory" where
  "write_mem m a 0 v = m"
| "write_mem m a (Suc n) v = write_mem (m(a := ucast v)) (a + 1) n (drop_bit 8 v)"

lemma fetch_le_bytes:
  assumes "\<And>k. k < n \<Longrightarrow> f (i + k) = byte k v"
  shows "fetch_le f i n = take_bit (8 * n) (ucast v)"
  using assms
proof (induction n arbitrary: i v)
  case 0
  then show ?case by simp
next
  case (Suc n)
  have head: "f i = byte 0 v"
    using Suc.prems [of 0] by simp
  have tail: "fetch_le f (Suc i) n = take_bit (8 * n) (ucast (drop_bit 8 v))"
  proof (rule Suc.IH)
    fix k assume "k < n"
    then have "f (i + Suc k) = byte (Suc k) v"
      using Suc.prems [of "Suc k"] by simp
    then show "f (Suc i + k) = byte k (drop_bit 8 v)"
      by (simp add: byte_def ac_simps)
  qed
  show ?case
    unfolding fetch_le.simps head tail
    by (rule bit_word_eqI) (auto simp: byte_def bit_simps not_less)
qed

lemma read_mem_take_bit: "take_bit (8 * n) (read_mem m a n) = read_mem m a n"
proof (induction n arbitrary: a)
  case 0
  then show ?case by simp
next
  case (Suc n)
  show ?case
    by (subst (2) read_mem.simps, subst Suc.IH [symmetric])
       (rule bit_word_eqI, auto simp: bit_simps dest: bit_imp_le_length)
qed

end
