(* ===== verification/Memory_Pool.thy ===== *)
theory Memory_Pool
  imports Umeq_Prelude
begin

text \<open>
  The bump allocator \<open>struct memoryPool\<close> that \<open>src/src/jitter/jitter.c\<close> and the
  backends use for their registers and instructions. A pool always serves structures of one
  type, so the part of its byte buffer below \<open>index\<close> is an array of those structures: the
  model keeps that array as a list, and a pointer into the pool is a position in it.
  Bytes above \<open>index\<close> are never read, so resetting the index empties the list.
\<close>

record 'a memoryPool =
  pool_buffer :: "'a list"
  pool_index :: int
  pool_size :: int

text \<open>
  \<open>memoryPoolAlloc\<close> asserts that the request fits. The caller fills the structure it gets
  before anything else touches the pool, so the allocation takes the contents as an argument.
\<close>

definition memoryPoolAlloc :: "int \<Rightarrow> 'a \<Rightarrow> 'a memoryPool \<Rightarrow> (nat \<times> 'a memoryPool) option" where
  "memoryPoolAlloc sz x pool =
     (if sz + pool_index pool \<le> pool_size pool
      then Some (length (pool_buffer pool),
                 pool\<lparr>pool_buffer := pool_buffer pool @ [x], pool_index := pool_index pool + sz\<rparr>)
      else None)"

definition memoryPoolReset :: "'a memoryPool \<Rightarrow> 'a memoryPool" where
  "memoryPoolReset pool = pool\<lparr>pool_buffer := [], pool_index := 0\<rparr>"

definition memoryPoolInit :: "'a memoryPool \<Rightarrow> int \<Rightarrow> 'a memoryPool" where
  "memoryPoolInit pool sz = pool\<lparr>pool_size := sz\<rparr>"

definition pool_update :: "nat \<Rightarrow> ('a \<Rightarrow> 'a) \<Rightarrow> 'a memoryPool \<Rightarrow> 'a memoryPool" where
  "pool_update p f pool =
     pool\<lparr>pool_buffer := (pool_buffer pool)[p := f (pool_buffer pool ! p)]\<rparr>"

text \<open>
  The pool is well formed for structures of \<open>sz\<close> bytes when the index counts exactly the
  structures handed out and never passes the end of the buffer.
\<close>

definition pool_wf :: "int \<Rightarrow> 'a memoryPool \<Rightarrow> bool" where
  "pool_wf sz pool \<longleftrightarrow>
     pool_index pool = sz * int (length (pool_buffer pool)) \<and> pool_index pool \<le> pool_size pool"

lemma memoryPoolAlloc_SomeD:
  assumes "memoryPoolAlloc sz x pool = Some (p, pool')"
  shows "p = length (pool_buffer pool)"
    and "pool_buffer pool' = pool_buffer pool @ [x]"
    and "pool_index pool' = pool_index pool + sz"
    and "pool_size pool' = pool_size pool"
    and "pool_index pool' \<le> pool_size pool'"
  using assms by (auto simp: memoryPoolAlloc_def split: if_splits)

lemma memoryPoolAlloc_wf:
  "pool_wf sz pool \<Longrightarrow> memoryPoolAlloc sz x pool = Some (p, pool') \<Longrightarrow> pool_wf sz pool'"
  by (auto simp: pool_wf_def memoryPoolAlloc_def algebra_simps split: if_splits)

lemma memoryPoolReset_wf: "0 \<le> pool_size pool \<Longrightarrow> pool_wf sz (memoryPoolReset pool)"
  by (simp add: pool_wf_def memoryPoolReset_def)

lemma pool_update_simps [simp]:
  "length (pool_buffer (pool_update p f pool)) = length (pool_buffer pool)"
  "pool_index (pool_update p f pool) = pool_index pool"
  "pool_size (pool_update p f pool) = pool_size pool"
  by (simp_all add: pool_update_def)

lemma pool_update_wf [simp]: "pool_wf sz (pool_update p f pool) = pool_wf sz pool"
  by (simp add: pool_wf_def)

lemma pool_update_nth:
  "q < length (pool_buffer pool) \<Longrightarrow>
     pool_buffer (pool_update p f pool) ! q
       = (if p = q then f (pool_buffer pool ! q) else pool_buffer pool ! q)"
  by (simp add: pool_update_def nth_list_update)

text \<open>How many structures a pool can hold: an allocation fails exactly beyond that number.\<close>

lemma memoryPoolAlloc_None_iff:
  assumes "pool_wf sz pool" and "0 < sz"
  shows "memoryPoolAlloc sz x pool = None
           \<longleftrightarrow> pool_size pool div sz \<le> int (length (pool_buffer pool))"
proof -
  let ?n = "int (length (pool_buffer pool))"
  have "memoryPoolAlloc sz x pool = None \<longleftrightarrow> pool_size pool < sz * (?n + 1)"
    using assms by (auto simp: memoryPoolAlloc_def pool_wf_def algebra_simps)
  also have "\<dots> \<longleftrightarrow> pool_size pool div sz < ?n + 1"
    using assms(2) by (rule int_div_less_iff [symmetric])
  finally show ?thesis by simp
qed

end
