(* ===== verification/Jitter_Types.thy ===== *)
theory Jitter_Types
  imports Memory_Pool
begin

text \<open>
  The intermediate representation of \<open>src/src/jitter/jitter_types.h\<close>. The four enumerators
  \<open>X_8\<close>, \<open>X_16\<close>, \<open>X_32\<close>, \<open>X_64\<close> of an instruction or operator family are one
  constructor with the register type as its first argument. A pointer to a register is its
  position in the register pool, a pointer that may be NULL is an option.
\<close>

datatype irRegisterType = IR_REG_8 | IR_REG_16 | IR_REG_32 | IR_REG_64

record irRegister =
  ir_type :: irRegisterType
  ir_index :: int
  ir_firstWriteIndex :: int
  ir_lastReadIndex :: int
  ir_backend :: "nat option"

datatype irCastType =
    IR_CAST_8U_TO_16 | IR_CAST_8U_TO_32 | IR_CAST_8U_TO_64
  | IR_CAST_8S_TO_16 | IR_CAST_8S_TO_32 | IR_CAST_8S_TO_64
  | IR_CAST_16U_TO_32 | IR_CAST_16U_TO_64
  | IR_CAST_16S_TO_32 | IR_CAST_16S_TO_64
  | IR_CAST_32U_TO_64
  | IR_CAST_32S_TO_64
  | IR_CAST_64_TO_8 | IR_CAST_32_TO_8 | IR_CAST_16_TO_8
  | IR_CAST_64_TO_16 | IR_CAST_32_TO_16
  | IR_CAST_64_TO_32

datatype irBinopType =
    IR_BINOP_ADD | IR_BINOP_SUB | IR_BINOP_XOR | IR_BINOP_AND | IR_BINOP_OR
  | IR_BINOP_SHL | IR_BINOP_SHR | IR_BINOP_ASR | IR_BINOP_ROR
  | IR_BINOP_CMPEQ | IR_BINOP_CMPNE

datatype irInstruction =
    IR_MOV_CONST irRegisterType nat u64
  | IR_LOAD irRegisterType nat nat
  | IR_STORE irRegisterType nat nat
  | IR_ITE irRegisterType nat nat nat nat
  | IR_READ irRegisterType nat u32
  | IR_WRITE irRegisterType nat u32
  | IR_CALL "irRegisterType option" string nat "nat option list" "nat option"
  | IR_BINOP irBinopType irRegisterType nat nat nat
  | IR_CAST irCastType nat nat
  | IR_EXIT nat "nat option"
  | IR_INSN_MARKER u32

text \<open>Sizes and widths. \<open>1 << (type + 3)\<close> is how the C code computes the width.\<close>

fun type_bits :: "irRegisterType \<Rightarrow> nat" where
  "type_bits IR_REG_8 = 8"
| "type_bits IR_REG_16 = 16"
| "type_bits IR_REG_32 = 32"
| "type_bits IR_REG_64 = 64"

abbreviation type_bytes :: "irRegisterType \<Rightarrow> nat" where
  "type_bytes t \<equiv> type_bits t div 8"

definition trunc :: "irRegisterType \<Rightarrow> u64 \<Rightarrow> u64" where
  "trunc t v = take_bit (type_bits t) v"

lemma trunc_trunc [simp]: "trunc t (trunc t v) = trunc t v"
  by (simp add: trunc_def)

lemma trunc_0 [simp]: "trunc t 0 = 0"
  by (simp add: trunc_def)

lemma trunc_64 [simp]: "trunc IR_REG_64 v = v"
  by (simp add: trunc_def take_bit_word_eq_self)

fun cast_types :: "irCastType \<Rightarrow> irRegisterType \<times> irRegisterType" where
  "cast_types IR_CAST_8U_TO_16 = (IR_REG_8, IR_REG_16)"
| "cast_types IR_CAST_8U_TO_32 = (IR_REG_8, IR_REG_32)"
| "cast_types IR_CAST_8U_TO_64 = (IR_REG_8, IR_REG_64)"
| "cast_types IR_CAST_8S_TO_16 = (IR_REG_8, IR_REG_16)"
| "cast_types IR_CAST_8S_TO_32 = (IR_REG_8, IR_REG_32)"
| "cast_types IR_CAST_8S_TO_64 = (IR_REG_8, IR_REG_64)"
| "cast_types IR_CAST_16U_TO_32 = (IR_REG_16, IR_REG_32)"
| "cast_types IR_CAST_16U_TO_64 = (IR_REG_16, IR_REG_64)"
| "cast_types IR_CAST_16S_TO_32 = (IR_REG_16, IR_REG_32)"
| "cast_types IR_CAST_16S_TO_64 = (IR_REG_16, IR_REG_64)"
| "cast_types IR_CAST_32U_TO_64 = (IR_REG_32, IR_REG_64)"
| "cast_types IR_CAST_32S_TO_64 = (IR_REG_32, IR_REG_64)"
| "cast_types IR_CAST_64_TO_8 = (IR_REG_64, IR_REG_8)"
| "cast_types IR_CAST_32_TO_8 = (IR_REG_32, IR_REG_8)"
| "cast_types IR_CAST_16_TO_8 = (IR_REG_16, IR_REG_8)"
| "cast_types IR_CAST_64_TO_16 = (IR_REG_64, IR_REG_16)"
| "cast_types IR_CAST_32_TO_16 = (IR_REG_32, IR_REG_16)"
| "cast_types IR_CAST_64_TO_32 = (IR_REG_64, IR_REG_32)"

fun is_signed_cast :: "irCastType \<Rightarrow> bool" where
  "is_signed_cast IR_CAST_8S_TO_16 = True"
| "is_signed_cast IR_CAST_8S_TO_32 = True"
| "is_signed_cast IR_CAST_8S_TO_64 = True"
| "is_signed_cast IR_CAST_16S_TO_32 = True"
| "is_signed_cast IR_CAST_16S_TO_64 = True"
| "is_signed_cast IR_CAST_32S_TO_64 = True"
| "is_signed_cast _ = False"

subsection \<open>Registers an instruction reads and writes\<close>

definition opt_list :: "'a option \<Rightarrow> 'a list" where
  "opt_list x = (case x of None \<Rightarrow> [] | Some y \<Rightarrow> [y])"

lemma opt_list_simps [simp]: "opt_list None = []" "opt_list (Some x) = [x]"
  by (simp_all add: opt_list_def)

fun ir_reads :: "irInstruction \<Rightarrow> nat list" where
  "ir_reads (IR_MOV_CONST t d v) = []"
| "ir_reads (IR_LOAD t d a) = [a]"
| "ir_reads (IR_STORE t s a) = [a, s]"
| "ir_reads (IR_ITE t d p x y) = [p, x, y]"
| "ir_reads (IR_READ t d off) = []"
| "ir_reads (IR_WRITE t s off) = [s]"
| "ir_reads (IR_CALL t nm a ps r) = a # concat (map opt_list ps)"
| "ir_reads (IR_BINOP b t d x y) = [x, y]"
| "ir_reads (IR_CAST c d x) = [x]"
| "ir_reads (IR_EXIT v p) = v # opt_list p"
| "ir_reads (IR_INSN_MARKER v) = []"

fun ir_write :: "irInstruction \<Rightarrow> nat option" where
  "ir_write (IR_MOV_CONST t d v) = Some d"
| "ir_write (IR_LOAD t d a) = Some d"
| "ir_write (IR_STORE t s a) = None"
| "ir_write (IR_ITE t d p x y) = Some d"
| "ir_write (IR_READ t d off) = Some d"
| "ir_write (IR_WRITE t s off) = None"
| "ir_write (IR_CALL t nm a ps r) = r"
| "ir_write (IR_BINOP b t d x y) = Some d"
| "ir_write (IR_CAST c d x) = Some d"
| "ir_write (IR_EXIT v p) = None"
| "ir_write (IR_INSN_MARKER v) = None"

end
