(* ===== verification/Jitter.thy ===== *)
theory Jitter
  imports Jitter_Types
begin

text \<open>
  The intermediate code builder of \<open>src/src/jitter/jitter.c\<close>: the state of a jitter
  instance, the allocator of virtual registers and one operation per entry of
  \<open>struct irInstructionAllocator\<close>. An operation takes the jitter and returns the register
  it defines together with the new jitter, or \<open>None\<close> where an assertion of the code fails.
\<close>

record jitter =
  registerPoolAllocator :: "irRegister memoryPool"
  instructionIndex :: int
  regIndex :: int
  instructionPoolAllocator :: "irInstruction memoryPool"

text \<open>Sizes of the structures on the x86_64 host.\<close>

definition sizeof_irRegister :: int where "sizeof_irRegister = 24"
definition sizeof_irInstruction :: int where "sizeof_irInstruction = 64"
definition sizeof_jitter :: int where "sizeof_jitter = 832"
definition JITTER_MIN_CONTEXT_SIZE :: int where "JITTER_MIN_CONTEXT_SIZE = 32 * 1024"

abbreviation regs_of :: "jitter \<Rightarrow> irRegister list" where
  "regs_of j \<equiv> pool_buffer (registerPoolAllocator j)"

abbreviation insns_of :: "jitter \<Rightarrow> irInstruction list" where
  "insns_of j \<equiv> pool_buffer (instructionPoolAllocator j)"

abbreviation reg_type :: "jitter \<Rightarrow> nat \<Rightarrow> irRegisterType" where
  "reg_type j r \<equiv> ir_type (regs_of j ! r)"

definition assert :: "bool \<Rightarrow> unit option" where
  "assert b = (if b then Some () else None)"

lemma assert_simps [simp]:
  "assert True = Some ()" "assert False = None" "(assert b = Some u) = b" "(assert b = None) = (\<not> b)"
  by (simp_all add: assert_def)

subsection \<open>Registers and instruction slots\<close>

definition allocateRegister :: "irRegisterType \<Rightarrow> jitter \<Rightarrow> (nat \<times> jitter) option" where
  "allocateRegister t j = do {
     (reg, pool) \<leftarrow> memoryPoolAlloc sizeof_irRegister
        \<lparr>ir_type = t, ir_index = regIndex j, ir_firstWriteIndex = instructionIndex j,
         ir_lastReadIndex = -1, ir_backend = None\<rparr> (registerPoolAllocator j);
     Some (reg, j\<lparr>registerPoolAllocator := pool, regIndex := regIndex j + 1\<rparr>)
   }"

text \<open>\<open>r->lastReadIndex = jitter->instructionIndex\<close>.\<close>

definition mark_read :: "nat \<Rightarrow> jitter \<Rightarrow> jitter" where
  "mark_read r j = j\<lparr>registerPoolAllocator :=
     pool_update r (\<lambda>x. x\<lparr>ir_lastReadIndex := instructionIndex j\<rparr>) (registerPoolAllocator j)\<rparr>"

text \<open>\<open>if (r) r->lastReadIndex = jitter->instructionIndex\<close>.\<close>

definition mark_read_opt :: "nat option \<Rightarrow> jitter \<Rightarrow> jitter" where
  "mark_read_opt r j = (case r of None \<Rightarrow> j | Some r \<Rightarrow> mark_read r j)"

text \<open>Allocation of the instruction, its fields, and \<open>jitter->instructionIndex++\<close>.\<close>

definition push_insn :: "irInstruction \<Rightarrow> jitter \<Rightarrow> jitter option" where
  "push_insn insn j = do {
     (_, pool) \<leftarrow> memoryPoolAlloc sizeof_irInstruction insn (instructionPoolAllocator j);
     Some (j\<lparr>instructionPoolAllocator := pool, instructionIndex := instructionIndex j + 1\<rparr>)
   }"

subsection \<open>Constants, loads and stores\<close>

definition add_mov_const :: "irRegisterType \<Rightarrow> u64 \<Rightarrow> jitter \<Rightarrow> (nat \<times> jitter) option" where
  "add_mov_const t v j = do {
     (dst, j) \<leftarrow> allocateRegister t j;
     j \<leftarrow> push_insn (IR_MOV_CONST t dst v) j;
     Some (dst, j)
   }"

definition add_load :: "irRegisterType \<Rightarrow> nat \<Rightarrow> jitter \<Rightarrow> (nat \<times> jitter) option" where
  "add_load t address j = do {
     (dst, j) \<leftarrow> allocateRegister t j;
     let j = mark_read address j;
     j \<leftarrow> push_insn (IR_LOAD t dst address) j;
     Some (dst, j)
   }"

text \<open>\<open>add_store\<close> together with its four typed entries, which assert the type of the source.\<close>

definition add_store :: "irRegisterType \<Rightarrow> nat \<Rightarrow> nat \<Rightarrow> jitter \<Rightarrow> jitter option" where
  "add_store t src address j = do {
     assert (reg_type j src = t);
     let j = mark_read address j;
     let j = mark_read src j;
     push_insn (IR_STORE t src address) j
   }"

subsection \<open>Binary operations\<close>

definition add_binop :: "irBinopType \<Rightarrow> irRegisterType \<Rightarrow> nat \<Rightarrow> nat \<Rightarrow> jitter \<Rightarrow> (nat \<times> jitter) option"
where
  "add_binop b t op1 op2 j = do {
     (dst, j) \<leftarrow> allocateRegister (reg_type j op1) j;
     let j = mark_read op1 j;
     let j = mark_read op2 j;
     j \<leftarrow> push_insn (IR_BINOP b t dst op1 op2) j;
     Some (dst, j)
   }"

text \<open>
  The typed entries of the arithmetic, logical and comparison operators assert that both
  operands have the type of the operation; those of the shifts and the rotation assert that
  the second operand, the shift count, is an 8-bit register.
\<close>

definition add_same :: "irBinopType \<Rightarrow> irRegisterType \<Rightarrow> nat \<Rightarrow> nat \<Rightarrow> jitter \<Rightarrow> (nat \<times> jitter) option"
where
  "add_same b t op1 op2 j = do {
     assert (reg_type j op1 = t \<and> reg_type j op2 = t);
     add_binop b t op1 op2 j
   }"

definition add_shift :: "irBinopType \<Rightarrow> irRegisterType \<Rightarrow> nat \<Rightarrow> nat \<Rightarrow> jitter \<Rightarrow> (nat \<times> jitter) option"
where
  "add_shift b t op1 op2 j = do {
     assert (reg_type j op1 = t \<and> reg_type j op2 = IR_REG_8);
     add_binop b t op1 op2 j
   }"

definition add_add :: "irRegisterType \<Rightarrow> nat \<Rightarrow> nat \<Rightarrow> jitter \<Rightarrow> (nat \<times> jitter) option" where
  "add_add = add_same IR_BINOP_ADD"

definition add_sub :: "irRegisterType \<Rightarrow> nat \<Rightarrow> nat \<Rightarrow> jitter \<Rightarrow> (nat \<times> jitter) option" where
  "add_sub = add_same IR_BINOP_SUB"

definition add_xor :: "irRegisterType \<Rightarrow> nat \<Rightarrow> nat \<Rightarrow> jitter \<Rightarrow> (nat \<times> jitter) option" where
  "add_xor = add_same IR_BINOP_XOR"

definition add_and :: "irRegisterType \<Rightarrow> nat \<Rightarrow> nat \<Rightarrow> jitter \<Rightarrow> (nat \<times> jitter) option" where
  "add_and = add_same IR_BINOP_AND"

definition add_or :: "irRegisterType \<Rightarrow> nat \<Rightarrow> nat \<Rightarrow> jitter \<Rightarrow> (nat \<times> jitter) option" where
  "add_or = add_same IR_BINOP_OR"

definition add_shl :: "irRegisterType \<Rightarrow> nat \<Rightarrow> nat \<Rightarrow> jitter \<Rightarrow> (nat \<times> jitter) option" where
  "add_shl = add_shift IR_BINOP_SHL"

definition add_shr :: "irRegisterType \<Rightarrow> nat \<Rightarrow> nat \<Rightarrow> jitter \<Rightarrow> (nat \<times> jitter) option" where
  "add_shr = add_shift IR_BINOP_SHR"

definition add_asr :: "irRegisterType \<Rightarrow> nat \<Rightarrow> nat \<Rightarrow> jitter \<Rightarrow> (nat \<times> jitter) option" where
  "add_asr = add_shift IR_BINOP_ASR"

definition add_ror :: "irRegisterType \<Rightarrow> nat \<Rightarrow> nat \<Rightarrow> jitter \<Rightarrow> (nat \<times> jitter) option" where
  "add_ror = add_shift IR_BINOP_ROR"

definition add_cmpeq :: "irRegisterType \<Rightarrow> nat \<Rightarrow> nat \<Rightarrow> jitter \<Rightarrow> (nat \<times> jitter) option" where
  "add_cmpeq = add_same IR_BINOP_CMPEQ"

definition add_cmpne :: "irRegisterType \<Rightarrow> nat \<Rightarrow> nat \<Rightarrow> jitter \<Rightarrow> (nat \<times> jitter) option" where
  "add_cmpne = add_same IR_BINOP_CMPNE"

subsection \<open>Calls, selections, casts\<close>

text \<open>
  \<open>add_call\<close> ignores the name it is given. The result register is allocated last, with the
  type that belongs to the call instruction; a void call has none.
\<close>

definition add_call :: "irRegisterType option \<Rightarrow> string \<Rightarrow> nat \<Rightarrow> nat option list \<Rightarrow> jitter
    \<Rightarrow> (nat option \<times> jitter) option" where
  "add_call t name address param j = do {
     let j = mark_read address j;
     let j = fold mark_read_opt param j;
     (result, j) \<leftarrow> (case t of
         None \<Rightarrow> Some (None, j)
       | Some t \<Rightarrow> do { (r, j) \<leftarrow> allocateRegister t j; Some (Some r, j) });
     j \<leftarrow> push_insn (IR_CALL t ''Unknown'' address param result) j;
     Some (result, j)
   }"

definition add_ite :: "irRegisterType \<Rightarrow> nat \<Rightarrow> nat \<Rightarrow> nat \<Rightarrow> jitter \<Rightarrow> (nat \<times> jitter) option" where
  "add_ite t pred trueOp falseOp j = do {
     (dst, j) \<leftarrow> allocateRegister (reg_type j trueOp) j;
     assert (reg_type j pred = reg_type j trueOp \<and> reg_type j pred = reg_type j falseOp);
     let j = mark_read pred j;
     let j = mark_read trueOp j;
     let j = mark_read falseOp j;
     j \<leftarrow> push_insn (IR_ITE t dst pred trueOp falseOp) j;
     Some (dst, j)
   }"

text \<open>The eighteen entries \<open>add_8U_to_16\<close>, ..., \<open>add_64_to_32\<close> fix the type of the result.\<close>

definition add_cast :: "irCastType \<Rightarrow> nat \<Rightarrow> jitter \<Rightarrow> (nat \<times> jitter) option" where
  "add_cast c op j = do {
     (dst, j) \<leftarrow> allocateRegister (snd (cast_types c)) j;
     let j = mark_read op j;
     j \<leftarrow> push_insn (IR_CAST c dst op) j;
     Some (dst, j)
   }"

subsection \<open>Exits, context accesses, markers\<close>

definition add_exit_cond :: "nat \<Rightarrow> nat option \<Rightarrow> jitter \<Rightarrow> jitter option" where
  "add_exit_cond exitValue pred j = do {
     let j = mark_read exitValue j;
     let j = mark_read_opt pred j;
     assert (reg_type j exitValue = IR_REG_64);
     push_insn (IR_EXIT exitValue pred) j
   }"

definition add_exit :: "nat \<Rightarrow> jitter \<Rightarrow> jitter option" where
  "add_exit exitValue j = add_exit_cond exitValue None j"

definition add_read_context :: "irRegisterType \<Rightarrow> u32 \<Rightarrow> jitter \<Rightarrow> (nat \<times> jitter) option" where
  "add_read_context t offset j = do {
     (dst, j) \<leftarrow> allocateRegister t j;
     j \<leftarrow> push_insn (IR_READ t dst offset) j;
     Some (dst, j)
   }"

definition add_write_context :: "irRegisterType \<Rightarrow> nat \<Rightarrow> u32 \<Rightarrow> jitter \<Rightarrow> jitter option" where
  "add_write_context t src offset j = do {
     let j = mark_read src j;
     push_insn (IR_WRITE t src offset) j
   }"

definition add_insn_marker :: "u32 \<Rightarrow> jitter \<Rightarrow> jitter option" where
  "add_insn_marker v j = push_insn (IR_INSN_MARKER v) j"

subsection \<open>What every built sequence satisfies\<close>

text \<open>The last position of a sequence at which a register is read, -1 if there is none.\<close>

definition last_read :: "('i \<Rightarrow> nat list) \<Rightarrow> nat \<Rightarrow> 'i list \<Rightarrow> int" where
  "last_read rd r insns = foldl (\<lambda>acc (k, i). if r \<in> set (rd i) then int k else acc) (- 1)
     (enumerate 0 insns)"

fun insn_typed :: "irRegisterType list \<Rightarrow> irInstruction \<Rightarrow> bool" where
  "insn_typed ts (IR_MOV_CONST t d v) = (ts ! d = t)"
| "insn_typed ts (IR_LOAD t d a) = (ts ! d = t)"
| "insn_typed ts (IR_STORE t s a) = (ts ! s = t)"
| "insn_typed ts (IR_ITE t d p x y) = (ts ! d = ts ! x \<and> ts ! p = ts ! x \<and> ts ! y = ts ! x)"
| "insn_typed ts (IR_READ t d off) = (ts ! d = t)"
| "insn_typed ts (IR_WRITE t s off) = True"
| "insn_typed ts (IR_CALL t nm a ps r) = (length ps = 4 \<and> (case t of None \<Rightarrow> r = None
     | Some t \<Rightarrow> (case r of None \<Rightarrow> False | Some d \<Rightarrow> ts ! d = t)))"
| "insn_typed ts (IR_BINOP b t d x y) = (ts ! d = t \<and> ts ! x = t \<and>
     ts ! y = (if b \<in> {IR_BINOP_SHL, IR_BINOP_SHR, IR_BINOP_ASR, IR_BINOP_ROR} then IR_REG_8 else t))"
| "insn_typed ts (IR_CAST c d x) = (ts ! d = snd (cast_types c))"
| "insn_typed ts (IR_EXIT v p) = (ts ! v = IR_REG_64)"
| "insn_typed ts (IR_INSN_MARKER v) = True"

text \<open>
  The invariant of a jitter between two operations: the two pools are consistent with the
  counters, every register is written by exactly one instruction, the one its
  \<open>firstWriteIndex\<close> names, is read only by later ones, has the index of its position, and
  its \<open>lastReadIndex\<close> is the position of the last reader.
\<close>

definition ir_wf :: "jitter \<Rightarrow> bool" where
  "ir_wf j \<longleftrightarrow>
     pool_wf sizeof_irRegister (registerPoolAllocator j) \<and>
     pool_wf sizeof_irInstruction (instructionPoolAllocator j) \<and>
     regIndex j = int (length (regs_of j)) \<and>
     instructionIndex j = int (length (insns_of j)) \<and>
     (\<forall>r < length (regs_of j).
        ir_index (regs_of j ! r) = int r \<and> ir_backend (regs_of j ! r) = None \<and>
        0 \<le> ir_firstWriteIndex (regs_of j ! r) \<and>
        ir_firstWriteIndex (regs_of j ! r) < int (length (insns_of j)) \<and>
        ir_write (insns_of j ! nat (ir_firstWriteIndex (regs_of j ! r))) = Some r \<and>
        ir_lastReadIndex (regs_of j ! r) = last_read ir_reads r (insns_of j)) \<and>
     (\<forall>k < length (insns_of j).
        (\<forall>d. ir_write (insns_of j ! k) = Some d \<longrightarrow>
           d < length (regs_of j) \<and> ir_firstWriteIndex (regs_of j ! d) = int k) \<and>
        (\<forall>r \<in> set (ir_reads (insns_of j ! k)).
           r < length (regs_of j) \<and> ir_firstWriteIndex (regs_of j ! r) < int k) \<and>
        insn_typed (map ir_type (regs_of j)) (insns_of j ! k))"

lemma last_read_Nil [simp]: "last_read rd r [] = - 1"
  by (simp add: last_read_def)

lemma last_read_snoc [simp]:
  "last_read rd r (xs @ [i]) = (if r \<in> set (rd i) then int (length xs) else last_read rd r xs)"
  by (simp add: last_read_def enumerate_append_eq)

lemma insn_typed_append:
  assumes "\<forall>r \<in> set (ir_reads i). r < length ts" and "\<forall>d. ir_write i = Some d \<longrightarrow> d < length ts"
  shows "insn_typed (ts @ us) i = insn_typed ts i"
  using assms by (cases i) (auto simp: nth_append split: option.splits)

text \<open>The common shape of all builders.\<close>

definition emit :: "irRegisterType option \<Rightarrow> (nat option \<Rightarrow> irInstruction) \<Rightarrow> jitter
    \<Rightarrow> (nat option \<times> jitter) option" where
  "emit t mk j = do {
     (d, j) \<leftarrow> (case t of None \<Rightarrow> Some (None, j)
       | Some t \<Rightarrow> do { (r, j) \<leftarrow> allocateRegister t j; Some (Some r, j) });
     j \<leftarrow> push_insn (mk d) (fold mark_read (ir_reads (mk d)) j);
     Some (d, j)
   }"

lemma mark_read_simps [simp]:
  "length (regs_of (mark_read r j)) = length (regs_of j)"
  "instructionPoolAllocator (mark_read r j) = instructionPoolAllocator j"
  "instructionIndex (mark_read r j) = instructionIndex j"
  "regIndex (mark_read r j) = regIndex j"
  "pool_wf sz (registerPoolAllocator (mark_read r j)) = pool_wf sz (registerPoolAllocator j)"
  by (simp_all add: mark_read_def)

lemma fold_mark_read_simps [simp]:
  "length (regs_of (fold mark_read rs j)) = length (regs_of j)"
  "instructionPoolAllocator (fold mark_read rs j) = instructionPoolAllocator j"
  "instructionIndex (fold mark_read rs j) = instructionIndex j"
  "regIndex (fold mark_read rs j) = regIndex j"
  "pool_wf sz (registerPoolAllocator (fold mark_read rs j)) = pool_wf sz (registerPoolAllocator j)"
  by (induction rs arbitrary: j) simp_all

lemma mark_read_nth:
  "q < length (regs_of j) \<Longrightarrow> regs_of (mark_read r j) ! q =
     (if q = r then (regs_of j ! q)\<lparr>ir_lastReadIndex := instructionIndex j\<rparr> else regs_of j ! q)"
  by (simp add: mark_read_def pool_update_nth)

lemma fold_mark_read_nth:
  "q < length (regs_of j) \<Longrightarrow> regs_of (fold mark_read rs j) ! q =
     (if q \<in> set rs then (regs_of j ! q)\<lparr>ir_lastReadIndex := instructionIndex j\<rparr> else regs_of j ! q)"
  by (induction rs arbitrary: j) (auto simp: mark_read_nth)

lemma fold_mark_read_types [simp]:
  "map ir_type (regs_of (fold mark_read rs j)) = map ir_type (regs_of j)"
  by (rule nth_equalityI) (simp_all add: fold_mark_read_nth)

lemma fold_mark_read_opt: "fold mark_read_opt ps j = fold mark_read (concat (map opt_list ps)) j"
  by (induction ps arbitrary: j) (auto simp: mark_read_opt_def split: option.splits)

text \<open>What a successful \<open>emit\<close> does to the jitter.\<close>

definition new_regs :: "irRegisterType option \<Rightarrow> jitter \<Rightarrow> irRegister list" where
  "new_regs t j = (case t of None \<Rightarrow> []
     | Some t \<Rightarrow> [\<lparr>ir_type = t, ir_index = regIndex j, ir_firstWriteIndex = instructionIndex j,
         ir_lastReadIndex = -1, ir_backend = None\<rparr>])"

lemma allocateRegister_SomeD:
  assumes "allocateRegister t j = Some (r, j')"
  shows "r = length (regs_of j)" "regs_of j' = regs_of j @ new_regs (Some t) j"
    "instructionPoolAllocator j' = instructionPoolAllocator j"
    "instructionIndex j' = instructionIndex j" "regIndex j' = regIndex j + 1"
    "pool_wf sizeof_irRegister (registerPoolAllocator j) \<Longrightarrow>
       pool_wf sizeof_irRegister (registerPoolAllocator j')"
  using assms
  by (auto simp: allocateRegister_def new_regs_def dest: memoryPoolAlloc_SomeD memoryPoolAlloc_wf
      split: bind_splits)

lemma push_insn_SomeD:
  assumes "push_insn i j = Some j'"
  shows "registerPoolAllocator j' = registerPoolAllocator j" "insns_of j' = insns_of j @ [i]"
    "instructionIndex j' = instructionIndex j + 1" "regIndex j' = regIndex j"
    "pool_wf sizeof_irInstruction (instructionPoolAllocator j) \<Longrightarrow>
       pool_wf sizeof_irInstruction (instructionPoolAllocator j')"
  using assms
  by (auto simp: push_insn_def dest: memoryPoolAlloc_SomeD memoryPoolAlloc_wf split: bind_splits)

text \<open>The state between the allocation of the destination and the marking of the operands.\<close>

definition alloc_dst :: "irRegisterType option \<Rightarrow> jitter \<Rightarrow> (nat option \<times> jitter) option" where
  "alloc_dst t j = (case t of None \<Rightarrow> Some (None, j)
     | Some t \<Rightarrow> do { (r, j) \<leftarrow> allocateRegister t j; Some (Some r, j) })"

lemma alloc_dst_SomeD:
  assumes "alloc_dst t j = Some (d, j')"
  shows "d = map_option (\<lambda>_. length (regs_of j)) t" "regs_of j' = regs_of j @ new_regs t j"
    "instructionPoolAllocator j' = instructionPoolAllocator j"
    "instructionIndex j' = instructionIndex j" "regIndex j' = regIndex j + int (length (new_regs t j))"
    "pool_wf sizeof_irRegister (registerPoolAllocator j) \<Longrightarrow>
       pool_wf sizeof_irRegister (registerPoolAllocator j')"
proof (goal_cases)
  case 1 show ?case using assms
    by (auto simp: alloc_dst_def split: option.splits bind_splits dest: allocateRegister_SomeD(1))
next
  case 2 show ?case using assms
    by (auto simp: alloc_dst_def new_regs_def [of None] split: option.splits bind_splits
        dest: allocateRegister_SomeD(2))
next
  case 3 show ?case using assms
    by (auto simp: alloc_dst_def split: option.splits bind_splits dest: allocateRegister_SomeD(3))
next
  case 4 show ?case using assms
    by (auto simp: alloc_dst_def split: option.splits bind_splits dest: allocateRegister_SomeD(4))
next
  case 5 show ?case using assms
    by (auto simp: alloc_dst_def new_regs_def split: option.splits bind_splits
        dest: allocateRegister_SomeD(5))
next
  case 6 then show ?case using assms
    by (auto simp: alloc_dst_def split: option.splits bind_splits dest: allocateRegister_SomeD(6))
qed

lemma emit_SomeD:
  assumes em: "emit t mk j = Some (d, j')"
    and rd: "\<forall>r \<in> set (ir_reads (mk d)). r < length (regs_of j)"
  shows "d = map_option (\<lambda>_. length (regs_of j)) t"
    and "length (regs_of j') = length (regs_of j) + length (new_regs t j)"
    and "\<And>r. r < length (regs_of j) \<Longrightarrow> regs_of j' ! r = (if r \<in> set (ir_reads (mk d))
            then (regs_of j ! r)\<lparr>ir_lastReadIndex := instructionIndex j\<rparr> else regs_of j ! r)"
    and "drop (length (regs_of j)) (regs_of j') = new_regs t j"
    and "insns_of j' = insns_of j @ [mk d]"
    and "instructionIndex j' = instructionIndex j + 1"
    and "regIndex j' = regIndex j + int (length (new_regs t j))"
    and "pool_wf sizeof_irRegister (registerPoolAllocator j) \<Longrightarrow>
           pool_wf sizeof_irRegister (registerPoolAllocator j')"
    and "pool_wf sizeof_irInstruction (instructionPoolAllocator j) \<Longrightarrow>
           pool_wf sizeof_irInstruction (instructionPoolAllocator j')"
    and "map ir_type (regs_of j') = map ir_type (regs_of j @ new_regs t j)"
proof -
  obtain j1 where al: "alloc_dst t j = Some (d, j1)"
    and pu: "push_insn (mk d) (fold mark_read (ir_reads (mk d)) j1) = Some j'"
    using em unfolding emit_def alloc_dst_def [symmetric] by (auto split: bind_splits)
  note A = alloc_dst_SomeD [OF al] and P = push_insn_SomeD [OF pu]
  let ?f = "fold mark_read (ir_reads (mk d)) j1"
  show "d = map_option (\<lambda>_. length (regs_of j)) t" by (rule A)
  show "length (regs_of j') = length (regs_of j) + length (new_regs t j)" by (simp add: P A)
  show "regs_of j' ! r = (if r \<in> set (ir_reads (mk d))
     then (regs_of j ! r)\<lparr>ir_lastReadIndex := instructionIndex j\<rparr> else regs_of j ! r)"
    if "r < length (regs_of j)" for r
    using that by (simp add: P A fold_mark_read_nth nth_append)
  show "drop (length (regs_of j)) (regs_of j') = new_regs t j"
  proof (rule nth_equalityI)
    fix k assume "k < length (drop (length (regs_of j)) (regs_of j'))"
    then have k: "k < length (new_regs t j)" by (simp add: P A)
    moreover have "length (regs_of j) + k \<notin> set (ir_reads (mk d))" using rd by auto
    ultimately show "drop (length (regs_of j)) (regs_of j') ! k = new_regs t j ! k"
      by (simp add: P A fold_mark_read_nth)
  qed (simp add: P A)
  show "insns_of j' = insns_of j @ [mk d]" by (simp add: P A)
  show "instructionIndex j' = instructionIndex j + 1" by (simp add: P A)
  show "regIndex j' = regIndex j + int (length (new_regs t j))" by (simp add: P A)
  show "pool_wf sizeof_irRegister (registerPoolAllocator j')"
    if "pool_wf sizeof_irRegister (registerPoolAllocator j)" using that by (simp add: P A)
  show "pool_wf sizeof_irInstruction (instructionPoolAllocator j')"
    if "pool_wf sizeof_irInstruction (instructionPoolAllocator j)" using that P(5) by (simp add: A)
  show "map ir_type (regs_of j') = map ir_type (regs_of j @ new_regs t j)"
    by (simp add: P A)
qed

lemma ir_wfD:
  assumes "ir_wf j"
  shows "pool_wf sizeof_irRegister (registerPoolAllocator j)"
    "pool_wf sizeof_irInstruction (instructionPoolAllocator j)"
    "regIndex j = int (length (regs_of j))" "instructionIndex j = int (length (insns_of j))"
  using assms by (auto simp: ir_wf_def)

lemma ir_wf_regD:
  assumes "ir_wf j" and "r < length (regs_of j)"
  shows "ir_index (regs_of j ! r) = int r" "ir_backend (regs_of j ! r) = None"
    "0 \<le> ir_firstWriteIndex (regs_of j ! r)"
    "ir_firstWriteIndex (regs_of j ! r) < int (length (insns_of j))"
    "ir_write (insns_of j ! nat (ir_firstWriteIndex (regs_of j ! r))) = Some r"
    "ir_lastReadIndex (regs_of j ! r) = last_read ir_reads r (insns_of j)"
  using assms by (auto simp: ir_wf_def)

lemma ir_wf_insnD:
  assumes "ir_wf j" and "k < length (insns_of j)"
  shows "\<And>d. ir_write (insns_of j ! k) = Some d \<Longrightarrow> d < length (regs_of j)"
    "\<And>d. ir_write (insns_of j ! k) = Some d \<Longrightarrow> ir_firstWriteIndex (regs_of j ! d) = int k"
    "\<And>r. r \<in> set (ir_reads (insns_of j ! k)) \<Longrightarrow> r < length (regs_of j)"
    "\<And>r. r \<in> set (ir_reads (insns_of j ! k)) \<Longrightarrow> ir_firstWriteIndex (regs_of j ! r) < int k"
    "insn_typed (map ir_type (regs_of j)) (insns_of j ! k)"
  using assms by (auto simp: ir_wf_def)

lemma ir_wf_last_read_fresh:
  assumes "ir_wf j" and "length (regs_of j) \<le> r"
  shows "last_read ir_reads r (insns_of j) = - 1"
proof -
  have "\<forall>i \<in> set xs. r \<notin> set (ir_reads i) \<Longrightarrow> last_read ir_reads r xs = - 1" for xs
    by (induction xs rule: rev_induct) auto
  moreover have "\<forall>i \<in> set (insns_of j). r \<notin> set (ir_reads i)"
    using assms ir_wf_insnD(3) by (metis in_set_conv_nth leD)
  ultimately show ?thesis by blast
qed

lemma emit_wf:
  assumes wf: "ir_wf j" and em: "emit t mk j = Some (d, j')"
    and rd: "\<forall>r \<in> set (ir_reads (mk d)). r < length (regs_of j)"
    and wr: "ir_write (mk d) = d"
    and ty: "insn_typed (map ir_type (regs_of j @ new_regs t j)) (mk d)"
  shows "ir_wf j'"
proof -
  note E = emit_SomeD [OF em rd] and W = ir_wfD [OF wf]
  let ?R = "length (regs_of j)" and ?N = "length (insns_of j)"
  have old: "regs_of j' ! r = (if r \<in> set (ir_reads (mk d))
      then (regs_of j ! r)\<lparr>ir_lastReadIndex := int ?N\<rparr> else regs_of j ! r)" if "r < ?R" for r
    using E(3) [OF that] W(4) by simp
  have new: "regs_of j' ! ?R = \<lparr>ir_type = t', ir_index = int ?R, ir_firstWriteIndex = int ?N,
      ir_lastReadIndex = -1, ir_backend = None\<rparr>" "length (regs_of j') = Suc ?R" "d = Some ?R"
    if "t = Some t'" for t'
    using E(1,2,4) W that by (auto simp: new_regs_def dest: arg_cong [of _ _ "\<lambda>xs. xs ! 0"])
  have none: "length (regs_of j') = ?R" "d = None" if "t = None"
    using E(1,2) that by (auto simp: new_regs_def)
  have reg: "ir_index (regs_of j' ! r) = int r \<and> ir_backend (regs_of j' ! r) = None \<and>
        0 \<le> ir_firstWriteIndex (regs_of j' ! r) \<and>
        ir_firstWriteIndex (regs_of j' ! r) < int (length (insns_of j')) \<and>
        ir_write (insns_of j' ! nat (ir_firstWriteIndex (regs_of j' ! r))) = Some r \<and>
        ir_lastReadIndex (regs_of j' ! r) = last_read ir_reads r (insns_of j')"
    if r: "r < length (regs_of j')" for r
  proof (cases "r < ?R")
    case True
    have "nat (ir_firstWriteIndex (regs_of j ! r)) < ?N"
      using ir_wf_regD(3,4) [OF wf True] by linarith
    then show ?thesis
      using ir_wf_regD [OF wf True] by (auto simp: old [OF True] E(5) nth_append)
  next
    case False
    with r none new obtain t' where t': "t = Some t'" "r = ?R"
      by (cases t) auto
    have "?R \<notin> set (ir_reads (mk d))" using rd by auto
    then show ?thesis
      using new [OF t'(1)] wr ir_wf_last_read_fresh [OF wf, of ?R]
      by (simp add: t'(2) E(5))
  qed
  have insn: "(\<forall>d. ir_write (insns_of j' ! k) = Some d \<longrightarrow>
           d < length (regs_of j') \<and> ir_firstWriteIndex (regs_of j' ! d) = int k) \<and>
        (\<forall>r \<in> set (ir_reads (insns_of j' ! k)).
           r < length (regs_of j') \<and> ir_firstWriteIndex (regs_of j' ! r) < int k) \<and>
        insn_typed (map ir_type (regs_of j')) (insns_of j' ! k)"
    if k: "k < length (insns_of j')" for k
  proof (cases "k < ?N")
    case True
    note I = ir_wf_insnD [OF wf True]
    have "insn_typed (map ir_type (regs_of j')) (insns_of j ! k)"
      unfolding E(10) map_append using I by (subst insn_typed_append) auto
    then show ?thesis
      using I E(2) by (auto simp: E(5) nth_append True old intro: trans_less_add1)
  next
    case False
    with k have [simp]: "k = ?N" by (simp add: E(5))
    have "ir_firstWriteIndex (regs_of j' ! r) < int ?N" if "r \<in> set (ir_reads (mk d))" for r
      using that rd ir_wf_regD(4) [OF wf, of r] by (simp add: old)
    then show ?thesis
      using rd wr ty new none E(2) by (cases t) (auto simp: E(5) E(10))
  qed
  show ?thesis
    unfolding ir_wf_def
    using E(8) [OF W(1)] E(9) [OF W(2)] W reg insn by (simp add: E(2,5,6,7))
qed

subsection \<open>The builders in terms of \<open>emit\<close>\<close>

lemma alloc_dst_commute:
  assumes "\<forall>r \<in> set rs. r < length (regs_of j)"
  shows "alloc_dst t (fold mark_read rs j)
           = map_option (\<lambda>(d, j'). (d, fold mark_read rs j')) (alloc_dst t j)"
  using assms
proof (induction rs arbitrary: j)
  case Nil
  then show ?case by (cases "alloc_dst t j") auto
next
  case (Cons r rs)
  have "alloc_dst t (mark_read r j) = map_option (\<lambda>(d, j'). (d, mark_read r j')) (alloc_dst t j)"
    using Cons.prems
    by (cases t) (auto simp: alloc_dst_def allocateRegister_def mark_read_def memoryPoolAlloc_def
        pool_update_def nth_append list_update_append)
  with Cons show ?case by (simp add: option.map_comp comp_def case_prod_beta)
qed

lemma emit_alloc_dst:
  "emit t mk j = do { (d, j) \<leftarrow> alloc_dst t j;
     j \<leftarrow> push_insn (mk d) (fold mark_read (ir_reads (mk d)) j); Some (d, j) }"
  by (simp add: emit_def alloc_dst_def)

lemmas emit_unfold = emit_alloc_dst alloc_dst_def

lemma add_mov_const_emit:
  "add_mov_const t v j = map_option (apfst the) (emit (Some t) (\<lambda>d. IR_MOV_CONST t (the d) v) j)"
  by (auto simp: add_mov_const_def emit_unfold split: bind_splits)

lemma add_load_emit:
  "add_load t a j = map_option (apfst the) (emit (Some t) (\<lambda>d. IR_LOAD t (the d) a) j)"
  by (auto simp: add_load_def emit_unfold split: bind_splits)

lemma add_store_emit:
  "add_store t s a j = (if reg_type j s = t then map_option snd (emit None (\<lambda>_. IR_STORE t s a) j)
     else None)"
  by (auto simp: add_store_def emit_unfold split: bind_splits)

lemma add_binop_emit:
  "add_binop b t x y j = map_option (apfst the)
     (emit (Some (reg_type j x)) (\<lambda>d. IR_BINOP b t (the d) x y) j)"
  by (auto simp: add_binop_def emit_unfold split: bind_splits)

lemma add_cast_emit:
  "add_cast c x j = map_option (apfst the)
     (emit (Some (snd (cast_types c))) (\<lambda>d. IR_CAST c (the d) x) j)"
  by (auto simp: add_cast_def emit_unfold split: bind_splits)

lemma add_read_context_emit:
  "add_read_context t off j = map_option (apfst the) (emit (Some t) (\<lambda>d. IR_READ t (the d) off) j)"
  by (auto simp: add_read_context_def emit_unfold split: bind_splits)

lemma add_write_context_emit:
  "add_write_context t s off j = map_option snd (emit None (\<lambda>_. IR_WRITE t s off) j)"
  by (auto simp: add_write_context_def emit_unfold split: bind_splits)

lemma add_insn_marker_emit:
  "add_insn_marker v j = map_option snd (emit None (\<lambda>_. IR_INSN_MARKER v) j)"
  by (auto simp: add_insn_marker_def emit_unfold split: bind_splits)

lemma mark_read_type:
  "q < length (regs_of j) \<Longrightarrow> reg_type (mark_read r j) q = reg_type j q"
  by (simp add: mark_read_nth)

lemma fold_mark_read_opt_list: "fold mark_read (opt_list p) j = mark_read_opt p j"
  by (auto simp: mark_read_opt_def split: option.splits)

lemma add_exit_cond_emit:
  assumes "v < length (regs_of j)"
  shows "add_exit_cond v p j = (if reg_type j v = IR_REG_64
     then map_option snd (emit None (\<lambda>_. IR_EXIT v p) j) else None)"
  using assms
  by (cases p) (auto simp: add_exit_cond_def emit_unfold fold_mark_read_opt_list
      mark_read_opt_def mark_read_type split: bind_splits)

lemma add_ite_emit:
  assumes "p < length (regs_of j)" "x < length (regs_of j)" "y < length (regs_of j)"
  shows "add_ite t p x y j = (if reg_type j p = reg_type j x \<and> reg_type j p = reg_type j y
     then map_option (apfst the) (emit (Some (reg_type j x)) (\<lambda>d. IR_ITE t (the d) p x y) j)
     else None)"
  using assms
  by (auto simp: add_ite_def emit_unfold nth_append assert_def
      split: bind_splits dest!: allocateRegister_SomeD(2))

lemma add_call_emit:
  assumes "\<forall>r \<in> set (a # concat (map opt_list ps)). r < length (regs_of j)"
  shows "add_call t nm a ps j = emit t (\<lambda>r. IR_CALL t ''Unknown'' a ps r) j"
proof -
  have "add_call t nm a ps j = do {
      (r, j) \<leftarrow> alloc_dst t (fold mark_read (a # concat (map opt_list ps)) j);
      j \<leftarrow> push_insn (IR_CALL t ''Unknown'' a ps r) j; Some (r, j) }"
    by (simp add: add_call_def alloc_dst_def fold_mark_read_opt Let_def)
  also have "\<dots> = emit t (\<lambda>r. IR_CALL t ''Unknown'' a ps r) j"
    unfolding alloc_dst_commute [OF assms] emit_alloc_dst
    by (cases "alloc_dst t j") (auto simp: case_prod_beta)
  finally show ?thesis .
qed

subsection \<open>Creation and reset\<close>

text \<open>
  The backend belongs to the jitter through a pointer; its state is a second component and
  its \<open>reset\<close> entry a parameter.
\<close>

definition resetJitter :: "('b \<Rightarrow> 'b) \<Rightarrow> jitter \<times> 'b \<Rightarrow> jitter \<times> 'b" where
  "resetJitter be_reset = (\<lambda>(j, be).
     (j\<lparr>registerPoolAllocator := memoryPoolReset (registerPoolAllocator j),
        instructionPoolAllocator := memoryPoolReset (instructionPoolAllocator j),
        instructionIndex := 0, regIndex := 0\<rparr>, be_reset be))"

text \<open>\<open>createJitter\<close> on the (zeroed) memory it is given: the two halves behind the header are the pools.\<close>

definition createJitter :: "('b \<Rightarrow> 'b) \<Rightarrow> 'b \<Rightarrow> int \<Rightarrow> (jitter \<times> 'b) option" where
  "createJitter be_reset be sz = do {
     assert (sz \<ge> JITTER_MIN_CONTEXT_SIZE);
     let pool_mem_size = (sz - ((sizeof_jitter + 15) div 16) * 16) div 2;
     let empty = \<lparr>pool_buffer = [], pool_index = 0, pool_size = 0\<rparr>;
     let j = \<lparr>registerPoolAllocator = memoryPoolInit empty pool_mem_size,
              instructionIndex = 0, regIndex = 0,
              instructionPoolAllocator = memoryPoolInit \<lparr>pool_buffer = [], pool_index = 0, pool_size = 0\<rparr>
                pool_mem_size\<rparr>;
     Some (resetJitter be_reset (j, be))
   }"

lemma createJitter_wf:
  assumes "createJitter be_reset be sz = Some (j, be')"
  shows "ir_wf j" and "regs_of j = []" and "insns_of j = []" and "be' = be_reset be"
proof -
  from assms have "0 \<le> (sz - 832) div 2"
    by (auto simp: createJitter_def JITTER_MIN_CONTEXT_SIZE_def split: bind_splits)
  with assms show "ir_wf j" "regs_of j = []" "insns_of j = []" "be' = be_reset be"
    by (auto simp: createJitter_def resetJitter_def ir_wf_def pool_wf_def memoryPoolReset_def
        memoryPoolInit_def sizeof_jitter_def Let_def split: bind_splits)
qed

lemma resetJitter_wf:
  assumes "ir_wf j" and "resetJitter be_reset (j, be) = (j', be')"
  shows "ir_wf j'" and "regs_of j' = []" and "insns_of j' = []"
proof -
  have "0 \<le> pool_size (registerPoolAllocator j)" "0 \<le> pool_size (instructionPoolAllocator j)"
    using ir_wfD(1,2) [OF assms(1)]
    by (auto simp: pool_wf_def sizeof_irRegister_def sizeof_irInstruction_def)
  with assms(2) show "ir_wf j'" "regs_of j' = []" "insns_of j' = []"
    by (auto simp: resetJitter_def ir_wf_def memoryPoolReset_wf) (auto simp: memoryPoolReset_def)
qed

subsection \<open>Every sequence of builder calls\<close>

text \<open>
  A client builds a sequence by calls through \<open>struct irInstructionAllocator\<close>; the pointers
  it passes are ones it got from earlier calls.
\<close>

datatype ir_op =
    Mov_const irRegisterType u64 | Load irRegisterType nat | Store irRegisterType nat nat
  | Add irRegisterType nat nat | Sub irRegisterType nat nat | Xor irRegisterType nat nat
  | And irRegisterType nat nat | Or irRegisterType nat nat | Shl irRegisterType nat nat
  | Shr irRegisterType nat nat | Asr irRegisterType nat nat | Ror irRegisterType nat nat
  | Cmpeq irRegisterType nat nat | Cmpne irRegisterType nat nat
  | Call "irRegisterType option" string nat "nat option list" | Ite irRegisterType nat nat nat
  | Cast irCastType nat | Exit nat | Exit_cond nat "nat option"
  | Read_context irRegisterType u32 | Write_context irRegisterType nat u32 | Insn_marker u32

fun op_args :: "ir_op \<Rightarrow> nat list" where
  "op_args (Mov_const t v) = []"
| "op_args (Load t a) = [a]"
| "op_args (Store t s a) = [a, s]"
| "op_args (Add t x y) = [x, y]"
| "op_args (Sub t x y) = [x, y]"
| "op_args (Xor t x y) = [x, y]"
| "op_args (And t x y) = [x, y]"
| "op_args (Or t x y) = [x, y]"
| "op_args (Shl t x y) = [x, y]"
| "op_args (Shr t x y) = [x, y]"
| "op_args (Asr t x y) = [x, y]"
| "op_args (Ror t x y) = [x, y]"
| "op_args (Cmpeq t x y) = [x, y]"
| "op_args (Cmpne t x y) = [x, y]"
| "op_args (Call t nm a ps) = a # concat (map opt_list ps)"
| "op_args (Ite t p x y) = [p, x, y]"
| "op_args (Cast c x) = [x]"
| "op_args (Exit v) = [v]"
| "op_args (Exit_cond v p) = v # opt_list p"
| "op_args (Read_context t off) = []"
| "op_args (Write_context t s off) = [s]"
| "op_args (Insn_marker v) = []"

fun run_op :: "ir_op \<Rightarrow> jitter \<Rightarrow> jitter option" where
  "run_op (Mov_const t v) j = map_option snd (add_mov_const t v j)"
| "run_op (Load t a) j = map_option snd (add_load t a j)"
| "run_op (Store t s a) j = add_store t s a j"
| "run_op (Add t x y) j = map_option snd (add_add t x y j)"
| "run_op (Sub t x y) j = map_option snd (add_sub t x y j)"
| "run_op (Xor t x y) j = map_option snd (add_xor t x y j)"
| "run_op (And t x y) j = map_option snd (add_and t x y j)"
| "run_op (Or t x y) j = map_option snd (add_or t x y j)"
| "run_op (Shl t x y) j = map_option snd (add_shl t x y j)"
| "run_op (Shr t x y) j = map_option snd (add_shr t x y j)"
| "run_op (Asr t x y) j = map_option snd (add_asr t x y j)"
| "run_op (Ror t x y) j = map_option snd (add_ror t x y j)"
| "run_op (Cmpeq t x y) j = map_option snd (add_cmpeq t x y j)"
| "run_op (Cmpne t x y) j = map_option snd (add_cmpne t x y j)"
| "run_op (Call t nm a ps) j = map_option snd (add_call t nm a ps j)"
| "run_op (Ite t p x y) j = map_option snd (add_ite t p x y j)"
| "run_op (Cast c x) j = map_option snd (add_cast c x j)"
| "run_op (Exit v) j = add_exit v j"
| "run_op (Exit_cond v p) j = add_exit_cond v p j"
| "run_op (Read_context t off) j = map_option snd (add_read_context t off j)"
| "run_op (Write_context t s off) j = add_write_context t s off j"
| "run_op (Insn_marker v) j = add_insn_marker v j"

text \<open>The parameter array of a call has four entries.\<close>

fun op_arity :: "ir_op \<Rightarrow> bool" where
  "op_arity (Call t nm a ps) = (length ps = 4)"
| "op_arity _ = True"

inductive ir_built :: "jitter \<Rightarrow> bool" where
  created: "createJitter id () sz = Some (j, be') \<Longrightarrow> ir_built j"
| reset: "ir_built j \<Longrightarrow> resetJitter id (j, ()) = (j', be') \<Longrightarrow> ir_built j'"
| built: "ir_built j \<Longrightarrow> \<forall>r \<in> set (op_args op). r < length (regs_of j) \<Longrightarrow> op_arity op \<Longrightarrow>
     run_op op j = Some j' \<Longrightarrow> ir_built j'"

lemma emit_wf_reg:
  assumes "ir_wf j" and em: "emit (Some t) mk j = Some (d, j')"
    and "\<forall>r \<in> set (ir_reads (mk (Some (length (regs_of j))))). r < length (regs_of j)"
    and "ir_write (mk (Some (length (regs_of j)))) = Some (length (regs_of j))"
    and "insn_typed (map ir_type (regs_of j) @ [t]) (mk (Some (length (regs_of j))))"
  shows "ir_wf j'"
proof -
  obtain j1 where "alloc_dst (Some t) j = Some (d, j1)"
    using em by (auto simp: emit_alloc_dst split: bind_splits)
  then have "d = Some (length (regs_of j))" by (auto dest: alloc_dst_SomeD(1))
  with assms show ?thesis by (intro emit_wf [OF assms(1) em]) (simp_all add: new_regs_def)
qed

lemma emit_wf_none:
  assumes "ir_wf j" and em: "emit None mk j = Some (d, j')"
    and "\<forall>r \<in> set (ir_reads (mk None)). r < length (regs_of j)"
    and "ir_write (mk None) = None" and "insn_typed (map ir_type (regs_of j)) (mk None)"
  shows "ir_wf j'"
proof -
  obtain j1 where "alloc_dst None j = Some (d, j1)"
    using em by (auto simp: emit_alloc_dst split: bind_splits)
  then have "d = None" by (auto dest: alloc_dst_SomeD(1))
  with assms show ?thesis by (intro emit_wf [OF assms(1) em]) (simp_all add: new_regs_def)
qed

lemma add_same_wf:
  assumes "ir_wf j" "x < length (regs_of j)" "y < length (regs_of j)"
    and "add_same b t x y j = Some (d, j')"
    and "b \<notin> {IR_BINOP_SHL, IR_BINOP_SHR, IR_BINOP_ASR, IR_BINOP_ROR}"
  shows "ir_wf j'"
proof -
  obtain d' where ty: "reg_type j x = t" "reg_type j y = t"
    and em: "emit (Some t) (\<lambda>d. IR_BINOP b t (the d) x y) j = Some (d', j')"
    using assms(4) by (auto simp: add_same_def add_binop_emit split: bind_splits)
  show ?thesis
    by (rule emit_wf_reg [OF assms(1) em]) (use assms ty in \<open>auto simp: nth_append\<close>)
qed

lemma add_shift_wf:
  assumes "ir_wf j" "x < length (regs_of j)" "y < length (regs_of j)"
    and "add_shift b t x y j = Some (d, j')"
    and "b \<in> {IR_BINOP_SHL, IR_BINOP_SHR, IR_BINOP_ASR, IR_BINOP_ROR}"
  shows "ir_wf j'"
proof -
  obtain d' where ty: "reg_type j x = t" "reg_type j y = IR_REG_8"
    and em: "emit (Some t) (\<lambda>d. IR_BINOP b t (the d) x y) j = Some (d', j')"
    using assms(4) by (auto simp: add_shift_def add_binop_emit split: bind_splits)
  show ?thesis
    by (rule emit_wf_reg [OF assms(1) em]) (use assms ty in \<open>auto simp: nth_append\<close>)
qed

lemma add_call_wf:
  assumes "ir_wf j" "\<forall>r \<in> set (a # concat (map opt_list ps)). r < length (regs_of j)"
    and "add_call t nm a ps j = Some (d, j')" "length ps = 4"
  shows "ir_wf j'"
proof (cases t)
  case None
  have em: "emit None (\<lambda>r. IR_CALL None ''Unknown'' a ps r) j = Some (d, j')"
    using assms(3) by (simp add: add_call_emit [OF assms(2)] None)
  show ?thesis by (rule emit_wf_none [OF assms(1) em]) (use assms in auto)
next
  case (Some t')
  have em: "emit (Some t') (\<lambda>r. IR_CALL (Some t') ''Unknown'' a ps r) j = Some (d, j')"
    using assms(3) by (simp add: add_call_emit [OF assms(2)] Some)
  show ?thesis by (rule emit_wf_reg [OF assms(1) em]) (use assms in auto)
qed

lemma add_ite_wf:
  assumes "ir_wf j" and bd: "p < length (regs_of j)" "x < length (regs_of j)" "y < length (regs_of j)"
    and "add_ite t p x y j = Some (d, j')"
  shows "ir_wf j'"
proof -
  obtain d' where ty: "reg_type j p = reg_type j x" "reg_type j p = reg_type j y"
    and em: "emit (Some (reg_type j x)) (\<lambda>d. IR_ITE t (the d) p x y) j = Some (d', j')"
    using assms(5) by (auto simp: add_ite_emit [OF bd] split: if_splits)
  show ?thesis
    by (rule emit_wf_reg [OF assms(1) em]) (use bd ty in \<open>auto simp: nth_append\<close>)
qed

lemma add_exit_cond_wf:
  assumes "ir_wf j" "v < length (regs_of j)" "\<forall>r \<in> set (opt_list p). r < length (regs_of j)"
    and "add_exit_cond v p j = Some j'"
  shows "ir_wf j'"
proof -
  obtain d' where ty: "reg_type j v = IR_REG_64"
    and em: "emit None (\<lambda>_. IR_EXIT v p) j = Some (d', j')"
    using assms(4) by (auto simp: add_exit_cond_emit [OF assms(2)] split: if_splits)
  show ?thesis by (rule emit_wf_none [OF assms(1) em]) (use assms ty in auto)
qed

lemma run_op_wf:
  assumes "ir_wf j" and bd: "\<forall>r \<in> set (op_args op). r < length (regs_of j)" and ar: "op_arity op"
    and run: "run_op op j = Some j'"
  shows "ir_wf j'"
proof (cases op)
  case (Mov_const t v)
  then obtain d' where em: "emit (Some t) (\<lambda>d. IR_MOV_CONST t (the d) v) j = Some (d', j')"
    using run by (auto simp: add_mov_const_emit)
  show ?thesis by (rule emit_wf_reg [OF assms(1) em]) (use bd Mov_const in auto)
next
  case (Load t a)
  then obtain d' where em: "emit (Some t) (\<lambda>d. IR_LOAD t (the d) a) j = Some (d', j')"
    using run by (auto simp: add_load_emit)
  show ?thesis by (rule emit_wf_reg [OF assms(1) em]) (use bd Load in auto)
next
  case (Store t s a)
  then obtain d' where "reg_type j s = t" "emit None (\<lambda>_. IR_STORE t s a) j = Some (d', j')"
    using run by (auto simp: add_store_emit split: if_splits)
  then show ?thesis using bd Store by (intro emit_wf_none [OF assms(1)]) auto
next
  case (Call t nm a ps)
  then obtain d' where "add_call t nm a ps j = Some (d', j')" using run by auto
  with Call bd ar show ?thesis by (intro add_call_wf [OF assms(1)]) simp_all
next
  case (Ite t p x y)
  with run bd show ?thesis by (auto intro: add_ite_wf [OF assms(1)])
next
  case (Cast c x)
  then obtain d' where em: "emit (Some (snd (cast_types c))) (\<lambda>d. IR_CAST c (the d) x) j = Some (d', j')"
    using run by (auto simp: add_cast_emit)
  show ?thesis by (rule emit_wf_reg [OF assms(1) em]) (use bd Cast in auto)
next
  case (Exit v)
  with run bd show ?thesis
    by (intro add_exit_cond_wf [OF assms(1), of v None]) (simp_all add: add_exit_def)
next
  case (Exit_cond v p)
  with run bd show ?thesis by (intro add_exit_cond_wf [OF assms(1), of v p]) simp_all
next
  case (Read_context t off)
  then obtain d' where em: "emit (Some t) (\<lambda>d. IR_READ t (the d) off) j = Some (d', j')"
    using run by (auto simp: add_read_context_emit)
  show ?thesis by (rule emit_wf_reg [OF assms(1) em]) (use bd Read_context in auto)
next
  case (Write_context t s off)
  then obtain d' where em: "emit None (\<lambda>d. IR_WRITE t s off) j = Some (d', j')"
    using run by (auto simp: add_write_context_emit)
  show ?thesis by (rule emit_wf_none [OF assms(1) em]) (use bd Write_context in auto)
next
  case (Insn_marker v)
  then obtain d' where em: "emit None (\<lambda>d. IR_INSN_MARKER v) j = Some (d', j')"
    using run by (auto simp: add_insn_marker_emit)
  show ?thesis by (rule emit_wf_none [OF assms(1) em]) (use bd Insn_marker in auto)
qed (use run bd in \<open>auto simp: add_add_def add_sub_def add_xor_def add_and_def add_or_def add_shl_def
    add_shr_def add_asr_def add_ror_def add_cmpeq_def add_cmpne_def
    intro: add_same_wf [OF assms(1)] add_shift_wf [OF assms(1)]\<close>)

theorem ir_built_wf: "ir_built j \<Longrightarrow> ir_wf j"
proof (induction rule: ir_built.induct)
  case (created sz j be')
  then show ?case by (rule createJitter_wf)
next
  case (reset j j' be')
  then show ?case by (blast intro: resetJitter_wf)
next
  case (built j op j')
  then show ?case by (blast intro: run_op_wf)
qed

end
