(* ===== verification/Be_Select.thy ===== *)
theory Be_Select
  imports Jitter
begin

text \<open>
  The first pass of the x86_64 backend (\<open>src/src/jitter/x86_64/be_x86_64.c\<close>): its registers
  and instructions, the builders that record them and \<open>allocateInstructions\<close>, which
  translates the intermediate sequence into host instructions over virtual host registers.
  As in the intermediate code, the enumerators of one family that differ in width are one
  constructor with the width as an argument. The type of a register reference is a parameter
  of the instruction type: a pointer into the register pool while the sequence is built, and
  the number of a physical register once \<open>->index\<close> has been read through the pointer.
\<close>

record x86Register =
  isConstant :: bool
  x_index :: int
  x_firstWriteIndex :: int
  x_lastReadIndex :: int

datatype x86BinopType =
    X86_BINOP_ADD | X86_BINOP_SUB | X86_BINOP_XOR | X86_BINOP_AND | X86_BINOP_OR
  | X86_BINOP_SHL | X86_BINOP_SHR | X86_BINOP_ASR | X86_BINOP_ROR
  | X86_BINOP_CMPEQ | X86_BINOP_CMPNE

datatype 'r x86Instruction =
    X86_MOV_CONST 'r u64
  | X86_LOAD irRegisterType 'r 'r
  | X86_STORE irRegisterType 'r 'r
  | X86_BINOP irRegisterType x86BinopType 'r 'r 'r
  | X86_ITE 'r 'r 'r 'r
  | X86_CAST irCastType 'r 'r
  | X86_EXIT 'r "'r option" bool
  | X86_CALL 'r "'r option list" "'r option"
  | X86_READ irRegisterType 'r u32
  | X86_WRITE irRegisterType 'r u32
  | X86_INSN_MARKER u32

record inter =
  x_registerPool :: "x86Register memoryPool"
  x_instructionPool :: "nat x86Instruction memoryPool"
  x_regIndex :: int
  x_instructionIndex :: int

definition sizeof_x86Register :: int where "sizeof_x86Register = 16"
definition sizeof_x86Instruction :: int where "sizeof_x86Instruction = 56"
definition sizeof_inter :: int where "sizeof_inter = 128"

abbreviation xregs_of :: "inter \<Rightarrow> x86Register list" where
  "xregs_of s \<equiv> pool_buffer (x_registerPool s)"

abbreviation xinsns_of :: "inter \<Rightarrow> nat x86Instruction list" where
  "xinsns_of s \<equiv> pool_buffer (x_instructionPool s)"

text \<open>The pass mutates the backend and the \<open>backend\<close> fields of the intermediate registers.\<close>

type_synonym bstate = "inter \<times> irRegister list"

subsection \<open>Virtual host registers\<close>

definition x86_allocateRegister :: "nat option \<Rightarrow> bstate \<Rightarrow> (nat \<times> bstate) option" where
  "x86_allocateRegister irReg = (\<lambda>(s, irs).
     case Option.bind irReg (\<lambda>r. ir_backend (irs ! r)) of
       Some p \<Rightarrow> Some (p, s, irs)
     | None \<Rightarrow> do {
         (p, pool) \<leftarrow> memoryPoolAlloc sizeof_x86Register
            \<lparr>isConstant = False, x_index = x_regIndex s,
             x_firstWriteIndex = x_instructionIndex s, x_lastReadIndex = -1\<rparr> (x_registerPool s);
         Some (p, s\<lparr>x_registerPool := pool, x_regIndex := x_regIndex s + 1\<rparr>,
           (case irReg of None \<Rightarrow> irs | Some r \<Rightarrow> irs[r := (irs ! r)\<lparr>ir_backend := Some p\<rparr>]))
       })"

definition x86_mark_read :: "nat \<Rightarrow> inter \<Rightarrow> inter" where
  "x86_mark_read p s = s\<lparr>x_registerPool :=
     pool_update p (\<lambda>x. x\<lparr>x_lastReadIndex := x_instructionIndex s\<rparr>) (x_registerPool s)\<rparr>"

definition x86_mark_read_opt :: "nat option \<Rightarrow> inter \<Rightarrow> inter" where
  "x86_mark_read_opt p s = (case p of None \<Rightarrow> s | Some p \<Rightarrow> x86_mark_read p s)"

definition x86_push_insn :: "nat x86Instruction \<Rightarrow> inter \<Rightarrow> inter option" where
  "x86_push_insn i s = do {
     (_, pool) \<leftarrow> memoryPoolAlloc sizeof_x86Instruction i (x_instructionPool s);
     Some (s\<lparr>x_instructionPool := pool, x_instructionIndex := x_instructionIndex s + 1\<rparr>)
   }"

subsection \<open>Builders\<close>

definition x86_add_mov_const :: "nat \<Rightarrow> u64 \<Rightarrow> inter \<Rightarrow> inter option" where
  "x86_add_mov_const dst v s =
     x86_push_insn (X86_MOV_CONST dst v)
       (s\<lparr>x_registerPool := pool_update dst (\<lambda>x. x\<lparr>isConstant := True\<rparr>) (x_registerPool s)\<rparr>)"

definition x86_add_load :: "irRegisterType \<Rightarrow> nat \<Rightarrow> nat \<Rightarrow> inter \<Rightarrow> inter option" where
  "x86_add_load t dst address s = x86_push_insn (X86_LOAD t dst address) (x86_mark_read address s)"

definition x86_add_store :: "irRegisterType \<Rightarrow> nat \<Rightarrow> nat \<Rightarrow> inter \<Rightarrow> inter option" where
  "x86_add_store t src address s =
     x86_push_insn (X86_STORE t src address) (x86_mark_read src (x86_mark_read address s))"

definition x86_add_exit :: "nat \<Rightarrow> nat option \<Rightarrow> inter \<Rightarrow> inter option" where
  "x86_add_exit v pred s =
     (let s = x86_mark_read_opt pred (x86_mark_read v s)
      in x86_push_insn (X86_EXIT v pred (isConstant (xregs_of s ! v))) s)"

definition x86_add_binop :: "irRegisterType \<Rightarrow> x86BinopType \<Rightarrow> nat \<Rightarrow> nat \<Rightarrow> nat \<Rightarrow> inter \<Rightarrow> inter option" where
  "x86_add_binop t b dst op1 op2 s =
     x86_push_insn (X86_BINOP t b dst op1 op2) (x86_mark_read op2 (x86_mark_read op1 s))"

definition x86_add_ite :: "nat \<Rightarrow> nat \<Rightarrow> nat \<Rightarrow> nat \<Rightarrow> inter \<Rightarrow> inter option" where
  "x86_add_ite dst pred trueOp falseOp s =
     x86_push_insn (X86_ITE dst pred trueOp falseOp)
       (x86_mark_read falseOp (x86_mark_read trueOp (x86_mark_read pred s)))"

definition x86_add_cast :: "irCastType \<Rightarrow> nat \<Rightarrow> nat \<Rightarrow> inter \<Rightarrow> inter option" where
  "x86_add_cast c dst op s = x86_push_insn (X86_CAST c dst op) (x86_mark_read op s)"

definition x86_add_call :: "nat \<Rightarrow> nat option list \<Rightarrow> nat option \<Rightarrow> inter \<Rightarrow> inter option" where
  "x86_add_call address params result s =
     x86_push_insn (X86_CALL address params result)
       (fold x86_mark_read_opt params (x86_mark_read address s))"

definition x86_add_read :: "irRegisterType \<Rightarrow> nat \<Rightarrow> u32 \<Rightarrow> inter \<Rightarrow> inter option" where
  "x86_add_read t dst off s = x86_push_insn (X86_READ t dst off) s"

definition x86_add_write :: "irRegisterType \<Rightarrow> nat \<Rightarrow> u32 \<Rightarrow> inter \<Rightarrow> inter option" where
  "x86_add_write t src off s = x86_push_insn (X86_WRITE t src off) (x86_mark_read src s)"

definition x86_add_insn_start_marker :: "u32 \<Rightarrow> inter \<Rightarrow> inter option" where
  "x86_add_insn_start_marker v s = x86_push_insn (X86_INSN_MARKER v) s"

subsection \<open>\<open>allocateInstructions\<close>\<close>

fun binop_of :: "irBinopType \<Rightarrow> x86BinopType" where
  "binop_of IR_BINOP_ADD = X86_BINOP_ADD"
| "binop_of IR_BINOP_SUB = X86_BINOP_SUB"
| "binop_of IR_BINOP_XOR = X86_BINOP_XOR"
| "binop_of IR_BINOP_AND = X86_BINOP_AND"
| "binop_of IR_BINOP_OR = X86_BINOP_OR"
| "binop_of IR_BINOP_SHL = X86_BINOP_SHL"
| "binop_of IR_BINOP_SHR = X86_BINOP_SHR"
| "binop_of IR_BINOP_ASR = X86_BINOP_ASR"
| "binop_of IR_BINOP_ROR = X86_BINOP_ROR"
| "binop_of IR_BINOP_CMPEQ = X86_BINOP_CMPEQ"
| "binop_of IR_BINOP_CMPNE = X86_BINOP_CMPNE"

fun asr_shift :: "irRegisterType \<Rightarrow> u64" where
  "asr_shift IR_REG_8 = 56"
| "asr_shift IR_REG_16 = 48"
| "asr_shift IR_REG_32 = 32"
| "asr_shift IR_REG_64 = 0"

fun alloc_params :: "nat option list \<Rightarrow> bstate \<Rightarrow> (nat option list \<times> bstate) option" where
  "alloc_params [] b = Some ([], b)"
| "alloc_params (None # ps) b = do { (qs, b) \<leftarrow> alloc_params ps b; Some (None # qs, b) }"
| "alloc_params (Some p # ps) b = do {
     (q, b) \<leftarrow> x86_allocateRegister (Some p) b;
     (qs, b) \<leftarrow> alloc_params ps b;
     Some (Some q # qs, b) }"

text \<open>
  One iteration of the loop. The order in which C evaluates the \<open>allocateRegister\<close> calls of
  one argument list is unspecified; it only decides the provisional \<open>index\<close> of registers,
  which \<open>allocateRegisters\<close> overwrites. The model evaluates from left to right.
\<close>

fun allocateInstruction :: "irInstruction \<Rightarrow> bstate \<Rightarrow> bstate option" where
  "allocateInstruction (IR_MOV_CONST t d v) b = do {
     (dst, s, irs) \<leftarrow> x86_allocateRegister (Some d) b;
     s \<leftarrow> x86_add_mov_const dst v s;
     Some (s, irs) }"
| "allocateInstruction (IR_LOAD t d a) b = do {
     (dst, b) \<leftarrow> x86_allocateRegister (Some d) b;
     (address, s, irs) \<leftarrow> x86_allocateRegister (Some a) b;
     s \<leftarrow> x86_add_load t dst address s;
     Some (s, irs) }"
| "allocateInstruction (IR_STORE t x a) b = do {
     (src, b) \<leftarrow> x86_allocateRegister (Some x) b;
     (address, s, irs) \<leftarrow> x86_allocateRegister (Some a) b;
     s \<leftarrow> x86_add_store t src address s;
     Some (s, irs) }"
| "allocateInstruction (IR_BINOP bop t d x y) b = do {
     (dst, b) \<leftarrow> x86_allocateRegister (Some d) b;
     (op1, b) \<leftarrow> x86_allocateRegister (Some x) b;
     (op2, s, irs) \<leftarrow> x86_allocateRegister (Some y) b;
     if bop = IR_BINOP_ASR then
       if asr_shift t \<noteq> 0 then do {
         (shiftValue, s, irs) \<leftarrow> x86_allocateRegister None (s, irs);
         s \<leftarrow> x86_add_mov_const shiftValue (asr_shift t) s;
         (shiftLeftResult, s, irs) \<leftarrow> x86_allocateRegister None (s, irs);
         s \<leftarrow> x86_add_binop IR_REG_64 X86_BINOP_SHL shiftLeftResult op1 shiftValue s;
         (shiftRightResult, s, irs) \<leftarrow> x86_allocateRegister None (s, irs);
         s \<leftarrow> x86_add_binop IR_REG_64 X86_BINOP_ASR shiftRightResult shiftLeftResult shiftValue s;
         s \<leftarrow> x86_add_binop t X86_BINOP_ASR dst shiftRightResult op2 s;
         Some (s, irs) }
       else do {
         (shiftRightResult, s, irs) \<leftarrow> x86_allocateRegister (Some x) (s, irs);
         s \<leftarrow> x86_add_binop t X86_BINOP_ASR dst shiftRightResult op2 s;
         Some (s, irs) }
     else do {
       s \<leftarrow> x86_add_binop t (binop_of bop) dst op1 op2 s;
       Some (s, irs) } }"
| "allocateInstruction (IR_ITE t d p x y) b = do {
     (dst, b) \<leftarrow> x86_allocateRegister (Some d) b;
     (pred, b) \<leftarrow> x86_allocateRegister (Some p) b;
     (trueOp, b) \<leftarrow> x86_allocateRegister (Some x) b;
     (falseOp, s, irs) \<leftarrow> x86_allocateRegister (Some y) b;
     s \<leftarrow> x86_add_ite dst pred trueOp falseOp s;
     Some (s, irs) }"
| "allocateInstruction (IR_CAST c d x) b = do {
     (dst, b) \<leftarrow> x86_allocateRegister (Some d) b;
     (op, s, irs) \<leftarrow> x86_allocateRegister (Some x) b;
     s \<leftarrow> x86_add_cast c dst op s;
     Some (s, irs) }"
| "allocateInstruction (IR_EXIT v p) b = do {
     (val, b) \<leftarrow> x86_allocateRegister (Some v) b;
     (case p of
        Some p \<Rightarrow> do {
          (pred, s, irs) \<leftarrow> x86_allocateRegister (Some p) b;
          s \<leftarrow> x86_add_exit val (Some pred) s;
          Some (s, irs) }
      | None \<Rightarrow> do {
          s \<leftarrow> x86_add_exit val None (fst b);
          Some (s, snd b) }) }"
| "allocateInstruction (IR_CALL t nm a ps r) b = do {
     (params, b) \<leftarrow> alloc_params ps b;
     (result, b) \<leftarrow> (case r of
         None \<Rightarrow> Some (None, b)
       | Some r \<Rightarrow> do { (q, b) \<leftarrow> x86_allocateRegister (Some r) b; Some (Some q, b) });
     (address, s, irs) \<leftarrow> x86_allocateRegister (Some a) b;
     s \<leftarrow> x86_add_call address params result s;
     Some (s, irs) }"
| "allocateInstruction (IR_READ t d off) b =
     (if ir_lastReadIndex (snd b ! d) \<noteq> -1 then do {
        (dst, s, irs) \<leftarrow> x86_allocateRegister (Some d) b;
        s \<leftarrow> x86_add_read t dst off s;
        Some (s, irs) }
      else Some b)"
| "allocateInstruction (IR_WRITE t x off) b = do {
     (src, s, irs) \<leftarrow> x86_allocateRegister (Some x) b;
     s \<leftarrow> x86_add_write t src off s;
     Some (s, irs) }"
| "allocateInstruction (IR_INSN_MARKER v) b = do {
     s \<leftarrow> x86_add_insn_start_marker v (fst b);
     Some (s, snd b) }"

fun allocateInstructions :: "irInstruction list \<Rightarrow> bstate \<Rightarrow> bstate option" where
  "allocateInstructions [] b = Some b"
| "allocateInstructions (i # is) b = do {
     b \<leftarrow> allocateInstruction i b;
     allocateInstructions is b }"

subsection \<open>Registers a host instruction reads and writes\<close>

fun x_reads :: "'r x86Instruction \<Rightarrow> 'r list" where
  "x_reads (X86_MOV_CONST d v) = []"
| "x_reads (X86_LOAD t d a) = [a]"
| "x_reads (X86_STORE t s a) = [a, s]"
| "x_reads (X86_BINOP t b d x y) = [x, y]"
| "x_reads (X86_ITE d p x y) = [p, x, y]"
| "x_reads (X86_CAST c d x) = [x]"
| "x_reads (X86_EXIT v p k) = v # opt_list p"
| "x_reads (X86_CALL a ps r) = a # concat (map opt_list ps)"
| "x_reads (X86_READ t d off) = []"
| "x_reads (X86_WRITE t s off) = [s]"
| "x_reads (X86_INSN_MARKER v) = []"

fun x_write :: "'r x86Instruction \<Rightarrow> 'r option" where
  "x_write (X86_MOV_CONST d v) = Some d"
| "x_write (X86_LOAD t d a) = Some d"
| "x_write (X86_STORE t s a) = None"
| "x_write (X86_BINOP t b d x y) = Some d"
| "x_write (X86_ITE d p x y) = Some d"
| "x_write (X86_CAST c d x) = Some d"
| "x_write (X86_EXIT v p k) = None"
| "x_write (X86_CALL a ps r) = r"
| "x_write (X86_READ t d off) = Some d"
| "x_write (X86_WRITE t s off) = None"
| "x_write (X86_INSN_MARKER v) = None"

end
