(* ===== verification/Be_RegAlloc.thy ===== *)
theory Be_RegAlloc
  imports Be_Select
begin

text \<open>
  The second pass of the x86_64 backend: \<open>allocateRegisters\<close> walks the host instructions
  once and gives every virtual register one of the eight registers \<open>r8\<close> to \<open>r15\<close>,
  taking the first free one at the definition and freeing it after the last use.
\<close>

definition REG_NUMBER :: nat where "REG_NUMBER = 8"

text \<open>The virtual registers with their \<open>index\<close> fields, and \<open>freeRegList\<close>.\<close>

type_synonym astate = "x86Register list \<times> bool list"

definition getFreeRegRaw :: "bool list \<Rightarrow> (nat \<times> bool list) option" where
  "getFreeRegRaw freeRegList = do {
     i \<leftarrow> find (\<lambda>i. freeRegList ! i) [0..<REG_NUMBER];
     Some (i, freeRegList[i := False])
   }"

definition getFreeReg :: "nat \<Rightarrow> astate \<Rightarrow> astate option" where
  "getFreeReg reg = (\<lambda>(regs, freeRegList). do {
     (i, freeRegList) \<leftarrow> getFreeRegRaw freeRegList;
     Some (regs[reg := (regs ! reg)\<lparr>x_index := int i\<rparr>],
           if x_lastReadIndex (regs ! reg) = -1 then freeRegList[i := True] else freeRegList)
   })"

text \<open>\<open>if (r->lastReadIndex == i) freeRegList[r->index] = 1\<close>.\<close>

definition release :: "int \<Rightarrow> nat \<Rightarrow> astate \<Rightarrow> astate" where
  "release i r = (\<lambda>(regs, freeRegList).
     (regs, if x_lastReadIndex (regs ! r) = i
            then freeRegList[nat (x_index (regs ! r)) := True] else freeRegList))"

definition release_opt :: "int \<Rightarrow> nat option \<Rightarrow> astate \<Rightarrow> astate" where
  "release_opt i r a = (case r of None \<Rightarrow> a | Some r \<Rightarrow> release i r a)"

fun allocateRegistersInsn :: "int \<Rightarrow> nat x86Instruction \<Rightarrow> astate \<Rightarrow> astate option" where
  "allocateRegistersInsn i (X86_MOV_CONST d v) a = getFreeReg d a"
| "allocateRegistersInsn i (X86_LOAD t d x) a = do {
     a \<leftarrow> getFreeReg d a;
     Some (release i x a) }"
| "allocateRegistersInsn i (X86_STORE t x y) a = Some (release i x (release i y a))"
| "allocateRegistersInsn i (X86_BINOP t b d x y) a = do {
     a \<leftarrow> getFreeReg d a;
     Some (release i y (release i x a)) }"
| "allocateRegistersInsn i (X86_EXIT v p k) a = Some (release_opt i p (release i v a))"
| "allocateRegistersInsn i (X86_ITE d p x y) a = do {
     a \<leftarrow> getFreeReg d a;
     Some (release i y (release i x (release i p a))) }"
| "allocateRegistersInsn i (X86_CAST c d x) a = do {
     a \<leftarrow> getFreeReg d a;
     Some (release i x a) }"
| "allocateRegistersInsn i (X86_CALL x ps r) a = do {
     a \<leftarrow> (case r of None \<Rightarrow> Some a | Some r \<Rightarrow> getFreeReg r a);
     Some (fold (release_opt i) ps (release i x a)) }"
| "allocateRegistersInsn i (X86_READ t d off) a = getFreeReg d a"
| "allocateRegistersInsn i (X86_WRITE t x off) a = Some (release i x a)"
| "allocateRegistersInsn i (X86_INSN_MARKER v) a = Some a"

fun allocateRegistersFrom :: "int \<Rightarrow> nat x86Instruction list \<Rightarrow> astate \<Rightarrow> astate option" where
  "allocateRegistersFrom i [] a = Some a"
| "allocateRegistersFrom i (insn # insns) a = do {
     a \<leftarrow> allocateRegistersInsn i insn a;
     allocateRegistersFrom (i + 1) insns a }"

definition allocateRegisters :: "inter \<Rightarrow> inter option" where
  "allocateRegisters s = do {
     (regs, freeRegList) \<leftarrow> allocateRegistersFrom 0 (xinsns_of s)
        (xregs_of s, replicate REG_NUMBER True);
     Some (s\<lparr>x_registerPool := (x_registerPool s)\<lparr>pool_buffer := regs\<rparr>\<rparr>)
   }"

end
