(* ===== verification/Be_CodeGen.thy ===== *)
theory Be_CodeGen
  imports Be_RegAlloc
begin

text \<open>
  The third pass of the x86_64 backend: the emitters \<open>gen_*\<close>, \<open>generateCode\<close>,
  \<open>findInsnInCode\<close> and \<open>patch\<close>. An emitter advances a pointer into the output buffer and
  writes the bytes it passes; the model returns the list of those bytes. Eight bytes of a
  patchable exit are skipped and keep whatever the buffer held: they are \<open>None\<close> in the list.
  Registers are given by the number in their \<open>index\<close> field, 0 to 7 for \<open>r8\<close> to \<open>r15\<close>.
\<close>

type_synonym code = "u8 option list"

abbreviation B :: "u8 list \<Rightarrow> code" where "B \<equiv> map Some"

abbreviation (input) REX_OPCODE :: u8 where "REX_OPCODE \<equiv> 0x40"
abbreviation (input) REX_W :: u8 where "REX_W \<equiv> 0x08"
abbreviation (input) REX_R :: u8 where "REX_R \<equiv> 0x04"
abbreviation (input) REX_B :: u8 where "REX_B \<equiv> 0x01"
abbreviation (input) MODRM_MODE_2 :: u8 where "MODRM_MODE_2 \<equiv> 0x80"
abbreviation (input) MODRM_MODE_3 :: u8 where "MODRM_MODE_3 \<equiv> 0xc0"

definition MODRM_REG :: "u8 \<Rightarrow> u8" where "MODRM_REG r = push_bit 3 r"

definition le64 :: "u64 \<Rightarrow> u8 list" where
  "le64 v = [byte 0 v, byte 1 v, byte 2 v, byte 3 v, byte 4 v, byte 5 v, byte 6 v, byte 7 v]"

definition le32 :: "u32 \<Rightarrow> u8 list" where
  "le32 v = [byte 0 v, byte 1 v, byte 2 v, byte 3 v]"

subsection \<open>Moves, loads, stores\<close>

definition gen_mov_const_hlp :: "u8 \<Rightarrow> u64 \<Rightarrow> code" where
  "gen_mov_const_hlp dst v =
     (if v \<noteq> 0
      then B ([REX_OPCODE OR REX_W OR REX_B, 0xb8 + dst] @ le64 v)
      else B [REX_OPCODE OR REX_R OR REX_B, 0x31, 0xc0 OR push_bit 3 dst OR dst])"

definition gen_mov_const :: "u8 \<Rightarrow> u64 \<Rightarrow> code" where
  "gen_mov_const dst v = gen_mov_const_hlp dst v"

definition sib_disp32 :: "u8 \<Rightarrow> u8 \<Rightarrow> u8 list" where
  "sib_disp32 r address = [MODRM_MODE_2 OR MODRM_REG r OR 4, push_bit 3 4 OR address, 0, 0, 0, 0]"

definition gen_load_8 :: "u8 \<Rightarrow> u8 \<Rightarrow> code" where
  "gen_load_8 dst address = B ([REX_OPCODE OR REX_R OR REX_B, 0x8a] @ sib_disp32 dst address)"

definition gen_load_16 :: "u8 \<Rightarrow> u8 \<Rightarrow> code" where
  "gen_load_16 dst address = B ([0x66, REX_OPCODE OR REX_R OR REX_B, 0x8b] @ sib_disp32 dst address)"

definition gen_load_32 :: "u8 \<Rightarrow> u8 \<Rightarrow> code" where
  "gen_load_32 dst address = B ([REX_OPCODE OR REX_R OR REX_B, 0x8b] @ sib_disp32 dst address)"

definition gen_load_64 :: "u8 \<Rightarrow> u8 \<Rightarrow> code" where
  "gen_load_64 dst address = B ([REX_OPCODE OR REX_R OR REX_B OR REX_W, 0x8b] @ sib_disp32 dst address)"

text \<open>The store emitters read \<open>u.load.dst\<close>, which shares its storage with \<open>u.store.src\<close>.\<close>

definition gen_store_8 :: "u8 \<Rightarrow> u8 \<Rightarrow> code" where
  "gen_store_8 src address = B ([REX_OPCODE OR REX_R OR REX_B, 0x88] @ sib_disp32 src address)"

definition gen_store_16 :: "u8 \<Rightarrow> u8 \<Rightarrow> code" where
  "gen_store_16 src address = B ([0x66, REX_OPCODE OR REX_R OR REX_B, 0x89] @ sib_disp32 src address)"

definition gen_store_32 :: "u8 \<Rightarrow> u8 \<Rightarrow> code" where
  "gen_store_32 src address = B ([REX_OPCODE OR REX_R OR REX_B, 0x89] @ sib_disp32 src address)"

definition gen_store_64 :: "u8 \<Rightarrow> u8 \<Rightarrow> code" where
  "gen_store_64 src address = B ([REX_OPCODE OR REX_R OR REX_B OR REX_W, 0x89] @ sib_disp32 src address)"

definition gen_move_reg_low :: "u8 \<Rightarrow> u8 \<Rightarrow> code" where
  "gen_move_reg_low low_index src =
     B [REX_OPCODE OR REX_B OR REX_W, 0x8b, MODRM_MODE_3 OR MODRM_REG low_index OR src]"

definition gen_move_reg_from_low :: "u8 \<Rightarrow> u8 \<Rightarrow> code" where
  "gen_move_reg_from_low low_index dst =
     B [REX_OPCODE OR REX_R OR REX_W, 0x8b, MODRM_MODE_3 OR MODRM_REG dst OR low_index]"

definition gen_move_reg :: "u8 \<Rightarrow> u8 \<Rightarrow> code" where
  "gen_move_reg dst src =
     B [REX_OPCODE OR REX_R OR REX_B OR REX_W, 0x8b, MODRM_MODE_3 OR MODRM_REG dst OR src]"

subsection \<open>Exits\<close>

definition gen_cmp_zero :: "u8 \<Rightarrow> code" where
  "gen_cmp_zero r = B [REX_OPCODE OR REX_B OR REX_W, 0x81, MODRM_MODE_3 OR MODRM_REG 7 OR r, 0, 0, 0, 0]"

definition gen_exit_sequence :: "u8 \<Rightarrow> bool \<Rightarrow> code" where
  "gen_exit_sequence val is_patchable =
     gen_move_reg_low 0 val
     @ (if is_patchable then B [0x48, 0x8d, 0x15, 0, 0, 0, 0]
        else B [REX_OPCODE, 0x31, 0xc0 OR push_bit 3 2 OR 2])
     @ B [0xc3]
     @ (if is_patchable
        then B [0x48, 0xb8] @ replicate 8 None @ B [0xff, 0xe0] @ B [0x48, 0x8d, 0x15, 0, 0, 0, 0]
        else [])"

definition gen_exit :: "u8 \<Rightarrow> u8 option \<Rightarrow> bool \<Rightarrow> code" where
  "gen_exit val pred is_patchable =
     (case pred of
        None \<Rightarrow> gen_exit_sequence val is_patchable
      | Some p \<Rightarrow> gen_cmp_zero p
          @ B [0x74, of_nat (length (gen_exit_sequence val is_patchable))]
          @ gen_exit_sequence val is_patchable)"

subsection \<open>Operations\<close>

definition gen_cmp :: "bool \<Rightarrow> u8 \<Rightarrow> u8 \<Rightarrow> u8 \<Rightarrow> code" where
  "gen_cmp isEq dst op1 op2 =
     gen_mov_const_hlp dst (NOT 0)
     @ B [REX_OPCODE OR REX_R OR REX_B OR REX_W, 0x3b, MODRM_MODE_3 OR MODRM_REG op2 OR op1]
     @ B [if isEq then 0x74 else 0x75, of_nat (length (gen_mov_const_hlp dst 0))]
     @ gen_mov_const_hlp dst 0"

fun binopToOpcode :: "x86BinopType \<Rightarrow> u8" where
  "binopToOpcode X86_BINOP_ADD = 0x01"
| "binopToOpcode X86_BINOP_SUB = 0x29"
| "binopToOpcode X86_BINOP_XOR = 0x31"
| "binopToOpcode X86_BINOP_AND = 0x21"
| "binopToOpcode X86_BINOP_OR = 0x09"
| "binopToOpcode X86_BINOP_SHL = 0xd3"
| "binopToOpcode X86_BINOP_SHR = 0xd3"
| "binopToOpcode X86_BINOP_ASR = 0xd3"
| "binopToOpcode X86_BINOP_ROR = 0xd3"
| "binopToOpcode X86_BINOP_CMPEQ = 0xff"
| "binopToOpcode X86_BINOP_CMPNE = 0xff"

definition gen_shift :: "u8 \<Rightarrow> u8 \<Rightarrow> u8 \<Rightarrow> u8 \<Rightarrow> code" where
  "gen_shift subtype dst op1 op2 =
     gen_move_reg_low 1 op2 @ gen_move_reg dst op1
     @ B [REX_OPCODE OR REX_B OR REX_W, 0xd3, MODRM_MODE_3 OR MODRM_REG subtype OR dst]"

definition gen_ror :: "irRegisterType \<Rightarrow> u8 \<Rightarrow> u8 \<Rightarrow> u8 \<Rightarrow> code" where
  "gen_ror t dst op1 op2 =
     gen_move_reg_low 1 op2 @ gen_move_reg dst op1
     @ (if t = IR_REG_16 then B [0x66] else [])
     @ B [REX_OPCODE OR REX_B OR (if t = IR_REG_64 then REX_W else 0),
          if t = IR_REG_8 then 0xd2 else 0xd3,
          MODRM_MODE_3 OR MODRM_REG 1 OR dst]"

definition gen_mask :: "u8 \<Rightarrow> u64 \<Rightarrow> code" where
  "gen_mask dst m =
     (if m \<noteq> 0
      then B ([REX_OPCODE OR REX_W, 0xb8 + 1] @ le64 m)
           @ B [REX_OPCODE OR REX_B OR REX_W, 0x21, MODRM_MODE_3 OR MODRM_REG 1 OR dst]
      else [])"

definition gen_binop :: "irRegisterType \<Rightarrow> x86BinopType \<Rightarrow> u8 \<Rightarrow> u8 \<Rightarrow> u8 \<Rightarrow> u64 \<Rightarrow> code" where
  "gen_binop t b dst op1 op2 m =
     (case b of
        X86_BINOP_CMPEQ \<Rightarrow> gen_cmp True dst op1 op2
      | X86_BINOP_CMPNE \<Rightarrow> gen_cmp False dst op1 op2
      | X86_BINOP_SHL \<Rightarrow> gen_shift 4 dst op1 op2
      | X86_BINOP_SHR \<Rightarrow> gen_shift 5 dst op1 op2
      | X86_BINOP_ASR \<Rightarrow> gen_shift 7 dst op1 op2
      | X86_BINOP_ROR \<Rightarrow> gen_ror t dst op1 op2
      | _ \<Rightarrow> gen_move_reg dst op1
             @ B [REX_OPCODE OR REX_R OR REX_B OR REX_W, binopToOpcode b,
                  MODRM_MODE_3 OR MODRM_REG op2 OR dst])
     @ gen_mask dst m"

definition gen_ite :: "u8 \<Rightarrow> u8 \<Rightarrow> u8 \<Rightarrow> u8 \<Rightarrow> code" where
  "gen_ite dst pred trueOp falseOp =
     gen_move_reg dst falseOp @ gen_cmp_zero pred
     @ B [REX_OPCODE OR REX_R OR REX_B OR REX_W, 0x0f, 0x45, MODRM_MODE_3 OR MODRM_REG dst OR trueOp]"

definition gen_upper_unsigned_cast_hlp :: "u8 \<Rightarrow> u8 \<Rightarrow> u64 \<Rightarrow> code" where
  "gen_upper_unsigned_cast_hlp dst op m =
     gen_mov_const_hlp dst m
     @ B [REX_OPCODE OR REX_R OR REX_B OR REX_W, 0x21, MODRM_MODE_3 OR MODRM_REG op OR dst]"

definition gen_upper_signed_cast_hlp :: "u8 \<Rightarrow> u8 \<Rightarrow> u8 \<Rightarrow> code" where
  "gen_upper_signed_cast_hlp dst op shift_value =
     gen_move_reg dst op
     @ B [REX_OPCODE OR REX_B OR REX_W, 0xc1, MODRM_MODE_3 OR MODRM_REG 4 OR dst, shift_value]
     @ B [REX_OPCODE OR REX_B OR REX_W, 0xc1, MODRM_MODE_3 OR MODRM_REG 7 OR dst, shift_value]"

fun gen_cast :: "irCastType \<Rightarrow> u8 \<Rightarrow> u8 \<Rightarrow> code" where
  "gen_cast IR_CAST_8U_TO_16 dst op = gen_upper_unsigned_cast_hlp dst op 0xff"
| "gen_cast IR_CAST_8U_TO_32 dst op = gen_upper_unsigned_cast_hlp dst op 0xff"
| "gen_cast IR_CAST_8U_TO_64 dst op = gen_upper_unsigned_cast_hlp dst op 0xff"
| "gen_cast IR_CAST_16U_TO_32 dst op = gen_upper_unsigned_cast_hlp dst op 0xffff"
| "gen_cast IR_CAST_16U_TO_64 dst op = gen_upper_unsigned_cast_hlp dst op 0xffff"
| "gen_cast IR_CAST_32U_TO_64 dst op = gen_upper_unsigned_cast_hlp dst op 0xffffffff"
| "gen_cast IR_CAST_8S_TO_16 dst op = gen_upper_signed_cast_hlp dst op 56"
| "gen_cast IR_CAST_8S_TO_32 dst op = gen_upper_signed_cast_hlp dst op 56"
| "gen_cast IR_CAST_8S_TO_64 dst op = gen_upper_signed_cast_hlp dst op 56"
| "gen_cast IR_CAST_16S_TO_32 dst op = gen_upper_signed_cast_hlp dst op 48"
| "gen_cast IR_CAST_16S_TO_64 dst op = gen_upper_signed_cast_hlp dst op 48"
| "gen_cast IR_CAST_32S_TO_64 dst op = gen_upper_signed_cast_hlp dst op 32"
| "gen_cast IR_CAST_64_TO_8 dst op = gen_upper_unsigned_cast_hlp dst op 0xff"
| "gen_cast IR_CAST_32_TO_8 dst op = gen_upper_unsigned_cast_hlp dst op 0xff"
| "gen_cast IR_CAST_16_TO_8 dst op = gen_upper_unsigned_cast_hlp dst op 0xff"
| "gen_cast IR_CAST_64_TO_16 dst op = gen_upper_unsigned_cast_hlp dst op 0xffff"
| "gen_cast IR_CAST_32_TO_16 dst op = gen_upper_unsigned_cast_hlp dst op 0xffff"
| "gen_cast IR_CAST_64_TO_32 dst op = gen_upper_unsigned_cast_hlp dst op 0xffffffff"

subsection \<open>Calls\<close>

definition gen_push_hlp :: "u8 \<Rightarrow> code" where
  "gen_push_hlp index =
     B [if index \<ge> 8 then REX_OPCODE OR REX_B OR REX_W else REX_OPCODE OR REX_W, 0x50 + (index AND 7)]"

definition gen_pop_hlp :: "u8 \<Rightarrow> code" where
  "gen_pop_hlp index =
     B [if index \<ge> 8 then REX_OPCODE OR REX_B OR REX_W else REX_OPCODE OR REX_W, 0x58 + (index AND 7)]"

definition gen_param :: "(u8 \<Rightarrow> code) \<Rightarrow> u8 option \<Rightarrow> code" where
  "gen_param g p = (case p of None \<Rightarrow> [] | Some p \<Rightarrow> g p)"

definition gen_call :: "u8 \<Rightarrow> u8 option list \<Rightarrow> u8 option \<Rightarrow> code" where
  "gen_call address param result =
     gen_push_hlp 7 @ gen_push_hlp 8 @ gen_push_hlp 9 @ gen_push_hlp 10 @ gen_push_hlp 11 @ gen_push_hlp 12
     @ gen_move_reg_low 0 address
     @ gen_param (gen_move_reg_low 1) (param ! 2)
     @ gen_param (gen_move_reg_low 2) (param ! 1)
     @ gen_param (gen_move_reg_low 6) (param ! 0)
     @ gen_param (gen_move_reg 0) (param ! 3)
     @ B [REX_OPCODE OR REX_W, 0xff, MODRM_MODE_3 OR MODRM_REG 2 OR 0]
     @ gen_pop_hlp 12 @ gen_pop_hlp 11 @ gen_pop_hlp 10 @ gen_pop_hlp 9 @ gen_pop_hlp 8 @ gen_pop_hlp 7
     @ gen_param (gen_move_reg_from_low 0) result"

subsection \<open>Context accesses\<close>

definition rdi_disp32 :: "u8 \<Rightarrow> u32 \<Rightarrow> u8 list" where
  "rdi_disp32 r offset = [MODRM_MODE_2 OR MODRM_REG r OR 7] @ le32 offset"

definition gen_read_8 :: "u8 \<Rightarrow> u32 \<Rightarrow> code" where
  "gen_read_8 dst offset = B ([REX_OPCODE OR REX_R, 0x8a] @ rdi_disp32 dst offset)"

definition gen_read_16 :: "u8 \<Rightarrow> u32 \<Rightarrow> code" where
  "gen_read_16 dst offset = B ([0x66, REX_OPCODE OR REX_R, 0x8b] @ rdi_disp32 dst offset)"

definition gen_read_32 :: "u8 \<Rightarrow> u32 \<Rightarrow> code" where
  "gen_read_32 dst offset = B ([REX_OPCODE OR REX_R, 0x8b] @ rdi_disp32 dst offset)"

definition gen_read_64 :: "u8 \<Rightarrow> u32 \<Rightarrow> code" where
  "gen_read_64 dst offset = B ([REX_OPCODE OR REX_R OR REX_W, 0x8b] @ rdi_disp32 dst offset)"

definition gen_write_8 :: "u8 \<Rightarrow> u32 \<Rightarrow> code" where
  "gen_write_8 src offset = B ([REX_OPCODE OR REX_R, 0x88] @ rdi_disp32 src offset)"

definition gen_write_16 :: "u8 \<Rightarrow> u32 \<Rightarrow> code" where
  "gen_write_16 src offset = B ([0x66, REX_OPCODE OR REX_R, 0x89] @ rdi_disp32 src offset)"

definition gen_write_32 :: "u8 \<Rightarrow> u32 \<Rightarrow> code" where
  "gen_write_32 src offset = B ([REX_OPCODE OR REX_R, 0x89] @ rdi_disp32 src offset)"

definition gen_write_64 :: "u8 \<Rightarrow> u32 \<Rightarrow> code" where
  "gen_write_64 src offset = B ([REX_OPCODE OR REX_R OR REX_W, 0x89] @ rdi_disp32 src offset)"

subsection \<open>The loops over the instructions\<close>

definition binop_mask :: "irRegisterType \<Rightarrow> u64" where
  "binop_mask t = (case t of IR_REG_8 \<Rightarrow> 0xff | IR_REG_16 \<Rightarrow> 0xffff | IR_REG_32 \<Rightarrow> 0xffffffff
     | IR_REG_64 \<Rightarrow> 0)"

text \<open>The switch of \<open>generateCode\<close>; a marker falls into the default branch and asserts.\<close>

fun gen_insn :: "u8 x86Instruction \<Rightarrow> code option" where
  "gen_insn (X86_MOV_CONST d v) = Some (gen_mov_const d v)"
| "gen_insn (X86_LOAD t d a) = Some (case t of IR_REG_8 \<Rightarrow> gen_load_8 d a | IR_REG_16 \<Rightarrow> gen_load_16 d a
     | IR_REG_32 \<Rightarrow> gen_load_32 d a | IR_REG_64 \<Rightarrow> gen_load_64 d a)"
| "gen_insn (X86_STORE t s a) = Some (case t of IR_REG_8 \<Rightarrow> gen_store_8 s a | IR_REG_16 \<Rightarrow> gen_store_16 s a
     | IR_REG_32 \<Rightarrow> gen_store_32 s a | IR_REG_64 \<Rightarrow> gen_store_64 s a)"
| "gen_insn (X86_BINOP t b d x y) = Some (gen_binop t b d x y (binop_mask t))"
| "gen_insn (X86_EXIT v p k) = Some (gen_exit v p k)"
| "gen_insn (X86_ITE d p x y) = Some (gen_ite d p x y)"
| "gen_insn (X86_CAST c d x) = Some (gen_cast c d x)"
| "gen_insn (X86_CALL a ps r) = Some (gen_call a ps r)"
| "gen_insn (X86_READ t d off) = Some (case t of IR_REG_8 \<Rightarrow> gen_read_8 d off | IR_REG_16 \<Rightarrow> gen_read_16 d off
     | IR_REG_32 \<Rightarrow> gen_read_32 d off | IR_REG_64 \<Rightarrow> gen_read_64 d off)"
| "gen_insn (X86_WRITE t s off) = Some (case t of IR_REG_8 \<Rightarrow> gen_write_8 s off | IR_REG_16 \<Rightarrow> gen_write_16 s off
     | IR_REG_32 \<Rightarrow> gen_write_32 s off | IR_REG_64 \<Rightarrow> gen_write_64 s off)"
| "gen_insn (X86_INSN_MARKER v) = None"

fun gen_insns :: "u8 x86Instruction list \<Rightarrow> code option" where
  "gen_insns [] = Some []"
| "gen_insns (i # is) = do { c \<leftarrow> gen_insn i; cs \<leftarrow> gen_insns is; Some (c @ cs) }"

text \<open>\<open>->index\<close> of the register a pointer names.\<close>

definition phys :: "x86Register list \<Rightarrow> nat \<Rightarrow> u8" where
  "phys regs p = of_int (x_index (regs ! p))"

definition phys_insns :: "inter \<Rightarrow> u8 x86Instruction list" where
  "phys_insns s = map (map_x86Instruction (phys (xregs_of s))) (xinsns_of s)"

definition generateCode :: "inter \<Rightarrow> code option" where
  "generateCode s = gen_insns (phys_insns s)"

text \<open>
  \<open>findInsnInCode\<close> emits the same code again and stops once the position has reached the
  offset; it returns the value of the last marker it passed, \<open>~0\<close> if there was none.
\<close>

fun findInsnFrom :: "u8 x86Instruction list \<Rightarrow> nat \<Rightarrow> u32 \<Rightarrow> nat \<Rightarrow> u32 option" where
  "findInsnFrom [] pos res offset = Some res"
| "findInsnFrom (i # is) pos res offset = do {
     (pos, res) \<leftarrow> (case i of
         X86_INSN_MARKER v \<Rightarrow> Some (pos, v)
       | _ \<Rightarrow> do { c \<leftarrow> gen_insn i; Some (pos + length c, res) });
     if pos \<ge> offset then Some res else findInsnFrom is pos res offset
   }"

definition findInsnInCode :: "inter \<Rightarrow> nat \<Rightarrow> u32 option" where
  "findInsnInCode s offset = findInsnFrom (phys_insns s) 0 (NOT 0) offset"

text \<open>\<open>patch\<close> turns the \<open>ret\<close> at the link area into a \<open>nop\<close> and fills in the jump target.\<close>

definition patch :: "memory \<Rightarrow> u64 \<Rightarrow> u64 \<Rightarrow> memory option" where
  "patch mem link target = do {
     assert (mem link = 0xc3);
     Some (write_mem (mem(link := 0x90)) (link + 3) 8 target)
   }"

subsection \<open>Writing the code into a buffer\<close>

fun store_code :: "memory \<Rightarrow> u64 \<Rightarrow> code \<Rightarrow> memory" where
  "store_code mem a [] = mem"
| "store_code mem a (c # cs) =
     store_code (case c of None \<Rightarrow> mem | Some b \<Rightarrow> mem(a := b)) (a + 1) cs"

text \<open>The bytes of \<open>cs\<close> are at address \<open>a\<close>; skipped bytes are unconstrained.\<close>

fun code_at :: "memory \<Rightarrow> u64 \<Rightarrow> code \<Rightarrow> bool" where
  "code_at mem a [] = True"
| "code_at mem a (c # cs) = ((case c of None \<Rightarrow> True | Some b \<Rightarrow> mem a = b) \<and> code_at mem (a + 1) cs)"

lemma code_at_append [simp]:
  "code_at mem a (xs @ ys) \<longleftrightarrow> code_at mem a xs \<and> code_at mem (a + of_nat (length xs)) ys"
  by (induction xs arbitrary: a) (auto simp: ac_simps)

lemma code_at_nth:
  "code_at mem a cs \<longleftrightarrow> (\<forall>i < length cs. case cs ! i of None \<Rightarrow> True | Some b \<Rightarrow> mem (a + of_nat i) = b)"
proof (induction cs arbitrary: a)
  case (Cons c cs)
  show ?case by (auto simp: Cons All_less_Suc2 ac_simps split: option.splits)
qed simp

end
