(* ===== verification/X86_Host.thy ===== *)
theory X86_Host
  imports Jitter_Types
begin

text \<open>
  The part of the x86_64 instruction set that the backend emits, as the reference the emitted
  bytes are measured against: a decoder from bytes to operations and the effect of each
  operation on the general purpose registers, the zero flag, the instruction pointer, the
  data memory and the stack. Code, data and stack are kept apart: the code area is not
  written while it runs, and the stack below the entry is not addressed by guest accesses.

  A call transfers control to a C helper. The helper is a parameter: a function from the
  target address and the machine state at the call to the state at its return.
\<close>

record host =
  gpr :: "u8 \<Rightarrow> u64"
  zf :: bool
  rip :: u64
  hmem :: memory
  hstack :: "u64 list"

datatype alu = ALU_ADD | ALU_SUB | ALU_XOR | ALU_AND | ALU_OR
datatype shift = SHL | SHR | SAR | ROR

datatype xop =
    XMovImm u8 u64
  | XMov u8 u8
  | XAlu alu irRegisterType u8 u8
  | XCmp u8 u8
  | XCmpImm u8 u64
  | XShiftCl shift irRegisterType u8
  | XShiftImm shift u8 u8
  | XLoad irRegisterType u8 u8 u64
  | XStore irRegisterType u8 u8 u64
  | XCmovnz u8 u8
  | XJcc bool u64
  | XLeaRip u8 u64
  | XPush u8
  | XPop u8
  | XCall u8
  | XJmp u8
  | XRet
  | XNop

subsection \<open>Decoding\<close>

definition modrm_mod :: "u8 \<Rightarrow> u8" where "modrm_mod b = drop_bit 6 b"
definition modrm_reg :: "u8 \<Rightarrow> u8" where "modrm_reg b = drop_bit 3 b AND 7"
definition modrm_rm :: "u8 \<Rightarrow> u8" where "modrm_rm b = b AND 7"

definition ext_reg :: "bool \<Rightarrow> u8 \<Rightarrow> u8" where
  "ext_reg e r = (if e then r + 8 else r)"

definition sext8 :: "u8 \<Rightarrow> u64" where "sext8 b = scast b"
definition sext32 :: "u64 \<Rightarrow> u64" where "sext32 v = scast (ucast v :: u32)"

definition operand_size :: "bool \<Rightarrow> bool \<Rightarrow> irRegisterType" where
  "operand_size w p66 = (if w then IR_REG_64 else if p66 then IR_REG_16 else IR_REG_32)"

definition alu_of :: "u8 \<Rightarrow> alu option" where
  "alu_of op = (if op = 0x01 then Some ALU_ADD else if op = 0x29 then Some ALU_SUB
     else if op = 0x31 then Some ALU_XOR else if op = 0x21 then Some ALU_AND
     else if op = 0x09 then Some ALU_OR else None)"

definition shift_of :: "u8 \<Rightarrow> shift option" where
  "shift_of r = (if r = 4 then Some SHL else if r = 5 then Some SHR
     else if r = 7 then Some SAR else if r = 1 then Some ROR else None)"

definition mem_op :: "u8 \<Rightarrow> bool \<Rightarrow> bool \<Rightarrow> (bool \<times> irRegisterType) option" where
  "mem_op op w p66 = (if op = 0x8a then Some (True, IR_REG_8) else if op = 0x8b then Some (True, operand_size w p66)
     else if op = 0x88 then Some (False, IR_REG_8) else if op = 0x89 then Some (False, operand_size w p66)
     else None)"

text \<open>
  Opcodes with a ModRM byte, register to register form. \<open>i\<close> is the position of the opcode,
  \<open>w\<close>, \<open>r\<close>, \<open>b\<close> the REX bits, \<open>p66\<close> the operand size prefix.
\<close>

definition decode_rr :: "(nat \<Rightarrow> u8) \<Rightarrow> nat \<Rightarrow> bool \<Rightarrow> bool \<Rightarrow> bool \<Rightarrow> bool \<Rightarrow> (xop \<times> nat) option" where
  "decode_rr f i p66 w r b =
    (let op = f i; m = f (i + 1); reg = ext_reg r (modrm_reg m); rm = ext_reg b (modrm_rm m);
         sub = modrm_reg m in
     if op = 0x8b then (if w then Some (XMov reg rm, i + 2) else None)
     else if op = 0x3b then (if w then Some (XCmp reg rm, i + 2) else None)
     else if op = 0x81 then (if w \<and> sub = 7 then Some (XCmpImm rm (sext32 (fetch_le f (i + 2) 4)), i + 6) else None)
     else if op = 0xd3 then map_option (\<lambda>s. (XShiftCl s (operand_size w p66) rm, i + 2)) (shift_of sub)
     else if op = 0xd2 then map_option (\<lambda>s. (XShiftCl s IR_REG_8 rm, i + 2)) (shift_of sub)
     else if op = 0xc1 then (if w then map_option (\<lambda>s. (XShiftImm s rm (f (i + 2)), i + 3)) (shift_of sub) else None)
     else if op = 0xff then (if sub = 2 then Some (XCall rm, i + 2)
        else if sub = 4 then Some (XJmp rm, i + 2) else None)
     else map_option (\<lambda>a. (XAlu a (operand_size w p66) rm reg, i + 2)) (alu_of op))"

text \<open>Register with base plus 32-bit displacement, with or without a SIB byte that has no index.\<close>

definition decode_mem :: "(nat \<Rightarrow> u8) \<Rightarrow> nat \<Rightarrow> bool \<Rightarrow> bool \<Rightarrow> bool \<Rightarrow> bool \<Rightarrow> (xop \<times> nat) option" where
  "decode_mem f i p66 w r b =
    (let m = f (i + 1); reg = ext_reg r (modrm_reg m) in
     case mem_op (f i) w p66 of None \<Rightarrow> None
     | Some (ld, t) \<Rightarrow>
       if modrm_rm m = 4
       then (if modrm_reg (f (i + 2)) = 4
             then Some ((if ld then XLoad else XStore) t reg (ext_reg b (modrm_rm (f (i + 2))))
                          (sext32 (fetch_le f (i + 3) 4)), i + 7)
             else None)
       else Some ((if ld then XLoad else XStore) t reg (ext_reg b (modrm_rm m))
                    (sext32 (fetch_le f (i + 2) 4)), i + 6))"

definition decode_op :: "(nat \<Rightarrow> u8) \<Rightarrow> nat \<Rightarrow> bool \<Rightarrow> u8 \<Rightarrow> (xop \<times> nat) option" where
  "decode_op f i p66 rex =
    (let op = f i; w = (rex AND 8 \<noteq> 0); r = (rex AND 4 \<noteq> 0); b = (rex AND 1 \<noteq> 0) in
     if op AND 0xf8 = 0xb8 then (if w then Some (XMovImm (ext_reg b (op AND 7)) (fetch_le f (i + 1) 8), i + 9) else None)
     else if op AND 0xf8 = 0x50 then Some (XPush (ext_reg b (op AND 7)), i + 1)
     else if op AND 0xf8 = 0x58 then Some (XPop (ext_reg b (op AND 7)), i + 1)
     else if op = 0x74 then Some (XJcc True (sext8 (f (i + 1))), i + 2)
     else if op = 0x75 then Some (XJcc False (sext8 (f (i + 1))), i + 2)
     else if op = 0x90 then Some (XNop, i + 1)
     else if op = 0xc3 then Some (XRet, i + 1)
     else if op = 0x0f then
       (if f (i + 1) = 0x45 \<and> modrm_mod (f (i + 2)) = 3 \<and> w
        then Some (XCmovnz (ext_reg r (modrm_reg (f (i + 2)))) (ext_reg b (modrm_rm (f (i + 2)))), i + 3)
        else None)
     else if op = 0x8d then
       (if modrm_mod (f (i + 1)) = 0 \<and> modrm_rm (f (i + 1)) = 5 \<and> w
        then Some (XLeaRip (ext_reg r (modrm_reg (f (i + 1)))) (sext32 (fetch_le f (i + 2) 4)), i + 6)
        else None)
     else if modrm_mod (f (i + 1)) = 3 then decode_rr f i p66 w r b
     else if modrm_mod (f (i + 1)) = 2 then decode_mem f i p66 w r b
     else None)"

definition decode :: "(nat \<Rightarrow> u8) \<Rightarrow> (xop \<times> nat) option" where
  "decode f =
    (let p66 = (f 0 = 0x66); i = (if p66 then 1 else 0)
     in if f i AND 0xf0 = 0x40 then decode_op f (i + 1) p66 (f i) else decode_op f i p66 0)"

subsection \<open>Execution\<close>

text \<open>Writing a 32-bit register clears the upper half; 8 and 16-bit writes keep the rest.\<close>

definition merge :: "irRegisterType \<Rightarrow> u64 \<Rightarrow> u64 \<Rightarrow> u64" where
  "merge t old v = (case t of IR_REG_64 \<Rightarrow> v | IR_REG_32 \<Rightarrow> trunc t v
     | _ \<Rightarrow> (old AND NOT (mask (type_bits t))) OR trunc t v)"

definition alu_fun :: "alu \<Rightarrow> u64 \<Rightarrow> u64 \<Rightarrow> u64" where
  "alu_fun a x y = (case a of ALU_ADD \<Rightarrow> x + y | ALU_SUB \<Rightarrow> x - y | ALU_XOR \<Rightarrow> x XOR y | ALU_AND \<Rightarrow> x AND y | ALU_OR \<Rightarrow> x OR y)"

definition rotr :: "nat \<Rightarrow> nat \<Rightarrow> u64 \<Rightarrow> u64" where
  "rotr n k v = (let x = take_bit n v; c = k mod n
     in take_bit n (drop_bit c x OR push_bit (n - c) x))"

definition shift_fun :: "shift \<Rightarrow> irRegisterType \<Rightarrow> nat \<Rightarrow> u64 \<Rightarrow> u64" where
  "shift_fun s t c v = (case s of
       SHL \<Rightarrow> push_bit c v
     | SHR \<Rightarrow> drop_bit c (trunc t v)
     | SAR \<Rightarrow> signed_drop_bit c (signed_take_bit (type_bits t - 1) v)
     | ROR \<Rightarrow> rotr (type_bits t) c v)"

definition shift_count :: "irRegisterType \<Rightarrow> u64 \<Rightarrow> nat" where
  "shift_count t v = unat (v AND (if t = IR_REG_64 then 63 else 31))"

definition set_gpr :: "u8 \<Rightarrow> u64 \<Rightarrow> host \<Rightarrow> host" where
  "set_gpr r v m = m\<lparr>gpr := (gpr m)(r := v)\<rparr>"

fun exec :: "(u64 \<Rightarrow> host \<Rightarrow> host) \<Rightarrow> xop \<Rightarrow> host \<Rightarrow> host option" where
  "exec h (XMovImm r v) m = Some (set_gpr r v m)"
| "exec h (XMov d s) m = Some (set_gpr d (gpr m s) m)"
| "exec h (XAlu a t d s) m =
     (let v = trunc t (alu_fun a (gpr m d) (gpr m s))
      in Some (set_gpr d (merge t (gpr m d) v) (m\<lparr>zf := (v = 0)\<rparr>)))"
| "exec h (XCmp x y) m = Some (m\<lparr>zf := (gpr m x = gpr m y)\<rparr>)"
| "exec h (XCmpImm x v) m = Some (m\<lparr>zf := (gpr m x = v)\<rparr>)"
| "exec h (XShiftCl s t d) m =
     (let v = trunc t (shift_fun s t (shift_count t (gpr m 1)) (gpr m d))
      in Some (set_gpr d (merge t (gpr m d) v) m))"
| "exec h (XShiftImm s d n) m = Some (set_gpr d (shift_fun s IR_REG_64 (unat (n AND 63)) (gpr m d)) m)"
| "exec h (XLoad t d b off) m =
     Some (set_gpr d (merge t (gpr m d) (read_mem (hmem m) (gpr m b + off) (type_bytes t))) m)"
| "exec h (XStore t s b off) m =
     Some (m\<lparr>hmem := write_mem (hmem m) (gpr m b + off) (type_bytes t) (gpr m s)\<rparr>)"
| "exec h (XCmovnz d s) m = Some (if zf m then m else set_gpr d (gpr m s) m)"
| "exec h (XJcc z rel) m = Some (if zf m = z then m\<lparr>rip := rip m + rel\<rparr> else m)"
| "exec h (XLeaRip d off) m = Some (set_gpr d (rip m + off) m)"
| "exec h (XPush r) m = Some (m\<lparr>hstack := gpr m r # hstack m\<rparr>)"
| "exec h (XPop r) m = (case hstack m of [] \<Rightarrow> None | v # st \<Rightarrow> Some (set_gpr r v (m\<lparr>hstack := st\<rparr>)))"
| "exec h (XCall r) m = Some ((h (gpr m r) m)\<lparr>rip := rip m\<rparr>)"
| "exec h (XJmp r) m = Some (m\<lparr>rip := gpr m r\<rparr>)"
| "exec h XRet m = (case hstack m of [] \<Rightarrow> None | v # st \<Rightarrow> Some (m\<lparr>rip := v, hstack := st\<rparr>))"
| "exec h XNop m = Some m"

text \<open>
  Flags other than the zero flag, and the zero flag after a shift, are never consulted by the
  emitted code. The instruction pointer of \<open>exec\<close> is already past the instruction.
\<close>

definition step :: "(u64 \<Rightarrow> host \<Rightarrow> host) \<Rightarrow> memory \<Rightarrow> host \<Rightarrow> host option" where
  "step h code m = (case decode (\<lambda>i. code (rip m + of_nat i)) of None \<Rightarrow> None
     | Some (x, n) \<Rightarrow> exec h x (m\<lparr>rip := rip m + of_nat n\<rparr>))"

fun steps :: "(u64 \<Rightarrow> host \<Rightarrow> host) \<Rightarrow> memory \<Rightarrow> nat \<Rightarrow> host \<Rightarrow> host option" where
  "steps h code 0 m = Some m"
| "steps h code (Suc n) m = (case step h code m of None \<Rightarrow> None | Some m' \<Rightarrow> steps h code n m')"

definition runs :: "(u64 \<Rightarrow> host \<Rightarrow> host) \<Rightarrow> memory \<Rightarrow> host \<Rightarrow> host \<Rightarrow> bool" where
  "runs h code m m' \<longleftrightarrow> (\<exists>n. steps h code n m = Some m')"

lemma steps_add:
  "steps h code (a + b) m = (case steps h code a m of None \<Rightarrow> None | Some m' \<Rightarrow> steps h code b m')"
  by (induction a arbitrary: m) (auto split: option.splits)

lemma runs_refl [simp, intro]: "runs h code m m"
  unfolding runs_def by (rule exI [of _ 0]) simp

lemma runs_trans [trans]: "runs h code a b \<Longrightarrow> runs h code b c \<Longrightarrow> runs h code a c"
  unfolding runs_def by (metis steps_add option.case(2))

lemma runs_step: "step h code a = Some b \<Longrightarrow> runs h code b c \<Longrightarrow> runs h code a c"
  unfolding runs_def by (metis steps.simps(2) option.case(2))

subsection \<open>Decoding by form\<close>

text \<open>The ways an instruction of the register form, with a memory operand or without operands starts.\<close>

definition plain_op :: "u8 \<Rightarrow> bool" where
  "plain_op op \<longleftrightarrow> op AND 0xf8 \<notin> {0xb8, 0x50, 0x58} \<and> op \<notin> {0x74, 0x75, 0x90, 0xc3, 0x0f, 0x8d}"

lemma decode_rex:
  "f 0 \<noteq> 0x66 \<Longrightarrow> f 0 AND 0xf0 = 0x40 \<Longrightarrow> decode f = decode_op f 1 False (f 0)"
  by (simp add: decode_def)

lemma decode_norex:
  "f 0 \<noteq> 0x66 \<Longrightarrow> f 0 AND 0xf0 \<noteq> 0x40 \<Longrightarrow> decode f = decode_op f 0 False 0"
  by (simp add: decode_def)

lemma decode_66_rex:
  "f 0 = 0x66 \<Longrightarrow> f 1 AND 0xf0 = 0x40 \<Longrightarrow> decode f = decode_op f 2 True (f 1)"
  by (simp add: decode_def numeral_2_eq_2)

lemma decode_op_rr:
  "plain_op (f i) \<Longrightarrow> modrm_mod (f (i + 1)) = 3 \<Longrightarrow>
     decode_op f i p rex = decode_rr f i p (rex AND 8 \<noteq> 0) (rex AND 4 \<noteq> 0) (rex AND 1 \<noteq> 0)"
  by (simp add: decode_op_def plain_op_def)

lemma decode_op_mem:
  "plain_op (f i) \<Longrightarrow> modrm_mod (f (i + 1)) = 2 \<Longrightarrow>
     decode_op f i p rex = decode_mem f i p (rex AND 8 \<noteq> 0) (rex AND 4 \<noteq> 0) (rex AND 1 \<noteq> 0)"
  by (simp add: decode_op_def plain_op_def)

lemma decode_rr_rex:
  assumes "f 0 \<noteq> 0x66" "f 0 AND 0xf0 = 0x40" "plain_op (f 1)" "modrm_mod (f 2) = 3"
  shows "decode f = decode_rr f 1 False (f 0 AND 8 \<noteq> 0) (f 0 AND 4 \<noteq> 0) (f 0 AND 1 \<noteq> 0)"
  using assms by (simp add: decode_rex decode_op_rr numeral_2_eq_2)

lemma decode_rr_66:
  assumes "f 0 = 0x66" "f 1 AND 0xf0 = 0x40" "plain_op (f 2)" "modrm_mod (f 3) = 3"
  shows "decode f = decode_rr f 2 True (f 1 AND 8 \<noteq> 0) (f 1 AND 4 \<noteq> 0) (f 1 AND 1 \<noteq> 0)"
  using assms by (simp add: decode_66_rex decode_op_rr)

lemma decode_mem_rex:
  assumes "f 0 \<noteq> 0x66" "f 0 AND 0xf0 = 0x40" "plain_op (f 1)" "modrm_mod (f 2) = 2"
  shows "decode f = decode_mem f 1 False (f 0 AND 8 \<noteq> 0) (f 0 AND 4 \<noteq> 0) (f 0 AND 1 \<noteq> 0)"
  using assms by (simp add: decode_rex decode_op_mem numeral_2_eq_2)

lemma decode_mem_66:
  assumes "f 0 = 0x66" "f 1 AND 0xf0 = 0x40" "plain_op (f 2)" "modrm_mod (f 3) = 2"
  shows "decode f = decode_mem f 2 True (f 1 AND 8 \<noteq> 0) (f 1 AND 4 \<noteq> 0) (f 1 AND 1 \<noteq> 0)"
  using assms by (simp add: decode_66_rex decode_op_mem)

lemma stepI:
  assumes "decode (\<lambda>i. code (rip m + of_nat i)) = Some (x, n)"
  shows "step h code m = exec h x (m\<lparr>rip := rip m + of_nat n\<rparr>)"
  using assms by (simp add: step_def)

end
