(* ===== verification/Be_Encode.thy ===== *)
theory Be_Encode
  imports Be_CodeGen X86_Host
begin

text \<open>
  The byte sequences the emitters write, decoded: for each form the backend uses, the operation
  the host decodes at a position where those bytes start, and the length it consumes.
\<close>

lemma less_8_cases:
  assumes "(r::u8) < 8"
  shows "r = 0 \<or> r = 1 \<or> r = 2 \<or> r = 3 \<or> r = 4 \<or> r = 5 \<or> r = 6 \<or> r = 7"
proof -
  from assms have "unat r < 8" by (simp add: word_less_nat_alt)
  then have "unat r \<in> {0, 1, 2, 3, 4, 5, 6, 7}" by auto
  moreover have "r = of_nat (unat r)" by simp
  ultimately show ?thesis by (elim insertE emptyE) (auto dest: arg_cong)
qed

lemma modrm3 [simp]:
  assumes "d < 8" and "s < 8"
  shows "modrm_mod (0xc0 OR push_bit 3 d OR s) = 3"
    "modrm_reg (0xc0 OR push_bit 3 d OR s) = d"
    "modrm_rm (0xc0 OR push_bit 3 d OR s) = s"
  using less_8_cases [OF assms(1)] less_8_cases [OF assms(2)]
  unfolding modrm_mod_def modrm_reg_def modrm_rm_def by (elim disjE; simp)+

lemma modrm2 [simp]:
  assumes "d < 8" and "s < 8"
  shows "modrm_mod (0x80 OR push_bit 3 d OR s) = 2"
    "modrm_reg (0x80 OR push_bit 3 d OR s) = d"
    "modrm_rm (0x80 OR push_bit 3 d OR s) = s"
  using less_8_cases [OF assms(1)] less_8_cases [OF assms(2)]
  unfolding modrm_mod_def modrm_reg_def modrm_rm_def by (elim disjE; simp)+

lemma modrm_sib [simp]:
  assumes "s < 8"
  shows "modrm_rm (0x20 OR s) = s" "modrm_reg (0x20 OR s) = 4"
  using less_8_cases [OF assms] unfolding modrm_reg_def modrm_rm_def by (elim disjE; simp)+

lemma op_plus_reg [simp]:
  assumes "d < 8"
  shows "(0xb8 + d) AND 0xf8 = (0xb8::u8)" "(0xb8 + d) AND 7 = (d::u8)" 
  using less_8_cases [OF assms] by (elim disjE; simp)+

lemma code_at_B:
  "code_at code a (B bs) \<longleftrightarrow> (\<forall>i < length bs. code (a + of_nat i) = bs ! i)"
  by (induction bs arbitrary: a) (auto simp: less_Suc_eq_0_disj ac_simps)

definition starts :: "(nat \<Rightarrow> u8) \<Rightarrow> u8 list \<Rightarrow> bool" where
  "starts f bs \<longleftrightarrow> (\<forall>i < length bs. f i = bs ! i)"

lemma starts_nth: "starts f bs \<Longrightarrow> i < length bs \<Longrightarrow> f i = bs ! i"
  by (simp add: starts_def)

lemma decode_rr_bytes:
  assumes "starts f ([rex, op, 0xc0 OR push_bit 3 d OR s] @ imm)" "rex AND 0xf0 = 0x40" "plain_op op"
    "d < 8" "s < 8"
  shows "decode f = decode_rr f 1 False (rex AND 8 \<noteq> 0) (rex AND 4 \<noteq> 0) (rex AND 1 \<noteq> 0)"
    and "f 1 = op" and "f 2 = 0xc0 OR push_bit 3 d OR s"
proof -
  have f: "f 0 = rex" "f 1 = op" "f 2 = 0xc0 OR push_bit 3 d OR s"
    using assms(1) by (auto simp: starts_def nth_append dest: spec [of _ 0] spec [of _ 1] spec [of _ 2])
  have "rex \<noteq> 0x66" using assms(2) by auto
  then show "decode f = decode_rr f 1 False (rex AND 8 \<noteq> 0) (rex AND 4 \<noteq> 0) (rex AND 1 \<noteq> 0)"
    using assms f by (subst decode_rr_rex) auto
qed (use assms in \<open>auto simp: starts_def nth_append dest: spec [of _ 1] spec [of _ 2]\<close>)

lemma decode_rr_1:
  "decode_rr f 1 p66 w r b =
    (let op = f 1; m = f 2; reg = ext_reg r (modrm_reg m); rm = ext_reg b (modrm_rm m);
         sub = modrm_reg m in
     if op = 0x8b then (if w then Some (XMov reg rm, 3) else None)
     else if op = 0x3b then (if w then Some (XCmp reg rm, 3) else None)
     else if op = 0x81 then (if w \<and> sub = 7 then Some (XCmpImm rm (sext32 (fetch_le f 3 4)), 7) else None)
     else if op = 0xd3 then map_option (\<lambda>s. (XShiftCl s (operand_size w p66) rm, 3)) (shift_of sub)
     else if op = 0xd2 then map_option (\<lambda>s. (XShiftCl s IR_REG_8 rm, 3)) (shift_of sub)
     else if op = 0xc1 then (if w then map_option (\<lambda>s. (XShiftImm s rm (f 3), 4)) (shift_of sub) else None)
     else if op = 0xff then (if sub = 2 then Some (XCall rm, 3)
        else if sub = 4 then Some (XJmp rm, 3) else None)
     else map_option (\<lambda>a. (XAlu a (operand_size w p66) rm reg, 3)) (alu_of op))"
proof -
  have e: "(1::nat) + 1 = 2" "(1::nat) + 2 = 3" "(1::nat) + 3 = 4" "(1::nat) + 6 = 7" by simp_all
  show ?thesis unfolding decode_rr_def e by (rule refl)
qed

lemmas decode_rr_simps = decode_rr_1 [unfolded One_nat_def] plain_op_def

lemma starts_imm:
  assumes "starts f (xs @ ys)" "k < length ys"
  shows "f (length xs + k) = ys ! k"
  using assms by (simp add: starts_def nth_append)

lemma decode_XMov:
  assumes "starts f [rex, 0x8b, 0xc0 OR push_bit 3 d OR s]" "rex AND 0xf0 = 0x40" "rex AND 8 \<noteq> 0"
    "d < 8" "s < 8"
  shows "decode f = Some (XMov (ext_reg (rex AND 4 \<noteq> 0) d) (ext_reg (rex AND 1 \<noteq> 0) s), 3)"
  using decode_rr_bytes [of f rex "0x8b" d s "[]"] assms
  by (simp add: decode_rr_simps)

lemma decode_XCmp:
  assumes "starts f [rex, 0x3b, 0xc0 OR push_bit 3 d OR s]" "rex AND 0xf0 = 0x40" "rex AND 8 \<noteq> 0"
    "d < 8" "s < 8"
  shows "decode f = Some (XCmp (ext_reg (rex AND 4 \<noteq> 0) d) (ext_reg (rex AND 1 \<noteq> 0) s), 3)"
  using decode_rr_bytes [of f rex "0x3b" d s "[]"] assms
  by (simp add: decode_rr_simps)

lemma decode_XAlu:
  assumes "starts f [rex, op, 0xc0 OR push_bit 3 d OR s]" "rex AND 0xf0 = 0x40" "alu_of op = Some a"
    "d < 8" "s < 8"
  shows "decode f = Some (XAlu a (operand_size (rex AND 8 \<noteq> 0) False)
           (ext_reg (rex AND 1 \<noteq> 0) s) (ext_reg (rex AND 4 \<noteq> 0) d), 3)"
proof -
  have "op \<in> {0x01, 0x29, 0x31, 0x21, 0x09}"
    using assms(3) by (auto simp: alu_of_def split: if_splits)
  then show ?thesis
    using decode_rr_bytes [of f rex op d s "[]"] assms
    by (auto simp: decode_rr_simps)
qed

lemma decode_XShiftCl:
  assumes "starts f [rex, 0xd3, 0xc0 OR push_bit 3 d OR s]" "rex AND 0xf0 = 0x40" "shift_of d = Some k"
    "d < 8" "s < 8"
  shows "decode f = Some (XShiftCl k (operand_size (rex AND 8 \<noteq> 0) False) (ext_reg (rex AND 1 \<noteq> 0) s), 3)"
  using decode_rr_bytes [of f rex "0xd3" d s "[]"] assms
  by (simp add: decode_rr_simps)

lemma decode_XShiftCl_8:
  assumes "starts f [rex, 0xd2, 0xc0 OR push_bit 3 d OR s]" "rex AND 0xf0 = 0x40" "shift_of d = Some k"
    "d < 8" "s < 8"
  shows "decode f = Some (XShiftCl k IR_REG_8 (ext_reg (rex AND 1 \<noteq> 0) s), 3)"
  using decode_rr_bytes [of f rex "0xd2" d s "[]"] assms
  by (simp add: decode_rr_simps)

lemma decode_XShiftCl_16:
  assumes "starts f [0x66, 0x41, 0xd3, 0xc0 OR push_bit 3 d OR s]" "shift_of d = Some k" "d < 8" "s < 8"
  shows "decode f = Some (XShiftCl k IR_REG_16 (s + 8), 4)"
proof -
  have f: "f 0 = 0x66" "f 1 = 0x41" "f 2 = 0xd3" "f 3 = 0xc0 OR push_bit 3 d OR s"
    using assms(1) by (simp_all add: starts_def)
  then have "decode f = decode_rr f 2 True False False True"
    using assms by (subst decode_rr_66) (auto simp: plain_op_def)
  then show ?thesis using assms f by (simp add: decode_rr_def ext_reg_def operand_size_def)
qed

lemma decode_XShiftImm:
  assumes "starts f [0x49, 0xc1, 0xc0 OR push_bit 3 d OR s, n]" "shift_of d = Some k" "d < 8" "s < 8"
  shows "decode f = Some (XShiftImm k (s + 8) n, 4)"
  using decode_rr_bytes [of f "0x49" "0xc1" d s "[n]"] starts_nth [OF assms(1), of 3] assms
  by (simp add: decode_rr_simps ext_reg_def)

lemma lt4_cases: "k < (4::nat) \<Longrightarrow> k = 0 \<or> k = 1 \<or> k = 2 \<or> k = 3"
  by linarith

lemma lt8_cases: "k < (8::nat) \<Longrightarrow> k = 0 \<or> k = 1 \<or> k = 2 \<or> k = 3 \<or> k = 4 \<or> k = 5 \<or> k = 6 \<or> k = 7"
  by linarith

lemma fetch_le32:
  assumes "starts f (xs @ le32 v)" "length xs = n"
  shows "fetch_le f n 4 = ucast v"
proof -
  have "fetch_le f n 4 = take_bit (8 * 4) (ucast v)"
  proof (rule fetch_le_bytes)
    fix k :: nat assume "k < 4"
    then show "f (n + k) = byte k v"
      using starts_imm [OF assms(1), of k] assms(2) lt4_cases [of k] by (auto simp: le32_def)
  qed
  also have "\<dots> = ucast v" by (rule bit_word_eqI) (auto simp: bit_simps dest: bit_imp_le_length)
  finally show ?thesis .
qed

lemma fetch_le64:
  assumes "starts f (xs @ le64 v)" "length xs = n"
  shows "fetch_le f n 8 = v"
proof -
  have "fetch_le f n 8 = take_bit (8 * 8) (ucast v)"
  proof (rule fetch_le_bytes)
    fix k :: nat assume "k < 8"
    then show "f (n + k) = byte k v"
      using starts_imm [OF assms(1), of k] assms(2) lt8_cases [of k] by (auto simp: le64_def)
  qed
  also have "\<dots> = v" by (rule bit_word_eqI) (auto simp: bit_simps)
  finally show ?thesis .
qed

lemma le32_0: "le32 0 = [0, 0, 0, 0]"
  by (simp add: le32_def byte_def)

lemma decode_XCmpImm0:
  assumes "starts f [0x49, 0x81, 0xc0 OR push_bit 3 7 OR s, 0, 0, 0, 0]" "s < 8"
  shows "decode f = Some (XCmpImm (s + 8) 0, 7)"
proof -
  have "fetch_le f 3 4 = 0"
    using fetch_le32 [of f "[0x49, 0x81, 0xc0 OR push_bit 3 7 OR s]" 0 3] assms(1)
    by (simp add: le32_0)
  then show ?thesis
    using decode_rr_bytes [of f "0x49" "0x81" 7 s "[0, 0, 0, 0]"] modrm3 [of 7 s] assms
    by (simp add: decode_rr_simps ext_reg_def sext32_def)
qed

lemma decode_XCall:
  assumes "starts f [0x48, 0xff, 0xc0 OR push_bit 3 2 OR 0]"
  shows "decode f = Some (XCall 0, 3)"
  using decode_rr_bytes [of f "0x48" "0xff" 2 0 "[]"] assms modrm3 [of 2 0]
  by (simp add: decode_rr_simps ext_reg_def modrm_reg_def modrm_rm_def)


subsection \<open>Memory operands\<close>

lemma decode_mem_1:
  "decode_mem f 1 p66 w r b =
    (let m = f 2; reg = ext_reg r (modrm_reg m) in
     case mem_op (f 1) w p66 of None \<Rightarrow> None
     | Some (ld, t) \<Rightarrow>
       if modrm_rm m = 4
       then (if modrm_reg (f 3) = 4
             then Some ((if ld then XLoad else XStore) t reg (ext_reg b (modrm_rm (f 3)))
                          (sext32 (fetch_le f 4 4)), 8)
             else None)
       else Some ((if ld then XLoad else XStore) t reg (ext_reg b (modrm_rm m))
                    (sext32 (fetch_le f 3 4)), 7))"
proof -
  have e: "(1::nat) + 1 = 2" "(1::nat) + 2 = 3" "(1::nat) + 3 = 4" "(1::nat) + 6 = 7" "(1::nat) + 7 = 8"
    by simp_all
  show ?thesis unfolding decode_mem_def e by (rule refl)
qed

lemma decode_mem_2:
  "decode_mem f 2 p66 w r b =
    (let m = f 3; reg = ext_reg r (modrm_reg m) in
     case mem_op (f 2) w p66 of None \<Rightarrow> None
     | Some (ld, t) \<Rightarrow>
       if modrm_rm m = 4
       then (if modrm_reg (f 4) = 4
             then Some ((if ld then XLoad else XStore) t reg (ext_reg b (modrm_rm (f 4)))
                          (sext32 (fetch_le f 5 4)), 9)
             else None)
       else Some ((if ld then XLoad else XStore) t reg (ext_reg b (modrm_rm m))
                    (sext32 (fetch_le f 4 4)), 8))"
proof -
  have e: "(2::nat) + 1 = 3" "(2::nat) + 2 = 4" "(2::nat) + 3 = 5" "(2::nat) + 6 = 8" "(2::nat) + 7 = 9"
    by simp_all
  show ?thesis unfolding decode_mem_def e by (rule refl)
qed

lemma plain_mem_op: "mem_op op w p = Some x \<Longrightarrow> plain_op op"
  by (auto simp: mem_op_def plain_op_def split: if_splits)

lemma decode_sib:
  assumes st: "starts f ([rex, op] @ sib_disp32 d s)" and "rex AND 0xf0 = 0x40"
    and op: "mem_op op (rex AND 8 \<noteq> 0) False = Some (ld, t)" and bd: "d < 8" "s < 8"
  shows "decode f = Some ((if ld then XLoad else XStore) t (ext_reg (rex AND 4 \<noteq> 0) d)
           (ext_reg (rex AND 1 \<noteq> 0) s) 0, 8)"
proof -
  have f: "f 0 = rex" "f 1 = op" "f 2 = 0x80 OR push_bit 3 d OR 4" "f 3 = 0x20 OR s"
    using st by (auto simp: starts_def sib_disp32_def MODRM_REG_def
        dest: spec [of _ 0] spec [of _ 1] spec [of _ 2] spec [of _ 3])
  have z: "fetch_le f 4 4 = 0"
    using fetch_le32 [of f "[rex, op, MODRM_MODE_2 OR MODRM_REG d OR 4, push_bit 3 4 OR s]" 0 4] st
    by (simp add: sib_disp32_def le32_0)
  have "rex \<noteq> 0x66" using assms(2) by auto
  then have "decode f = decode_mem f 1 False (rex AND 8 \<noteq> 0) (rex AND 4 \<noteq> 0) (rex AND 1 \<noteq> 0)"
    using assms f plain_mem_op [OF op] by (subst decode_mem_rex) auto
  then show ?thesis
    using f z op bd by (simp add: decode_mem_1 [unfolded One_nat_def] sext32_def)
qed

lemma decode_sib_66:
  assumes st: "starts f ([0x66, rex, op] @ sib_disp32 d s)" and "rex AND 0xf0 = 0x40"
    and op: "mem_op op (rex AND 8 \<noteq> 0) True = Some (ld, t)" and bd: "d < 8" "s < 8"
  shows "decode f = Some ((if ld then XLoad else XStore) t (ext_reg (rex AND 4 \<noteq> 0) d)
           (ext_reg (rex AND 1 \<noteq> 0) s) 0, 9)"
proof -
  have f: "f 0 = 0x66" "f 1 = rex" "f 2 = op" "f 3 = 0x80 OR push_bit 3 d OR 4" "f 4 = 0x20 OR s"
    using st by (auto simp: starts_def sib_disp32_def MODRM_REG_def
        dest: spec [of _ 0] spec [of _ 1] spec [of _ 2] spec [of _ 3] spec [of _ 4])
  have z: "fetch_le f 5 4 = 0"
    using fetch_le32 [of f "[0x66, rex, op, MODRM_MODE_2 OR MODRM_REG d OR 4, push_bit 3 4 OR s]" 0 5] st
    by (simp add: sib_disp32_def le32_0)
  have "decode f = decode_mem f 2 True (rex AND 8 \<noteq> 0) (rex AND 4 \<noteq> 0) (rex AND 1 \<noteq> 0)"
    using assms f plain_mem_op [OF op] by (subst decode_mem_66) auto
  then show ?thesis
    using f z op bd by (simp add: decode_mem_2 sext32_def)
qed

lemma sext32_ucast: "sext32 (ucast (v::u32)) = scast v"
proof -
  have "ucast (ucast v :: u64) = v"
    by (rule bit_word_eqI) (auto simp: bit_simps)
  then show ?thesis by (simp add: sext32_def)
qed

lemma decode_disp:
  assumes st: "starts f ([rex, op] @ rdi_disp32 d off)" and "rex AND 0xf0 = 0x40" "rex AND 1 = 0"
    and op: "mem_op op (rex AND 8 \<noteq> 0) False = Some (ld, t)" and bd: "d < 8"
  shows "decode f = Some ((if ld then XLoad else XStore) t (ext_reg (rex AND 4 \<noteq> 0) d) 7 (scast off), 7)"
proof -
  have f: "f 0 = rex" "f 1 = op" "f 2 = 0x80 OR push_bit 3 d OR 7"
    using st by (auto simp: starts_def rdi_disp32_def MODRM_REG_def
        dest: spec [of _ 0] spec [of _ 1] spec [of _ 2])
  have z: "fetch_le f 3 4 = ucast off"
    using fetch_le32 [of f "[rex, op, MODRM_MODE_2 OR MODRM_REG d OR 7]" off 3] st
    by (simp add: rdi_disp32_def)
  have "rex \<noteq> 0x66" using assms(2) by auto
  then have "decode f = decode_mem f 1 False (rex AND 8 \<noteq> 0) (rex AND 4 \<noteq> 0) (rex AND 1 \<noteq> 0)"
    using assms f plain_mem_op [OF op] by (subst decode_mem_rex) auto
  then show ?thesis
    using f z op bd assms(3) modrm2 [of d 7]
    by (simp add: decode_mem_1 [unfolded One_nat_def] sext32_ucast ext_reg_def)
qed

lemma decode_disp_66:
  assumes st: "starts f ([0x66, rex, op] @ rdi_disp32 d off)" and "rex AND 0xf0 = 0x40" "rex AND 1 = 0"
    and op: "mem_op op (rex AND 8 \<noteq> 0) True = Some (ld, t)" and bd: "d < 8"
  shows "decode f = Some ((if ld then XLoad else XStore) t (ext_reg (rex AND 4 \<noteq> 0) d) 7 (scast off), 8)"
proof -
  have f: "f 0 = 0x66" "f 1 = rex" "f 2 = op" "f 3 = 0x80 OR push_bit 3 d OR 7"
    using st by (auto simp: starts_def rdi_disp32_def MODRM_REG_def
        dest: spec [of _ 0] spec [of _ 1] spec [of _ 2] spec [of _ 3])
  have z: "fetch_le f 4 4 = ucast off"
    using fetch_le32 [of f "[0x66, rex, op, MODRM_MODE_2 OR MODRM_REG d OR 7]" off 4] st
    by (simp add: rdi_disp32_def)
  have "decode f = decode_mem f 2 True (rex AND 8 \<noteq> 0) (rex AND 4 \<noteq> 0) (rex AND 1 \<noteq> 0)"
    using assms f plain_mem_op [OF op] by (subst decode_mem_66) auto
  then show ?thesis
    using f z op bd assms(3) modrm2 [of d 7]
    by (simp add: decode_mem_2 sext32_ucast ext_reg_def)
qed

subsection \<open>Other forms\<close>

lemma decode_XMovImm:
  assumes st: "starts f ([rex, 0xb8 + d] @ le64 v)" and "rex AND 0xf0 = 0x40" "rex AND 8 \<noteq> 0" "d < 8"
  shows "decode f = Some (XMovImm (ext_reg (rex AND 1 \<noteq> 0) d) v, 10)"
proof -
  have f: "f 0 = rex" "f (Suc 0) = 0xb8 + d"
    using st by (auto simp: starts_def le64_def dest: spec [of _ 0] spec [of _ 1])
  have z: "fetch_le f 2 8 = v" using fetch_le64 [OF st, of 2] by simp
  have e: "fetch_le f (Suc (Suc 0)) 8 = v" using z by (simp add: numeral_2_eq_2)
  have "rex \<noteq> 0x66" using assms(2) by auto
  then show ?thesis using assms f e by (simp add: decode_rex decode_op_def)
qed

lemma decode_XLeaRip:
  assumes st: "starts f [0x48, 0x8d, 0x15, 0, 0, 0, 0]"
  shows "decode f = Some (XLeaRip 2 0, 7)"
proof -
  have f: "f 0 = 0x48" "f (Suc 0) = 0x8d" "f (Suc (Suc 0)) = 0x15"
    using st by (auto simp: starts_def dest: spec [of _ 0] spec [of _ 1] spec [of _ 2])
  have z: "fetch_le f (Suc (Suc (Suc 0))) 4 = 0"
    using fetch_le32 [of f "[0x48, 0x8d, 0x15]" 0 3] st by (simp add: le32_0 numeral_3_eq_3)
  show ?thesis using f z
    by (simp add: decode_rex decode_op_def ext_reg_def modrm_mod_def modrm_reg_def modrm_rm_def sext32_def)
qed

lemma decode_XCmovnz:
  assumes st: "starts f [0x4d, 0x0f, 0x45, 0xc0 OR push_bit 3 d OR s]" and bd: "d < 8" "s < 8"
  shows "decode f = Some (XCmovnz (d + 8) (s + 8), 4)"
proof -
  have f: "f 0 = 0x4d" "f (Suc 0) = 0x0f" "f (Suc (Suc 0)) = 0x45"
    "f (Suc (Suc (Suc 0))) = 0xc0 OR push_bit 3 d OR s"
    using st by (auto simp: starts_def numeral_3_eq_3
        dest: spec [of _ 0] spec [of _ 1] spec [of _ 2] spec [of _ 3])
  show ?thesis using f bd by (simp add: decode_rex decode_op_def ext_reg_def)
qed

lemma decode_XRet: "starts f [0xc3] \<Longrightarrow> decode f = Some (XRet, 1)"
  by (simp add: starts_def decode_norex decode_op_def)

lemma decode_XNop: "starts f [0x90] \<Longrightarrow> decode f = Some (XNop, 1)"
  by (simp add: starts_def decode_norex decode_op_def)

lemma decode_XJcc:
  assumes "starts f [if z then 0x74 else 0x75, n]"
  shows "decode f = Some (XJcc z (sext8 n), 2)"
proof -
  have f: "f 0 = (if z then 0x74 else 0x75)" "f (Suc 0) = n"
    using assms by (auto simp: starts_def dest: spec [of _ 0] spec [of _ 1])
  then show ?thesis by (cases z) (simp_all add: decode_norex decode_op_def)
qed

lemma decode_XJmp:
  assumes "starts f [0xff, 0xe0]"
  shows "decode f = Some (XJmp 0, 2)"
proof -
  have f: "f 0 = 0xff" "f (Suc 0) = 0xe0"
    using assms by (auto simp: starts_def dest: spec [of _ 0] spec [of _ 1])
  then show ?thesis
    by (simp add: decode_norex decode_op_def decode_rr_def ext_reg_def modrm_mod_def modrm_reg_def modrm_rm_def)
qed

lemma push_pop_op [simp]:
  assumes "d < 8"
  shows "(0x50 + d) AND 0xf8 = (0x50::u8)" "(0x50 + d) AND 7 = (d::u8)"
    "(0x58 + d) AND 0xf8 = (0x58::u8)" "(0x58 + d) AND 7 = (d::u8)"
  using less_8_cases [OF assms] by (elim disjE; simp)+

lemma decode_XPush:
  assumes "starts f [rex, 0x50 + d]" "rex AND 0xf0 = 0x40" "d < 8"
  shows "decode f = Some (XPush (ext_reg (rex AND 1 \<noteq> 0) d), 2)"
proof -
  have f: "f 0 = rex" "f (Suc 0) = 0x50 + d"
    using assms by (auto simp: starts_def dest: spec [of _ 0] spec [of _ 1])
  have "rex \<noteq> 0x66" using assms(2) by auto
  then show ?thesis using f assms by (simp add: decode_rex decode_op_def)
qed

lemma decode_XPop:
  assumes "starts f [rex, 0x58 + d]" "rex AND 0xf0 = 0x40" "d < 8"
  shows "decode f = Some (XPop (ext_reg (rex AND 1 \<noteq> 0) d), 2)"
proof -
  have f: "f 0 = rex" "f (Suc 0) = 0x58 + d"
    using assms by (auto simp: starts_def dest: spec [of _ 0] spec [of _ 1])
  have "rex \<noteq> 0x66" using assms(2) by auto
  then show ?thesis using f assms by (simp add: decode_rex decode_op_def)
qed

end
