(* ===== verification/Be_Emit.thy ===== *)
theory Be_Emit
  imports Be_Encode
begin

text \<open>
  The emitters as programs of the host: each straight-line piece of emitted code is related to
  the function it computes on the host state. The relation composes, so the code of an
  instruction is the composition of its pieces; the only jumps inside an instruction are
  forward jumps over a piece.
\<close>

definition rip_free :: "(host \<Rightarrow> host) \<Rightarrow> bool" where
  "rip_free f \<longleftrightarrow> (\<forall>m x. f (m\<lparr>rip := x\<rparr>) = (f m)\<lparr>rip := x\<rparr>)"

definition does :: "(u64 \<Rightarrow> host \<Rightarrow> host) \<Rightarrow> code \<Rightarrow> (host \<Rightarrow> host) \<Rightarrow> bool" where
  "does h c f \<longleftrightarrow> rip_free f \<and>
     (\<forall>code m. code_at code (rip m) c \<longrightarrow> runs h code m ((f m)\<lparr>rip := rip m + of_nat (length c)\<rparr>))"

lemma does_runs:
  "does h c f \<Longrightarrow> code_at code (rip m) c \<Longrightarrow> runs h code m ((f m)\<lparr>rip := rip m + of_nat (length c)\<rparr>)"
  by (simp add: does_def)

lemma rip_free_rip: "rip_free f \<Longrightarrow> rip (f m) = rip m"
  unfolding rip_free_def by (metis host.surjective host.update_convs(3) host.select_convs(3))

lemma does_Nil: "does h [] (\<lambda>m. m)"
  by (simp add: does_def rip_free_def)

lemma does_append:
  assumes "does h c f" "does h d g"
  shows "does h (c @ d) (\<lambda>m. g (f m))"
  unfolding does_def
proof (intro conjI allI impI)
  show "rip_free (\<lambda>m. g (f m))" using assms by (simp add: does_def rip_free_def)
next
  fix code and m :: host assume at: "code_at code (rip m) (c @ d)"
  let ?m1 = "(f m)\<lparr>rip := rip m + of_nat (length c)\<rparr>"
  have 1: "runs h code m ?m1" using does_runs [OF assms(1)] at by simp
  have "runs h code ?m1 ((g ?m1)\<lparr>rip := rip ?m1 + of_nat (length d)\<rparr>)"
    using does_runs [OF assms(2), of code ?m1] at by simp
  moreover have "g ?m1 = (g (f m))\<lparr>rip := rip ?m1\<rparr>"
    using assms(2) by (simp add: does_def rip_free_def)
  ultimately have "runs h code ?m1 ((g (f m))\<lparr>rip := rip m + of_nat (length (c @ d))\<rparr>)"
    by (simp add: ac_simps)
  with 1 show "runs h code m ((g (f m))\<lparr>rip := rip m + of_nat (length (c @ d))\<rparr>)"
    by (rule runs_trans)
qed

lemma code_at_starts:
  "code_at code a (B bs) \<Longrightarrow> starts (\<lambda>i. code (a + of_nat i)) bs"
  by (simp add: code_at_B starts_def)

lemma step_at:
  assumes "code_at code (rip m) (B bs)" "\<And>f. starts f bs \<Longrightarrow> decode f = Some (x, n)"
  shows "step h code m = exec h x (m\<lparr>rip := rip m + of_nat n\<rparr>)"
  by (rule stepI) (rule assms(2), rule code_at_starts, rule assms(1))

lemma does_op:
  assumes "\<And>f. starts f bs \<Longrightarrow> decode f = Some (x, length bs)"
    and "\<And>m. exec h x m = Some (g m)" and "rip_free g"
  shows "does h (B bs) g"
  unfolding does_def
proof (intro conjI allI impI)
  fix code and m :: host assume "code_at code (rip m) (B bs)"
  with assms(2,3) step_at [where bs = bs and x = x and n = "length bs", OF _ assms(1)]
  have "step h code m = Some ((g m)\<lparr>rip := rip m + of_nat (length bs)\<rparr>)"
    by (simp add: rip_free_def)
  from runs_step [OF this runs_refl]
  show "runs h code m ((g m)\<lparr>rip := rip m + of_nat (length (B bs))\<rparr>)" by simp
qed (rule assms(3))

lemma does_cong: "does h c f \<Longrightarrow> (\<And>m. f m = g m) \<Longrightarrow> does h c g"
  by (metis ext)

lemma set_gpr_simps [simp]:
  "gpr (set_gpr r v m) = (gpr m)(r := v)" "zf (set_gpr r v m) = zf m" "rip (set_gpr r v m) = rip m"
  "hmem (set_gpr r v m) = hmem m" "hstack (set_gpr r v m) = hstack m"
  "(set_gpr r v m)\<lparr>rip := x\<rparr> = set_gpr r v (m\<lparr>rip := x\<rparr>)"
  by (simp_all add: set_gpr_def)

lemma le64_length [simp]: "length (le64 v) = 8" by (simp add: le64_def)
lemma sib_disp32_length [simp]: "length (sib_disp32 d a) = 6" by (simp add: sib_disp32_def)
lemma rdi_disp32_length [simp]: "length (rdi_disp32 d off) = 5" by (simp add: rdi_disp32_def le32_def)
lemma le32_length [simp]: "length (le32 v) = 4" by (simp add: le32_def)

text \<open>The upper registers \<open>r8\<close> to \<open>r15\<close>.\<close>

subsection \<open>Moves\<close>

lemma rex_consts:
  "(0x40::u8) OR 0x01 OR 0x08 = 0x49" "(0x40::u8) OR 0x04 OR 0x01 OR 0x08 = 0x4d" "(0x40::u8) OR 0x01 = 0x41"
  "(0x40::u8) OR 0x08 = 0x48" "(0x40::u8) OR 0x01 OR 0 = 0x41"
  by simp_all

lemma does_mov_const:
  assumes "d < 8"
  shows "does h (gen_mov_const_hlp d v) (\<lambda>m. set_gpr (d + 8) v (if v = 0 then m\<lparr>zf := True\<rparr> else m))"
proof (cases "v = 0")
  case False
  have "does h (B ([0x49, 0xb8 + d] @ le64 v)) (set_gpr (d + 8) v)"
    using assms by (intro does_op) (auto simp: decode_XMovImm ext_reg_def rip_free_def)
  then show ?thesis using False by (simp add: gen_mov_const_hlp_def)
next
  case True
  have "does h (B [0x45, 0x31, 0xc0 OR push_bit 3 d OR d]) (\<lambda>m. set_gpr (d + 8) 0 (m\<lparr>zf := True\<rparr>))"
    using assms
    by (intro does_op)
       (auto simp: decode_XAlu alu_of_def ext_reg_def rip_free_def operand_size_def alu_fun_def merge_def
         simp flip: set_gpr_simps(6))
  then show ?thesis using True by (simp add: gen_mov_const_hlp_def)
qed

lemma does_move_reg_low:
  assumes "lo < 8" "s < 8"
  shows "does h (gen_move_reg_low lo s) (\<lambda>m. set_gpr lo (gpr m (s + 8)) m)"
  unfolding gen_move_reg_low_def MODRM_REG_def using assms
  by (intro does_op) (auto simp: decode_XMov ext_reg_def rip_free_def)

lemma does_move_reg_from_low:
  assumes "lo < 8" "d < 8"
  shows "does h (gen_move_reg_from_low lo d) (\<lambda>m. set_gpr (d + 8) (gpr m lo) m)"
  unfolding gen_move_reg_from_low_def MODRM_REG_def using assms
  by (intro does_op) (auto simp: decode_XMov ext_reg_def rip_free_def)

lemma does_move_reg:
  assumes "d < 8" "s < 8"
  shows "does h (gen_move_reg d s) (\<lambda>m. set_gpr (d + 8) (gpr m (s + 8)) m)"
  unfolding gen_move_reg_def MODRM_REG_def using assms
  by (intro does_op) (auto simp: decode_XMov ext_reg_def rip_free_def)

lemma does_alu64:
  assumes "alu_of op = Some a" "d < 8" "s < 8"
  shows "does h (B [0x4d, op, MODRM_MODE_3 OR MODRM_REG s OR d])
     (\<lambda>m. let v = alu_fun a (gpr m (d + 8)) (gpr m (s + 8)) in set_gpr (d + 8) v (m\<lparr>zf := (v = 0)\<rparr>))"
  unfolding MODRM_REG_def using assms
  by (intro does_op)
     (auto simp: decode_XAlu [of _ _ _ _ _ a] ext_reg_def rip_free_def operand_size_def merge_def Let_def
       simp flip: set_gpr_simps(6))

text \<open>The effect of a memory access of the register form, as a function of the state.\<close>

definition access :: "bool \<Rightarrow> irRegisterType \<Rightarrow> u8 \<Rightarrow> u8 \<Rightarrow> u64 \<Rightarrow> host \<Rightarrow> host" where
  "access ld t r b off m = (if ld
     then set_gpr r (merge t (gpr m r) (read_mem (hmem m) (gpr m b + off) (type_bytes t))) m
     else m\<lparr>hmem := write_mem (hmem m) (gpr m b + off) (type_bytes t) (gpr m r)\<rparr>)"

lemma exec_access: "exec h ((if ld then XLoad else XStore) t r b off) m = Some (access ld t r b off m)"
  by (simp add: access_def)

lemma rip_free_access: "rip_free (access ld t r b off)"
  by (simp add: rip_free_def access_def)

lemma does_sib:
  assumes "mem_op op (rex AND 8 \<noteq> 0) False = Some (ld, t)" "rex = 0x45 \<or> rex = 0x4d" "d < 8" "a < 8"
  shows "does h (B ([rex, op] @ sib_disp32 d a)) (access ld t (d + 8) (a + 8) 0)"
  using decode_sib [of _ rex op d a ld t] assms
  by (intro does_op [OF _ exec_access rip_free_access]) (auto simp: ext_reg_def)

lemma does_sib_66:
  assumes "d < 8" "a < 8" "mem_op op False True = Some (ld, t)"
  shows "does h (B ([0x66, 0x45, op] @ sib_disp32 d a)) (access ld t (d + 8) (a + 8) 0)"
  using decode_sib_66 [of _ "0x45" op d a ld t] assms
  by (intro does_op [OF _ exec_access rip_free_access]) (simp add: ext_reg_def)

lemma does_disp:
  assumes "mem_op op (rex AND 8 \<noteq> 0) False = Some (ld, t)" "rex = 0x44 \<or> rex = 0x4c" "d < 8"
  shows "does h (B ([rex, op] @ rdi_disp32 d off)) (access ld t (d + 8) 7 (scast off))"
  using decode_disp [of _ rex op d off ld t] assms
  by (intro does_op [OF _ exec_access rip_free_access]) (auto simp: ext_reg_def)

lemma does_disp_66:
  assumes "d < 8" "mem_op op False True = Some (ld, t)"
  shows "does h (B ([0x66, 0x44, op] @ rdi_disp32 d off)) (access ld t (d + 8) 7 (scast off))"
  using decode_disp_66 [of _ "0x44" op d off ld t] assms
  by (intro does_op [OF _ exec_access rip_free_access]) (simp add: ext_reg_def)

lemmas access_codes = mem_op_def operand_size_def
  gen_load_8_def gen_load_16_def gen_load_32_def gen_load_64_def
  gen_store_8_def gen_store_16_def gen_store_32_def gen_store_64_def
  gen_read_8_def gen_read_16_def gen_read_32_def gen_read_64_def
  gen_write_8_def gen_write_16_def gen_write_32_def gen_write_64_def

lemma does_load:
  assumes "d < 8" "a < 8"
  shows "does h (case t of IR_REG_8 \<Rightarrow> gen_load_8 d a | IR_REG_16 \<Rightarrow> gen_load_16 d a
     | IR_REG_32 \<Rightarrow> gen_load_32 d a | IR_REG_64 \<Rightarrow> gen_load_64 d a) (access True t (d + 8) (a + 8) 0)"
  using assms does_sib [of "0x8a" "0x45" True] does_sib [of "0x8b" "0x45" True] does_sib [of "0x8b" "0x4d" True]
    does_sib_66 [of d a "0x8b" True]
  by (cases t) (simp_all add: access_codes)

lemma does_store:
  assumes "d < 8" "a < 8"
  shows "does h (case t of IR_REG_8 \<Rightarrow> gen_store_8 d a | IR_REG_16 \<Rightarrow> gen_store_16 d a
     | IR_REG_32 \<Rightarrow> gen_store_32 d a | IR_REG_64 \<Rightarrow> gen_store_64 d a) (access False t (d + 8) (a + 8) 0)"
  using assms does_sib [of "0x88" "0x45" False] does_sib [of "0x89" "0x45" False] does_sib [of "0x89" "0x4d" False]
    does_sib_66 [of d a "0x89" False]
  by (cases t) (simp_all add: access_codes)

lemma does_read:
  assumes "d < 8"
  shows "does h (case t of IR_REG_8 \<Rightarrow> gen_read_8 d off | IR_REG_16 \<Rightarrow> gen_read_16 d off
     | IR_REG_32 \<Rightarrow> gen_read_32 d off | IR_REG_64 \<Rightarrow> gen_read_64 d off) (access True t (d + 8) 7 (scast off))"
  using assms does_disp [of "0x8a" "0x44" True] does_disp [of "0x8b" "0x44" True] does_disp [of "0x8b" "0x4c" True]
    does_disp_66 [of d "0x8b" True]
  by (cases t) (simp_all add: access_codes)

lemma does_write:
  assumes "d < 8"
  shows "does h (case t of IR_REG_8 \<Rightarrow> gen_write_8 d off | IR_REG_16 \<Rightarrow> gen_write_16 d off
     | IR_REG_32 \<Rightarrow> gen_write_32 d off | IR_REG_64 \<Rightarrow> gen_write_64 d off) (access False t (d + 8) 7 (scast off))"
  using assms does_disp [of "0x88" "0x44" False] does_disp [of "0x89" "0x44" False] does_disp [of "0x89" "0x4c" False]
    does_disp_66 [of d "0x89" False]
  by (cases t) (simp_all add: access_codes)

lemma does_cmp_zero:
  assumes "r < 8"
  shows "does h (gen_cmp_zero r) (\<lambda>m. m\<lparr>zf := (gpr m (r + 8) = 0)\<rparr>)"
  unfolding gen_cmp_zero_def MODRM_REG_def using assms
  by (intro does_op) (auto simp: decode_XCmpImm0 rip_free_def)

lemma does_shift_cl:
  assumes "shift_of sub = Some k" "sub < 8" "d < 8"
  shows "does h (B [0x49, 0xd3, MODRM_MODE_3 OR MODRM_REG sub OR d])
     (\<lambda>m. set_gpr (d + 8) (shift_fun k IR_REG_64 (shift_count IR_REG_64 (gpr m 1)) (gpr m (d + 8))) m)"
  unfolding MODRM_REG_def using assms
  by (intro does_op) (auto simp: decode_XShiftCl [of _ _ _ _ k] ext_reg_def rip_free_def operand_size_def merge_def)

lemma does_shift_imm:
  assumes "shift_of sub = Some k" "sub < 8" "d < 8"
  shows "does h (B [0x49, 0xc1, MODRM_MODE_3 OR MODRM_REG sub OR d, n])
     (\<lambda>m. set_gpr (d + 8) (shift_fun k IR_REG_64 (unat (n AND 63)) (gpr m (d + 8))) m)"
  unfolding MODRM_REG_def using assms
  by (intro does_op) (auto simp: decode_XShiftImm [of _ _ _ _ k] ext_reg_def rip_free_def operand_size_def merge_def)

lemma does_mask:
  assumes "d < 8"
  shows "does h (gen_mask d (binop_mask t)) (\<lambda>m. if t = IR_REG_64 then m else
     let v = trunc t (gpr m (d + 8)) in
     set_gpr (d + 8) v (set_gpr 1 (binop_mask t) (m\<lparr>zf := (v = 0)\<rparr>)))"
proof (cases "t = IR_REG_64")
  case True
  then show ?thesis by (simp add: gen_mask_def binop_mask_def does_Nil)
next
  case False
  have 1: "does h (B ([0x48, 0xb9] @ le64 (binop_mask t))) (set_gpr 1 (binop_mask t))"
    using decode_XMovImm [of _ "0x48" 1 "binop_mask t"]
    by (intro does_op) (auto simp: ext_reg_def rip_free_def)
  have 2: "does h (B [0x49, 0x21, MODRM_MODE_3 OR MODRM_REG 1 OR d])
     (\<lambda>m. let v = gpr m (d + 8) AND gpr m 1 in set_gpr (d + 8) v (m\<lparr>zf := (v = 0)\<rparr>))"
    unfolding MODRM_REG_def using assms decode_XAlu [of _ "0x49" "0x21" 1 d ALU_AND]
    by (intro does_op)
       (auto simp: alu_of_def ext_reg_def rip_free_def operand_size_def merge_def Let_def alu_fun_def
         simp flip: set_gpr_simps(6))
  have m: "binop_mask t = mask (type_bits t)"
    using False by (cases t) (simp_all add: binop_mask_def mask_eq_exp_minus_1)
  have nz: "binop_mask t \<noteq> 0" using False by (cases t) (simp_all add: binop_mask_def)
  have ne: "d + 8 \<noteq> 1" using less_8_cases [OF assms] by (elim disjE) simp_all
  show ?thesis
    using does_append [OF 1 2] nz ne False
    by (simp add: gen_mask_def Let_def trunc_def take_bit_eq_mask m set_gpr_def fun_upd_twist)
qed

lemma does_binop_alu:
  assumes "alu_of op = Some a" "d < 8" "x < 8" "y < 8" "d \<noteq> y"
  shows "does h (gen_move_reg d x @ B [0x4d, op, MODRM_MODE_3 OR MODRM_REG y OR d])
     (\<lambda>m. let v = alu_fun a (gpr m (x + 8)) (gpr m (y + 8)) in set_gpr (d + 8) v (m\<lparr>zf := (v = 0)\<rparr>))"
  by (rule does_cong [OF does_append [OF does_move_reg does_alu64]])
     (use assms in \<open>auto simp: Let_def set_gpr_def\<close>)

lemma sext8_of_nat: "n < 128 \<Longrightarrow> sext8 (of_nat n) = of_nat n"
proof -
  assume "n < 128"
  then have "signed_take_bit 7 (int n) = int n" "take_bit 8 n = n"
    by (simp_all add: signed_take_bit_int_eq_self take_bit_nat_eq_self)
  then show ?thesis
    by (simp add: sext8_def scast_eq sint_uint unsigned_of_nat signed_take_bit_take_bit)
qed

lemma does_jcc:
  assumes "does h c g" "length c < 128"
  shows "does h (B [if z then 0x74 else 0x75, of_nat (length c)] @ c) (\<lambda>m. if zf m = z then m else g m)"
  unfolding does_def
proof (intro conjI allI impI)
  show "rip_free (\<lambda>m. if zf m = z then m else g m)"
    using assms(1) by (simp add: does_def rip_free_def)
next
  fix code and m :: host
  let ?j = "B [if z then 0x74 else 0x75, of_nat (length c)]"
  assume at: "code_at code (rip m) (?j @ c)"
  have "step h code m = exec h (XJcc z (sext8 (of_nat (length c)))) (m\<lparr>rip := rip m + of_nat 2\<rparr>)"
    by (rule step_at [OF _ decode_XJcc]) (use at in \<open>auto simp only: code_at_append\<close>)
  then have s: "step h code m = Some (if zf m = z then m\<lparr>rip := rip m + of_nat (length (?j @ c))\<rparr>
       else m\<lparr>rip := rip m + 2\<rparr>)"
    by (simp add: sext8_of_nat [OF assms(2)] ac_simps)
  show "runs h code m ((if zf m = z then m else g m)\<lparr>rip := rip m + of_nat (length (?j @ c))\<rparr>)"
  proof (cases "zf m = z")
    case True
    then show ?thesis using runs_step [OF s] by simp
  next
    case False
    have "runs h code (m\<lparr>rip := rip m + 2\<rparr>) ((g m)\<lparr>rip := rip m + 2 + of_nat (length c)\<rparr>)"
      using does_runs [OF assms(1), of code "m\<lparr>rip := rip m + 2\<rparr>"] at assms(1)
      by (simp add: does_def rip_free_def add.commute [of 2])
    then show ?thesis using runs_step [OF s] False by (simp add: ac_simps)
  qed
qed

lemma does_cmp64:
  assumes "x < 8" "y < 8"
  shows "does h (B [0x4d, 0x3b, MODRM_MODE_3 OR MODRM_REG y OR x]) (\<lambda>m. m\<lparr>zf := (gpr m (y + 8) = gpr m (x + 8))\<rparr>)"
  unfolding MODRM_REG_def using assms decode_XCmp [of _ "0x4d" y x]
  by (intro does_op) (auto simp: ext_reg_def rip_free_def)

lemma mov_const_length: "length (gen_mov_const_hlp d v) \<le> 10"
  by (simp add: gen_mov_const_hlp_def)

lemma does_cmp:
  assumes "d < 8" "x < 8" "y < 8" "d \<noteq> x" "d \<noteq> y"
  shows "does h (gen_cmp e d x y)
     (\<lambda>m. if (gpr m (x + 8) = gpr m (y + 8)) = e
           then set_gpr (d + 8) (NOT 0) (m\<lparr>zf := e\<rparr>)
           else set_gpr (d + 8) 0 (m\<lparr>zf := True\<rparr>))"
  unfolding gen_cmp_def rex_consts
  by (rule does_cong [OF does_append [OF does_mov_const does_append [OF does_cmp64 does_jcc [OF does_mov_const]]]])
     (use assms le_less_trans [OF mov_const_length, of 128 d 0] in \<open>auto simp: set_gpr_def\<close>)

lemma upper_ne [simp]: "(d::u8) < 8 \<Longrightarrow> d + 8 \<noteq> 0" "d < 8 \<Longrightarrow> d + 8 \<noteq> 1" "d < 8 \<Longrightarrow> d + 8 \<noteq> 2"
  "d < 8 \<Longrightarrow> d + 8 \<noteq> 6" "d < 8 \<Longrightarrow> d + 8 \<noteq> 7"
  using less_8_cases [of d] by (auto elim!: disjE)

lemma does_shift:
  assumes "shift_of sub = Some k" "sub < 8" "d < 8" "x < 8" "y < 8"
  shows "does h (gen_shift sub d x y)
     (\<lambda>m. set_gpr (d + 8) (shift_fun k IR_REG_64 (shift_count IR_REG_64 (gpr m (y + 8))) (gpr m (x + 8)))
             (set_gpr 1 (gpr m (y + 8)) m))"
  unfolding gen_shift_def rex_consts
  by (rule does_cong [OF does_append [OF does_move_reg_low does_append [OF does_move_reg does_shift_cl]]])
     (use assms in \<open>auto simp: set_gpr_def fun_upd_twist\<close>)

lemma does_ite:
  assumes "d < 8" "p < 8" "x < 8" "y < 8" "d \<noteq> p" "d \<noteq> x"
  shows "does h (gen_ite d p x y)
     (\<lambda>m. set_gpr (d + 8) (if gpr m (p + 8) \<noteq> 0 then gpr m (x + 8) else gpr m (y + 8))
             (m\<lparr>zf := (gpr m (p + 8) = 0)\<rparr>))"
proof -
  have c: "does h (B [0x4d, 0x0f, 0x45, MODRM_MODE_3 OR MODRM_REG d OR x])
      (\<lambda>m. if zf m then m else set_gpr (d + 8) (gpr m (x + 8)) m)"
    unfolding MODRM_REG_def using assms decode_XCmovnz [of _ d x]
    by (intro does_op) (auto simp: rip_free_def)
  show ?thesis
    unfolding gen_ite_def rex_consts
    by (rule does_cong [OF does_append [OF does_move_reg does_append [OF does_cmp_zero c]]])
       (use assms in \<open>auto simp: set_gpr_def\<close>)
qed

lemma does_ror:
  assumes "d < 8" "x < 8" "y < 8"
  shows "does h (gen_ror t d x y)
     (\<lambda>m. set_gpr (d + 8) (merge t (gpr m (x + 8)) (trunc t (rotr (type_bits t) (shift_count t (gpr m (y + 8))) (gpr m (x + 8)))))
             (set_gpr 1 (gpr m (y + 8)) m))"
proof -
  define c where "c = (if t = IR_REG_16 then B [0x66] else [])
     @ B [0x40 OR 0x01 OR (if t = IR_REG_64 then 0x08 else 0), if t = IR_REG_8 then 0xd2 else 0xd3,
          0xc0 OR push_bit 3 1 OR d]"
  have s: "shift_of 1 = Some ROR" by (simp add: shift_of_def)
  have "does h c (\<lambda>m. set_gpr (d + 8) (merge t (gpr m (d + 8)) (trunc t (shift_fun ROR t (shift_count t (gpr m 1)) (gpr m (d + 8))))) m)"
    using does_op [of "[0x41, 0xd2, 0xc0 OR push_bit 3 1 OR d]" "XShiftCl ROR IR_REG_8 (d + 8)" h]
      does_op [of "[0x66, 0x41, 0xd3, 0xc0 OR push_bit 3 1 OR d]" "XShiftCl ROR IR_REG_16 (d + 8)" h]
      does_op [of "[0x41, 0xd3, 0xc0 OR push_bit 3 1 OR d]" "XShiftCl ROR IR_REG_32 (d + 8)" h]
      does_op [of "[0x49, 0xd3, 0xc0 OR push_bit 3 1 OR d]" "XShiftCl ROR IR_REG_64 (d + 8)" h]
      decode_XShiftCl_8 [OF _ _ s, of _ "0x41" d] decode_XShiftCl_16 [OF _ s, of _ d]
      decode_XShiftCl [OF _ _ s, of _ "0x41" d] decode_XShiftCl [OF _ _ s, of _ "0x49" d] assms
    unfolding c_def
    by (cases t) (simp_all add: rip_free_def ext_reg_def operand_size_def Let_def)
  from does_append [OF does_move_reg_low does_append [OF does_move_reg this]]
  show ?thesis
    unfolding gen_ror_def MODRM_REG_def c_def
    by (rule does_cong) (use assms in \<open>auto simp: set_gpr_def fun_upd_twist shift_fun_def\<close>)
qed

lemma trunc_merge [simp]: "trunc t (merge t old v) = trunc t v"
  by (cases t) (auto simp: merge_def trunc_def bit_simps intro!: bit_word_eqI)

lemma alu_of_simps [simp]:
  "alu_of 0x01 = Some ALU_ADD" "alu_of 0x29 = Some ALU_SUB" "alu_of 0x31 = Some ALU_XOR"
  "alu_of 0x21 = Some ALU_AND" "alu_of 0x09 = Some ALU_OR"
  by (simp_all add: alu_of_def)

lemma does_unsigned_cast:
  assumes "d < 8" "x < 8" "d \<noteq> x" "n < 64" "0 < n"
  shows "does h (gen_upper_unsigned_cast_hlp d x (mask n))
     (\<lambda>m. let v = take_bit n (gpr m (x + 8)) in set_gpr (d + 8) v (m\<lparr>zf := (v = 0)\<rparr>))"
  unfolding gen_upper_unsigned_cast_hlp_def rex_consts
  by (rule does_cong [OF does_append [OF does_mov_const does_alu64 [OF alu_of_simps(4)]]])
     (use assms in \<open>auto simp: Let_def set_gpr_def alu_fun_def take_bit_eq_mask and.commute\<close>)

lemma sar_shl:
  assumes "0 < n" "n \<le> 64"
  shows "signed_drop_bit (64 - n) (push_bit (64 - n) (v::u64)) = signed_take_bit (n - 1) v"
proof -
  have last: "k = n - Suc 0" if "\<not> n \<le> k" "n - Suc 0 \<le> k" for k using that by linarith
  show ?thesis
    using assms by (intro bit_word_eqI) (auto simp: bit_simps min_def dest: last)
qed

lemma signed_take_bit_63: "signed_take_bit 63 (v::u64) = v"
proof (rule bit_word_eqI)
  fix n assume "n < LENGTH(64)"
  then have "n < 63 \<or> n = 63" by auto
  then show "bit (signed_take_bit 63 v) n = bit v n" by (auto simp: bit_simps min_def)
qed

lemma does_signed_cast:
  assumes "d < 8" "x < 8" "c = 64 - n" "n \<in> {8, 16, 32}"
  shows "does h (gen_upper_signed_cast_hlp d x (of_nat c))
     (\<lambda>m. set_gpr (d + 8) (signed_take_bit (n - 1) (gpr m (x + 8))) m)"
proof -
  have u: "unat ((of_nat c :: u8) AND 63) = c" using assms by auto
  show ?thesis
    unfolding gen_upper_signed_cast_hlp_def rex_consts
    by (rule does_cong [OF does_append [OF does_move_reg does_append [OF does_shift_imm [of _ SHL] does_shift_imm [of _ SAR]]]])
       (use assms sar_shl [of n] in \<open>auto simp: set_gpr_def shift_of_def shift_fun_def u signed_take_bit_63\<close>)
qed

end
