(* ===== verification/Be_CodeGen_Sem.thy ===== *)
theory Be_CodeGen_Sem
  imports Be_Emit
begin

text \<open>
  Correctness of the third pass: the meaning of a host instruction over the registers it names,
  what the host does when it runs the bytes emitted for it, the same for a block, and what
  \<open>patch\<close> makes of a patchable exit.

  The 8 and 16-bit loads keep the upper bits of the destination register. The meaning of an
  instruction takes the old content as an argument, so that it can be used for registers
  whose old content is unknown.
\<close>

section \<open>Meaning of the host instructions\<close>

text \<open>
  The helpers: how many arguments the function at an address has and what it does. \<open>hlp_extends\<close> says that a helper whose result is of
  32 bits leaves zeros in the upper half of the result register, which the calling convention does not promise but a write of the
  low half does.
\<close>

record xenv =
  hlp_arity :: "u64 \<Rightarrow> nat"
  hlp_fun :: "u64 \<Rightarrow> u64 \<Rightarrow> u64 list \<Rightarrow> memory \<Rightarrow> u64 \<times> memory"
  hlp_extends :: bool

datatype 'r xres =
    Next "'r \<Rightarrow> u64" memory
  | Leave u64 bool memory

definition binop_val :: "irRegisterType \<Rightarrow> x86BinopType \<Rightarrow> u64 \<Rightarrow> u64 \<Rightarrow> u64" where
  "binop_val t b x y = trunc t (case b of
       X86_BINOP_ADD \<Rightarrow> x + y | X86_BINOP_SUB \<Rightarrow> x - y | X86_BINOP_XOR \<Rightarrow> x XOR y
     | X86_BINOP_AND \<Rightarrow> x AND y | X86_BINOP_OR \<Rightarrow> x OR y
     | X86_BINOP_SHL \<Rightarrow> push_bit (unat (y AND 63)) x
     | X86_BINOP_SHR \<Rightarrow> drop_bit (unat (y AND 63)) x
     | X86_BINOP_ASR \<Rightarrow> signed_drop_bit (unat (y AND 63)) x
     | X86_BINOP_ROR \<Rightarrow> rotr (type_bits t) (shift_count t y) x
     | X86_BINOP_CMPEQ \<Rightarrow> (if x = y then NOT 0 else 0)
     | X86_BINOP_CMPNE \<Rightarrow> (if x \<noteq> y then NOT 0 else 0))"

definition cast_val :: "irCastType \<Rightarrow> u64 \<Rightarrow> u64" where
  "cast_val c x = (let (f, t) = cast_types c in
     if is_signed_cast c then signed_take_bit (type_bits f - 1) x
     else take_bit (min (type_bits f) (type_bits t)) x)"

fun xexec :: "xenv \<Rightarrow> u64 \<Rightarrow> u64 \<Rightarrow> 'r x86Instruction \<Rightarrow> ('r \<Rightarrow> u64) \<Rightarrow> memory \<Rightarrow> 'r xres option" where
  "xexec E ctx junk (X86_MOV_CONST d v) vals mem = Some (Next (vals(d := v)) mem)"
| "xexec E ctx junk (X86_LOAD t d a) vals mem =
     Some (Next (vals(d := merge t junk (read_mem mem (vals a) (type_bytes t)))) mem)"
| "xexec E ctx junk (X86_STORE t s a) vals mem =
     Some (Next vals (write_mem mem (vals a) (type_bytes t) (vals s)))"
| "xexec E ctx junk (X86_BINOP t b d x y) vals mem =
     Some (Next (vals(d := binop_val t b (vals x) (vals y))) mem)"
| "xexec E ctx junk (X86_ITE d p x y) vals mem =
     Some (Next (vals(d := if vals p \<noteq> 0 then vals x else vals y)) mem)"
| "xexec E ctx junk (X86_CAST c d x) vals mem = Some (Next (vals(d := cast_val c (vals x))) mem)"
| "xexec E ctx junk (X86_EXIT v p k) vals mem =
     Some (case p of None \<Rightarrow> Leave (vals v) k mem
           | Some p \<Rightarrow> if vals p = 0 then Next vals mem else Leave (vals v) k mem)"
| "xexec E ctx junk (X86_CALL a ps r) vals mem =
     (let n = hlp_arity E (vals a); qs = take n ps in
      if n \<le> length ps \<and> None \<notin> set qs
      then (case hlp_fun E (vals a) ctx (map (\<lambda>p. vals (the p)) qs) mem of (res, mem') \<Rightarrow>
              Some (Next (case r of None \<Rightarrow> vals | Some r \<Rightarrow> vals(r := res)) mem'))
      else None)"
| "xexec E ctx junk (X86_READ t d off) vals mem =
     Some (Next (vals(d := merge t junk (read_mem mem (ctx + scast off) (type_bytes t)))) mem)"
| "xexec E ctx junk (X86_WRITE t s off) vals mem =
     Some (Next vals (write_mem mem (ctx + scast off) (type_bytes t) (vals s)))"
| "xexec E ctx junk (X86_INSN_MARKER v) vals mem = Some (Next vals mem)"

definition sim :: "(u8 \<Rightarrow> u64) \<Rightarrow> u64 \<Rightarrow> memory \<Rightarrow> u64 list \<Rightarrow> host \<Rightarrow> bool" where
  "sim vals ctx mem st m \<longleftrightarrow> (\<forall>r < 8. gpr m (r + 8) = vals r) \<and> gpr m 7 = ctx \<and> hmem m = mem \<and> hstack m = st"

fun x_params :: "'r x86Instruction \<Rightarrow> nat" where
  "x_params (X86_CALL a ps r) = length ps"
| "x_params _ = 4"

definition phys_ok :: "u8 x86Instruction \<Rightarrow> bool" where
  "phys_ok i \<longleftrightarrow> (\<forall>r \<in> set (x_reads i) \<union> set (opt_list (x_write i)). r < 8) \<and>
     (\<forall>d. x_write i = Some d \<longrightarrow> d \<notin> set (x_reads i)) \<and> x_params i = 4"


text \<open>A piece of code that only sets one upper register, to a value of the state it starts in.\<close>

definition computes :: "(u64 \<Rightarrow> host \<Rightarrow> host) \<Rightarrow> code \<Rightarrow> u8 \<Rightarrow> (host \<Rightarrow> u64) \<Rightarrow> bool" where
  "computes h c d v \<longleftrightarrow> (\<exists>f. does h c f \<and> (\<forall>m.
     (\<forall>r < 8. gpr (f m) (r + 8) = (if r = d then v m else gpr m (r + 8))) \<and>
     gpr (f m) 7 = gpr m 7 \<and> hmem (f m) = hmem m \<and> hstack (f m) = hstack m))"

lemma computesI:
  assumes "does h c f" "d < 8"
    "\<And>m r. r < 8 \<Longrightarrow> gpr (f m) (r + 8) = (if r = d then v m else gpr m (r + 8))"
    "\<And>m. gpr (f m) 7 = gpr m 7" "\<And>m. hmem (f m) = hmem m" "\<And>m. hstack (f m) = hstack m"
  shows "computes h c d v"
  unfolding computes_def using assms by blast

lemma computes_runs:
  assumes "computes h c d v" "sim vals ctx mem st m" "code_at code (rip m) c"
  shows "\<exists>m'. runs h code m m' \<and> sim (vals(d := v m)) ctx mem st m' \<and> rip m' = rip m + of_nat (length c)"
proof -
  from assms(1) obtain f where f: "does h c f"
    and "\<forall>r < 8. gpr (f m) (r + 8) = (if r = d then v m else gpr m (r + 8))"
     "gpr (f m) 7 = gpr m 7" "hmem (f m) = hmem m" "hstack (f m) = hstack m"
    unfolding computes_def by blast
  then have "sim (vals(d := v m)) ctx mem st ((f m)\<lparr>rip := rip m + of_nat (length c)\<rparr>)"
    using assms(2) by (auto simp: sim_def)
  with does_runs [OF f assms(3)] show ?thesis by (auto intro!: exI)
qed

lemma computes_mask:
  assumes "computes h c d v" "d < 8"
  shows "computes h (c @ gen_mask d (binop_mask t)) d (\<lambda>m. trunc t (v m))"
proof -
  from assms(1) obtain f where f: "does h c f" and e: "\<And>m r. r < 8 \<Longrightarrow> gpr (f m) (r + 8) = (if r = d then v m else gpr m (r + 8))"
     "\<And>m. gpr (f m) 7 = gpr m 7" "\<And>m. hmem (f m) = hmem m" "\<And>m. hstack (f m) = hstack m"
    unfolding computes_def by metis
  show ?thesis
    by (rule computesI [OF does_append [OF f does_mask [OF assms(2)]] assms(2)])
       (use e assms in \<open>auto simp: Let_def\<close>)
qed

lemma computes_cong: "computes h c d v \<Longrightarrow> (\<And>m. v m = w m) \<Longrightarrow> computes h c d w"
  by (metis ext)

lemma computes_masked:
  "computes h c d v \<Longrightarrow> d < 8 \<Longrightarrow> (\<And>m. trunc t (v m) = w m) \<Longrightarrow> computes h (c @ gen_mask d (binop_mask t)) d w"
  by (rule computes_cong [OF computes_mask])

lemma computes_mov_const: "d < 8 \<Longrightarrow> computes h (gen_mov_const d v) d (\<lambda>m. v)"
  unfolding gen_mov_const_def by (rule computesI [OF does_mov_const]) auto

lemma computes_alu:
  assumes "alu_of op = Some a" "d < 8" "x < 8" "y < 8" "d \<noteq> y"
  shows "computes h (gen_move_reg d x @ B [0x4d, op, MODRM_MODE_3 OR MODRM_REG y OR d]) d
     (\<lambda>m. alu_fun a (gpr m (x + 8)) (gpr m (y + 8)))"
  by (rule computesI [OF does_binop_alu [OF assms]]) (use assms in \<open>auto simp: Let_def\<close>)

lemma computes_shift:
  assumes "shift_of sub = Some k" "sub < 8" "d < 8" "x < 8" "y < 8"
  shows "computes h (gen_shift sub d x y) d
     (\<lambda>m. shift_fun k IR_REG_64 (shift_count IR_REG_64 (gpr m (y + 8))) (gpr m (x + 8)))"
  by (rule computesI [OF does_shift [OF assms]]) (use assms in auto)

lemma computes_ror:
  assumes "d < 8" "x < 8" "y < 8"
  shows "computes h (gen_ror t d x y) d
    (\<lambda>m. merge t (gpr m (x + 8)) (trunc t (rotr (type_bits t) (shift_count t (gpr m (y + 8))) (gpr m (x + 8)))))"
  by (rule computesI [OF does_ror [OF assms]]) (use assms in auto)

lemma computes_cmp:
  assumes "d < 8" "x < 8" "y < 8" "d \<noteq> x" "d \<noteq> y"
  shows "computes h (gen_cmp e d x y) d
    (\<lambda>m. if (gpr m (x + 8) = gpr m (y + 8)) = e then NOT 0 else 0)"
  by (rule computesI [OF does_cmp [OF assms]]) (use assms in auto)

lemma computes_binop:
  assumes "d < 8" "x < 8" "y < 8" "d \<noteq> x" "d \<noteq> y"
  shows "computes h (gen_binop t b d x y (binop_mask t)) d (\<lambda>m. binop_val t b (gpr m (x + 8)) (gpr m (y + 8)))"
proof -
  note masked = computes_masked [OF _ assms(1), where t = t]
  note alu = masked [OF computes_alu [OF _ assms(1-3,5)]]
  note cl = masked [OF computes_shift [OF _ _ assms(1-3)]]
  note defs = gen_binop_def binop_val_def rex_consts shift_of_def alu_fun_def shift_fun_def
    shift_count_def [of IR_REG_64] signed_take_bit_63
  show ?thesis
  proof (cases b)
    case X86_BINOP_ADD then show ?thesis using alu [OF alu_of_simps(1)] by (simp add: defs)
  next
    case X86_BINOP_SUB then show ?thesis using alu [OF alu_of_simps(2)] by (simp add: defs)
  next
    case X86_BINOP_XOR then show ?thesis using alu [OF alu_of_simps(3)] by (simp add: defs)
  next
    case X86_BINOP_AND then show ?thesis using alu [OF alu_of_simps(4)] by (simp add: defs)
  next
    case X86_BINOP_OR then show ?thesis using alu [OF alu_of_simps(5)] by (simp add: defs)
  next
    case X86_BINOP_SHL then show ?thesis using cl [of 4 SHL] by (simp add: defs)
  next
    case X86_BINOP_SHR then show ?thesis using cl [of 5 SHR] by (simp add: defs)
  next
    case X86_BINOP_ASR then show ?thesis using cl [of 7 SAR] by (simp add: defs)
  next
    case X86_BINOP_ROR then show ?thesis using masked [OF computes_ror [OF assms(1-3)]] by (simp add: gen_binop_def binop_val_def)
  next
    case X86_BINOP_CMPEQ then show ?thesis using masked [OF computes_cmp [OF assms, of _ True]] by (simp add: defs)
  next
    case X86_BINOP_CMPNE then show ?thesis using masked [OF computes_cmp [OF assms, of _ False]] by (simp add: defs)
  qed
qed

lemma computes_ite:
  assumes "d < 8" "p < 8" "x < 8" "y < 8" "d \<noteq> p" "d \<noteq> x"
  shows "computes h (gen_ite d p x y) d (\<lambda>m. if gpr m (p + 8) \<noteq> 0 then gpr m (x + 8) else gpr m (y + 8))"
  by (rule computesI [OF does_ite [OF assms]]) (use assms in auto)

lemma mask_consts: "(0xff::u64) = mask 8" "(0xffff::u64) = mask 16" "(0xffffffff::u64) = mask 32"
  by (simp_all add: mask_eq_exp_minus_1)

lemma computes_cast:
  assumes "d < 8" "x < 8" "d \<noteq> x"
  shows "computes h (gen_cast c d x) d (\<lambda>m. cast_val c (gpr m (x + 8)))"
proof -
  have u: "computes h (gen_upper_unsigned_cast_hlp d x (mask n)) d (\<lambda>m. take_bit n (gpr m (x + 8)))"
    if "n < 64" "0 < n" for n
    by (rule computesI [OF does_unsigned_cast [OF assms that] assms(1)]) (use assms in \<open>auto simp: Let_def\<close>)
  have s: "computes h (gen_upper_signed_cast_hlp d x k) d (\<lambda>m. signed_take_bit (n - 1) (gpr m (x + 8)))"
    if "k = of_nat (64 - n)" "n \<in> {8, 16, 32}" for k n
    unfolding that(1)
    by (rule computesI [OF does_signed_cast [OF assms(1,2) refl that(2)] assms(1)]) (use assms in auto)
  show ?thesis
    using u [of 8] u [of 16] u [of 32] s [of 56 8] s [of 48 16] s [of 32 32]
    by (cases c) (simp_all add: cast_val_def mask_consts)
qed

lemma computes_load:
  assumes "d < 8" "a < 8"
  shows "computes h (case t of IR_REG_8 \<Rightarrow> gen_load_8 d a | IR_REG_16 \<Rightarrow> gen_load_16 d a
     | IR_REG_32 \<Rightarrow> gen_load_32 d a | IR_REG_64 \<Rightarrow> gen_load_64 d a) d
     (\<lambda>m. merge t (gpr m (d + 8)) (read_mem (hmem m) (gpr m (a + 8)) (type_bytes t)))"
  by (rule computesI [OF does_load [OF assms] assms(1)]) (use assms in \<open>auto simp: access_def\<close>)

lemma computes_read:
  assumes "d < 8"
  shows "computes h (case t of IR_REG_8 \<Rightarrow> gen_read_8 d off | IR_REG_16 \<Rightarrow> gen_read_16 d off
     | IR_REG_32 \<Rightarrow> gen_read_32 d off | IR_REG_64 \<Rightarrow> gen_read_64 d off) d
     (\<lambda>m. merge t (gpr m (d + 8)) (read_mem (hmem m) (gpr m 7 + scast off) (type_bytes t)))"
  by (rule computesI [OF does_read [OF assms] assms(1)]) (use assms in \<open>auto simp: access_def\<close>)

subsection \<open>Exits\<close>

lemma runs_lea:
  assumes "code_at code (rip m) (B [0x48, 0x8d, 0x15, 0, 0, 0, 0])"
  shows "runs h code m (set_gpr 2 (rip m + 7) (m\<lparr>rip := rip m + 7\<rparr>))"
  using step_at [OF assms decode_XLeaRip, where h = h] by (intro runs_step [OF _ runs_refl]) simp

lemma runs_ret:
  assumes "code_at code (rip m) (B [0xc3])" "hstack m = ra # st"
  shows "runs h code m (m\<lparr>rip := ra, hstack := st\<rparr>)"
  using step_at [OF assms(1) decode_XRet, where h = h] assms(2) by (intro runs_step [OF _ runs_refl]) simp

lemma does_zero_rdx: "does h (B [0x40, 0x31, 0xc0 OR push_bit 3 2 OR 2]) (\<lambda>m. set_gpr 2 0 (m\<lparr>zf := True\<rparr>))"
  using decode_XAlu [of _ "0x40" "0x31" 2 2 ALU_XOR]
  by (intro does_op)
     (auto simp: ext_reg_def rip_free_def operand_size_def merge_def Let_def alu_fun_def
       simp flip: set_gpr_simps(6))

text \<open>
  How generated code leaves: it returns to the caller with the value in \<open>rax\<close> and in \<open>rdx\<close> the
  address of the patchable \<open>ret\<close>, zero when there is none.
\<close>

definition left :: "host \<Rightarrow> u64 \<Rightarrow> u64 \<Rightarrow> u64 \<Rightarrow> u64 list \<Rightarrow> host \<Rightarrow> bool" where
  "left m ra v link st m' \<longleftrightarrow> rip m' = ra \<and> gpr m' 0 = v \<and> gpr m' 2 = link \<and> hmem m' = hmem m \<and>
     hstack m' = st \<and> (\<forall>r. r \<notin> {0, 2} \<longrightarrow> gpr m' r = gpr m r)"

definition exit_link :: "u64 \<Rightarrow> bool \<Rightarrow> u64" where
  "exit_link a k = (if k then a + 10 else 0)"

lemma exit_sequence_leaves:
  assumes at: "code_at code (rip m) (gen_exit_sequence v k)" and v: "v < 8" and st: "hstack m = ra # st"
  shows "\<exists>m'. runs h code m m' \<and> left m ra (gpr m (v + 8)) (exit_link (rip m) k) st m'"
proof -
  let ?m1 = "set_gpr 0 (gpr m (v + 8)) (m\<lparr>rip := rip m + 3\<rparr>)"
  have r1: "runs h code m ?m1"
    using does_runs [OF does_move_reg_low [of 0 v], of code m] at v
    by (simp add: gen_exit_sequence_def gen_move_reg_low_def)
  show ?thesis
  proof (cases k)
    case True
    let ?m2 = "set_gpr 2 (rip m + 10) (?m1\<lparr>rip := rip m + 10\<rparr>)"
    have at2: "code_at code (rip ?m1) (B [0x48, 0x8d, 0x15, 0, 0, 0, 0])" "code_at code (rip ?m2) (B [0xc3])"
      using at True by (simp_all add: gen_exit_sequence_def gen_move_reg_low_def ac_simps)
    have r2: "runs h code ?m1 ?m2" using runs_lea [OF at2(1), of h] by (simp add: ac_simps)
    have r3: "runs h code ?m2 (?m2\<lparr>rip := ra, hstack := st\<rparr>)"
      by (rule runs_ret [OF at2(2)]) (use st in simp)
    show ?thesis
      by (rule exI [of _ "?m2\<lparr>rip := ra, hstack := st\<rparr>"])
         (use runs_trans [OF r1 runs_trans [OF r2 r3]] True in \<open>auto simp: left_def exit_link_def\<close>)
  next
    case False
    let ?m2 = "set_gpr 2 0 (?m1\<lparr>zf := True, rip := rip m + 6\<rparr>)"
    have at2: "code_at code (rip ?m1) (B [0x40, 0x31, 0xc0 OR push_bit 3 2 OR 2])" "code_at code (rip ?m2) (B [0xc3])"
      using at False by (simp_all add: gen_exit_sequence_def gen_move_reg_low_def ac_simps)
    have r2: "runs h code ?m1 ?m2" using does_runs [OF does_zero_rdx at2(1), of h] by (simp add: ac_simps)
    have r3: "runs h code ?m2 (?m2\<lparr>rip := ra, hstack := st\<rparr>)"
      by (rule runs_ret [OF at2(2)]) (use st in simp)
    show ?thesis
      by (rule exI [of _ "?m2\<lparr>rip := ra, hstack := st\<rparr>"])
         (use runs_trans [OF r1 runs_trans [OF r2 r3]] False in \<open>auto simp: left_def exit_link_def\<close>)
  qed
qed

lemma exit_sequence_length: "length (gen_exit_sequence v k) = (if k then 30 else 7)"
  by (simp add: gen_exit_sequence_def gen_move_reg_low_def)

subsection \<open>Calls\<close>

lemma less_16_split: "(r::u8) < 16 \<Longrightarrow> r < 8 \<or> (\<exists>q < 8. r = q + 8)"
proof -
  assume "r < 16"
  then have "\<not> r < 8 \<Longrightarrow> r - 8 < 8 \<and> r = (r - 8) + 8"
    by (simp add: word_less_nat_alt unat_sub word_le_nat_alt)
  then show ?thesis by blast
qed

lemma push_index: "(q::u8) < 8 \<Longrightarrow> (q + 8) AND 7 = q \<and> 8 \<le> q + 8 \<and> \<not> 8 \<le> q \<and> q AND 7 = q"
  using less_8_cases [of q] by (auto elim!: disjE simp: word_le_nat_alt)

lemma decode_push_hlp:
  assumes "r < 16" "starts f [if r \<ge> 8 then 0x49 else 0x48, 0x50 + (r AND 7)]"
  shows "decode f = Some (XPush r, 2)"
  using less_16_split [OF assms(1)]
proof
  assume "r < 8"
  then show ?thesis using assms(2) push_index [of r] decode_XPush [of f "0x48" r] by (auto simp: ext_reg_def)
next
  assume "\<exists>q < 8. r = q + 8"
  then obtain q where q: "q < 8" "r = q + 8" by blast
  then show ?thesis using assms(2) push_index [of q] decode_XPush [of f "0x49" q] by (auto simp: ext_reg_def)
qed

lemma does_push:
  assumes "r < 16"
  shows "does h (gen_push_hlp r) (\<lambda>m. m\<lparr>hstack := gpr m r # hstack m\<rparr>)"
  unfolding gen_push_hlp_def rex_consts
  by (rule does_op [of _ "XPush r"]) (use decode_push_hlp [OF assms] in \<open>simp_all add: rip_free_def\<close>)

lemma decode_pop_hlp:
  assumes "r < 16" "starts f [if r \<ge> 8 then 0x49 else 0x48, 0x58 + (r AND 7)]"
  shows "decode f = Some (XPop r, 2)"
  using less_16_split [OF assms(1)]
proof
  assume "r < 8"
  then show ?thesis using assms(2) push_index [of r] decode_XPop [of f "0x48" r] by (auto simp: ext_reg_def)
next
  assume "\<exists>q < 8. r = q + 8"
  then obtain q where q: "q < 8" "r = q + 8" by blast
  then show ?thesis using assms(2) push_index [of q] decode_XPop [of f "0x49" q] by (auto simp: ext_reg_def)
qed

lemma runs_pop:
  assumes "code_at code (rip m) (gen_pop_hlp r)" "hstack m = v # st" "r < 16"
  shows "runs h code m (set_gpr r v (m\<lparr>rip := rip m + 2, hstack := st\<rparr>))"
proof -
  have at: "code_at code (rip m) (B [if r \<ge> 8 then 0x49 else 0x48, 0x58 + (r AND 7)])"
    using assms(1) by (cases "r \<ge> 8") (simp_all add: gen_pop_hlp_def)
  show ?thesis
    by (rule runs_step [OF _ runs_refl])
       (use step_at [OF at decode_pop_hlp [OF assms(3)], where h = h] assms(2) in simp)
qed

lemma does_pushes:
  assumes "\<forall>r \<in> set rs. r < 16"
  shows "does h (concat (map gen_push_hlp rs)) (\<lambda>m. m\<lparr>hstack := rev (map (gpr m) rs) @ hstack m\<rparr>)"
  using assms
proof (induction rs)
  case Nil
  then show ?case by (simp add: does_Nil)
next
  case (Cons r rs)
  then show ?case
    using does_append [OF does_push [of r h] Cons.IH] by simp
qed

lemma pop_length: "length (gen_pop_hlp r) = 2"
  by (simp add: gen_pop_hlp_def)

lemma runs_pops:
  assumes "code_at code (rip m) (concat (map gen_pop_hlp rs))" "hstack m = map val rs @ st"
    "\<forall>r \<in> set rs. r < 16"
  shows "runs h code m (m\<lparr>gpr := \<lambda>r. if r \<in> set rs then val r else gpr m r,
           rip := rip m + 2 * of_nat (length rs), hstack := st\<rparr>)"
  using assms
proof (induction rs arbitrary: m)
  case Nil
  then show ?case by (cases m) simp
next
  case (Cons r rs)
  let ?m1 = "set_gpr r (val r) (m\<lparr>rip := rip m + 2, hstack := map val rs @ st\<rparr>)"
  have 1: "runs h code m ?m1" using Cons.prems by (intro runs_pop) auto
  have "code_at code (rip ?m1) (concat (map gen_pop_hlp rs))"
    using Cons.prems by (simp add: pop_length ac_simps)
  from Cons.IH [OF this] Cons.prems
  have 2: "runs h code ?m1 (?m1\<lparr>gpr := \<lambda>q. if q \<in> set rs then val q else gpr ?m1 q,
     rip := rip ?m1 + 2 * of_nat (length rs), hstack := st\<rparr>)" by simp
  have f: "(\<lambda>q. if q \<in> set rs then val q else gpr ?m1 q) = (\<lambda>q. if q \<in> set (r # rs) then val q else gpr m q)"
    by (auto simp: fun_eq_iff)
  have e: "?m1\<lparr>gpr := \<lambda>q. if q \<in> set rs then val q else gpr ?m1 q,
     rip := rip ?m1 + 2 * of_nat (length rs), hstack := st\<rparr>
     = m\<lparr>gpr := \<lambda>q. if q \<in> set (r # rs) then val q else gpr m q,
         rip := rip m + 2 * of_nat (length (r # rs)), hstack := st\<rparr>"
    unfolding f by (simp add: set_gpr_def algebra_simps)
  show ?case using runs_trans [OF 1 2] unfolding e .
qed

lemma does_param_low:
  assumes "lo < 8" "\<And>q. p = Some q \<Longrightarrow> q < 8"
  shows "does h (gen_param (gen_move_reg_low lo) p) (\<lambda>m. case p of None \<Rightarrow> m | Some q \<Rightarrow> set_gpr lo (gpr m (q + 8)) m)"
  using assms by (cases p) (auto simp: gen_param_def does_Nil does_move_reg_low)

lemma does_param_r8:
  assumes "\<And>q. p = Some q \<Longrightarrow> q < 8"
  shows "does h (gen_param (gen_move_reg 0) p) (\<lambda>m. case p of None \<Rightarrow> m | Some q \<Rightarrow> set_gpr 8 (gpr m (q + 8)) m)"
  using assms does_move_reg [of 0 _ h] by (cases p) (auto simp: gen_param_def does_Nil)

lemma does_result:
  assumes "\<And>q. r = Some q \<Longrightarrow> q < 8"
  shows "does h (gen_param (gen_move_reg_from_low 0) r) (\<lambda>m. case r of None \<Rightarrow> m | Some q \<Rightarrow> set_gpr (q + 8) (gpr m 0) m)"
  using assms by (cases r) (auto simp: gen_param_def does_Nil does_move_reg_from_low)

text \<open>
  What the generated code relies on of a helper: the System V calling convention, with the
  context in \<open>rdi\<close>, the parameters in \<open>rsi\<close>, \<open>rdx\<close>, \<open>rcx\<close> and \<open>r8\<close> and the result in \<open>rax\<close>.
\<close>

definition helper_ok :: "(u64 \<Rightarrow> host \<Rightarrow> host) \<Rightarrow> xenv \<Rightarrow> bool" where
  "helper_ok h E \<longleftrightarrow> (\<forall>a m. (\<forall>q \<in> {3, 4, 5, 12, 13, 14, 15}. gpr (h a m) q = gpr m q) \<and>
     hstack (h a m) = hstack m \<and>
     (gpr (h a m) 0, hmem (h a m)) =
       hlp_fun E a (gpr m 7) (take (hlp_arity E a) [gpr m 6, gpr m 2, gpr m 1, gpr m 8]) (hmem m))"

lemma list_of_4: "length xs = 4 \<Longrightarrow> \<exists>a b c d. xs = [a, b, c, d]"
  by (auto simp: length_Suc_conv numeral_eq_Suc)

lemma call_args:
  assumes "ps = [p0, p1, p2, p3]" "n \<le> 4" "None \<notin> set (take n ps)"
    "\<And>q. p0 = Some q \<Longrightarrow> v0 = f q" "\<And>q. p1 = Some q \<Longrightarrow> v1 = f q"
    "\<And>q. p2 = Some q \<Longrightarrow> v2 = f q" "\<And>q. p3 = Some q \<Longrightarrow> v3 = f q"
  shows "take n [v0, v1, v2, v3] = map (\<lambda>p. f (the p)) (take n ps)"
  using assms by (auto simp: take_Cons' split: if_splits)

abbreviation saved :: "u8 list" where "saved \<equiv> [7, 8, 9, 10, 11, 12]"

lemma gen_call_split:
  "gen_call a ps r =
     (concat (map gen_push_hlp saved)
      @ gen_move_reg_low 0 a @ gen_param (gen_move_reg_low 1) (ps ! 2) @ gen_param (gen_move_reg_low 2) (ps ! 1)
      @ gen_param (gen_move_reg_low 6) (ps ! 0) @ gen_param (gen_move_reg 0) (ps ! 3))
     @ B [0x48, 0xff, 0xc0 OR push_bit 3 2 OR 0]
     @ concat (map gen_pop_hlp (rev saved))
     @ gen_param (gen_move_reg_from_low 0) r"
  by (simp add: gen_call_def MODRM_REG_def)

text \<open>The code before the call: the saved registers on the stack, the address and the parameters in place.\<close>

lemma call_setup:
  assumes "ps = [p0, p1, p2, p3]" "a < 8" "\<forall>p \<in> set ps. \<forall>q. p = Some q \<longrightarrow> q < 8"
  shows "\<exists>f. does h (concat (map gen_push_hlp saved)
      @ gen_move_reg_low 0 a @ gen_param (gen_move_reg_low 1) p2 @ gen_param (gen_move_reg_low 2) p1
      @ gen_param (gen_move_reg_low 6) p0 @ gen_param (gen_move_reg 0) p3) f \<and>
    (\<forall>m. gpr (f m) 0 = gpr m (a + 8) \<and> hstack (f m) = map (gpr m) (rev saved) @ hstack m \<and>
       hmem (f m) = hmem m \<and> (\<forall>r \<in> {7, 13, 14, 15}. gpr (f m) r = gpr m r) \<and>
       (\<forall>q. p0 = Some q \<longrightarrow> gpr (f m) 6 = gpr m (q + 8)) \<and> (\<forall>q. p1 = Some q \<longrightarrow> gpr (f m) 2 = gpr m (q + 8)) \<and>
       (\<forall>q. p2 = Some q \<longrightarrow> gpr (f m) 1 = gpr m (q + 8)) \<and> (\<forall>q. p3 = Some q \<longrightarrow> gpr (f m) 8 = gpr m (q + 8)))"
proof -
  have b: "\<And>q. p0 = Some q \<Longrightarrow> q < 8" "\<And>q. p1 = Some q \<Longrightarrow> q < 8" "\<And>q. p2 = Some q \<Longrightarrow> q < 8"
    "\<And>q. p3 = Some q \<Longrightarrow> q < 8" using assms by auto
  have pushes: "does h (concat (map gen_push_hlp saved)) (\<lambda>m. m\<lparr>hstack := rev (map (gpr m) saved) @ hstack m\<rparr>)"
    by (rule does_pushes) (simp add: word_less_nat_alt)
  show ?thesis
    by (rule exI, rule conjI, rule does_append [OF pushes does_append [OF does_move_reg_low [of 0 a]
          does_append [OF does_param_low [of 1 p2] does_append [OF does_param_low [of 2 p1]
          does_append [OF does_param_low [of 6 p0] does_param_r8 [of p3]]]]]])
       (use assms b in \<open>auto split: option.splits\<close>)
qed

lemma runs_call:
  assumes "code_at code (rip m) (B [0x48, 0xff, 0xc0 OR push_bit 3 2 OR 0])"
  shows "runs h code m ((h (gpr m 0) (m\<lparr>rip := rip m + 3\<rparr>))\<lparr>rip := rip m + 3\<rparr>)"
  using step_at [OF assms decode_XCall, where h = h] by (intro runs_step [OF _ runs_refl]) simp

lemma gen_call_correct:
  assumes ok: "helper_ok h E" and ps: "ps = [p0, p1, p2, p3]"
    and a: "a < 8" and p: "\<forall>p \<in> set ps. \<forall>q. p = Some q \<longrightarrow> q < 8" and r: "\<And>q. r = Some q \<Longrightarrow> q < 8"
    and sim: "sim vals ctx mem st m" and at: "code_at code (rip m) (gen_call a ps r)"
    and x: "xexec E ctx junk (X86_CALL a ps r) vals mem = Some (Next vals' mem')"
  shows "\<exists>m'. runs h code m m' \<and> sim vals' ctx mem' st m' \<and> rip m' = rip m + of_nat (length (gen_call a ps r))"
proof -
  define c1 where "c1 = concat (map gen_push_hlp saved)
      @ gen_move_reg_low 0 a @ gen_param (gen_move_reg_low 1) p2 @ gen_param (gen_move_reg_low 2) p1
      @ gen_param (gen_move_reg_low 6) p0 @ gen_param (gen_move_reg 0) p3"
  define c3 where "c3 = concat (map gen_pop_hlp (rev saved))"
  define c4 where "c4 = gen_param (gen_move_reg_from_low 0) r"
  have code: "gen_call a ps r = c1 @ B [0x48, 0xff, 0xc0 OR push_bit 3 2 OR 0] @ c3 @ c4"
    unfolding gen_call_split c1_def c3_def c4_def ps by simp
  obtain f where f: "does h c1 f" and
    f0: "gpr (f m) 0 = gpr m (a + 8)" "hstack (f m) = map (gpr m) (rev saved) @ hstack m" "hmem (f m) = hmem m"
      "\<forall>r \<in> {7, 13, 14, 15}. gpr (f m) r = gpr m r"
    and fp: "\<And>q. p0 = Some q \<Longrightarrow> gpr (f m) 6 = gpr m (q + 8)" "\<And>q. p1 = Some q \<Longrightarrow> gpr (f m) 2 = gpr m (q + 8)"
      "\<And>q. p2 = Some q \<Longrightarrow> gpr (f m) 1 = gpr m (q + 8)" "\<And>q. p3 = Some q \<Longrightarrow> gpr (f m) 8 = gpr m (q + 8)"
    using call_setup [OF ps a p, of h] unfolding c1_def by blast
  define n where "n = hlp_arity E (vals a)"
  have n: "n \<le> 4" "None \<notin> set (take n ps)" and va: "gpr m (a + 8) = vals a"
    using x ps a sim by (auto simp: n_def Let_def sim_def split: if_splits)
  have args: "take n [gpr (f m) 6, gpr (f m) 2, gpr (f m) 1, gpr (f m) 8] = map (\<lambda>p. vals (the p)) (take n ps)"
    by (rule call_args [OF ps n]) (use fp p sim ps in \<open>auto simp: sim_def\<close>)
  obtain res where res: "hlp_fun E (vals a) ctx (map (\<lambda>p. vals (the p)) (take n ps)) mem = (res, mem')"
    and vals': "vals' = (case r of None \<Rightarrow> vals | Some r \<Rightarrow> vals(r := res))"
    using x by (auto simp: n_def Let_def split: if_splits prod.splits)
  let ?m1 = "(f m)\<lparr>rip := rip m + of_nat (length c1)\<rparr>"
  let ?m1' = "(f m)\<lparr>rip := rip ?m1 + 3\<rparr>"
  let ?m2 = "(h (vals a) ?m1')\<lparr>rip := rip ?m1 + 3\<rparr>"
  have r1: "runs h code m ?m1" using does_runs [OF f] at code by simp
  have r2: "runs h code ?m1 ?m2"
    using runs_call [of code ?m1 h] at f0 va by (simp add: code)
  have h: "gpr ?m2 0 = res" "hmem ?m2 = mem'" "hstack ?m2 = map (gpr m) (rev saved) @ st"
    "\<forall>q \<in> {13, 14, 15}. gpr ?m2 q = gpr m q"
    using ok [unfolded helper_ok_def, rule_format, of "vals a" ?m1'] f0 sim args res
    by (auto simp: n_def sim_def)
  let ?m3 = "?m2\<lparr>gpr := \<lambda>q. if q \<in> set (rev saved) then gpr m q else gpr ?m2 q,
     rip := rip ?m2 + 2 * of_nat (length (rev saved)), hstack := st\<rparr>"
  have at3: "code_at code (rip ?m2) (concat (map gen_pop_hlp (rev saved)))" "code_at code (rip ?m3) c4"
    using at unfolding code c3_def by (simp_all add: pop_length ac_simps)
  have r3: "runs h code ?m2 ?m3"
    using runs_pops [OF at3(1) h(3)] by (simp add: word_less_nat_alt)
  have up: "gpr ?m3 (q + 8) = gpr m (q + 8)" if "q < 8" for q
    using less_8_cases [OF that] h(4) by (elim disjE) simp_all
  have s3: "sim vals ctx mem' st ?m3" "gpr ?m3 0 = res"
    using up h sim by (simp_all add: sim_def)
  let ?g = "\<lambda>m. case r of None \<Rightarrow> m | Some q \<Rightarrow> set_gpr (q + 8) (gpr m 0) m"
  let ?m4 = "(?g ?m3)\<lparr>rip := rip ?m3 + of_nat (length c4)\<rparr>"
  have r4: "runs h code ?m3 ?m4"
    using does_runs [OF does_result [OF r]] at3(2) unfolding c4_def by blast
  have s4: "sim vals' ctx mem' st ?m4"
    using s3 r unfolding vals' by (auto simp: sim_def split: option.splits)
  have "rip ?m4 = rip m + of_nat (length (gen_call a ps r))"
    unfolding code c3_def by (simp add: pop_length ac_simps)
  with runs_trans [OF r1 runs_trans [OF r2 runs_trans [OF r3 r4]]] s4 show ?thesis by blast
qed

section \<open>Correctness of the code of an instruction and of a block\<close>

text \<open>The area behind a patchable exit that \<open>patch\<close> expects at the link address.\<close>

definition patch_area :: "memory \<Rightarrow> u64 \<Rightarrow> bool" where
  "patch_area code a \<longleftrightarrow> code_at code a (B [0xc3, 0x48, 0xb8] @ replicate 8 None @ B [0xff, 0xe0])"

lemma exit_patch_area:
  "code_at code a (gen_exit_sequence v True) \<Longrightarrow> patch_area code (exit_link a True)"
  by (simp add: gen_exit_sequence_def gen_move_reg_low_def patch_area_def exit_link_def ac_simps del: replicate.simps)

text \<open>What the host has done when the instruction \<open>res\<close> stands for is over.\<close>

definition reaches :: "(u64 \<Rightarrow> host \<Rightarrow> host) \<Rightarrow> memory \<Rightarrow> u64 \<Rightarrow> u64 \<Rightarrow> u64 list \<Rightarrow> u64 \<Rightarrow> host \<Rightarrow> u8 xres \<Rightarrow> bool" where
  "reaches h code ctx ra st next m res = (case res of
       Next vals mem \<Rightarrow> \<exists>m'. runs h code m m' \<and> sim vals ctx mem (ra # st) m' \<and> rip m' = next
     | Leave v k mem \<Rightarrow> \<exists>m'. runs h code m m' \<and> rip m' = ra \<and> gpr m' 0 = v \<and> hmem m' = mem \<and> hstack m' = st \<and>
         (if k then patch_area code (gpr m' 2) else gpr m' 2 = 0))"

lemma reaches_trans: "runs h code m m' \<Longrightarrow> reaches h code ctx ra st nxt m' res \<Longrightarrow> reaches h code ctx ra st nxt m res"
  by (cases res) (auto simp: reaches_def intro: runs_trans)

lemma exit_sequence_reaches:
  assumes "code_at code (rip m) (gen_exit_sequence v k)" "v < 8" "sim vals ctx mem (ra # st) m"
  shows "reaches h code ctx ra st nxt m (Leave (vals v) k mem)"
proof -
  have "hstack m = ra # st" using assms(3) by (simp add: sim_def)
  from exit_sequence_leaves [OF assms(1,2) this, of h] obtain m' where
    "runs h code m m'" "left m ra (gpr m (v + 8)) (exit_link (rip m) k) st m'" by blast
  then show ?thesis
    using assms exit_patch_area [of code "rip m" v]
    by (auto simp: reaches_def left_def sim_def exit_link_def intro!: exI [of _ m'])
qed

lemma gen_exit_correct:
  assumes at: "code_at code (rip m) (gen_exit v p k)" and bd: "v < 8" "\<And>q. p = Some q \<Longrightarrow> q < 8"
    and sim: "sim vals ctx mem (ra # st) m"
  shows "reaches h code ctx ra st (rip m + of_nat (length (gen_exit v p k))) m
     (case p of None \<Rightarrow> Leave (vals v) k mem
           | Some p \<Rightarrow> if vals p = 0 then Next vals mem else Leave (vals v) k mem)"
proof (cases p)
  case None
  then show ?thesis using at exit_sequence_reaches [OF _ bd(1) sim] by (simp add: gen_exit_def)
next
  case (Some q)
  then have q: "q < 8" "gpr m (q + 8) = vals q" using bd sim by (auto simp: sim_def)
  let ?s = "gen_exit_sequence v k"
  let ?m1 = "m\<lparr>zf := (vals q = 0), rip := rip m + 7\<rparr>"
  have r1: "runs h code m ?m1"
    using does_runs [OF does_cmp_zero [OF q(1)], of code m h] at Some q
    by (simp add: gen_exit_def gen_cmp_zero_def)
  have at2: "code_at code (rip ?m1) (B [if True then 0x74 else 0x75, of_nat (length ?s)])"
    "code_at code (rip m + 9) ?s"
    using at Some by (simp_all add: gen_exit_def gen_cmp_zero_def ac_simps)
  have len: "length ?s < 128" by (simp add: exit_sequence_length)
  have sj: "step h code ?m1 = exec h (XJcc True (sext8 (of_nat (length ?s)))) (?m1\<lparr>rip := rip ?m1 + of_nat 2\<rparr>)"
    by (rule step_at [OF at2(1) decode_XJcc])
  have "step h code ?m1 = Some (if vals q = 0 then ?m1\<lparr>rip := rip m + 9 + of_nat (length ?s)\<rparr> else ?m1\<lparr>rip := rip m + 9\<rparr>)"
    using sj len by (simp add: sext8_of_nat ac_simps)
  from runs_step [OF this runs_refl] have r2: "runs h code ?m1
     (if vals q = 0 then ?m1\<lparr>rip := rip m + 9 + of_nat (length ?s)\<rparr> else ?m1\<lparr>rip := rip m + 9\<rparr>)" .
  show ?thesis
  proof (cases "vals q = 0")
    case True
    then show ?thesis
      using runs_trans [OF r1 r2] Some sim
      by (auto simp: reaches_def sim_def gen_exit_def gen_cmp_zero_def ac_simps
          intro!: exI [of _ "?m1\<lparr>rip := rip m + 9 + of_nat (length ?s)\<rparr>"])
  next
    case False
    let ?m2 = "?m1\<lparr>rip := rip m + 9\<rparr>"
    have "sim vals ctx mem (ra # st) ?m2" using sim by (simp add: sim_def)
    from exit_sequence_reaches [OF _ bd(1) this, of code k h] at2(2)
    have "reaches h code ctx ra st (rip m + of_nat (length (gen_exit v p k))) ?m2 (Leave (vals v) k mem)" by simp
    with reaches_trans [OF runs_trans [OF r1 r2]] False Some show ?thesis by simp
  qed
qed

definition old_dst :: "u8 x86Instruction \<Rightarrow> (u8 \<Rightarrow> u64) \<Rightarrow> u64" where
  "old_dst i vals = (case x_write i of None \<Rightarrow> 0 | Some d \<Rightarrow> vals d)"

lemma computes_reaches:
  assumes "computes h c d v" "sim vals ctx mem (ra # st) m" "code_at code (rip m) c"
  shows "reaches h code ctx ra st (rip m + of_nat (length c)) m (Next (vals(d := v m)) mem)"
  using computes_runs [OF assms] by (simp add: reaches_def)

lemma store_reaches:
  assumes "does h c (access False t (s + 8) b off)" "sim vals ctx mem (ra # st) m" "code_at code (rip m) c" "s < 8"
  shows "reaches h code ctx ra st (rip m + of_nat (length c)) m
     (Next vals (write_mem mem (gpr m b + off) (type_bytes t) (vals s)))"
  using does_runs [OF assms(1,3)] assms(2,4)
  by (auto simp: reaches_def access_def sim_def intro!: exI)

lemma gen_insn_correct:
  assumes ok: "helper_ok h E" and i: "phys_ok i" and c: "gen_insn i = Some c"
    and sim: "sim vals ctx mem (ra # st) m" and at: "code_at code (rip m) c"
    and x: "xexec E ctx (old_dst i vals) i vals mem = Some res"
  shows "reaches h code ctx ra st (rip m + of_nat (length c)) m res"
proof -
  have v: "gpr m (q + 8) = vals q" if "q < 8" for q using sim that by (simp add: sim_def)
  have cx: "gpr m 7 = ctx" "hmem m = mem" using sim by (simp_all add: sim_def)
  note comp = computes_reaches [OF _ sim at]
  show ?thesis
  proof (cases i)
    case (X86_MOV_CONST d k)
    then have "computes h c d (\<lambda>_. k)" using i c computes_mov_const [of d h k] by (auto simp: phys_ok_def)
    from comp [OF this] show ?thesis using x X86_MOV_CONST by auto
  next
    case (X86_LOAD t d a)
    then have "computes h c d (\<lambda>m. merge t (gpr m (d + 8)) (read_mem (hmem m) (gpr m (a + 8)) (type_bytes t)))"
      using i c computes_load [of d a h t] by (auto simp: phys_ok_def)
    from comp [OF this] show ?thesis using i x X86_LOAD v [of a] v [of d] cx by (auto simp: phys_ok_def old_dst_def)
  next
    case (X86_STORE t s a)
    then show ?thesis using i c x store_reaches [OF does_store [of s a h t] sim] at v [of a]
      by (auto simp: phys_ok_def)
  next
    case (X86_BINOP t b d y z)
    then have "computes h c d (\<lambda>m. binop_val t b (gpr m (y + 8)) (gpr m (z + 8)))"
      using i c computes_binop [of d y z h t b] by (auto simp: phys_ok_def)
    from comp [OF this] show ?thesis using i x X86_BINOP v [of y] v [of z] by (auto simp: phys_ok_def)
  next
    case (X86_ITE d p y z)
    then have "computes h c d (\<lambda>m. if gpr m (p + 8) \<noteq> 0 then gpr m (y + 8) else gpr m (z + 8))"
      using i c computes_ite [of d p y z h] by (auto simp: phys_ok_def)
    from comp [OF this] show ?thesis using i x X86_ITE v [of p] v [of y] v [of z] by (auto simp: phys_ok_def)
  next
    case (X86_CAST k d y)
    then have "computes h c d (\<lambda>m. cast_val k (gpr m (y + 8)))"
      using i c computes_cast [of d y h k] by (auto simp: phys_ok_def)
    from comp [OF this] show ?thesis using i x X86_CAST v [of y] by (auto simp: phys_ok_def)
  next
    case (X86_EXIT y p k)
    then show ?thesis using i c x gen_exit_correct [of code m y p k, OF _ _ _ sim, of h] at
      by (cases p) (auto simp: phys_ok_def)
  next
    case (X86_CALL a ps r)
    then obtain p0 p1 p2 p3 where ps: "ps = [p0, p1, p2, p3]" using i list_of_4 [of ps] by (auto simp: phys_ok_def)
    obtain vals' mem' where res: "res = Next vals' mem'"
      using x X86_CALL by (auto simp: Let_def split: if_splits prod.splits)
    have b: "a < 8" "\<forall>p \<in> set ps. \<forall>q. p = Some q \<longrightarrow> q < 8" "\<And>q. r = Some q \<Longrightarrow> q < 8"
      using i X86_CALL by (fastforce simp: phys_ok_def)+
    show ?thesis
      using gen_call_correct [OF ok ps b sim] at x c X86_CALL unfolding res by (auto simp: reaches_def)
  next
    case (X86_READ t d off)
    then have "computes h c d (\<lambda>m. merge t (gpr m (d + 8)) (read_mem (hmem m) (gpr m 7 + scast off) (type_bytes t)))"
      using i c computes_read [of d h off t] by (auto simp: phys_ok_def)
    from comp [OF this] show ?thesis using i x X86_READ v [of d] cx by (auto simp: phys_ok_def old_dst_def)
  next
    case (X86_WRITE t s off)
    then show ?thesis using i c x store_reaches [OF does_write [of s h off t] sim] at cx
      by (auto simp: phys_ok_def)
  next
    case (X86_INSN_MARKER k)
    then show ?thesis using c by simp
  qed
qed

text \<open>A block runs instruction by instruction until one leaves.\<close>

fun xrun :: "xenv \<Rightarrow> u64 \<Rightarrow> u8 x86Instruction list \<Rightarrow> (u8 \<Rightarrow> u64) \<Rightarrow> memory \<Rightarrow> u8 xres option" where
  "xrun E ctx [] vals mem = Some (Next vals mem)"
| "xrun E ctx (i # is) vals mem = (case xexec E ctx (old_dst i vals) i vals mem of
       None \<Rightarrow> None
     | Some (Next vals mem) \<Rightarrow> xrun E ctx is vals mem
     | Some (Leave v k mem) \<Rightarrow> Some (Leave v k mem))"

lemma gen_insns_correct:
  assumes "helper_ok h E" "\<forall>i \<in> set is. phys_ok i" "gen_insns is = Some c"
    "sim vals ctx mem (ra # st) m" "code_at code (rip m) c" "xrun E ctx is vals mem = Some res"
  shows "reaches h code ctx ra st (rip m + of_nat (length c)) m res"
  using assms
proof (induction "is" arbitrary: c vals mem m)
  case Nil
  then show ?case by (auto simp: reaches_def intro!: exI [of _ m])
next
  case (Cons i "is")
  from Cons.prems(3) obtain c1 c2 where c: "gen_insn i = Some c1" "gen_insns is = Some c2" "c = c1 @ c2"
    by (auto split: bind_splits)
  from Cons.prems(6) obtain r1 where r1: "xexec E ctx (old_dst i vals) i vals mem = Some r1"
    by (auto split: option.splits)
  have first: "reaches h code ctx ra st (rip m + of_nat (length c1)) m r1"
    using gen_insn_correct [OF Cons.prems(1) _ c(1) Cons.prems(4) _ r1] Cons.prems(2,5) c(3) by simp
  show ?case
  proof (cases r1)
    case (Next vals1 mem1)
    then obtain m1 where m1: "runs h code m m1" "sim vals1 ctx mem1 (ra # st) m1" "rip m1 = rip m + of_nat (length c1)"
      using first by (auto simp: reaches_def)
    have "reaches h code ctx ra st (rip m1 + of_nat (length c2)) m1 res"
      using Cons.IH [OF Cons.prems(1) _ c(2) m1(2)] Cons.prems(2,5,6) c(3) m1(3) r1 Next by simp
    with reaches_trans [OF m1(1)] show ?thesis using m1(3) c(3) by (simp add: ac_simps)
  next
    case (Leave v k mem1)
    then have "res = Leave v k mem1" using r1 Cons.prems(6) by simp
    then show ?thesis using first unfolding Leave by (simp add: reaches_def)
  qed
qed

subsection \<open>Patching\<close>

lemma write_mem_other:
  assumes "\<And>k. k < n \<Longrightarrow> x \<noteq> a + of_nat k"
  shows "write_mem mem a n v x = mem x"
  using assms
proof (induction n arbitrary: mem a v)
  case 0
  then show ?case by simp
next
  case (Suc n)
  have "x \<noteq> a + 1 + of_nat k" if "k < n" for k using Suc.prems [of "Suc k"] that by (simp add: ac_simps)
  then show ?case using Suc.IH [of "a + 1"] Suc.prems [of 0] by simp
qed

lemma write_mem_same:
  assumes "k < n" "n \<le> 8"
  shows "write_mem mem a n v (a + of_nat k) = byte k v"
  using assms
proof (induction n arbitrary: mem a v k)
  case 0
  then show ?case by simp
next
  case step: (Suc n)
  show ?case
  proof (cases k)
    case 0
    have "a \<noteq> a + 1 + of_nat j" if "j < n" for j
    proof -
      have "unat (1 + of_nat j :: u64) = Suc j"
        using that step.prems by (simp add: unat_word_ariths unat_of_nat)
      then have "1 + of_nat j \<noteq> (0::u64)" by (metis nat.distinct(1) unat_0)
      then show ?thesis by (simp add: add.assoc)
    qed
    then show ?thesis using 0 write_mem_other [of n a "a + 1"] by (simp add: byte_def)
  next
    case (Suc j)
    have e: "a + of_nat (Suc j) = a + 1 + of_nat j" "byte (Suc j) v = byte j (drop_bit 8 v)"
      by (simp_all add: byte_def add.commute)
    show ?thesis unfolding Suc e write_mem.simps by (rule step.IH) (use Suc step.prems in auto)
  qed
qed

lemma offsets_distinct: "i < 64 \<Longrightarrow> j < 64 \<Longrightarrow> i \<noteq> j \<Longrightarrow> (a::u64) + of_nat i \<noteq> a + of_nat j"
  by (simp add: word_of_nat_eq_iff take_bit_nat_eq_self)

text \<open>The bytes of a patched area: a \<open>nop\<close>, then the jump with its target filled in.\<close>

lemma patch_bytes:
  assumes "patch_area code link"
  shows "\<exists>code'. patch code link target = Some code' \<and>
     code_at code' link (B ([0x90, 0x48, 0xb8] @ le64 target @ [0xff, 0xe0])) \<and>
     (\<forall>x. (\<forall>k < 11. x \<noteq> link + of_nat k) \<longrightarrow> code' x = code x)"
proof -
  let ?c = "write_mem (code(link := 0x90)) (link + 3) 8 target"
  have p: "patch code link target = Some ?c"
    using assms by (simp add: patch_def patch_area_def assert_def)
  have old: "code (link + of_nat k) = b" if "(k, b) \<in> {(0, 0xc3), (1, 0x48), (2, 0xb8), (11, 0xff), (12, 0xe0)}" for k b
    using assms that by (auto simp: patch_area_def ac_simps)
  have out: "?c (link + of_nat k) = (code(link := 0x90)) (link + of_nat k)" if "k < 3 \<or> 11 \<le> k" "k < 64" for k
  proof (rule write_mem_other)
    fix j :: nat assume "j < 8"
    then show "link + of_nat k \<noteq> link + 3 + of_nat j"
      using offsets_distinct [of k "3 + j" link] that by (auto simp: ac_simps)
  qed
  have ne: "link + of_nat k \<noteq> link" if "0 < k" "k < 64" for k
    using offsets_distinct [of k 0 link] that by simp
  have "?c link = 0x90" "?c (link + 1) = 0x48" "?c (link + 2) = 0xb8" "?c (link + 11) = 0xff" "?c (link + 12) = 0xe0"
    using out [of 0] out [of 1] out [of 2] out [of 11] out [of 12] ne [of 1] ne [of 2] ne [of 11] ne [of 12]
      old [of 1 "0x48"] old [of 2 "0xb8"] old [of 11 "0xff"] old [of 12 "0xe0"] by auto
  moreover have "?c (link + of_nat (3 + k)) = byte k target" if "k < 8" for k
    using write_mem_same [OF that order.refl, of "code(link := 0x90)" "link + 3" target] by (simp add: ac_simps)
  from this [of 0] this [of 1] this [of 2] this [of 3] this [of 4] this [of 5] this [of 6] this [of 7]
  have "?c (link + 3) = byte 0 target" "?c (link + 4) = byte 1 target" "?c (link + 5) = byte 2 target" 
    "?c (link + 6) = byte 3 target" "?c (link + 7) = byte 4 target" "?c (link + 8) = byte 5 target" 
    "?c (link + 9) = byte 6 target" "?c (link + 10) = byte 7 target" by simp_all
  ultimately have "code_at ?c link (B ([0x90, 0x48, 0xb8] @ le64 target @ [0xff, 0xe0]))"
    by (simp only: le64_def append.simps list.map code_at.simps option.case) (simp add: ac_simps)
  moreover have "?c x = code x" if "\<forall>k < 11. x \<noteq> link + of_nat k" for x
  proof -
    have "x \<noteq> link + 3 + of_nat k" if "k < 8" for k
      using \<open>\<forall>k < 11. x \<noteq> link + of_nat k\<close> [rule_format, of "3 + k"] that by (simp add: ac_simps)
    with write_mem_other [of 8 x "link + 3"] that [rule_format, of 0] show ?thesis by simp
  qed
  ultimately show ?thesis using p by blast
qed

lemma runs_patched:
  assumes at: "code_at code (rip m) (B ([0x90, 0x48, 0xb8] @ le64 target @ [0xff, 0xe0]))"
  shows "runs h code m (set_gpr 0 target (m\<lparr>rip := target\<rparr>))"
proof -
  have at3: "code_at code (rip m) (B [0x90])" "code_at code (rip m + 1) (B ([0x48, 0xb8] @ le64 target))"
    "code_at code (rip m + 11) (B [0xff, 0xe0])"
    using at by (auto simp: ac_simps)
  let ?m1 = "m\<lparr>rip := rip m + 1\<rparr>"
  let ?m2 = "set_gpr 0 target (m\<lparr>rip := rip m + 11\<rparr>)"
  have 1: "runs h code m ?m1"
    using step_at [OF at3(1) decode_XNop, where h = h] by (intro runs_step [OF _ runs_refl]) simp
  have "does h (B ([0x48, 0xb8] @ le64 target)) (set_gpr 0 target)"
    using decode_XMovImm [of _ "0x48" 0 target] by (intro does_op) (auto simp: ext_reg_def rip_free_def)
  from does_runs [OF this, of code ?m1] at3(2) have 2: "runs h code ?m1 ?m2" by (simp add: ac_simps)
  have "code_at code (rip ?m2) (B [0xff, 0xe0])" using at3(3) by simp
  from step_at [OF this decode_XJmp, where h = h]
  have 3: "runs h code ?m2 (set_gpr 0 target (m\<lparr>rip := target\<rparr>))"
    by (intro runs_step [OF _ runs_refl]) simp
  show ?thesis by (rule runs_trans [OF 1 runs_trans [OF 2 3]])
qed

lemma code_at_frame:
  assumes "code_at code a c" "\<And>k. k < length c \<Longrightarrow> code' (a + of_nat k) = code (a + of_nat k)"
  shows "code_at code' a c"
  using assms
proof (induction c arbitrary: a)
  case (Cons b c)
  have "code_at code' (a + 1) c"
    by (rule Cons.IH) (use Cons.prems(1) Cons.prems(2) [of "Suc _"] in \<open>auto simp: ac_simps\<close>)
  then show ?case using Cons.prems(1) Cons.prems(2) [of 0] by (auto split: option.splits)
qed simp

text \<open>
  An exit that has been patched does not return: it reaches the target with the context pointer,
  the memory and the stack as they were.
\<close>

lemma patched_exit_jumps:
  assumes at: "code_at code (rip m) (gen_exit_sequence v True)" and v: "v < 8"
    and p: "patch code (exit_link (rip m) True) target = Some code'"
  shows "\<exists>m'. runs h code' m m' \<and> rip m' = target \<and> hmem m' = hmem m \<and> hstack m' = hstack m \<and>
     (\<forall>r. r \<notin> {0, 2} \<longrightarrow> gpr m' r = gpr m r)"
proof -
  let ?link = "rip m + 10"
  have l: "exit_link (rip m) True = ?link" by (simp add: exit_link_def)
  obtain c where c: "patch code ?link target = Some c"
    "code_at c ?link (B ([0x90, 0x48, 0xb8] @ le64 target @ [0xff, 0xe0]))"
    and frame: "\<forall>x. (\<forall>k < 11. x \<noteq> ?link + of_nat k) \<longrightarrow> c x = code x"
    using patch_bytes [OF exit_patch_area [OF at], of target] unfolding l by blast
  have c': "c = code'" using c(1) p unfolding l by simp
  have pre: "code_at code (rip m) (gen_move_reg_low 0 v @ B [0x48, 0x8d, 0x15, 0, 0, 0, 0])"
    using at by (simp add: gen_exit_sequence_def ac_simps)
  have "code_at code' (rip m) (gen_move_reg_low 0 v @ B [0x48, 0x8d, 0x15, 0, 0, 0, 0])"
  proof (rule code_at_frame [OF pre])
    fix k assume "k < length (gen_move_reg_low 0 v @ B [0x48, 0x8d, 0x15, 0, 0, 0, 0])"
    then have "k < 10" by (simp add: gen_move_reg_low_def)
    have "rip m + of_nat k \<noteq> ?link + of_nat j" if "j < 11" for j
      using offsets_distinct [of k "10 + j" "rip m"] \<open>k < 10\<close> that by (auto simp: ac_simps)
    then show "code' (rip m + of_nat k) = code (rip m + of_nat k)" using frame c' by blast
  qed
  then have at2: "code_at code' (rip m) (gen_move_reg_low 0 v)"
    "code_at code' (rip m + 3) (B [0x48, 0x8d, 0x15, 0, 0, 0, 0])"
    by (simp_all only: code_at_append) (simp_all add: gen_move_reg_low_def)
  let ?m1 = "set_gpr 0 (gpr m (v + 8)) (m\<lparr>rip := rip m + 3\<rparr>)"
  let ?m2 = "set_gpr 2 ?link (set_gpr 0 (gpr m (v + 8)) (m\<lparr>rip := ?link\<rparr>))"
  have 1: "runs h code' m ?m1"
    using does_runs [OF does_move_reg_low [of 0 v] at2(1), of h] v by (simp add: gen_move_reg_low_def)
  have 2: "runs h code' ?m1 ?m2" using runs_lea [of code' ?m1 h] at2(2) by (simp add: ac_simps)
  have 3: "runs h code' ?m2 (set_gpr 0 target (?m2\<lparr>rip := target\<rparr>))"
    by (rule runs_patched) (use c(2) c' in simp)
  show ?thesis
    by (rule exI [of _ "set_gpr 0 target (?m2\<lparr>rip := target\<rparr>)"])
       (use runs_trans [OF 1 runs_trans [OF 2 3]] in auto)
qed

subsection \<open>Size of the code\<close>

lemmas gen_lengths [gen_simps] = gen_mov_const_def gen_mov_const_hlp_def gen_move_reg_def gen_move_reg_low_def
  gen_move_reg_from_low_def gen_cmp_zero_def gen_cmp_def gen_shift_def gen_ror_def gen_mask_def
  gen_ite_def gen_upper_unsigned_cast_hlp_def gen_upper_signed_cast_hlp_def gen_push_hlp_def pop_length

lemma gen_param_length: "(\<And>q. length (g q) \<le> n) \<Longrightarrow> length (gen_param g p) \<le> n"
  by (cases p) (auto simp: gen_param_def)

lemma gen_call_length: "length (gen_call a ps r) \<le> 45"
proof -
  note p = gen_param_length [of _ 3]
  have "length (gen_param (gen_move_reg_low 1) (ps ! 2)) \<le> 3" "length (gen_param (gen_move_reg_low 2) (ps ! 1)) \<le> 3"
    "length (gen_param (gen_move_reg_low 6) (ps ! 0)) \<le> 3" "length (gen_param (gen_move_reg 0) (ps ! 3)) \<le> 3"
    "length (gen_param (gen_move_reg_from_low 0) r) \<le> 3"
    by (rule p, simp add: gen_lengths)+
  then show ?thesis by (simp add: gen_call_def gen_simps)
qed

lemma gen_cast_length: "length (gen_cast c d x) \<le> 45"
  by (cases c) (simp_all add: gen_lengths)

lemma gen_insn_length: "gen_insn i = Some c \<Longrightarrow> length c \<le> 45"
proof (cases i)
  case (X86_CALL a ps r)
  then show "gen_insn i = Some c \<Longrightarrow> ?thesis" using gen_call_length by auto
next
  case (X86_CAST k d x)
  then show "gen_insn i = Some c \<Longrightarrow> ?thesis" using gen_cast_length by auto
next
  case (X86_BINOP t b d x y)
  then show "gen_insn i = Some c \<Longrightarrow> ?thesis" by (cases b) (auto simp: gen_binop_def gen_simps)
qed (auto simp: gen_simps gen_exit_def exit_sequence_length access_codes split: irRegisterType.splits option.splits)

lemma gen_insns_length: "gen_insns is = Some c \<Longrightarrow> length c \<le> 45 * length is"
proof (induction "is" arbitrary: c)
  case (Cons i "is")
  then show ?case using gen_insn_length [of i] by (force split: bind_splits)
qed simp

text \<open>Code written into a buffer is there, whatever its skipped bytes are.\<close>

lemma store_code_other:
  assumes "\<And>k. k < length c \<Longrightarrow> x \<noteq> a + of_nat k"
  shows "store_code mem a c x = mem x"
  using assms
proof (induction c arbitrary: mem a)
  case (Cons b c)
  have "x \<noteq> a + 1 + of_nat k" if "k < length c" for k using Cons.prems [of "Suc k"] that by (simp add: ac_simps)
  then show ?case using Cons.IH [of "a + 1"] Cons.prems [of 0] by (auto split: option.splits)
qed simp

lemma store_code_at:
  assumes "length c < 2 ^ 64"
  shows "code_at (store_code mem a c) a c"
  using assms
proof (induction c arbitrary: mem a)
  case (Cons b c)
  have "a \<noteq> a + 1 + of_nat j" if "j < length c" for j
  proof -
    have "unat (of_nat (Suc j) :: u64) = Suc j"
      using that Cons.prems by (subst unat_of_nat) (simp add: take_bit_nat_eq_self)
    then have "of_nat (Suc j) \<noteq> (0::u64)" by (metis nat.distinct(1) unat_0)
    then show ?thesis by (simp add: add.assoc)
  qed
  then have "store_code m (a + 1) c a = m a" for m by (intro store_code_other) auto
  then show ?case using Cons by (auto split: option.splits)
qed simp

end
