(* ===== verification/Be_RegAlloc_Sem.thy ===== *)
theory Be_RegAlloc_Sem
  imports Be_CodeGen_Sem
begin

text \<open>
  Correctness of the second pass. For a sequence in which every virtual register is written once
  and before it is read, the allocation keeps the live registers in distinct physical
  registers and never gives an instruction a destination that one of its operands, or a
  register needed later, occupies. The allocated program computes what the virtual one
  does, and the allocation succeeds whenever at most eight registers are needed at a time.
\<close>

section \<open>The pass as a function of reads and writes\<close>

lemma allocateRegistersInsn_rw:
  "allocateRegistersInsn i insn a = do {
     a \<leftarrow> (case x_write insn of None \<Rightarrow> Some a | Some d \<Rightarrow> getFreeReg d a);
     Some (fold (release i) (x_reads insn) a) }"
proof -
  have opt: "release_opt i p = fold (release i) (opt_list p)" for p
    by (rule ext) (cases p; simp add: release_opt_def)
  have params: "fold (release_opt i) ps a = fold (release i) (concat (map opt_list ps)) a" for ps a
    by (induction ps arbitrary: a) (simp_all add: opt)
  show ?thesis
    by (cases insn) (auto simp: params opt split: option.splits bind_splits)
qed

lemma fold_release:
  assumes "length free = REG_NUMBER" "\<forall>r \<in> set rs. x_lastReadIndex (regs ! r) = i \<longrightarrow> nat (x_index (regs ! r)) < REG_NUMBER"
  shows "\<exists>free'. fold (release i) rs (regs, free) = (regs, free') \<and> length free' = REG_NUMBER \<and>
     (\<forall>j < REG_NUMBER. free' ! j \<longleftrightarrow> free ! j \<or>
        (\<exists>r \<in> set rs. x_lastReadIndex (regs ! r) = i \<and> nat (x_index (regs ! r)) = j))"
  using assms
proof (induction rs arbitrary: free)
  case (Cons r rs)
  let ?f = "if x_lastReadIndex (regs ! r) = i then free[nat (x_index (regs ! r)) := True] else free"
  have f: "length ?f = REG_NUMBER" using Cons.prems by simp
  obtain free' where "fold (release i) rs (regs, ?f) = (regs, free')" "length free' = REG_NUMBER"
     "\<forall>j < REG_NUMBER. free' ! j \<longleftrightarrow> ?f ! j \<or>
        (\<exists>r \<in> set rs. x_lastReadIndex (regs ! r) = i \<and> nat (x_index (regs ! r)) = j)"
    using Cons.IH [OF f] Cons.prems(2) by auto
  moreover have "release i r (regs, free) = (regs, ?f)" by (simp add: release_def)
  ultimately show ?case using Cons.prems
    by (intro exI [of _ free']) (auto simp: nth_list_update)
qed simp

lemma getFreeReg_Some:
  assumes "getFreeReg d (regs, free) = Some (regs', free')" "length free = REG_NUMBER" "d < length regs"
  obtains j where "j < REG_NUMBER" "free ! j" "regs' = regs[d := (regs ! d)\<lparr>x_index := int j\<rparr>]"
    "free' = free[j := x_lastReadIndex (regs ! d) = -1]"
proof -
  from assms(1) obtain j where j: "find (\<lambda>i. free ! i) [0..<REG_NUMBER] = Some j"
    "regs' = regs[d := (regs ! d)\<lparr>x_index := int j\<rparr>]"
    "free' = (if x_lastReadIndex (regs ! d) = -1 then free[j := False, j := True] else free[j := False])"
    by (auto simp: getFreeReg_def getFreeRegRaw_def split: bind_splits)
  then have "j < REG_NUMBER" "free ! j" by (auto simp: find_Some_iff)
  with j that show thesis by auto
qed

section \<open>Well-formed sequences and liveness\<close>

text \<open>
  Every virtual register is written once, before it is read, and \<open>lastReadIndex\<close> is the position
  of its last use.
\<close>

definition x_wf :: "x86Register list \<Rightarrow> nat x86Instruction list \<Rightarrow> bool" where
  "x_wf regs insns \<longleftrightarrow>
     (\<forall>k < length insns. x_params (insns ! k) = 4 \<and>
        (\<forall>d. x_write (insns ! k) = Some d \<longrightarrow> d < length regs \<and>
           (\<forall>k' < length insns. x_write (insns ! k') = Some d \<longrightarrow> k' = k)) \<and>
        (\<forall>r \<in> set (x_reads (insns ! k)). r < length regs \<and>
           (\<exists>k' < k. x_write (insns ! k') = Some r))) \<and>
     (\<forall>r < length regs. x_lastReadIndex (regs ! r) = last_read x_reads r insns)"

definition defined :: "nat x86Instruction list \<Rightarrow> nat \<Rightarrow> nat \<Rightarrow> bool" where
  "defined insns k r \<longleftrightarrow> (\<exists>k' < k. k' < length insns \<and> x_write (insns ! k') = Some r)"

definition live :: "nat x86Instruction list \<Rightarrow> nat \<Rightarrow> nat \<Rightarrow> bool" where
  "live insns k r \<longleftrightarrow> defined insns k r \<and> int k \<le> last_read x_reads r insns"

lemma last_read_ge: "k < length xs \<Longrightarrow> r \<in> set (rd (xs ! k)) \<Longrightarrow> int k \<le> last_read rd r xs"
proof (induction xs rule: rev_induct)
  case (snoc x xs)
  then show ?case by (cases "k < length xs") (auto simp: nth_append)
qed simp

lemma last_read_cases: "last_read rd r xs = -1 \<or>
   (\<exists>k < length xs. last_read rd r xs = int k \<and> r \<in> set (rd (xs ! k)))"
proof (induction xs rule: rev_induct)
  case (snoc x xs)
  then show ?case
  proof (cases "r \<in> set (rd x)")
    case True
    then show ?thesis by (auto intro!: exI [of _ "length xs"])
  next
    case False
    with snoc show ?thesis by (metis last_read_snoc length_append_singleton less_SucI nth_append)
  qed
qed simp

lemma x_wfD:
  assumes "x_wf regs insns" "k < length insns"
  shows "x_params (insns ! k) = 4"
    "\<And>d. x_write (insns ! k) = Some d \<Longrightarrow> d < length regs"
    "\<And>d k'. x_write (insns ! k) = Some d \<Longrightarrow> k' < length insns \<Longrightarrow> x_write (insns ! k') = Some d \<Longrightarrow> k' = k"
    "\<And>r. r \<in> set (x_reads (insns ! k)) \<Longrightarrow> r < length regs"
    "\<And>r. r \<in> set (x_reads (insns ! k)) \<Longrightarrow> live insns k r"
proof -
  show "live insns k r" if r: "r \<in> set (x_reads (insns ! k))" for r
  proof -
    from assms r obtain k' where "k' < k" "x_write (insns ! k') = Some r" unfolding x_wf_def by blast
    with assms(2) last_read_ge [of k insns r x_reads] r show ?thesis
      by (auto simp: live_def defined_def intro!: exI [of _ k'])
  qed
qed (use assms in \<open>unfold x_wf_def, blast\<close>)+

lemma defined_bound: "x_wf regs insns \<Longrightarrow> defined insns k r \<Longrightarrow> r < length regs"
  by (auto simp: x_wf_def defined_def)

lemma written_not_live: "x_wf regs insns \<Longrightarrow> k < length insns \<Longrightarrow> x_write (insns ! k) = Some d \<Longrightarrow> \<not> defined insns k d"
  by (metis defined_def nat_less_le x_wfD(3))

text \<open>A register that is written at \<open>k\<close> is read after \<open>k\<close> or never.\<close>

lemma written_last_read:
  assumes "x_wf regs insns" "k < length insns" "x_write (insns ! k) = Some d"
  shows "last_read x_reads d insns = -1 \<or> int k < last_read x_reads d insns"
proof -
  have "k < k'" if k': "k' < length insns" "d \<in> set (x_reads (insns ! k'))" for k'
  proof -
    obtain k'' where "k'' < k'" "x_write (insns ! k'') = Some d"
      using x_wfD(5) [OF assms(1) k'] by (auto simp: live_def defined_def)
    moreover have "k'' = k" using x_wfD(3) [OF assms, of k''] calculation k' by simp
    ultimately show ?thesis by simp
  qed
  with last_read_cases [of x_reads d insns] show ?thesis by fastforce
qed

lemma live_Suc:
  assumes "k < length insns"
  shows "live insns (Suc k) r \<longleftrightarrow> (defined insns k r \<or> x_write (insns ! k) = Some r) \<and> int k < last_read x_reads r insns"
  using assms by (auto simp: live_def defined_def less_Suc_eq)


section \<open>Safety of the allocation\<close>

abbreviation idx :: "x86Register list \<Rightarrow> nat \<Rightarrow> int" where "idx regs r \<equiv> x_index (regs ! r)"

text \<open>Before instruction \<open>k\<close> the live registers sit in distinct physical registers that are not free.\<close>

definition placed :: "nat x86Instruction list \<Rightarrow> nat \<Rightarrow> x86Register list \<Rightarrow> bool" where
  "placed insns k regs \<longleftrightarrow> (\<forall>r. live insns k r \<longrightarrow> 0 \<le> idx regs r \<and> idx regs r < int REG_NUMBER) \<and>
     inj_on (idx regs) {r. live insns k r}"

definition dst_fresh :: "nat x86Instruction list \<Rightarrow> nat \<Rightarrow> x86Register list \<Rightarrow> bool" where
  "dst_fresh insns k regs \<longleftrightarrow> (\<forall>d. x_write (insns ! k) = Some d \<longrightarrow>
     0 \<le> idx regs d \<and> idx regs d < int REG_NUMBER \<and> (\<forall>r. live insns k r \<longrightarrow> idx regs r \<noteq> idx regs d))"

definition alloc_inv :: "nat x86Instruction list \<Rightarrow> nat \<Rightarrow> astate \<Rightarrow> bool" where
  "alloc_inv insns k = (\<lambda>(regs, free). x_wf regs insns \<and> length free = REG_NUMBER \<and> placed insns k regs \<and>
     (\<forall>r. live insns k r \<longrightarrow> \<not> free ! nat (idx regs r)))"

lemma x_wf_index: "d < length regs \<Longrightarrow> x_wf (regs[d := (regs ! d)\<lparr>x_index := j\<rparr>]) insns = x_wf regs insns"
proof -
  assume "d < length regs"
  have "x_lastReadIndex (regs[d := (regs ! d)\<lparr>x_index := j\<rparr>] ! r) = x_lastReadIndex (regs ! r)" for r
    by (cases "r = d"; cases "d < length regs") (simp_all add: list_update_beyond)
  then show ?thesis by (simp add: x_wf_def)
qed

text \<open>The destination is taken while the operands still hold their registers.\<close>

lemma alloc_dst_step:
  assumes inv: "alloc_inv insns k (regs, free)" and k: "k < length insns"
    and a: "(case x_write (insns ! k) of None \<Rightarrow> Some (regs, free) | Some d \<Rightarrow> getFreeReg d (regs, free)) = Some (regs1, free1)"
  shows "x_wf regs1 insns \<and> length free1 = REG_NUMBER \<and> placed insns k regs1 \<and> dst_fresh insns k regs1 \<and>
      (\<forall>r. live insns k r \<longrightarrow> \<not> free1 ! nat (idx regs1 r)) \<and>
      (\<forall>d. x_write (insns ! k) = Some d \<longrightarrow> live insns (Suc k) d \<longrightarrow> \<not> free1 ! nat (idx regs1 d)) \<and>
      (\<forall>r. x_write (insns ! k) \<noteq> Some r \<longrightarrow> idx regs1 r = idx regs r)"
proof -
  have wf: "x_wf regs insns" and len: "length free = REG_NUMBER" and pl: "placed insns k regs"
    and used: "\<And>r. live insns k r \<Longrightarrow> \<not> free ! nat (idx regs r)"
    using inv by (auto simp: alloc_inv_def)
  show ?thesis
  proof (cases "x_write (insns ! k)")
    case None
    then show ?thesis
      using a wf len pl used by (auto simp: dst_fresh_def)
  next
    case (Some d)
    have d: "d < length regs" using x_wfD(2) [OF wf k Some] .
    from a Some obtain j where j: "j < REG_NUMBER" "free ! j" "regs1 = regs[d := (regs ! d)\<lparr>x_index := int j\<rparr>]"
      "free1 = free[j := x_lastReadIndex (regs ! d) = -1]"
      by (auto elim!: getFreeReg_Some [OF _ len d])
    have nl: "\<not> live insns k d" using written_not_live [OF wf k Some] by (simp add: live_def)
    have same: "idx regs1 r = idx regs r" if "r \<noteq> d" for r using that by (simp add: j(3))
    have livej: "nat (idx regs r) \<noteq> j" "idx regs r \<noteq> int j" "0 \<le> idx regs r" if "live insns k r" for r
      using used [OF that] j pl that by (auto simp: placed_def)
    have lr: "x_lastReadIndex (regs ! d) \<noteq> -1" if "live insns (Suc k) d"
      using that wf d by (auto simp: live_def x_wf_def)
    have idxd: "idx regs1 d = int j" using d by (simp add: j(3))
    have pl1: "placed insns k regs1"
      using pl nl same unfolding placed_def by (metis (mono_tags, lifting) inj_on_cong mem_Collect_eq)
    show ?thesis
    proof (intro conjI allI impI)
      show "x_wf regs1 insns" using wf d by (simp add: j(3) x_wf_index)
      show "length free1 = REG_NUMBER" using len by (simp add: j(4))
      show "placed insns k regs1" by (rule pl1)
      show "dst_fresh insns k regs1" using Some livej nl same idxd j(1) unfolding dst_fresh_def by (metis of_nat_0_le_iff of_nat_less_iff option.inject)
      show "\<not> free1 ! nat (idx regs1 r)" if "live insns k r" for r
        using livej [OF that] used [OF that] nl that same [of r] by (cases "r = d") (auto simp: j(4))
      show "\<not> free1 ! nat (idx regs1 d')" if "x_write (insns ! k) = Some d'" "live insns (Suc k) d'" for d'
        using that Some lr idxd j(1) len by (simp add: j(4))
      show "idx regs1 r = idx regs r" if "x_write (insns ! k) \<noteq> Some r" for r
        using that Some same by auto
    qed
  qed
qed

lemma alloc_step:
  assumes inv: "alloc_inv insns k (regs, free)" and k: "k < length insns"
    and a: "allocateRegistersInsn (int k) (insns ! k) (regs, free) = Some (regs1, free2)"
  shows "alloc_inv insns (Suc k) (regs1, free2) \<and> placed insns k regs1 \<and> dst_fresh insns k regs1 \<and>
    (\<forall>r. x_write (insns ! k) \<noteq> Some r \<longrightarrow> idx regs1 r = idx regs r)"
proof -
  from a obtain regs0 free1 where a1: "(case x_write (insns ! k) of None \<Rightarrow> Some (regs, free)
      | Some d \<Rightarrow> getFreeReg d (regs, free)) = Some (regs0, free1)"
    and a2: "fold (release (int k)) (x_reads (insns ! k)) (regs0, free1) = (regs1, free2)"
    unfolding allocateRegistersInsn_rw by (auto split: bind_splits)
  have D: "x_wf regs0 insns" "length free1 = REG_NUMBER" "placed insns k regs0" "dst_fresh insns k regs0"
    "\<And>r. live insns k r \<Longrightarrow> \<not> free1 ! nat (idx regs0 r)"
    "\<And>d. x_write (insns ! k) = Some d \<Longrightarrow> live insns (Suc k) d \<Longrightarrow> \<not> free1 ! nat (idx regs0 d)"
    "\<forall>r. x_write (insns ! k) \<noteq> Some r \<longrightarrow> idx regs0 r = idx regs r"
    using alloc_dst_step [OF inv k a1] by blast+
  have rd: "live insns k r" if "r \<in> set (x_reads (insns ! k))" for r
    using x_wfD(5) [OF D(1) k that] .
  have "\<forall>r \<in> set (x_reads (insns ! k)). x_lastReadIndex (regs0 ! r) = int k \<longrightarrow> nat (x_index (regs0 ! r)) < REG_NUMBER"
    using rd D(3) by (auto simp: placed_def nat_less_iff)
  from fold_release [OF D(2) this] a2
  have regs1: "regs1 = regs0" and len2: "length free2 = REG_NUMBER" and
    free2: "\<And>j. j < REG_NUMBER \<Longrightarrow> free2 ! j \<longleftrightarrow> free1 ! j \<or>
        (\<exists>r \<in> set (x_reads (insns ! k)). x_lastReadIndex (regs0 ! r) = int k \<and> nat (idx regs0 r) = j)"
    by auto
  have L: "x_lastReadIndex (regs0 ! r) = last_read x_reads r insns" if "r < length regs0" for r
    using D(1) that by (simp add: x_wf_def)
  have lv: "live insns k r \<or> x_write (insns ! k) = Some r" "int k < last_read x_reads r insns"
    if "live insns (Suc k) r" for r
    using that unfolding live_Suc [OF k] by (auto simp: live_def)
  have bnd: "0 \<le> idx regs0 r" "idx regs0 r < int REG_NUMBER" if "live insns (Suc k) r" for r
    using lv(1) [OF that] D(3,4) by (auto simp: placed_def dst_fresh_def)
  have ne: "idx regs0 r \<noteq> idx regs0 q" if rq: "live insns (Suc k) r" "live insns k q \<or> live insns (Suc k) q" "r \<noteq> q" for r q
  proof -
    consider "live insns k r" "live insns k q" | "x_write (insns ! k) = Some r" "live insns k q"
      | "live insns k r" "x_write (insns ! k) = Some q" | "x_write (insns ! k) = Some r" "x_write (insns ! k) = Some q"
      using rq lv(1) by blast
    then show ?thesis
      using D(3,4) rq(3) by cases (auto simp: placed_def dst_fresh_def inj_on_def)
  qed
  have nofree: "\<not> free2 ! nat (idx regs0 r)" if r: "live insns (Suc k) r" for r
  proof -
    have "\<not> free1 ! nat (idx regs0 r)" using lv(1) [OF r] D(5,6) r by blast
    moreover have False if q: "q \<in> set (x_reads (insns ! k))" "x_lastReadIndex (regs0 ! q) = int k"
      "nat (idx regs0 q) = nat (idx regs0 r)" for q
    proof -
      have "r = q" using ne [OF r disjI1 [OF rd [OF q(1)]]] q(3) bnd [OF r] D(3) rd [OF q(1)]
        by (auto simp: placed_def nat_eq_iff2)
      then show False using lv(2) [OF r] q(2) L [OF x_wfD(4) [OF D(1) k q(1)]] by simp
    qed
    ultimately show ?thesis using free2 [of "nat (idx regs0 r)"] bnd [OF r] by (auto simp: nat_less_iff)
  qed
  have "placed insns (Suc k) regs0"
    using bnd ne unfolding placed_def inj_on_def by blast
  then show ?thesis using D len2 nofree by (auto simp: alloc_inv_def regs1)
qed

lemma defined_Suc: "k < length insns \<Longrightarrow> defined insns (Suc k) r \<longleftrightarrow> defined insns k r \<or> x_write (insns ! k) = Some r"
  by (auto simp: defined_def less_Suc_eq)

lemma placed_cong:
  assumes "\<And>r. defined insns k r \<Longrightarrow> idx regs' r = idx regs r"
  shows "placed insns k regs' = placed insns k regs"
  using assms by (auto simp: placed_def inj_on_def live_def)

lemma alloc_loop:
  assumes "alloc_inv insns k (regs, free)" "k \<le> length insns"
    "allocateRegistersFrom (int k) (drop k insns) (regs, free) = Some (regs', free')"
  shows "x_wf regs' insns \<and> (\<forall>r. defined insns k r \<longrightarrow> idx regs' r = idx regs r) \<and>
    (\<forall>k'. k \<le> k' \<longrightarrow> k' < length insns \<longrightarrow> placed insns k' regs' \<and> dst_fresh insns k' regs')"
  using assms
proof (induction "length insns - k" arbitrary: k regs free)
  case 0
  then show ?case by (auto simp: alloc_inv_def)
next
  case (Suc n)
  then have k: "k < length insns" by simp
  from Suc.prems(3) k obtain regs1 free1 where
    a: "allocateRegistersInsn (int k) (insns ! k) (regs, free) = Some (regs1, free1)"
    and rest: "allocateRegistersFrom (int (Suc k)) (drop (Suc k) insns) (regs1, free1) = Some (regs', free')"
    by (auto simp: Cons_nth_drop_Suc [symmetric] add.commute split: bind_splits)
  note S = alloc_step [OF Suc.prems(1) k a]
  have wf: "x_wf regs insns" using Suc.prems(1) by (simp add: alloc_inv_def)
  have IH: "x_wf regs' insns" "\<And>r. defined insns (Suc k) r \<Longrightarrow> idx regs' r = idx regs1 r"
    "\<And>k'. Suc k \<le> k' \<Longrightarrow> k' < length insns \<Longrightarrow> placed insns k' regs' \<and> dst_fresh insns k' regs'"
    using Suc.hyps(1) [of "Suc k", OF _ _ _ rest] Suc.hyps(2) S k by auto
  have "idx regs' r = idx regs r" if "defined insns k r" for r
    using that IH(2) [of r] S written_not_live [OF wf k] by (auto simp: defined_Suc [OF k])
  moreover have "placed insns k regs'"
    using S IH(2) placed_cong [of insns k regs' regs1] by (auto simp: defined_Suc [OF k])
  moreover have "dst_fresh insns k regs'"
    using S IH(2) by (auto simp: dst_fresh_def defined_Suc [OF k] live_def)
  ultimately show ?case using IH by (metis le_antisym not_less_eq_eq)
qed


section \<open>The allocated program computes what the virtual one does\<close>

text \<open>
  A run over virtual registers: the bits a narrow load leaves in its destination are arbitrary.
  The result is \<open>None\<close> when a helper is called with fewer parameters than it takes.
\<close>

inductive vrun :: "xenv \<Rightarrow> u64 \<Rightarrow> 'r x86Instruction list \<Rightarrow> ('r \<Rightarrow> u64) \<Rightarrow> memory \<Rightarrow> 'r xres option \<Rightarrow> bool"
  for E ctx where
  vrun_end: "vrun E ctx [] vals mem (Some (Next vals mem))"
| vrun_stuck: "xexec E ctx junk i vals mem = None \<Longrightarrow> vrun E ctx (i # is) vals mem None"
| vrun_leave: "xexec E ctx junk i vals mem = Some (Leave v k mem') \<Longrightarrow>
     vrun E ctx (i # is) vals mem (Some (Leave v k mem'))"
| vrun_next: "xexec E ctx junk i vals mem = Some (Next vals' mem') \<Longrightarrow> vrun E ctx is vals' mem' res \<Longrightarrow>
     vrun E ctx (i # is) vals mem res"

text \<open>What is observed of a run: the exit it takes, with the value it returns, and the memory.\<close>

fun outcome :: "'r xres \<Rightarrow> (u64 \<times> bool) option \<times> memory" where
  "outcome (Next vals mem) = (None, mem)"
| "outcome (Leave v k mem) = (Some (v, k), mem)"

definition upd :: "'r option \<Rightarrow> u64 \<Rightarrow> ('r \<Rightarrow> u64) \<Rightarrow> 'r \<Rightarrow> u64" where
  "upd d w f = (case d of None \<Rightarrow> f | Some d \<Rightarrow> f(d := w))"

lemma upd_simps [simp]: "upd None w f = f" "upd (Some d) w f = f(d := w)"
  by (simp_all add: upd_def)

lemma x_reads_map: "x_reads (map_x86Instruction g i) = map g (x_reads i)"
proof (cases i)
  case (X86_EXIT v p k)
  then show ?thesis by (cases p) simp_all
next
  case (X86_CALL a ps r)
  have "concat (map (\<lambda>x. opt_list (map_option g x)) ps) = map g (concat (map opt_list ps))"
    by (induction ps) (auto simp: opt_list_def split: option.splits)
  with X86_CALL show ?thesis by (simp add: comp_def)
qed simp_all

lemma x_write_map: "x_write (map_x86Instruction g i) = map_option g (x_write i)"
  by (cases i) simp_all

lemma x_params_map: "x_params (map_x86Instruction g i) = x_params i"
  by (cases i) simp_all

lemma map_the_cong:
  assumes "\<forall>r \<in> set (concat (map opt_list ps)). p (g r) = v r" "None \<notin> set ps"
  shows "map (\<lambda>x. p (the (map_option g x))) ps = map (\<lambda>x. v (the x)) ps"
proof (rule map_cong [OF refl])
  fix x assume x: "x \<in> set ps"
  with assms(2) obtain r where r: "x = Some r" by (cases x) auto
  with x have "r \<in> set (concat (map opt_list ps))" by force
  then have "p (g r) = v r" using assms(1) by blast
  with r show "p (the (map_option g x)) = v (the x)" by simp
qed

lemma xexec_rename:
  assumes "\<forall>r \<in> set (x_reads i). pvals (g r) = vals r"
  shows "case xexec E ctx junk i vals mem of
      None \<Rightarrow> xexec E ctx junk (map_x86Instruction g i) pvals mem = None
    | Some (Leave v k mem') \<Rightarrow> xexec E ctx junk (map_x86Instruction g i) pvals mem = Some (Leave v k mem')
    | Some (Next vals' mem') \<Rightarrow> \<exists>w. vals' = upd (x_write i) w vals \<and>
        xexec E ctx junk (map_x86Instruction g i) pvals mem = Some (Next (upd (map_option g (x_write i)) w pvals) mem')"
proof (cases i)
  case (X86_CALL a ps r)
  define n where "n = hlp_arity E (vals a)"
  have a: "pvals (g a) = vals a" and "\<forall>r \<in> set (concat (map opt_list ps)). pvals (g r) = vals r"
    using assms X86_CALL by auto
  then have "\<forall>r \<in> set (concat (map opt_list (take n ps))). pvals (g r) = vals r"
    by (auto dest: in_set_takeD)
  from map_the_cong [of _ pvals g vals, OF this] have args: "None \<notin> set (take n ps) \<Longrightarrow>
    map (\<lambda>p. pvals (the p)) (take n (map (map_option g) ps)) = map (\<lambda>p. vals (the p)) (take n ps)"
    by (simp add: take_map comp_def)
  have none: "None \<in> set (take n (map (map_option g) ps)) \<longleftrightarrow> None \<in> set (take n ps)"
    by (auto simp: take_map)
  show ?thesis
    using X86_CALL a args none
    by (cases r) (auto simp: n_def [symmetric] Let_def split: prod.splits)
next
  case (X86_EXIT v p k)
  then show ?thesis using assms by (cases p) auto
qed (use assms in auto)

text \<open>Physical register numbers.\<close>

lemma phys_eq_iff:
  assumes "0 \<le> idx regs r" "idx regs r < int REG_NUMBER" "0 \<le> idx regs q" "idx regs q < int REG_NUMBER"
  shows "phys regs r = phys regs q \<longleftrightarrow> idx regs r = idx regs q" "phys regs r < 8"
proof -
  have u: "uint (of_int (idx regs x) :: u8) = idx regs x" if "0 \<le> idx regs x" "idx regs x < int REG_NUMBER" for x
    using that by (simp add: REG_NUMBER_def uint_word_of_int take_bit_int_eq_self)
  show "phys regs r = phys regs q \<longleftrightarrow> idx regs r = idx regs q"
    using u assms unfolding phys_def by metis
  show "phys regs r < 8"
    using u [OF assms(1,2)] assms by (simp add: phys_def word_less_def REG_NUMBER_def)
qed

definition alloc_ok :: "x86Register list \<Rightarrow> nat x86Instruction list \<Rightarrow> bool" where
  "alloc_ok regs insns \<longleftrightarrow> x_wf regs insns \<and> (\<forall>k < length insns. placed insns k regs \<and> dst_fresh insns k regs)"

lemma alloc_ok_phys:
  assumes "alloc_ok regs insns" "k < length insns"
  shows "\<And>r. live insns k r \<Longrightarrow> phys regs r < 8"
    "\<And>r q. live insns k r \<Longrightarrow> live insns k q \<Longrightarrow> phys regs r = phys regs q \<Longrightarrow> r = q"
    "\<And>d. x_write (insns ! k) = Some d \<Longrightarrow> phys regs d < 8"
    "\<And>d r. x_write (insns ! k) = Some d \<Longrightarrow> live insns k r \<Longrightarrow> phys regs d \<noteq> phys regs r"
proof -
  have pl: "placed insns k regs" "dst_fresh insns k regs" using assms by (auto simp: alloc_ok_def)
  have b: "0 \<le> idx regs r" "idx regs r < int REG_NUMBER" if "live insns k r \<or> x_write (insns ! k) = Some r" for r
    using pl that by (auto simp: placed_def dst_fresh_def)
  show "phys regs r < 8" if "live insns k r" for r using phys_eq_iff(2) b that by blast
  show "r = q" if "live insns k r" "live insns k q" "phys regs r = phys regs q" for r q
    using that pl(1) phys_eq_iff(1) [OF b b, of r q] by (simp add: placed_def inj_on_def)
  show "phys regs d < 8" if "x_write (insns ! k) = Some d" for d using phys_eq_iff(2) b that by blast
  show "phys regs d \<noteq> phys regs r" if "x_write (insns ! k) = Some d" "live insns k r" for d r
    using that pl(2) phys_eq_iff(1) [OF b b, of d r] by (force simp: dst_fresh_def)
qed

lemma alloc_ok_phys_ok:
  assumes "alloc_ok regs insns" "k < length insns"
  shows "phys_ok (map_x86Instruction (phys regs) (insns ! k))"
proof -
  have wf: "x_wf regs insns" using assms by (simp add: alloc_ok_def)
  note R = alloc_ok_phys [OF assms] and W = x_wfD [OF wf assms(2)]
  show ?thesis
    unfolding phys_ok_def x_reads_map x_write_map x_params_map
    using W(1,5) R(1,3,4) by (cases "x_write (insns ! k)") force+
qed

lemma alloc_run:
  assumes ok: "alloc_ok regs insns" and "k \<le> length insns"
    and "\<forall>r. live insns k r \<longrightarrow> pvals (phys regs r) = vals r"
  shows "\<exists>res. vrun E ctx (drop k insns) vals mem res \<and>
    map_option outcome (xrun E ctx (map (map_x86Instruction (phys regs)) (drop k insns)) pvals mem) = map_option outcome res"
  using assms(2,3)
proof (induction "length insns - k" arbitrary: k pvals vals mem)
  case 0
  then show ?case by (auto intro!: exI vrun_end)
next
  case (Suc n)
  then have k: "k < length insns" by simp
  let ?i = "insns ! k" and ?g = "phys regs"
  have wf: "x_wf regs insns" using ok by (simp add: alloc_ok_def)
  have d: "drop k insns = ?i # drop (Suc k) insns" using k by (simp add: Cons_nth_drop_Suc)
  define junk where "junk = old_dst (map_x86Instruction ?g ?i) pvals"
  have "\<forall>r \<in> set (x_reads ?i). pvals (?g r) = vals r"
    using x_wfD(5) [OF wf k] Suc.prems(2) by blast
  note X = xexec_rename [where i = ?i and pvals = pvals and g = ?g and vals = vals, OF this, of E ctx junk mem]
  show ?case
  proof (cases "xexec E ctx junk ?i vals mem")
    case None
    then show ?thesis using X unfolding d by (auto simp: junk_def intro!: exI [of _ None] vrun_stuck)
  next
    case (Some res1)
    show ?thesis
    proof (cases res1)
      case (Leave v kk mem')
      then show ?thesis using X Some unfolding d
        by (auto simp: junk_def intro!: exI [of _ "Some (Leave v kk mem')"] vrun_leave)
    next
      case (Next vals' mem')
      then obtain w where w: "vals' = upd (x_write ?i) w vals"
        "xexec E ctx junk (map_x86Instruction ?g ?i) pvals mem = Some (Next (upd (map_option ?g (x_write ?i)) w pvals) mem')"
        using X Some by auto
      let ?pvals' = "upd (map_option ?g (x_write ?i)) w pvals"
      have rel: "?pvals' (?g r) = vals' r" if r: "live insns (Suc k) r" for r
      proof (cases "x_write ?i = Some r")
        case False
        then have lv: "live insns k r" using r unfolding live_Suc [OF k] by (auto simp: live_def)
        show ?thesis using alloc_ok_phys(4) [OF ok k _ lv] lv Suc.prems(2) False
          by (cases "x_write ?i") (fastforce simp: w(1))+
      qed (simp add: w(1))
      have n: "n = length insns - Suc k" using Suc.hyps(2) by simp
      from Suc.hyps(1) [OF n, of ?pvals' vals' mem'] k rel obtain res where
        res: "vrun E ctx (drop (Suc k) insns) vals' mem' res"
          "map_option outcome (xrun E ctx (map (map_x86Instruction ?g) (drop (Suc k) insns)) ?pvals' mem') = map_option outcome res"
        by auto
      show ?thesis
        by (rule exI [of _ res])
           (use res Some Next w in \<open>auto simp: d junk_def intro: vrun_next\<close>)
    qed
  qed
qed

lemma allocateRegisters_ok:
  assumes "x_wf (xregs_of s) (xinsns_of s)" "allocateRegisters s = Some s'"
  shows "alloc_ok (xregs_of s') (xinsns_of s')" "xinsns_of s' = xinsns_of s"
proof -
  from assms(2) obtain regs free where
    a: "allocateRegistersFrom 0 (xinsns_of s) (xregs_of s, replicate REG_NUMBER True) = Some (regs, free)"
    and s': "s' = s\<lparr>x_registerPool := (x_registerPool s)\<lparr>pool_buffer := regs\<rparr>\<rparr>"
    by (auto simp: allocateRegisters_def split: bind_splits)
  have "alloc_inv (xinsns_of s) 0 (xregs_of s, replicate REG_NUMBER True)"
    using assms(1) by (auto simp: alloc_inv_def placed_def live_def defined_def)
  from alloc_loop [OF this] a have "alloc_ok regs (xinsns_of s)" by (auto simp: alloc_ok_def)
  then show "alloc_ok (xregs_of s') (xinsns_of s')" "xinsns_of s' = xinsns_of s" by (simp_all add: s')
qed

section \<open>When the allocation succeeds\<close>

text \<open>A register is marked used only if a live virtual register sits in it.\<close>

definition tight :: "nat x86Instruction list \<Rightarrow> nat \<Rightarrow> astate \<Rightarrow> bool" where
  "tight insns k = (\<lambda>(regs, free). \<forall>j < REG_NUMBER. \<not> free ! j \<longrightarrow> (\<exists>r. live insns k r \<and> idx regs r = int j))"

definition pressure :: "nat x86Instruction list \<Rightarrow> nat \<Rightarrow> nat" where
  "pressure insns k = card {r. live insns k r} + (if x_write (insns ! k) = None then 0 else 1)"

lemma finite_live: "x_wf regs insns \<Longrightarrow> finite {r. live insns k r}"
  by (rule finite_subset [of _ "{..<length regs}"]) (auto simp: live_def dest: defined_bound)

lemma getFreeReg_succeeds:
  assumes "alloc_inv insns k (regs, free)" "tight insns k (regs, free)" "card {r. live insns k r} < REG_NUMBER"
  shows "\<exists>a. getFreeReg d (regs, free) = Some a"
proof -
  have wf: "x_wf regs insns" using assms(1) by (simp add: alloc_inv_def)
  have "\<exists>j < REG_NUMBER. free ! j"
  proof (rule ccontr)
    assume "\<not> ?thesis"
    then have "\<forall>j < REG_NUMBER. \<exists>r. live insns k r \<and> idx regs r = int j" using assms(2) by (simp add: tight_def)
    then have "{..<REG_NUMBER} \<subseteq> (\<lambda>r. nat (idx regs r)) ` {r. live insns k r}"
      by (force intro: rev_image_eqI)
    from card_mono [OF _ this] card_image_le [OF finite_live [OF wf, of k], of "\<lambda>r. nat (idx regs r)"]
    show False using assms(3) finite_live [OF wf, of k] by simp
  qed
  then have "find (\<lambda>i. free ! i) [0..<REG_NUMBER] \<noteq> None" by (auto simp: find_None_iff)
  then show ?thesis by (auto simp: getFreeReg_def getFreeRegRaw_def)
qed

lemma tight_step:
  assumes inv: "alloc_inv insns k (regs, free)" and t: "tight insns k (regs, free)" and k: "k < length insns"
    and a: "allocateRegistersInsn (int k) (insns ! k) (regs, free) = Some (regs1, free2)"
  shows "tight insns (Suc k) (regs1, free2)"
proof -
  from a obtain regs0 free1 where a1: "(case x_write (insns ! k) of None \<Rightarrow> Some (regs, free)
      | Some d \<Rightarrow> getFreeReg d (regs, free)) = Some (regs0, free1)"
    and a2: "fold (release (int k)) (x_reads (insns ! k)) (regs0, free1) = (regs1, free2)"
    unfolding allocateRegistersInsn_rw by (auto split: bind_splits)
  have wf: "x_wf regs insns" and len: "length free = REG_NUMBER" using inv by (auto simp: alloc_inv_def)
  have D: "x_wf regs0 insns" "length free1 = REG_NUMBER" "placed insns k regs0"
    "\<And>r. x_write (insns ! k) \<noteq> Some r \<Longrightarrow> idx regs0 r = idx regs r"
    using alloc_dst_step [OF inv k a1] by blast+
  have rd: "live insns k r" if "r \<in> set (x_reads (insns ! k))" for r using x_wfD(5) [OF wf k that] .
  have "\<forall>r \<in> set (x_reads (insns ! k)). x_lastReadIndex (regs0 ! r) = int k \<longrightarrow> nat (x_index (regs0 ! r)) < REG_NUMBER"
    using rd D(3) by (auto simp: placed_def nat_less_iff)
  from fold_release [OF D(2) this] a2
  have regs1: "regs1 = regs0" and
    free2: "\<And>j. j < REG_NUMBER \<Longrightarrow> free2 ! j \<longleftrightarrow> free1 ! j \<or>
        (\<exists>r \<in> set (x_reads (insns ! k)). x_lastReadIndex (regs0 ! r) = int k \<and> nat (idx regs0 r) = j)"
    by auto
  have L: "x_lastReadIndex (regs0 ! r) = last_read x_reads r insns" if "r < length regs0" for r
    using D(1) that by (simp add: x_wf_def)
  have old: "\<exists>q. live insns (Suc k) q \<and> idx regs0 q = int j"
    if j: "j < REG_NUMBER" "\<not> free2 ! j" and r: "live insns k r" "idx regs r = int j" for j r
  proof -
    have w: "x_write (insns ! k) \<noteq> Some r" using written_not_live [OF wf k] r by (auto simp: live_def)
    then have i: "idx regs0 r = int j" using D(4) r by simp
    have "last_read x_reads r insns \<noteq> int k"
    proof
      assume l: "last_read x_reads r insns = int k"
      then have "r \<in> set (x_reads (insns ! k))" using last_read_cases [of x_reads r insns] by auto
      then show False using free2 [OF j(1)] j(2) i l L [of r] x_wfD(4) [OF D(1) k, of r] by fastforce
    qed
    then show ?thesis using r i unfolding live_Suc [OF k] by (auto simp: live_def)
  qed
  show ?thesis
    unfolding tight_def regs1
  proof (clarify)
    fix j assume j: "j < REG_NUMBER" "\<not> free2 ! j"
    have f1: "\<not> free1 ! j" using free2 [OF j(1)] j(2) by blast
    show "\<exists>r. live insns (Suc k) r \<and> idx regs0 r = int j"
    proof (cases "\<not> free ! j")
      case True
      then obtain r where "live insns k r" "idx regs r = int j" using t j(1) by (auto simp: tight_def)
      then show ?thesis by (rule old [OF j])
    next
      case False
      with a1 f1 obtain d where d: "x_write (insns ! k) = Some d" by (cases "x_write (insns ! k)") auto
      have dl: "d < length regs" using x_wfD(2) [OF wf k d] .
      from a1 d obtain i where i: "regs0 = regs[d := (regs ! d)\<lparr>x_index := int i\<rparr>]"
        "free1 = free[i := x_lastReadIndex (regs ! d) = -1]" "i < REG_NUMBER"
        by (auto elim!: getFreeReg_Some [OF _ len dl])
      with f1 False have "i = j" by (cases "i = j") auto
      with i f1 len have "x_lastReadIndex (regs ! d) \<noteq> -1" by auto
      then have "int k < last_read x_reads d insns"
        using written_last_read [OF wf k d] wf dl by (auto simp: x_wf_def)
      then show ?thesis using d dl i \<open>i = j\<close> unfolding live_Suc [OF k] by (auto intro!: exI [of _ d])
    qed
  qed
qed

lemma alloc_succeeds:
  assumes "alloc_inv insns k (regs, free)" "tight insns k (regs, free)" "k \<le> length insns"
    "\<forall>k' < length insns. pressure insns k' \<le> REG_NUMBER"
  shows "\<exists>a. allocateRegistersFrom (int k) (drop k insns) (regs, free) = Some a"
  using assms
proof (induction "length insns - k" arbitrary: k regs free)
  case (Suc n)
  then have k: "k < length insns" and n: "n = length insns - Suc k" by simp_all
  have p: "pressure insns k \<le> REG_NUMBER" using Suc.prems(4) k by blast
  have "\<exists>a. (case x_write (insns ! k) of None \<Rightarrow> Some (regs, free)
      | Some d \<Rightarrow> getFreeReg d (regs, free)) = Some a"
    using getFreeReg_succeeds [OF Suc.prems(1,2)] p
    by (cases "x_write (insns ! k)") (simp_all add: pressure_def)
  then have "\<exists>a. allocateRegistersInsn (int k) (insns ! k) (regs, free) = Some a"
    unfolding allocateRegistersInsn_rw by auto
  then obtain regs1 free1 where a: "allocateRegistersInsn (int k) (insns ! k) (regs, free) = Some (regs1, free1)" by auto
  have "\<exists>a. allocateRegistersFrom (int (Suc k)) (drop (Suc k) insns) (regs1, free1) = Some a"
    using Suc.hyps(1) [OF n _ _ _ Suc.prems(4)] alloc_step [OF Suc.prems(1) k a] tight_step [OF Suc.prems(1,2) k a] k
    by auto
  then show ?case using a k by (simp add: Cons_nth_drop_Suc [symmetric] add.commute)
qed simp

end
