(* ===== verification/Be_Select_Wf.thy ===== *)
theory Be_Select_Wf
  imports Be_RegAlloc_Sem
begin

text \<open>
  The first pass on well-formed intermediate code: every intermediate register that is read gets
  one host register, the sequence it builds writes every host register once and before it
  is read, the recorded positions of the last reads are right, and each intermediate
  instruction becomes the host instructions that \<open>sel\<close> gives.
\<close>

section \<open>Growing a sequence\<close>

lemma last_read_none: "\<forall>i \<in> set xs. r \<notin> set (rd i) \<Longrightarrow> last_read rd r xs = -1"
  by (induction xs rule: rev_induct) auto

lemma x_wf_addreg:
  assumes "x_wf regs insns" "x_lastReadIndex x = -1"
  shows "x_wf (regs @ [x]) insns"
proof -
  have "\<forall>i \<in> set insns. length regs \<notin> set (x_reads i)"
    using x_wfD(4) [OF assms(1)] by (metis in_set_conv_nth less_irrefl)
  then have "last_read x_reads (length regs) insns = -1" by (rule last_read_none)
  then have "\<forall>r < length (regs @ [x]). x_lastReadIndex ((regs @ [x]) ! r) = last_read x_reads r insns"
    using assms by (auto simp: nth_append less_Suc_eq x_wf_def)
  moreover have "\<forall>k < length insns. x_params (insns ! k) = 4 \<and>
        (\<forall>d. x_write (insns ! k) = Some d \<longrightarrow> d < length (regs @ [x]) \<and>
           (\<forall>k' < length insns. x_write (insns ! k') = Some d \<longrightarrow> k' = k)) \<and>
        (\<forall>r \<in> set (x_reads (insns ! k)). r < length (regs @ [x]) \<and>
           (\<exists>k' < k. x_write (insns ! k') = Some r))"
    using assms(1) unfolding x_wf_def by (metis length_append_singleton less_SucI)
  ultimately show ?thesis unfolding x_wf_def by blast
qed

lemma defined_append: "k \<le> length insns \<Longrightarrow> defined (insns @ xs) k r = defined insns k r"
  by (auto simp: defined_def nth_append)

lemma defined_snoc:
  "defined (insns @ [i]) (Suc (length insns)) r \<longleftrightarrow> defined insns (length insns) r \<or> x_write i = Some r"
proof -
  have "defined (insns @ [i]) (Suc (length insns)) r \<longleftrightarrow> defined (insns @ [i]) (length insns) r \<or> x_write i = Some r"
    using defined_Suc [of "length insns" "insns @ [i]" r] by simp
  then show ?thesis by (simp add: defined_append)
qed

lemma x_wf_push:
  assumes wf: "x_wf regs insns" and p: "x_params i = 4"
    and rd: "\<forall>r \<in> set (x_reads i). defined insns (length insns) r"
    and wr: "\<forall>d. x_write i = Some d \<longrightarrow> d < length regs \<and> \<not> defined insns (length insns) d"
    and len: "length regs' = length regs"
    and regs': "\<And>r. r < length regs \<Longrightarrow> x_lastReadIndex (regs' ! r) =
        (if r \<in> set (x_reads i) then int (length insns) else x_lastReadIndex (regs ! r))"
  shows "x_wf regs' (insns @ [i])"
proof -
  let ?N = "length insns"
  have "x_params ((insns @ [i]) ! k) = 4 \<and>
      (\<forall>d. x_write ((insns @ [i]) ! k) = Some d \<longrightarrow> d < length regs' \<and>
         (\<forall>k' < length (insns @ [i]). x_write ((insns @ [i]) ! k') = Some d \<longrightarrow> k' = k)) \<and>
      (\<forall>r \<in> set (x_reads ((insns @ [i]) ! k)). r < length regs' \<and>
         (\<exists>k' < k. x_write ((insns @ [i]) ! k') = Some r))" if k: "k < length (insns @ [i])" for k
  proof (cases "k < ?N")
    case True
    note W = x_wfD [OF wf True]
    have u: "k' = k" if "x_write (insns ! k) = Some d" "k' < Suc ?N" "x_write ((insns @ [i]) ! k') = Some d" for d k'
    proof (cases "k' < ?N")
      case False
      then have "x_write i = Some d" using that by (simp add: nth_append)
      then show ?thesis using wr that(1) True by (auto simp: defined_def)
    qed (use W(3) that in \<open>auto simp: nth_append\<close>)
    have rd': "\<exists>k' < k. x_write ((insns @ [i]) ! k') = Some r" if r: "r \<in> set (x_reads (insns ! k))" for r
    proof -
      obtain k' where "k' < k" "x_write (insns ! k') = Some r" using W(5) [OF r] by (auto simp: live_def defined_def)
      then show ?thesis using True by (intro exI [of _ k']) (simp add: nth_append)
    qed
    show ?thesis using True W(1,2,4) u rd' by (auto simp: nth_append len)
  next
    case False
    then have [simp]: "k = ?N" using k by simp
    have u: "k' = ?N" if "x_write i = Some d" "k' < Suc ?N" "x_write ((insns @ [i]) ! k') = Some d" for d k'
      using wr that by (cases "k' < ?N") (auto simp: nth_append defined_def)
    have rd': "r < length regs \<and> (\<exists>k' < ?N. x_write ((insns @ [i]) ! k') = Some r)" if "r \<in> set (x_reads i)" for r
    proof -
      have d: "defined insns ?N r" using rd that by blast
      then obtain k' where "k' < ?N" "x_write (insns ! k') = Some r" by (auto simp: defined_def)
      then show ?thesis using defined_bound [OF wf d] by (intro conjI exI [of _ k']) (auto simp: nth_append)
    qed
    show ?thesis using p wr u rd' by (auto simp: len)
  qed
  moreover have "\<forall>r < length regs'. x_lastReadIndex (regs' ! r) = last_read x_reads r (insns @ [i])"
    using regs' wf by (auto simp: len x_wf_def)
  ultimately show ?thesis unfolding x_wf_def by blast
qed


text \<open>The state of the pass between two instructions of the host sequence.\<close>

definition x_ok :: "inter \<Rightarrow> bool" where
  "x_ok s \<longleftrightarrow> x_wf (xregs_of s) (xinsns_of s) \<and> x_instructionIndex s = int (length (xinsns_of s))"

abbreviation written :: "inter \<Rightarrow> nat \<Rightarrow> bool" where
  "written s r \<equiv> defined (xinsns_of s) (length (xinsns_of s)) r"

lemma x_mark_read_simps [simp]:
  "x_instructionPool (x86_mark_read r s) = x_instructionPool s"
  "x_instructionIndex (x86_mark_read r s) = x_instructionIndex s"
  "length (xregs_of (x86_mark_read r s)) = length (xregs_of s)"
  by (simp_all add: x86_mark_read_def)

lemma x_fold_mark_read_simps [simp]:
  "x_instructionPool (fold x86_mark_read rs s) = x_instructionPool s"
  "x_instructionIndex (fold x86_mark_read rs s) = x_instructionIndex s"
  "length (xregs_of (fold x86_mark_read rs s)) = length (xregs_of s)"
  by (induction rs arbitrary: s) simp_all

lemma x_fold_mark_read_nth:
  "r < length (xregs_of s) \<Longrightarrow> xregs_of (fold x86_mark_read rs s) ! r =
     (if r \<in> set rs then (xregs_of s ! r)\<lparr>x_lastReadIndex := x_instructionIndex s\<rparr> else xregs_of s ! r)"
  by (induction rs arbitrary: s) (auto simp: x86_mark_read_def pool_update_nth)

lemma x_fold_mark_read_opt: "fold x86_mark_read_opt ps s = fold x86_mark_read (concat (map opt_list ps)) s"
  by (induction ps arbitrary: s) (auto simp: x86_mark_read_opt_def split: option.splits)

lemma x_push:
  assumes ok: "x_ok s" and push: "x86_push_insn i (fold x86_mark_read rs s) = Some s'"
    and rs: "set rs = set (x_reads i)" and p: "x_params i = 4"
    and rd: "\<forall>r \<in> set rs. written s r"
    and wr: "\<forall>d. x_write i = Some d \<longrightarrow> d < length (xregs_of s) \<and> \<not> written s d"
  shows "x_ok s' \<and> xinsns_of s' = xinsns_of s @ [i] \<and> length (xregs_of s') = length (xregs_of s) \<and>
     (\<forall>r < length (xregs_of s). isConstant (xregs_of s' ! r) = isConstant (xregs_of s ! r))"
proof -
  let ?s2 = "fold x86_mark_read rs s"
  from push have s': "xregs_of s' = xregs_of ?s2" "xinsns_of s' = xinsns_of s @ [i]"
    "x_instructionIndex s' = x_instructionIndex s + 1"
    by (auto simp: x86_push_insn_def split: bind_splits dest!: memoryPoolAlloc_SomeD(2))
  have "x_wf (xregs_of s') (xinsns_of s @ [i])"
    by (rule x_wf_push [of "xregs_of s"])
       (use ok p rd wr rs in \<open>auto simp: x_ok_def s' x_fold_mark_read_nth\<close>)
  then show ?thesis using ok by (auto simp: x_ok_def s' x_fold_mark_read_nth)
qed

definition new_xreg :: "inter \<Rightarrow> x86Register" where
  "new_xreg s = \<lparr>isConstant = False, x_index = x_regIndex s, x_firstWriteIndex = x_instructionIndex s, x_lastReadIndex = -1\<rparr>"

lemma x_alloc_old:
  "ir_backend (irs ! r) = Some p \<Longrightarrow> x86_allocateRegister (Some r) (s, irs) = Some (p, s, irs)"
  by (simp add: x86_allocateRegister_def)

lemma x_alloc_new:
  assumes "x_ok s" "x86_allocateRegister ro (s, irs) = Some (p, s', irs')"
    "Option.bind ro (\<lambda>r. ir_backend (irs ! r)) = None"
  shows "p = length (xregs_of s) \<and> xregs_of s' = xregs_of s @ [new_xreg s] \<and> xinsns_of s' = xinsns_of s \<and> x_ok s' \<and>
    irs' = (case ro of None \<Rightarrow> irs | Some r \<Rightarrow> irs[r := (irs ! r)\<lparr>ir_backend := Some p\<rparr>])"
proof -
  have e: "p = length (xregs_of s) \<and> xregs_of s' = xregs_of s @ [new_xreg s] \<and> x_instructionPool s' = x_instructionPool s \<and>
    x_instructionIndex s' = x_instructionIndex s \<and>
    irs' = (case ro of None \<Rightarrow> irs | Some r \<Rightarrow> irs[r := (irs ! r)\<lparr>ir_backend := Some p\<rparr>])"
    using assms(2,3)
    by (auto simp: x86_allocateRegister_def new_xreg_def memoryPoolAlloc_def split: bind_splits option.splits if_splits)
  moreover have "x_wf (xregs_of s @ [new_xreg s]) (xinsns_of s)"
    using assms(1) by (intro x_wf_addreg) (auto simp: x_ok_def new_xreg_def)
  ultimately show ?thesis using assms(1) by (auto simp: x_ok_def)
qed


section \<open>The pass as a translation\<close>

text \<open>
  The host instructions of one intermediate instruction, as a function of the host register
  \<open>\<beta> r\<close> of each intermediate register, the number \<open>n\<close> of the first free host register,
  the registers that hold constants and those that are never read.
\<close>

fun sel :: "(nat \<Rightarrow> bool) \<Rightarrow> (nat \<Rightarrow> bool) \<Rightarrow> (nat \<Rightarrow> nat) \<Rightarrow> nat \<Rightarrow> irInstruction \<Rightarrow> nat x86Instruction list" where
  "sel K U \<beta> n (IR_MOV_CONST t d v) = [X86_MOV_CONST (\<beta> d) v]"
| "sel K U \<beta> n (IR_LOAD t d a) = [X86_LOAD t (\<beta> d) (\<beta> a)]"
| "sel K U \<beta> n (IR_STORE t x a) = [X86_STORE t (\<beta> x) (\<beta> a)]"
| "sel K U \<beta> n (IR_BINOP b t d x y) =
     (if b = IR_BINOP_ASR \<and> asr_shift t \<noteq> 0
      then [X86_MOV_CONST n (asr_shift t), X86_BINOP IR_REG_64 X86_BINOP_SHL (n + 1) (\<beta> x) n,
            X86_BINOP IR_REG_64 X86_BINOP_ASR (n + 2) (n + 1) n, X86_BINOP t X86_BINOP_ASR (\<beta> d) (n + 2) (\<beta> y)]
      else [X86_BINOP t (binop_of b) (\<beta> d) (\<beta> x) (\<beta> y)])"
| "sel K U \<beta> n (IR_ITE t d p x y) = [X86_ITE (\<beta> d) (\<beta> p) (\<beta> x) (\<beta> y)]"
| "sel K U \<beta> n (IR_CAST c d x) = [X86_CAST c (\<beta> d) (\<beta> x)]"
| "sel K U \<beta> n (IR_EXIT v p) = [X86_EXIT (\<beta> v) (map_option \<beta> p) (K v)]"
| "sel K U \<beta> n (IR_CALL t nm a ps r) = [X86_CALL (\<beta> a) (map (map_option \<beta>) ps) (map_option \<beta> r)]"
| "sel K U \<beta> n (IR_READ t d off) = (if U d then [] else [X86_READ t (\<beta> d) off])"
| "sel K U \<beta> n (IR_WRITE t x off) = [X86_WRITE t (\<beta> x) off]"
| "sel K U \<beta> n (IR_INSN_MARKER v) = [X86_INSN_MARKER v]"

definition is_const :: "irInstruction list \<Rightarrow> nat \<Rightarrow> bool" where
  "is_const insns r \<longleftrightarrow> (\<exists>t v. IR_MOV_CONST t r v \<in> set insns)"

definition unread :: "jitter \<Rightarrow> nat \<Rightarrow> bool" where
  "unread j r \<longleftrightarrow> ir_lastReadIndex (regs_of j ! r) = -1"

fun skipped :: "jitter \<Rightarrow> irInstruction \<Rightarrow> bool" where
  "skipped j (IR_READ t d off) = unread j d"
| "skipped j _ = False"

definition emitted :: "jitter \<Rightarrow> nat \<Rightarrow> nat \<Rightarrow> bool" where
  "emitted j n r \<longleftrightarrow> (\<exists>k < n. k < length (insns_of j) \<and> ir_write (insns_of j ! k) = Some r \<and> \<not> skipped j (insns_of j ! k))"

abbreviation bk :: "irRegister list \<Rightarrow> nat \<Rightarrow> nat option" where "bk irs r \<equiv> ir_backend (irs ! r)"

definition sel_inv :: "jitter \<Rightarrow> nat \<Rightarrow> bstate \<Rightarrow> bool" where
  "sel_inv j n = (\<lambda>(s, irs). x_ok s \<and> length irs = length (regs_of j) \<and>
     (\<forall>r < length irs. ir_lastReadIndex (irs ! r) = ir_lastReadIndex (regs_of j ! r) \<and>
        (bk irs r \<noteq> None \<longleftrightarrow> emitted j n r) \<and>
        (\<forall>p. bk irs r = Some p \<longrightarrow> p < length (xregs_of s) \<and> written s p \<and>
           (isConstant (xregs_of s ! p) \<longleftrightarrow> is_const (insns_of j) r) \<and>
           (\<forall>q < length irs. bk irs q = Some p \<longrightarrow> q = r))))"

lemma emitted_Suc: "n < length (insns_of j) \<Longrightarrow> emitted j (Suc n) r \<longleftrightarrow>
   emitted j n r \<or> ir_write (insns_of j ! n) = Some r \<and> \<not> skipped j (insns_of j ! n)"
  by (auto simp: emitted_def less_Suc_eq)

text \<open>The registers an instruction reads have been given a host register.\<close>

lemma reads_emitted:
  assumes wf: "ir_wf j" and n: "n < length (insns_of j)" and r: "r \<in> set (ir_reads (insns_of j ! n))"
  shows "emitted j n r" "r < length (regs_of j)"
proof -
  show b: "r < length (regs_of j)" using ir_wf_insnD(3) [OF wf n r] .
  let ?k = "nat (ir_firstWriteIndex (regs_of j ! r))"
  have k: "?k < n" "ir_write (insns_of j ! ?k) = Some r"
    using ir_wf_insnD(4) [OF wf n r] ir_wf_regD(3,5) [OF wf b] by auto
  have "int n \<le> last_read ir_reads r (insns_of j)" by (rule last_read_ge [where rd = ir_reads, OF n r])
  then have "\<not> unread j r" using ir_wf_regD(6) [OF wf b] by (auto simp: unread_def)
  then have "\<not> skipped j (insns_of j ! ?k)" using k(2) by (cases "insns_of j ! ?k") auto
  then show "emitted j n r" using k n by (auto simp: emitted_def)
qed

lemma write_fresh:
  assumes wf: "ir_wf j" and n: "n < length (insns_of j)" and d: "ir_write (insns_of j ! n) = Some d"
  shows "\<not> emitted j n d" "d < length (regs_of j)"
proof -
  show "d < length (regs_of j)" using ir_wf_insnD(1) [OF wf n d] .
  have "k = n" if "k < length (insns_of j)" "ir_write (insns_of j ! k) = Some d" for k
    using ir_wf_insnD(2) [OF wf that(1,2)] ir_wf_insnD(2) [OF wf n d] by simp
  then show "\<not> emitted j n d" by (auto simp: emitted_def)
qed

lemma is_const_written:
  assumes wf: "ir_wf j" and n: "n < length (insns_of j)" and d: "ir_write (insns_of j ! n) = Some d"
  shows "is_const (insns_of j) d \<longleftrightarrow> (\<exists>t v. insns_of j ! n = IR_MOV_CONST t d v)"
proof -
  have "k = n" if "k < length (insns_of j)" "ir_write (insns_of j ! k) = Some d" for k
    using ir_wf_insnD(2) [OF wf that(1,2)] ir_wf_insnD(2) [OF wf n d] by simp
  then have "\<exists>t v. insns_of j ! n = IR_MOV_CONST t d v" if "IR_MOV_CONST t d v \<in> set (insns_of j)" for t v
    using that unfolding in_set_conv_nth by (metis ir_write.simps(1))
  moreover have "is_const (insns_of j) d" if "insns_of j ! n = IR_MOV_CONST t d v" for t v
    using that n nth_mem [OF n] unfolding is_const_def by metis
  ultimately show ?thesis unfolding is_const_def by blast
qed

lemma sel_invD:
  assumes "sel_inv j n (s, irs)"
  shows "x_ok s" "length irs = length (regs_of j)"
    "\<And>r. r < length (regs_of j) \<Longrightarrow> ir_lastReadIndex (irs ! r) = ir_lastReadIndex (regs_of j ! r)"
    "\<And>r. r < length (regs_of j) \<Longrightarrow> bk irs r \<noteq> None \<longleftrightarrow> emitted j n r"
    "\<And>r p. r < length (regs_of j) \<Longrightarrow> bk irs r = Some p \<Longrightarrow> p < length (xregs_of s)"
    "\<And>r p. r < length (regs_of j) \<Longrightarrow> bk irs r = Some p \<Longrightarrow> written s p"
    "\<And>r p. r < length (regs_of j) \<Longrightarrow> bk irs r = Some p \<Longrightarrow> isConstant (xregs_of s ! p) \<longleftrightarrow> is_const (insns_of j) r"
    "\<And>r q p. r < length (regs_of j) \<Longrightarrow> q < length (regs_of j) \<Longrightarrow> bk irs r = Some p \<Longrightarrow> bk irs q = Some p \<Longrightarrow> q = r"
proof -
  have *: "x_ok s \<and> length irs = length (regs_of j)"
    and **: "\<And>r. r < length irs \<Longrightarrow> ir_lastReadIndex (irs ! r) = ir_lastReadIndex (regs_of j ! r) \<and>
        (bk irs r \<noteq> None \<longleftrightarrow> emitted j n r) \<and>
        (\<forall>p. bk irs r = Some p \<longrightarrow> p < length (xregs_of s) \<and> written s p \<and>
           (isConstant (xregs_of s ! p) \<longleftrightarrow> is_const (insns_of j) r) \<and>
           (\<forall>q < length irs. bk irs q = Some p \<longrightarrow> q = r))"
    using assms unfolding sel_inv_def prod.case by blast+
  show "x_ok s" "length irs = length (regs_of j)" using * by blast+
  note l = this(2)
  fix r assume "r < length (regs_of j)"
  note S = ** [unfolded l, OF this]
  show "ir_lastReadIndex (irs ! r) = ir_lastReadIndex (regs_of j ! r)" "bk irs r \<noteq> None \<longleftrightarrow> emitted j n r"
    using S by blast+
  fix p assume "bk irs r = Some p"
  then show "p < length (xregs_of s)" "written s p" "isConstant (xregs_of s ! p) \<longleftrightarrow> is_const (insns_of j) r"
    "\<And>q. q < length (regs_of j) \<Longrightarrow> bk irs q = Some p \<Longrightarrow> q = r"
    using S by blast+
qed

text \<open>What one iteration may do to the state; it keeps the invariant.\<close>

lemma written_mono: "xinsns_of s' = xinsns_of s @ ch \<Longrightarrow> written s r \<Longrightarrow> written s' r"
  by (auto simp: defined_def nth_append intro: less_le_trans)

lemma sel_inv_next_write:
  assumes inv: "sel_inv j n (s, irs)" and wf: "ir_wf j" and n: "n < length (insns_of j)"
    and d: "ir_write (insns_of j ! n) = Some d" "\<not> skipped j (insns_of j ! n)"
    and s': "x_ok s'" "xinsns_of s' = xinsns_of s @ ch" "length (xregs_of s) < length (xregs_of s')"
      "\<forall>r < length (xregs_of s). isConstant (xregs_of s' ! r) = isConstant (xregs_of s ! r)"
      "written s' (length (xregs_of s))"
      "isConstant (xregs_of s' ! length (xregs_of s)) \<longleftrightarrow> (\<exists>t v. insns_of j ! n = IR_MOV_CONST t d v)"
  shows "sel_inv j (Suc n) (s', irs[d := (irs ! d)\<lparr>ir_backend := Some (length (xregs_of s))\<rparr>])"
proof -
  note I = sel_invD [OF inv] and F = write_fresh [OF wf n d(1)]
  let ?p = "length (xregs_of s)"
  let ?irs = "irs[d := (irs ! d)\<lparr>ir_backend := Some ?p\<rparr>]"
  have b: "bk ?irs r = (if r = d then Some ?p else bk irs r)" for r
    using F(2) I(2) by (simp add: nth_list_update)
  have lr: "ir_lastReadIndex (?irs ! r) = ir_lastReadIndex (irs ! r)" for r
    using F(2) I(2) by (simp add: nth_list_update)
  have old: "bk irs r \<noteq> Some ?p" if "r < length (regs_of j)" for r using I(5) [OF that] by blast
  show ?thesis
    unfolding sel_inv_def prod.case
  proof (intro conjI allI impI)
    show "x_ok s'" "length ?irs = length (regs_of j)" using s'(1) I(2) by simp_all
    fix r assume "r < length ?irs"
    then have r: "r < length (regs_of j)" using I(2) by simp
    show "ir_lastReadIndex (?irs ! r) = ir_lastReadIndex (regs_of j ! r)" using I(3) [OF r] lr by simp
    show "(bk ?irs r \<noteq> None) = emitted j (Suc n) r"
      using I(4) [OF r] d F unfolding b emitted_Suc [OF n] by auto
    fix p assume p: "bk ?irs r = Some p"
    show "p < length (xregs_of s')" using p I(5) [OF r] s'(3) by (fastforce simp: b split: if_splits)
    show "written s' p" using p I(6) [OF r] s'(5) written_mono [OF s'(2)] by (auto simp: b split: if_splits)
    show "isConstant (xregs_of s' ! p) = is_const (insns_of j) r"
      using p I(5,7) [OF r] s'(4,6) is_const_written [OF wf n d(1)] by (auto simp: b split: if_splits)
    show "q = r" if "q < length ?irs" "bk ?irs q = Some p" for q
    proof -
      have q: "q < length (regs_of j)" using that(1) I(2) by simp
      show ?thesis using that(2) p I(8) [OF r q] old [OF r] old [OF q] unfolding b by (metis option.inject)
    qed
  qed
qed

lemma sel_inv_next_none:
  assumes inv: "sel_inv j n (s, irs)" and n: "n < length (insns_of j)"
    and d: "ir_write (insns_of j ! n) = None \<or> skipped j (insns_of j ! n)"
    and s': "x_ok s'" "xinsns_of s' = xinsns_of s @ ch" "length (xregs_of s) = length (xregs_of s')"
      "\<forall>r < length (xregs_of s). isConstant (xregs_of s' ! r) = isConstant (xregs_of s ! r)"
  shows "sel_inv j (Suc n) (s', irs)"
proof -
  note I = sel_invD [OF inv]
  have e: "emitted j (Suc n) r = emitted j n r" for r using d unfolding emitted_Suc [OF n] by auto
  show ?thesis
    unfolding sel_inv_def prod.case I(2) e s'(3) [symmetric]
  proof (intro conjI allI impI)
    fix r assume r: "r < length (regs_of j)"
    show "ir_lastReadIndex (irs ! r) = ir_lastReadIndex (regs_of j ! r)" by (rule I(3) [OF r])
    show "(bk irs r \<noteq> None) = emitted j n r" by (rule I(4) [OF r])
    fix p assume p: "bk irs r = Some p"
    show "p < length (xregs_of s)" by (rule I(5) [OF r p])
    show "written s' p" by (rule written_mono [OF s'(2) I(6) [OF r p]])
    show "isConstant (xregs_of s' ! p) = is_const (insns_of j) r" using s'(4) I(5,7) [OF r p] by simp
    show "q = r" if "q < length (regs_of j)" "bk irs q = Some p" for q by (rule I(8) [OF r that(1) p that(2)])
  qed (use s'(1) in simp_all)
qed


abbreviation host_reg :: "irRegister list \<Rightarrow> nat \<Rightarrow> nat" where "host_reg irs r \<equiv> the (bk irs r)"

lemma operand:
  assumes inv: "sel_inv j n (s, irs)" and wf: "ir_wf j" and n: "n < length (insns_of j)"
    and r: "r \<in> set (ir_reads (insns_of j ! n))"
  shows "bk irs r = Some (host_reg irs r)" "written s (host_reg irs r)" "host_reg irs r < length (xregs_of s)"
proof -
  note E = reads_emitted [OF wf n r] and I = sel_invD [OF inv]
  show b: "bk irs r = Some (host_reg irs r)" using I(4) [OF E(2)] E(1) by auto
  show "written s (host_reg irs r)" "host_reg irs r < length (xregs_of s)" using I(5,6) [OF E(2) b] by auto
qed

lemma operand_dst:
  assumes wf: "ir_wf j" and n: "n < length (insns_of j)" and d: "ir_write (insns_of j ! n) = Some d"
    and r: "r \<in> set (ir_reads (insns_of j ! n))"
  shows "r \<noteq> d"
  using reads_emitted(1) [OF wf n r] write_fresh(1) [OF wf n d] by blast

lemma alloc_dst:
  assumes inv: "sel_inv j n (s, irs)" and wf: "ir_wf j" and n: "n < length (insns_of j)"
    and d: "ir_write (insns_of j ! n) = Some d"
    and a: "x86_allocateRegister (Some d) (s, irs) = Some (p, s1, irs1)"
  shows "p = length (xregs_of s)" "xregs_of s1 = xregs_of s @ [new_xreg s]" "xinsns_of s1 = xinsns_of s" "x_ok s1"
    "irs1 = irs[d := (irs ! d)\<lparr>ir_backend := Some (length (xregs_of s))\<rparr>]" "bk irs1 d = Some (length (xregs_of s))"
    "\<And>r. r \<noteq> d \<Longrightarrow> bk irs1 r = bk irs r"
proof -
  note I = sel_invD [OF inv] and F = write_fresh [OF wf n d]
  have "bk irs d = None" using I(4) [OF F(2)] F(1) by auto
  with x_alloc_new [OF I(1) a] show
    "p = length (xregs_of s)" "xregs_of s1 = xregs_of s @ [new_xreg s]" "xinsns_of s1 = xinsns_of s" "x_ok s1"
    and e: "irs1 = irs[d := (irs ! d)\<lparr>ir_backend := Some (length (xregs_of s))\<rparr>]" by auto
  show "bk irs1 d = Some (length (xregs_of s))" "\<And>r. r \<noteq> d \<Longrightarrow> bk irs1 r = bk irs r"
    using F(2) I(2) by (auto simp: e)
qed

lemma not_written_new: "x_ok s \<Longrightarrow> length (xregs_of s) \<le> p \<Longrightarrow> \<not> written s p"
  using defined_bound by (fastforce simp: x_ok_def)

text \<open>An instruction that becomes one host instruction with a destination.\<close>

lemma sel_one_write:
  assumes inv: "sel_inv j n (s, irs)" and wf: "ir_wf j" and n: "n < length (insns_of j)"
    and d: "ir_write (insns_of j ! n) = Some d" "\<not> skipped j (insns_of j ! n)"
    and a: "x86_allocateRegister (Some d) (s, irs) = Some (p, s1, irs1)"
    and push: "x86_push_insn xi (fold x86_mark_read rs s1) = Some s'"
    and xi: "set rs = set (x_reads xi)" "x_write xi = Some p" "x_params xi = 4"
    and rs: "\<forall>q \<in> set rs. \<exists>r \<in> set (ir_reads (insns_of j ! n)). q = host_reg irs r"
    and k: "\<not> (\<exists>t v. insns_of j ! n = IR_MOV_CONST t d v)"
  shows "sel_inv j (Suc n) (s', irs1) \<and> xinsns_of s' = xinsns_of s @ [xi]"
proof -
  note I = sel_invD [OF inv] and A = alloc_dst [OF inv wf n d(1) a]
  have rd: "\<forall>q \<in> set rs. written s1 q" using rs operand(2) [OF inv wf n] by (auto simp: A(3))
  have wr: "\<forall>q. x_write xi = Some q \<longrightarrow> q < length (xregs_of s1) \<and> \<not> written s1 q"
    using xi(2) not_written_new [OF I(1)] by (auto simp: A(1,2,3))
  note P = x_push [OF A(4) push xi(1,3) rd wr]
  have "sel_inv j (Suc n) (s', irs1)"
    unfolding A(5)
  proof (rule sel_inv_next_write [OF inv wf n d, of s' "[xi]"])
    show "written s' (length (xregs_of s))"
      using P xi(2) A(1,3) by (auto simp: defined_snoc)
  qed (use P k in \<open>auto simp: A(2,3) nth_append new_xreg_def\<close>)
  then show ?thesis using P A(3) by simp
qed

lemma sel_one_none:
  assumes inv: "sel_inv j n (s, irs)" and wf: "ir_wf j" and n: "n < length (insns_of j)"
    and d: "ir_write (insns_of j ! n) = None"
    and push: "x86_push_insn xi (fold x86_mark_read rs s) = Some s'"
    and xi: "set rs = set (x_reads xi)" "x_write xi = None" "x_params xi = 4"
    and rs: "\<forall>q \<in> set rs. \<exists>r \<in> set (ir_reads (insns_of j ! n)). q = host_reg irs r"
  shows "sel_inv j (Suc n) (s', irs) \<and> xinsns_of s' = xinsns_of s @ [xi]"
proof -
  note I = sel_invD [OF inv]
  have rd: "\<forall>q \<in> set rs. written s q" using rs operand(2) [OF inv wf n] by auto
  have P: "x_ok s' \<and> xinsns_of s' = xinsns_of s @ [xi] \<and> length (xregs_of s') = length (xregs_of s) \<and>
     (\<forall>r < length (xregs_of s). isConstant (xregs_of s' ! r) = isConstant (xregs_of s ! r))"
    by (rule x_push [OF I(1) push xi(1,3) rd]) (simp add: xi(2))
  then have "sel_inv j (Suc n) (s', irs)"
    by (intro sel_inv_next_none [OF inv n, of s' "[xi]"]) (auto simp: d)
  with P show ?thesis by simp
qed


text \<open>The goal of one iteration.\<close>

definition sel_step :: "jitter \<Rightarrow> nat \<Rightarrow> bstate \<Rightarrow> bstate \<Rightarrow> bool" where
  "sel_step j n = (\<lambda>(s, irs) (s', irs'). sel_inv j (Suc n) (s', irs') \<and>
     xinsns_of s' = xinsns_of s @ sel (is_const (insns_of j)) (unread j) (host_reg irs')
       (Suc (length (xregs_of s))) (insns_of j ! n) \<and>
     (\<forall>r. bk irs' r = (if ir_write (insns_of j ! n) = Some r \<and> \<not> skipped j (insns_of j ! n)
        then Some (length (xregs_of s)) else bk irs r)) \<and>
     length (xregs_of s) \<le> length (xregs_of s'))"

lemma x_add_folds:
  "x86_add_load t d a s = x86_push_insn (X86_LOAD t d a) (fold x86_mark_read [a] s)"
  "x86_add_store t x a s = x86_push_insn (X86_STORE t x a) (fold x86_mark_read [a, x] s)"
  "x86_add_binop t b d x y s = x86_push_insn (X86_BINOP t b d x y) (fold x86_mark_read [x, y] s)"
  "x86_add_ite d p x y s = x86_push_insn (X86_ITE d p x y) (fold x86_mark_read [p, x, y] s)"
  "x86_add_cast c d x s = x86_push_insn (X86_CAST c d x) (fold x86_mark_read [x] s)"
  "x86_add_call a ps r s = x86_push_insn (X86_CALL a ps r) (fold x86_mark_read (a # concat (map opt_list ps)) s)"
  "x86_add_read t d off s = x86_push_insn (X86_READ t d off) (fold x86_mark_read [] s)"
  "x86_add_write t x off s = x86_push_insn (X86_WRITE t x off) (fold x86_mark_read [x] s)"
  "x86_add_insn_start_marker v s = x86_push_insn (X86_INSN_MARKER v) (fold x86_mark_read [] s)"
  by (simp_all add: x86_add_load_def x86_add_store_def x86_add_binop_def x86_add_ite_def x86_add_cast_def
      x86_add_call_def x86_add_read_def x86_add_write_def x86_add_insn_start_marker_def x_fold_mark_read_opt)

lemma sel_stepI_write:
  assumes inv: "sel_inv j n (s, irs)" and wf: "ir_wf j" and n: "n < length (insns_of j)"
    and d: "ir_write (insns_of j ! n) = Some d" "\<not> skipped j (insns_of j ! n)"
    and a: "x86_allocateRegister (Some d) (s, irs) = Some (p, s1, irs1)"
    and push: "x86_push_insn xi (fold x86_mark_read rs s1) = Some s'"
    and xi: "set rs = set (x_reads xi)" "x_write xi = Some p" "x_params xi = 4"
    and rs: "\<forall>q \<in> set rs. \<exists>r \<in> set (ir_reads (insns_of j ! n)). q = host_reg irs r"
    and k: "\<not> (\<exists>t v. insns_of j ! n = IR_MOV_CONST t d v)"
    and sel: "\<And>m. p = host_reg irs1 d \<Longrightarrow> (\<And>r. r \<in> set (ir_reads (insns_of j ! n)) \<Longrightarrow> host_reg irs r = host_reg irs1 r) \<Longrightarrow>
       sel (is_const (insns_of j)) (unread j) (host_reg irs1) m (insns_of j ! n) = [xi]"
  shows "sel_step j n (s, irs) (s', irs1)"
proof -
  note A = alloc_dst [OF inv wf n d(1) a] and F = write_fresh [OF wf n d(1)] and I = sel_invD [OF inv]
  have S: "sel_inv j (Suc n) (s', irs1)" "xinsns_of s' = xinsns_of s @ [xi]"
    using sel_one_write [OF inv wf n d a push xi rs k] by simp_all
  have "\<forall>r. bk irs1 r = (if ir_write (insns_of j ! n) = Some r \<and> \<not> skipped j (insns_of j ! n)
        then Some (length (xregs_of s)) else bk irs r)"
    using A(6,7) d by auto
  moreover have "length (xregs_of s) < length (xregs_of s')"
    using sel_invD(5) [OF S(1) F(2) A(6)] .
  ultimately show ?thesis
    using S sel A(1,6,7) operand_dst [OF wf n d(1)] by (simp add: sel_step_def)
qed

lemma sel_stepI_none:
  assumes inv: "sel_inv j n (s, irs)" and wf: "ir_wf j" and n: "n < length (insns_of j)"
    and d: "ir_write (insns_of j ! n) = None"
    and push: "x86_push_insn xi (fold x86_mark_read rs s) = Some s'"
    and xi: "set rs = set (x_reads xi)" "x_write xi = None" "x_params xi = 4"
    and rs: "\<forall>q \<in> set rs. \<exists>r \<in> set (ir_reads (insns_of j ! n)). q = host_reg irs r"
    and sel: "\<And>m. sel (is_const (insns_of j)) (unread j) (host_reg irs) m (insns_of j ! n) = [xi]"
  shows "sel_step j n (s, irs) (s', irs)"
proof -
  have "length (xregs_of s') = length (xregs_of s)"
    using push by (auto simp: x86_push_insn_def split: bind_splits)
  then show ?thesis
    using sel_one_none [OF inv wf n d push xi rs] sel d by (simp add: sel_step_def)
qed

lemma operand_alloc:
  assumes "sel_inv j n (s, irs)" "ir_wf j" "n < length (insns_of j)" "r \<in> set (ir_reads (insns_of j ! n))"
  shows "x86_allocateRegister (Some r) (s2, irs) = Some (host_reg irs r, s2, irs)"
  using x_alloc_old [OF operand(1) [OF assms]] .

lemma operand_alloc_dst:
  assumes "sel_inv j n (s, irs)" "ir_wf j" "n < length (insns_of j)" "ir_write (insns_of j ! n) = Some d"
    "x86_allocateRegister (Some d) (s, irs) = Some (p, s1, irs1)" "r \<in> set (ir_reads (insns_of j ! n))"
  shows "x86_allocateRegister (Some r) (s2, irs1) = Some (host_reg irs r, s2, irs1)"
proof -
  have "bk irs1 r = Some (host_reg irs r)"
    using operand(1) [OF assms(1,2,3,6)] alloc_dst(7) [OF assms(1-5), of r] operand_dst [OF assms(2,3,4,6)] by simp
  then show ?thesis by (rule x_alloc_old)
qed

lemma alloc_params_operands:
  assumes "\<And>r s2. r \<in> set (concat (map opt_list ps)) \<Longrightarrow> x86_allocateRegister (Some r) (s2, irs) = Some (f r, s2, irs)"
  shows "alloc_params ps (s, irs) = Some (map (map_option f) ps, s, irs)"
  using assms
proof (induction ps)
  case (Cons p ps)
  then show ?case by (cases p) simp_all
qed simp

lemma step_mov_const:
  assumes inv: "sel_inv j n (s, irs)" and wf: "ir_wf j" and n: "n < length (insns_of j)"
    and i: "insns_of j ! n = IR_MOV_CONST t d v" and st: "allocateInstruction (insns_of j ! n) (s, irs) = Some (s', irs')"
  shows "sel_step j n (s, irs) (s', irs')"
proof -
  have d: "ir_write (insns_of j ! n) = Some d" "\<not> skipped j (insns_of j ! n)" using i by simp_all
  from st i obtain p s1 where a: "x86_allocateRegister (Some d) (s, irs) = Some (p, s1, irs')"
    and add: "x86_add_mov_const p v s1 = Some s'" by (auto split: bind_splits)
  note A = alloc_dst [OF inv wf n d(1) a] and F = write_fresh [OF wf n d(1)] and I = sel_invD [OF inv]
  let ?s2 = "s1\<lparr>x_registerPool := pool_update p (\<lambda>x. x\<lparr>isConstant := True\<rparr>) (x_registerPool s1)\<rparr>"
  have regs2: "xregs_of ?s2 = xregs_of s @ [(new_xreg s)\<lparr>isConstant := True\<rparr>]"
    by (simp add: pool_update_def A(1,2))
  have ok2: "x_ok ?s2"
    using x_wf_addreg [of "xregs_of s" "xinsns_of s" "(new_xreg s)\<lparr>isConstant := True\<rparr>"] I(1) A(3,4)
    unfolding x_ok_def regs2 by (simp add: new_xreg_def)
  have push: "x86_push_insn (X86_MOV_CONST p v) (fold x86_mark_read [] ?s2) = Some s'"
    using add by (simp add: x86_add_mov_const_def)
  have P: "x_ok s' \<and> xinsns_of s' = xinsns_of s @ [X86_MOV_CONST p v] \<and> length (xregs_of s') = Suc (length (xregs_of s)) \<and>
     (\<forall>r < Suc (length (xregs_of s)). isConstant (xregs_of s' ! r) = isConstant (xregs_of ?s2 ! r))"
    using x_push [OF ok2 push] not_written_new [OF I(1), of p] unfolding regs2 by (simp add: A(1,3))
  have "sel_inv j (Suc n) (s', irs')"
    unfolding A(5)
  proof (rule sel_inv_next_write [OF inv wf n d, of s' "[X86_MOV_CONST p v]"])
    show "written s' (length (xregs_of s))" using P A(1) by (auto simp: defined_snoc)
  qed (use P i in \<open>simp_all only: regs2, auto simp: nth_append\<close>)
  moreover have "\<forall>r. bk irs' r = (if ir_write (insns_of j ! n) = Some r \<and> \<not> skipped j (insns_of j ! n)
        then Some (length (xregs_of s)) else bk irs r)"
    using A(6,7) d by auto
  ultimately show ?thesis using P A(1,6) i by (simp add: sel_step_def)
qed

lemma step_exit:
  assumes inv: "sel_inv j n (s, irs)" and wf: "ir_wf j" and n: "n < length (insns_of j)"
    and i: "insns_of j ! n = IR_EXIT v p" and st: "allocateInstruction (insns_of j ! n) (s, irs) = Some (s', irs')"
  shows "sel_step j n (s, irs) (s', irs')"
proof -
  note op = operand_alloc [OF inv wf n, unfolded i]
  let ?v = "host_reg irs v" and ?p = "map_option (host_reg irs) p"
  have v: "v < length (regs_of j)" "bk irs v = Some ?v"
    using reads_emitted(2) [OF wf n, of v] operand(1) [OF inv wf n, of v] i by simp_all
  have "irs' = irs" "x86_add_exit ?v ?p s = Some s'"
    using st op [of v] op [of "the p"] unfolding i by (cases p; auto split: bind_splits)+
  moreover have "isConstant (xregs_of (fold x86_mark_read (?v # opt_list ?p) s) ! ?v) = is_const (insns_of j) v"
    using sel_invD(5,7) [OF inv v] by (subst x_fold_mark_read_nth) auto
  ultimately have irs: "irs' = irs" and push: "x86_push_insn (X86_EXIT ?v ?p (is_const (insns_of j) v)) (fold x86_mark_read (?v # opt_list ?p) s) = Some s'"
    by (auto simp: x86_add_exit_def Let_def x86_mark_read_opt_def split: option.splits)
  show ?thesis
    unfolding irs
    by (rule sel_stepI_none [OF inv wf n _ push]) (use i in \<open>auto simp: opt_list_def split: option.splits\<close>)
qed

lemma step_call:
  assumes inv: "sel_inv j n (s, irs)" and wf: "ir_wf j" and n: "n < length (insns_of j)"
    and i: "insns_of j ! n = IR_CALL t nm a ps r" and st: "allocateInstruction (insns_of j ! n) (s, irs) = Some (s', irs')"
  shows "sel_step j n (s, irs) (s', irs')"
proof -
  have len: "length ps = 4" using ir_wf_insnD(5) [OF wf n] i by simp
  let ?ps = "map (map_option (host_reg irs)) ps"
  have params: "alloc_params ps (s, irs) = Some (?ps, s, irs)"
    by (rule alloc_params_operands) (use operand_alloc [OF inv wf n] i in auto)
  have rs: "\<forall>q \<in> set (host_reg irs a # concat (map opt_list ?ps)). \<exists>r \<in> set (ir_reads (insns_of j ! n)). q = host_reg irs r"
    using i by (auto simp: opt_list_def split: option.splits)
  show ?thesis
  proof (cases r)
    case None
    have irs: "irs' = irs" and add: "x86_add_call (host_reg irs a) ?ps None s = Some s'"
      using st operand_alloc [OF inv wf n, of a] None unfolding i by (auto simp: params split: bind_splits)
    show ?thesis
      unfolding irs by (rule sel_stepI_none [OF inv wf n _ add [unfolded x_add_folds] _ _ _ rs]) (use i len None in auto)
  next
    case (Some d)
    have d: "ir_write (insns_of j ! n) = Some d" "\<not> skipped j (insns_of j ! n)" using i Some by simp_all
    from st i Some obtain p s1 irs1 where a1: "x86_allocateRegister (Some d) (s, irs) = Some (p, s1, irs1)"
      and r1: "do { (address, s, irs) \<leftarrow> x86_allocateRegister (Some a) (s1, irs1);
         s \<leftarrow> x86_add_call address ?ps (Some p) s; Some (s, irs) } = Some (s', irs')"
      by (auto simp: params split: bind_splits)
    then have "irs' = irs1" "x86_add_call (host_reg irs a) ?ps (Some p) s1 = Some s'"
      using operand_alloc_dst [OF inv wf n d(1) a1, of a] i by (auto split: bind_splits)
    then have irs: "irs' = irs1" and push: "x86_push_insn (X86_CALL (host_reg irs a) ?ps (Some p))
        (fold x86_mark_read (host_reg irs a # concat (map opt_list ?ps)) s1) = Some s'" by (simp_all add: x_add_folds)
    show ?thesis
      unfolding irs
    proof (rule sel_stepI_write [OF inv wf n d a1 push _ _ _ rs])
      fix m assume p: "p = host_reg irs1 d" and e: "\<And>r. r \<in> set (ir_reads (insns_of j ! n)) \<Longrightarrow> host_reg irs r = host_reg irs1 r"
      have "?ps = map (map_option (host_reg irs1)) ps"
        using e i by (auto simp: opt_list_def intro!: option.map_cong)
      then show "sel (is_const (insns_of j)) (unread j) (host_reg irs1) m (insns_of j ! n) = [X86_CALL (host_reg irs a) ?ps (Some p)]"
        using p e [of a] i Some by simp
    qed (use i Some len in auto)
  qed
qed

lemma step_read:
  assumes inv: "sel_inv j n (s, irs)" and wf: "ir_wf j" and n: "n < length (insns_of j)"
    and i: "insns_of j ! n = IR_READ t d off" and st: "allocateInstruction (insns_of j ! n) (s, irs) = Some (s', irs')"
  shows "sel_step j n (s, irs) (s', irs')"
proof -
  have b: "d < length (regs_of j)" using ir_wf_insnD(1) [OF wf n, of d] i by simp
  have u: "unread j d \<longleftrightarrow> ir_lastReadIndex (irs ! d) = -1" using sel_invD(3) [OF inv b] by (simp add: unread_def)
  show ?thesis
  proof (cases "unread j d")
    case True
    then have "s' = s" "irs' = irs" using st i u by simp_all
    then show ?thesis
      using sel_inv_next_none [OF inv n, of s "[]"] sel_invD(1) [OF inv] True i by (simp add: sel_step_def)
  next
    case False
    then obtain p s1 where a: "x86_allocateRegister (Some d) (s, irs) = Some (p, s1, irs')"
      and push: "x86_push_insn (X86_READ t p off) (fold x86_mark_read [] s1) = Some s'"
      using st i u by (auto simp: x_add_folds split: bind_splits)
    show ?thesis
      by (rule sel_stepI_write [OF inv wf n _ _ a push]) (use i False in auto)
  qed
qed

text \<open>The remaining single instructions.\<close>

lemma step_simple:
  assumes inv: "sel_inv j n (s, irs)" and wf: "ir_wf j" and n: "n < length (insns_of j)"
    and d: "ir_write (insns_of j ! n) = Some d" "\<not> skipped j (insns_of j ! n)"
      "\<not> (\<exists>t v. insns_of j ! n = IR_MOV_CONST t d v)"
    and a: "x86_allocateRegister (Some d) (s, irs) = Some (p, s1, irs1)"
    and push: "x86_push_insn (f p (host_reg irs)) (fold x86_mark_read (map (host_reg irs) (ir_reads (insns_of j ! n))) s1) = Some s'"
    and f: "\<And>p g. x_reads (f p g) = map g (ir_reads (insns_of j ! n))" "\<And>p g. x_write (f p g) = Some p" "\<And>p g. x_params (f p g) = 4"
      "\<And>g h. (\<And>r. r \<in> set (ir_reads (insns_of j ! n)) \<Longrightarrow> g r = h r) \<Longrightarrow> f p g = f p h"
      "\<And>m g. sel (is_const (insns_of j)) (unread j) g m (insns_of j ! n) = [f (g d) g]"
  shows "sel_step j n (s, irs) (s', irs1)"
proof (rule sel_stepI_write [OF inv wf n d(1,2) a push _ _ _ _ d(3)])
  fix m assume p: "p = host_reg irs1 d" and e: "\<And>r. r \<in> set (ir_reads (insns_of j ! n)) \<Longrightarrow> host_reg irs r = host_reg irs1 r"
  show "sel (is_const (insns_of j)) (unread j) (host_reg irs1) m (insns_of j ! n) = [f p (host_reg irs)]"
    using f(4) [of "host_reg irs" "host_reg irs1"] e p f(5) by simp
qed (auto simp: f(1-3))

lemma step_binop:
  assumes inv: "sel_inv j n (s, irs)" and wf: "ir_wf j" and n: "n < length (insns_of j)"
    and i: "insns_of j ! n = IR_BINOP b t d x y" and na: "b \<noteq> IR_BINOP_ASR \<or> asr_shift t = 0"
    and st: "allocateInstruction (insns_of j ! n) (s, irs) = Some (s', irs')"
  shows "sel_step j n (s, irs) (s', irs')"
proof -
  have d: "ir_write (insns_of j ! n) = Some d" "\<not> skipped j (insns_of j ! n)" using i by simp_all
  from st i obtain p s1 irs1 where a: "x86_allocateRegister (Some d) (s, irs) = Some (p, s1, irs1)"
    by (auto split: bind_splits)
  note op = operand_alloc_dst [OF inv wf n d(1) a]
  have "irs' = irs1" "x86_push_insn (X86_BINOP t (binop_of b) p (host_reg irs x) (host_reg irs y))
     (fold x86_mark_read (map (host_reg irs) (ir_reads (insns_of j ! n))) s1) = Some s'"
    using st i a op [of x] op [of y] na by (auto simp: x_add_folds split: bind_splits if_splits)
  then show ?thesis
    using step_simple [OF inv wf n d _ a, of "\<lambda>p g. X86_BINOP t (binop_of b) p (g x) (g y)"] i na by auto
qed

text \<open>A temporary that is allocated and written by the next host instruction.\<close>

lemma tmp_mov_const:
  assumes ok: "x_ok s" and a: "x86_allocateRegister None (s, irs) = Some (q, t, irs1)"
    and add: "x86_add_mov_const q v t = Some s'"
  shows "irs1 = irs \<and> q = length (xregs_of s) \<and> x_ok s' \<and> xinsns_of s' = xinsns_of s @ [X86_MOV_CONST q v] \<and>
    length (xregs_of s') = Suc (length (xregs_of s)) \<and>
    (\<forall>r < length (xregs_of s). isConstant (xregs_of s' ! r) = isConstant (xregs_of s ! r))"
proof -
  note A = x_alloc_new [OF ok a, simplified]
  let ?s2 = "t\<lparr>x_registerPool := pool_update q (\<lambda>x. x\<lparr>isConstant := True\<rparr>) (x_registerPool t)\<rparr>"
  have regs2: "xregs_of ?s2 = xregs_of s @ [(new_xreg s)\<lparr>isConstant := True\<rparr>]"
    using A by (simp add: pool_update_def)
  have ok2: "x_ok ?s2"
    using x_wf_addreg [of "xregs_of s" "xinsns_of s" "(new_xreg s)\<lparr>isConstant := True\<rparr>"] ok A
    unfolding x_ok_def regs2 by (simp add: new_xreg_def)
  have push: "x86_push_insn (X86_MOV_CONST q v) (fold x86_mark_read [] ?s2) = Some s'"
    using add by (simp add: x86_add_mov_const_def)
  show ?thesis
    using x_push [OF ok2 push] not_written_new [OF ok, of q] A unfolding regs2 by (auto simp: nth_append)
qed

lemma tmp_binop:
  assumes ok: "x_ok s" and a: "x86_allocateRegister None (s, irs) = Some (q, t, irs1)"
    and add: "x86_add_binop ty b q x y t = Some s'" and w: "written s x" "written s y"
  shows "irs1 = irs \<and> q = length (xregs_of s) \<and> x_ok s' \<and> xinsns_of s' = xinsns_of s @ [X86_BINOP ty b q x y] \<and>
    length (xregs_of s') = Suc (length (xregs_of s)) \<and>
    (\<forall>r < length (xregs_of s). isConstant (xregs_of s' ! r) = isConstant (xregs_of s ! r))"
proof -
  note A = x_alloc_new [OF ok a, simplified]
  have "x_ok t" using A by simp
  from x_push [OF this add [unfolded x_add_folds]] not_written_new [OF ok, of q] A w
  show ?thesis by (auto simp: nth_append)
qed

lemma step_asr:
  assumes inv: "sel_inv j n (s, irs)" and wf: "ir_wf j" and n: "n < length (insns_of j)"
    and i: "insns_of j ! n = IR_BINOP IR_BINOP_ASR t d x y" and na: "asr_shift t \<noteq> 0"
    and st: "allocateInstruction (insns_of j ! n) (s, irs) = Some (s', irs')"
  shows "sel_step j n (s, irs) (s', irs')"
proof -
  let ?m = "length (xregs_of s)" and ?x = "host_reg irs x" and ?y = "host_reg irs y"
  have d: "ir_write (insns_of j ! n) = Some d" "\<not> skipped j (insns_of j ! n)" using i by simp_all
  from st i obtain p s1 irs1 where a: "x86_allocateRegister (Some d) (s, irs) = Some (p, s1, irs1)"
    by (auto split: bind_splits)
  note op = operand_alloc_dst [OF inv wf n d(1) a] and A = alloc_dst [OF inv wf n d(1) a]
    and I = sel_invD [OF inv] and F = write_fresh [OF wf n d(1)]
  have rw: "written s ?x" "written s ?y" "?x < ?m" "?y < ?m"
    using operand(2,3) [OF inv wf n, of x] operand(2,3) [OF inv wf n, of y] i by simp_all
  have opx: "x86_allocateRegister (Some x) (s1, irs1) = Some (?x, s1, irs1)"
    "x86_allocateRegister (Some y) (s1, irs1) = Some (?y, s1, irs1)" using op [of x s1] op [of y s1] i by simp_all
  from st obtain q0 t1 i1 s2 q1 t2 i2 s3 q2 t3 s4 where
    a0: "x86_allocateRegister None (s1, irs1) = Some (q0, t1, i1)" and p0: "x86_add_mov_const q0 (asr_shift t) t1 = Some s2"
    and a1: "x86_allocateRegister None (s2, i1) = Some (q1, t2, i2)"
    and p1: "x86_add_binop IR_REG_64 X86_BINOP_SHL q1 ?x q0 t2 = Some s3"
    and a2: "x86_allocateRegister None (s3, i2) = Some (q2, t3, irs')"
    and p2: "x86_add_binop IR_REG_64 X86_BINOP_ASR q2 q1 q0 t3 = Some s4"
    and p3: "x86_add_binop t X86_BINOP_ASR p q2 ?y s4 = Some s'"
    unfolding i allocateInstruction.simps a opx using na by (auto simp: a opx split: bind_splits)
  note E0 = tmp_mov_const [OF A(4) a0 p0]
  have ok2: "x_ok s2" and w2: "written s2 ?x" "written s2 q0"
    using E0 A(3) rw(1) written_mono [of s2 s1] by (auto simp: defined_snoc)
  note E1 = tmp_binop [OF ok2 a1 p1 w2]
  have ok3: "x_ok s3" and w3: "written s3 q1" "written s3 q0"
    using E1 w2 written_mono [of s3 s2] by (auto simp: defined_snoc)
  note E2 = tmp_binop [OF ok3 a2 p2 w3]
  have insns4: "xinsns_of s4 = xinsns_of s @ [X86_MOV_CONST q0 (asr_shift t), X86_BINOP IR_REG_64 X86_BINOP_SHL q1 ?x q0,
     X86_BINOP IR_REG_64 X86_BINOP_ASR q2 q1 q0]"
    using E0 E1 E2 A(3) by simp
  have q: "p = ?m" "q0 = Suc ?m" "q1 = ?m + 2" "q2 = ?m + 3" "length (xregs_of s4) = ?m + 4"
    using E0 E1 E2 A(1,2) by auto
  have w4: "written s4 q2" "written s4 ?y" "\<not> written s4 p"
  proof -
    show "written s4 q2" using E2 by (auto simp: defined_snoc)
    show "written s4 ?y" by (rule written_mono [OF insns4 rw(2)])
    have "\<not> written s p" using not_written_new [OF I(1), of p] q(1) by simp
    then show "\<not> written s4 p" using insns4 q by (auto simp: defined_def nth_append nth_Cons split: nat.splits if_splits)
  qed
  have P: "x_ok s' \<and> xinsns_of s' = xinsns_of s4 @ [X86_BINOP t X86_BINOP_ASR p q2 ?y] \<and>
    length (xregs_of s') = ?m + 4 \<and> (\<forall>r < ?m + 4. isConstant (xregs_of s' ! r) = isConstant (xregs_of s4 ! r))"
    using x_push [OF _ p3 [unfolded x_add_folds]] E2 w4 q by auto
  have con: "isConstant (xregs_of s' ! r) = isConstant (xregs_of s1 ! r)" if "r < Suc ?m" for r
    using that E0 E1 E2 P A(2) by simp
  have irs: "irs' = irs1" using E0 E1 E2 by simp
  have "sel_inv j (Suc n) (s', irs1)"
    unfolding A(5)
  proof (rule sel_inv_next_write [OF inv wf n d])
    show "xinsns_of s' = xinsns_of s @ [X86_MOV_CONST q0 (asr_shift t), X86_BINOP IR_REG_64 X86_BINOP_SHL q1 ?x q0,
     X86_BINOP IR_REG_64 X86_BINOP_ASR q2 q1 q0, X86_BINOP t X86_BINOP_ASR p q2 ?y]" using P insns4 by simp
    show "written s' ?m" using P q(1) by (auto simp: defined_snoc)
  qed (use P i con in \<open>auto simp: A(2) nth_append new_xreg_def\<close>)
  moreover have "\<forall>r. bk irs1 r = (if ir_write (insns_of j ! n) = Some r \<and> \<not> skipped j (insns_of j ! n)
        then Some (length (xregs_of s)) else bk irs r)"
    using A(6,7) d by auto
  moreover have "host_reg irs1 x = ?x" "host_reg irs1 y = ?y"
    using A(7) [of x] A(7) [of y] operand_dst [OF wf n d(1), of x] operand_dst [OF wf n d(1), of y] i by auto
  ultimately show ?thesis using P insns4 q A(6) i na irs by (simp add: sel_step_def)
qed

lemma allocateInstruction_step:
  assumes inv: "sel_inv j n (s, irs)" and wf: "ir_wf j" and n: "n < length (insns_of j)"
    and st: "allocateInstruction (insns_of j ! n) (s, irs) = Some (s', irs')"
  shows "sel_step j n (s, irs) (s', irs')"
proof (cases "insns_of j ! n")
  case (IR_MOV_CONST t d v)
  then show ?thesis using step_mov_const [OF inv wf n _ st] by blast
next
  case i: (IR_LOAD t d x)
  then have d: "ir_write (insns_of j ! n) = Some d" "\<not> skipped j (insns_of j ! n)" by simp_all
  from st i obtain p s1 irs1 where a: "x86_allocateRegister (Some d) (s, irs) = Some (p, s1, irs1)"
    by (auto split: bind_splits)
  have "irs' = irs1" "x86_push_insn (X86_LOAD t p (host_reg irs x)) (fold x86_mark_read (map (host_reg irs) (ir_reads (insns_of j ! n))) s1) = Some s'"
    using st i a operand_alloc_dst [OF inv wf n d(1) a, of x] by (auto simp: x_add_folds split: bind_splits)
  then show ?thesis using step_simple [OF inv wf n d _ a, of "\<lambda>p g. X86_LOAD t p (g x)"] i by auto
next
  case i: (IR_STORE t x a)
  have "irs' = irs" and push: "x86_push_insn (X86_STORE t (host_reg irs x) (host_reg irs a)) (fold x86_mark_read (map (host_reg irs) (ir_reads (insns_of j ! n))) s) = Some s'"
    using st i operand_alloc [OF inv wf n, of x] operand_alloc [OF inv wf n, of a] by (auto simp: x_add_folds split: bind_splits)
  then show ?thesis using sel_stepI_none [OF inv wf n _ push] i by auto
next
  case i: (IR_ITE t d p x y)
  then have d: "ir_write (insns_of j ! n) = Some d" "\<not> skipped j (insns_of j ! n)" by simp_all
  from st i obtain q s1 irs1 where a: "x86_allocateRegister (Some d) (s, irs) = Some (q, s1, irs1)"
    by (auto split: bind_splits)
  note op = operand_alloc_dst [OF inv wf n d(1) a]
  have "irs' = irs1" "x86_push_insn (X86_ITE q (host_reg irs p) (host_reg irs x) (host_reg irs y)) (fold x86_mark_read (map (host_reg irs) (ir_reads (insns_of j ! n))) s1) = Some s'"
    using st i a op [of p] op [of x] op [of y] by (auto simp: x_add_folds split: bind_splits)
  then show ?thesis using step_simple [OF inv wf n d _ a, of "\<lambda>q g. X86_ITE q (g p) (g x) (g y)"] i by auto
next
  case (IR_READ t d off)
  then show ?thesis using step_read [OF inv wf n _ st] by blast
next
  case i: (IR_WRITE t x off)
  have "irs' = irs" and push: "x86_push_insn (X86_WRITE t (host_reg irs x) off) (fold x86_mark_read (map (host_reg irs) (ir_reads (insns_of j ! n))) s) = Some s'"
    using st i operand_alloc [OF inv wf n, of x] by (auto simp: x_add_folds split: bind_splits)
  then show ?thesis using sel_stepI_none [OF inv wf n _ push] i by auto
next
  case (IR_CALL t nm a ps r)
  then show ?thesis using step_call [OF inv wf n _ st] by blast
next
  case (IR_BINOP b t d x y)
  then show ?thesis using step_binop [OF inv wf n _ _ st] step_asr [OF inv wf n _ _ st] by (metis (full_types))
next
  case i: (IR_CAST c d x)
  then have d: "ir_write (insns_of j ! n) = Some d" "\<not> skipped j (insns_of j ! n)" by simp_all
  from st i obtain p s1 irs1 where a: "x86_allocateRegister (Some d) (s, irs) = Some (p, s1, irs1)"
    by (auto split: bind_splits)
  have "irs' = irs1" "x86_push_insn (X86_CAST c p (host_reg irs x)) (fold x86_mark_read (map (host_reg irs) (ir_reads (insns_of j ! n))) s1) = Some s'"
    using st i a operand_alloc_dst [OF inv wf n d(1) a, of x] by (auto simp: x_add_folds split: bind_splits)
  then show ?thesis using step_simple [OF inv wf n d _ a, of "\<lambda>p g. X86_CAST c p (g x)"] i by auto
next
  case (IR_EXIT v p)
  then show ?thesis using step_exit [OF inv wf n _ st] by blast
next
  case i: (IR_INSN_MARKER v)
  have "irs' = irs" and push: "x86_push_insn (X86_INSN_MARKER v) (fold x86_mark_read (map (host_reg irs) (ir_reads (insns_of j ! n))) s) = Some s'"
    using st i by (auto simp: x_add_folds split: bind_splits)
  then show ?thesis using sel_stepI_none [OF inv wf n _ push] i by auto
qed

end
