(* ===== verification/Be_Select_Sem.thy ===== *)
theory Be_Select_Sem
  imports Be_Select_Wf
begin

text \<open>
  Correctness of the first pass: the meaning of the intermediate code, and the proof that a run of
  the host sequence over virtual registers leaves through the same exit, with the same
  value and memory. The intermediate code has to respect that some host registers hold
  their value only in the low bits; \<open>clean_block\<close> is the check.
\<close>

section \<open>Meaning of the intermediate code\<close>

definition ir_binop :: "irBinopType \<Rightarrow> irRegisterType \<Rightarrow> u64 \<Rightarrow> u64 \<Rightarrow> u64" where
  "ir_binop b t x y = trunc t (case b of
       IR_BINOP_ADD \<Rightarrow> x + y | IR_BINOP_SUB \<Rightarrow> x - y | IR_BINOP_XOR \<Rightarrow> x XOR y
     | IR_BINOP_AND \<Rightarrow> x AND y | IR_BINOP_OR \<Rightarrow> x OR y
     | IR_BINOP_SHL \<Rightarrow> push_bit (unat (y AND 63)) x
     | IR_BINOP_SHR \<Rightarrow> drop_bit (unat (y AND 63)) x
     | IR_BINOP_ASR \<Rightarrow> signed_drop_bit (unat (y AND 63)) (signed_take_bit (type_bits t - 1) x)
     | IR_BINOP_ROR \<Rightarrow> rotr (type_bits t) (unat y) x
     | IR_BINOP_CMPEQ \<Rightarrow> (if x = y then NOT 0 else 0)
     | IR_BINOP_CMPNE \<Rightarrow> (if x \<noteq> y then NOT 0 else 0))"

definition ir_cast :: "irCastType \<Rightarrow> u64 \<Rightarrow> u64" where
  "ir_cast c x = (let (f, t) = cast_types c in
     trunc t (if is_signed_cast c then signed_take_bit (type_bits f - 1) x else trunc f x))"

text \<open>The result of a call has zeros above its type.\<close>

definition extended :: "irRegisterType option \<Rightarrow> u64 \<Rightarrow> bool" where
  "extended t res = (case t of None \<Rightarrow> True | Some t \<Rightarrow> trunc t res = res)"

fun iexec :: "xenv \<Rightarrow> u64 \<Rightarrow> (nat \<Rightarrow> bool) \<Rightarrow> irInstruction \<Rightarrow> (nat \<Rightarrow> u64) \<Rightarrow> memory \<Rightarrow> nat xres option" where
  "iexec E ctx K (IR_MOV_CONST t d v) vals mem = Some (Next (vals(d := trunc t v)) mem)"
| "iexec E ctx K (IR_LOAD t d a) vals mem =
     Some (Next (vals(d := read_mem mem (vals a) (type_bytes t))) mem)"
| "iexec E ctx K (IR_STORE t s a) vals mem = Some (Next vals (write_mem mem (vals a) (type_bytes t) (vals s)))"
| "iexec E ctx K (IR_BINOP b t d x y) vals mem = Some (Next (vals(d := ir_binop b t (vals x) (vals y))) mem)"
| "iexec E ctx K (IR_ITE t d p x y) vals mem = Some (Next (vals(d := if vals p \<noteq> 0 then vals x else vals y)) mem)"
| "iexec E ctx K (IR_CAST c d x) vals mem = Some (Next (vals(d := ir_cast c (vals x))) mem)"
| "iexec E ctx K (IR_EXIT v p) vals mem =
     Some (case p of None \<Rightarrow> Leave (vals v) (K v) mem
           | Some p \<Rightarrow> if vals p = 0 then Next vals mem else Leave (vals v) (K v) mem)"
| "iexec E ctx K (IR_CALL t nm a ps r) vals mem =
     (let n = hlp_arity E (vals a); qs = take n ps in
      if n \<le> length ps \<and> None \<notin> set qs
      then (case hlp_fun E (vals a) ctx (map (\<lambda>p. vals (the p)) qs) mem of (res, mem') \<Rightarrow>
              if hlp_extends E \<and> \<not> extended t res then None
              else Some (Next (case r of None \<Rightarrow> vals
                               | Some r \<Rightarrow> vals(r := (case t of None \<Rightarrow> res | Some t \<Rightarrow> trunc t res))) mem'))
      else None)"
| "iexec E ctx K (IR_READ t d off) vals mem =
     Some (Next (vals(d := read_mem mem (ctx + scast off) (type_bytes t))) mem)"
| "iexec E ctx K (IR_WRITE t s off) vals mem =
     Some (Next vals (write_mem mem (ctx + scast off) (type_bytes t) (vals s)))"
| "iexec E ctx K (IR_INSN_MARKER v) vals mem = Some (Next vals mem)"

fun irun :: "xenv \<Rightarrow> u64 \<Rightarrow> (nat \<Rightarrow> bool) \<Rightarrow> irInstruction list \<Rightarrow> (nat \<Rightarrow> u64) \<Rightarrow> memory \<Rightarrow> nat xres option" where
  "irun E ctx K [] vals mem = Some (Next vals mem)"
| "irun E ctx K (i # is) vals mem = (case iexec E ctx K i vals mem of
       None \<Rightarrow> None
     | Some (Next vals mem) \<Rightarrow> irun E ctx K is vals mem
     | Some (Leave v k mem) \<Rightarrow> Some (Leave v k mem))"

section \<open>Registers whose upper bits are known\<close>

text \<open>
  A host register holds the value of an intermediate register in its low bits. Some instructions
  leave arbitrary bits above the width of the result; some use all 64 bits of an operand.
  \<open>clean_after\<close> computes the registers whose host register is exactly the value, and
  \<open>needs_clean\<close> the operands for which that matters. Where the helpers leave zeros above their results (\<open>Z\<close>), these are known too.
\<close>

fun clean_after :: "bool \<Rightarrow> irInstruction \<Rightarrow> nat set \<Rightarrow> nat set" where
  "clean_after Z (IR_MOV_CONST t d v) C = (if trunc t v = v then insert d C else C)"
| "clean_after Z (IR_LOAD t d a) C = (if t \<in> {IR_REG_32, IR_REG_64} then insert d C else C)"
| "clean_after Z (IR_READ t d off) C = (if t \<in> {IR_REG_32, IR_REG_64} then insert d C else C)"
| "clean_after Z (IR_BINOP b t d x y) C = insert d C"
| "clean_after Z (IR_ITE t d p x y) C = (if x \<in> C \<and> y \<in> C then insert d C else C)"
| "clean_after Z (IR_CAST c d x) C = (if is_signed_cast c \<longrightarrow> snd (cast_types c) = IR_REG_64 then insert d C else C)"
| "clean_after Z (IR_CALL t nm a ps r) C =
     (case r of Some d \<Rightarrow> if Z \<or> t = Some IR_REG_64 then insert d C else C | None \<Rightarrow> C)"
| "clean_after Z _ C = C"

fun needs_clean :: "irRegisterType list \<Rightarrow> irInstruction \<Rightarrow> nat list" where
  "needs_clean ts (IR_LOAD t d a) = [a]"
| "needs_clean ts (IR_STORE t s a) = [a]"
| "needs_clean ts (IR_BINOP b t d x y) =
     (if b \<in> {IR_BINOP_CMPEQ, IR_BINOP_CMPNE} then [x, y] else if b = IR_BINOP_SHR then [x] else [])"
| "needs_clean ts (IR_ITE t d p x y) = [p]"
| "needs_clean ts (IR_CAST c d x) = (if ts ! x = fst (cast_types c) then [] else [x])"
| "needs_clean ts (IR_EXIT v p) = v # opt_list p"
| "needs_clean ts (IR_CALL t nm a ps r) = a # concat (map opt_list ps)"
| "needs_clean ts (IR_WRITE t x off) = (if ts ! x = t then [] else [x])"
| "needs_clean ts _ = []"

fun clean_block :: "bool \<Rightarrow> irRegisterType list \<Rightarrow> nat set \<Rightarrow> irInstruction list \<Rightarrow> bool" where
  "clean_block Z ts C [] = True"
| "clean_block Z ts C (i # is) = (set (needs_clean ts i) \<subseteq> C \<and> clean_block Z ts (clean_after Z i C) is)"

section \<open>Arithmetic on the low bits\<close>

lemma take_bit_add_word: "take_bit n (take_bit n a + take_bit n b) = take_bit n (a + b :: u64)"
  by transfer (simp add: take_bit_take_bit min_def, metis (no_types) take_bit_add take_bit_take_bit min.commute min_def)

lemma take_bit_diff_word: "take_bit n (take_bit n a - take_bit n b) = take_bit n (a - b :: u64)"
  by transfer (simp add: take_bit_take_bit min_def, metis (no_types) take_bit_diff take_bit_take_bit min.commute min_def)

lemma trunc_push_bit: "trunc t (push_bit k (trunc t x)) = trunc t (push_bit k x)"
  unfolding trunc_def by (rule bit_word_eqI) (auto simp: bit_simps)

lemma count_low_mask: "take_bit (type_bits IR_REG_8) (y::u64) AND mask 6 = y AND mask 6"
  by (rule bit_word_eqI) (auto simp: bit_simps)

lemma count_low: "trunc IR_REG_8 y AND 63 = y AND 63"
proof -
  have "(63::u64) = mask 6" by (simp add: mask_eq_exp_minus_1)
  then show ?thesis unfolding trunc_def by (metis (no_types) count_low_mask)
qed

lemma signed_trunc: "signed_take_bit (type_bits t - 1) (trunc t x) = signed_take_bit (type_bits t - 1) x"
  unfolding trunc_def by (rule bit_word_eqI; cases t) (auto simp: bit_simps min_def)

lemma rotr_low: "rotr (type_bits t) (shift_count t y) x = rotr (type_bits t) (unat (trunc IR_REG_8 y)) (trunc t x)"
proof -
  have m: "(63::u64) = mask 6" "(31::u64) = mask 5" by (simp_all add: mask_eq_exp_minus_1)
  have u: "unat (y AND mask k) = unat y mod 2 ^ k" for k
    by (metis take_bit_eq_mask unsigned_take_bit_eq take_bit_nat_def)
  have t8: "unat (trunc IR_REG_8 y) = unat y mod 256" using u [of 8] by (simp add: trunc_def take_bit_eq_mask)
  have "shift_count t y mod type_bits t = unat (trunc IR_REG_8 y) mod type_bits t"
    by (cases t) (simp_all add: shift_count_def m u t8 mod_mod_cancel)
  then show ?thesis by (simp add: rotr_def trunc_def)
qed

text \<open>The host operation on registers that agree in the low bits.\<close>

definition agrees :: "irRegisterType \<Rightarrow> bool \<Rightarrow> u64 \<Rightarrow> u64 \<Rightarrow> bool" where
  "agrees t c x v \<longleftrightarrow> trunc t x = v \<and> (c \<longrightarrow> x = v)"

lemma trunc_binop_val [simp]: "trunc t (binop_val t b x y) = binop_val t b x y"
  by (simp add: binop_val_def)

lemma binop_val_agrees:
  assumes b: "b \<noteq> IR_BINOP_ASR \<or> t = IR_REG_64"
    and x: "trunc t x = x'" and y: "trunc (if b \<in> {IR_BINOP_SHL, IR_BINOP_SHR, IR_BINOP_ASR, IR_BINOP_ROR} then IR_REG_8 else t) y = y'"
    and c: "b \<in> {IR_BINOP_CMPEQ, IR_BINOP_CMPNE} \<Longrightarrow> x = x' \<and> y = y'" "b = IR_BINOP_SHR \<Longrightarrow> x = x'"
  shows "binop_val t (binop_of b) x y = ir_binop b t x' y'"
proof (cases b)
  case IR_BINOP_SHL
  then show ?thesis using x y count_low [of y] trunc_push_bit [of t _ x] by (auto simp: binop_val_def ir_binop_def)
next
  case IR_BINOP_SHR
  then show ?thesis using c y count_low [of y] by (auto simp: binop_val_def ir_binop_def)
next
  case IR_BINOP_ASR
  then show ?thesis using b x y count_low [of y] by (auto simp: binop_val_def ir_binop_def signed_take_bit_63)
next
  case IR_BINOP_ROR
  then show ?thesis using x y by (auto simp: binop_val_def ir_binop_def rotr_low)
qed (use x y c in \<open>auto simp: binop_val_def ir_binop_def trunc_def take_bit_add_word take_bit_diff_word\<close>)

lemma asr_chain:
  assumes "asr_shift t \<noteq> 0" "trunc t x = x'" "trunc IR_REG_8 y = y'"
  shows "binop_val t X86_BINOP_ASR (binop_val IR_REG_64 X86_BINOP_ASR (binop_val IR_REG_64 X86_BINOP_SHL x (asr_shift t)) (asr_shift t)) y
     = ir_binop IR_BINOP_ASR t x' y'"
proof -
  have "signed_drop_bit (unat (asr_shift t AND 63)) (push_bit (unat (asr_shift t AND 63)) x) = signed_take_bit (type_bits t - 1) x"
    using assms(1) sar_shl [of "type_bits t" x] by (cases t) simp_all
  then show ?thesis
    using assms(2,3) count_low [of y] signed_trunc [of t x] by (auto simp: binop_val_def ir_binop_def)
qed

lemma cast_val_agrees:
  assumes "trunc (fst (cast_types c)) x = x'"
  shows "agrees (snd (cast_types c)) (is_signed_cast c \<longrightarrow> snd (cast_types c) = IR_REG_64) (cast_val c x) (ir_cast c x')"
proof -
  have "signed_take_bit (type_bits t - 1) x = signed_take_bit (type_bits t - 1) (trunc t x)" for t
    by (rule signed_trunc [symmetric])
  then show ?thesis
    using assms unfolding agrees_def
    by (cases c) (auto simp: cast_val_def ir_cast_def trunc_def min_def take_bit_word_eq_self)
qed

lemma trunc_read_mem: "trunc t (read_mem m a (type_bytes t)) = read_mem m a (type_bytes t)"
  using read_mem_take_bit [of "type_bytes t" m a] by (cases t) (simp_all add: trunc_def del: read_mem.simps)

lemma merge_agrees: "agrees t (t \<in> {IR_REG_32, IR_REG_64}) (merge t junk (read_mem m a (type_bytes t))) (read_mem m a (type_bytes t))"
proof -
  have "merge t junk v = trunc t v" if "t \<in> {IR_REG_32, IR_REG_64}" for v using that by (auto simp: merge_def)
  then show ?thesis using trunc_read_mem [of t m a] by (simp add: agrees_def)
qed

lemma write_mem_trunc: "8 * n \<le> k \<Longrightarrow> write_mem m a n (take_bit k v) = write_mem m a n v"
proof (induction n arbitrary: m a v k)
  case (Suc n)
  have u: "ucast (take_bit k v) = (ucast v :: u8)" using Suc.prems by (intro bit_word_eqI) (auto simp: bit_simps)
  have d: "drop_bit 8 (take_bit k v) = take_bit (k - 8) (drop_bit 8 v)" by (simp add: drop_bit_take_bit)
  show ?case unfolding write_mem.simps u d by (rule Suc.IH) (use Suc.prems in simp)
qed simp

lemma write_mem_agrees: "trunc t x = v \<Longrightarrow> write_mem m a (type_bytes t) x = write_mem m a (type_bytes t) v"
  using write_mem_trunc [of "type_bytes t" "type_bits t" m a x] by (cases t) (auto simp: trunc_def simp del: write_mem.simps)


section \<open>One instruction\<close>

definition rel :: "irRegisterType list \<Rightarrow> nat set \<Rightarrow> irRegister list \<Rightarrow> (nat \<Rightarrow> u64) \<Rightarrow> (nat \<Rightarrow> u64) \<Rightarrow> bool" where
  "rel ts C irs ivals xvals \<longleftrightarrow> (\<forall>r < length ts. \<forall>p. bk irs r = Some p \<longrightarrow> agrees (ts ! r) (r \<in> C) (xvals p) (ivals r))"

abbreviation types_of :: "jitter \<Rightarrow> irRegisterType list" where "types_of j \<equiv> map ir_type (regs_of j)"

definition written_before :: "irInstruction list \<Rightarrow> nat \<Rightarrow> nat set" where
  "written_before insns n = {r. \<exists>k < n. k < length insns \<and> ir_write (insns ! k) = Some r}"

lemma dst_not_written_before:
  assumes "ir_wf j" "n < length (insns_of j)" "ir_write (insns_of j ! n) = Some d"
  shows "d \<notin> written_before (insns_of j) n"
  using ir_wf_insnD(2) [OF assms] ir_wf_insnD(2) [OF assms(1)] by (fastforce simp: written_before_def)

lemma clean_after_cases: "clean_after Z i C = C \<or> (\<exists>d. ir_write i = Some d \<and> clean_after Z i C = insert d C)"
  by (cases i) (auto split: option.splits)

lemma clean_after_written:
  "C \<subseteq> written_before insns n \<Longrightarrow> n < length insns \<Longrightarrow> clean_after Z (insns ! n) C \<subseteq> written_before insns (Suc n)"
proof -
  assume a: "C \<subseteq> written_before insns n" "n < length insns"
  have "written_before insns (Suc n) = written_before insns n \<union> {r. ir_write (insns ! n) = Some r}"
    using a(2) by (auto simp: written_before_def less_Suc_eq)
  then show ?thesis using clean_after_cases [of Z "insns ! n" C] a(1) by auto
qed

text \<open>Assigning the destination keeps the relation.\<close>

lemma rel_write:
  assumes rel: "rel (types_of j) C irs ivals xvals" and inv: "sel_inv j n (s, irs)" and wf: "ir_wf j"
    and n: "n < length (insns_of j)" and C: "C \<subseteq> written_before (insns_of j) n"
    and step: "sel_step j n (s, irs) (s', irs')"
    and d: "ir_write (insns_of j ! n) = Some d" "\<not> skipped j (insns_of j ! n)"
    and w: "agrees (types_of j ! d) (d \<in> clean_after Z (insns_of j ! n) C) (xvals' (length (xregs_of s))) v"
    and same: "\<And>q. q < length (xregs_of s) \<Longrightarrow> xvals' q = xvals q"
  shows "rel (types_of j) (clean_after Z (insns_of j ! n) C) irs' (ivals(d := v)) xvals'"
  unfolding rel_def
proof (intro allI impI)
  fix r p assume r: "r < length (types_of j)" and p: "bk irs' r = Some p"
  have b: "bk irs' r = (if r = d then Some (length (xregs_of s)) else bk irs r)"
    using step d by (auto simp: sel_step_def)
  show "agrees (types_of j ! r) (r \<in> clean_after Z (insns_of j ! n) C) (xvals' p) ((ivals(d := v)) r)"
  proof (cases "r = d")
    case True
    then show ?thesis using w p b by simp
  next
    case False
    then have "bk irs r = Some p" using p b by simp
    moreover have "p < length (xregs_of s)" using sel_invD(5) [OF inv] r calculation by simp
    moreover have "r \<in> clean_after Z (insns_of j ! n) C \<longleftrightarrow> r \<in> C"
      using clean_after_cases [of Z "insns_of j ! n" C] d False by auto
    ultimately show ?thesis using rel r same False by (auto simp: rel_def)
  qed
qed

lemma rel_none:
  assumes "rel (types_of j) C irs ivals xvals" "sel_step j n (s, irs) (s', irs')" "ir_write (insns_of j ! n) = None"
  shows "rel (types_of j) (clean_after Z (insns_of j ! n) C) irs' ivals xvals"
  using assms clean_after_cases [of Z "insns_of j ! n" C] by (auto simp: rel_def sel_step_def)

inductive_cases vrun_ConsE: "vrun E ctx (i # is) vals mem res"
inductive_cases vrun_NilE: "vrun E ctx [] vals mem res"

text \<open>The first host instruction of a run, when its meaning is known for every content of the upper bits.\<close>

lemma vrun_first:
  assumes "vrun E ctx (i # is) vals mem res" "\<And>junk. xexec E ctx junk i vals mem = Some (Next (f junk) mem')"
  shows "\<exists>junk. vrun E ctx is (f junk) mem' res"
  using assms(1) by (rule vrun_ConsE) (auto simp: assms(2))

lemma vrun_first_leave:
  assumes "vrun E ctx (i # is) vals mem res" "\<And>junk. xexec E ctx junk i vals mem = Some (Leave v k mem')"
  shows "res = Some (Leave v k mem')"
  using assms(1) by (rule vrun_ConsE) (auto simp: assms(2))

lemma agrees_trunc: "agrees t c x v \<Longrightarrow> trunc t x = v" "agrees t True x v \<Longrightarrow> x = v"
  by (auto simp: agrees_def)

lemma ir_cast_trunc: "ir_cast c (trunc (fst (cast_types c)) x) = ir_cast c x"
  using signed_trunc [of "fst (cast_types c)" x] by (cases "cast_types c") (simp add: ir_cast_def)

definition sim_result :: "xenv \<Rightarrow> u64 \<Rightarrow> irRegisterType list \<Rightarrow> nat set \<Rightarrow> irRegister list \<Rightarrow> nat x86Instruction list
    \<Rightarrow> nat xres option \<Rightarrow> nat xres \<Rightarrow> bool" where
  "sim_result E ctx ts C irs xs res ir \<longleftrightarrow> (case ir of
      Leave v k mem \<Rightarrow> res = Some (Leave v k mem)
    | Next ivals mem \<Rightarrow> \<exists>xvals. rel ts C irs ivals xvals \<and> vrun E ctx xs xvals mem res)"

lemma sim_nextI:
  "vrun E ctx xs xv mem res \<Longrightarrow> rel ts C irs iv xv \<Longrightarrow> ir = Next iv mem \<Longrightarrow> sim_result E ctx ts C irs xs res ir"
  by (auto simp: sim_result_def)

lemma sel_sim:
  assumes wf: "ir_wf j" and n: "n < length (insns_of j)" and inv: "sel_inv j n (s, irs)"
    and step: "sel_step j n (s, irs) (s', irs')" and rel: "rel (types_of j) C irs ivals xvals"
    and C: "C \<subseteq> written_before (insns_of j) n" and cl: "set (needs_clean (types_of j) (insns_of j ! n)) \<subseteq> C"
    and ix: "iexec E ctx (is_const (insns_of j)) (insns_of j ! n) ivals mem = Some ir"
    and run: "vrun E ctx (sel (is_const (insns_of j)) (unread j) (host_reg irs') (Suc (length (xregs_of s))) (insns_of j ! n) @ xs) xvals mem res"
  shows "sim_result E ctx (types_of j) (clean_after (hlp_extends E) (insns_of j ! n) C) irs' xs res ir"
proof -
  let ?i = "insns_of j ! n" and ?m = "length (xregs_of s)" and ?ts = "types_of j" and ?h = "host_reg irs'"
  note W = rel_write [OF rel inv wf n C step] and N = rel_none [OF rel step]
  have ty: "insn_typed ?ts ?i" using ir_wf_insnD(5) [OF wf n] .
  have dst: "?h d = ?m" if "ir_write ?i = Some d" "\<not> skipped j ?i" for d
    using step that by (simp add: sel_step_def)
  have op: "?h r < ?m" "agrees (?ts ! r) (r \<in> C) (xvals (?h r)) (ivals r)" if r: "r \<in> set (ir_reads ?i)" for r
  proof -
    have "ir_write ?i \<noteq> Some r" using operand_dst [OF wf n _ r] by blast
    then have "bk irs' r = bk irs r" using step by (simp add: sel_step_def)
    then have b: "bk irs r = Some (?h r)" using operand(1) [OF inv wf n r] by simp
    show "?h r < ?m" using operand(3) [OF inv wf n r] b by simp
    show "agrees (?ts ! r) (r \<in> C) (xvals (?h r)) (ivals r)"
      using rel b reads_emitted(2) [OF wf n r] by (simp add: rel_def)
  qed
  have opc: "xvals (?h r) = ivals r" if "r \<in> set (ir_reads ?i)" "r \<in> C" for r
    using op(2) [OF that(1)] that(2) by (simp add: agrees_def)
  show ?thesis
  proof (cases ?i)
    case i: (IR_MOV_CONST t d v)
    from vrun_first [OF run [unfolded i sel.simps append.simps], of "\<lambda>_. xvals(?h d := v)" mem]
    have "vrun E ctx xs (xvals(?m := v)) mem res" using dst [of d] i by simp
    moreover have "rel ?ts (clean_after (hlp_extends E) ?i C) irs' (ivals(d := trunc t v)) (xvals(?m := v))"
      by (rule W [of d]) (use i ty dst_not_written_before [OF wf n, of d] C in \<open>auto simp: agrees_def\<close>)
    ultimately show ?thesis by (rule sim_nextI) (use ix i in simp)
  next
    case i: (IR_LOAD t d a)
    have a: "xvals (?h a) = ivals a" using opc [of a] cl i by simp
    from vrun_first [OF run [unfolded i sel.simps append.simps],
        of "\<lambda>junk. xvals(?h d := merge t junk (read_mem mem (ivals a) (type_bytes t)))" mem]
    obtain junk where r: "vrun E ctx xs (xvals(?m := merge t junk (read_mem mem (ivals a) (type_bytes t)))) mem res"
      using dst [of d] i a by auto
    have "rel ?ts (clean_after (hlp_extends E) ?i C) irs' (ivals(d := read_mem mem (ivals a) (type_bytes t)))
        (xvals(?m := merge t junk (read_mem mem (ivals a) (type_bytes t))))"
      by (rule W [of d]) (use i ty merge_agrees [of t junk mem "ivals a"] dst_not_written_before [OF wf n, of d] C
          in \<open>auto simp: agrees_def\<close>)
    from sim_nextI [OF r this] show ?thesis using ix i by simp
  next
    case i: (IR_READ t d off)
    show ?thesis
    proof (cases "unread j d")
      case True
      then have "vrun E ctx xs xvals mem res" using run i by simp
      moreover have "rel ?ts (clean_after (hlp_extends E) ?i C) irs' (ivals(d := v)) xvals" for v
        using rel step i True write_fresh [OF wf n, of d] sel_invD(4) [OF inv, of d]
        by (auto simp: rel_def sel_step_def)
      ultimately show ?thesis using ix i by (auto simp: sim_result_def intro!: exI [of _ xvals])
    next
      case False
      let ?v = "read_mem mem (ctx + scast off) (type_bytes t)"
      from False run i have "vrun E ctx (X86_READ t (?h d) off # xs) xvals mem res" by simp
      from vrun_first [OF this, of "\<lambda>junk. xvals(?h d := merge t junk ?v)" mem]
      obtain junk where r: "vrun E ctx xs (xvals(?m := merge t junk ?v)) mem res"
        using dst [of d] i False by auto
      have "rel ?ts (clean_after (hlp_extends E) ?i C) irs' (ivals(d := ?v)) (xvals(?m := merge t junk ?v))"
        by (rule W [of d]) (use i ty False merge_agrees [of t junk mem "ctx + scast off"] dst_not_written_before [OF wf n, of d] C
          in \<open>auto simp: agrees_def\<close>)
      from sim_nextI [OF r this] show ?thesis using ix i by simp
    qed
  next
    case i: (IR_STORE t x a)
    have a: "xvals (?h a) = ivals a" using opc [of a] cl i by simp
    have x: "write_mem mem (ivals a) (type_bytes t) (xvals (?h x)) = write_mem mem (ivals a) (type_bytes t) (ivals x)"
      using op(2) [of x] i ty by (intro write_mem_agrees) (auto simp: agrees_def)
    from vrun_first [OF run [unfolded i sel.simps append.simps], of "\<lambda>_. xvals" "write_mem mem (ivals a) (type_bytes t) (ivals x)"]
    have "vrun E ctx xs xvals (write_mem mem (ivals a) (type_bytes t) (ivals x)) res" using a x by simp
    then show ?thesis using ix i N by (auto simp: sim_result_def)
  next
    case i: (IR_WRITE t x off)
    let ?w = "write_mem mem (ctx + scast off) (type_bytes t)"
    have x: "?w (xvals (?h x)) = ?w (ivals x)"
    proof (cases "?ts ! x = t")
      case True
      then show ?thesis using op(2) [of x] i by (intro write_mem_agrees) (auto simp: agrees_def)
    next
      case False
      then show ?thesis using opc [of x] cl i by simp
    qed
    from vrun_first [OF run [unfolded i sel.simps append.simps], of "\<lambda>_. xvals" "?w (ivals x)"]
    have "vrun E ctx xs xvals (?w (ivals x)) res" using x by simp
    then show ?thesis using ix i N by (auto simp: sim_result_def)
  next
    case i: (IR_INSN_MARKER v)
    from vrun_first [OF run [unfolded i sel.simps append.simps], of "\<lambda>_. xvals" mem]
    show ?thesis using ix i N by (auto simp: sim_result_def)
  next
    case i: (IR_ITE t d p x y)
    let ?g = "\<lambda>v :: nat \<Rightarrow> u64. \<lambda>f. if v (f p) \<noteq> 0 then v (f x) else v (f y)"
    have p: "xvals (?h p) = ivals p" using opc [of p] cl i by simp
    from vrun_first [OF run [unfolded i sel.simps append.simps], of "\<lambda>_. xvals(?h d := ?g xvals ?h)" mem]
    have "vrun E ctx xs (xvals(?m := ?g xvals ?h)) mem res" using dst [of d] i by simp
    moreover have "rel ?ts (clean_after (hlp_extends E) ?i C) irs' (ivals(d := ?g ivals id)) (xvals(?m := ?g xvals ?h))"
      by (rule W [of d]) (use i ty p op(2) [of x] op(2) [of y] dst_not_written_before [OF wf n, of d] C in \<open>auto simp: agrees_def\<close>)
    ultimately show ?thesis by (rule sim_nextI) (use ix i in auto)
  next
    case i: (IR_CAST c d x)
    have ag: "agrees (snd (cast_types c)) (is_signed_cast c \<longrightarrow> snd (cast_types c) = IR_REG_64) (cast_val c (xvals (?h x))) (ir_cast c (ivals x))"
    proof (cases "?ts ! x = fst (cast_types c)")
      case True
      then show ?thesis using op(2) [of x] i by (intro cast_val_agrees) (auto simp: agrees_def)
    next
      case False
      then show ?thesis using opc [of x] cl i cast_val_agrees [OF refl, of c "ivals x"] by (simp add: ir_cast_trunc)
    qed
    from vrun_first [OF run [unfolded i sel.simps append.simps], of "\<lambda>_. xvals(?h d := cast_val c (xvals (?h x)))" mem]
    have "vrun E ctx xs (xvals(?m := cast_val c (xvals (?h x)))) mem res" using dst [of d] i by simp
    moreover have "rel ?ts (clean_after (hlp_extends E) ?i C) irs' (ivals(d := ir_cast c (ivals x))) (xvals(?m := cast_val c (xvals (?h x))))"
      by (rule W [of d]) (use i ty ag dst_not_written_before [OF wf n, of d] C in \<open>auto simp: agrees_def\<close>)
    ultimately show ?thesis by (rule sim_nextI) (use ix i in simp)
  next
    case i: (IR_EXIT v p)
    have v: "xvals (?h v) = ivals v" and p: "\<And>q. p = Some q \<Longrightarrow> xvals (?h q) = ivals q"
      using opc cl i by auto
    note R = run [unfolded i sel.simps append.simps]
    show ?thesis
    proof (cases "\<exists>q. p = Some q \<and> ivals q = 0")
      case True
      then show ?thesis using vrun_first [OF R, of "\<lambda>_. xvals" mem] ix i N p by (auto simp: sim_result_def)
    next
      case False
      then have "ir = Leave (ivals v) (is_const (insns_of j) v) mem" using ix i by (auto split: option.splits if_splits)
      moreover have "res = Some (Leave (ivals v) (is_const (insns_of j) v) mem)"
        by (rule vrun_first_leave [OF R]) (use False v p in \<open>auto split: option.splits\<close>)
      ultimately show ?thesis by (simp add: sim_result_def)
    qed
  next
    case i: (IR_CALL t nm a ps r)
    have rd: "xvals (?h q) = ivals q" if "q \<in> set (ir_reads ?i)" for q
      using opc [OF that] cl that i by auto
    then have "\<forall>q \<in> set (x_reads (X86_CALL a ps r)). xvals (?h q) = ivals q" using i by auto
    note X = xexec_rename [where i = "X86_CALL a ps r" and pvals = xvals and g = ?h and vals = ivals, OF this, of E ctx _ mem]
    from ix i obtain w mem' where w: "\<And>junk. xexec E ctx junk (X86_CALL a ps r) ivals mem = Some (Next (upd r w ivals) mem')"
      and ir: "ir = Next (upd r (case t of None \<Rightarrow> w | Some t \<Rightarrow> trunc t w) ivals) mem'" and e: "hlp_extends E \<Longrightarrow> extended t w"
      by (auto simp: Let_def upd_def split: if_splits prod.splits option.splits)
    have "xexec E ctx junk (X86_CALL (?h a) (map (map_option ?h) ps) (map_option ?h r)) xvals mem = Some (Next (upd (map_option ?h r) (if r = None then 0 else w) xvals) mem')" for junk
      using X [of junk] unfolding w by (cases r) (auto dest: fun_upd_eqD)
    from vrun_first [OF run [unfolded i sel.simps append.simps] this]
    have v: "vrun E ctx xs (upd (map_option ?h r) (if r = None then 0 else w) xvals) mem' res" by blast
    show ?thesis
    proof (cases r)
      case None
      then show ?thesis using v ir N i by (auto simp: sim_result_def)
    next
      case (Some d)
      then obtain t' where t': "t = Some t'" "?ts ! d = t'" using ty i by (auto split: option.splits)
      have "rel ?ts (clean_after (hlp_extends E) ?i C) irs' (ivals(d := trunc t' w)) (xvals(?m := w))"
        by (rule W [of d]) (use i Some t' e dst_not_written_before [OF wf n, of d] C in \<open>auto simp: agrees_def extended_def\<close>)
      then show ?thesis using v ir Some t' dst [of d] i by (auto simp: sim_result_def)
    qed
  next
    case i: (IR_BINOP b t d x y)
    have tys: "?ts ! d = t" "?ts ! x = t"
      "?ts ! y = (if b \<in> {IR_BINOP_SHL, IR_BINOP_SHR, IR_BINOP_ASR, IR_BINOP_ROR} then IR_REG_8 else t)"
      using ty i by auto
    have ax: "trunc t (xvals (?h x)) = ivals x" "trunc (?ts ! y) (xvals (?h y)) = ivals y"
      using op(2) [of x] op(2) [of y] i tys by (auto simp: agrees_def)
    have hd: "?h d = ?m" "?h x < ?m" "?h y < ?m" using dst [of d] op(1) [of x] op(1) [of y] i by auto
    let ?v = "ir_binop b t (ivals x) (ivals y)"
    have tv: "trunc t ?v = ?v" by (simp add: ir_binop_def)
    have ir: "ir = Next (ivals(d := ?v)) mem" using ix i by simp
    have W': "rel ?ts (clean_after (hlp_extends E) ?i C) irs' (ivals(d := ?v)) xv" if "xv ?m = ?v" "\<And>q. q < ?m \<Longrightarrow> xv q = xvals q" for xv
      by (rule W [of d]) (use i tys tv that in \<open>auto simp: agrees_def\<close>)
    show ?thesis
    proof (cases "b = IR_BINOP_ASR \<and> asr_shift t \<noteq> 0")
      case False
      have e: "binop_val t (binop_of b) (xvals (?h x)) (xvals (?h y)) = ?v"
        by (rule binop_val_agrees) (use False ax tys opc [of x] opc [of y] cl i in \<open>cases t; auto split: if_splits\<close>)+
      from False run i have "vrun E ctx (X86_BINOP t (binop_of b) (?h d) (?h x) (?h y) # xs) xvals mem res" by auto
      from vrun_first [OF this, of "\<lambda>_. xvals(?m := ?v)" mem] e hd have "vrun E ctx xs (xvals(?m := ?v)) mem res" by simp
      with W' [of "xvals(?m := ?v)"] ir show ?thesis by (auto simp: sim_result_def)
    next
      case True
      let ?sh = "asr_shift t" and ?x = "xvals (?h x)"
      let ?l = "binop_val IR_REG_64 X86_BINOP_SHL ?x ?sh"
      let ?a = "binop_val IR_REG_64 X86_BINOP_ASR ?l ?sh"
      have e: "binop_val t X86_BINOP_ASR ?a (xvals (?h y)) = ?v"
        using asr_chain [of t ?x "ivals x" "xvals (?h y)" "ivals y"] True ax tys by simp
      let ?x1 = "xvals(Suc ?m := ?sh)" and ?x2 = "xvals(Suc ?m := ?sh, ?m + 2 := ?l)"
      let ?x3 = "xvals(Suc ?m := ?sh, ?m + 2 := ?l, ?m + 3 := ?a)"
      from run True i have r0: "vrun E ctx (X86_MOV_CONST (Suc ?m) ?sh # X86_BINOP IR_REG_64 X86_BINOP_SHL (?m + 2) (?h x) (Suc ?m)
         # X86_BINOP IR_REG_64 X86_BINOP_ASR (?m + 3) (?m + 2) (Suc ?m) # X86_BINOP t X86_BINOP_ASR (?h d) (?m + 3) (?h y) # xs) xvals mem res"
        by (simp add: eval_nat_numeral)
      from vrun_first [OF r0, of "\<lambda>_. ?x1" mem] have r1: "vrun E ctx (X86_BINOP IR_REG_64 X86_BINOP_SHL (?m + 2) (?h x) (Suc ?m)
         # X86_BINOP IR_REG_64 X86_BINOP_ASR (?m + 3) (?m + 2) (Suc ?m) # X86_BINOP t X86_BINOP_ASR (?h d) (?m + 3) (?h y) # xs) ?x1 mem res"
        by simp
      from vrun_first [OF r1, of "\<lambda>_. ?x2" mem] hd have r2: "vrun E ctx
         (X86_BINOP IR_REG_64 X86_BINOP_ASR (?m + 3) (?m + 2) (Suc ?m) # X86_BINOP t X86_BINOP_ASR (?h d) (?m + 3) (?h y) # xs) ?x2 mem res"
        by simp
      from vrun_first [OF r2, of "\<lambda>_. ?x3" mem] have r3: "vrun E ctx (X86_BINOP t X86_BINOP_ASR (?h d) (?m + 3) (?h y) # xs) ?x3 mem res"
        by simp
      from vrun_first [OF r3, of "\<lambda>_. ?x3(?m := ?v)" mem] e hd have "vrun E ctx xs (?x3(?m := ?v)) mem res" by simp
      with W' [of "?x3(?m := ?v)"] ir show ?thesis by (auto simp: sim_result_def)
    qed
  qed
qed


section \<open>The whole pass\<close>

lemma allocateInstructions_run:
  assumes "ir_wf j" "sel_inv j n (s, irs)" "n \<le> length (insns_of j)"
    "allocateInstructions (drop n (insns_of j)) (s, irs) = Some (sF, irsF)"
  shows "sel_inv j (length (insns_of j)) (sF, irsF) \<and> (\<exists>xs. xinsns_of sF = xinsns_of s @ xs \<and>
    (\<forall>C ivals xvals mem res ires. rel (types_of j) C irs ivals xvals \<longrightarrow> C \<subseteq> written_before (insns_of j) n \<longrightarrow>
       clean_block (hlp_extends E) (types_of j) C (drop n (insns_of j)) \<longrightarrow>
       irun E ctx (is_const (insns_of j)) (drop n (insns_of j)) ivals mem = Some ires \<longrightarrow>
       vrun E ctx xs xvals mem res \<longrightarrow> map_option outcome res = Some (outcome ires)))"
  using assms(2-4)
proof (induction "length (insns_of j) - n" arbitrary: n s irs)
  case 0
  then show ?case by (auto elim!: vrun_NilE)
next
  case (Suc k)
  let ?i = "insns_of j ! n" and ?K = "is_const (insns_of j)"
  have n: "n < length (insns_of j)" and k: "k = length (insns_of j) - Suc n" using Suc.hyps(2) by simp_all
  have d: "drop n (insns_of j) = ?i # drop (Suc n) (insns_of j)" using n by (simp add: Cons_nth_drop_Suc)
  from Suc.prems(3) obtain s1 irs1 where st: "allocateInstruction ?i (s, irs) = Some (s1, irs1)"
    and rest: "allocateInstructions (drop (Suc n) (insns_of j)) (s1, irs1) = Some (sF, irsF)"
    unfolding d by (auto split: bind_splits)
  have step: "sel_step j n (s, irs) (s1, irs1)"
    by (rule allocateInstruction_step [OF Suc.prems(1) assms(1) n st])
  then have inv1: "sel_inv j (Suc n) (s1, irs1)" by (simp add: sel_step_def)
  let ?ch = "sel ?K (unread j) (host_reg irs1) (Suc (length (xregs_of s))) ?i"
  have ch: "xinsns_of s1 = xinsns_of s @ ?ch" using step by (simp add: sel_step_def)
  from Suc.hyps(1) [OF k inv1 _ rest] n obtain xs where
    invF: "sel_inv j (length (insns_of j)) (sF, irsF)" and xs: "xinsns_of sF = xinsns_of s1 @ xs" and
    IH: "\<And>C ivals xvals mem res ires. rel (types_of j) C irs1 ivals xvals \<Longrightarrow> C \<subseteq> written_before (insns_of j) (Suc n) \<Longrightarrow>
       clean_block (hlp_extends E) (types_of j) C (drop (Suc n) (insns_of j)) \<Longrightarrow>
       irun E ctx ?K (drop (Suc n) (insns_of j)) ivals mem = Some ires \<Longrightarrow>
       vrun E ctx xs xvals mem res \<Longrightarrow> map_option outcome res = Some (outcome ires)"
    by auto
  have "map_option outcome res = Some (outcome ires)"
    if rel: "rel (types_of j) C irs ivals xvals" and C: "C \<subseteq> written_before (insns_of j) n"
      and cl: "clean_block (hlp_extends E) (types_of j) C (drop n (insns_of j))"
      and run: "irun E ctx ?K (drop n (insns_of j)) ivals mem = Some ires" and v: "vrun E ctx (?ch @ xs) xvals mem res"
    for C ivals xvals mem res ires
  proof -
    from run d obtain ir where ir: "iexec E ctx ?K ?i ivals mem = Some ir" by (auto split: option.splits)
    have nc: "set (needs_clean (types_of j) ?i) \<subseteq> C" and cb: "clean_block (hlp_extends E) (types_of j) (clean_after (hlp_extends E) ?i C) (drop (Suc n) (insns_of j))"
      using cl d by simp_all
    note S = sel_sim [OF assms(1) n Suc.prems(1) step rel C nc ir v]
    show ?thesis
    proof (cases ir)
      case (Next iv mem')
      then show ?thesis
        using S IH [OF _ clean_after_written [OF C n] cb] run d ir by (auto simp: sim_result_def)
    next
      case (Leave v k mem')
      then show ?thesis using S run d ir by (auto simp: sim_result_def)
    qed
  qed
  with invF xs ch show ?case by auto
qed

end
