(* ===== verification/Be_X86_64.thy ===== *)
theory Be_X86_64
  imports Be_Select_Sem
begin

text \<open>
  The entries of the x86_64 backend, the entries of the jitter that call it, and the correctness of
  the compilation as a whole: running the bytes \<open>jitCode\<close> writes has the effect of the
  intermediate code.
\<close>

section \<open>The entries of the backend\<close>

definition BE_MIN_CONTEXT_SIZE :: int where "BE_MIN_CONTEXT_SIZE = 32 * 1024"

definition reset_be :: "inter \<Rightarrow> inter" where
  "reset_be s = s\<lparr>x_registerPool := memoryPoolReset (x_registerPool s),
     x_instructionPool := memoryPoolReset (x_instructionPool s), x_regIndex := 0, x_instructionIndex := 0\<rparr>"

text \<open>On the memory it is given; the two halves behind the header are the pools.\<close>

definition createBackend :: "int \<Rightarrow> inter option" where
  "createBackend sz = do {
     assert (BE_MIN_CONTEXT_SIZE \<ge> sizeof_inter);
     let pool_mem_size = (sz - ((sizeof_inter + 15) div 16) * 16) div 2;
     Some (reset_be \<lparr>x_registerPool = memoryPoolInit \<lparr>pool_buffer = [], pool_index = 0, pool_size = 0\<rparr> pool_mem_size,
       x_instructionPool = memoryPoolInit \<lparr>pool_buffer = [], pool_index = 0, pool_size = 0\<rparr> pool_mem_size,
       x_regIndex = 0, x_instructionIndex = 0\<rparr>)
   }"

definition jit :: "irInstruction list \<Rightarrow> bstate \<Rightarrow> memory \<Rightarrow> u64 \<Rightarrow> int \<Rightarrow> (int \<times> memory \<times> bstate) option" where
  "jit irArray b mem buffer bufferSize = do {
     (s, irs) \<leftarrow> allocateInstructions irArray b;
     s \<leftarrow> allocateRegisters s;
     code \<leftarrow> generateCode s;
     let mem = store_code mem buffer code;
     let res = int (length code);
     assert (res \<le> bufferSize);
     Some (res, mem, s, irs)
   }"

definition get_marker :: "irInstruction list \<Rightarrow> bstate \<Rightarrow> nat \<Rightarrow> (u32 \<times> bstate) option" where
  "get_marker irArray b offset = do {
     (s, irs) \<leftarrow> allocateInstructions irArray b;
     s \<leftarrow> allocateRegisters s;
     res \<leftarrow> findInsnInCode s offset;
     Some (res, s, irs)
   }"

section \<open>The entries of the jitter that use the backend\<close>

text \<open>The number of instructions is computed from the pool index.\<close>

definition insn_array :: "jitter \<Rightarrow> irInstruction list" where
  "insn_array j = take (nat (pool_index (instructionPoolAllocator j) div sizeof_irInstruction)) (insns_of j)"

definition jitCode :: "jitter \<times> inter \<Rightarrow> memory \<Rightarrow> u64 \<Rightarrow> int \<Rightarrow> (int \<times> memory \<times> jitter \<times> inter) option" where
  "jitCode = (\<lambda>(j, s) mem buffer bufferSize. do {
     (res, mem, s, irs) \<leftarrow> jit (insn_array j) (s, regs_of j) mem buffer bufferSize;
     Some (res, mem, j\<lparr>registerPoolAllocator := (registerPoolAllocator j)\<lparr>pool_buffer := irs\<rparr>\<rparr>, s)
   })"

definition findInsn :: "jitter \<times> inter \<Rightarrow> nat \<Rightarrow> (u32 \<times> jitter \<times> inter) option" where
  "findInsn = (\<lambda>(j, s) offset. do {
     (res, s, irs) \<leftarrow> get_marker (insn_array j) (s, regs_of j) offset;
     Some (res, j\<lparr>registerPoolAllocator := (registerPoolAllocator j)\<lparr>pool_buffer := irs\<rparr>\<rparr>, s)
   })"

section \<open>Correctness of the compilation\<close>

definition be_fresh :: "inter \<Rightarrow> bool" where
  "be_fresh s \<longleftrightarrow> xregs_of s = [] \<and> xinsns_of s = [] \<and> x_instructionIndex s = 0"

lemma reset_be_fresh: "be_fresh (reset_be s)"
  by (simp add: be_fresh_def reset_be_def memoryPoolReset_def)

lemma createBackend_fresh: "createBackend sz = Some s \<Longrightarrow> be_fresh s"
  by (auto simp: createBackend_def reset_be_fresh Let_def split: bind_splits)

lemma insn_array_all: "ir_wf j \<Longrightarrow> insn_array j = insns_of j"
  using ir_wfD(2) [of j] by (simp add: insn_array_def pool_wf_def sizeof_irInstruction_def)

lemma sel_inv_start:
  assumes "ir_wf j" "be_fresh s"
  shows "sel_inv j 0 (s, regs_of j)"
  using assms ir_wf_regD(2) [OF assms(1)]
  by (auto simp: sel_inv_def x_ok_def x_wf_def be_fresh_def emitted_def)

lemma allocateInstructions_x_wf:
  assumes "ir_wf j" "be_fresh s" "allocateInstructions (insns_of j) (s, regs_of j) = Some (s', irs')"
  shows "x_wf (xregs_of s') (xinsns_of s')"
  using allocateInstructions_run [OF assms(1) sel_inv_start [OF assms(1,2)], of s' irs'] assms(3)
  by (auto simp: sel_inv_def x_ok_def)

text \<open>The three passes together, down to the physical registers.\<close>

lemma passes_correct:
  assumes wf: "ir_wf j" and fresh: "be_fresh s"
    and a: "allocateInstructions (insns_of j) (s, regs_of j) = Some (s1, irs)"
    and r: "allocateRegisters s1 = Some s2"
    and cl: "clean_block (hlp_extends E) (types_of j) {} (insns_of j)"
    and run: "irun E ctx (is_const (insns_of j)) (insns_of j) ivals mem = Some ires"
  shows "(\<forall>i \<in> set (phys_insns s2). phys_ok i) \<and>
     map_option outcome (xrun E ctx (phys_insns s2) pvals mem) = Some (outcome ires)"
proof -
  note S = allocateInstructions_run [OF wf sel_inv_start [OF wf fresh], of s1 irs E ctx]
  have inv: "sel_inv j (length (insns_of j)) (s1, irs)" using S a by simp
  have sim: "map_option outcome res = Some (outcome ires)" if "vrun E ctx (xinsns_of s1) xvals mem res" for xvals res
  proof -
    have "rel (types_of j) {} (regs_of j) ivals xvals" using ir_wf_regD(2) [OF wf] by (simp add: rel_def)
    then show ?thesis using S a cl run that fresh by (auto simp: be_fresh_def)
  qed
  have "x_wf (xregs_of s1) (xinsns_of s1)" using sel_invD(1) [OF inv] by (simp add: x_ok_def)
  note A = allocateRegisters_ok [OF this r]
  have "\<forall>r. live (xinsns_of s2) 0 r \<longrightarrow> pvals (phys (xregs_of s2) r) = (\<lambda>_. 0) r" by (simp add: live_def defined_def)
  from alloc_run [OF A(1) _ this, of E ctx mem]
  obtain res where res: "vrun E ctx (xinsns_of s2) (\<lambda>_. 0) mem res"
    "map_option outcome (xrun E ctx (map (map_x86Instruction (phys (xregs_of s2))) (xinsns_of s2)) pvals mem) = map_option outcome res"
    by auto
  have "\<forall>i \<in> set (phys_insns s2). phys_ok i"
    using alloc_ok_phys_ok [OF A(1)] by (auto simp: phys_insns_def in_set_conv_nth)
  then show ?thesis using res sim A(2) by (simp add: phys_insns_def)
qed

text \<open>The code \<open>jitCode\<close> writes does not depend on its address.\<close>

lemma jit_code_relocated:
  assumes wf: "ir_wf j" and fresh: "be_fresh s"
    and jit: "jitCode (j, s) code buffer sz = Some (len, code', j', s')" and sz: "sz < 2 ^ 31"
    and cl: "clean_block (hlp_extends E) (types_of j) {} (insns_of j)"
    and run: "irun E ctx (is_const (insns_of j)) (insns_of j) ivals mem = Some (Leave v k mem')"
    and ok: "helper_ok h E" and m: "sim pvals ctx mem (ra # st) m" "rip m = a"
    and copy: "\<forall>i < nat len. code2 (a + of_nat i) = code' (buffer + of_nat i)"
  shows "reaches h code2 ctx ra st nxt m (Leave v k mem')"
proof -
  from jit obtain s1 irs s2 c where a: "allocateInstructions (insns_of j) (s, regs_of j) = Some (s1, irs)"
    and r: "allocateRegisters s1 = Some s2" and g: "generateCode s2 = Some c"
    and c: "code' = store_code code buffer c" "int (length c) \<le> sz" "len = int (length c)"
    by (auto simp: jitCode_def jit_def insn_array_all [OF wf] assert_def Let_def split: bind_splits if_splits)
  have p: "\<forall>i \<in> set (phys_insns s2). phys_ok i" and
    "map_option outcome (xrun E ctx (phys_insns s2) pvals mem) = Some (Some (v, k), mem')"
    using passes_correct [OF wf fresh a r cl run, of pvals] by simp_all
  then have x: "xrun E ctx (phys_insns s2) pvals mem = Some (Leave v k mem')" by (auto elim!: outcome.elims)
  have "length c < 2 ^ 64" using c(2) sz by simp
  then have "code_at code' buffer c" using store_code_at c(1) by simp
  then have "code_at code2 (rip m) c" using copy c(3) m(2) by (auto simp: code_at_nth split: option.splits)
  from gen_insns_correct [OF ok p _ m(1) this x] g show ?thesis
    by (simp add: generateCode_def reaches_def)
qed

lemma jit_code_correct:
  assumes wf: "ir_wf j" and fresh: "be_fresh s"
    and jit: "jitCode (j, s) code buffer sz = Some (len, code', j', s')" and sz: "sz < 2 ^ 31"
    and cl: "clean_block (hlp_extends E) (types_of j) {} (insns_of j)"
    and run: "irun E ctx (is_const (insns_of j)) (insns_of j) ivals mem = Some (Leave v k mem')"
    and ok: "helper_ok h E" and m: "sim pvals ctx mem (ra # st) m" "rip m = buffer"
  shows "reaches h code' ctx ra st nxt m (Leave v k mem')"
  by (rule jit_code_relocated [OF assms]) simp

section \<open>From a host address in a block to the guest instruction\<close>

fun is_marker :: "'r x86Instruction \<Rightarrow> bool" where
  "is_marker (X86_INSN_MARKER v) = True"
| "is_marker _ = False"

fun last_marker :: "u32 \<Rightarrow> 'r x86Instruction list \<Rightarrow> u32" where
  "last_marker res [] = res"
| "last_marker res (X86_INSN_MARKER v # is) = last_marker v is"
| "last_marker res (_ # is) = last_marker res is"

abbreviation unmarked :: "'r x86Instruction list \<Rightarrow> 'r x86Instruction list" where
  "unmarked is \<equiv> filter (\<lambda>i. \<not> is_marker i) is"

text \<open>
  An address behind the first byte of the code of instruction \<open>k\<close>, up to the first byte of the
  next one, belongs to the last marker before \<open>k\<close>.
\<close>

lemma findInsnFrom_spec:
  assumes "k < length is" "gen_insns (unmarked (take k is)) = Some c1" "gen_insns (unmarked (take (Suc k) is)) = Some c2"
    "pos + length c1 < offset" "offset \<le> pos + length c2"
  shows "findInsnFrom is pos res offset = Some (last_marker res (take (Suc k) is))"
  using assms
proof (induction "is" arbitrary: k pos res c1 c2)
  case (Cons i "is")
  show ?case
  proof (cases "is_marker i")
    case True
    then obtain v where i: "i = X86_INSN_MARKER v" by (cases i) auto
    show ?thesis
    proof (cases k)
      case 0
      then show ?thesis using Cons.prems True by auto
    next
      case (Suc k')
      have "findInsnFrom is pos v offset = Some (last_marker v (take (Suc k') is))"
        by (rule Cons.IH) (use Cons.prems Suc True in auto)
      then show ?thesis using Cons.prems(4) Suc i by simp
    qed
  next
    case False
    show ?thesis
    proof (cases k)
      case 0
      then obtain c where "gen_insn i = Some c" "c2 = c" using Cons.prems(3) False by (auto split: bind_splits)
      then show ?thesis using Cons.prems(5) 0 False by (cases i) auto
    next
      case (Suc k')
      obtain c d1 d2 where c: "gen_insn i = Some c" "gen_insns (unmarked (take k' is)) = Some d1" "c1 = c @ d1"
        "gen_insns (unmarked (take (Suc k') is)) = Some d2" "c2 = c @ d2"
        using Cons.prems(2,3) False Suc by (auto split: bind_splits)
      have "findInsnFrom is (pos + length c) res offset = Some (last_marker res (take (Suc k') is))"
        by (rule Cons.IH [OF _ c(2,4)]) (use Cons.prems c Suc in auto)
      moreover have "\<not> offset \<le> pos + length c" using Cons.prems(4) c(3) by simp
      ultimately show ?thesis using Suc False c(1) by (cases i) auto
    qed
  qed
qed simp

text \<open>The first byte itself is counted to the instruction before.\<close>

lemma findInsnFrom_first_byte:
  assumes "gen_insns (unmarked is) = Some c" "is \<noteq> []" "\<not> is_marker (last is)" "pos + length c = offset"
    "\<exists>d. gen_insn (last is) = Some d \<and> d \<noteq> []"
  shows "findInsnFrom (is @ X86_INSN_MARKER v # js) pos res offset = Some (last_marker res is)"
proof -
  have t: "take (Suc (length is - 1)) (is @ X86_INSN_MARKER v # js) = is" "take (length is - 1) (is @ X86_INSN_MARKER v # js) = butlast is"
    using assms(2) by (auto simp: butlast_conv_take)
  have app: "gen_insns (xs @ ys) = do { a \<leftarrow> gen_insns xs; b \<leftarrow> gen_insns ys; Some (a @ b) }" for xs ys
    by (induction xs) (auto split: bind_splits)
  have "unmarked is = unmarked (butlast is) @ [last is]"
    using assms(2,3) by (metis (no_types, lifting) append_butlast_last_id filter.simps(1,2) filter_append)
  then obtain c1 d where c: "gen_insns (unmarked (butlast is)) = Some c1" "c = c1 @ d" "d \<noteq> []"
    using assms(1,5) by (auto simp: app split: bind_splits)
  have "0 < length d" using c(3) by simp
  then have o: "pos + length c1 < offset" "offset \<le> pos + length c" using assms(4) unfolding c(2) length_append by linarith+
  have k: "length is - 1 < length (is @ X86_INSN_MARKER v # js)" by simp
  show ?thesis using findInsnFrom_spec [OF k _ _ o, of res] t c(1) assms(1) by simp
qed

section \<open>Leaving from a signal handler\<close>

text \<open>
  A signal handler that wants to leave translated code makes the kernel resume in
  \<open>restore_be_x86_64\<close>, with the backend and the guest address to go on with.
\<close>

record ucontext =
  REG_RIP :: u64
  REG_RDI :: u64
  REG_RSI :: u64

definition request_signal_alternate_exit :: "u64 \<Rightarrow> u64 \<Rightarrow> ucontext \<Rightarrow> u64 \<Rightarrow> ucontext" where
  "request_signal_alternate_exit restore_be_x86_64 backend ucp result =
     ucp\<lparr>REG_RIP := restore_be_x86_64, REG_RDI := backend, REG_RSI := result\<rparr>"

end
