(* ===== verification/Cache.thy ===== *)
theory Cache
  imports Be_X86_64
begin

text \<open>
  The code cache of \<open>src/src/cache/cache.c\<close>, on the bytes of its area: blocks of translated code
  with their packed headers, the hash lists threaded through the headers and the front
  entries. A pointer is an address, 0 is NULL. The mutex around the list of all caches
  makes its operations atomic and is not modelled.
\<close>

section \<open>Memory\<close>

lemma read_mem_fetch: "read_mem m a n = fetch_le (\<lambda>i. m (a + of_nat i)) 0 n"
proof -
  have "read_mem m (a + of_nat k) n = fetch_le (\<lambda>i. m (a + of_nat i)) k n" for k
  proof (induction n arbitrary: k)
    case (Suc n)
    from Suc [of "Suc k"] show ?case by (simp add: ac_simps)
  qed simp
  from this [of 0] show ?thesis by simp
qed

lemma read_mem_cong:
  assumes "\<And>k. k < n \<Longrightarrow> m (a + of_nat k) = m' (a + of_nat k)"
  shows "read_mem m a n = read_mem m' a n"
proof -
  have "fetch_le f i n = fetch_le g i n" if "\<And>k. k < n \<Longrightarrow> f (i + k) = g (i + k)" for f g i
    using that
  proof (induction n arbitrary: i)
    case (Suc n)
    have "fetch_le f (Suc i) n = fetch_le g (Suc i) n"
      by (rule Suc.IH) (use Suc.prems [of "Suc _"] in simp)
    then show ?case using Suc.prems [of 0] by simp
  qed simp
  from this [of "\<lambda>i. m (a + of_nat i)" 0 "\<lambda>i. m' (a + of_nat i)"] assms show ?thesis
    by (simp add: read_mem_fetch)
qed

lemma read_write_mem: "n \<le> 8 \<Longrightarrow> read_mem (write_mem m a n v) a n = take_bit (8 * n) v"
  unfolding read_mem_fetch
  using fetch_le_bytes [of n "\<lambda>i. write_mem m a n v (a + of_nat i)" 0 v] write_mem_same [of _ n m a v]
  by simp

section \<open>The code cache\<close>

definition HASH_ENTRY_NB :: nat where "HASH_ENTRY_NB = 2 ^ 14"
definition HASH_MASK :: u64 where "HASH_MASK = 2 ^ 14 - 1"
definition MIN_CACHE_SIZE :: int where "MIN_CACHE_SIZE = 1024 * 1024"
definition sizeof_tb :: nat where "sizeof_tb = 18"

text \<open>
  \<open>struct tb\<close> is packed: the size in two bytes, the guest address and the link of the hash list
  in eight bytes each, then the code.
\<close>

definition tb_size :: "memory \<Rightarrow> u64 \<Rightarrow> u64" where "tb_size mem tb = read_mem mem tb 2"
definition tb_guest_pc :: "memory \<Rightarrow> u64 \<Rightarrow> u64" where "tb_guest_pc mem tb = read_mem mem (tb + 2) 8"
definition tb_next :: "memory \<Rightarrow> u64 \<Rightarrow> u64" where "tb_next mem tb = read_mem mem (tb + 10) 8"

definition write_tb :: "memory \<Rightarrow> u64 \<Rightarrow> u64 \<Rightarrow> u64 \<Rightarrow> u64 \<Rightarrow> memory" where
  "write_tb mem tb sz pc nxt = write_mem (write_mem (write_mem mem tb 2 sz) (tb + 2) 8 pc) (tb + 10) 8 nxt"

record internal_cache =
  next_cache :: u64
  jitter_area_size :: int
  write_pos :: int
  clean :: bool
  cached :: "nat \<Rightarrow> u64"
  hash_list :: "nat \<Rightarrow> u64"
  area :: u64
  area_end :: u64

definition hash_pc :: "u64 \<Rightarrow> nat" where
  "hash_pc pc = unat (drop_bit 2 pc AND HASH_MASK)"

definition tb_to_jit_area :: "u64 \<Rightarrow> u64" where
  "tb_to_jit_area tb = tb + of_nat sizeof_tb"

definition reset_cache :: "internal_cache \<Rightarrow> internal_cache" where
  "reset_cache c = c\<lparr>write_pos := 0, clean := False, cached := (\<lambda>_. 0), hash_list := (\<lambda>_. 0)\<rparr>"

text \<open>The walk along a hash list.\<close>

partial_function (option) search_list :: "memory \<Rightarrow> u64 \<Rightarrow> u64 \<Rightarrow> u64 option" where
  "search_list mem current pc =
     (if current = 0 then Some 0
      else if tb_guest_pc mem current = pc then Some current
      else search_list mem (tb_next mem current) pc)"

text \<open>\<open>lookup\<close> after the test of \<open>is_cache_clean_need\<close>, on the cache it is called for.\<close>

definition lookup_cache :: "internal_cache \<times> memory \<Rightarrow> u64 \<Rightarrow> bool \<Rightarrow> (u64 \<times> bool \<times> internal_cache \<times> memory) option" where
  "lookup_cache = (\<lambda>(c, mem) pc event.
     if clean c then Some (0, True, reset_cache c, mem)
     else
       let hash = hash_pc pc; current = cached c hash in
       if current \<noteq> 0 \<and> tb_guest_pc mem current = pc then Some (tb_to_jit_area current, event, c, mem)
       else do {
         current \<leftarrow> search_list mem (hash_list c hash) pc;
         Some (if current = 0 then (0, event, c, mem)
               else (tb_to_jit_area current, event, c\<lparr>cached := (cached c)(hash := current)\<rparr>, mem))
       })"

definition append_cache :: "internal_cache \<times> memory \<Rightarrow> u64 \<Rightarrow> u8 list \<Rightarrow> bool \<Rightarrow> u64 \<times> bool \<times> internal_cache \<times> memory" where
  "append_cache = (\<lambda>(c, mem) pc data event.
     let hash = hash_pc pc; sz = length data;
         full = write_pos c + int sz + int sizeof_tb > jitter_area_size c;
         c = (if full then reset_cache c else c);
         event = (if full then True else event);
         new_tb = area c + of_int (write_pos c);
         mem = write_tb mem new_tb (of_nat (sz + sizeof_tb)) pc (hash_list c hash);
         c = c\<lparr>hash_list := (hash_list c)(hash := new_tb)\<rparr>;
         res = tb_to_jit_area new_tb;
         mem = store_code mem res (map Some data);
         c = c\<lparr>write_pos := write_pos c + int sz + int sizeof_tb\<rparr>
     in (res, event, c, mem))"

text \<open>The scan of \<open>lookup_pc\<close>; a header of size 0 makes it loop.\<close>

partial_function (option) lookup_pc_from :: "memory \<Rightarrow> u64 \<Rightarrow> u64 \<Rightarrow> u64 \<Rightarrow> (u64 \<times> u64 option) option" where
  "lookup_pc_from mem stop host_pc ptr =
     (if ptr \<le> host_pc \<and> host_pc < ptr + tb_size mem ptr
      then Some (tb_guest_pc mem ptr, Some (ptr + of_nat sizeof_tb))
      else if ptr + tb_size mem ptr < stop then lookup_pc_from mem stop host_pc (ptr + tb_size mem ptr)
      else Some (0, None))"

definition lookup_pc :: "internal_cache \<times> memory \<Rightarrow> u64 \<Rightarrow> (u64 \<times> u64 option) option" where
  "lookup_pc = (\<lambda>(c, mem) host_pc. lookup_pc_from mem (area_end c) host_pc (area c))"


section \<open>The invariant\<close>

text \<open>
  The area holds translation blocks one after the other, given by their offset, the guest address
  and the size of the code, oldest first. The list of a hash value links the blocks of
  that value, newest first; the front entry is one of them.
\<close>

type_synonym entry = "nat \<times> u64 \<times> nat"

fun layout :: "nat \<Rightarrow> entry list \<Rightarrow> nat \<Rightarrow> bool" where
  "layout off [] stop = (off = stop)"
| "layout off ((off', pc, len) # es) stop = (off' = off \<and> layout (off + sizeof_tb + len) es stop)"

fun chain :: "memory \<Rightarrow> u64 \<Rightarrow> u64 \<Rightarrow> nat list \<Rightarrow> bool" where
  "chain mem base p [] = (p = 0)"
| "chain mem base p (off # offs) = (p = base + of_nat off \<and> chain mem base (tb_next mem p) offs)"

definition hash_offsets :: "nat \<Rightarrow> entry list \<Rightarrow> nat list" where
  "hash_offsets h es = map fst (rev (filter (\<lambda>(off, pc, len). hash_pc pc = h) es))"

definition entry_ok :: "memory \<Rightarrow> u64 \<Rightarrow> entry \<Rightarrow> bool" where
  "entry_ok mem base = (\<lambda>(off, pc, len). sizeof_tb + len < 2 ^ 16 \<and>
     tb_size mem (base + of_nat off) = of_nat (sizeof_tb + len) \<and> tb_guest_pc mem (base + of_nat off) = pc)"

definition geometry :: "internal_cache \<Rightarrow> bool" where
  "geometry c \<longleftrightarrow> 0 < area c \<and> 0 \<le> jitter_area_size c \<and> unat (area c) + nat (jitter_area_size c) < 2 ^ 64 \<and>
     area_end c = area c + of_int (jitter_area_size c) \<and> 0 \<le> write_pos c \<and> write_pos c \<le> jitter_area_size c"

definition cache_inv :: "internal_cache \<times> memory \<Rightarrow> entry list \<Rightarrow> bool" where
  "cache_inv = (\<lambda>(c, mem) es. geometry c \<and> layout 0 es (nat (write_pos c)) \<and>
     (\<forall>e \<in> set es. entry_ok mem (area c) e) \<and>
     (\<forall>h. chain mem (area c) (hash_list c h) (hash_offsets h es)) \<and>
     (\<forall>h. cached c h \<noteq> 0 \<longrightarrow> (\<exists>off pc len. (off, pc, len) \<in> set es \<and> cached c h = area c + of_nat off \<and> hash_pc pc = h)))"

lemma layout_le: "layout o1 es stop \<Longrightarrow> o1 \<le> stop"
proof (induction es arbitrary: o1)
  case (Cons e es)
  obtain off pc len where "e = (off, pc, len)" by (cases e)
  with Cons.prems Cons.IH [of "o1 + sizeof_tb + len"] show ?case by simp
qed simp

lemma layout_bounds:
  "layout o1 es stop \<Longrightarrow> (off, pc, len) \<in> set es \<Longrightarrow> o1 \<le> off \<and> off + sizeof_tb + len \<le> stop"
proof (induction es arbitrary: o1)
  case (Cons e es)
  obtain off' pc' len' where e: "e = (off', pc', len')" by (cases e)
  show ?case using Cons.prems Cons.IH [of "o1 + sizeof_tb + len'"] layout_le [of "o1 + sizeof_tb + len'"] by (auto simp: e)
qed simp

lemma layout_snoc: "layout o1 es stop \<Longrightarrow> layout o1 (es @ [(stop, pc, len)]) (stop + sizeof_tb + len)"
  by (induction es arbitrary: o1) (auto split: prod.splits)

lemma geometry_addr:
  assumes "geometry c" "off \<le> nat (jitter_area_size c)"
  shows "unat (area c + of_nat off) = unat (area c) + off" "area c + of_nat off \<noteq> 0"
proof -
  have "off < 2 ^ 64" "unat (area c) + off < 2 ^ 64" using assms by (auto simp: geometry_def)
  then have u: "unat (of_nat off :: u64) = off" by (simp add: unat_of_nat take_bit_nat_eq_self)
  show e: "unat (area c + of_nat off) = unat (area c) + off"
    using u \<open>unat (area c) + off < 2 ^ 64\<close> by (simp add: unat_add_lem [THEN iffD1])
  have "0 < unat (area c)" using assms(1) by (simp add: geometry_def word_less_nat_alt)
  with e show "area c + of_nat off \<noteq> 0" by (metis add_is_0 less_irrefl unat_0)
qed

lemma geometry_inj:
  assumes "geometry c" "off \<le> nat (jitter_area_size c)" "off' \<le> nat (jitter_area_size c)" "off \<noteq> off'"
  shows "area c + of_nat off \<noteq> area c + of_nat off'"
  using geometry_addr(1) [OF assms(1,2)] geometry_addr(1) [OF assms(1,3)] assms(4) by (metis add_left_cancel)

lemma cache_invD:
  assumes "cache_inv (c, mem) es"
  shows "geometry c" "layout 0 es (nat (write_pos c))" "\<And>e. e \<in> set es \<Longrightarrow> entry_ok mem (area c) e"
    "\<And>h. chain mem (area c) (hash_list c h) (hash_offsets h es)"
    "\<And>h. cached c h \<noteq> 0 \<Longrightarrow> \<exists>off pc len. (off, pc, len) \<in> set es \<and> cached c h = area c + of_nat off \<and> hash_pc pc = h"
  using assms by (auto simp: cache_inv_def)

lemma entry_bounds:
  assumes "cache_inv (c, mem) es" "(off, pc, len) \<in> set es"
  shows "off + sizeof_tb + len \<le> nat (write_pos c)" "off + sizeof_tb + len \<le> nat (jitter_area_size c)"
  using layout_bounds [OF cache_invD(2) [OF assms(1)] assms(2)] cache_invD(1) [OF assms(1)] by (auto simp: geometry_def)

section \<open>Lookup\<close>

lemma search_list_chain:
  assumes "chain mem base p offs" "\<forall>off \<in> set offs. base + of_nat off \<noteq> 0"
  shows "search_list mem p pc = Some (case find (\<lambda>off. tb_guest_pc mem (base + of_nat off) = pc) offs of
     None \<Rightarrow> 0 | Some off \<Rightarrow> base + of_nat off)"
  using assms
proof (induction offs arbitrary: p)
  case Nil
  then show ?case by (simp add: search_list.simps)
next
  case (Cons off offs)
  then show ?case by (subst search_list.simps) auto
qed

lemma hash_offsets_iff:
  "off \<in> set (hash_offsets h es) \<longleftrightarrow> (\<exists>pc len. (off, pc, len) \<in> set es \<and> hash_pc pc = h)"
  by (force simp: hash_offsets_def)

text \<open>A lookup in a cache that need not be cleaned finds a block of the address if there is one.\<close>

lemma lookup_cache_spec:
  assumes inv: "cache_inv (c, mem) es" and cl: "\<not> clean c"
  shows "\<exists>a c'. lookup_cache (c, mem) pc event = Some (a, event, c', mem) \<and> cache_inv (c', mem) es \<and> \<not> clean c' \<and>
    (if a = 0 then (\<forall>off len. (off, pc, len) \<notin> set es) \<and> c' = c
     else \<exists>off len. (off, pc, len) \<in> set es \<and> a = tb_to_jit_area (area c + of_nat off)) \<and> area c' = area c"
proof -
  note I = cache_invD [OF inv]
  let ?h = "hash_pc pc" and ?at = "\<lambda>off. area c + of_nat off"
  have ent: "tb_guest_pc mem (?at off) = pc'" "?at off \<noteq> 0" "tb_to_jit_area (?at off) \<noteq> 0"
    if "(off, pc', len) \<in> set es" for off pc' len
  proof -
    show "tb_guest_pc mem (?at off) = pc'" using I(3) [OF that] by (simp add: entry_ok_def)
    show "?at off \<noteq> 0" using geometry_addr(2) [OF I(1), of off] entry_bounds(2) [OF inv that] by simp
    have "?at (off + sizeof_tb) \<noteq> 0" by (rule geometry_addr(2) [OF I(1)]) (use entry_bounds(2) [OF inv that] in simp)
    then show "tb_to_jit_area (?at off) \<noteq> 0" by (simp add: tb_to_jit_area_def ac_simps)
  qed
  show ?thesis
  proof (cases "cached c ?h \<noteq> 0 \<and> tb_guest_pc mem (cached c ?h) = pc")
    case True
    then obtain off pc' len where e: "(off, pc', len) \<in> set es" "cached c ?h = ?at off" using I(5) by blast
    then have "pc' = pc" using True ent(1) [OF e(1)] by simp
    with True e ent(3) [OF e(1)] show ?thesis
      using cl inv by (auto simp: lookup_cache_def Let_def)
  next
    case False
    let ?f = "find (\<lambda>off. tb_guest_pc mem (?at off) = pc) (hash_offsets ?h es)"
    have "\<forall>off \<in> set (hash_offsets ?h es). ?at off \<noteq> 0" using ent(2) by (auto simp: hash_offsets_iff)
    note S = search_list_chain [OF I(4) this, of pc]
    show ?thesis
    proof (cases ?f)
      case None
      then have "(off, pc, len) \<notin> set es" for off len
        using ent(1) [of off pc len] by (auto simp: find_None_iff hash_offsets_iff)
      then show ?thesis using None S False cl inv by (auto simp: lookup_cache_def Let_def)
    next
      case (Some off)
      then have "off \<in> set (hash_offsets ?h es)" "tb_guest_pc mem (?at off) = pc" by (auto simp: find_Some_iff)
      then obtain len where e: "(off, pc, len) \<in> set es" using ent(1) by (auto simp: hash_offsets_iff)
      let ?c = "c\<lparr>cached := (cached c)(?h := ?at off)\<rparr>"
      have "cache_inv (?c, mem) es"
        using inv e unfolding cache_inv_def geometry_def by auto
      then show ?thesis using Some S False cl e ent(2,3) [OF e] by (auto simp: lookup_cache_def Let_def)
    qed
  qed
qed


section \<open>Append\<close>

lemma far_offsets: "i < 2 ^ 64 \<Longrightarrow> j < 2 ^ 64 \<Longrightarrow> i \<noteq> j \<Longrightarrow> (a::u64) + of_nat i \<noteq> a + of_nat j"
  by (simp add: word_of_nat_eq_iff take_bit_nat_eq_self)

lemma write_tb_other:
  assumes "\<And>k. k < sizeof_tb \<Longrightarrow> x \<noteq> tb + of_nat k"
  shows "write_tb mem tb sz pc nxt x = mem x"
proof -
  have a: "x \<noteq> tb + 10 + of_nat k" if "k < 8" for k
    using assms [of "10 + k"] that by (simp add: sizeof_tb_def ac_simps)
  have b: "x \<noteq> tb + 2 + of_nat k" if "k < 8" for k
    using assms [of "2 + k"] that by (simp add: sizeof_tb_def ac_simps)
  have "write_tb mem tb sz pc nxt x = write_mem (write_mem mem tb 2 sz) (tb + 2) 8 pc x"
    unfolding write_tb_def by (rule write_mem_other) (rule a)
  also have "\<dots> = write_mem mem tb 2 sz x" by (rule write_mem_other) (rule b)
  also have "\<dots> = mem x" by (rule write_mem_other) (use assms in \<open>simp add: sizeof_tb_def\<close>)
  finally show ?thesis .
qed

lemma write_tb_fields:
  "tb_size (write_tb mem tb sz pc nxt) tb = take_bit 16 sz"
  "tb_guest_pc (write_tb mem tb sz pc nxt) tb = pc"
  "tb_next (write_tb mem tb sz pc nxt) tb = nxt"
proof -
  have d: "tb + of_nat i \<noteq> tb + of_nat j" if "i < 64" "j < 64" "i \<noteq> j" for i j :: nat
    using far_offsets [of i j tb] that by simp
  show "tb_next (write_tb mem tb sz pc nxt) tb = nxt"
    unfolding tb_next_def write_tb_def using read_write_mem [of 8] by (simp add: take_bit_word_eq_self del: read_mem.simps)
  have "tb_guest_pc (write_tb mem tb sz pc nxt) tb = read_mem (write_mem (write_mem mem tb 2 sz) (tb + 2) 8 pc) (tb + 2) 8"
    unfolding tb_guest_pc_def write_tb_def
  proof (rule read_mem_cong, rule write_mem_other)
    fix k l :: nat assume "k < 8" "l < 8"
    then show "tb + 2 + of_nat k \<noteq> tb + 10 + of_nat l" using d [of "2 + k" "10 + l"] by (simp add: ac_simps)
  qed
  then show "tb_guest_pc (write_tb mem tb sz pc nxt) tb = pc"
    using read_write_mem [of 8] by (simp add: take_bit_word_eq_self del: read_mem.simps)
  have "tb_size (write_tb mem tb sz pc nxt) tb = read_mem (write_mem mem tb 2 sz) tb 2"
    unfolding tb_size_def write_tb_def
  proof (rule read_mem_cong)
    fix k :: nat assume k: "k < 2"
    have "write_mem (write_mem (write_mem mem tb 2 sz) (tb + 2) 8 pc) (tb + 10) 8 nxt (tb + of_nat k)
        = write_mem (write_mem mem tb 2 sz) (tb + 2) 8 pc (tb + of_nat k)"
    proof (rule write_mem_other)
      fix l :: nat assume "l < 8"
      then show "tb + of_nat k \<noteq> tb + 10 + of_nat l" using k d [of k "10 + l"] by (simp add: ac_simps)
    qed
    also have "\<dots> = write_mem mem tb 2 sz (tb + of_nat k)"
    proof (rule write_mem_other)
      fix l :: nat assume "l < 8"
      then show "tb + of_nat k \<noteq> tb + 2 + of_nat l" using k d [of k "2 + l"] by (simp add: ac_simps)
    qed
    finally show "write_mem (write_mem (write_mem mem tb 2 sz) (tb + 2) 8 pc) (tb + 10) 8 nxt (tb + of_nat k)
        = write_mem mem tb 2 sz (tb + of_nat k)" .
  qed
  then show "tb_size (write_tb mem tb sz pc nxt) tb = take_bit 16 sz"
    using read_write_mem [of 2] by (simp del: read_mem.simps)
qed

text \<open>The block written by \<open>append\<close>.\<close>

definition new_block :: "memory \<Rightarrow> u64 \<Rightarrow> u64 \<Rightarrow> u64 \<Rightarrow> u8 list \<Rightarrow> memory" where
  "new_block mem tb pc nxt data =
     store_code (write_tb mem tb (of_nat (length data + sizeof_tb)) pc nxt) (tb_to_jit_area tb) (map Some data)"

lemma new_block_spec:
  assumes "sizeof_tb + length data < 2 ^ 16"
  shows "tb_size (new_block mem tb pc nxt data) tb = of_nat (sizeof_tb + length data)"
    "tb_guest_pc (new_block mem tb pc nxt data) tb = pc" "tb_next (new_block mem tb pc nxt data) tb = nxt"
    "code_at (new_block mem tb pc nxt data) (tb_to_jit_area tb) (map Some data)"
    "\<And>x. (\<And>k. k < sizeof_tb + length data \<Longrightarrow> x \<noteq> tb + of_nat k) \<Longrightarrow> new_block mem tb pc nxt data x = mem x"
proof -
  let ?w = "write_tb mem tb (of_nat (length data + sizeof_tb)) pc nxt"
  have hdr: "new_block mem tb pc nxt data (tb + of_nat k) = ?w (tb + of_nat k)" if "k < sizeof_tb" for k
    unfolding new_block_def
  proof (rule store_code_other)
    fix l assume "l < length (map Some data)"
    then show "tb + of_nat k \<noteq> tb_to_jit_area tb + of_nat l"
      using far_offsets [of k "sizeof_tb + l" tb] that assms by (simp add: tb_to_jit_area_def ac_simps)
  qed
  have rd: "read_mem (new_block mem tb pc nxt data) (tb + of_nat i) n = read_mem ?w (tb + of_nat i) n" if "i + n \<le> sizeof_tb" for i n
    by (rule read_mem_cong) (use hdr [of "i + _"] that in \<open>simp add: ac_simps\<close>)
  have sz: "take_bit 16 (of_nat (length data + sizeof_tb) :: u64) = of_nat (sizeof_tb + length data)"
  proof -
    have "take_bit 16 (of_nat n :: u64) = of_nat n" if "n < 2 ^ 16" for n
      using that by (metis of_nat_take_bit take_bit_nat_eq_self)
    from this [of "length data + sizeof_tb"] show ?thesis using assms by (simp add: add.commute)
  qed
  show "tb_size (new_block mem tb pc nxt data) tb = of_nat (sizeof_tb + length data)"
    using rd [of 0 2] write_tb_fields(1) [of mem tb "of_nat (length data + sizeof_tb)" pc nxt] sz
    by (simp add: tb_size_def sizeof_tb_def del: read_mem.simps)
  show "tb_guest_pc (new_block mem tb pc nxt data) tb = pc" "tb_next (new_block mem tb pc nxt data) tb = nxt"
    using rd [of 2 8] rd [of 10 8] write_tb_fields(2,3) [of mem tb "of_nat (length data + sizeof_tb)" pc nxt]
    by (simp_all add: tb_guest_pc_def tb_next_def sizeof_tb_def del: read_mem.simps)
  show "code_at (new_block mem tb pc nxt data) (tb_to_jit_area tb) (map Some data)"
    unfolding new_block_def by (rule store_code_at) (use assms in simp)
  show "new_block mem tb pc nxt data x = mem x" if x: "\<And>k. k < sizeof_tb + length data \<Longrightarrow> x \<noteq> tb + of_nat k" for x
  proof -
    have "new_block mem tb pc nxt data x = ?w x"
      unfolding new_block_def
    proof (rule store_code_other)
      fix l assume "l < length (map Some data)"
      then show "x \<noteq> tb_to_jit_area tb + of_nat l" using x [of "sizeof_tb + l"] by (simp add: tb_to_jit_area_def ac_simps)
    qed
    also have "\<dots> = mem x" by (rule write_tb_other) (use x in simp)
    finally show ?thesis .
  qed
qed

lemma append_cache_eq:
  "append_cache (c, mem) pc data event =
    (let full = write_pos c + int (length data) + int sizeof_tb > jitter_area_size c;
         c1 = (if full then reset_cache c else c);
         tb = area c1 + of_int (write_pos c1)
     in (tb_to_jit_area tb, event \<or> full,
         c1\<lparr>hash_list := (hash_list c1)(hash_pc pc := tb), write_pos := write_pos c1 + int (length data) + int sizeof_tb\<rparr>,
         new_block mem tb pc (hash_list c1 (hash_pc pc)) data))"
  by (simp add: append_cache_def new_block_def Let_def)

lemma reset_inv: "cache_inv (c, mem) es \<Longrightarrow> cache_inv (reset_cache c, mem) []"
  by (auto simp: cache_inv_def geometry_def reset_cache_def hash_offsets_def)

lemma chain_cong:
  assumes "\<forall>off \<in> set offs. tb_next mem' (base + of_nat off) = tb_next mem (base + of_nat off)"
  shows "chain mem' base p offs = chain mem base p offs"
  using assms by (induction offs arbitrary: p) auto

text \<open>A block appended behind the others.\<close>

lemma append_fits:
  fixes pc :: u64
  assumes inv: "cache_inv (c, mem) es" and len: "sizeof_tb + length data < 2 ^ 16"
    and fits: "write_pos c + int (length data) + int sizeof_tb \<le> jitter_area_size c"
  defines "off \<equiv> nat (write_pos c)"
  defines "tb \<equiv> area c + of_nat off"
  defines "mem' \<equiv> new_block mem tb pc (hash_list c (hash_pc pc)) data"
  shows "cache_inv (c\<lparr>hash_list := (hash_list c)(hash_pc pc := tb), write_pos := write_pos c + int (length data) + int sizeof_tb\<rparr>, mem')
      (es @ [(off, pc, length data)])"
    "\<forall>o1 < off. mem' (area c + of_nat o1) = mem (area c + of_nat o1)"
proof -
  note I = cache_invD [OF inv] and N = new_block_spec [where mem = mem and tb = tb and pc = pc and nxt = "hash_list c (hash_pc pc)", OF len, folded mem'_def]
  let ?c = "c\<lparr>hash_list := (hash_list c)(hash_pc pc := tb), write_pos := write_pos c + int (length data) + int sizeof_tb\<rparr>"
  have wp: "0 \<le> write_pos c" "off + sizeof_tb + length data \<le> nat (jitter_area_size c)"
    using I(1) fits by (auto simp: geometry_def off_def)
  show frame: "\<forall>o1 < off. mem' (area c + of_nat o1) = mem (area c + of_nat o1)"
  proof (intro allI impI N(5))
    fix o1 k assume "o1 < off" "k < sizeof_tb + length data"
    then show "area c + of_nat o1 \<noteq> tb + of_nat k"
      using geometry_inj [OF I(1), of o1 "off + k"] wp by (simp add: tb_def ac_simps)
  qed
  have rd: "read_mem mem' (area c + of_nat o1 + of_nat i) n = read_mem mem (area c + of_nat o1 + of_nat i) n"
    if "o1 + i + n \<le> off" for o1 i n
  proof (rule read_mem_cong)
    fix k assume "k < n"
    then show "mem' (area c + of_nat o1 + of_nat i + of_nat k) = mem (area c + of_nat o1 + of_nat i + of_nat k)"
      using frame [rule_format, of "o1 + i + k"] that by (simp add: add.assoc)
  qed
  have old: "tb_size mem' (area c + of_nat o1) = tb_size mem (area c + of_nat o1)"
    "tb_guest_pc mem' (area c + of_nat o1) = tb_guest_pc mem (area c + of_nat o1)"
    "tb_next mem' (area c + of_nat o1) = tb_next mem (area c + of_nat o1)" if "(o1, pc', len') \<in> set es" for o1 pc' len'
    using entry_bounds(1) [OF inv that] rd [of o1 0 2] rd [of o1 2 8] rd [of o1 10 8]
    by (simp_all add: tb_size_def tb_guest_pc_def tb_next_def off_def sizeof_tb_def del: read_mem.simps)
  have ch: "chain mem' (area c) (hash_list c h) (hash_offsets h es)" for h
  proof -
    have "\<forall>o1 \<in> set (hash_offsets h es). tb_next mem' (area c + of_nat o1) = tb_next mem (area c + of_nat o1)"
    proof
      fix o1 assume "o1 \<in> set (hash_offsets h es)"
      then obtain pc' len' where "(o1, pc', len') \<in> set es" by (auto simp: hash_offsets_iff)
      then show "tb_next mem' (area c + of_nat o1) = tb_next mem (area c + of_nat o1)" by (rule old(3))
    qed
    from chain_cong [OF this] I(4) [of h] show ?thesis by simp
  qed
  show "cache_inv (?c, mem') (es @ [(off, pc, length data)])"
    unfolding cache_inv_def prod.case
  proof (intro conjI allI impI ballI)
    show "geometry ?c" using I(1) fits by (auto simp: geometry_def)
    have "nat (write_pos ?c) = off + sizeof_tb + length data" using wp by (simp add: off_def)
    then show "layout 0 (es @ [(off, pc, length data)]) (nat (write_pos ?c))"
      using layout_snoc [OF I(2)] by (simp add: off_def)
    fix e assume m: "e \<in> set (es @ [(off, pc, length data)])"
    obtain o1 pc1 len1 where e: "e = (o1, pc1, len1)" by (rule prod_cases3)
    show "entry_ok mem' (area ?c) e"
    proof (cases "e \<in> set es")
      case True
      then show ?thesis using I(3) [OF True] old(1,2) [of o1 pc1 len1] unfolding e entry_ok_def by simp
    next
      case False
      then have "e = (off, pc, length data)" using m by simp
      then show ?thesis using N(1,2) len by (simp add: entry_ok_def tb_def)
    qed
  next
    fix h show "chain mem' (area ?c) (hash_list ?c h) (hash_offsets h (es @ [(off, pc, length data)]))"
      using ch [of h] N(3) by (auto simp: hash_offsets_def tb_def)
  next
    fix h assume "cached ?c h \<noteq> 0"
    then show "\<exists>o1 pc' len. (o1, pc', len) \<in> set (es @ [(off, pc, length data)]) \<and> cached ?c h = area ?c + of_nat o1 \<and> hash_pc pc' = h"
      using I(5) [of h] by auto
  qed
qed

lemma append_cache_spec:
  assumes inv: "cache_inv (c, mem) es" and len: "sizeof_tb + length data < 2 ^ 16"
    and size: "int (sizeof_tb + length data) \<le> jitter_area_size c"
    and a: "append_cache (c, mem) pc data event = (a, event', c', mem')"
  defines "full \<equiv> write_pos c + int (length data) + int sizeof_tb > jitter_area_size c"
  defines "off \<equiv> if full then 0 else nat (write_pos c)"
  shows "cache_inv (c', mem') ((if full then [] else es) @ [(off, pc, length data)])"
    "a = tb_to_jit_area (area c + of_nat off)" "event' \<longleftrightarrow> event \<or> full" "code_at mem' a (map Some data)"
    "\<forall>o1 < off. mem' (area c + of_nat o1) = mem (area c + of_nat o1)" "area c' = area c"
    "jitter_area_size c' = jitter_area_size c" "clean c' \<longleftrightarrow> clean c \<and> \<not> full"
proof -
  define c1 where "c1 = (if full then reset_cache c else c)"
  have inv1: "cache_inv (c1, mem) (if full then [] else es)"
    using inv reset_inv [OF inv] by (simp add: c1_def)
  have c1: "area c1 = area c" "jitter_area_size c1 = jitter_area_size c" "off = nat (write_pos c1)" "clean c1 \<longleftrightarrow> clean c \<and> \<not> full"
    by (simp_all add: c1_def reset_cache_def off_def)
  have fits: "write_pos c1 + int (length data) + int sizeof_tb \<le> jitter_area_size c1"
    using size by (auto simp: c1_def reset_cache_def full_def)
  have wp: "(of_int (write_pos c1) :: u64) = of_nat off"
    using cache_invD(1) [OF inv1] by (simp add: geometry_def c1(3))
  note F = append_fits [OF inv1 len fits, of pc, folded c1(3), unfolded c1(1)]
  have r: "a = tb_to_jit_area (area c + of_nat off)" "event' \<longleftrightarrow> event \<or> full"
    "c' = c1\<lparr>hash_list := (hash_list c1)(hash_pc pc := area c + of_nat off), write_pos := write_pos c1 + int (length data) + int sizeof_tb\<rparr>"
    "mem' = new_block mem (area c + of_nat off) pc (hash_list c1 (hash_pc pc)) data"
    using a by (auto simp: append_cache_eq Let_def full_def [symmetric] c1_def [symmetric] c1(1) wp)
  show "cache_inv (c', mem') ((if full then [] else es) @ [(off, pc, length data)])"
    "a = tb_to_jit_area (area c + of_nat off)" "event' \<longleftrightarrow> event \<or> full"
    "\<forall>o1 < off. mem' (area c + of_nat o1) = mem (area c + of_nat o1)" "area c' = area c"
    "jitter_area_size c' = jitter_area_size c" "clean c' \<longleftrightarrow> clean c \<and> \<not> full"
    using F r c1 by simp_all
  show "code_at mem' a (map Some data)" unfolding r(1,4) by (rule new_block_spec(4) [OF len])
qed


section \<open>From a host address to the guest address\<close>

lemma scan_finds:
  assumes "geometry c" "layout o1 es (nat (write_pos c))" "\<forall>e \<in> set es. entry_ok mem (area c) e"
    "(off, pc, len) \<in> set es" "off \<le> k" "k < off + sizeof_tb + len"
  shows "lookup_pc_from mem (area_end c) (area c + of_nat k) (area c + of_nat o1) =
     Some (pc, Some (tb_to_jit_area (area c + of_nat off)))"
  using assms
proof (induction es arbitrary: o1)
  case (Cons e es)
  obtain pc1 len1 where e: "e = (o1, pc1, len1)" using Cons.prems(2) by (cases e) auto
  let ?at = "\<lambda>i. area c + of_nat i :: u64" and ?nxt = "o1 + sizeof_tb + len1"
  have wp: "nat (write_pos c) \<le> nat (jitter_area_size c)" using Cons.prems(1) by (auto simp: geometry_def)
  have rest: "layout ?nxt es (nat (write_pos c))" using Cons.prems(2) by (simp add: e)
  have b: "off + sizeof_tb + len \<le> nat (write_pos c)" "o1 \<le> off"
    using layout_bounds [OF Cons.prems(2,4)] by auto
  have u: "unat (?at i) = unat (area c) + i" if "i \<le> nat (write_pos c)" for i
    using geometry_addr(1) [OF Cons.prems(1), of i] that wp by simp
  have k: "k < nat (write_pos c)" using b Cons.prems(6) by simp
  have sz: "tb_size mem (?at o1) = of_nat (sizeof_tb + len1)" "tb_guest_pc mem (?at o1) = pc1"
    using Cons.prems(3) by (auto simp: e entry_ok_def)
  have nxt: "?at o1 + tb_size mem (?at o1) = ?at ?nxt" by (simp add: sz ac_simps)
  have nb: "?nxt \<le> nat (write_pos c)" using layout_le [OF rest] .
  show ?case
  proof (cases "k < ?nxt")
    case True
    have "(off, pc, len) = e"
    proof (rule ccontr)
      assume "(off, pc, len) \<noteq> e"
      then have "?nxt \<le> off" using Cons.prems(4) layout_bounds [OF rest, of off pc len] by auto
      then show False using True Cons.prems(5) by simp
    qed
    then have e': "off = o1" "pc = pc1" by (simp_all add: e)
    have "?at o1 \<le> ?at k" "?at k < ?at ?nxt"
      using u [of o1] u [of k] u [of ?nxt] k b nb True Cons.prems(5) by (simp_all add: word_le_nat_alt word_less_nat_alt)
    then show ?thesis by (subst lookup_pc_from.simps) (simp add: nxt sz(2) e' tb_to_jit_area_def)
  next
    case False
    have "\<not> ?at k < ?at ?nxt" using u [of k] u [of ?nxt] k nb False by (simp add: word_less_nat_alt)
    moreover have "?at ?nxt < area_end c"
    proof -
      have "unat (area_end c) = unat (area c) + nat (jitter_area_size c)"
        using geometry_addr(1) [OF Cons.prems(1), of "nat (jitter_area_size c)"] Cons.prems(1) by (simp add: geometry_def)
      then show ?thesis using u [OF nb] False k wp by (simp add: word_less_nat_alt)
    qed
    moreover have "(off, pc, len) \<in> set es" using Cons.prems(4,6) False by (auto simp: e)
    then have "lookup_pc_from mem (area_end c) (?at k) (?at ?nxt) = Some (pc, Some (tb_to_jit_area (?at off)))"
      using Cons.IH [OF Cons.prems(1) rest] Cons.prems(3,5,6) by simp
    ultimately show ?thesis by (subst lookup_pc_from.simps) (simp only: nxt, simp)
  qed
qed simp

lemma lookup_pc_finds:
  assumes "cache_inv (c, mem) es" "(off, pc, len) \<in> set es" "k < len"
  shows "lookup_pc (c, mem) (tb_to_jit_area (area c + of_nat off) + of_nat k) = Some (pc, Some (tb_to_jit_area (area c + of_nat off)))"
proof -
  have "lookup_pc_from mem (area_end c) (area c + of_nat (off + sizeof_tb + k)) (area c + of_nat 0) =
     Some (pc, Some (tb_to_jit_area (area c + of_nat off)))"
    by (rule scan_finds [OF cache_invD(1,2) [OF assms(1)] _ assms(2)])
       (use cache_invD(3) [OF assms(1)] assms(3) in auto)
  then show ?thesis by (simp add: lookup_pc_def tb_to_jit_area_def ac_simps)
qed

lemma lookup_pc_from_stuck:
  assumes "tb_size mem ptr = 0" "ptr < stop"
  shows "lookup_pc_from mem stop host_pc ptr = None"
proof -
  have "\<not> (tb_size mem ptr = 0 \<and> ptr < stop)" if "lookup_pc_from mem stop host_pc ptr = Some y" for y
    by (rule lookup_pc_from.raw_induct [where P = "\<lambda>mem stop host_pc ptr y. \<not> (tb_size mem ptr = 0 \<and> ptr < stop)", OF _ that])
       (auto split: if_splits)
  with assms show ?thesis by (cases "lookup_pc_from mem stop host_pc ptr") auto
qed

end
