(* ===== verification/Cache_Interface.thy ===== *)
theory Cache_Interface
  imports Be_X86_64
begin

text \<open>
  \<open>struct cache\<close> of \<open>src/src/cache/cache.h\<close>: the interface between the main loop and the two caches,
  as a contract. \<open>lookup\<close> and \<open>append\<close> are the operations; a state is what the cache keeps together
  with the memory its blocks live in. \<open>block s pc a n\<close> says that \<open>n\<close> bytes of code for the guest
  address \<open>pc\<close> are at \<open>a\<close>, and \<open>meta s x\<close> that the cache keeps its own data in the byte at \<open>x\<close>.
  The event flag tells the caller that blocks may be gone.
\<close>

locale code_cache =
  fixes lookup :: "'c \<times> memory \<Rightarrow> u64 \<Rightarrow> bool \<Rightarrow> (u64 \<times> bool \<times> 'c \<times> memory) option"
    and append :: "'c \<times> memory \<Rightarrow> u64 \<Rightarrow> u64 \<Rightarrow> nat \<Rightarrow> bool \<Rightarrow> (u64 \<times> bool \<times> 'c \<times> memory) option"
    and inv :: "'c \<times> memory \<Rightarrow> bool"
    and block :: "'c \<times> memory \<Rightarrow> u64 \<Rightarrow> u64 \<Rightarrow> nat \<Rightarrow> bool"
    and meta :: "'c \<times> memory \<Rightarrow> u64 \<Rightarrow> bool"
    and buf :: u64 and buf_size :: nat
  assumes lookup_total: "inv s \<Longrightarrow> \<exists>a event' s'. lookup s pc event = Some (a, event', s')"
    and lookup_inv: "inv s \<Longrightarrow> lookup s pc event = Some (a, event', s') \<Longrightarrow> inv s' \<and> snd s' = snd s \<and> (event \<longrightarrow> event')"
    and lookup_hit: "inv s \<Longrightarrow> lookup s pc event = Some (a, event', s') \<Longrightarrow> a \<noteq> 0 \<Longrightarrow> \<exists>n. block s' pc a n"
    and lookup_miss: "inv s \<Longrightarrow> lookup s pc event = Some (0, False, s') \<Longrightarrow> \<not> block s pc a n"
    and lookup_keep: "inv s \<Longrightarrow> lookup s pc event = Some (a, False, s') \<Longrightarrow> block s pc' a' n \<Longrightarrow> block s' pc' a' n"
    and append_total: "inv s \<Longrightarrow> 0 < n \<Longrightarrow> n \<le> buf_size \<Longrightarrow> \<exists>a event' s'. append s pc buf n event = Some (a, event', s')"
    and append_inv: "inv s \<Longrightarrow> 0 < n \<Longrightarrow> n \<le> buf_size \<Longrightarrow> append s pc buf n event = Some (a, event', s') \<Longrightarrow>
      inv s' \<and> block s' pc a n \<and> (\<forall>i < n. snd s' (a + of_nat i) = snd s (buf + of_nat i)) \<and> (event \<longrightarrow> event')"
    and append_keep: "inv s \<Longrightarrow> 0 < n \<Longrightarrow> n \<le> buf_size \<Longrightarrow> lookup s0 pc False = Some (0, event, s0') \<Longrightarrow>
      append s pc buf n event = Some (a, False, s') \<Longrightarrow> block s pc' a' n' \<Longrightarrow>
      block s' pc' a' n' \<and> (\<forall>i < n'. snd s' (a' + of_nat i) = snd s (a' + of_nat i))"
    and frame: "inv (c, m) \<Longrightarrow> (\<And>x. meta (c, m) x \<Longrightarrow> m' x = m x) \<Longrightarrow> inv (c, m') \<and> (\<forall>pc a n. block (c, m') pc a n = block (c, m) pc a n)"
    and code_not_meta: "inv s \<Longrightarrow> block s pc a n \<Longrightarrow> i < n \<Longrightarrow> \<not> meta s (a + of_nat i)"
    and buf_not_meta: "inv s \<Longrightarrow> i < buf_size \<Longrightarrow> \<not> meta s (buf + of_nat i)"
    and buf_not_code: "inv s \<Longrightarrow> lookup s0 pc False = Some (0, False, s0') \<Longrightarrow> block s pc' a n \<Longrightarrow> i < n \<Longrightarrow> j < buf_size \<Longrightarrow>
      a + of_nat i \<noteq> buf + of_nat j"
begin

text \<open>Two lemmas every client needs: the code buffer may be overwritten, and code may be changed in place.\<close>

lemma write_buffer:
  assumes "inv (c, m)" "\<And>x. (\<And>j. j < buf_size \<Longrightarrow> x \<noteq> buf + of_nat j) \<Longrightarrow> m' x = m x"
  shows "inv (c, m')" "block (c, m') pc a n = block (c, m) pc a n"
proof -
  have "m' x = m x" if "meta (c, m) x" for x
    by (rule assms(2)) (use buf_not_meta [OF assms(1)] that in blast)
  from frame [OF assms(1) this] show "inv (c, m')" "block (c, m') pc a n = block (c, m) pc a n" by auto
qed

lemma write_code:
  assumes "inv (c, m)" "block (c, m) pc a n" "\<And>x. (\<And>i. i < n \<Longrightarrow> x \<noteq> a + of_nat i) \<Longrightarrow> m' x = m x"
  shows "inv (c, m')" "block (c, m') pc' a' n' = block (c, m) pc' a' n'"
proof -
  have "m' x = m x" if "meta (c, m) x" for x
    by (rule assms(3)) (use code_not_meta [OF assms(1,2)] that in blast)
  from frame [OF assms(1) this] show "inv (c, m')" "block (c, m') pc' a' n' = block (c, m) pc' a' n'" by auto
qed

end

end
