(* ===== verification/Cache_Global.thy ===== *)
theory Cache_Global
  imports Cache Cache_Interface
begin

text \<open>
  The list of all caches of \<open>src/src/cache/cache.c\<close>, the operations of \<open>struct cache\<close> that go through it,
  and the proof that the hashed cache keeps the contract of the main loop. A cache is named by
  its address; the structures of all caches are a map from addresses.
\<close>

section \<open>All caches\<close>

record caches =
  heap :: "u64 \<Rightarrow> internal_cache option"
  root :: u64
  is_cache_clean_need :: bool

definition ll_append_cache :: "u64 \<Rightarrow> caches \<Rightarrow> caches option" where
  "ll_append_cache p g = do {
     c \<leftarrow> heap g p;
     Some (g\<lparr>heap := (heap g)(p \<mapsto> c\<lparr>next_cache := root g\<rparr>), root := p\<rparr>)
   }"

text \<open>The loop of \<open>ll_remove_cache\<close>; the assertion behind it fails when the cache is not in the list.\<close>

partial_function (option) ll_remove_from :: "caches \<Rightarrow> u64 \<Rightarrow> u64 \<Rightarrow> u64 \<Rightarrow> caches option" where
  "ll_remove_from g p prev current =
     (if current = 0 then None
      else do {
        c \<leftarrow> heap g current;
        if current = p then do {
          g \<leftarrow> (if prev \<noteq> 0 then do {
                 pc \<leftarrow> heap g prev;
                 Some (g\<lparr>heap := (heap g)(prev \<mapsto> pc\<lparr>next_cache := next_cache c\<rparr>)\<rparr>) }
               else Some (g\<lparr>root := next_cache c\<rparr>));
          Some (g\<lparr>heap := (heap g)(current \<mapsto> c\<lparr>next_cache := 0\<rparr>)\<rparr>) }
        else ll_remove_from g p current (next_cache c)
      })"

definition ll_remove_cache :: "u64 \<Rightarrow> caches \<Rightarrow> caches option" where
  "ll_remove_cache p g = ll_remove_from g p 0 (root g)"

definition ll_clean_cache :: "internal_cache \<Rightarrow> internal_cache" where
  "ll_clean_cache c = c\<lparr>clean := True\<rparr>"

partial_function (option) ll_clean_from :: "caches \<Rightarrow> u64 \<Rightarrow> caches option" where
  "ll_clean_from g current =
     (if current = 0 then Some g
      else do {
        c \<leftarrow> heap g current;
        ll_clean_from (g\<lparr>heap := (heap g)(current \<mapsto> ll_clean_cache c)\<rparr>) (next_cache c)
      })"

definition ll_clean_caches :: "caches \<Rightarrow> caches option" where
  "ll_clean_caches g = ll_clean_from g (root g)"

text \<open>\<open>lookup\<close> and \<open>append\<close> of the cache at \<open>p\<close>.\<close>

definition cache_lookup :: "u64 \<Rightarrow> caches \<times> memory \<Rightarrow> u64 \<Rightarrow> bool \<Rightarrow> (u64 \<times> bool \<times> caches \<times> memory) option" where
  "cache_lookup p = (\<lambda>(g, mem) pc event. do {
     g \<leftarrow> (if is_cache_clean_need g then do {
            g \<leftarrow> ll_clean_caches g;
            Some (g\<lparr>is_cache_clean_need := False\<rparr>) }
          else Some g);
     c \<leftarrow> heap g p;
     (a, event, c, mem) \<leftarrow> lookup_cache (c, mem) pc event;
     Some (a, event, g\<lparr>heap := (heap g)(p \<mapsto> c)\<rparr>, mem)
   })"

definition cache_append :: "u64 \<Rightarrow> caches \<times> memory \<Rightarrow> u64 \<Rightarrow> u64 \<Rightarrow> nat \<Rightarrow> bool \<Rightarrow> (u64 \<times> bool \<times> caches \<times> memory) option" where
  "cache_append p = (\<lambda>(g, mem) pc data sz event. do {
     c \<leftarrow> heap g p;
     let (a, event, c, mem) = append_cache (c, mem) pc (map (\<lambda>i. mem (data + of_nat i)) [0..<sz]) event;
     Some (a, event, g\<lparr>heap := (heap g)(p \<mapsto> c)\<rparr>, mem)
   })"

definition sizeof_internal_cache :: int where "sizeof_internal_cache = 262208"

definition createCache :: "u64 \<Rightarrow> int \<Rightarrow> caches \<Rightarrow> caches option" where
  "createCache memory sz g = do {
     assert (memory \<noteq> 0);
     assert (sz \<ge> MIN_CACHE_SIZE);
     let c = \<lparr>next_cache = 0, jitter_area_size = sz - sizeof_internal_cache, write_pos = 0, clean = False,
              cached = (\<lambda>_. 0), hash_list = (\<lambda>_. 0), area = memory + of_int sizeof_internal_cache,
              area_end = memory + of_int sz\<rparr>;
     ll_append_cache memory (g\<lparr>heap := (heap g)(memory \<mapsto> reset_cache c)\<rparr>)
   }"

definition removeCache :: "u64 \<Rightarrow> caches \<Rightarrow> caches option" where
  "removeCache p g = ll_remove_cache p g"

definition cleanCaches :: "caches \<Rightarrow> caches" where
  "cleanCaches g = g\<lparr>is_cache_clean_need := True\<rparr>"

lemmas cache_operations [cache_simps] = createCache_def ll_append_cache_def cache_lookup_def lookup_cache_def reset_cache_def
  search_list.simps MIN_CACHE_SIZE_def

section \<open>The list of caches\<close>

fun linked :: "(u64 \<Rightarrow> internal_cache option) \<Rightarrow> u64 \<Rightarrow> u64 list \<Rightarrow> bool" where
  "linked h p [] = (p = 0)"
| "linked h p (q # qs) = (p = q \<and> q \<noteq> 0 \<and> (\<exists>c. h q = Some c \<and> linked h (next_cache c) qs))"

lemma linked_cong:
  assumes "\<forall>q \<in> set qs. map_option next_cache (h' q) = map_option next_cache (h q)"
  shows "linked h' p qs = linked h p qs"
  using assms
proof (induction qs arbitrary: p)
  case (Cons q qs)
  have "(\<exists>c. h' q = Some c \<and> linked h (next_cache c) qs) = (\<exists>c. h q = Some c \<and> linked h (next_cache c) qs)"
    using Cons.prems by (cases "h q"; cases "h' q") auto
  with Cons show ?case by simp
qed simp

definition caches_wf :: "caches \<Rightarrow> u64 list \<Rightarrow> bool" where
  "caches_wf g qs \<longleftrightarrow> linked (heap g) (root g) qs \<and> distinct qs"

lemma ll_append_wf:
  assumes "caches_wf g qs" "heap g p = Some c" "p \<noteq> 0" "p \<notin> set qs"
  shows "\<exists>g'. ll_append_cache p g = Some g' \<and> caches_wf g' (p # qs) \<and> heap g' p = Some (c\<lparr>next_cache := root g\<rparr>) \<and>
    (\<forall>q. q \<noteq> p \<longrightarrow> heap g' q = heap g q)"
proof -
  have "linked ((heap g)(p \<mapsto> c\<lparr>next_cache := root g\<rparr>)) (root g) qs = linked (heap g) (root g) qs"
    by (rule linked_cong) (use assms(4) in auto)
  then show ?thesis using assms by (simp add: ll_append_cache_def caches_wf_def)
qed

lemma ll_clean_from_spec:
  assumes "linked (heap g) p qs" "distinct qs"
  shows "\<exists>h. ll_clean_from g p = Some (g\<lparr>heap := h\<rparr>) \<and>
     (\<forall>q. h q = (if q \<in> set qs then map_option ll_clean_cache (heap g q) else heap g q))"
  using assms
proof (induction qs arbitrary: g p)
  case Nil
  then show ?case by (auto simp: ll_clean_from.simps intro!: exI [of _ "heap g"])
next
  case (Cons q qs)
  then obtain c where c: "p = q" "q \<noteq> 0" "heap g q = Some c" "linked (heap g) (next_cache c) qs" by auto
  let ?g = "g\<lparr>heap := (heap g)(q \<mapsto> ll_clean_cache c)\<rparr>"
  have "linked (heap ?g) (next_cache c) qs"
    using c(4) Cons.prems(2) linked_cong [of qs "heap ?g" "heap g"] by auto
  from Cons.IH [OF this] Cons.prems(2) obtain h where h: "ll_clean_from ?g (next_cache c) = Some (?g\<lparr>heap := h\<rparr>)"
    "\<forall>r. h r = (if r \<in> set qs then map_option ll_clean_cache (heap ?g r) else heap ?g r)" by auto
  show ?case
    by (rule exI [of _ h], subst ll_clean_from.simps) (use c h Cons.prems(2) in auto)
qed

text \<open>Removing a cache takes exactly it out of the list.\<close>

lemma ll_remove_from_spec:
  assumes "linked (heap g) cur qs" "distinct qs" "p \<in> set qs" "prev = 0 \<Longrightarrow> cur = root g"
    "prev \<noteq> 0 \<Longrightarrow> prev \<notin> set qs \<and> (\<exists>pc. heap g prev = Some pc \<and> next_cache pc = cur)"
  shows "\<exists>g'. ll_remove_from g p prev cur = Some g' \<and>
     is_cache_clean_need g' = is_cache_clean_need g \<and>
     linked (heap g') (if prev = 0 then root g' else next_cache (the (heap g' prev))) (remove1 p qs) \<and>
     (prev \<noteq> 0 \<longrightarrow> root g' = root g \<and> heap g' prev \<noteq> None) \<and>
     (\<forall>q. q \<notin> insert prev (set qs) \<longrightarrow> heap g' q = heap g q)"
  using assms
proof (induction qs arbitrary: g cur prev)
  case (Cons q qs)
  then obtain c where c: "cur = q" "q \<noteq> 0" "heap g q = Some c" "linked (heap g) (next_cache c) qs" by auto
  show ?case
  proof (cases "q = p")
    case True
    show ?thesis
    proof (cases "prev = 0")
      case prev: True
      define h where "h = (heap g)(q \<mapsto> c\<lparr>next_cache := 0\<rparr>)"
      have h: "linked h (next_cache c) qs" "\<forall>r. r \<noteq> q \<longrightarrow> h r = heap g r"
        using c(4) Cons.prems(2) linked_cong [of qs h "heap g"] by (auto simp: h_def)
      have "ll_remove_from g p prev cur = Some (g\<lparr>root := next_cache c, heap := h\<rparr>)"
        by (subst ll_remove_from.simps) (use c True prev in \<open>simp add: h_def\<close>)
      then show ?thesis using prev h True by simp
    next
      case prev: False
      then obtain pc where pc: "prev \<notin> set (q # qs)" "heap g prev = Some pc" using Cons.prems(5) by auto
      define h where "h = (heap g)(prev \<mapsto> pc\<lparr>next_cache := next_cache c\<rparr>, q \<mapsto> c\<lparr>next_cache := 0\<rparr>)"
      have h: "\<forall>r. r \<noteq> q \<and> r \<noteq> prev \<longrightarrow> h r = heap g r" "h prev = Some (pc\<lparr>next_cache := next_cache c\<rparr>)"
        using pc by (auto simp: h_def)
      have "\<forall>r \<in> set qs. map_option next_cache (h r) = map_option next_cache (heap g r)"
        using h(1) Cons.prems(2) pc(1) by auto
      from linked_cong [OF this] have l: "linked h (next_cache c) qs" using c(4) by simp
      have "ll_remove_from g p prev cur = Some (g\<lparr>heap := h\<rparr>)"
        by (subst ll_remove_from.simps) (use c True prev pc in \<open>simp add: h_def\<close>)
      then show ?thesis using prev h l True by simp
    qed
  next
    case False
    then have "p \<in> set qs" using Cons.prems(3) by simp
    with Cons.IH [OF c(4), of q] Cons.prems(2) c obtain g' where g': "ll_remove_from g p q (next_cache c) = Some g'"
      "is_cache_clean_need g' = is_cache_clean_need g"
      "linked (heap g') (next_cache (the (heap g' q))) (remove1 p qs)" "root g' = root g" "heap g' q \<noteq> None"
      "\<forall>r. r \<notin> insert q (set qs) \<longrightarrow> heap g' r = heap g r" by auto
    have r: "ll_remove_from g p prev cur = Some g'" using g'(1) c False by (subst ll_remove_from.simps) simp
    have l: "linked (heap g') cur (remove1 p (q # qs))" using g'(3,5) c False by auto
    show ?thesis
    proof (cases "prev = 0")
      case True
      then show ?thesis using r l g' Cons.prems(4) by auto
    next
      case prev: False
      then obtain pc where "heap g prev = Some pc" "next_cache pc = cur" "prev \<notin> set (q # qs)" using Cons.prems(5) by auto
      then show ?thesis using r l g' prev by auto
    qed
  qed
qed simp

lemma ll_remove_wf:
  assumes "caches_wf g qs" "p \<in> set qs"
  shows "\<exists>g'. ll_remove_cache p g = Some g' \<and> caches_wf g' (remove1 p qs)"
  using ll_remove_from_spec [of g "root g" qs p 0] assms by (auto simp: caches_wf_def ll_remove_cache_def)

lemma ll_clean_caches_wf:
  assumes "caches_wf g qs"
  shows "\<exists>h. ll_clean_caches g = Some (g\<lparr>heap := h\<rparr>) \<and> caches_wf (g\<lparr>heap := h\<rparr>) qs \<and>
     (\<forall>q. h q = (if q \<in> set qs then map_option ll_clean_cache (heap g q) else heap g q))"
proof -
  from assms have l: "linked (heap g) (root g) qs" "distinct qs" by (simp_all add: caches_wf_def)
  from ll_clean_from_spec [OF l] obtain h where h: "ll_clean_from g (root g) = Some (g\<lparr>heap := h\<rparr>)"
    "\<forall>q. h q = (if q \<in> set qs then map_option ll_clean_cache (heap g q) else heap g q)" by blast
  have "linked h (root g) qs = linked (heap g) (root g) qs"
    by (rule linked_cong) (auto simp: h(2) ll_clean_cache_def option.map_comp comp_def)
  then show ?thesis using h l by (auto simp: ll_clean_caches_def caches_wf_def)
qed

lemma caches_wf_upd:
  assumes "caches_wf g qs" "heap g p = Some c" "next_cache c' = next_cache c"
  shows "caches_wf (g\<lparr>heap := (heap g)(p \<mapsto> c')\<rparr>) qs"
proof -
  have "linked ((heap g)(p \<mapsto> c')) (root g) qs = linked (heap g) (root g) qs"
    by (rule linked_cong) (use assms in auto)
  then show ?thesis using assms(1) by (simp add: caches_wf_def)
qed

section \<open>The contract of the cache\<close>

text \<open>The blocks of a cache are determined by the bytes of its area.\<close>

lemma layout_unique:
  assumes "layout o1 es stop" "layout o1 es' stop" "\<forall>e \<in> set es. entry_ok mem base e" "\<forall>e \<in> set es'. entry_ok mem base e"
  shows "es = es'"
  using assms
proof (induction es arbitrary: o1 es')
  case Nil
  show ?case
  proof (cases es')
    case (Cons e es2)
    then have "layout (o1 + sizeof_tb + snd (snd e)) es2 o1" using Nil.prems(1,2) by (cases e) simp
    then show ?thesis by (auto simp: sizeof_tb_def dest: layout_le)
  qed simp
next
  case (Cons e es)
  obtain pc len where e: "e = (o1, pc, len)" using Cons.prems(1) by (cases e) auto
  have rest: "layout (o1 + sizeof_tb + len) es stop" using Cons.prems(1) by (simp add: e)
  then have "o1 < stop" by (auto simp: sizeof_tb_def dest: layout_le)
  then obtain e' es2 where es': "es' = e' # es2" using Cons.prems(2) by (cases es') auto
  then obtain pc' len' where e': "e' = (o1, pc', len')" using Cons.prems(2) by (cases e') auto
  have ok: "entry_ok mem base (o1, pc, len)" "entry_ok mem base (o1, pc', len')" using Cons.prems(3,4) by (auto simp: e e' es')
  then have b: "sizeof_tb + len < 2 ^ 16" "sizeof_tb + len' < 2 ^ 16"
    and eq: "(of_nat (sizeof_tb + len) :: u64) = of_nat (sizeof_tb + len')" "pc = pc'"
    by (simp_all add: entry_ok_def)
  have "len = len'"
    using far_offsets [of "sizeof_tb + len" "sizeof_tb + len'" 0] b eq(1) by fastforce
  then show ?case using Cons.IH [OF rest, of es2] Cons.prems(2,3,4) eq(2) by (auto simp: e e' es')
qed

lemma layout_disjoint:
  assumes "layout o1 es stop" "e \<in> set es" "e' \<in> set es"
  shows "e = e' \<or> fst e + sizeof_tb + snd (snd e) \<le> fst e' \<or> fst e' + sizeof_tb + snd (snd e') \<le> fst e"
  using assms
proof (induction es arbitrary: o1)
  case (Cons x es)
  obtain pc len where x: "x = (o1, pc, len)" using Cons.prems(1) by (cases x) auto
  have rest: "layout (o1 + sizeof_tb + len) es stop" using Cons.prems(1) by (simp add: x)
  have "o1 + sizeof_tb + len \<le> fst y" if "y \<in> set es" for y
    using layout_bounds [OF rest, of "fst y" "fst (snd y)" "snd (snd y)"] that by simp
  note b = this
  consider "e = x" "e' = x" | "e = x" "e' \<in> set es" | "e \<in> set es" "e' = x" | "e \<in> set es" "e' \<in> set es"
    using Cons.prems(2,3) by auto
  then show ?case by cases (use b [of e] b [of e'] Cons.IH [OF rest] in \<open>simp_all add: x\<close>)
qed simp

lemma cache_inv_unique: "cache_inv (c, mem) es \<Longrightarrow> cache_inv (c, mem) es' \<Longrightarrow> es = es'"
  by (rule layout_unique [of 0 es "nat (write_pos c)" es' mem "area c"])
     (auto simp: cache_inv_def)

definition cache_block :: "u64 \<Rightarrow> caches \<times> memory \<Rightarrow> u64 \<Rightarrow> u64 \<Rightarrow> nat \<Rightarrow> bool" where
  "cache_block p = (\<lambda>(g, mem) pc a n. \<exists>c es off. heap g p = Some c \<and> cache_inv (c, mem) es \<and>
     (off, pc, n) \<in> set es \<and> a = tb_to_jit_area (area c + of_nat off))"

text \<open>The headers of the blocks are the data the cache keeps between them.\<close>

definition cache_meta :: "u64 \<Rightarrow> caches \<times> memory \<Rightarrow> u64 \<Rightarrow> bool" where
  "cache_meta p = (\<lambda>(g, mem) x. \<exists>c es off pc n k. heap g p = Some c \<and> cache_inv (c, mem) es \<and>
     (off, pc, n) \<in> set es \<and> k < sizeof_tb \<and> x = area c + of_nat (off + k))"

text \<open>The buffer of the caller is outside the area, and a full buffer fits into the area.\<close>

definition buffer_ok :: "u64 \<Rightarrow> nat \<Rightarrow> internal_cache \<Rightarrow> bool" where
  "buffer_ok buf n c \<longleftrightarrow> sizeof_tb + n < 2 ^ 16 \<and> int (sizeof_tb + n) \<le> jitter_area_size c \<and>
     (\<forall>i < n. \<forall>k < nat (jitter_area_size c). buf + of_nat i \<noteq> area c + of_nat k)"

definition cache_state_inv :: "u64 \<Rightarrow> u64 \<Rightarrow> nat \<Rightarrow> caches \<times> memory \<Rightarrow> bool" where
  "cache_state_inv p buf n = (\<lambda>(g, mem). \<exists>qs c es. caches_wf g qs \<and> p \<in> set qs \<and> heap g p = Some c \<and>
     cache_inv (c, mem) es \<and> buffer_ok buf n c)"

lemma cache_block_iff:
  assumes "heap g p = Some c" "cache_inv (c, mem) es"
  shows "cache_block p (g, mem) pc a k \<longleftrightarrow> (\<exists>off. (off, pc, k) \<in> set es \<and> a = tb_to_jit_area (area c + of_nat off))"
proof -
  have "heap g p = Some c' \<and> cache_inv (c', mem) es' \<longleftrightarrow> c' = c \<and> es' = es" for c' es'
    using assms cache_inv_unique [of c mem es es'] by auto
  then show ?thesis unfolding cache_block_def prod.case by metis
qed

lemma cache_state_invE:
  assumes "cache_state_inv p buf n (g, mem)"
  obtains qs c es where "caches_wf g qs" "p \<in> set qs" "heap g p = Some c" "cache_inv (c, mem) es" "buffer_ok buf n c"
    "\<And>pc a k. cache_block p (g, mem) pc a k \<longleftrightarrow> (\<exists>off. (off, pc, k) \<in> set es \<and> a = tb_to_jit_area (area c + of_nat off))"
    "\<And>x. cache_meta p (g, mem) x \<longleftrightarrow> (\<exists>off pc n k. (off, pc, n) \<in> set es \<and> k < sizeof_tb \<and> x = area c + of_nat (off + k))"
proof -
  from assms obtain qs c es where h: "caches_wf g qs" "p \<in> set qs" "heap g p = Some c" "cache_inv (c, mem) es" "buffer_ok buf n c"
    by (auto simp: cache_state_inv_def)
  have u: "heap g p = Some c' \<and> cache_inv (c', mem) es' \<longleftrightarrow> c' = c \<and> es' = es" for c' es'
    using h cache_inv_unique [of c mem es es'] by auto
  show thesis
  proof (rule that [OF h])
    fix pc a k
    show "cache_block p (g, mem) pc a k \<longleftrightarrow> (\<exists>off. (off, pc, k) \<in> set es \<and> a = tb_to_jit_area (area c + of_nat off))"
      by (rule cache_block_iff [OF h(3,4)])
  next
    fix x
    show "cache_meta p (g, mem) x \<longleftrightarrow> (\<exists>off pc n k. (off, pc, n) \<in> set es \<and> k < sizeof_tb \<and> x = area c + of_nat (off + k))"
      unfolding cache_meta_def prod.case using u by metis
  qed
qed

lemma cache_state_invI:
  "caches_wf g qs \<Longrightarrow> p \<in> set qs \<Longrightarrow> heap g p = Some c \<Longrightarrow> cache_inv (c, mem) es \<Longrightarrow> buffer_ok buf n c \<Longrightarrow> cache_state_inv p buf n (g, mem)"
  by (auto simp: cache_state_inv_def)

lemma cache_blockI:
  "heap g p = Some c \<Longrightarrow> cache_inv (c, mem) es \<Longrightarrow> (off, pc, n) \<in> set es \<Longrightarrow> cache_block p (g, mem) pc (tb_to_jit_area (area c + of_nat off)) n"
  by (auto simp: cache_block_def)

lemma lookup_cache_config:
  "lookup_cache (c, mem) pc event = Some (a, event', c', mem') \<Longrightarrow>
    next_cache c' = next_cache c \<and> jitter_area_size c' = jitter_area_size c \<and> area c' = area c"
  by (auto simp: lookup_cache_def Let_def reset_cache_def split: if_splits bind_splits)

text \<open>A lookup either cleans the cache and says so, or keeps every block.\<close>

lemma cache_lookup_cases:
  assumes "cache_state_inv p buf n (g, mem)"
  obtains (clean) g' where "cache_lookup p (g, mem) pc event = Some (0, True, g', mem)" "cache_state_inv p buf n (g', mem)"
  | (keep) a g' where "cache_lookup p (g, mem) pc event = Some (a, event, g', mem)" "cache_state_inv p buf n (g', mem)"
      "\<forall>pc a k. cache_block p (g, mem) pc a k \<longrightarrow> cache_block p (g', mem) pc a k"
      "if a = 0 then \<forall>a k. \<not> cache_block p (g, mem) pc a k else \<exists>k. cache_block p (g', mem) pc a k"
      "\<forall>pc a k. cache_block p (g', mem) pc a k \<longrightarrow> cache_block p (g, mem) pc a k"
      "\<not> is_cache_clean_need g'" "\<exists>c. heap g' p = Some c \<and> \<not> clean c"
proof -
  obtain qs c es where h: "caches_wf g qs" "p \<in> set qs" "heap g p = Some c" "cache_inv (c, mem) es" "buffer_ok buf n c"
    and bl: "\<And>pc a k. cache_block p (g, mem) pc a k \<longleftrightarrow> (\<exists>off. (off, pc, k) \<in> set es \<and> a = tb_to_jit_area (area c + of_nat off))"
    using assms by (rule cache_state_invE) metis
  define g1 where "g1 = (if is_cache_clean_need g then (the (ll_clean_caches g))\<lparr>is_cache_clean_need := False\<rparr> else g)"
  define c1 where "c1 = (if is_cache_clean_need g then ll_clean_cache c else c)"
  from ll_clean_caches_wf [OF h(1)] obtain h1 where h1: "ll_clean_caches g = Some (g\<lparr>heap := h1\<rparr>)"
    "caches_wf (g\<lparr>heap := h1\<rparr>) qs" "h1 p = Some (ll_clean_cache c)" using h(2,3) by auto
  have g1: "caches_wf g1 qs" "heap g1 p = Some c1" using h h1 by (simp_all add: g1_def c1_def caches_wf_def)
  have c1: "next_cache c1 = next_cache c" "buffer_ok buf n c1" "cache_inv (c1, mem) es" "area c1 = area c"
    using h(4,5) by (simp_all add: c1_def ll_clean_cache_def buffer_ok_def cache_inv_def geometry_def)
  have lk: "cache_lookup p (g, mem) pc event = do {
     (a, event, c', mem) \<leftarrow> lookup_cache (c1, mem) pc event;
     Some (a, event, g1\<lparr>heap := (heap g1)(p \<mapsto> c')\<rparr>, mem) }"
    using h1 g1 by (simp add: cache_lookup_def g1_def c1_def h(3))
  have upd: "cache_state_inv p buf n (g1\<lparr>heap := (heap g1)(p \<mapsto> c')\<rparr>, mem)"
    if "lookup_cache (c1, mem) pc event = Some (a, event', c', mem')" "cache_inv (c', mem) es'" for a event' c' mem' es'
  proof (rule cache_state_invI [OF caches_wf_upd [OF g1] h(2) _ that(2)])
    show "next_cache c' = next_cache c1" "buffer_ok buf n c'"
      using lookup_cache_config [OF that(1)] c1(2) by (auto simp: buffer_ok_def)
  qed simp
  show thesis
  proof (cases "clean c1")
    case True
    then have l: "lookup_cache (c1, mem) pc event = Some (0, True, reset_cache c1, mem)" by (simp add: lookup_cache_def)
    show thesis by (rule clean) (use lk l in simp, rule upd [OF l reset_inv [OF c1(3)]])
  next
    case False
    from lookup_cache_spec [OF c1(3) False, of pc event] obtain a c' where l:
      "lookup_cache (c1, mem) pc event = Some (a, event, c', mem)" "cache_inv (c', mem) es" "area c' = area c1" "\<not> clean c'"
      and r: "if a = 0 then (\<forall>off len. (off, pc, len) \<notin> set es) \<and> c' = c1
        else \<exists>off len. (off, pc, len) \<in> set es \<and> a = tb_to_jit_area (area c1 + of_nat off)" by blast
    let ?g = "g1\<lparr>heap := (heap g1)(p \<mapsto> c')\<rparr>"
    have b: "cache_block p (?g, mem) pc' (tb_to_jit_area (area c + of_nat off)) k" if "(off, pc', k) \<in> set es" for off pc' k
      using cache_blockI [of ?g p c' mem es off pc' k] l(2,3) c1(4) that by simp
    show thesis
    proof (rule keep)
      show "cache_lookup p (g, mem) pc event = Some (a, event, ?g, mem)" using lk l(1) by simp
      show "cache_state_inv p buf n (?g, mem)" by (rule upd [OF l(1,2)])
      show "\<forall>pc a k. cache_block p (g, mem) pc a k \<longrightarrow> cache_block p (?g, mem) pc a k" using b by (auto simp: bl)
      show "if a = 0 then \<forall>a k. \<not> cache_block p (g, mem) pc a k else \<exists>k. cache_block p (?g, mem) pc a k"
      proof (cases "a = 0")
        case False
        then obtain off len where "(off, pc, len) \<in> set es" "a = tb_to_jit_area (area c + of_nat off)" using r c1(4) by auto
        with False b [of off pc len] show ?thesis by auto
      qed (use r bl in auto)
      show "\<forall>pc a k. cache_block p (?g, mem) pc a k \<longrightarrow> cache_block p (g, mem) pc a k"
        using cache_block_iff [of ?g p c' mem es] l(2,3) c1(4) by (auto simp: bl)
      show "\<not> is_cache_clean_need ?g" using h1(1) by (auto simp: g1_def)
      show "\<exists>c. heap ?g p = Some c \<and> \<not> clean c" using l(4) by simp
    qed
  qed
qed

lemma append_cache_next: "append_cache (c, mem) pc data event = (a, event', c', mem') \<Longrightarrow> next_cache c' = next_cache c"
  by (auto simp: append_cache_eq Let_def reset_cache_def split: if_splits)

text \<open>A block appended holds the bytes of the buffer; the others stay, unless the cache says that it has been cleaned.\<close>

lemma cache_append_spec:
  assumes "cache_state_inv p buf n (g, mem)" "k \<le> n"
  shows "\<exists>a event' g' mem'. cache_append p (g, mem) pc buf k event = Some (a, event', g', mem') \<and>
     cache_state_inv p buf n (g', mem') \<and> cache_block p (g', mem') pc a k \<and> (event \<longrightarrow> event') \<and>
     (\<forall>i < k. mem' (a + of_nat i) = mem (buf + of_nat i)) \<and>
     (\<not> event' \<longrightarrow> (\<forall>pc' a' n'. cache_block p (g, mem) pc' a' n' \<longrightarrow>
        cache_block p (g', mem') pc' a' n' \<and> (\<forall>i < n'. mem' (a' + of_nat i) = mem (a' + of_nat i))))"
proof -
  obtain qs c es where h: "caches_wf g qs" "p \<in> set qs" "heap g p = Some c" "cache_inv (c, mem) es" "buffer_ok buf n c"
    and bl: "\<And>pc a k. cache_block p (g, mem) pc a k \<longleftrightarrow> (\<exists>off. (off, pc, k) \<in> set es \<and> a = tb_to_jit_area (area c + of_nat off))"
    using assms(1) by (rule cache_state_invE) metis
  let ?data = "map (\<lambda>i. mem (buf + of_nat i)) [0..<k]"
  obtain a event' c' mem' where ap: "append_cache (c, mem) pc ?data event = (a, event', c', mem')" by (metis prod_cases4)
  have "sizeof_tb + length ?data < 2 ^ 16" "int (sizeof_tb + length ?data) \<le> jitter_area_size c"
    using h(5) assms(2) by (auto simp: buffer_ok_def)
  note A = append_cache_spec [OF h(4) this ap]
  let ?g = "g\<lparr>heap := (heap g)(p \<mapsto> c')\<rparr>"
  have "cache_append p (g, mem) pc buf k event = Some (a, event', ?g, mem')"
    using h(3) ap by (simp add: cache_append_def)
  moreover have "cache_state_inv p buf n (?g, mem')"
    using cache_state_invI [OF caches_wf_upd [OF h(1,3) append_cache_next [OF ap]] h(2) _ A(1)] h(5) A(6,7)
    by (simp add: buffer_ok_def)
  moreover have new: "cache_block p (?g, mem') pc' (tb_to_jit_area (area c + of_nat off)) n'"
    if "(off, pc', n') \<in> set ((if write_pos c + int (length ?data) + int sizeof_tb > jitter_area_size c then [] else es) @
      [(if write_pos c + int (length ?data) + int sizeof_tb > jitter_area_size c then 0 else nat (write_pos c), pc, length ?data)])" for off pc' n'
    using cache_blockI [OF _ A(1) that, of ?g p] A(6) by simp
  have "cache_block p (?g, mem') pc a k" using new [of _ pc k] A(2) by simp
  moreover have "mem' (a + of_nat i) = mem (buf + of_nat i)" if "i < k" for i
    using A(4) that by (simp add: code_at_nth)
  moreover have "cache_block p (?g, mem') pc' a' n' \<and> (\<forall>i < n'. mem' (a' + of_nat i) = mem (a' + of_nat i))"
    if ev: "\<not> event'" and b: "cache_block p (g, mem) pc' a' n'" for pc' a' n'
  proof -
    obtain off where off: "(off, pc', n') \<in> set es" "a' = tb_to_jit_area (area c + of_nat off)" using b by (auto simp: bl)
    have nf: "\<not> (write_pos c + int (length ?data) + int sizeof_tb > jitter_area_size c)" using A(3) ev by blast
    have "mem' (a' + of_nat i) = mem (a' + of_nat i)" if "i < n'" for i
      using A(5) [rule_format, of "off + sizeof_tb + i"] nf entry_bounds(1) [OF h(4) off(1)] that
      by (simp add: off(2) tb_to_jit_area_def ac_simps)
    then show ?thesis using new [of off pc' n'] nf off by auto
  qed
  moreover have "event \<longrightarrow> event'" using A(3) by simp
  ultimately show ?thesis by blast
qed

text \<open>A block that was missing and has been appended is the one the next lookup finds.\<close>

lemma append_lookup:
  assumes inv: "cache_state_inv p buf n s" and k: "k \<le> n"
    and miss: "cache_lookup p s pc False = Some (0, False, g, mem)"
    and ap: "cache_append p (g, mem0) pc buf k False = Some (a, event, g', mem')"
    and fr: "cache_state_inv p buf n (g, mem0)" "\<And>pc a k. cache_block p (g, mem0) pc a k = cache_block p (g, mem) pc a k"
  shows "\<exists>g''. cache_lookup p (g', mem') pc event2 = Some (a, event2, g'', mem')"
proof -
  obtain g0 m0 where s: "s = (g0, m0)" by (cases s)
  have "\<not> is_cache_clean_need g \<and> (\<exists>c. heap g p = Some c \<and> \<not> clean c) \<and> (\<forall>a k. \<not> cache_block p (g, mem) pc a k)"
  proof (rule cache_lookup_cases [OF inv [unfolded s], of pc False])
    fix a g' assume l: "cache_lookup p (g0, m0) pc False = Some (a, False, g', m0)"
      and e: "if a = 0 then \<forall>a k. \<not> cache_block p (g0, m0) pc a k else \<exists>k. cache_block p (g', m0) pc a k"
        "\<forall>pc a k. cache_block p (g', m0) pc a k \<longrightarrow> cache_block p (g0, m0) pc a k"
        "\<not> is_cache_clean_need g'" "\<exists>c. heap g' p = Some c \<and> \<not> clean c"
    have "a = 0" "g' = g" "m0 = mem" using l miss s by simp_all
    with e show ?thesis by (metis (no_types))
  qed (use miss s in simp)
  then have nc: "\<not> is_cache_clean_need g" "\<And>c. heap g p = Some c \<Longrightarrow> \<not> clean c" "\<And>a k. \<not> cache_block p (g, mem0) pc a k"
    by (auto simp: fr(2))
  obtain qs c es where h: "caches_wf g qs" "p \<in> set qs" "heap g p = Some c" "cache_inv (c, mem0) es" "buffer_ok buf n c"
    using fr(1) by (rule cache_state_invE) metis
  have no: "(off, pc, len) \<notin> set es" for off len using nc(3) cache_block_iff [OF h(3,4)] by blast
  let ?data = "map (\<lambda>i. mem0 (buf + of_nat i)) [0..<k]"
  obtain c' where ac: "append_cache (c, mem0) pc ?data False = (a, event, c', mem')" "g' = g\<lparr>heap := (heap g)(p \<mapsto> c')\<rparr>"
    using ap h(3) by (auto simp: cache_append_def split: prod.splits)
  have "sizeof_tb + length ?data < 2 ^ 16" "int (sizeof_tb + length ?data) \<le> jitter_area_size c"
    using h(5) k by (auto simp: buffer_ok_def)
  note A = append_cache_spec [OF h(4) this ac(1)]
  have "\<not> clean c'" using A(8) nc(2) [OF h(3)] by simp
  from lookup_cache_spec [OF A(1) this, of pc event2] obtain a' c'' where l:
    "lookup_cache (c', mem') pc event2 = Some (a', event2, c'', mem')" and r: "if a' = 0 then (\<forall>off len. (off, pc, len) \<notin> set ((if jitter_area_size c < write_pos c + int (length ?data) + int sizeof_tb then [] else es) @
        [(if jitter_area_size c < write_pos c + int (length ?data) + int sizeof_tb then 0 else nat (write_pos c), pc, length ?data)])) \<and> c'' = c'
     else \<exists>off len. (off, pc, len) \<in> set ((if jitter_area_size c < write_pos c + int (length ?data) + int sizeof_tb then [] else es) @
        [(if jitter_area_size c < write_pos c + int (length ?data) + int sizeof_tb then 0 else nat (write_pos c), pc, length ?data)]) \<and>
       a' = tb_to_jit_area (area c' + of_nat off)" by blast
  have "a' = a" using r no A(2,6) by (auto split: if_splits)
  then show ?thesis using l nc(1) ac(2) by (simp add: cache_lookup_def)
qed

text \<open>Only the headers matter for the structure of the cache.\<close>

lemma cache_inv_frame:
  assumes inv: "cache_inv (c, m) es"
    and fr: "\<And>off pc n k. (off, pc, n) \<in> set es \<Longrightarrow> k < sizeof_tb \<Longrightarrow> m' (area c + of_nat (off + k)) = m (area c + of_nat (off + k))"
  shows "cache_inv (c, m') es"
proof -
  note I = cache_invD [OF inv]
  have rd: "read_mem m' (area c + of_nat off + of_nat i) k = read_mem m (area c + of_nat off + of_nat i) k"
    if "(off, pc, n) \<in> set es" "i + k \<le> sizeof_tb" for off pc n i k
  proof (rule read_mem_cong)
    fix l assume "l < k"
    then show "m' (area c + of_nat off + of_nat i + of_nat l) = m (area c + of_nat off + of_nat i + of_nat l)"
      using fr [OF that(1), of "i + l"] that(2) by (simp add: add.assoc)
  qed
  have tb: "tb_size m' (area c + of_nat off) = tb_size m (area c + of_nat off)"
    "tb_guest_pc m' (area c + of_nat off) = tb_guest_pc m (area c + of_nat off)"
    "tb_next m' (area c + of_nat off) = tb_next m (area c + of_nat off)" if "(off, pc, n) \<in> set es" for off pc n
    using rd [OF that, of 0 2] rd [OF that, of 2 8] rd [OF that, of 10 8]
    by (simp_all add: tb_size_def tb_guest_pc_def tb_next_def sizeof_tb_def del: read_mem.simps)
  have "chain m' (area c) (hash_list c h) (hash_offsets h es)" for h
  proof -
    have "\<forall>off \<in> set (hash_offsets h es). tb_next m' (area c + of_nat off) = tb_next m (area c + of_nat off)"
      using tb(3) by (auto simp: hash_offsets_iff)
    from chain_cong [OF this] I(4) [of h] show ?thesis by simp
  qed
  moreover have "entry_ok m' (area c) e" if "e \<in> set es" for e
    using I(3) [OF that] tb(1,2) that unfolding entry_ok_def by (cases e) auto
  ultimately show ?thesis unfolding cache_inv_def prod.case using I(1,2,5) by blast
qed

lemma cache_frame:
  assumes "cache_state_inv p buf n (g, m)" "\<And>x. cache_meta p (g, m) x \<Longrightarrow> m' x = m x"
  shows "cache_state_inv p buf n (g, m') \<and> (\<forall>pc a k. cache_block p (g, m') pc a k = cache_block p (g, m) pc a k)"
proof -
  obtain qs c es where h: "caches_wf g qs" "p \<in> set qs" "heap g p = Some c" "cache_inv (c, m) es" "buffer_ok buf n c"
    and bl: "\<And>pc a k. cache_block p (g, m) pc a k \<longleftrightarrow> (\<exists>off. (off, pc, k) \<in> set es \<and> a = tb_to_jit_area (area c + of_nat off))"
    and mt: "\<And>x. cache_meta p (g, m) x \<longleftrightarrow> (\<exists>off pc n k. (off, pc, n) \<in> set es \<and> k < sizeof_tb \<and> x = area c + of_nat (off + k))"
    using assms(1) by (rule cache_state_invE) metis
  have i: "cache_inv (c, m') es"
    by (rule cache_inv_frame [OF h(4)]) (rule assms(2), use mt in blast)
  have inv': "cache_state_inv p buf n (g, m')" by (rule cache_state_invI [OF h(1-3) i h(5)])
  moreover have "cache_block p (g, m') pc a k = cache_block p (g, m) pc a k" for pc a k
    by (simp only: cache_block_iff [OF h(3,4)] cache_block_iff [OF h(3) i])
  ultimately show ?thesis by blast
qed

text \<open>The bytes of the code and of the buffer are apart from the headers and from each other.\<close>

lemma cache_separate:
  assumes "cache_state_inv p buf n (g, m)"
  shows "cache_block p (g, m) pc a k \<Longrightarrow> i < k \<Longrightarrow> \<not> cache_meta p (g, m) (a + of_nat i)"
    and "j < n \<Longrightarrow> \<not> cache_meta p (g, m) (buf + of_nat j)"
    and "cache_block p (g, m) pc a k \<Longrightarrow> i < k \<Longrightarrow> j < n \<Longrightarrow> a + of_nat i \<noteq> buf + of_nat j"
proof -
  obtain qs c es where h: "caches_wf g qs" "p \<in> set qs" "heap g p = Some c" "cache_inv (c, m) es" "buffer_ok buf n c"
    and bl: "\<And>pc a k. cache_block p (g, m) pc a k \<longleftrightarrow> (\<exists>off. (off, pc, k) \<in> set es \<and> a = tb_to_jit_area (area c + of_nat off))"
    and mt: "\<And>x. cache_meta p (g, m) x \<longleftrightarrow> (\<exists>off pc n k. (off, pc, n) \<in> set es \<and> k < sizeof_tb \<and> x = area c + of_nat (off + k))"
    using assms(1) by (rule cache_state_invE) metis
  note I = cache_invD [OF h(4)]
  have dis: "e = e' \<or> fst e + sizeof_tb + snd (snd e) \<le> fst e' \<or> fst e' + sizeof_tb + snd (snd e') \<le> fst e"
    if "e \<in> set es" "e' \<in> set es" for e e'
    by (rule layout_disjoint [OF I(2) that])
  show "\<not> cache_meta p (g, m) (a + of_nat i)" if B: "cache_block p (g, m) pc a k" "i < k"
  proof
    assume "cache_meta p (g, m) (a + of_nat i)"
    then obtain off pc' n' l where m: "(off, pc', n') \<in> set es" "l < sizeof_tb" "a + of_nat i = area c + of_nat (off + l)" unfolding mt by blast
    obtain off' where o: "(off', pc, k) \<in> set es" "a = tb_to_jit_area (area c + of_nat off')" using B(1) unfolding bl by blast
    have "off' + sizeof_tb + i \<noteq> off + l" using dis [OF o(1) m(1)] m(2) that(2) by auto
    from geometry_inj [OF I(1) _ _ this] entry_bounds(2) [OF h(4) o(1)] entry_bounds(2) [OF h(4) m(1)] m(2) that(2)
    have "area c + of_nat (off' + sizeof_tb + i) \<noteq> area c + of_nat (off + l)" by simp
    then show False using m(3) by (simp add: o(2) tb_to_jit_area_def ac_simps)
  qed
  have b: "buf + of_nat j \<noteq> area c + of_nat l" if "j < n" "l < nat (jitter_area_size c)" for j l
    using h(5) that by (auto simp: buffer_ok_def)
  show "\<not> cache_meta p (g, m) (buf + of_nat j)" if "j < n"
  proof
    assume "cache_meta p (g, m) (buf + of_nat j)"
    then obtain off pc' n' l where m: "(off, pc', n') \<in> set es" "l < sizeof_tb" "buf + of_nat j = area c + of_nat (off + l)" unfolding mt by blast
    from b [OF that, of "off + l"] entry_bounds(2) [OF h(4) m(1)] m(2,3) show False by simp
  qed
  show "a + of_nat i \<noteq> buf + of_nat j" if B: "cache_block p (g, m) pc a k" "i < k" "j < n"
  proof -
    obtain off' where o: "(off', pc, k) \<in> set es" "a = tb_to_jit_area (area c + of_nat off')" using B(1) unfolding bl by blast
    from b [OF that(3), of "off' + sizeof_tb + i"] entry_bounds(2) [OF h(4) o(1)] that(2)
    have "buf + of_nat j \<noteq> area c + of_nat (off' + sizeof_tb + i)" by simp
    then show ?thesis by (simp add: o(2) tb_to_jit_area_def ac_simps)
  qed
qed

interpretation hashed: code_cache "cache_lookup p" "cache_append p" "cache_state_inv p buf n" "cache_block p" "cache_meta p" buf n
  for p buf :: u64 and n :: nat
proof
  fix s pc event a event' s'
  assume inv: "cache_state_inv p buf n s"
  obtain g m where s: "s = (g, m)" by (cases s)
  note C = cache_lookup_cases [OF inv [unfolded s], of pc event, folded s]
  show "\<exists>a event' s'. cache_lookup p s pc event = Some (a, event', s')" by (rule C) blast+
  show "cache_state_inv p buf n s' \<and> snd s' = snd s \<and> (event \<longrightarrow> event')" if "cache_lookup p s pc event = Some (a, event', s')"
    by (rule C) (use that in \<open>auto simp: s\<close>)
  show "\<exists>k. cache_block p s' pc a k" if "cache_lookup p s pc event = Some (a, event', s')" "a \<noteq> 0"
    by (rule C) (use that in auto)
  show "\<not> cache_block p s pc a k" if "cache_lookup p s pc event = Some (0, False, s')" for k
    by (rule C) (use that in auto)
  show "cache_block p s' pc' a' k" if "cache_lookup p s pc event = Some (a, False, s')" "cache_block p s pc' a' k" for pc' a' k
    by (rule C) (use that in auto)
next
  fix s k pc event assume inv: "cache_state_inv p buf n s" and k: "0 < k" "k \<le> n"
  obtain g m where s: "s = (g, m)" by (cases s)
  note A = cache_append_spec [OF inv [unfolded s] k(2), of pc event, folded s]
  show "\<exists>a event' s'. cache_append p s pc buf k event = Some (a, event', s')" using A by blast
  fix a s'
  show "cache_state_inv p buf n s' \<and> cache_block p s' pc a k \<and> (\<forall>i < k. snd s' (a + of_nat i) = snd s (buf + of_nat i)) \<and> (event \<longrightarrow> event')"
    if "cache_append p s pc buf k event = Some (a, event', s')" for event'
    using A that by (auto simp: s)
  show "cache_block p s' pc' a' n' \<and> (\<forall>i < n'. snd s' (a' + of_nat i) = snd s (a' + of_nat i))"
    if "cache_append p s pc buf k event = Some (a, False, s')" "cache_block p s pc' a' n'" for pc' a' n'
    using A that by (auto simp: s)
next
  fix g m m' assume "cache_state_inv p buf n (g, m)" "\<And>x. cache_meta p (g, m) x \<Longrightarrow> m' x = m x"
  then show "cache_state_inv p buf n (g, m') \<and> (\<forall>pc a k. cache_block p (g, m') pc a k = cache_block p (g, m) pc a k)"
    by (rule cache_frame)
next
  fix s pc a k i j assume inv: "cache_state_inv p buf n s"
  obtain g m where s: "s = (g, m)" by (cases s)
  note S = cache_separate [OF inv [unfolded s], folded s]
  show "cache_block p s pc a k \<Longrightarrow> i < k \<Longrightarrow> \<not> cache_meta p s (a + of_nat i)" by (rule S(1))
  show "i < n \<Longrightarrow> \<not> cache_meta p s (buf + of_nat i)" by (rule S(2))
  show "cache_block p s pc a k \<Longrightarrow> i < k \<Longrightarrow> j < n \<Longrightarrow> a + of_nat i \<noteq> buf + of_nat j" by (rule S(3))
qed

text \<open>A new cache is in the list, holds no block and keeps the contract; the other caches are not touched.\<close>

lemma createCache_inv:
  assumes "caches_wf g qs" "memory \<noteq> 0" "memory \<notin> set qs" "MIN_CACHE_SIZE \<le> sz" "unat memory + nat sz < 2 ^ 64"
    "sizeof_tb + n < 2 ^ 16" "\<forall>i < n. \<forall>k < nat sz. buf + of_nat i \<noteq> memory + of_nat k"
  shows "\<exists>g'. createCache memory sz g = Some g' \<and> cache_state_inv memory buf n (g', mem) \<and> caches_wf g' (memory # qs) \<and>
    (\<forall>pc a k. \<not> cache_block memory (g', mem) pc a k) \<and> (\<forall>q. q \<noteq> memory \<longrightarrow> heap g' q = heap g q)"
proof -
  let ?h = "of_int sizeof_internal_cache :: u64"
  define c where "c = reset_cache \<lparr>next_cache = 0, jitter_area_size = sz - sizeof_internal_cache, write_pos = 0, clean = False,
    cached = (\<lambda>_. 0), hash_list = (\<lambda>_. 0), area = memory + ?h, area_end = memory + of_int sz\<rparr>"
  let ?g = "g\<lparr>heap := (heap g)(memory \<mapsto> c)\<rparr>"
  have sz: "sizeof_internal_cache \<le> sz" "nat sz < 2 ^ 64" using assms(4,5) by (auto simp: sizeof_internal_cache_def MIN_CACHE_SIZE_def)
  have "linked (heap ?g) (root g) qs = linked (heap g) (root g) qs" by (rule linked_cong) (use assms(3) in auto)
  then have "caches_wf ?g qs" using assms(1) by (simp add: caches_wf_def)
  from ll_append_wf [OF this _ assms(2,3), of c] obtain g' where g': "ll_append_cache memory ?g = Some g'"
    "caches_wf g' (memory # qs)" "heap g' memory = Some (c\<lparr>next_cache := root g\<rparr>)" "\<forall>q. q \<noteq> memory \<longrightarrow> heap g' q = heap g q" by auto
  have cr: "createCache memory sz g = Some g'"
    using g'(1) assms(2,4) by (simp add: createCache_def c_def assert_def Let_def)
  have u: "unat (memory + ?h) = unat memory + 262208"
  proof -
    have "unat memory + 262208 < 2 ^ 64" using assms(5) sz(1) by (simp add: sizeof_internal_cache_def)
    then show ?thesis by (simp add: sizeof_internal_cache_def unat_word_ariths)
  qed
  then have "0 < unat (memory + ?h)" by simp
  then have pos: "0 < memory + ?h" by (simp add: word_less_nat_alt)
  have geo: "geometry c"
    using u pos assms(5) sz by (auto simp: geometry_def c_def reset_cache_def sizeof_internal_cache_def)
  then have inv: "cache_inv (c\<lparr>next_cache := root g\<rparr>, mem) []"
    by (auto simp: cache_inv_def geometry_def c_def reset_cache_def hash_offsets_def)
  have "buffer_ok buf n (c\<lparr>next_cache := root g\<rparr>)"
    unfolding buffer_ok_def
  proof (intro conjI allI impI)
    show "int (sizeof_tb + n) \<le> jitter_area_size (c\<lparr>next_cache := root g\<rparr>)"
      using assms(4,6) by (simp add: c_def reset_cache_def MIN_CACHE_SIZE_def sizeof_internal_cache_def)
    fix i k assume "i < n" "k < nat (jitter_area_size (c\<lparr>next_cache := root g\<rparr>))"
    then show "buf + of_nat i \<noteq> area (c\<lparr>next_cache := root g\<rparr>) + of_nat k"
      using assms(7) [rule_format, of i "262208 + k"] sz
      by (simp add: c_def reset_cache_def sizeof_internal_cache_def ac_simps)
  qed (use assms(6) in simp)
  then have "cache_state_inv memory buf n (g', mem)"
    by (intro cache_state_invI [OF g'(2) _ g'(3) inv]) simp_all
  moreover have "\<not> cache_block memory (g', mem) pc a k" for pc a k
    by (simp add: cache_block_iff [OF g'(3) inv])
  ultimately show ?thesis using cr g' by blast
qed

text \<open>Asking for all caches to be cleaned keeps the contract: nothing is gone before the next lookup.\<close>

lemma cleanCaches_inv:
  "cache_state_inv p buf n (g, mem) \<Longrightarrow> cache_state_inv p buf n (cleanCaches g, mem)"
  "cache_block p (cleanCaches g, mem) pc a k = cache_block p (g, mem) pc a k"
  by (auto simp: cache_state_inv_def cleanCaches_def caches_wf_def cache_block_def)

lemma cleaned_lookup:
  assumes "cache_state_inv p buf n (g, mem)"
  shows "\<exists>g'. cache_lookup p (cleanCaches g, mem) pc event = Some (0, True, g', mem) \<and> cache_state_inv p buf n (g', mem) \<and>
     (\<forall>pc a k. \<not> cache_block p (g', mem) pc a k)"
proof -
  obtain qs c es where h: "caches_wf g qs" "p \<in> set qs" "heap g p = Some c" "cache_inv (c, mem) es" "buffer_ok buf n c"
    using assms by (rule cache_state_invE) metis
  have "caches_wf (cleanCaches g) qs" using h(1) by (simp add: caches_wf_def cleanCaches_def)
  from ll_clean_caches_wf [OF this] obtain h1 where h1: "ll_clean_caches (cleanCaches g) = Some ((cleanCaches g)\<lparr>heap := h1\<rparr>)"
    "caches_wf ((cleanCaches g)\<lparr>heap := h1\<rparr>) qs" "h1 p = Some (ll_clean_cache c)" using h(2,3) by (auto simp: cleanCaches_def)
  let ?c = "reset_cache (ll_clean_cache c)"
  let ?g = "g\<lparr>heap := h1(p \<mapsto> ?c), is_cache_clean_need := False\<rparr>"
  have l: "cache_lookup p (cleanCaches g, mem) pc event = Some (0, True, ?g, mem)"
    using h1(1,3) by (simp add: cache_lookup_def cleanCaches_def lookup_cache_def ll_clean_cache_def)
  have "cache_inv (ll_clean_cache c, mem) es" using h(4) by (simp add: cache_inv_def geometry_def ll_clean_cache_def)
  then have inv: "cache_inv (?c, mem) []" by (rule reset_inv)
  have wf: "caches_wf ?g qs"
    using caches_wf_upd [OF h1(2), of p "ll_clean_cache c" ?c] h1(3) by (simp add: reset_cache_def cleanCaches_def caches_wf_def)
  have "cache_state_inv p buf n (?g, mem)"
    by (rule cache_state_invI [OF wf h(2) _ inv]) (use h(5) in \<open>simp_all add: buffer_ok_def reset_cache_def ll_clean_cache_def\<close>)
  moreover have "\<not> cache_block p (?g, mem) pc a k" for pc a k
    using cache_block_iff [OF _ inv, of ?g p] by simp
  ultimately show ?thesis using l by blast
qed

end
