(* ===== verification/Cache_None.thy ===== *)
theory Cache_None
  imports Cache_Interface
begin

text \<open>
  \<open>src/src/cache/cacheNone.c\<close>: the cache of a loop that runs inside a signal handler. It keeps
  only the last block, which it leaves in the buffer of the caller, and never finds one.
\<close>

definition MIN_CACHE_SIZE_NONE :: int where "MIN_CACHE_SIZE_NONE = 4 * 1024"

record internal_cache_none =
  none_data :: u64
  none_pc :: u64

definition lookup_none :: "internal_cache_none \<times> memory \<Rightarrow> u64 \<Rightarrow> bool \<Rightarrow> (u64 \<times> bool \<times> internal_cache_none \<times> memory) option" where
  "lookup_none = (\<lambda>(c, mem) pc event. Some (0, True, c, mem))"

definition append_none :: "internal_cache_none \<times> memory \<Rightarrow> u64 \<Rightarrow> u64 \<Rightarrow> nat \<Rightarrow> bool \<Rightarrow> (u64 \<times> bool \<times> internal_cache_none \<times> memory) option" where
  "append_none = (\<lambda>(c, mem) pc data sz event. Some (data, event, c\<lparr>none_data := data, none_pc := pc\<rparr>, mem))"

definition lookup_pc_none :: "internal_cache_none \<times> memory \<Rightarrow> u64 \<Rightarrow> u64 \<times> u64" where
  "lookup_pc_none = (\<lambda>(c, mem) host_pc. (none_pc c, none_data c))"

definition createCacheNone :: "u64 \<Rightarrow> int \<Rightarrow> internal_cache_none option" where
  "createCacheNone memory sz = do {
     assert (memory \<noteq> 0);
     assert (sz \<ge> MIN_CACHE_SIZE_NONE);
     Some \<lparr>none_data = 0, none_pc = 0\<rparr>
   }"

text \<open>The block it holds is the last one appended.\<close>

definition block_none :: "internal_cache_none \<times> memory \<Rightarrow> u64 \<Rightarrow> u64 \<Rightarrow> nat \<Rightarrow> bool" where
  "block_none = (\<lambda>(c, mem) pc a n. none_pc c = pc \<and> none_data c = a)"

interpretation none: code_cache lookup_none append_none "\<lambda>_. True" block_none "\<lambda>_ _. False" buf buf_size
  for buf :: u64 and buf_size :: nat
  by unfold_locales (auto simp: lookup_none_def append_none_def block_none_def split: prod.splits)

text \<open>The host addresses of the running block map back to the guest address it was translated from.\<close>

lemma lookup_pc_none_block:
  "block_none s pc a n \<Longrightarrow> lookup_pc_none s host_pc = (pc, a)"
  by (auto simp: block_none_def lookup_pc_none_def split: prod.splits)

end
