(* ===== verification/Main_Loop.thy ===== *)
theory Main_Loop
  imports Cache_Global Cache_None
begin

text \<open>
  The main loop of \<open>src/src/main.c\<close>: look the guest address up, translate and store the block when
  it is not there, link the previous block to it, run it. What the loop calls through
  \<open>struct target\<close> and the run of translated code are parameters; the builder, the
  backend, the caches and the patching of exits are the definitions of the other theories.
\<close>

section \<open>The loop\<close>

definition JIT_BUFFER_SIZE :: nat where "JIT_BUFFER_SIZE = 16 * 1024"

text \<open>\<open>isLooping\<close> and \<open>disassemble\<close> of \<open>struct target\<close>, and \<open>execute\<close> of the backend.\<close>

record ('c, 't) loop_env =
  isLooping :: "'t \<Rightarrow> bool"
  disassemble :: "'t \<Rightarrow> jitter \<Rightarrow> u64 \<Rightarrow> int \<Rightarrow> (jitter \<times> 't) option"
  execute :: "'c \<times> memory \<Rightarrow> 't \<Rightarrow> u64 \<Rightarrow> (u64 \<times> u64 \<times> ('c \<times> memory) \<times> 't) option"

record ('c, 't) loop_state =
  currentPc :: u64
  prevCurrentPc :: u64
  link_patch_area :: u64
  cache_st :: "'c \<times> memory"
  handle :: "jitter \<times> inter"
  target_st :: 't

text \<open>The translation of the block at \<open>pc\<close> into the buffer.\<close>

definition translate :: "('c, 't) loop_env \<Rightarrow> u64 \<Rightarrow> int \<Rightarrow> jitter \<times> inter \<Rightarrow> 't \<Rightarrow> u64 \<Rightarrow> memory
    \<Rightarrow> (int \<times> memory \<times> (jitter \<times> inter) \<times> 't) option" where
  "translate env jitBuffer max_insn h t pc mem = do {
     let (j, s) = resetJitter reset_be h;
     (j, t) \<leftarrow> disassemble env t j pc max_insn;
     (jitSize, mem, h) \<leftarrow> jitCode (j, s) mem jitBuffer (int JIT_BUFFER_SIZE);
     Some (jitSize, mem, h, t)
   }"

definition loop_body :: "('c \<times> memory \<Rightarrow> u64 \<Rightarrow> bool \<Rightarrow> (u64 \<times> bool \<times> 'c \<times> memory) option)
    \<Rightarrow> ('c \<times> memory \<Rightarrow> u64 \<Rightarrow> u64 \<Rightarrow> nat \<Rightarrow> bool \<Rightarrow> (u64 \<times> bool \<times> 'c \<times> memory) option)
    \<Rightarrow> ('c, 't) loop_env \<Rightarrow> u64 \<Rightarrow> int \<Rightarrow> ('c, 't) loop_state \<Rightarrow> ('c, 't) loop_state option" where
  "loop_body clookup cappend env jitBuffer max_insn st = do {
     (cache_area, cleaned, cs) \<leftarrow> clookup (cache_st st) (currentPc st) False;
     if cache_area \<noteq> 0 then do {
       (res, link, cs, t) \<leftarrow> execute env cs (target_st st) cache_area;
       Some (st\<lparr>currentPc := res, prevCurrentPc := currentPc st, link_patch_area := link, cache_st := cs, target_st := t\<rparr>)
     }
     else do {
       (jitSize, mem, h, t) \<leftarrow> translate env jitBuffer max_insn (handle st) (target_st st) (currentPc st) (snd cs);
       assert (jitSize > 0);
       (cache_area, cleaned, c, mem) \<leftarrow> cappend (fst cs, mem) (currentPc st) jitBuffer (nat jitSize) cleaned;
       mem \<leftarrow> (if prevCurrentPc st < currentPc st \<and> link_patch_area st \<noteq> 0 \<and> \<not> cleaned
               then patch mem (link_patch_area st) cache_area else Some mem);
       (res, link, cs, t) \<leftarrow> execute env (c, mem) t cache_area;
       Some (st\<lparr>currentPc := res, prevCurrentPc := currentPc st, link_patch_area := link, cache_st := cs,
                handle := h, target_st := t\<rparr>)
     }
   }"

partial_function (option) loop_common :: "('c \<times> memory \<Rightarrow> u64 \<Rightarrow> bool \<Rightarrow> (u64 \<times> bool \<times> 'c \<times> memory) option)
    \<Rightarrow> ('c \<times> memory \<Rightarrow> u64 \<Rightarrow> u64 \<Rightarrow> nat \<Rightarrow> bool \<Rightarrow> (u64 \<times> bool \<times> 'c \<times> memory) option)
    \<Rightarrow> ('c, 't) loop_env \<Rightarrow> u64 \<Rightarrow> int \<Rightarrow> ('c, 't) loop_state \<Rightarrow> ('c, 't) loop_state option" where
  "loop_common clookup cappend env jitBuffer max_insn st =
     (if isLooping env (target_st st)
      then do {
        st \<leftarrow> loop_body clookup cappend env jitBuffer max_insn st;
        loop_common clookup cappend env jitBuffer max_insn st }
      else Some st)"

definition loop_start :: "u64 \<Rightarrow> 'c \<times> memory \<Rightarrow> jitter \<times> inter \<Rightarrow> 't \<Rightarrow> ('c, 't) loop_state" where
  "loop_start entry cs h t = \<lparr>currentPc = entry, prevCurrentPc = NOT 0, link_patch_area = 0, cache_st = cs, handle = h, target_st = t\<rparr>"

section \<open>The invariant of the loop\<close>

definition pool_sizes :: "jitter \<times> inter \<Rightarrow> int \<times> int \<times> int \<times> int" where
  "pool_sizes = (\<lambda>(j, s). (pool_size (registerPoolAllocator j), pool_size (instructionPoolAllocator j),
     pool_size (x_registerPool s), pool_size (x_instructionPool s)))"

text \<open>A link address is the patchable exit of a block the cache holds.\<close>

definition link_ok :: "('c \<times> memory \<Rightarrow> u64 \<Rightarrow> u64 \<Rightarrow> nat \<Rightarrow> bool) \<Rightarrow> 'c \<times> memory \<Rightarrow> u64 \<Rightarrow> bool" where
  "link_ok block cs link \<longleftrightarrow> patch_area (snd cs) link \<and>
     (\<exists>pc a n i. block cs pc a n \<and> i + 13 \<le> n \<and> link = a + of_nat i)"

definition loop_inv :: "('c \<times> memory \<Rightarrow> bool) \<Rightarrow> ('c \<times> memory \<Rightarrow> u64 \<Rightarrow> u64 \<Rightarrow> nat \<Rightarrow> bool)
    \<Rightarrow> int \<times> int \<times> int \<times> int \<Rightarrow> ('c, 't) loop_state \<Rightarrow> bool" where
  "loop_inv cinv block ps st \<longleftrightarrow> cinv (cache_st st) \<and> pool_sizes (handle st) = ps \<and>
     (link_patch_area st \<noteq> 0 \<longrightarrow> link_ok block (cache_st st) (link_patch_area st))"

text \<open>
  What the loop relies on. The target's disassembler leaves a block that the backend can translate;
  running a block the cache holds returns, keeps the caches in order (other threads may ask
  for a cleaning meanwhile), and hands back no link or the link area of a held block.
\<close>

definition translates :: "('c, 't) loop_env \<Rightarrow> u64 \<Rightarrow> int \<Rightarrow> int \<times> int \<times> int \<times> int \<Rightarrow> bool" where
  "translates env jitBuffer max_insn ps \<longleftrightarrow> (\<forall>h t pc mem. pool_sizes h = ps \<longrightarrow>
     (\<exists>jitSize mem' h' t'. translate env jitBuffer max_insn h t pc mem = Some (jitSize, mem', h', t') \<and> 0 < jitSize \<and> pool_sizes h' = ps))"

definition executes :: "('c, 't) loop_env \<Rightarrow> ('c \<times> memory \<Rightarrow> bool) \<Rightarrow> ('c \<times> memory \<Rightarrow> u64 \<Rightarrow> u64 \<Rightarrow> nat \<Rightarrow> bool) \<Rightarrow> bool" where
  "executes env cinv block \<longleftrightarrow> (\<forall>cs t pc a n. cinv cs \<and> block cs pc a n \<longrightarrow>
     (\<exists>res link cs' t'. execute env cs t a = Some (res, link, cs', t') \<and> cinv cs' \<and> (link \<noteq> 0 \<longrightarrow> link_ok block cs' link)))"

lemma jitCode_frame:
  assumes "jitCode (j, s) mem buffer sz = Some (len, mem', h')"
  shows "0 \<le> len" "len \<le> sz" "\<And>x. (\<And>i. i < nat sz \<Longrightarrow> x \<noteq> buffer + of_nat i) \<Longrightarrow> mem' x = mem x"
proof -
  from assms obtain c where c: "mem' = store_code mem buffer c" "len = int (length c)" "int (length c) \<le> sz"
    by (auto simp: jitCode_def jit_def assert_def Let_def split: bind_splits if_splits)
  then show "0 \<le> len" "len \<le> sz" by simp_all
  fix x assume x: "\<And>i. i < nat sz \<Longrightarrow> x \<noteq> buffer + of_nat i"
  show "mem' x = mem x" unfolding c(1) by (rule store_code_other) (use x c(3) in simp)
qed

lemma translate_frame:
  assumes "translate env buffer max_insn h t pc mem = Some (len, mem', h', t')"
  shows "0 \<le> len" "nat len \<le> JIT_BUFFER_SIZE"
    "\<And>x. (\<And>i. i < JIT_BUFFER_SIZE \<Longrightarrow> x \<noteq> buffer + of_nat i) \<Longrightarrow> mem' x = mem x"
proof -
  from assms obtain j s where "jitCode (j, s) mem buffer (int JIT_BUFFER_SIZE) = Some (len, mem', h')"
    by (auto simp: translate_def split: prod.splits bind_splits)
  from jitCode_frame [OF this] show "0 \<le> len" "nat len \<le> JIT_BUFFER_SIZE"
    "\<And>x. (\<And>i. i < JIT_BUFFER_SIZE \<Longrightarrow> x \<noteq> buffer + of_nat i) \<Longrightarrow> mem' x = mem x" by auto
qed

lemma patch_area_frame:
  assumes "patch_area m link" "\<And>i. i < 13 \<Longrightarrow> m' (link + of_nat i) = m (link + of_nat i)"
  shows "patch_area m' link"
  using assms unfolding patch_area_def by (rule code_at_frame) simp

primrec stops_within :: "nat \<Rightarrow> ('s \<Rightarrow> 's option) \<Rightarrow> ('s \<Rightarrow> bool) \<Rightarrow> 's \<Rightarrow> bool" where
  "stops_within 0 body looping st = (\<not> looping st)"
| "stops_within (Suc n) body looping st =
     (looping st \<longrightarrow> (case body st of None \<Rightarrow> True | Some st' \<Rightarrow> stops_within n body looping st'))"

section \<open>The loop keeps its invariant\<close>

context code_cache
begin

lemma link_survives:
  assumes "inv (c, m)" "link_ok block (c, m) link"
    and "\<And>pc a n. block (c, m) pc a n \<Longrightarrow> block (c', m') pc a n \<and> (\<forall>i < n. m' (a + of_nat i) = m (a + of_nat i))"
  shows "link_ok block (c', m') link"
proof -
  from assms(2) obtain pc a n i where b: "patch_area m link" "block (c, m) pc a n" "i + 13 \<le> n" "link = a + of_nat i"
    by (auto simp: link_ok_def)
  note B = assms(3) [OF b(2)]
  have "patch_area m' link"
  proof (rule patch_area_frame [OF b(1)])
    fix k :: nat assume "k < 13"
    with b(3) have "i + k < n" by simp
    with B have "m' (a + of_nat (i + k)) = m (a + of_nat (i + k))" by blast
    then show "m' (link + of_nat k) = m (link + of_nat k)" by (simp add: b(4) add.assoc)
  qed
  with B b(3,4) show ?thesis by (auto simp: link_ok_def)
qed

lemma patch_link:
  assumes "inv (c, m)" "link_ok block (c, m) link"
  shows "\<exists>m'. patch m link target = Some m' \<and> inv (c, m') \<and> (\<forall>pc a n. block (c, m') pc a n = block (c, m) pc a n)"
proof -
  from assms(2) obtain pc a n i where b: "patch_area m link" "block (c, m) pc a n" "i + 13 \<le> n" "link = a + of_nat i"
    by (auto simp: link_ok_def)
  from patch_bytes [OF b(1), of target] obtain m' where m': "patch m link target = Some m'"
    "\<forall>x. (\<forall>k < 11. x \<noteq> link + of_nat k) \<longrightarrow> m' x = m x" by blast
  have fr: "m' x = m x" if "\<And>k. k < n \<Longrightarrow> x \<noteq> a + of_nat k" for x
  proof (rule m'(2) [rule_format])
    fix k :: nat assume "k < 11"
    then show "x \<noteq> link + of_nat k" using that [of "i + k"] b(3,4) by (simp add: add.assoc)
  qed
  show ?thesis using m'(1) write_code [OF assms(1) b(2) fr] by blast
qed

text \<open>
  One round from a good state succeeds and leads to a good state. The address that is run is a block
  for the current guest address, and only the exit of a block that is still there is patched: no
  assumption on \<open>execute\<close> or \<open>patch\<close> covers any other use.
\<close>

lemma loop_body_ok:
  assumes ex: "executes env inv block" and tr: "translates env buf max_insn ps" and sz: "buf_size = JIT_BUFFER_SIZE"
    and st: "loop_inv inv block ps st"
  shows "\<exists>st'. loop_body lookup append env buf max_insn st = Some st' \<and> loop_inv inv block ps st'"
proof -
  have I: "inv (cache_st st)" and P: "pool_sizes (handle st) = ps" using st by (simp_all add: loop_inv_def)
  obtain a ev cs where lk: "lookup (cache_st st) (currentPc st) False = Some (a, ev, cs)" using lookup_total [OF I] by blast
  note L = lookup_inv [OF I lk]
  obtain c m where cs: "cs = (c, m)" by (cases cs)
  have run: "\<exists>res link cs' t'. execute env (c1, m1) t b = Some (res, link, cs', t') \<and> inv cs' \<and> (link \<noteq> 0 \<longrightarrow> link_ok block cs' link)"
    if "inv (c1, m1)" "block (c1, m1) pc b n" for c1 m1 t b pc n
    using ex that unfolding executes_def by blast
  show ?thesis
  proof (cases "a = 0")
    case False
    obtain n where "block (c, m) (currentPc st) a n" using lookup_hit [OF I lk False] cs by auto
    from run [OF _ this, of "target_st st"] L obtain res link cs' t' where
      "execute env (c, m) (target_st st) a = Some (res, link, cs', t')" "inv cs'" "link \<noteq> 0 \<longrightarrow> link_ok block cs' link"
      by (auto simp: cs)
    then show ?thesis using lk False P by (simp add: loop_body_def cs loop_inv_def)
  next
    case True
    obtain len m1 h1 t1 where t: "translate env buf max_insn (handle st) (target_st st) (currentPc st) m = Some (len, m1, h1, t1)"
      "0 < len" "pool_sizes h1 = ps" using tr P unfolding translates_def by blast
    note F = translate_frame [OF t(1), folded sz]
    have inv0: "inv (c, m)" using L unfolding cs by blast
    note W = write_buffer [OF inv0 F(3)]
    have n: "0 < nat len" "nat len \<le> buf_size" using t(2) F(2) by auto
    obtain b ev' c2 m2 where ap: "append (c, m1) (currentPc st) buf (nat len) ev = Some (b, ev', c2, m2)"
      using append_total [OF W(1) n] by (metis prod.exhaust)
    note A = append_inv [OF W(1) n ap]
    have "link_ok block (c2, m2) (link_patch_area st)" if l: "link_patch_area st \<noteq> 0" "\<not> ev'"
    proof -
      have ev: "ev = False" "ev' = False" using A l(2) by auto
      have lk0: "lookup (cache_st st) (currentPc st) False = Some (0, False, c, m)" using lk True ev cs by simp
      have "link_ok block (cache_st st) (link_patch_area st)" using st l(1) by (simp add: loop_inv_def)
      moreover have "snd (cache_st st) = m" using L by (simp add: cs)
      ultimately have "link_ok block (fst (cache_st st), m) (link_patch_area st)" by (metis prod.collapse)
      then show ?thesis
      proof (rule link_survives [rotated])
        show "inv (fst (cache_st st), m)" using I \<open>snd (cache_st st) = m\<close> by (metis prod.collapse)
        fix pc d n assume "block (fst (cache_st st), m) pc d n"
        then have "block (cache_st st) pc d n" using \<open>snd (cache_st st) = m\<close> by (metis prod.collapse)
        from lookup_keep [OF I lk0 this] have d: "block (c, m) pc d n" .
        then have d1: "block (c, m1) pc d n" using W(2) by simp
        note K = append_keep [OF W(1) n lk0 ap [unfolded ev] d1]
        have "m1 (d + of_nat i) = m (d + of_nat i)" if "i < n" for i
          by (rule F(3)) (use buf_not_code [OF inv0 lk0 d that] in blast)
        with K show "block (c2, m2) pc d n \<and> (\<forall>i < n. m2 (d + of_nat i) = m (d + of_nat i))" by auto
      qed
    qed
    then have "\<exists>m3. (if prevCurrentPc st < currentPc st \<and> link_patch_area st \<noteq> 0 \<and> \<not> ev' then patch m2 (link_patch_area st) b else Some m2) = Some m3 \<and>
        inv (c2, m3) \<and> (\<forall>pc a n. block (c2, m3) pc a n = block (c2, m2) pc a n)"
      using A patch_link [of c2 m2 "link_patch_area st" b] by auto
    then obtain m3 where p: "(if prevCurrentPc st < currentPc st \<and> link_patch_area st \<noteq> 0 \<and> \<not> ev' then patch m2 (link_patch_area st) b else Some m2) = Some m3"
      "inv (c2, m3)" "block (c2, m3) (currentPc st) b (nat len)" using A by auto
    from run [OF p(2,3), of t1] obtain res link cs' t' where
      "execute env (c2, m3) t1 b = Some (res, link, cs', t')" "inv cs'" "link \<noteq> 0 \<longrightarrow> link_ok block cs' link" by blast
    then show ?thesis using lk True t ap p by (simp add: loop_body_def cs loop_inv_def)
  qed
qed

text \<open>When the loop returns, the state is good and the target has stopped.\<close>

lemma loop_common_inv:
  assumes "executes env inv block" "translates env buf max_insn ps" "buf_size = JIT_BUFFER_SIZE"
    and "loop_inv inv block ps st" "loop_common lookup append env buf max_insn st = Some st'"
  shows "loop_inv inv block ps st' \<and> \<not> isLooping env (target_st st')"
proof -
  let ?P = "\<lambda>lk ap e b mx s s'. lk = lookup \<longrightarrow> ap = append \<longrightarrow> e = env \<longrightarrow> b = buf \<longrightarrow> mx = max_insn \<longrightarrow> loop_inv inv block ps s \<longrightarrow>
     loop_inv inv block ps s' \<and> \<not> isLooping env (target_st s')"
  have "?P lookup append env buf max_insn st st'"
  proof (rule loop_common.raw_induct [where P = ?P, OF _ assms(5)])
    fix f lk ap e b mx s s'
    assume IH: "\<And>lk ap e b mx s s'. f lk ap e b mx s = Some s' \<Longrightarrow> ?P lk ap e b mx s s'"
      and r: "(if isLooping e (target_st s) then do { s \<leftarrow> loop_body lk ap e b mx s; f lk ap e b mx s } else Some s) = Some s'"
    show "?P lk ap e b mx s s'"
    proof (intro impI, cases "isLooping e (target_st s)")
      case True
      assume eq: "lk = lookup" "ap = append" "e = env" "b = buf" "mx = max_insn" and i: "loop_inv inv block ps s"
      from loop_body_ok [OF assms(1-3) i] r True eq obtain s1 where
        "loop_inv inv block ps s1" "f lk ap e b mx s1 = Some s'" by auto
      with IH [OF this(2)] eq show "loop_inv inv block ps s' \<and> \<not> isLooping env (target_st s')" by blast
    qed (use r in auto)
  qed
  then show ?thesis using assms(4) by blast
qed

text \<open>When the target stops after some number of rounds, the loop does return.\<close>

lemma loop_common_returns:
  assumes "executes env inv block" "translates env buf max_insn ps" "buf_size = JIT_BUFFER_SIZE" "loop_inv inv block ps st"
    and "stops_within n (loop_body lookup append env buf max_insn) (\<lambda>st. isLooping env (target_st st)) st"
  shows "\<exists>st'. loop_common lookup append env buf max_insn st = Some st' \<and> loop_inv inv block ps st' \<and> \<not> isLooping env (target_st st')"
  using assms(4,5)
proof (induction n arbitrary: st)
  case 0
  then show ?case by (subst loop_common.simps) simp
next
  case (Suc n)
  show ?case
  proof (cases "isLooping env (target_st st)")
    case True
    from loop_body_ok [OF assms(1-3) Suc.prems(1)] obtain st1 where
      "loop_body lookup append env buf max_insn st = Some st1" "loop_inv inv block ps st1" by blast
    with Suc.IH [OF this(2)] Suc.prems(2) True show ?thesis by (subst loop_common.simps) simp
  next
    case False
    with Suc.prems(1) show ?thesis by (subst loop_common.simps) simp
  qed
qed

text \<open>A block that has been translated and stored behaves as the intermediate code it was made from, wherever the cache has put it.\<close>

lemma installed_block_correct:
  assumes sz: "buf_size = JIT_BUFFER_SIZE" and inv: "inv (c, m)" and wf: "ir_wf j" and fresh: "be_fresh s"
    and jit: "jitCode (j, s) m buf (int JIT_BUFFER_SIZE) = Some (len, m1, h')" "0 < len"
    and ap: "append (c, m1) pc buf (nat len) event = Some (a, event', c2, m2)"
    and cl: "clean_block (hlp_extends E) (types_of j) {} (insns_of j)"
    and run: "irun E ctx (is_const (insns_of j)) (insns_of j) ivals mem = Some (Leave v k mem')"
    and ok: "helper_ok h E" and mch: "sim pvals ctx mem (ra # st) mch" "rip mch = a"
  shows "reaches h m2 ctx ra st nxt mch (Leave v k mem')"
proof -
  note F = jitCode_frame [OF jit(1)]
  note W = write_buffer [OF inv F(3), unfolded nat_int, folded sz]
  have "inv (c, m1)" by (rule W(1)) (simp add: sz)
  moreover have "0 < nat len" "nat len \<le> buf_size" using F(1,2) jit(2) sz by auto
  ultimately have "\<forall>i < nat len. m2 (a + of_nat i) = m1 (buf + of_nat i)"
    using append_inv [OF _ _ _ ap] by simp
  then show ?thesis
    using jit_code_relocated [where j' = "fst h'" and s' = "snd h'" and len = len and code' = m1, OF wf fresh _ _ cl run ok mch, of m buf "int JIT_BUFFER_SIZE" m2 nxt]
      jit(1) by (simp add: JIT_BUFFER_SIZE_def)
qed

end

end
