(* ===== verification/Main_Program.thy ===== *)
theory Main_Program
  imports Main_Loop
begin

text \<open>
  The rest of \<open>src/src/main.c\<close>: the memory profiles and their choice from the stack limit, the
  two entries of the loop with the contexts and caches they create, and the options of the
  command line.
\<close>

section \<open>Memory profiles\<close>

datatype memory_profile = MEM_PROFILE_2M | MEM_PROFILE_4M | MEM_PROFILE_8M | MEM_PROFILE_16M

definition KB :: int where "KB = 1024"
definition MB :: int where "MB = 1024 * 1024"

record memory_config =
  max_insn :: int
  jitter_context_size :: int
  be_context_size :: int
  cache_size :: int

fun cache_memory_config :: "memory_profile \<Rightarrow> memory_config" where
  "cache_memory_config MEM_PROFILE_2M = \<lparr>max_insn = 10, jitter_context_size = 64 * KB, be_context_size = 64 * KB, cache_size = 1 * MB\<rparr>"
| "cache_memory_config MEM_PROFILE_4M = \<lparr>max_insn = 10, jitter_context_size = 64 * KB, be_context_size = 64 * KB, cache_size = 3 * MB\<rparr>"
| "cache_memory_config MEM_PROFILE_8M = \<lparr>max_insn = 20, jitter_context_size = 128 * KB, be_context_size = 128 * KB, cache_size = 6 * MB\<rparr>"
| "cache_memory_config MEM_PROFILE_16M = \<lparr>max_insn = 40, jitter_context_size = 256 * KB, be_context_size = 256 * KB, cache_size = 14 * MB\<rparr>"

text \<open>
  \<open>setup_memory_profile\<close> with the answers of \<open>getrlimit\<close> (the two limits, unless it fails) and
  \<open>setrlimit\<close> (whether it succeeds). The result is the profile and the soft limit then in
  force; \<open>None\<close> is the fatal error.
\<close>

definition setup_memory_profile :: "(u64 \<times> u64) option \<Rightarrow> bool \<Rightarrow> memory_profile \<Rightarrow> (memory_profile \<times> u64 option) option" where
  "setup_memory_profile getrlimit setrlimit_ok profile = (case getrlimit of
     None \<Rightarrow> Some (profile, None)
   | Some (rlim_cur, rlim_max) \<Rightarrow>
       let mb = (\<lambda>n. of_int (n * MB) :: u64);
           new_soft_limit =
             (if rlim_max \<ge> mb 16 \<and> rlim_max > rlim_cur then mb 16
              else if rlim_max \<ge> mb 8 \<and> rlim_max > rlim_cur then mb 8
              else if rlim_max \<ge> mb 4 \<and> rlim_max > rlim_cur then mb 4
              else if rlim_max \<ge> mb 2 \<and> rlim_max > rlim_cur then mb 2
              else 0);
           current_soft_limit =
             (if new_soft_limit > rlim_cur then (if setrlimit_ok then new_soft_limit else rlim_cur) else rlim_cur)
       in if current_soft_limit \<ge> mb 16 then Some (MEM_PROFILE_16M, Some current_soft_limit)
          else if current_soft_limit \<ge> mb 8 then Some (MEM_PROFILE_8M, Some current_soft_limit)
          else if current_soft_limit \<ge> mb 4 then Some (MEM_PROFILE_4M, Some current_soft_limit)
          else if current_soft_limit \<ge> mb 2 then Some (MEM_PROFILE_2M, Some current_soft_limit)
          else None)"

fun profile_size :: "memory_profile \<Rightarrow> int" where
  "profile_size MEM_PROFILE_2M = 2 * MB"
| "profile_size MEM_PROFILE_4M = 4 * MB"
| "profile_size MEM_PROFILE_8M = 8 * MB"
| "profile_size MEM_PROFILE_16M = 16 * MB"

text \<open>What \<open>loop_cache\<close> and \<open>loop_common\<close> take from the stack: the contexts, the cache and the code buffer.\<close>

definition loop_stack_usage :: "memory_config \<Rightarrow> int" where
  "loop_stack_usage cfg = be_context_size cfg + jitter_context_size cfg + cache_size cfg + int JIT_BUFFER_SIZE"

lemma stack_usage_fits: "loop_stack_usage (cache_memory_config p) + 512 * KB \<le> profile_size p"
  by (cases p) (simp_all add: loop_stack_usage_def KB_def MB_def JIT_BUFFER_SIZE_def)

lemma profile_limit:
  assumes "setup_memory_profile (Some (rlim_cur, rlim_max)) ok p0 = Some (p, lim)"
  shows "\<exists>l. lim = Some l \<and> of_int (profile_size p) \<le> l"
  using assms by (auto simp: setup_memory_profile_def Let_def MB_def split: if_splits)

text \<open>The profile of a limit.\<close>

definition profile_for :: "u64 \<Rightarrow> memory_profile option" where
  "profile_for l = (if of_int (16 * MB) \<le> l then Some MEM_PROFILE_16M
     else if of_int (8 * MB) \<le> l then Some MEM_PROFILE_8M
     else if of_int (4 * MB) \<le> l then Some MEM_PROFILE_4M
     else if of_int (2 * MB) \<le> l then Some MEM_PROFILE_2M else None)"

text \<open>The soft limit the function arrives at, over any order, so that no arithmetic gets in the way.\<close>

lemma raised_limit_tier:
  fixes cur top :: "'a :: linorder"
  assumes "t0 < t2" "t2 < t4" "t4 < t8" "t8 < t16" "cur \<le> top"
  defines "new \<equiv> if top \<ge> t16 \<and> top > cur then t16 else if top \<ge> t8 \<and> top > cur then t8
      else if top \<ge> t4 \<and> top > cur then t4 else if top \<ge> t2 \<and> top > cur then t2 else t0"
  defines "lim \<equiv> if new > cur then new else cur"
  shows "(t16 \<le> lim) = (t16 \<le> top)" "(t8 \<le> lim) = (t8 \<le> top)" "(t4 \<le> lim) = (t4 \<le> top)" "(t2 \<le> lim) = (t2 \<le> top)"
proof -
  have le: "(t \<le> lim) = (t \<le> cur \<or> t \<le> new)" for t by (auto simp: lim_def)
  have "(t \<le> cur \<or> t \<le> new) = (t \<le> top)" if "t \<in> {t2, t4, t8, t16}" for t
  proof (cases "cur < top")
    case True
    have "t \<le> new" if "t \<le> top"
      using \<open>t \<in> {t2, t4, t8, t16}\<close> that True assms(1-4) by (auto simp: new_def)
    moreover have "t \<le> top" if "t \<le> cur" using that True by simp
    moreover have "t \<le> top" if "t \<le> new"
      using \<open>t \<in> {t2, t4, t8, t16}\<close> that True assms(1-4) by (auto simp: new_def split: if_splits)
    ultimately show ?thesis by blast
  next
    case False
    then have "cur = top" "new = t0" using assms(5) by (auto simp: new_def)
    then show ?thesis using that assms(1-4) by auto
  qed
  then show "(t16 \<le> lim) = (t16 \<le> top)" "(t8 \<le> lim) = (t8 \<le> top)" "(t4 \<le> lim) = (t4 \<le> top)" "(t2 \<le> lim) = (t2 \<le> top)"
    by (simp_all add: le)
qed

lemma profile_maximal:
  assumes "rlim_cur \<le> rlim_max"
  shows "map_option fst (setup_memory_profile (Some (rlim_cur, rlim_max)) True p0) = profile_for rlim_max"
proof -
  let ?mb = "\<lambda>n. of_int (n * MB) :: u64"
  have o: "0 < ?mb 2" "?mb 2 < ?mb 4" "?mb 4 < ?mb 8" "?mb 8 < ?mb 16" by (simp_all add: MB_def)
  note T = raised_limit_tier [OF o assms]
  show ?thesis
    by (simp only: setup_memory_profile_def profile_for_def Let_def option.case prod.case if_True T
        if_distrib [of "map_option fst"] option.map fst_conv)
qed

section \<open>The loops\<close>

record tls_context =
  tls_target :: u64
  tls_target_runtime :: u64
  tls_cache :: u64

text \<open>
  The target as the loops use it: \<open>init\<close> builds its state from the target of the parent context, the
  entry, the stack and the signal number; its operations run under the thread's current context.
\<close>

record ('c, 't) target_arch =
  init_target :: "u64 \<Rightarrow> u64 \<Rightarrow> u64 \<Rightarrow> u32 \<Rightarrow> u64 \<Rightarrow> 't"
  target_addr :: u64
  runtime_addr :: u64
  target_env :: "tls_context \<Rightarrow> ('c, 't) loop_env"
  getExitStatus :: "'t \<Rightarrow> int"

definition loop_nocache :: "(internal_cache_none, 't) target_arch \<Rightarrow> u64 \<Rightarrow> u64 \<Rightarrow> u64 \<Rightarrow> u64 \<Rightarrow> u32 \<Rightarrow> u64 \<Rightarrow> memory \<times> tls_context
    \<Rightarrow> (int \<times> memory \<times> tls_context) option" where
  "loop_nocache arch cacheMemory jitBuffer entry stack_entry signum parent_target = (\<lambda>(mem, tls). do {
     s \<leftarrow> createBackend (be_context_size (cache_memory_config MEM_PROFILE_2M));
     h \<leftarrow> createJitter reset_be s (jitter_context_size (cache_memory_config MEM_PROFILE_2M));
     let t = init_target arch (tls_target tls) entry stack_entry signum parent_target;
     c \<leftarrow> createCacheNone cacheMemory MIN_CACHE_SIZE_NONE;
     let tls' = \<lparr>tls_target = target_addr arch, tls_target_runtime = runtime_addr arch, tls_cache = cacheMemory\<rparr>;
     st \<leftarrow> loop_common lookup_none append_none (target_env arch tls') jitBuffer
       (max_insn (cache_memory_config MEM_PROFILE_2M)) (loop_start entry (c, mem) h t);
     Some (getExitStatus arch (target_st st), snd (cache_st st), tls)
   })"

definition loop_cache :: "(caches, 't) target_arch \<Rightarrow> memory_profile \<Rightarrow> u64 \<Rightarrow> u64 \<Rightarrow> u64 \<Rightarrow> u64 \<Rightarrow> u32 \<Rightarrow> u64
    \<Rightarrow> caches \<times> memory \<times> tls_context \<Rightarrow> (int \<times> caches \<times> memory \<times> tls_context) option" where
  "loop_cache arch profile cacheMemory jitBuffer entry stack_entry signum parent_target = (\<lambda>(g, mem, tls). do {
     s \<leftarrow> createBackend (be_context_size (cache_memory_config profile));
     h \<leftarrow> createJitter reset_be s (jitter_context_size (cache_memory_config profile));
     let t = init_target arch (tls_target tls) entry stack_entry signum parent_target;
     g \<leftarrow> createCache cacheMemory (cache_size (cache_memory_config profile)) g;
     let tls' = \<lparr>tls_target = target_addr arch, tls_target_runtime = runtime_addr arch, tls_cache = cacheMemory\<rparr>;
     st \<leftarrow> loop_common (cache_lookup cacheMemory) (cache_append cacheMemory) (target_env arch tls') jitBuffer
       (max_insn (cache_memory_config profile)) (loop_start entry (g, mem) h t);
     g \<leftarrow> removeCache cacheMemory (fst (cache_st st));
     Some (getExitStatus arch (target_st st), g, snd (cache_st st), tls)
   })"

text \<open>Inside a signal handler the loop runs without a cache.\<close>

definition loop :: "(internal_cache_none, 't) target_arch \<Rightarrow> (caches, 't) target_arch \<Rightarrow> memory_profile \<Rightarrow> u64 \<Rightarrow> u64 \<Rightarrow> u64 \<Rightarrow> u64 \<Rightarrow> u32 \<Rightarrow> u64
    \<Rightarrow> caches \<times> memory \<times> tls_context \<Rightarrow> (int \<times> caches \<times> memory \<times> tls_context) option" where
  "loop arch_none arch profile cacheMemory jitBuffer entry stack_entry signum parent_target = (\<lambda>(g, mem, tls).
     if signum \<noteq> 0
     then map_option (\<lambda>(status, mem, tls). (status, g, mem, tls))
       (loop_nocache arch_none cacheMemory jitBuffer entry stack_entry signum parent_target (mem, tls))
     else loop_cache arch profile cacheMemory jitBuffer entry stack_entry signum parent_target (g, mem, tls))"

lemma contexts_created:
  "\<exists>s j s'. createBackend (be_context_size (cache_memory_config p)) = Some s \<and>
     createJitter reset_be s (jitter_context_size (cache_memory_config p)) = Some (j, s')"
  by (cases p) (simp_all add: createBackend_def createJitter_def sizeof_inter_def BE_MIN_CONTEXT_SIZE_def
      JITTER_MIN_CONTEXT_SIZE_def KB_def Let_def resetJitter_def)

definition profile_pools :: "memory_profile \<Rightarrow> int \<times> int \<times> int \<times> int" where
  "profile_pools p = (let js = (jitter_context_size (cache_memory_config p) - ((sizeof_jitter + 15) div 16) * 16) div 2;
     bs = (be_context_size (cache_memory_config p) - ((sizeof_inter + 15) div 16) * 16) div 2 in (js, js, bs, bs))"

lemma contexts_pools:
  assumes "createBackend (be_context_size (cache_memory_config p)) = Some s"
    "createJitter reset_be s (jitter_context_size (cache_memory_config p)) = Some h"
  shows "pool_sizes h = profile_pools p"
  using assms
  by (auto simp: createBackend_def createJitter_def resetJitter_def reset_be_def memoryPoolReset_def memoryPoolInit_def
      pool_sizes_def profile_pools_def Let_def split: bind_splits)

lemma loop_cache_returns:
  fixes arch :: "(caches, 't) target_arch"
  defines "tls' \<equiv> \<lambda>p. \<lparr>tls_target = target_addr arch, tls_target_runtime = runtime_addr arch, tls_cache = p\<rparr>"
  assumes wf: "caches_wf g qs" "cacheMemory \<noteq> 0" "cacheMemory \<notin> set qs"
    and mem: "unat cacheMemory + nat (cache_size (cache_memory_config p)) < 2 ^ 64"
      "\<forall>i < JIT_BUFFER_SIZE. \<forall>k < nat (cache_size (cache_memory_config p)). jitBuffer + of_nat i \<noteq> cacheMemory + of_nat k"
    and ex: "executes (target_env arch (tls' cacheMemory)) (cache_state_inv cacheMemory jitBuffer JIT_BUFFER_SIZE) (cache_block cacheMemory)"
    and tr: "translates (target_env arch (tls' cacheMemory)) jitBuffer (max_insn (cache_memory_config p)) (profile_pools p)"
    and stop: "\<forall>g h. \<exists>n. stops_within n (loop_body (cache_lookup cacheMemory) (cache_append cacheMemory) (target_env arch (tls' cacheMemory)) jitBuffer
        (max_insn (cache_memory_config p))) (\<lambda>st. isLooping (target_env arch (tls' cacheMemory)) (target_st st))
        (loop_start entry (g, mem0) h (init_target arch (tls_target tls) entry stack_entry signum parent))"
  shows "\<exists>status g' mem'. loop_cache arch p cacheMemory jitBuffer entry stack_entry signum parent (g, mem0, tls) = Some (status, g', mem', tls) \<and>
     (\<exists>qs'. caches_wf g' qs' \<and> cacheMemory \<notin> set qs')"
proof -
  obtain s h where cr: "createBackend (be_context_size (cache_memory_config p)) = Some s"
    "createJitter reset_be s (jitter_context_size (cache_memory_config p)) = Some h"
    using contexts_created [of p] by auto
  have c: "MIN_CACHE_SIZE \<le> cache_size (cache_memory_config p)" "sizeof_tb + JIT_BUFFER_SIZE < 2 ^ 16"
    by (cases p) (simp_all add: MIN_CACHE_SIZE_def MB_def sizeof_tb_def JIT_BUFFER_SIZE_def)
  from createCache_inv [OF wf c(1) mem(1) c(2) mem(2), of mem0] obtain g1 where
    g1: "createCache cacheMemory (cache_size (cache_memory_config p)) g = Some g1"
      "cache_state_inv cacheMemory jitBuffer JIT_BUFFER_SIZE (g1, mem0)" by blast
  let ?env = "target_env arch (tls' cacheMemory)"
  let ?st = "loop_start entry (g1, mem0) h (init_target arch (tls_target tls) entry stack_entry signum parent)"
  have "loop_inv (cache_state_inv cacheMemory jitBuffer JIT_BUFFER_SIZE) (cache_block cacheMemory) (profile_pools p) ?st"
    using g1(2) contexts_pools [OF cr] by (simp add: loop_inv_def loop_start_def)
  from hashed.loop_common_returns [OF ex tr refl this] stop obtain st' where
    st': "loop_common (cache_lookup cacheMemory) (cache_append cacheMemory) ?env jitBuffer (max_insn (cache_memory_config p)) ?st = Some st'"
      "loop_inv (cache_state_inv cacheMemory jitBuffer JIT_BUFFER_SIZE) (cache_block cacheMemory) (profile_pools p) st'" by blast
  obtain g2 m2 where g2: "cache_st st' = (g2, m2)" by (cases "cache_st st'")
  then have "cache_state_inv cacheMemory jitBuffer JIT_BUFFER_SIZE (g2, m2)" using st'(2) by (simp add: loop_inv_def)
  then obtain qs2 where q: "caches_wf g2 qs2" "cacheMemory \<in> set qs2" by (auto simp: cache_state_inv_def)
  from ll_remove_wf [OF q] obtain g3 where g3: "ll_remove_cache cacheMemory g2 = Some g3" "caches_wf g3 (remove1 cacheMemory qs2)" by blast
  have "cacheMemory \<notin> set (remove1 cacheMemory qs2)" using q(1) by (simp add: caches_wf_def)
  with g3 st'(1) cr g1(1) g2 show ?thesis
    by (auto simp: loop_cache_def removeCache_def tls'_def Let_def)
qed

section \<open>The command line\<close>

text \<open>How a run of \<open>main\<close> ends other than by returning: an access outside an array, a failed assertion, \<open>exit\<close>.\<close>

datatype main_stop = Out_of_bounds | Assertion_failed | Exited int

record main_options =
  target_argv0_index :: nat
  additionnal_env :: "string option list"
  additionnal_env_index :: nat
  unset_env :: "string option list"
  unset_env_index :: nat
  target_argv0 :: "string option"
  is_under_proot :: bool
  is_umeq_call_in_execve :: bool
  umeq_filename :: "string option"

definition no_options :: main_options where
  "no_options = \<lparr>target_argv0_index = 1, additionnal_env = replicate 16 None, additionnal_env_index = 0,
     unset_env = replicate 16 None, unset_env_index = 0, target_argv0 = None, is_under_proot = False,
     is_umeq_call_in_execve = False, umeq_filename = None\<rparr>"

text \<open>\<open>argv[i]\<close>: the arguments are followed by one NULL.\<close>

definition argv_at :: "string list \<Rightarrow> nat \<Rightarrow> main_stop + string option" where
  "argv_at argv i = (if i < length argv then Inr (Some (argv ! i)) else if i = length argv then Inr None else Inl Out_of_bounds)"

text \<open>\<open>a[i] = v\<close> in an array of 16 pointers.\<close>

definition store_env :: "string option list \<Rightarrow> nat \<Rightarrow> string option \<Rightarrow> main_stop + string option list" where
  "store_env a i v = (if i < 16 then Inr (a[i := v]) else Inl Out_of_bounds)"

function capture_options :: "string list \<Rightarrow> main_options \<Rightarrow> main_stop + main_options" where
  "capture_options argv opts =
     (case argv_at argv (target_argv0_index opts) of
        Inl e \<Rightarrow> Inl e
      | Inr None \<Rightarrow> Inr opts
      | Inr (Some arg) \<Rightarrow>
          let i = target_argv0_index opts in
          if arg = ''-E'' then
            (case argv_at argv (i + 1) of Inl e \<Rightarrow> Inl e | Inr v \<Rightarrow>
               (case store_env (additionnal_env opts) (additionnal_env_index opts) v of Inl e \<Rightarrow> Inl e | Inr env \<Rightarrow>
                  capture_options argv (opts\<lparr>additionnal_env := env, additionnal_env_index := additionnal_env_index opts + 1,
                    target_argv0_index := i + 2, is_under_proot := True\<rparr>)))
          else if arg = ''-U'' then
            (case argv_at argv (i + 1) of Inl e \<Rightarrow> Inl e | Inr v \<Rightarrow>
               (case store_env (unset_env opts) (unset_env_index opts) v of Inl e \<Rightarrow> Inl e | Inr env \<Rightarrow>
                  capture_options argv (opts\<lparr>unset_env := env, unset_env_index := unset_env_index opts + 1,
                    target_argv0_index := i + 2, is_under_proot := True\<rparr>)))
          else if arg = ''-0'' then
            (case argv_at argv (i + 1) of Inl e \<Rightarrow> Inl e | Inr v \<Rightarrow>
               capture_options argv (opts\<lparr>target_argv0 := v, target_argv0_index := i + 2, is_under_proot := True\<rparr>))
          else if arg = ''-execve'' then
            capture_options argv (opts\<lparr>is_umeq_call_in_execve := True, umeq_filename := Some (argv ! 0), target_argv0_index := i + 1\<rparr>)
          else if arg = ''-version'' then Inl (Exited 0)
          else Inr opts)"
  by pat_completeness auto
termination
  by (relation "measure (\<lambda>(argv, opts). Suc (length argv) - target_argv0_index opts)")
     (auto simp: argv_at_def split: if_splits)

declare capture_options.simps [simp del]

definition ENOEXEC :: int where "ENOEXEC = 8"

text \<open>
  \<open>main\<close>: the loader gets the arguments behind the options and answers with the entry and the
  stack, \<open>run\<close> is the call of \<open>loop\<close> with them.
\<close>

definition main :: "(string list \<Rightarrow> main_options \<Rightarrow> u64 \<times> u64) \<Rightarrow> (main_options \<Rightarrow> u64 \<Rightarrow> u64 \<Rightarrow> int) \<Rightarrow> string list \<Rightarrow> main_stop + int" where
  "main loader run argv = (case capture_options argv no_options of
     Inl e \<Rightarrow> Inl e
   | Inr opts \<Rightarrow>
       if \<not> additionnal_env_index opts < 16 \<or> \<not> unset_env_index opts < 16 then Inl Assertion_failed
       else if is_umeq_call_in_execve opts \<and> target_argv0 opts = None then Inl Assertion_failed
       else
         let opts = (if is_umeq_call_in_execve opts then opts\<lparr>is_under_proot := False\<rparr> else opts);
             (entry, stack) = loader (drop (target_argv0_index opts) argv) opts
         in if entry \<noteq> 0 then Inr (run opts entry stack) else Inr (- ENOEXEC))"

subsection \<open>Reading back what was written\<close>

datatype cmd_option = Set_env string | Unset_env string | Argv0 string | Execve

fun words_of :: "cmd_option \<Rightarrow> string list" where
  "words_of (Set_env v) = [''-E'', v]"
| "words_of (Unset_env v) = [''-U'', v]"
| "words_of (Argv0 v) = [''-0'', v]"
| "words_of Execve = [''-execve'']"

definition is_option_word :: "string \<Rightarrow> bool" where
  "is_option_word w \<longleftrightarrow> w \<in> {''-E'', ''-U'', ''-0'', ''-execve'', ''-version''}"

fun envs_of :: "cmd_option list \<Rightarrow> string list" where
  "envs_of [] = []"
| "envs_of (Set_env v # cs) = v # envs_of cs"
| "envs_of (_ # cs) = envs_of cs"

fun unsets_of :: "cmd_option list \<Rightarrow> string list" where
  "unsets_of [] = []"
| "unsets_of (Unset_env v # cs) = v # unsets_of cs"
| "unsets_of (_ # cs) = unsets_of cs"

text \<open>What one option does to the options read so far.\<close>

fun add_option :: "string \<Rightarrow> cmd_option \<Rightarrow> main_options \<Rightarrow> main_options" where
  "add_option self (Set_env v) opts = opts\<lparr>additionnal_env := (additionnal_env opts)[additionnal_env_index opts := Some v],
     additionnal_env_index := additionnal_env_index opts + 1, target_argv0_index := target_argv0_index opts + 2, is_under_proot := True\<rparr>"
| "add_option self (Unset_env v) opts = opts\<lparr>unset_env := (unset_env opts)[unset_env_index opts := Some v],
     unset_env_index := unset_env_index opts + 1, target_argv0_index := target_argv0_index opts + 2, is_under_proot := True\<rparr>"
| "add_option self (Argv0 v) opts = opts\<lparr>target_argv0 := Some v, target_argv0_index := target_argv0_index opts + 2, is_under_proot := True\<rparr>"
| "add_option self Execve opts = opts\<lparr>is_umeq_call_in_execve := True, umeq_filename := Some self, target_argv0_index := target_argv0_index opts + 1\<rparr>"

lemma drop_Cons_nth:
  assumes "drop i xs = y # ys"
  shows "xs ! i = y" "length xs = Suc (i + length ys)"
proof -
  have "i < length xs" using assms by (metis drop_all linorder_not_less list.distinct(1))
  then show "xs ! i = y" "length xs = Suc (i + length ys)"
    using assms Cons_nth_drop_Suc [of i xs] arg_cong [OF assms, of length] by auto
qed

lemma capture_one:
  assumes "drop (target_argv0_index opts) argv = words_of c @ rest"
    and "additionnal_env_index opts + length (envs_of [c]) \<le> 16" "unset_env_index opts + length (unsets_of [c]) \<le> 16"
  shows "capture_options argv opts = capture_options argv (add_option (argv ! 0) c opts)"
    "drop (target_argv0_index (add_option (argv ! 0) c opts)) argv = rest"
proof -
  let ?i = "target_argv0_index opts"
  have w: "?i + length (words_of c) \<le> length argv" "\<forall>k < length (words_of c). argv ! (?i + k) = words_of c ! k"
  proof -
    have "length (drop ?i argv) = length (words_of c) + length rest" "0 < length (words_of c)"
      unfolding assms(1) by (simp, cases c) simp_all
    then show "?i + length (words_of c) \<le> length argv" unfolding length_drop by linarith
    then show "\<forall>k < length (words_of c). argv ! (?i + k) = words_of c ! k"
      using assms(1) by (metis add_leD1 nth_append nth_drop)
  qed
  have "drop (?i + length (words_of c)) argv = rest" using assms(1) by (metis add.commute append_eq_conv_conj drop_drop)
  then show "drop (target_argv0_index (add_option (argv ! 0) c opts)) argv = rest" by (cases c) simp_all
  show "capture_options argv opts = capture_options argv (add_option (argv ! 0) c opts)"
    by (subst capture_options.simps, cases c)
       (use w assms(2,3) in \<open>auto simp: argv_at_def store_env_def Let_def less_Suc_eq all_conj_distrib\<close>)
qed

lemma capture_all:
  assumes "drop (target_argv0_index opts) argv = concat (map words_of cs) @ rest"
    and "additionnal_env_index opts + length (envs_of cs) \<le> 16" "unset_env_index opts + length (unsets_of cs) \<le> 16"
  shows "capture_options argv opts = capture_options argv (fold (add_option (argv ! 0)) cs opts)"
    "drop (target_argv0_index (fold (add_option (argv ! 0)) cs opts)) argv = rest"
proof -
  have "capture_options argv opts = capture_options argv (fold (add_option (argv ! 0)) cs opts) \<and>
    drop (target_argv0_index (fold (add_option (argv ! 0)) cs opts)) argv = rest"
    using assms
  proof (induction cs arbitrary: opts)
    case (Cons c cs)
    have n: "length (envs_of (c # cs)) = length (envs_of [c]) + length (envs_of cs)"
      "length (unsets_of (c # cs)) = length (unsets_of [c]) + length (unsets_of cs)"
      "additionnal_env_index (add_option (argv ! 0) c opts) = additionnal_env_index opts + length (envs_of [c])"
      "unset_env_index (add_option (argv ! 0) c opts) = unset_env_index opts + length (unsets_of [c])"
      by (cases c; simp)+
    have d: "drop (target_argv0_index opts) argv = words_of c @ (concat (map words_of cs) @ rest)" using Cons.prems(1) by simp
    note O = capture_one [OF d]
    have b: "additionnal_env_index opts + length (envs_of [c]) \<le> 16" "unset_env_index opts + length (unsets_of [c]) \<le> 16"
      using Cons.prems(2,3) n by linarith+
    show ?case using O [OF b] Cons.IH [OF O(2) [OF b]] Cons.prems(2,3) n by simp
  qed simp
  then show "capture_options argv opts = capture_options argv (fold (add_option (argv ! 0)) cs opts)"
    "drop (target_argv0_index (fold (add_option (argv ! 0)) cs opts)) argv = rest" by simp_all
qed

lemma capture_stops:
  assumes "drop (target_argv0_index opts) argv = prog # args" "\<not> is_option_word prog"
  shows "capture_options argv opts = Inr opts"
proof -
  have "target_argv0_index opts < length argv" "argv ! target_argv0_index opts = prog"
    using drop_Cons_nth [OF assms(1)] by auto
  then show ?thesis using assms(2)
    by (subst capture_options.simps) (simp add: argv_at_def is_option_word_def)
qed

text \<open>The arrays hold the values of the options in the order they came.\<close>

lemma fold_options:
  fixes self :: string
  assumes "additionnal_env_index opts + length (envs_of cs) \<le> length (additionnal_env opts)"
    "unset_env_index opts + length (unsets_of cs) \<le> length (unset_env opts)"
  defines "res \<equiv> fold (add_option self) cs opts"
  shows "additionnal_env_index res = additionnal_env_index opts + length (envs_of cs)"
    "unset_env_index res = unset_env_index opts + length (unsets_of cs)"
    "take (additionnal_env_index res) (additionnal_env res) = take (additionnal_env_index opts) (additionnal_env opts) @ map Some (envs_of cs)"
    "take (unset_env_index res) (unset_env res) = take (unset_env_index opts) (unset_env opts) @ map Some (unsets_of cs)"
    "is_umeq_call_in_execve res \<longleftrightarrow> is_umeq_call_in_execve opts \<or> Execve \<in> set cs"
    "is_under_proot res \<longleftrightarrow> is_under_proot opts \<or> (\<exists>c \<in> set cs. c \<noteq> Execve)"
proof -
  have "additionnal_env_index res = additionnal_env_index opts + length (envs_of cs) \<and>
    unset_env_index res = unset_env_index opts + length (unsets_of cs) \<and>
    take (additionnal_env_index res) (additionnal_env res) = take (additionnal_env_index opts) (additionnal_env opts) @ map Some (envs_of cs) \<and>
    take (unset_env_index res) (unset_env res) = take (unset_env_index opts) (unset_env opts) @ map Some (unsets_of cs) \<and>
    (is_umeq_call_in_execve res \<longleftrightarrow> is_umeq_call_in_execve opts \<or> Execve \<in> set cs) \<and>
    (is_under_proot res \<longleftrightarrow> is_under_proot opts \<or> (\<exists>c \<in> set cs. c \<noteq> Execve))"
    using assms(1,2) unfolding res_def
  proof (induction cs arbitrary: opts)
    case (Cons c cs)
    have b: "additionnal_env_index (add_option self c opts) + length (envs_of cs) \<le> length (additionnal_env (add_option self c opts))"
      "unset_env_index (add_option self c opts) + length (unsets_of cs) \<le> length (unset_env (add_option self c opts))"
      using Cons.prems by (cases c; simp)+
    show ?case using Cons.IH [OF b] Cons.prems by (cases c) (auto simp: take_Suc_conv_app_nth)
  qed simp
  then show "additionnal_env_index res = additionnal_env_index opts + length (envs_of cs)"
    "unset_env_index res = unset_env_index opts + length (unsets_of cs)"
    "take (additionnal_env_index res) (additionnal_env res) = take (additionnal_env_index opts) (additionnal_env opts) @ map Some (envs_of cs)"
    "take (unset_env_index res) (unset_env res) = take (unset_env_index opts) (unset_env opts) @ map Some (unsets_of cs)"
    "is_umeq_call_in_execve res \<longleftrightarrow> is_umeq_call_in_execve opts \<or> Execve \<in> set cs"
    "is_under_proot res \<longleftrightarrow> is_under_proot opts \<or> (\<exists>c \<in> set cs. c \<noteq> Execve)" by blast+
qed

text \<open>The seventeenth \<open>-E\<close> is written behind the array: the assertion comes after the loop.\<close>

lemma capture_overflow:
  assumes "drop (target_argv0_index opts) argv = concat (map words_of cs) @ ''-E'' # v # rest"
    and "additionnal_env_index opts + length (envs_of cs) = 16" "unset_env_index opts + length (unsets_of cs) \<le> 16"
    "length (additionnal_env opts) = 16" "length (unset_env opts) = 16"
  shows "capture_options argv opts = Inl Out_of_bounds"
proof -
  let ?o = "fold (add_option (argv ! 0)) cs opts"
  note A = capture_all [OF assms(1)] and F = fold_options [of opts cs "argv ! 0"]
  have i: "additionnal_env_index ?o = 16" using F(1) assms(2-5) by simp
  have d: "drop (target_argv0_index ?o) argv = ''-E'' # v # rest" using A(2) assms(2,3) by simp
  then have l: "target_argv0_index ?o + 1 < length argv" "argv ! target_argv0_index ?o = ''-E''"
    using drop_Cons_nth [OF d] by auto
  have "capture_options argv ?o = Inl Out_of_bounds"
    by (subst capture_options.simps) (use l i in \<open>simp add: argv_at_def store_env_def\<close>)
  then show ?thesis using A(1) assms(2,3) by simp
qed

end
