(* ===== verification/Sample_Block.thy ===== *)
theory Sample_Block
  imports Main_Program
begin

text \<open>
  A small block, built through the entries of the builder and translated by the backend: the
  concrete input at which the theorems about blocks are instantiated. It loads two constants, adds
  them and leaves with the sum.
\<close>

definition demo_ops :: "ir_op list" where
  "demo_ops = [Mov_const IR_REG_64 5, Mov_const IR_REG_64 7, Add IR_REG_64 0 1, Exit 2]"

fun run_ops :: "ir_op list \<Rightarrow> jitter \<Rightarrow> jitter option" where
  "run_ops [] j = Some j"
| "run_ops (x # xs) j = do { j \<leftarrow> run_op x j; run_ops xs j }"

definition demo_start :: jitter where
  "demo_start = fst (the (createJitter id () (64 * 1024)))"

definition demo_jitter :: jitter where
  "demo_jitter = the (run_ops demo_ops demo_start)"

definition demo_be :: inter where "demo_be = the (createBackend (64 * 1024))"

lemma demo_start_created: "createJitter id () (64 * 1024) = Some (demo_start, ())"
  by code_simp

lemma demo_jitter_built: "run_ops demo_ops demo_start = Some demo_jitter"
  by code_simp

lemma demo_jitted: "\<exists>x. jitCode (demo_jitter, demo_be) (\<lambda>_. 0) 4096 16384 = Some x"
proof -
  have "\<not> Option.is_none (jitCode (demo_jitter, demo_be) (\<lambda>_. 0) 4096 16384)" by code_simp
  then show ?thesis by (auto simp: Option.is_none_def)
qed

lemma demo_insns:
  "insns_of demo_jitter = [IR_MOV_CONST IR_REG_64 0 5, IR_MOV_CONST IR_REG_64 1 7, IR_BINOP IR_BINOP_ADD IR_REG_64 2 0 1, IR_EXIT 2 None]"
  "types_of demo_jitter = [IR_REG_64, IR_REG_64, IR_REG_64]"
  by code_simp+

lemma run_ops_built:
  assumes "ir_built j" "run_ops ops j = Some j'" "\<forall>op \<in> set ops. op_arity op"
    "\<forall>k < length ops. \<forall>r \<in> set (op_args (ops ! k)). \<forall>j1. run_ops (take k ops) j = Some j1 \<longrightarrow> r < length (regs_of j1)"
  shows "ir_built j'"
  using assms
proof (induction ops arbitrary: j)
  case (Cons op ops)
  obtain j1 where j1: "run_op op j = Some j1" "run_ops ops j1 = Some j'" using Cons.prems(2) by (auto split: bind_splits)
  have "ir_built j1"
    by (rule ir_built.built [OF Cons.prems(1) _ _ j1(1)]) (use Cons.prems(3) Cons.prems(4) [rule_format, of 0] in auto)
  moreover have "\<forall>k < length ops. \<forall>r \<in> set (op_args (ops ! k)). \<forall>j2. run_ops (take k ops) j1 = Some j2 \<longrightarrow> r < length (regs_of j2)"
    using Cons.prems(4) [rule_format, of "Suc _"] j1(1) by auto
  ultimately show ?case using Cons.IH [OF _ j1(2)] Cons.prems(3) by simp
qed simp

lemma demo_built: "ir_built demo_jitter"
proof (rule run_ops_built [OF ir_built.created [OF demo_start_created] demo_jitter_built])
  show "\<forall>op \<in> set demo_ops. op_arity op" by (simp add: demo_ops_def)
  have "list_all (\<lambda>k. case run_ops (take k demo_ops) demo_start of None \<Rightarrow> True
      | Some j1 \<Rightarrow> list_all (\<lambda>r. r < length (regs_of j1)) (op_args (demo_ops ! k))) [0..<length demo_ops]" by code_simp
  then show "\<forall>k < length demo_ops. \<forall>r \<in> set (op_args (demo_ops ! k)). \<forall>j1. run_ops (take k demo_ops) demo_start = Some j1 \<longrightarrow> r < length (regs_of j1)"
    by (fastforce simp: list_all_iff split: option.splits)
qed

lemma demo_be_fresh: "be_fresh demo_be"
proof -
  have "createBackend (64 * 1024) = Some demo_be" by code_simp
  then show ?thesis by (rule createBackend_fresh)
qed

definition demo_env :: xenv where "demo_env = \<lparr>hlp_arity = (\<lambda>_. 0), hlp_fun = (\<lambda>_ _ _ m. (0, m)), hlp_extends = False\<rparr>"

definition demo_helper :: "u64 \<Rightarrow> host \<Rightarrow> host" where "demo_helper a m = m\<lparr>gpr := (gpr m)(0 := 0)\<rparr>"

lemma demo_helper_ok: "helper_ok demo_helper demo_env"
  by (simp add: helper_ok_def demo_helper_def demo_env_def)

lemma demo_clean: "clean_block (hlp_extends demo_env) (types_of demo_jitter) {} (insns_of demo_jitter)"
  by (simp add: demo_insns trunc_def)

lemma demo_run: "irun demo_env ctx (is_const (insns_of demo_jitter)) (insns_of demo_jitter) ivals mem = Some (Leave 12 False mem)"
  by (simp add: demo_insns is_const_def trunc_def ir_binop_def)

definition demo_host :: "u64 \<Rightarrow> host" where
  "demo_host pc = \<lparr>gpr = (\<lambda>_. 0), zf = False, rip = pc, hmem = (\<lambda>_. 0), hstack = [4242]\<rparr>"

lemma demo_sim: "sim (\<lambda>_. 0) 0 (\<lambda>_. 0) [4242] (demo_host pc)"
  by (simp add: sim_def demo_host_def)

text \<open>The block after the first and the second pass.\<close>

definition demo_sel :: bstate where
  "demo_sel = the (allocateInstructions (insns_of demo_jitter) (demo_be, regs_of demo_jitter))"

definition demo_alloc :: inter where
  "demo_alloc = the (allocateRegisters (fst demo_sel))"

lemma demo_selected: "allocateInstructions (insns_of demo_jitter) (demo_be, regs_of demo_jitter) = Some (fst demo_sel, snd demo_sel)"
  by code_simp

lemma demo_allocated: "allocateRegisters (fst demo_sel) = Some demo_alloc"
  by code_simp

lemma demo_xinsns:
  "xinsns_of (fst demo_sel) = [X86_MOV_CONST 0 5, X86_MOV_CONST 1 7, X86_BINOP IR_REG_64 X86_BINOP_ADD 2 0 1, X86_EXIT 2 None False]"
  "length (xregs_of (fst demo_sel)) = 3"
  by code_simp+

lemma demo_wf: "ir_wf demo_jitter" by (rule ir_built_wf [OF demo_built])

lemma demo_x_wf: "x_wf (xregs_of (fst demo_sel)) (xinsns_of (fst demo_sel))"
  by (rule allocateInstructions_x_wf [OF demo_wf demo_be_fresh demo_selected])

lemma demo_pressure: "pressure (xinsns_of (fst demo_sel)) k \<le> REG_NUMBER"
proof -
  have "{r. live (xinsns_of (fst demo_sel)) k r} \<subseteq> {..<3}"
    using defined_bound [OF demo_x_wf] demo_xinsns(2) by (auto simp: live_def)
  from card_mono [OF _ this] show ?thesis by (simp add: pressure_def REG_NUMBER_def)
qed

text \<open>A block with markers: two guest instructions, at offsets 4 and 8.\<close>

definition marked_ops :: "ir_op list" where
  "marked_ops = [Insn_marker 4, Mov_const IR_REG_64 5, Insn_marker 8, Exit 0]"

definition marked_jitter :: jitter where "marked_jitter = the (run_ops marked_ops demo_start)"

definition marked_alloc :: inter where
  "marked_alloc = the (allocateRegisters (fst (the (allocateInstructions (insns_of marked_jitter) (demo_be, regs_of marked_jitter)))))"

lemma marked_insns: "phys_insns marked_alloc = [X86_INSN_MARKER 4, X86_MOV_CONST 0 5, X86_INSN_MARKER 8, X86_EXIT 0 None True]"
  by code_simp

section \<open>A cache and a target\<close>

text \<open>A program with one empty cache of the smallest profile, the code buffer below it, and a target that runs for a number of
  rounds and always disassembles to the sample block.\<close>

definition demo_no_caches :: caches where
  "demo_no_caches = \<lparr>heap = (\<lambda>_. None), root = 0, is_cache_clean_need = False\<rparr>"

abbreviation (input) demo_buffer :: u64 where "demo_buffer \<equiv> 65536"
abbreviation (input) demo_cache :: u64 where "demo_cache \<equiv> 1048576"

lemma demo_buffer_below: "\<forall>i < JIT_BUFFER_SIZE. \<forall>k < nat (cache_size (cache_memory_config MEM_PROFILE_2M)). demo_buffer + of_nat i \<noteq> demo_cache + of_nat k"
proof (intro allI impI)
  fix i k :: nat assume i: "i < JIT_BUFFER_SIZE" and k: "k < nat (cache_size (cache_memory_config MEM_PROFILE_2M))"
  have u: "unat (65536 + of_nat i :: u64) = 65536 + i" "unat (1048576 + of_nat k :: u64) = 1048576 + k"
    using i k by (simp_all add: JIT_BUFFER_SIZE_def MB_def unat_word_ariths unat_of_nat)
  show "demo_buffer + of_nat i \<noteq> demo_cache + of_nat k"
  proof
    assume "demo_buffer + of_nat i = demo_cache + of_nat k"
    then have "unat (65536 + of_nat i :: u64) = unat (1048576 + of_nat k :: u64)" by simp
    then show False using u i by (simp add: JIT_BUFFER_SIZE_def)
  qed
qed

lemma demo_no_caches_wf: "caches_wf demo_no_caches []"
  by (simp add: caches_wf_def demo_no_caches_def)

lemma demo_cache_created:
  "\<exists>g. createCache demo_cache (cache_size (cache_memory_config MEM_PROFILE_2M)) demo_no_caches = Some g \<and>
     cache_state_inv demo_cache demo_buffer JIT_BUFFER_SIZE (g, \<lambda>_. 0) \<and> caches_wf g [demo_cache] \<and>
     (\<forall>pc a k. \<not> cache_block demo_cache (g, \<lambda>_. 0) pc a k)"
proof -
  have "MIN_CACHE_SIZE \<le> cache_size (cache_memory_config MEM_PROFILE_2M)"
    "unat demo_cache + nat (cache_size (cache_memory_config MEM_PROFILE_2M)) < 2 ^ 64" "sizeof_tb + JIT_BUFFER_SIZE < 2 ^ 16"
    by (simp_all add: MIN_CACHE_SIZE_def MB_def sizeof_tb_def JIT_BUFFER_SIZE_def)
  from createCache_inv [OF demo_no_caches_wf _ _ this demo_buffer_below, of "\<lambda>_. 0"] show ?thesis by auto
qed

definition demo_g :: caches where
  "demo_g = the (createCache demo_cache (cache_size (cache_memory_config MEM_PROFILE_2M)) demo_no_caches)"

lemma demo_g_inv:
  "cache_state_inv demo_cache demo_buffer JIT_BUFFER_SIZE (demo_g, \<lambda>_. 0)" "caches_wf demo_g [demo_cache]"
  "\<not> cache_block demo_cache (demo_g, \<lambda>_. 0) pc a k"
  using demo_cache_created by (auto simp: demo_g_def)

definition demo_loop_env :: "('c, nat) loop_env" where
  "demo_loop_env = \<lparr>isLooping = (\<lambda>t. 0 < t),
     disassemble = (\<lambda>t j pc mx. map_option (\<lambda>j. (j, t)) (run_ops demo_ops j)),
     execute = (\<lambda>cs t a. Some (4, 0, cs, t - 1))\<rparr>"

lemma demo_executes: "executes demo_loop_env cinv block"
  by (simp add: executes_def demo_loop_env_def)

definition demo_handle :: "jitter \<times> inter" where "demo_handle = (demo_start, demo_be)"

lemma resetJitter_eq:
  assumes "pool_sizes h = pool_sizes h'"
  shows "resetJitter reset_be h = resetJitter reset_be h'"
proof -
  obtain j s j' s' where "h = (j, s)" "h' = (j', s')" by (cases h, cases h')
  then show ?thesis using assms
    by (cases j, cases s, cases j', cases s')
       (auto simp: pool_sizes_def resetJitter_def reset_be_def memoryPoolReset_def intro!: memoryPool.equality)
qed

lemma jitCode_any_buffer:
  assumes "jitCode (j, s) mem buf sz = Some (len, mem1, h)"
  shows "\<exists>mem2. jitCode (j, s) mem' buf' sz = Some (len, mem2, h)"
  using assms by (auto simp: jitCode_def jit_def Let_def split: bind_splits)

lemma demo_translates: "translates (demo_loop_env :: ('c, nat) loop_env) buf mx (profile_pools MEM_PROFILE_2M)"
  unfolding translates_def
proof (intro allI impI)
  fix h t pc mem assume h: "pool_sizes h = profile_pools MEM_PROFILE_2M"
  have e: "profile_pools MEM_PROFILE_2M = pool_sizes demo_handle" by code_simp
  have r: "resetJitter reset_be h = resetJitter reset_be demo_handle" by (rule resetJitter_eq) (simp add: h e)
  let ?j = "the (run_ops demo_ops (fst (resetJitter reset_be demo_handle)))" and ?s = "snd (resetJitter reset_be demo_handle)"
  have d: "run_ops demo_ops (fst (resetJitter reset_be demo_handle)) = Some ?j" by code_simp
  have "(case jitCode (?j, ?s) (\<lambda>_. 0) 4096 (int JIT_BUFFER_SIZE) of None \<Rightarrow> False
     | Some (len, m, h') \<Rightarrow> 0 < len \<and> pool_sizes h' = profile_pools MEM_PROFILE_2M)" by code_simp
  then obtain len m h' where "jitCode (?j, ?s) (\<lambda>_. 0) 4096 (int JIT_BUFFER_SIZE) = Some (len, m, h')" "0 < len"
    "pool_sizes h' = profile_pools MEM_PROFILE_2M" by (auto split: option.splits)
  with jitCode_any_buffer [of ?j ?s "\<lambda>_. 0" 4096 "int JIT_BUFFER_SIZE" len m h' mem buf] obtain m2 where
    m2: "jitCode (?j, ?s) mem buf (int JIT_BUFFER_SIZE) = Some (len, m2, h')" by blast
  obtain j0 s0 where j: "resetJitter reset_be demo_handle = (j0, s0)" by (cases "resetJitter reset_be demo_handle")
  obtain j1 where "run_ops demo_ops j0 = Some j1" using d unfolding j by auto
  then have "run_ops demo_ops j0 = Some j1" "jitCode (j1, s0) mem buf (int JIT_BUFFER_SIZE) = Some (len, m2, h')"
    using m2 unfolding j by simp_all
  then have "translate demo_loop_env buf mx h t pc mem = Some (len, m2, h', t)"
    using r j by (simp add: translate_def demo_loop_env_def)
  then show "\<exists>jitSize mem' h' t'. translate demo_loop_env buf mx h t pc mem = Some (jitSize, mem', h', t') \<and> 0 < jitSize \<and>
      pool_sizes h' = profile_pools MEM_PROFILE_2M"
    using \<open>0 < len\<close> \<open>pool_sizes h' = profile_pools MEM_PROFILE_2M\<close> by blast
qed

lemma demo_body_counts:
  "loop_body lk ap demo_loop_env buf mx st = Some st' \<Longrightarrow> target_st st' = target_st st - 1"
  by (auto simp: loop_body_def demo_loop_env_def translate_def split: bind_splits if_splits prod.splits)

lemma demo_stops:
  fixes st :: "('c, nat) loop_state"
  shows "target_st st \<le> n \<Longrightarrow> stops_within n (loop_body lk ap demo_loop_env buf mx) (\<lambda>st. isLooping (demo_loop_env :: ('c, nat) loop_env) (target_st st)) st"
proof (induction n arbitrary: st)
  case (Suc n)
  have "stops_within n (loop_body lk ap demo_loop_env buf mx) (\<lambda>st. isLooping (demo_loop_env :: ('c, nat) loop_env) (target_st st)) st'"
    if "loop_body lk ap demo_loop_env buf mx st = Some st'" for st'
    by (rule Suc.IH) (use demo_body_counts [OF that] Suc.prems in simp)
  then show ?case by (simp split: option.splits)
qed (simp add: demo_loop_env_def)

lemma demo_start_inv: "loop_inv (cache_state_inv 1048576 65536 JIT_BUFFER_SIZE) (cache_block 1048576) (profile_pools MEM_PROFILE_2M)
    (loop_start 4096 (demo_g, \<lambda>_. 0) demo_handle (3 :: nat))"
proof -
  have "pool_sizes demo_handle = profile_pools MEM_PROFILE_2M" by code_simp
  then show ?thesis using demo_g_inv(1) by (simp add: loop_inv_def loop_start_def)
qed

end
