(* ===== verification/Guest_Mmap.thy ===== *)
theory Guest_Mmap
  imports Cache_Global
begin

text \<open>
  The memory map of an arm64 guest: \<open>src/src/target/memory/mmap_common.c\<close> with the parameters and
  entries of \<open>src/src/target/arm64/syscall/arm64_mmap.c\<close>. A list of areas covers the guest's address
  range; the entries emulate the memory system calls of the guest by calls of the host kernel at
  addresses the list says are free. A guest address is its own host address. The mutex around
  every entry makes it atomic and is not modelled.
\<close>

section \<open>State\<close>

datatype vma_type = VMA_UNMAP | VMA_MAP | VMA_UNMAP_ONGOING

record vma_desc =
  vma_kind :: vma_type
  start_addr :: u64
  end_addr :: u64

record shmat_desc =
  shm_start :: u64
  shm_end :: u64

definition PAGE_SIZE :: u64 where "PAGE_SIZE = 4096"
definition PAGE_ALIGN_DOWN :: "u64 \<Rightarrow> u64" where "PAGE_ALIGN_DOWN addr = addr AND NOT 4095"
definition PAGE_ALIGN_UP :: "u64 \<Rightarrow> u64" where "PAGE_ALIGN_UP addr = (addr + 4095) AND NOT 4095"

definition FORCE_ALIGNMENT :: u64 where "FORCE_ALIGNMENT = 64 * 1024"
definition MAPPING_START :: u64 where "MAPPING_START = 0x0000400000"
definition KERNEL_CHOOSE_START_ADDR :: u64 where "KERNEL_CHOOSE_START_ADDR = 0x4000000000"
definition MAPPING_RESERVE_IN_SIGNAL_START :: u64 where "MAPPING_RESERVE_IN_SIGNAL_START = 0x7000000000"
definition MAPPING_RESERVE_IN_SIGNAL_END :: u64 where "MAPPING_RESERVE_IN_SIGNAL_END = 0x8000000000"

text \<open>Descriptors of 40 and of 32 bytes in a page.\<close>

definition DESC_PER_PAGE :: nat where "DESC_PER_PAGE = 102"
definition SHMAT_DESC_PER_PAGE :: nat where "SHMAT_DESC_PER_PAGE = 128"

definition ENOMEM_64 :: u64 where "ENOMEM_64 = - 12"
definition EINVAL_64 :: u64 where "EINVAL_64 = - 22"
definition EFAULT_64 :: u64 where "EFAULT_64 = - 14"
definition MAP_FIXED :: u32 where "MAP_FIXED = 0x10"
definition PROT_EXEC :: u32 where "PROT_EXEC = 4"
definition MREMAP_MAYMOVE :: u32 where "MREMAP_MAYMOVE = 1"
definition MREMAP_FIXED :: u32 where "MREMAP_FIXED = 2"
definition SHM_REMAP :: u32 where "SHM_REMAP = 0x4000"

text \<open>
  The free lists only serve as stocks of descriptors, so their lengths are kept. \<open>desc_next_memory\<close> is 0 for
  NULL. \<open>all_caches\<close> is the state \<open>cleanCaches\<close> works on, \<open>kernel\<close> the state of the host kernel.
\<close>

record 'k mmap_state =
  is_init :: bool
  is_end_of_vm_reach :: bool
  signal_cursor :: u64
  kernel_cursor :: u64
  desc_next_memory :: u64
  free_vma_list :: nat
  vma_list :: "vma_desc list"
  ongoing_vma_list :: "vma_desc list"
  free_shmat_list :: nat
  shmat_list :: "shmat_desc list"
  all_caches :: caches
  kernel :: 'k

text \<open>The host's system calls, each with its arguments and the kernel's state.\<close>

record 'k syscalls =
  sys_mmap :: "u64 \<Rightarrow> u64 \<Rightarrow> u32 \<Rightarrow> u32 \<Rightarrow> u32 \<Rightarrow> u64 \<Rightarrow> 'k \<Rightarrow> u64 \<times> 'k"
  sys_munmap :: "u64 \<Rightarrow> u64 \<Rightarrow> 'k \<Rightarrow> u64 \<times> 'k"
  sys_mremap :: "u64 \<Rightarrow> u64 \<Rightarrow> u64 \<Rightarrow> u32 \<Rightarrow> u64 \<Rightarrow> 'k \<Rightarrow> u64 \<times> 'k"
  sys_shmctl_segsz :: "u32 \<Rightarrow> 'k \<Rightarrow> u64 \<times> u64"
  sys_shmat :: "u32 \<Rightarrow> u64 \<Rightarrow> u32 \<Rightarrow> 'k \<Rightarrow> u64 \<times> 'k"
  sys_shmdt :: "u64 \<Rightarrow> 'k \<Rightarrow> u64 \<times> 'k"

definition is_syscall_error :: "u64 \<Rightarrow> bool" where
  "is_syscall_error res \<longleftrightarrow> sint res < 0 \<and> sint res > -4096"

section \<open>Descriptors\<close>

definition allocate_more_desc :: "'k mmap_state \<Rightarrow> 'k mmap_state option" where
  "allocate_more_desc st = do {
     assert (desc_next_memory st \<noteq> 0);
     Some (st\<lparr>free_vma_list := free_vma_list st + DESC_PER_PAGE, desc_next_memory := 0\<rparr>)
   }"

definition arm64_get_free_desc :: "'k mmap_state \<Rightarrow> 'k mmap_state option" where
  "arm64_get_free_desc st = do {
     st \<leftarrow> (if free_vma_list st = 0 then allocate_more_desc st else Some st);
     assert (free_vma_list st \<noteq> 0);
     Some (st\<lparr>free_vma_list := free_vma_list st - 1\<rparr>)
   }"

definition release_desc :: "'k mmap_state \<Rightarrow> 'k mmap_state" where
  "release_desc st = st\<lparr>free_vma_list := free_vma_list st + 1\<rparr>"

section \<open>The list of areas\<close>

definition owns :: "u64 \<Rightarrow> vma_desc \<Rightarrow> bool" where
  "owns addr desc \<longleftrightarrow> start_addr desc \<le> addr \<and> addr < end_addr desc"

text \<open>The position of the area that owns an address; \<open>None\<close> is the NULL of the loop that runs off the list.\<close>

fun find_address_owner :: "vma_desc list \<Rightarrow> u64 \<Rightarrow> nat option" where
  "find_address_owner [] addr = None"
| "find_address_owner (d # ds) addr = (if owns addr d then Some 0 else map_option Suc (find_address_owner ds addr))"

text \<open>\<open>1 - type\<close>, for the two types areas of the list have.\<close>

fun other_type :: "vma_type \<Rightarrow> vma_type" where
  "other_type VMA_UNMAP = VMA_MAP"
| "other_type VMA_MAP = VMA_UNMAP"
| "other_type VMA_UNMAP_ONGOING = VMA_UNMAP_ONGOING"

text \<open>
  The loop over the areas before the last one: \<open>kept\<close> are the areas passed, \<open>current_mapped\<close> the one that
  swallows the following ones.
\<close>

fun span_areas :: "u64 \<Rightarrow> vma_type \<Rightarrow> vma_desc list \<Rightarrow> vma_desc option \<Rightarrow> vma_desc list \<Rightarrow> 'k mmap_state
    \<Rightarrow> (vma_desc list \<times> vma_desc option \<times> 'k mmap_state) option" where
  "span_areas start type kept current_mapped [] st = Some (kept, current_mapped, st)"
| "span_areas start type kept (Some m) (current # ds) st =
     span_areas start type kept (Some (m\<lparr>end_addr := end_addr current\<rparr>)) ds (release_desc st)"
| "span_areas start type kept None (current # ds) st =
     (if vma_kind current = other_type type
      then do {
        st \<leftarrow> arm64_get_free_desc st;
        span_areas start type (kept @ [current\<lparr>end_addr := start\<rparr>])
          (Some \<lparr>vma_kind = type, start_addr = start, end_addr = end_addr current\<rparr>) ds st }
      else span_areas start type kept (Some current) ds st)"

definition insert_single :: "u64 \<Rightarrow> u64 \<Rightarrow> vma_type \<Rightarrow> nat \<Rightarrow> 'k mmap_state \<Rightarrow> 'k mmap_state option" where
  "insert_single start stop type i st =
     (let vl = vma_list st; first = vl ! i; mapone = \<lparr>vma_kind = type, start_addr = start, end_addr = stop\<rparr> in
      if start_addr first = start
      then do {
        st \<leftarrow> arm64_get_free_desc st;
        Some (st\<lparr>vma_list := take i vl @ [mapone, first\<lparr>start_addr := stop\<rparr>] @ drop (Suc i) vl\<rparr>) }
      else do {
        st \<leftarrow> arm64_get_free_desc st;
        st \<leftarrow> arm64_get_free_desc st;
        let unmapone = \<lparr>vma_kind = other_type type, start_addr = stop, end_addr = end_addr first\<rparr>;
        Some (st\<lparr>vma_list := take i vl @ [first\<lparr>end_addr := start\<rparr>, mapone, unmapone] @ drop (Suc i) vl\<rparr>) })"

definition insert_span :: "u64 \<Rightarrow> u64 \<Rightarrow> vma_type \<Rightarrow> nat \<Rightarrow> nat \<Rightarrow> 'k mmap_state \<Rightarrow> 'k mmap_state option" where
  "insert_span start stop type i k st = do {
     let vl = vma_list st;
     let last_area = vl ! k;
     assert (i < k);
     (kept, cm, st) \<leftarrow> span_areas start type [] None (take (k - i) (drop i vl)) st;
     m \<leftarrow> cm;
     if vma_kind last_area = other_type type
     then if start_addr last_area \<noteq> stop
       then Some (st\<lparr>vma_list := take i vl @ kept @ [m\<lparr>end_addr := stop\<rparr>, last_area\<lparr>start_addr := stop\<rparr>] @ drop (Suc k) vl\<rparr>)
       else Some (st\<lparr>vma_list := take i vl @ kept @ [m, last_area] @ drop (Suc k) vl\<rparr>)
     else Some (release_desc (st\<lparr>vma_list := take i vl @ kept @ [m\<lparr>end_addr := end_addr last_area\<rparr>] @ drop (Suc k) vl\<rparr>))
   }"

text \<open>The repair behind: the area at \<open>start\<close> is merged into the one before it when they have the same type.\<close>

definition merge_prev :: "u64 \<Rightarrow> vma_type \<Rightarrow> 'k mmap_state \<Rightarrow> 'k mmap_state option" where
  "merge_prev start type st = do {
     let vl = vma_list st;
     i \<leftarrow> find_address_owner vl start;
     if 0 < i \<and> vma_kind (vl ! (i - 1)) = type
     then Some (release_desc (st\<lparr>vma_list := take (i - 1) vl @ [(vl ! (i - 1))\<lparr>end_addr := end_addr (vl ! i)\<rparr>] @ drop (Suc i) vl\<rparr>))
     else Some st
   }"

text \<open>Where the walk from the first to the last area would leave the list, the code dereferences NULL.\<close>

definition insert_area :: "u64 \<Rightarrow> u64 \<Rightarrow> vma_type \<Rightarrow> 'k mmap_state \<Rightarrow> 'k mmap_state option" where
  "insert_area start stop type st = do {
     i \<leftarrow> find_address_owner (vma_list st) start;
     k \<leftarrow> find_address_owner (vma_list st) stop;
     if i = k \<and> vma_kind (vma_list st ! i) = type then Some st
     else do {
       st \<leftarrow> (if i = k then insert_single start stop type i st else insert_span start stop type i k st);
       merge_prev start type st }
   }"

definition insert_map_area :: "u64 \<Rightarrow> u64 \<Rightarrow> 'k mmap_state \<Rightarrow> 'k mmap_state option" where
  "insert_map_area start stop st = insert_area start stop VMA_MAP st"

definition insert_unmap_area :: "u64 \<Rightarrow> u64 \<Rightarrow> 'k mmap_state \<Rightarrow> 'k mmap_state option" where
  "insert_unmap_area start stop st = insert_area start stop VMA_UNMAP st"

definition is_area_unmap :: "u64 \<Rightarrow> u64 \<Rightarrow> 'k mmap_state \<Rightarrow> bool option" where
  "is_area_unmap start stop st = do {
     i \<leftarrow> find_address_owner (vma_list st) (PAGE_ALIGN_DOWN start);
     let owner = vma_list st ! i;
     Some (vma_kind owner = VMA_UNMAP \<and> PAGE_ALIGN_UP stop \<le> end_addr owner)
   }"

definition is_area_valid :: "u64 \<Rightarrow> u64 \<Rightarrow> 'k mmap_state \<Rightarrow> bool" where
  "is_area_valid start stop st = (case find_address_owner (vma_list st) (PAGE_ALIGN_DOWN start) of
       None \<Rightarrow> False
     | Some i \<Rightarrow> vma_kind (vma_list st ! i) = VMA_MAP \<and> PAGE_ALIGN_UP stop \<le> end_addr (vma_list st ! i))"

section \<open>The search for room\<close>

definition find_vma :: "u64 \<Rightarrow> 'k mmap_state \<Rightarrow> (u64 \<times> 'k mmap_state) option" where
  "find_vma length_p st = (let len = PAGE_ALIGN_UP length_p in
     case find (\<lambda>d. vma_kind d = VMA_UNMAP \<and> len \<le> end_addr d - start_addr d) (vma_list st) of
       None \<Rightarrow> Some (ENOMEM_64, st)
     | Some d \<Rightarrow> do {
         st \<leftarrow> insert_map_area (start_addr d) (start_addr d + len) st;
         Some (start_addr d, st) })"

definition kernel_choice :: "u64 \<Rightarrow> u64 \<Rightarrow> vma_desc \<Rightarrow> bool" where
  "kernel_choice cursor len d \<longleftrightarrow> vma_kind d = VMA_UNMAP \<and> len \<le> end_addr d - max (start_addr d) cursor"

definition find_vma_with_kernel_choose :: "u64 \<Rightarrow> 'k mmap_state \<Rightarrow> (u64 \<times> 'k mmap_state) option" where
  "find_vma_with_kernel_choose length_p st = do {
     let len = PAGE_ALIGN_UP length_p;
     i \<leftarrow> find_address_owner (vma_list st) (kernel_cursor st);
     (res, st) \<leftarrow> (case find (kernel_choice (kernel_cursor st) len) (drop i (vma_list st)) of
         None \<Rightarrow> Some (ENOMEM_64, st)
       | Some d \<Rightarrow> do {
           let start = max (start_addr d) (kernel_cursor st);
           st \<leftarrow> insert_map_area start (start + len) st;
           Some (start, st) });
     if res = ENOMEM_64
     then find_vma len (st\<lparr>is_end_of_vm_reach := True, kernel_cursor := KERNEL_CHOOSE_START_ADDR\<rparr>)
     else Some (res, st\<lparr>kernel_cursor := (res + len + FORCE_ALIGNMENT - 1) AND NOT (FORCE_ALIGNMENT - 1)\<rparr>)
   }"

definition find_vma_with_hint :: "u64 \<Rightarrow> u64 \<Rightarrow> 'k mmap_state \<Rightarrow> (u64 \<times> 'k mmap_state) option" where
  "find_vma_with_hint length_p hint_addr st = do {
     let len = PAGE_ALIGN_UP length_p;
     let hint = PAGE_ALIGN_DOWN hint_addr;
     let stop = PAGE_ALIGN_UP (hint + len);
     (res, st) \<leftarrow> (case (if hint_addr = 0 then None else find_address_owner (vma_list st) hint) of
         None \<Rightarrow> Some (ENOMEM_64, st)
       | Some i \<Rightarrow>
           if vma_kind (vma_list st ! i) = VMA_UNMAP \<and> stop \<le> end_addr (vma_list st ! i)
           then do { st \<leftarrow> insert_map_area hint stop st; Some (hint, st) }
           else Some (ENOMEM_64, st));
     if res = ENOMEM_64 then find_vma len st else Some (res, st)
   }"

section \<open>Initialisation and the system calls\<close>

definition mmap_init :: "'k mmap_state \<Rightarrow> 'k mmap_state option" where
  "mmap_init st = do {
     let st = st\<lparr>free_vma_list := free_vma_list st + DESC_PER_PAGE\<rparr>;
     st \<leftarrow> arm64_get_free_desc st;
     let st = st\<lparr>vma_list := \<lparr>vma_kind = VMA_MAP, start_addr = MAPPING_RESERVE_IN_SIGNAL_START,
        end_addr = MAPPING_RESERVE_IN_SIGNAL_START + 4096\<rparr> # vma_list st\<rparr>;
     st \<leftarrow> arm64_get_free_desc st;
     Some (st\<lparr>vma_list := \<lparr>vma_kind = VMA_UNMAP, start_addr = MAPPING_START,
        end_addr = MAPPING_RESERVE_IN_SIGNAL_START\<rparr> # vma_list st, is_init := True\<rparr>)
   }"

definition ensure_init :: "'k mmap_state \<Rightarrow> 'k mmap_state option" where
  "ensure_init st = (if is_init st then Some st else mmap_init st)"

definition internal_mmap :: "'k syscalls \<Rightarrow> u64 \<Rightarrow> u64 \<Rightarrow> u64 \<Rightarrow> u64 \<Rightarrow> u64 \<Rightarrow> u64 \<Rightarrow> 'k mmap_state \<Rightarrow> (u64 \<times> 'k mmap_state) option" where
  "internal_mmap K addr_p length_p prot_p flags_p fd_p offset_p st = do {
     st \<leftarrow> ensure_init st;
     let prot = (ucast prot_p :: u32);
     let flags = (ucast flags_p :: u32);
     let fd = (ucast fd_p :: u32);
     if addr_p \<noteq> 0 \<and> flags AND MAP_FIXED \<noteq> 0
     then do {
       let (res, k) = sys_mmap K addr_p length_p prot flags fd offset_p (kernel st);
       let st = st\<lparr>kernel := k\<rparr>;
       st \<leftarrow> (if \<not> is_syscall_error res then insert_map_area addr_p (PAGE_ALIGN_UP (addr_p + length_p)) st else Some st);
       Some (res, st) }
     else do {
       (res_vma, st) \<leftarrow> (if addr_p = 0 then find_vma_with_kernel_choose length_p st else find_vma_with_hint length_p addr_p st);
       if res_vma \<noteq> ENOMEM_64
       then do {
         let (res, k) = sys_mmap K res_vma length_p prot (flags OR MAP_FIXED) fd offset_p (kernel st);
         let st = st\<lparr>kernel := k\<rparr>;
         st \<leftarrow> (if is_syscall_error res then insert_unmap_area res_vma (PAGE_ALIGN_UP (res_vma + length_p)) st
                else if is_end_of_vm_reach st \<and> prot AND PROT_EXEC \<noteq> 0 then Some (st\<lparr>all_caches := cleanCaches (all_caches st)\<rparr>)
                else Some st);
         Some (res, st) }
       else Some (res_vma, st) }
   }"

definition internal_munmap :: "'k syscalls \<Rightarrow> u64 \<Rightarrow> u64 \<Rightarrow> 'k mmap_state \<Rightarrow> (u64 \<times> 'k mmap_state) option" where
  "internal_munmap K addr_p length_p st = do {
     st \<leftarrow> ensure_init st;
     let (res, k) = sys_munmap K addr_p length_p (kernel st);
     let st = st\<lparr>kernel := k\<rparr>;
     st \<leftarrow> (if \<not> is_syscall_error res then insert_unmap_area addr_p (PAGE_ALIGN_UP (addr_p + length_p)) st else Some st);
     Some (res, st)
   }"

text \<open>
  A stack that is still in use is queued; the kernel clears the type field, which makes it \<open>VMA_UNMAP\<close>, when
  the thread that uses it has ended.
\<close>

definition internal_munmap_ongoing :: "u64 \<Rightarrow> u64 \<Rightarrow> 'k mmap_state \<Rightarrow> 'k mmap_state option" where
  "internal_munmap_ongoing addr_p length_p st = do {
     st \<leftarrow> ensure_init st;
     st \<leftarrow> arm64_get_free_desc st;
     Some (st\<lparr>ongoing_vma_list := \<lparr>vma_kind = VMA_UNMAP_ONGOING, start_addr = addr_p,
        end_addr = PAGE_ALIGN_UP (addr_p + length_p)\<rparr> # ongoing_vma_list st\<rparr>)
   }"

partial_function (option) collect_ongoing_unmap :: "'k syscalls \<Rightarrow> 'k mmap_state \<Rightarrow> 'k mmap_state option" where
  "collect_ongoing_unmap K st = (case find (\<lambda>d. vma_kind d = VMA_UNMAP) (ongoing_vma_list st) of
     None \<Rightarrow> Some st
   | Some d \<Rightarrow> do {
       let st = st\<lparr>ongoing_vma_list := remove1 d (ongoing_vma_list st)\<rparr>;
       let (res, k) = sys_munmap K (start_addr d) (end_addr d - start_addr d) (kernel st);
       let st = st\<lparr>kernel := k\<rparr>;
       assert (\<not> is_syscall_error res);
       st \<leftarrow> insert_unmap_area (start_addr d) (end_addr d) st;
       collect_ongoing_unmap K (release_desc st) })"

definition allocate_more_desc_memory :: "'k syscalls \<Rightarrow> 'k mmap_state \<Rightarrow> 'k mmap_state option" where
  "allocate_more_desc_memory K st = do {
     (res, st) \<leftarrow> internal_mmap K 0 PAGE_SIZE 3 0x22 (- 1) 0 st;
     assert (\<not> is_syscall_error res);
     Some (st\<lparr>desc_next_memory := res\<rparr>)
   }"

definition allocate_more_desc_memory_if_needed :: "'k syscalls \<Rightarrow> 'k mmap_state \<Rightarrow> 'k mmap_state option" where
  "allocate_more_desc_memory_if_needed K st = do {
     st \<leftarrow> collect_ongoing_unmap K st;
     if desc_next_memory st = 0 then allocate_more_desc_memory K st else Some st
   }"

definition internal_mremap :: "'k syscalls \<Rightarrow> u64 \<Rightarrow> u64 \<Rightarrow> u64 \<Rightarrow> u64 \<Rightarrow> u64 \<Rightarrow> 'k mmap_state \<Rightarrow> (u64 \<times> 'k mmap_state) option" where
  "internal_mremap K old_addr_p old_size_p new_size_p flags_p new_addr_p st = do {
     st \<leftarrow> ensure_init st;
     if PAGE_ALIGN_DOWN old_addr_p \<noteq> old_addr_p then Some (EINVAL_64, st)
     else if \<not> is_area_valid old_addr_p (old_addr_p + old_size_p) st then Some (EFAULT_64, st)
     else do {
       let flags = (ucast flags_p :: u32);
       let old_size_align_p = PAGE_ALIGN_UP old_size_p;
       let new_size_align_p = PAGE_ALIGN_UP new_size_p;
       if flags AND MREMAP_FIXED \<noteq> 0
       then do {
         let (res_host, k) = sys_mremap K old_addr_p old_size_p new_size_p flags new_addr_p (kernel st);
         let st = st\<lparr>kernel := k\<rparr>;
         if \<not> is_syscall_error res_host
         then do {
           st \<leftarrow> insert_unmap_area old_addr_p (PAGE_ALIGN_UP (old_addr_p + old_size_p)) st;
           st \<leftarrow> insert_map_area new_addr_p (PAGE_ALIGN_UP (new_addr_p + new_size_p)) st;
           Some (new_addr_p, st) }
         else Some (res_host, st) }
       else if new_size_align_p \<le> old_size_align_p
       then do {
         let (res_host, k) = sys_mremap K old_addr_p old_size_p new_size_p flags new_addr_p (kernel st);
         let st = st\<lparr>kernel := k\<rparr>;
         if \<not> is_syscall_error res_host
         then do {
           st \<leftarrow> (if old_size_align_p \<noteq> new_size_align_p
                  then insert_unmap_area (old_addr_p + new_size_align_p) (old_addr_p + old_size_align_p) st else Some st);
           Some (old_addr_p, st) }
         else Some (res_host, st) }
       else do {
         free \<leftarrow> is_area_unmap (old_addr_p + old_size_align_p) (old_addr_p + new_size_align_p) st;
         (res, st) \<leftarrow> (if free
           then do {
             let (res_host, k) = sys_mremap K old_addr_p old_size_p new_size_p (flags AND NOT MREMAP_MAYMOVE) new_addr_p (kernel st);
             let st = st\<lparr>kernel := k\<rparr>;
             if \<not> is_syscall_error res_host
             then do {
               st \<leftarrow> insert_map_area (old_addr_p + old_size_align_p) (old_addr_p + new_size_align_p) st;
               Some (old_addr_p, st) }
             else Some (res_host, st) }
           else Some (ENOMEM_64, st));
         if flags AND MREMAP_MAYMOVE \<noteq> 0 \<and> is_syscall_error res
         then do {
           (new_possible_addr_p, st) \<leftarrow> find_vma_with_kernel_choose new_size_p st;
           if new_possible_addr_p \<noteq> ENOMEM_64
           then do {
             let (res_host, k) = sys_mremap K old_addr_p old_size_p new_size_p (flags OR MREMAP_FIXED) new_possible_addr_p (kernel st);
             let st = st\<lparr>kernel := k\<rparr>;
             if \<not> is_syscall_error res_host
             then do {
               st \<leftarrow> insert_unmap_area old_addr_p (old_addr_p + old_size_p) st;
               Some (new_possible_addr_p, st) }
             else do {
               st \<leftarrow> insert_unmap_area new_possible_addr_p (new_possible_addr_p + new_size_align_p) st;
               Some (res_host, st) } }
           else Some (ENOMEM_64, st) }
         else Some (res, st) } }
   }"

section \<open>Shared memory segments\<close>

definition allocate_more_shmat_desc :: "'k syscalls \<Rightarrow> 'k mmap_state \<Rightarrow> 'k mmap_state option" where
  "allocate_more_shmat_desc K st = do {
     (descs_guest, st) \<leftarrow> internal_mmap K 0 PAGE_SIZE 3 0x22 (- 1) 0 st;
     assert (\<not> is_syscall_error descs_guest);
     Some (st\<lparr>free_shmat_list := free_shmat_list st + SHMAT_DESC_PER_PAGE\<rparr>)
   }"

definition get_shmat_free_desc :: "'k syscalls \<Rightarrow> 'k mmap_state \<Rightarrow> 'k mmap_state option" where
  "get_shmat_free_desc K st = do {
     st \<leftarrow> (if free_shmat_list st = 0 then allocate_more_shmat_desc K st else Some st);
     assert (free_shmat_list st \<noteq> 0);
     Some (st\<lparr>free_shmat_list := free_shmat_list st - 1\<rparr>)
   }"

definition shm_find :: "u64 \<Rightarrow> 'k mmap_state \<Rightarrow> shmat_desc option" where
  "shm_find addr st = find (\<lambda>d. addr = shm_start d) (shmat_list st)"

definition shm_insert :: "'k syscalls \<Rightarrow> u64 \<Rightarrow> u64 \<Rightarrow> 'k mmap_state \<Rightarrow> 'k mmap_state option" where
  "shm_insert K start stop st = do {
     st \<leftarrow> get_shmat_free_desc K st;
     Some (st\<lparr>shmat_list := \<lparr>shm_start = start, shm_end = stop\<rparr> # shmat_list st\<rparr>)
   }"

definition shm_remove :: "u64 \<Rightarrow> 'k mmap_state \<Rightarrow> 'k mmap_state option" where
  "shm_remove addr st = (case shm_find addr st of
       None \<Rightarrow> Some st
     | Some d \<Rightarrow> do {
         st \<leftarrow> insert_unmap_area (shm_start d) (shm_end d) st;
         Some (st\<lparr>shmat_list := remove1 d (shmat_list st), free_shmat_list := free_shmat_list st + 1\<rparr>) })"

definition internal_shmat :: "'k syscalls \<Rightarrow> u64 \<Rightarrow> u64 \<Rightarrow> u64 \<Rightarrow> 'k mmap_state \<Rightarrow> (u64 \<times> 'k mmap_state) option" where
  "internal_shmat K shmid_p shmaddr_p shmflg_p st = do {
     let shmid = (ucast shmid_p :: u32);
     let shmflg = (ucast shmflg_p :: u32);
     let (res, shm_segsz) = sys_shmctl_segsz K shmid (kernel st);
     if is_syscall_error res then Some (res, st)
     else do {
       let len = PAGE_ALIGN_UP shm_segsz;
       (start, st) \<leftarrow> (if shmaddr_p = 0 then find_vma_with_kernel_choose len st
         else do {
           let start = PAGE_ALIGN_DOWN shmaddr_p;
           st \<leftarrow> insert_map_area start (start + len) st;
           Some (start, st) });
       if start \<noteq> ENOMEM_64
       then do {
         let (res, k) = sys_shmat K shmid start (shmflg OR SHM_REMAP) (kernel st);
         let st = st\<lparr>kernel := k\<rparr>;
         st \<leftarrow> (if is_syscall_error res then insert_unmap_area start (start + len) st else shm_insert K start (start + len) st);
         Some (res, st) }
       else Some (ENOMEM_64, st) }
   }"

definition internal_shmdt :: "'k syscalls \<Rightarrow> u64 \<Rightarrow> 'k mmap_state \<Rightarrow> (u64 \<times> 'k mmap_state) option" where
  "internal_shmdt K shmaddr_p st = do {
     let (res, k) = sys_shmdt K shmaddr_p (kernel st);
     let st = st\<lparr>kernel := k\<rparr>;
     st \<leftarrow> (if \<not> is_syscall_error res then shm_remove shmaddr_p st else Some st);
     Some (res, st)
   }"

definition internal_mmap_signal :: "'k syscalls \<Rightarrow> u64 \<Rightarrow> u64 \<Rightarrow> u64 \<Rightarrow> u64 \<Rightarrow> u64 \<Rightarrow> u64 \<Rightarrow> 'k mmap_state \<Rightarrow> (u64 \<times> 'k mmap_state) option" where
  "internal_mmap_signal K addr_p length_p prot_p flags_p fd_p offset_p st = do {
     let flags = (ucast flags_p :: u32);
     if flags AND MAP_FIXED \<noteq> 0 then Some (EINVAL_64, st)
     else do {
       let len = PAGE_ALIGN_UP length_p;
       let addr = signal_cursor st;
       let st = st\<lparr>signal_cursor := signal_cursor st + len\<rparr>;
       assert (signal_cursor st < MAPPING_RESERVE_IN_SIGNAL_END);
       let (res, k) = sys_mmap K addr len (ucast prot_p) (flags OR MAP_FIXED) (ucast fd_p) offset_p (kernel st);
       Some (res, st\<lparr>kernel := k\<rparr>) }
   }"

section \<open>The entries\<close>

text \<open>The arguments are the guest registers \<open>r0\<close> to \<open>r5\<close>.\<close>

definition arm64_mmap :: "'k syscalls \<Rightarrow> bool \<Rightarrow> (nat \<Rightarrow> u64) \<Rightarrow> 'k mmap_state \<Rightarrow> (u64 \<times> 'k mmap_state) option" where
  "arm64_mmap K is_in_signal r st = (if is_in_signal
     then internal_mmap_signal K (r 0) (r 1) (r 2) (r 3) (r 4) (r 5) st
     else do {
       (res, st) \<leftarrow> internal_mmap K (r 0) (r 1) (r 2) (r 3) (r 4) (r 5) st;
       st \<leftarrow> (if desc_next_memory st = 0 then allocate_more_desc_memory_if_needed K st else Some st);
       Some (res, st) })"

definition arm64_munmap :: "'k syscalls \<Rightarrow> bool \<Rightarrow> (nat \<Rightarrow> u64) \<Rightarrow> 'k mmap_state \<Rightarrow> (u64 \<times> 'k mmap_state) option" where
  "arm64_munmap K is_in_signal r st = (if is_in_signal
     then (let (res, k) = sys_munmap K (r 0) (r 1) (kernel st) in Some (res, st\<lparr>kernel := k\<rparr>))
     else do {
       (res, st) \<leftarrow> internal_munmap K (r 0) (r 1) st;
       st \<leftarrow> (if desc_next_memory st = 0 then allocate_more_desc_memory_if_needed K st else Some st);
       Some (res, st) })"

definition arm64_mremap :: "'k syscalls \<Rightarrow> bool \<Rightarrow> (nat \<Rightarrow> u64) \<Rightarrow> 'k mmap_state \<Rightarrow> (u64 \<times> 'k mmap_state) option" where
  "arm64_mremap K is_in_signal r st = do {
     assert (\<not> is_in_signal);
     (res, st) \<leftarrow> internal_mremap K (r 0) (r 1) (r 2) (r 3) (r 4) st;
     st \<leftarrow> allocate_more_desc_memory_if_needed K st;
     Some (res, st)
   }"

definition arm64_shmat :: "'k syscalls \<Rightarrow> bool \<Rightarrow> (nat \<Rightarrow> u64) \<Rightarrow> 'k mmap_state \<Rightarrow> (u64 \<times> 'k mmap_state) option" where
  "arm64_shmat K is_in_signal r st = do {
     assert (\<not> is_in_signal);
     (res, st) \<leftarrow> internal_shmat K (r 0) (r 1) (r 2) st;
     st \<leftarrow> allocate_more_desc_memory_if_needed K st;
     Some (res, st)
   }"

definition arm64_shmdt :: "'k syscalls \<Rightarrow> bool \<Rightarrow> (nat \<Rightarrow> u64) \<Rightarrow> 'k mmap_state \<Rightarrow> (u64 \<times> 'k mmap_state) option" where
  "arm64_shmdt K is_in_signal r st = do {
     assert (\<not> is_in_signal);
     (res, st) \<leftarrow> internal_shmdt K (r 0) st;
     st \<leftarrow> allocate_more_desc_memory_if_needed K st;
     Some (res, st)
   }"

definition mmap_guest :: "'k syscalls \<Rightarrow> u64 \<Rightarrow> u64 \<Rightarrow> u64 \<Rightarrow> u64 \<Rightarrow> u64 \<Rightarrow> u64 \<Rightarrow> 'k mmap_state \<Rightarrow> (u64 \<times> 'k mmap_state) option" where
  "mmap_guest K addr len prot flags fd offset st = do {
     (res, st) \<leftarrow> internal_mmap K addr len prot flags fd offset st;
     st \<leftarrow> allocate_more_desc_memory_if_needed K st;
     Some (res, st)
   }"

definition munmap_guest :: "'k syscalls \<Rightarrow> u64 \<Rightarrow> u64 \<Rightarrow> 'k mmap_state \<Rightarrow> (u64 \<times> 'k mmap_state) option" where
  "munmap_guest K addr len st = do {
     (res, st) \<leftarrow> internal_munmap K addr len st;
     st \<leftarrow> allocate_more_desc_memory_if_needed K st;
     Some (res, st)
   }"

definition munmap_guest_ongoing :: "'k syscalls \<Rightarrow> u64 \<Rightarrow> u64 \<Rightarrow> 'k mmap_state \<Rightarrow> 'k mmap_state option" where
  "munmap_guest_ongoing K addr len st = do {
     st \<leftarrow> internal_munmap_ongoing addr len st;
     allocate_more_desc_memory_if_needed K st
   }"

end
