(* ===== verification/Guest_Areas.thy ===== *)
theory Guest_Areas
  imports Guest_Mmap
begin

text \<open>
  The meaning of the list of areas: every address of the guest's range has a type, and \<open>insert_area\<close>
  changes the types of exactly the addresses it is given.
\<close>

section \<open>Contiguous lists of areas\<close>

fun contig :: "u64 \<Rightarrow> vma_desc list \<Rightarrow> u64 \<Rightarrow> bool" where
  "contig lo [] hi = (lo = hi)"
| "contig lo (d # ds) hi = (start_addr d = lo \<and> lo \<le> end_addr d \<and> contig (end_addr d) ds hi)"

text \<open>The type of an address.\<close>

fun kind_at :: "vma_desc list \<Rightarrow> u64 \<Rightarrow> vma_type option" where
  "kind_at [] a = None"
| "kind_at (d # ds) a = (if owns a d then Some (vma_kind d) else kind_at ds a)"

definition two_kinds :: "vma_desc list \<Rightarrow> bool" where
  "two_kinds ds \<longleftrightarrow> (\<forall>d \<in> set ds. vma_kind d \<in> {VMA_MAP, VMA_UNMAP})"

lemma two_kinds_simps [simp]:
  "two_kinds []" "two_kinds (d # ds) = (vma_kind d \<in> {VMA_MAP, VMA_UNMAP} \<and> two_kinds ds)"
  "two_kinds (xs @ ys) = (two_kinds xs \<and> two_kinds ys)"
  by (auto simp: two_kinds_def)

lemma contig_le: "contig lo ds hi \<Longrightarrow> lo \<le> hi"
  by (induction ds arbitrary: lo) (auto intro: order.trans)

lemma contig_append: "contig lo (xs @ ys) hi \<longleftrightarrow> (\<exists>m. contig lo xs m \<and> contig m ys hi)"
  by (induction xs arbitrary: lo) auto

lemma kind_at_outside: "contig lo ds hi \<Longrightarrow> a < lo \<or> hi \<le> a \<Longrightarrow> kind_at ds a = None"
proof (induction ds arbitrary: lo)
  case (Cons d ds)
  have "end_addr d \<le> hi" using Cons.prems(1) contig_le by auto
  then have "\<not> owns a d" using Cons.prems by (auto simp: owns_def)
  moreover have "a < end_addr d \<or> hi \<le> a" using Cons.prems by auto
  ultimately show ?case using Cons.IH [of "end_addr d"] Cons.prems(1) by simp
qed simp

lemma kind_at_append:
  "contig lo xs m \<Longrightarrow> contig m ys hi \<Longrightarrow> kind_at (xs @ ys) a = (if a < m then kind_at xs a else kind_at ys a)"
proof (induction xs arbitrary: lo)
  case (Cons x xs)
  have "end_addr x \<le> m" using Cons.prems(1) contig_le by auto
  then show ?case using Cons.IH [of "end_addr x"] Cons.prems by (auto simp: owns_def)
qed (use kind_at_outside in auto)

lemma kind_at_inside: "contig lo ds hi \<Longrightarrow> lo \<le> a \<Longrightarrow> a < hi \<Longrightarrow> kind_at ds a \<noteq> None"
proof (induction ds arbitrary: lo)
  case (Cons d ds)
  then show ?case by (cases "a < end_addr d") (auto simp: owns_def)
qed auto

lemma owner_kind: "find_address_owner ds a = Some i \<Longrightarrow> i < length ds \<and> owns a (ds ! i) \<and> kind_at ds a = Some (vma_kind (ds ! i))"
  by (induction ds arbitrary: i) (auto split: if_splits)

lemma owner_None: "find_address_owner ds a = None \<longleftrightarrow> kind_at ds a = None"
  by (induction ds) auto

lemma owner_exists: "contig lo ds hi \<Longrightarrow> lo \<le> a \<Longrightarrow> a < hi \<Longrightarrow> \<exists>i. find_address_owner ds a = Some i"
  by (cases "find_address_owner ds a") (use kind_at_inside [of lo ds hi a] owner_None in auto)

lemma contig_split:
  assumes "contig lo ds hi" "i < length ds"
  shows "contig lo (take i ds) (start_addr (ds ! i))" "start_addr (ds ! i) \<le> end_addr (ds ! i)"
    "contig (end_addr (ds ! i)) (drop (Suc i) ds) hi"
proof -
  have "contig lo (take i ds @ ds ! i # drop (Suc i) ds) hi" using assms by (simp add: id_take_nth_drop [symmetric])
  then show "contig lo (take i ds) (start_addr (ds ! i))" "start_addr (ds ! i) \<le> end_addr (ds ! i)"
    "contig (end_addr (ds ! i)) (drop (Suc i) ds) hi" by (auto simp: contig_append)
qed

lemma kind_at_nth:
  assumes "contig lo ds hi" "i < length ds" "owns a (ds ! i)"
  shows "kind_at ds a = Some (vma_kind (ds ! i))"
proof -
  note C = contig_split [OF assms(1,2)]
  have r: "contig (start_addr (ds ! i)) (ds ! i # drop (Suc i) ds) hi" using C by simp
  have "kind_at (take i ds @ ds ! i # drop (Suc i) ds) a = Some (vma_kind (ds ! i))"
    using assms(3) unfolding kind_at_append [OF C(1) r] by (auto simp: owns_def)
  then show ?thesis using assms(2) by (simp add: id_take_nth_drop [symmetric])
qed

text \<open>Replacing a part of the list by another description of the same addresses.\<close>

definition retyped :: "u64 \<Rightarrow> u64 \<Rightarrow> vma_type \<Rightarrow> (u64 \<Rightarrow> vma_type option) \<Rightarrow> u64 \<Rightarrow> vma_type option" where
  "retyped start stop type f a = (if start \<le> a \<and> a < stop then Some type else f a)"

lemma replace_middle:
  assumes "contig lo pre s" "contig s xs e" "contig s xs' e" "contig e post hi" "s \<le> start" "stop \<le> e"
    and k: "\<And>a. s \<le> a \<Longrightarrow> a < e \<Longrightarrow> kind_at xs' a = retyped start stop type (kind_at xs) a"
  shows "contig lo (pre @ xs' @ post) hi" "kind_at (pre @ xs' @ post) a = retyped start stop type (kind_at (pre @ xs @ post)) a"
proof -
  have c: "contig s (xs @ post) hi" "contig s (xs' @ post) hi" using assms(2-4) by (auto simp: contig_append)
  show "contig lo (pre @ xs' @ post) hi" using assms(1) c(2) by (auto simp: contig_append)
  show "kind_at (pre @ xs' @ post) a = retyped start stop type (kind_at (pre @ xs @ post)) a"
    unfolding retyped_def kind_at_append [OF assms(1) c(1)] kind_at_append [OF assms(1) c(2)]
      kind_at_append [OF assms(2,4)] kind_at_append [OF assms(3,4)]
    using k [of a] assms(5,6) by (auto simp: retyped_def not_less)
qed

section \<open>Descriptors\<close>

definition stock :: "'k mmap_state \<Rightarrow> nat" where
  "stock st = free_vma_list st + (if desc_next_memory st = 0 then 0 else DESC_PER_PAGE)"

text \<open>Two states that differ in the list of areas and the descriptors only.\<close>

definition same_rest :: "'k mmap_state \<Rightarrow> 'k mmap_state \<Rightarrow> bool" where
  "same_rest st st' \<longleftrightarrow> (\<exists>vl f n. st' = st\<lparr>vma_list := vl, free_vma_list := f, desc_next_memory := n\<rparr>)"

lemma same_rest_refl [simp]: "same_rest st st"
proof -
  have "st = st\<lparr>vma_list := vma_list st, free_vma_list := free_vma_list st, desc_next_memory := desc_next_memory st\<rparr>" by simp
  then show ?thesis unfolding same_rest_def by blast
qed

lemma same_rest_trans:
  assumes "same_rest st st'" "same_rest st' st''"
  shows "same_rest st st''"
proof -
  obtain vl f n where "st'' = st'\<lparr>vma_list := vl, free_vma_list := f, desc_next_memory := n\<rparr>" using assms(2) by (auto simp: same_rest_def)
  then have "st'' = st\<lparr>vma_list := vl, free_vma_list := f, desc_next_memory := n\<rparr>" using assms(1) by (auto simp: same_rest_def)
  then show ?thesis unfolding same_rest_def by blast
qed

lemma same_rest_release [simp]: "same_rest st (release_desc st')  = same_rest st st'"
proof -
  have r: "same_rest st' (release_desc st')" for st' :: "'k mmap_state"
    unfolding same_rest_def release_desc_def
    by (intro exI [of _ "vma_list st'"] exI [of _ "free_vma_list st' + 1"] exI [of _ "desc_next_memory st'"]) simp
  have "same_rest (release_desc st') st'"
    unfolding same_rest_def release_desc_def
    by (intro exI [of _ "vma_list st'"] exI [of _ "free_vma_list st'"] exI [of _ "desc_next_memory st'"]) simp
  with r [of st'] same_rest_trans show ?thesis by blast
qed

lemma get_free_desc_spec:
  assumes "0 < stock st"
  obtains st' where "arm64_get_free_desc st = Some st'" "vma_list st' = vma_list st" "stock st' = stock st - 1" "same_rest st st'"
proof -
  let ?st = "if free_vma_list st = 0 then st\<lparr>free_vma_list := DESC_PER_PAGE - 1, desc_next_memory := 0\<rparr> else st\<lparr>free_vma_list := free_vma_list st - 1\<rparr>"
  have "arm64_get_free_desc st = Some ?st"
    using assms by (auto simp: arm64_get_free_desc_def allocate_more_desc_def stock_def DESC_PER_PAGE_def assert_def split: if_splits)
  moreover have "vma_list ?st = vma_list st" "stock ?st = stock st - 1"
    using assms by (auto simp: stock_def DESC_PER_PAGE_def split: if_splits)
  moreover have "same_rest st ?st"
    unfolding same_rest_def
    by (rule exI [of _ "vma_list st"], rule exI [of _ "free_vma_list ?st"], rule exI [of _ "desc_next_memory ?st"]) simp
  ultimately show thesis using that by blast
qed

lemma stock_release [simp]: "stock (release_desc st) = Suc (stock st)" "vma_list (release_desc st) = vma_list st"
  by (simp_all add: stock_def release_desc_def)

lemma stock_vma [simp]: "stock (st\<lparr>vma_list := vl\<rparr>) = stock st"
  by (simp add: stock_def)

lemma same_rest_vma [simp]: "same_rest st (st'\<lparr>vma_list := vl\<rparr>) = same_rest st st'"
proof -
  have "same_rest st' (st'\<lparr>vma_list := vl\<rparr>)" "same_rest (st'\<lparr>vma_list := vl\<rparr>) st'"
    unfolding same_rest_def
    by (rule exI [of _ vl], rule exI [of _ "free_vma_list st'"], rule exI [of _ "desc_next_memory st'"], simp)
       (rule exI [of _ "vma_list st'"], rule exI [of _ "free_vma_list st'"], rule exI [of _ "desc_next_memory st'"], simp)
  then show ?thesis using same_rest_trans by blast
qed

section \<open>Inserting an area\<close>

lemma two_types: "type \<in> {VMA_MAP, VMA_UNMAP} \<Longrightarrow> k \<in> {VMA_MAP, VMA_UNMAP} \<Longrightarrow> k = other_type type \<longleftrightarrow> k \<noteq> type"
  by (cases type; cases k) auto

lemma insert_single_spec:
  assumes c: "contig lo (vma_list st) hi" and two: "two_kinds (vma_list st)" and ty: "type \<in> {VMA_MAP, VMA_UNMAP}"
    and i: "find_address_owner (vma_list st) start = Some i" "find_address_owner (vma_list st) stop = Some i"
    and ne: "vma_kind (vma_list st ! i) \<noteq> type" and lt: "start < stop" and stk: "2 \<le> stock st"
  shows "\<exists>st'. insert_single start stop type i st = Some st' \<and> contig lo (vma_list st') hi \<and> two_kinds (vma_list st') \<and>
    kind_at (vma_list st') = retyped start stop type (kind_at (vma_list st)) \<and> stock st \<le> stock st' + 2 \<and> same_rest st st'"
proof -
  let ?vl = "vma_list st" and ?f = "vma_list st ! i"
  let ?pre = "take i ?vl" and ?post = "drop (Suc i) ?vl"
  have il: "i < length ?vl" and own: "owns start ?f" "owns stop ?f" using owner_kind [OF i(1)] owner_kind [OF i(2)] by auto
  have vl: "?vl = ?pre @ [?f] @ ?post" using il by (simp add: id_take_nth_drop)
  note C = contig_split [OF c il]
  have ot: "vma_kind ?f = other_type type"
    using two_types [OF ty, of "vma_kind ?f"] two il ne unfolding two_kinds_def by (metis nth_mem)
  have two': "two_kinds ?pre" "two_kinds ?post" "other_type type \<in> {VMA_MAP, VMA_UNMAP}"
    using two ty unfolding two_kinds_def by (auto dest: in_set_takeD in_set_dropD)
  have fin: "\<exists>st'. Some (st1\<lparr>vma_list := ?pre @ xs' @ ?post\<rparr>) = Some st' \<and> contig lo (vma_list st') hi \<and> two_kinds (vma_list st') \<and>
    kind_at (vma_list st') = retyped start stop type (kind_at ?vl) \<and> stock st \<le> stock st' + 2 \<and> same_rest st st'"
    if "contig (start_addr ?f) xs' (end_addr ?f)" "two_kinds xs'" "stock st \<le> stock st1 + 2" "same_rest st st1"
      "\<And>a. start_addr ?f \<le> a \<Longrightarrow> a < end_addr ?f \<Longrightarrow> kind_at xs' a = retyped start stop type (kind_at [?f]) a"
    for xs' and st1 :: "'a mmap_state"
  proof -
    have f: "contig (start_addr ?f) [?f] (end_addr ?f)" using C(2) by simp
    have b: "start_addr ?f \<le> start" "stop \<le> end_addr ?f" using own by (auto simp: owns_def)
    note R = replace_middle [OF C(1) f that(1) C(3) b that(5), folded vl]
    have "kind_at (?pre @ xs' @ ?post) = retyped start stop type (kind_at ?vl)" using R(2) by (intro ext) simp
    then show ?thesis using R(1) that(2-4) two' by simp
  qed
  show ?thesis
  proof (cases "start_addr ?f = start")
    case True
    obtain st1 where st1: "arm64_get_free_desc st = Some st1" "stock st1 = stock st - 1" "same_rest st st1"
      using get_free_desc_spec [of st] stk by auto
    have r: "insert_single start stop type i st = Some (st1\<lparr>vma_list := ?pre @ [\<lparr>vma_kind = type, start_addr = start, end_addr = stop\<rparr>, ?f\<lparr>start_addr := stop\<rparr>] @ ?post\<rparr>)"
      using True st1(1) by (simp add: insert_single_def Let_def)
    show ?thesis unfolding r
    proof (rule fin)
      show "contig (start_addr ?f) [\<lparr>vma_kind = type, start_addr = start, end_addr = stop\<rparr>, ?f\<lparr>start_addr := stop\<rparr>] (end_addr ?f)"
        using True own lt by (auto simp: owns_def)
      show "two_kinds [\<lparr>vma_kind = type, start_addr = start, end_addr = stop\<rparr>, ?f\<lparr>start_addr := stop\<rparr>]" using ty two'(3) ot by simp
      fix a assume "start_addr ?f \<le> a" "a < end_addr ?f"
      then show "kind_at [\<lparr>vma_kind = type, start_addr = start, end_addr = stop\<rparr>, ?f\<lparr>start_addr := stop\<rparr>] a = retyped start stop type (kind_at [?f]) a"
        using True by (auto simp: owns_def retyped_def)
    qed (use st1 stk in auto)
  next
    case False
    obtain st1 where st1: "arm64_get_free_desc st = Some st1" "stock st1 = stock st - 1" "same_rest st st1"
      using get_free_desc_spec [of st] stk by auto
    obtain st2 where st2: "arm64_get_free_desc st1 = Some st2" "stock st2 = stock st1 - 1" "same_rest st1 st2"
      using get_free_desc_spec [of st1] stk st1 by auto
    let ?xs = "[?f\<lparr>end_addr := start\<rparr>, \<lparr>vma_kind = type, start_addr = start, end_addr = stop\<rparr>, \<lparr>vma_kind = other_type type, start_addr = stop, end_addr = end_addr ?f\<rparr>]"
    have r: "insert_single start stop type i st = Some (st2\<lparr>vma_list := ?pre @ ?xs @ ?post\<rparr>)"
      using False st1(1) st2(1) by (simp add: insert_single_def Let_def)
    show ?thesis unfolding r
    proof (rule fin)
      show "contig (start_addr ?f) ?xs (end_addr ?f)" using own lt by (auto simp: owns_def)
      show "two_kinds ?xs" using ty two'(3) ot by simp
      fix a assume "start_addr ?f \<le> a" "a < end_addr ?f"
      then show "kind_at ?xs a = retyped start stop type (kind_at [?f]) a" using ot by (auto simp: owns_def retyped_def)
    qed (use st1 st2 stk same_rest_trans in auto)
  qed
qed

lemma span_areas_swallows:
  "contig (end_addr m) ds e \<Longrightarrow>
   \<exists>st'. span_areas start type kept (Some m) ds st = Some (kept, Some (m\<lparr>end_addr := e\<rparr>), st') \<and>
     vma_list st' = vma_list st \<and> stock st \<le> stock st' \<and> same_rest st st'"
proof (induction ds arbitrary: m st)
  case Nil
  then show ?case by simp
next
  case (Cons d ds)
  have "contig (end_addr (m\<lparr>end_addr := end_addr d\<rparr>)) ds e" using Cons.prems by simp
  from Cons.IH [OF this, of "release_desc st"] obtain st' where
    "span_areas start type kept (Some (m\<lparr>end_addr := end_addr d\<rparr>)) ds (release_desc st) = Some (kept, Some (m\<lparr>end_addr := e\<rparr>), st')"
    "vma_list st' = vma_list st" "Suc (stock st) \<le> stock st'" "same_rest (release_desc st) st'" by auto
  moreover have "same_rest st (release_desc st)" by simp
  ultimately show ?case using same_rest_trans by fastforce
qed

lemma span_areas_spec:
  assumes c: "contig s (d # ds) e" and two: "two_kinds (d # ds)" and ty: "type \<in> {VMA_MAP, VMA_UNMAP}"
    and own: "owns start d" and stk: "1 \<le> stock st"
  shows "\<exists>kept m st'. span_areas start type [] None (d # ds) st = Some (kept, Some m, st') \<and>
    contig s kept (start_addr m) \<and> end_addr m = e \<and> start_addr m \<le> start \<and> vma_kind m = type \<and> two_kinds kept \<and>
    (\<forall>a. s \<le> a \<longrightarrow> a < start \<longrightarrow> kind_at (kept @ [m]) a = kind_at (d # ds) a) \<and>
    vma_list st' = vma_list st \<and> stock st \<le> stock st' + 1 \<and> same_rest st st'"
proof (cases "vma_kind d = type")
  case True
  have cd: "contig (end_addr d) ds e" using c by simp
  from span_areas_swallows [OF cd] obtain st' where
    "span_areas start type [] (Some d) ds st = Some ([], Some (d\<lparr>end_addr := e\<rparr>), st')"
    "vma_list st' = vma_list st" "stock st \<le> stock st'" "same_rest st st'" by blast
  moreover have "vma_kind d \<noteq> other_type type" using True ty by auto
  moreover have "end_addr d \<le> e" using contig_le [OF cd] .
  ultimately show ?thesis using c own True by (auto simp: owns_def)
next
  case False
  have ot: "vma_kind d = other_type type" using two_types [OF ty, of "vma_kind d"] two False by simp
  obtain st1 where st1: "arm64_get_free_desc st = Some st1" "vma_list st1 = vma_list st" "stock st1 = stock st - 1" "same_rest st st1"
    using get_free_desc_spec [of st] stk by auto
  let ?m = "\<lparr>vma_kind = type, start_addr = start, end_addr = end_addr d\<rparr>"
  have "contig (end_addr ?m) ds e" using c by simp
  from span_areas_swallows [OF this] obtain st' where
    st': "span_areas start type ([] @ [d\<lparr>end_addr := start\<rparr>]) (Some ?m) ds st1 = Some ([] @ [d\<lparr>end_addr := start\<rparr>], Some (?m\<lparr>end_addr := e\<rparr>), st')"
    "vma_list st' = vma_list st1" "stock st1 \<le> stock st'" "same_rest st1 st'" by blast
  have "span_areas start type [] None (d # ds) st = Some ([d\<lparr>end_addr := start\<rparr>], Some (?m\<lparr>end_addr := e\<rparr>), st')"
    using st'(1) st1(1) ot by simp
  moreover have "same_rest st st'" using st1(4) st'(4) same_rest_trans by blast
  moreover have "two_kinds [d\<lparr>end_addr := start\<rparr>]" using two by simp
  ultimately show ?thesis using c own st1 st'(2,3) by (intro exI conjI) (auto simp: owns_def)
qed

lemma owner_order:
  assumes c: "contig lo ds hi" and i: "find_address_owner ds a = Some i" and k: "find_address_owner ds b = Some k" and "a < b"
  shows "i \<le> k"
proof (rule ccontr)
  assume "\<not> i \<le> k"
  have K: "k < length ds" "owns b (ds ! k)" and I: "i < length ds" "owns a (ds ! i)" using owner_kind [OF i] owner_kind [OF k] by auto
  have "drop (Suc k) ds ! (i - Suc k) = ds ! i" "i - Suc k < length (drop (Suc k) ds)" using \<open>\<not> i \<le> k\<close> I(1) by auto
  then have "ds ! i \<in> set (drop (Suc k) ds)" by (metis nth_mem)
  moreover have "contig lo' xs hi \<Longrightarrow> x \<in> set xs \<Longrightarrow> lo' \<le> start_addr x" for lo' xs x
    by (induction xs arbitrary: lo') (auto intro: order.trans)
  ultimately have "end_addr (ds ! k) \<le> start_addr (ds ! i)" using contig_split(3) [OF c K(1)] by blast
  then show False using K I \<open>a < b\<close> by (auto simp: owns_def)
qed

lemma insert_span_spec:
  assumes c: "contig lo (vma_list st) hi" and two: "two_kinds (vma_list st)" and ty: "type \<in> {VMA_MAP, VMA_UNMAP}"
    and i: "find_address_owner (vma_list st) start = Some i" and k: "find_address_owner (vma_list st) stop = Some k"
    and ik: "i < k" and lt: "start < stop" and stk: "1 \<le> stock st"
  shows "\<exists>st'. insert_span start stop type i k st = Some st' \<and> contig lo (vma_list st') hi \<and> two_kinds (vma_list st') \<and>
    kind_at (vma_list st') = retyped start stop type (kind_at (vma_list st)) \<and> stock st \<le> stock st' + 1 \<and> same_rest st st'"
proof -
  let ?vl = "vma_list st" and ?f = "vma_list st ! i" and ?l = "vma_list st ! k"
  let ?pre = "take i ?vl" and ?post = "drop (Suc k) ?vl" and ?ds = "take (k - Suc i) (drop (Suc i) ?vl)"
  have il: "i < length ?vl" "owns start ?f" and kl: "k < length ?vl" "owns stop ?l" using owner_kind [OF i] owner_kind [OF k] by auto
  have xs: "take (k - i) (drop i ?vl) = ?f # ?ds" using il(1) ik
    by (metis Cons_nth_drop_Suc Suc_diff_Suc take_Suc_Cons)
  have vl: "?vl = ?pre @ ((?f # ?ds) @ [?l]) @ ?post"
    using kl(1) ik unfolding xs [symmetric]
    by (metis append_assoc append_Cons append_Nil append_take_drop_id Cons_nth_drop_Suc drop_drop le_add_diff_inverse2 less_imp_le)
  have "contig lo (?pre @ ((?f # ?ds) @ [?l]) @ ?post) hi" using c vl by simp
  then have C: "contig lo ?pre (start_addr ?f)" "contig (start_addr ?f) (?f # ?ds) (start_addr ?l)" "start_addr ?l \<le> end_addr ?l"
     "contig (end_addr ?l) ?post hi" by (auto simp: contig_append)
  have "two_kinds (?pre @ ((?f # ?ds) @ [?l]) @ ?post)" using two vl by simp
  then have T: "two_kinds ?pre" "two_kinds (?f # ?ds)" "vma_kind ?l \<in> {VMA_MAP, VMA_UNMAP}" "two_kinds ?post" by auto
  from span_areas_spec [OF C(2) T(2) ty il(2) stk] obtain kept m st1 where
    sp: "span_areas start type [] None (?f # ?ds) st = Some (kept, Some m, st1)"
    and km: "contig (start_addr ?f) kept (start_addr m)" "end_addr m = start_addr ?l" "start_addr m \<le> start" "vma_kind m = type" "two_kinds kept"
    and kk: "\<And>a. start_addr ?f \<le> a \<Longrightarrow> a < start \<Longrightarrow> kind_at (kept @ [m]) a = kind_at (?f # ?ds) a"
    and st1: "vma_list st1 = vma_list st" "stock st \<le> stock st1 + 1" "same_rest st st1" by blast
  have sf: "start < start_addr ?l" "start_addr ?f \<le> start" using il(2) C(2) contig_le [of "end_addr ?f" ?ds "start_addr ?l"] by (auto simp: owns_def)
  have fin: "\<exists>st'. Some st2 = Some st' \<and> contig lo (vma_list st') hi \<and> two_kinds (vma_list st') \<and>
    kind_at (vma_list st') = retyped start stop type (kind_at ?vl) \<and> stock st \<le> stock st' + 1 \<and> same_rest st st'"
    if v: "vma_list st2 = ?pre @ (kept @ ys) @ ?post" and ys: "contig (start_addr m) ys (end_addr ?l)" "two_kinds ys"
      and st2: "stock st1 \<le> stock st2" "same_rest st st2"
      and ky: "\<And>a. start_addr m \<le> a \<Longrightarrow> a < end_addr ?l \<Longrightarrow> kind_at ys a = (if a < stop then Some type else Some (vma_kind ?l))"
    for st2 :: "'a mmap_state" and ys
  proof -
    have l: "contig (start_addr ?l) [?l] (end_addr ?l)" and m: "contig (start_addr m) [m] (start_addr ?l)"
      using C(3) km(2,3) sf by auto
    have cx: "contig (start_addr ?f) ((?f # ?ds) @ [?l]) (end_addr ?l)" using C(2,3) by (auto simp: contig_append)
    have cy: "contig (start_addr ?f) (kept @ ys) (end_addr ?l)" using km(1) ys(1) by (auto simp: contig_append)
    have "kind_at (kept @ ys) a = retyped start stop type (kind_at ((?f # ?ds) @ [?l])) a" if "start_addr ?f \<le> a" "a < end_addr ?l" for a
    proof (cases "a < start")
      case True
      then have "kind_at (kept @ ys) a = kind_at (kept @ [m]) a"
        using ky [of a] sf that lt km(2,4) unfolding kind_at_append [OF km(1) ys(1)] kind_at_append [OF km(1) m] by (auto simp: owns_def)
      then show ?thesis using kk [OF that(1) True] True sf(1) unfolding retyped_def kind_at_append [OF C(2) l] by auto
    next
      case False
      then have "kind_at (kept @ ys) a = (if a < stop then Some type else Some (vma_kind ?l))"
        using ky [of a] that km(3) unfolding kind_at_append [OF km(1) ys(1)] by auto
      then show ?thesis using False that kl(2) unfolding retyped_def kind_at_append [OF C(2) l] by (auto simp: owns_def)
    qed
    note R = replace_middle [OF C(1) cx cy C(4) sf(2) _ this, folded vl]
    have "stop \<le> end_addr ?l" using kl(2) by (auto simp: owns_def)
    note R = R [OF this]
    have "kind_at (?pre @ (kept @ ys) @ ?post) = retyped start stop type (kind_at ?vl)" using R(2) by (intro ext) simp
    moreover have "two_kinds (?pre @ (kept @ ys) @ ?post)" using T ys(2) km(5) by simp
    ultimately show ?thesis using R(1) st1(2) st2 v by simp
  qed
  have r: "insert_span start stop type i k st = (if vma_kind ?l = other_type type
     then Some (st1\<lparr>vma_list := ?pre @ kept @ [m\<lparr>end_addr := stop\<rparr>, ?l\<lparr>start_addr := stop\<rparr>] @ ?post\<rparr>)
     else Some (release_desc (st1\<lparr>vma_list := ?pre @ kept @ [m\<lparr>end_addr := end_addr ?l\<rparr>] @ ?post\<rparr>)))"
  proof -
    have "start_addr ?l = stop \<Longrightarrow> m\<lparr>end_addr := stop\<rparr> = m" "start_addr ?l = stop \<Longrightarrow> ?l\<lparr>start_addr := stop\<rparr> = ?l" using km(2) by auto
    then show ?thesis using sp ik xs by (simp add: insert_span_def assert_def Let_def)
  qed
  show ?thesis
  proof (cases "vma_kind ?l = other_type type")
    case True
    show ?thesis unfolding r if_P [OF True]
      by (rule fin [where ys = "[m\<lparr>end_addr := stop\<rparr>, ?l\<lparr>start_addr := stop\<rparr>]"])
         (use km(3,4) lt kl(2) st1 T(3) ty in \<open>auto simp: owns_def\<close>)
  next
    case False
    then have "vma_kind ?l = type" using two_types [OF ty T(3)] by simp
    then show ?thesis unfolding r if_not_P [OF False]
      by (intro fin [where ys = "[m\<lparr>end_addr := end_addr ?l\<rparr>]"])
         (use km(3,4) lt kl(2) st1 T(3) ty in \<open>auto simp: owns_def\<close>)
  qed
qed

lemma merge_prev_spec:
  assumes c: "contig lo (vma_list st) hi" and two: "two_kinds (vma_list st)"
    and kd: "kind_at (vma_list st) start = Some type"
  shows "\<exists>st'. merge_prev start type st = Some st' \<and> contig lo (vma_list st') hi \<and> two_kinds (vma_list st') \<and>
    kind_at (vma_list st') = kind_at (vma_list st) \<and> stock st \<le> stock st' \<and> same_rest st st'"
proof -
  let ?vl = "vma_list st"
  obtain i where i: "find_address_owner ?vl start = Some i" using owner_None [of ?vl start] kd by fastforce
  note O = owner_kind [OF i]
  show ?thesis
  proof (cases "0 < i \<and> vma_kind (?vl ! (i - 1)) = type")
    case False
    then show ?thesis using i assms by (auto simp: merge_prev_def Let_def)
  next
    case True
    let ?p = "?vl ! (i - 1)" and ?f = "?vl ! i" and ?pre = "take (i - 1) ?vl" and ?post = "drop (Suc i) ?vl"
    have "?vl = ?pre @ ?p # ?f # ?post" using True O
      by (metis Cons_nth_drop_Suc One_nat_def Suc_pred append_take_drop_id less_imp_diff_less)
    then have vl: "?vl = ?pre @ [?p, ?f] @ ?post" by simp
    have "contig lo (?pre @ [?p, ?f] @ ?post) hi" "two_kinds (?pre @ [?p, ?f] @ ?post)" using c two vl by simp_all
    then have C: "contig lo ?pre (start_addr ?p)" "contig (start_addr ?p) [?p, ?f] (end_addr ?f)" "contig (end_addr ?f) ?post hi"
      and T: "two_kinds ?pre" "two_kinds [?p]" "two_kinds ?post" by (auto simp: contig_append)
    let ?xs = "[?p\<lparr>end_addr := end_addr ?f\<rparr>]"
    have cx: "contig (start_addr ?p) ?xs (end_addr ?f)" using C(2) by auto
    have kx: "kind_at ?xs a = retyped (start_addr ?p) (start_addr ?p) type (kind_at [?p, ?f]) a" if "start_addr ?p \<le> a" "a < end_addr ?f" for a
      using that C(2) True O kd by (auto simp: owns_def retyped_def)
    have e: "start_addr ?p \<le> start_addr ?p" "start_addr ?p \<le> end_addr ?f" using C(2) by auto
    note R = replace_middle [OF C(1) C(2) cx C(3) e kx, folded vl]
    have "kind_at (?pre @ ?xs @ ?post) = kind_at ?vl" using R(2) by (intro ext) (auto simp: retyped_def)
    moreover have "merge_prev start type st = Some (release_desc (st\<lparr>vma_list := ?pre @ ?xs @ ?post\<rparr>))"
      using i True by (simp add: merge_prev_def Let_def)
    ultimately show ?thesis using R(1) T by simp
  qed
qed

lemma insert_area_spec:
  assumes c: "contig lo (vma_list st) hi" and two: "two_kinds (vma_list st)" and ty: "type \<in> {VMA_MAP, VMA_UNMAP}"
    and b: "lo \<le> start" "start < stop" "stop < hi" and stk: "2 \<le> stock st"
  shows "\<exists>st'. insert_area start stop type st = Some st' \<and> contig lo (vma_list st') hi \<and> two_kinds (vma_list st') \<and>
    kind_at (vma_list st') = retyped start stop type (kind_at (vma_list st)) \<and> stock st \<le> stock st' + 2 \<and> same_rest st st'"
proof -
  let ?vl = "vma_list st"
  obtain i where i: "find_address_owner ?vl start = Some i" using owner_exists [OF c b(1)] b by (meson less_trans)
  obtain k where k: "find_address_owner ?vl stop = Some k" using owner_exists [OF c, of stop] b by (meson less_imp_le order.trans)
  show ?thesis
  proof (cases "i = k \<and> vma_kind (?vl ! i) = type")
    case True
    have "kind_at ?vl a = Some type" if "start \<le> a" "a < stop" for a
      using True that owner_kind [OF i] owner_kind [OF k] by (intro kind_at_nth [OF c, of i a, THEN trans]) (auto simp: owns_def)
    then have "retyped start stop type (kind_at ?vl) = kind_at ?vl" by (intro ext) (simp add: retyped_def)
    then show ?thesis using i k True c two by (auto simp: insert_area_def)
  next
    case False
    let ?ins = "if i = k then insert_single start stop type i st else insert_span start stop type i k st"
    obtain st1 where st1: "?ins = Some st1" "contig lo (vma_list st1) hi" "two_kinds (vma_list st1)"
      "kind_at (vma_list st1) = retyped start stop type (kind_at ?vl)" "stock st \<le> stock st1 + 2" "same_rest st st1"
    proof (cases "i = k")
      case True
      with insert_single_spec [OF c two ty i] k False b stk that show thesis by auto
    next
      case ne: False
      then have "i < k" using owner_order [OF c i k b(2)] by simp
      from insert_span_spec [OF c two ty i k this b(2)] stk that ne show thesis by fastforce
    qed
    have "kind_at (vma_list st1) start = Some type" using st1(4) b(2) by (simp add: retyped_def)
    from merge_prev_spec [OF st1(2,3) this] obtain st2 where "merge_prev start type st1 = Some st2" "contig lo (vma_list st2) hi"
      "two_kinds (vma_list st2)" "kind_at (vma_list st2) = kind_at (vma_list st1)" "stock st1 \<le> stock st2" "same_rest st1 st2" by blast
    moreover have "insert_area start stop type st = Option.bind ?ins (merge_prev start type)"
      using i k False by (auto simp: insert_area_def)
    ultimately show ?thesis using st1 same_rest_trans [OF st1(6)] by (intro exI [of _ st2]) simp
  qed
qed

end
