(* ===== verification/Guest_Search.thy ===== *)
theory Guest_Search
  imports Guest_Areas
begin

text \<open>
  Page arithmetic, the invariant of the list of areas, and the search for room: a search returns the start
  of a range that was unmapped and that is mapped afterwards, or says that no area is large enough.
\<close>

section \<open>Page alignment\<close>

definition page_aligned :: "u64 \<Rightarrow> bool" where
  "page_aligned a \<longleftrightarrow> PAGE_ALIGN_DOWN a = a"

lemma and_not_mask_minus: "x AND NOT (mask n) = x - take_bit n (x :: 'a::len word)"
proof -
  have "(x AND NOT (mask n)) + (x AND mask n) = x"
    by (subst disjunctive_add) (auto simp: bit_simps bit_eq_iff)
  then show ?thesis by (simp add: take_bit_eq_mask eq_diff_eq)
qed

lemma unat_and_not_mask: "unat (x AND NOT (mask n)) = unat (x :: 'a::len word) - unat x mod 2 ^ n"
proof -
  have t: "unat (take_bit n x) = unat x mod 2 ^ n" unfolding unsigned_take_bit_eq by (rule take_bit_eq_mod)
  then have "take_bit n x \<le> x" by (simp add: word_le_nat_alt)
  then show ?thesis unfolding and_not_mask_minus by (simp add: unat_sub t)
qed

lemma page_mask: "(4095 :: u64) = mask 12" "(65535 :: u64) = mask 16"
  by (simp_all add: mask_eq_exp_minus_1)

lemma ALIGN_DOWN_minus: "PAGE_ALIGN_DOWN x = x - take_bit 12 x" "PAGE_ALIGN_UP x = (x + 4095) - take_bit 12 (x + 4095)"
  by (simp_all add: PAGE_ALIGN_DOWN_def PAGE_ALIGN_UP_def page_mask(1) and_not_mask_minus)

lemma page_aligned_take_bit: "page_aligned a \<longleftrightarrow> take_bit 12 a = 0"
  by (auto simp: page_aligned_def ALIGN_DOWN_minus)

lemma page_aligned_mask: "12 \<le> n \<Longrightarrow> page_aligned (x AND NOT (mask n))"
  unfolding page_aligned_take_bit by (rule bit_eqI) (simp add: bit_simps)

lemma page_aligned_UP [simp]: "page_aligned (PAGE_ALIGN_UP x)"
  by (simp add: PAGE_ALIGN_UP_def page_mask(1) page_aligned_mask)

lemma page_aligned_DOWN [simp]: "page_aligned (PAGE_ALIGN_DOWN x)"
  by (simp add: PAGE_ALIGN_DOWN_def page_mask(1) page_aligned_mask)

lemma take_bit_sum: "take_bit n (a + b :: u64) = take_bit n (take_bit n a + take_bit n b)"
proof -
  have "take_bit (LENGTH(64)) (take_bit n (k + l)) = take_bit (LENGTH(64)) (take_bit n (take_bit n k + take_bit n l))" for k l :: int
    by (simp only: take_bit_add)
  then show ?thesis by transfer (simp add: min_def take_bit_add)
qed

lemma page_aligned_add: "page_aligned a \<Longrightarrow> page_aligned b \<Longrightarrow> page_aligned (a + b)"
  unfolding page_aligned_take_bit by (subst take_bit_sum) simp

lemma ALIGN_UP_add: "page_aligned a \<Longrightarrow> PAGE_ALIGN_UP (a + l) = a + PAGE_ALIGN_UP l"
proof -
  assume a: "page_aligned a"
  have "take_bit 12 (a + (l + 4095)) = take_bit 12 (l + 4095)"
    using a unfolding page_aligned_take_bit by (subst take_bit_sum) simp
  then show ?thesis by (simp add: ALIGN_DOWN_minus algebra_simps)
qed

lemma ALIGN_UP_aligned: "page_aligned a \<Longrightarrow> PAGE_ALIGN_UP a = a"
  using ALIGN_UP_add [of a 0] by (simp add: PAGE_ALIGN_UP_def)

lemma ALIGN_UP_pos:
  assumes "0 < l" "l \<le> - 4096"
  shows "0 < PAGE_ALIGN_UP l" "l \<le> PAGE_ALIGN_UP l"
proof -
  have n: "0 < unat l" "unat l \<le> 2 ^ 64 - 4096" using assms by (simp_all add: word_less_nat_alt word_le_nat_alt)
  have "unat (l + 4095) = unat l + 4095" using n by (subst unat_add_lem [THEN iffD1]) auto
  then have "unat (PAGE_ALIGN_UP l) = (unat l + 4095) - (unat l + 4095) mod 4096"
    unfolding PAGE_ALIGN_UP_def page_mask(1) unat_and_not_mask by simp
  moreover have "(unat l + 4095) mod 4096 < 4096" by simp
  ultimately have "unat l \<le> unat (PAGE_ALIGN_UP l)" by linarith
  then show "l \<le> PAGE_ALIGN_UP l" "0 < PAGE_ALIGN_UP l" using n by (simp_all add: word_less_nat_alt word_le_nat_alt)
qed

lemma ALIGN_UP_le:
  assumes "l \<le> MAPPING_RESERVE_IN_SIGNAL_START"
  shows "PAGE_ALIGN_UP l \<le> MAPPING_RESERVE_IN_SIGNAL_START"
proof -
  have n: "unat l \<le> 0x7000000000" using assms by (simp add: word_le_nat_alt MAPPING_RESERVE_IN_SIGNAL_START_def)
  then have "unat (l + 4095) = unat l + 4095" by (subst unat_add_lem [THEN iffD1]) auto
  then have "unat (PAGE_ALIGN_UP l) = (unat l + 4095) div 4096 * 4096"
    unfolding PAGE_ALIGN_UP_def page_mask(1) unat_and_not_mask by (simp add: minus_mod_eq_div_mult)
  moreover have "(unat l + 4095) div 4096 \<le> (0x7000000000 + 4095) div 4096" using n by (intro div_le_mono) simp
  ultimately show ?thesis by (simp add: word_le_nat_alt MAPPING_RESERVE_IN_SIGNAL_START_def)
qed

lemma room_fits:
  fixes s e len :: u64
  assumes "s \<le> e" "0 < len" "len \<le> e - s"
  shows "s < s + len" "s + len \<le> e"
proof -
  have n: "unat s \<le> unat e" "0 < unat len" "unat len \<le> unat e - unat s"
    using assms by (simp_all add: word_less_nat_alt word_le_nat_alt unat_sub)
  moreover have "unat e < 2 ^ 64" using unsigned_less [of e] by simp
  ultimately have "unat (s + len) = unat s + unat len" by (subst unat_add_lem [THEN iffD1]) auto
  then show "s < s + len" "s + len \<le> e" using n by (simp_all add: word_less_nat_alt word_le_nat_alt)
qed

lemma cursor_bound:
  assumes "y \<le> MAPPING_RESERVE_IN_SIGNAL_START" "MAPPING_START \<le> y"
  shows "(y + FORCE_ALIGNMENT - 1) AND NOT (FORCE_ALIGNMENT - 1) \<le> MAPPING_RESERVE_IN_SIGNAL_START"
    "MAPPING_START \<le> (y + FORCE_ALIGNMENT - 1) AND NOT (FORCE_ALIGNMENT - 1)"
    "page_aligned ((y + FORCE_ALIGNMENT - 1) AND NOT (FORCE_ALIGNMENT - 1))"
proof -
  have f: "FORCE_ALIGNMENT - 1 = mask 16" "y + FORCE_ALIGNMENT - 1 = y + 65535" by (simp_all add: FORCE_ALIGNMENT_def mask_eq_exp_minus_1)
  have n: "unat y \<le> 0x7000000000" "0x400000 \<le> unat y"
    using assms by (simp_all add: word_le_nat_alt MAPPING_RESERVE_IN_SIGNAL_START_def MAPPING_START_def)
  have "unat (y + 65535) = unat y + 65535" using n by (subst unat_add_lem [THEN iffD1]) auto
  then have u: "unat ((y + FORCE_ALIGNMENT - 1) AND NOT (FORCE_ALIGNMENT - 1)) = (unat y + 65535) - (unat y + 65535) mod 65536"
    unfolding f unat_and_not_mask by simp
  have "(unat y + 65535) - (unat y + 65535) mod 65536 \<le> 0x7000000000"
  proof -
    have "(unat y + 65535) div 65536 \<le> (0x7000000000 + 65535) div 65536" using n(1) by (intro div_le_mono) simp
    then show ?thesis unfolding minus_mod_eq_div_mult by simp
  qed
  then show "(y + FORCE_ALIGNMENT - 1) AND NOT (FORCE_ALIGNMENT - 1) \<le> MAPPING_RESERVE_IN_SIGNAL_START"
    using u by (simp add: word_le_nat_alt MAPPING_RESERVE_IN_SIGNAL_START_def)
  have "0x400000 \<le> (unat y + 65535) - (unat y + 65535) mod 65536"
    using n(2) mod_less_divisor [of 65536 "unat y + 65535"] by linarith
  then show "MAPPING_START \<le> (y + FORCE_ALIGNMENT - 1) AND NOT (FORCE_ALIGNMENT - 1)"
    using u by (simp add: word_le_nat_alt MAPPING_START_def)
  show "page_aligned ((y + FORCE_ALIGNMENT - 1) AND NOT (FORCE_ALIGNMENT - 1))" unfolding f by (rule page_aligned_mask) simp
qed

section \<open>Boundaries\<close>

definition bounds_all :: "(u64 \<Rightarrow> bool) \<Rightarrow> vma_desc list \<Rightarrow> bool" where
  "bounds_all P ds \<longleftrightarrow> (\<forall>d \<in> set ds. P (start_addr d) \<and> P (end_addr d))"

lemma bounds_all_simps [simp]:
  "bounds_all P []" "bounds_all P (d # ds) = (P (start_addr d) \<and> P (end_addr d) \<and> bounds_all P ds)"
  "bounds_all P (xs @ ys) = (bounds_all P xs \<and> bounds_all P ys)"
  by (auto simp: bounds_all_def)

lemma bounds_all_part:
  "bounds_all P ds \<Longrightarrow> bounds_all P (take n ds)" "bounds_all P ds \<Longrightarrow> bounds_all P (drop n ds)"
  "bounds_all P ds \<Longrightarrow> n < length ds \<Longrightarrow> P (start_addr (ds ! n)) \<and> P (end_addr (ds ! n))"
  by (auto simp: bounds_all_def dest: in_set_takeD in_set_dropD)

lemma span_areas_bounds:
  "span_areas start type kept cm ds st = Some (kept', cm', st') \<Longrightarrow> bounds_all P ds \<Longrightarrow> P start \<Longrightarrow>
   bounds_all P kept \<Longrightarrow> bounds_all P (case cm of None \<Rightarrow> [] | Some m \<Rightarrow> [m]) \<Longrightarrow>
   bounds_all P kept' \<and> bounds_all P (case cm' of None \<Rightarrow> [] | Some m \<Rightarrow> [m])"
  by (induction start type kept cm ds st rule: span_areas.induct) (auto split: if_splits bind_splits)

lemma insert_area_bounds:
  assumes r: "insert_area start stop type st = Some st'" and P: "P start" "P stop" "bounds_all P (vma_list st)"
  shows "bounds_all P (vma_list st')"
proof -
  obtain i k where ik: "find_address_owner (vma_list st) start = Some i" "find_address_owner (vma_list st) stop = Some k"
    using r by (auto simp: insert_area_def split: bind_splits)
  have len: "i < length (vma_list st)" "k < length (vma_list st)" using owner_kind ik by blast+
  note B = bounds_all_part [OF P(3)]
  have free: "arm64_get_free_desc s = Some s' \<Longrightarrow> vma_list s' = vma_list s" for s s' :: "'a mmap_state"
    by (auto simp: arm64_get_free_desc_def allocate_more_desc_def assert_def split: if_splits bind_splits)
  have one: "bounds_all P (vma_list s)" if "insert_single start stop type i st = Some s" for s
    using that P B(1,2) B(3) [OF len(1)] by (auto simp: insert_single_def Let_def split: if_splits bind_splits)
  have many: "bounds_all P (vma_list s)" if sn: "insert_span start stop type i k st = Some s" for s
  proof -
    obtain kept m st1 where sp: "span_areas start type [] None (take (k - i) (drop i (vma_list st))) st = Some (kept, Some m, st1)"
      using sn by (auto simp: insert_span_def Let_def split: bind_splits)
    have "bounds_all P kept \<and> P (start_addr m) \<and> P (end_addr m)"
      using span_areas_bounds [OF sp, of P] P(1) bounds_all_part(1) [OF B(2)] by auto
    then show ?thesis using sn sp P B(1,2) B(3) [OF len(2)]
      by (auto simp: insert_span_def Let_def release_desc_def split: if_splits bind_splits)
  qed
  have prev: "bounds_all P (vma_list s')" if mp: "merge_prev start type s = Some s'" and bs: "bounds_all P (vma_list s)" for s s' :: "'a mmap_state"
  proof -
    obtain j where j: "find_address_owner (vma_list s) start = Some j" using mp by (auto simp: merge_prev_def Let_def split: bind_splits)
    note Bs = bounds_all_part [OF bs]
    have "j < length (vma_list s)" using owner_kind [OF j] by simp
    then show ?thesis using mp bs j Bs(1,2) Bs(3) [of j] Bs(3) [of "j - 1"]
      by (auto simp: merge_prev_def Let_def release_desc_def split: if_splits)
  qed
  show ?thesis using r ik one many prev P(3) by (auto simp: insert_area_def split: if_splits bind_splits)
qed

section \<open>The invariant of the map\<close>

definition areas_ok :: "vma_desc list \<Rightarrow> bool" where
  "areas_ok ds \<longleftrightarrow> contig MAPPING_START ds (MAPPING_RESERVE_IN_SIGNAL_START + 4096) \<and> two_kinds ds \<and> bounds_all page_aligned ds \<and>
     (\<forall>a. MAPPING_RESERVE_IN_SIGNAL_START \<le> a \<longrightarrow> a < MAPPING_RESERVE_IN_SIGNAL_START + 4096 \<longrightarrow> kind_at ds a = Some VMA_MAP)"

lemma below_guard: "x \<le> MAPPING_RESERVE_IN_SIGNAL_START \<Longrightarrow> x < MAPPING_RESERVE_IN_SIGNAL_START + 4096"
proof -
  have "MAPPING_RESERVE_IN_SIGNAL_START < MAPPING_RESERVE_IN_SIGNAL_START + 4096" by (simp add: MAPPING_RESERVE_IN_SIGNAL_START_def)
  then show "x \<le> MAPPING_RESERVE_IN_SIGNAL_START \<Longrightarrow> x < MAPPING_RESERVE_IN_SIGNAL_START + 4096" by (rule le_less_trans [rotated])
qed

lemma insert_area_ok:
  assumes ok: "areas_ok (vma_list st)" and ty: "type \<in> {VMA_MAP, VMA_UNMAP}" and b: "MAPPING_START \<le> start" "start < stop"
    "stop \<le> MAPPING_RESERVE_IN_SIGNAL_START" "page_aligned start" "page_aligned stop" and stk: "2 \<le> stock st"
  obtains st' where "insert_area start stop type st = Some st'" "areas_ok (vma_list st')"
    "kind_at (vma_list st') = retyped start stop type (kind_at (vma_list st))" "stock st \<le> stock st' + 2" "same_rest st st'"
proof -
  have c: "contig MAPPING_START (vma_list st) (MAPPING_RESERVE_IN_SIGNAL_START + 4096)" "two_kinds (vma_list st)" "bounds_all page_aligned (vma_list st)"
    using ok by (auto simp: areas_ok_def)
  have s: "stop < MAPPING_RESERVE_IN_SIGNAL_START + 4096" by (rule below_guard [OF b(3)])
  from insert_area_spec [OF c(1,2) ty b(1,2) s stk] obtain st' where st': "insert_area start stop type st = Some st'"
    "contig MAPPING_START (vma_list st') (MAPPING_RESERVE_IN_SIGNAL_START + 4096)" "two_kinds (vma_list st')"
    "kind_at (vma_list st') = retyped start stop type (kind_at (vma_list st))" "stock st \<le> stock st' + 2" "same_rest st st'" by blast
  moreover have "bounds_all page_aligned (vma_list st')" using insert_area_bounds [OF st'(1), of page_aligned] b(4,5) c(3) .
  moreover have "kind_at (vma_list st') a = Some VMA_MAP"
    if "MAPPING_RESERVE_IN_SIGNAL_START \<le> a" "a < MAPPING_RESERVE_IN_SIGNAL_START + 4096" for a
    using that ok b(3) unfolding st'(4) retyped_def areas_ok_def by auto
  ultimately have "areas_ok (vma_list st')" by (simp add: areas_ok_def)
  then show thesis using st' that by blast
qed

lemma areas_ok_unmapped:
  assumes ok: "areas_ok ds" and d: "d \<in> set ds" "vma_kind d = VMA_UNMAP"
  shows "MAPPING_START \<le> start_addr d" "start_addr d \<le> end_addr d" "start_addr d < end_addr d \<Longrightarrow> end_addr d \<le> MAPPING_RESERVE_IN_SIGNAL_START"
    "page_aligned (start_addr d)" "page_aligned (end_addr d)" "owns x d \<Longrightarrow> kind_at ds x = Some VMA_UNMAP"
proof -
  obtain i where i: "i < length ds" "d = ds ! i" using d(1) by (metis in_set_conv_nth)
  have c: "contig MAPPING_START ds (MAPPING_RESERVE_IN_SIGNAL_START + 4096)" using ok by (simp add: areas_ok_def)
  note C = contig_split [OF c i(1), folded i(2)]
  show "MAPPING_START \<le> start_addr d" "start_addr d \<le> end_addr d" using contig_le [OF C(1)] C(2) .
  show k: "owns x d \<Longrightarrow> kind_at ds x = Some VMA_UNMAP" for x using kind_at_nth [OF c i(1)] d(2) i(2) by simp
  show "page_aligned (start_addr d)" "page_aligned (end_addr d)" using ok d(1) by (auto simp: areas_ok_def bounds_all_def)
  assume ne: "start_addr d < end_addr d"
  show "end_addr d \<le> MAPPING_RESERVE_IN_SIGNAL_START"
  proof (rule ccontr)
    assume "\<not> ?thesis"
    then have "owns (max (start_addr d) MAPPING_RESERVE_IN_SIGNAL_START) d" using ne by (auto simp: owns_def)
    moreover have "max (start_addr d) MAPPING_RESERVE_IN_SIGNAL_START < MAPPING_RESERVE_IN_SIGNAL_START + 4096"
      using ne contig_le [OF C(3)] by (auto simp: max_def MAPPING_RESERVE_IN_SIGNAL_START_def)
    ultimately have "kind_at ds (max (start_addr d) MAPPING_RESERVE_IN_SIGNAL_START) = Some VMA_MAP" using ok by (auto simp: areas_ok_def)
    with k \<open>owns (max (start_addr d) MAPPING_RESERVE_IN_SIGNAL_START) d\<close> show False by simp
  qed
qed

lemma find_SomeD: "find P xs = Some x \<Longrightarrow> x \<in> set xs \<and> P x"
  by (induction xs) (auto split: if_splits)

definition kept :: "'k mmap_state \<Rightarrow> 'k mmap_state \<Rightarrow> bool" where
  "kept st st' \<longleftrightarrow> is_init st' = is_init st \<and> signal_cursor st' = signal_cursor st \<and> ongoing_vma_list st' = ongoing_vma_list st \<and>
     free_shmat_list st' = free_shmat_list st \<and> shmat_list st' = shmat_list st \<and> all_caches st' = all_caches st \<and> kernel st' = kernel st"

lemma same_rest_kept: "same_rest st st' \<Longrightarrow> kept st st'"
  "same_rest st st' \<Longrightarrow> kernel_cursor st' = kernel_cursor st" "same_rest st st' \<Longrightarrow> is_end_of_vm_reach st' = is_end_of_vm_reach st"
  by (auto simp: same_rest_def kept_def)

lemma kept_trans: "kept st st' \<Longrightarrow> kept st' st'' \<Longrightarrow> kept st st''"
  by (simp add: kept_def)

text \<open>The outcome of a search that found room for \<open>len\<close> bytes at \<open>a\<close>.\<close>

definition unmapped :: "'k mmap_state \<Rightarrow> u64 \<Rightarrow> u64 \<Rightarrow> bool" where
  "unmapped st start stop \<longleftrightarrow> (\<forall>x. start \<le> x \<longrightarrow> x < stop \<longrightarrow> kind_at (vma_list st) x = Some VMA_UNMAP)"

definition area_placed :: "'k mmap_state \<Rightarrow> u64 \<Rightarrow> u64 \<Rightarrow> 'k mmap_state \<Rightarrow> bool" where
  "area_placed st len a st' \<longleftrightarrow> MAPPING_START \<le> a \<and> a < a + len \<and> a + len \<le> MAPPING_RESERVE_IN_SIGNAL_START \<and> page_aligned a \<and>
     unmapped st a (a + len) \<and> areas_ok (vma_list st') \<and>
     kind_at (vma_list st') = retyped a (a + len) VMA_MAP (kind_at (vma_list st)) \<and> stock st \<le> stock st' + 2 \<and> kept st st'"

definition no_room :: "'k mmap_state \<Rightarrow> u64 \<Rightarrow> bool" where
  "no_room st len \<longleftrightarrow> (\<forall>d \<in> set (vma_list st). vma_kind d = VMA_UNMAP \<longrightarrow> end_addr d - start_addr d < len)"

lemma area_placed_not_ENOMEM: "area_placed st len a st' \<Longrightarrow> a \<noteq> ENOMEM_64"
proof
  assume p: "area_placed st len a st'" and a: "a = ENOMEM_64"
  have "a < MAPPING_RESERVE_IN_SIGNAL_START" using p by (auto simp: area_placed_def)
  then show False by (simp add: a ENOMEM_64_def MAPPING_RESERVE_IN_SIGNAL_START_def)
qed

lemma map_in_area:
  assumes ok: "areas_ok (vma_list st)" and d: "d \<in> set (vma_list st)" "vma_kind d = VMA_UNMAP"
    and a: "start_addr d \<le> a" "a \<le> end_addr d" "page_aligned a" and len: "0 < len" "len \<le> end_addr d - a" "page_aligned len" and stk: "2 \<le> stock st"
  obtains st' where "insert_map_area a (a + len) st = Some st'" "area_placed st len a st'" "same_rest st st'"
proof -
  note D = areas_ok_unmapped [OF ok d]
  note F = room_fits [OF a(2) len(1,2)]
  have ub: "a + len \<le> MAPPING_RESERVE_IN_SIGNAL_START" using D(3) F a(1) by (meson le_less_trans less_le_trans order.trans)
  have lb: "MAPPING_START \<le> a" using D(1) a(1) by simp
  have ty: "VMA_MAP \<in> {VMA_MAP, VMA_UNMAP}" by simp
  obtain st' where st': "insert_area a (a + len) VMA_MAP st = Some st'" "areas_ok (vma_list st')"
    "kind_at (vma_list st') = retyped a (a + len) VMA_MAP (kind_at (vma_list st))" "stock st \<le> stock st' + 2" "same_rest st st'"
    using insert_area_ok [OF ok ty lb F(1) ub a(3) page_aligned_add [OF a(3) len(3)] stk] .
  have "unmapped st a (a + len)" unfolding unmapped_def using D(6) a(1) F(2) unfolding owns_def by (meson less_le_trans order.trans)
  with st' F ub lb a(3) same_rest_kept(1) have "area_placed st len a st'" by (auto simp: area_placed_def)
  then show thesis using that st' by (simp add: insert_map_area_def)
qed

lemma find_vma_spec:
  assumes ok: "areas_ok (vma_list st)" and len: "0 < PAGE_ALIGN_UP len" and stk: "2 \<le> stock st"
  obtains (room) a st' where "find_vma len st = Some (a, st')" "area_placed st (PAGE_ALIGN_UP len) a st'" "same_rest st st'"
  | (none) "find_vma len st = Some (ENOMEM_64, st)" "no_room st (PAGE_ALIGN_UP len)"
proof (cases "find (\<lambda>d. vma_kind d = VMA_UNMAP \<and> PAGE_ALIGN_UP len \<le> end_addr d - start_addr d) (vma_list st)")
  case None
  then have "no_room st (PAGE_ALIGN_UP len)" by (auto simp: find_None_iff no_room_def not_le)
  then show thesis using none None by (simp add: find_vma_def Let_def)
next
  case (Some d)
  then have d: "d \<in> set (vma_list st)" "vma_kind d = VMA_UNMAP" "PAGE_ALIGN_UP len \<le> end_addr d - start_addr d"
    by (auto simp: find_Some_iff)
  note D = areas_ok_unmapped [OF ok d(1,2)]
  obtain st' where "insert_map_area (start_addr d) (start_addr d + PAGE_ALIGN_UP len) st = Some st'"
    "area_placed st (PAGE_ALIGN_UP len) (start_addr d) st'" "same_rest st st'"
    using map_in_area [OF ok d(1,2) order.refl D(2,4) len d(3) page_aligned_UP stk] .
  then show thesis using room Some by (simp add: find_vma_def Let_def)
qed

definition cursor_ok :: "u64 \<Rightarrow> bool" where
  "cursor_ok c \<longleftrightarrow> MAPPING_START \<le> c \<and> c \<le> MAPPING_RESERVE_IN_SIGNAL_START \<and> page_aligned c"

lemma areas_after_cursor:
  assumes ok: "areas_ok ds" and i: "find_address_owner ds c = Some i" and d: "d \<in> set (drop i ds)"
  shows "c \<le> end_addr d" "d \<in> set ds"
proof -
  have C: "contig MAPPING_START ds (MAPPING_RESERVE_IN_SIGNAL_START + 4096)" using ok by (simp add: areas_ok_def)
  have il: "i < length ds" "owns c (ds ! i)" using owner_kind [OF i] by auto
  have le: "contig lo xs hi \<Longrightarrow> x \<in> set xs \<Longrightarrow> lo \<le> end_addr x" for lo xs hi x
    by (induction xs arbitrary: lo) (auto intro: order.trans)
  have "drop i ds = ds ! i # drop (Suc i) ds" using il(1) by (simp add: Cons_nth_drop_Suc)
  then consider "d = ds ! i" | "d \<in> set (drop (Suc i) ds)" using d by auto
  then show "c \<le> end_addr d"
  proof cases
    case 1
    then show ?thesis using il(2) by (auto simp: owns_def)
  next
    case 2
    from le [OF contig_split(3) [OF C il(1)] this] show ?thesis using il(2) by (auto simp: owns_def)
  qed
  show "d \<in> set ds" using d by (rule in_set_dropD)
qed

lemma find_vma_with_kernel_choose_spec:
  assumes ok: "areas_ok (vma_list st)" "cursor_ok (kernel_cursor st)" and len: "0 < PAGE_ALIGN_UP len" and stk: "2 \<le> stock st"
  obtains (room) a st' where "find_vma_with_kernel_choose len st = Some (a, st')" "area_placed st (PAGE_ALIGN_UP len) a st'" "cursor_ok (kernel_cursor st')"
  | (none) "find_vma_with_kernel_choose len st = Some (ENOMEM_64, st\<lparr>is_end_of_vm_reach := True, kernel_cursor := KERNEL_CHOOSE_START_ADDR\<rparr>)"
      "no_room st (PAGE_ALIGN_UP len)"
proof -
  let ?c = "kernel_cursor st" and ?len = "PAGE_ALIGN_UP len"
  have "?c < MAPPING_RESERVE_IN_SIGNAL_START + 4096" using ok(2) by (auto simp: cursor_ok_def intro: below_guard)
  then obtain i where i: "find_address_owner (vma_list st) ?c = Some i"
    using ok owner_exists [of MAPPING_START "vma_list st" "MAPPING_RESERVE_IN_SIGNAL_START + 4096" ?c] by (auto simp: areas_ok_def cursor_ok_def)
  show thesis
  proof (cases "find (kernel_choice ?c ?len) (drop i (vma_list st))")
    case (Some d)
    have d: "d \<in> set (drop i (vma_list st))" "vma_kind d = VMA_UNMAP" "?len \<le> end_addr d - max (start_addr d) ?c"
      using find_SomeD [OF Some] by (auto simp: kernel_choice_def)
    note A = areas_after_cursor [OF ok(1) i d(1)]
    note D = areas_ok_unmapped [OF ok(1) A(2) d(2)]
    let ?a = "max (start_addr d) ?c"
    have a: "start_addr d \<le> ?a" "?a \<le> end_addr d" "page_aligned ?a" using A(1) D(2,4) ok(2) by (auto simp: max_def cursor_ok_def)
    obtain st' where st': "insert_map_area ?a (?a + ?len) st = Some st'" "area_placed st ?len ?a st'"
      using map_in_area [OF ok(1) A(2) d(2) a len d(3) page_aligned_UP stk] by blast
    let ?cur = "(?a + ?len + FORCE_ALIGNMENT - 1) AND NOT (FORCE_ALIGNMENT - 1)"
    have "MAPPING_START \<le> ?a + ?len" "?a + ?len \<le> MAPPING_RESERVE_IN_SIGNAL_START" using st'(2) unfolding area_placed_def by (meson less_imp_le order.trans)+
    then have "cursor_ok ?cur" using cursor_bound [of "?a + ?len"] by (simp add: cursor_ok_def)
    moreover have "find_vma_with_kernel_choose len st = Some (?a, st'\<lparr>kernel_cursor := ?cur\<rparr>)"
      using i Some st'(1) area_placed_not_ENOMEM [OF st'(2)] by (simp add: find_vma_with_kernel_choose_def Let_def)
    moreover have "area_placed st ?len ?a (st'\<lparr>kernel_cursor := ?cur\<rparr>)" using st'(2) by (simp add: area_placed_def kept_def stock_def)
    ultimately show thesis using room [of ?a "st'\<lparr>kernel_cursor := ?cur\<rparr>"] by simp
  next
    case None
    let ?st = "st\<lparr>is_end_of_vm_reach := True, kernel_cursor := KERNEL_CHOOSE_START_ADDR\<rparr>"
    have r: "find_vma_with_kernel_choose len st = find_vma ?len ?st"
      using i None by (simp add: find_vma_with_kernel_choose_def Let_def)
    have u: "PAGE_ALIGN_UP ?len = ?len" by (simp add: ALIGN_UP_aligned)
    have hyp: "areas_ok (vma_list ?st)" "0 < PAGE_ALIGN_UP ?len" "2 \<le> stock ?st" using ok(1) len u stk by (simp_all add: stock_def)
    show thesis
    proof (rule find_vma_spec [OF hyp], unfold u)
      fix a st' assume a: "find_vma ?len ?st = Some (a, st')" "area_placed ?st ?len a st'" "same_rest ?st st'"
      have "area_placed st ?len a st'" using a(2) by (simp add: area_placed_def kept_def stock_def unmapped_def)
      moreover have "cursor_ok (kernel_cursor st')" using same_rest_kept(2) [OF a(3)] page_aligned_mask [of 12 KERNEL_CHOOSE_START_ADDR]
        by (simp add: cursor_ok_def KERNEL_CHOOSE_START_ADDR_def MAPPING_START_def MAPPING_RESERVE_IN_SIGNAL_START_def mask_eq_exp_minus_1)
      ultimately show thesis using room a(1) r by simp
    next
      assume "find_vma ?len ?st = Some (ENOMEM_64, ?st)" "no_room ?st ?len"
      then show thesis using none r by (simp add: no_room_def)
    qed
  qed
qed

lemma find_vma_with_hint_spec:
  assumes ok: "areas_ok (vma_list st)" and len: "0 < PAGE_ALIGN_UP len" "PAGE_ALIGN_UP len \<le> MAPPING_RESERVE_IN_SIGNAL_START" and stk: "2 \<le> stock st"
  obtains (room) a st' where "find_vma_with_hint len hint st = Some (a, st')" "area_placed st (PAGE_ALIGN_UP len) a st'" "same_rest st st'"
  | (none) "find_vma_with_hint len hint st = Some (ENOMEM_64, st)" "no_room st (PAGE_ALIGN_UP len)"
proof -
  let ?len = "PAGE_ALIGN_UP len" and ?h = "PAGE_ALIGN_DOWN hint"
  have u: "PAGE_ALIGN_UP ?len = ?len" and e: "PAGE_ALIGN_UP (?h + ?len) = ?h + ?len"
    by (simp_all add: ALIGN_UP_aligned page_aligned_add)
  let ?o = "if hint = 0 then None else find_address_owner (vma_list st) ?h"
  show thesis
  proof (cases "\<exists>i. ?o = Some i \<and> vma_kind (vma_list st ! i) = VMA_UNMAP \<and> ?h + ?len \<le> end_addr (vma_list st ! i)")
    case True
    then obtain i where i: "?o = Some i" "vma_kind (vma_list st ! i) = VMA_UNMAP" "?h + ?len \<le> end_addr (vma_list st ! i)" by blast
    let ?d = "vma_list st ! i"
    have o: "find_address_owner (vma_list st) ?h = Some i" using i(1) by (simp split: if_splits)
    have d: "?d \<in> set (vma_list st)" "owns ?h ?d" using owner_kind [OF o] by simp_all
    note D = areas_ok_unmapped [OF ok d(1) i(2)]
    have h: "start_addr ?d \<le> ?h" "?h \<le> end_addr ?d" "?h < MAPPING_RESERVE_IN_SIGNAL_START"
      using d(2) D(3) unfolding owns_def by (auto dest: le_less_trans less_le_trans)
    have "?len \<le> end_addr ?d - ?h"
      using i(3) h(2,3) len(2) by (simp add: word_le_nat_alt word_less_nat_alt unat_sub unat_word_ariths MAPPING_RESERVE_IN_SIGNAL_START_def)
    then obtain st' where "insert_map_area ?h (?h + ?len) st = Some st'" "area_placed st ?len ?h st'" "same_rest st st'"
      using map_in_area [OF ok d(1) i(2) h(1,2) page_aligned_DOWN len(1) _ page_aligned_UP stk] by blast
    moreover from this have "?h \<noteq> ENOMEM_64" using area_placed_not_ENOMEM by blast
    ultimately show thesis using room i o by (simp add: find_vma_with_hint_def Let_def e split: if_splits)
  next
    case False
    have r: "find_vma_with_hint len hint st = find_vma ?len st"
      using False by (auto simp: find_vma_with_hint_def Let_def e split: option.split)
    show thesis
      using find_vma_spec [OF ok, of ?len, unfolded u, OF len(1) stk] r room none by metis
  qed
qed

end
