(* ===== verification/Guest_Mmap_Sem.thy ===== *)
theory Guest_Mmap_Sem
  imports Guest_Search
begin

text \<open>
  The system calls on the map: what \<open>internal_mmap\<close>, \<open>internal_munmap\<close>, \<open>internal_mremap\<close> and
  \<open>collect_ongoing_unmap\<close> do to the types of addresses, that the descriptors never run out while a call is
  under way, and the invariant of every sequence of entries.
\<close>

section \<open>The system calls\<close>

definition mmap_wf :: "'k mmap_state \<Rightarrow> bool" where
  "mmap_wf st \<longleftrightarrow> is_init st \<and> areas_ok (vma_list st) \<and> cursor_ok (kernel_cursor st)"

lemma ensure_init_wf [simp]: "mmap_wf st \<Longrightarrow> ensure_init st = Some st"
  by (simp add: mmap_wf_def ensure_init_def)

text \<open>The state at program start, for a kernel state and the caches.\<close>

definition initial_mmap :: "u64 \<Rightarrow> caches \<Rightarrow> 'k \<Rightarrow> 'k mmap_state" where
  "initial_mmap reserved g k = \<lparr>is_init = False, is_end_of_vm_reach = False, signal_cursor = MAPPING_RESERVE_IN_SIGNAL_START,
     kernel_cursor = KERNEL_CHOOSE_START_ADDR, desc_next_memory = reserved, free_vma_list = 0, vma_list = [], ongoing_vma_list = [],
     free_shmat_list = 0, shmat_list = [], all_caches = g, kernel = k\<rparr>"

lemma initial_areas:
  "areas_ok [\<lparr>vma_kind = VMA_UNMAP, start_addr = MAPPING_START, end_addr = MAPPING_RESERVE_IN_SIGNAL_START\<rparr>,
    \<lparr>vma_kind = VMA_MAP, start_addr = MAPPING_RESERVE_IN_SIGNAL_START, end_addr = MAPPING_RESERVE_IN_SIGNAL_START + 4096\<rparr>]"
  unfolding areas_ok_def
  by (auto simp: MAPPING_START_def MAPPING_RESERVE_IN_SIGNAL_START_def page_aligned_def PAGE_ALIGN_DOWN_def owns_def)

lemma mmap_init_wf:
  obtains st where "mmap_init (initial_mmap reserved g k) = Some st" "mmap_wf st" "stock st = stock (initial_mmap reserved g k) + DESC_PER_PAGE - 2"
    "desc_next_memory st = reserved" "ongoing_vma_list st = []" "kernel st = k"
    "kind_at (vma_list st) = (\<lambda>a. if MAPPING_START \<le> a \<and> a < MAPPING_RESERVE_IN_SIGNAL_START then Some VMA_UNMAP
       else if MAPPING_RESERVE_IN_SIGNAL_START \<le> a \<and> a < MAPPING_RESERVE_IN_SIGNAL_START + 4096 then Some VMA_MAP else None)"
proof -
  let ?vl = "[\<lparr>vma_kind = VMA_UNMAP, start_addr = MAPPING_START, end_addr = MAPPING_RESERVE_IN_SIGNAL_START\<rparr>,
    \<lparr>vma_kind = VMA_MAP, start_addr = MAPPING_RESERVE_IN_SIGNAL_START, end_addr = MAPPING_RESERVE_IN_SIGNAL_START + 4096\<rparr>]"
  let ?st = "(initial_mmap reserved g k)\<lparr>is_init := True, vma_list := ?vl, free_vma_list := 100\<rparr>"
  have "mmap_init (initial_mmap reserved g k) = Some ?st"
    by (simp add: mmap_init_def initial_mmap_def arm64_get_free_desc_def assert_def DESC_PER_PAGE_def Let_def)
  moreover have "mmap_wf ?st" using initial_areas
    by (simp add: mmap_wf_def cursor_ok_def initial_mmap_def page_aligned_def PAGE_ALIGN_DOWN_def KERNEL_CHOOSE_START_ADDR_def MAPPING_START_def MAPPING_RESERVE_IN_SIGNAL_START_def)
  moreover have "stock ?st = stock (initial_mmap reserved g k) + DESC_PER_PAGE - 2" by (simp add: stock_def initial_mmap_def DESC_PER_PAGE_def)
  moreover have "kind_at (vma_list ?st) = (\<lambda>a. if MAPPING_START \<le> a \<and> a < MAPPING_RESERVE_IN_SIGNAL_START then Some VMA_UNMAP
       else if MAPPING_RESERVE_IN_SIGNAL_START \<le> a \<and> a < MAPPING_RESERVE_IN_SIGNAL_START + 4096 then Some VMA_MAP else None)"
    by (rule ext) (simp add: owns_def)
  ultimately show thesis by (intro that [of ?st]) (simp_all add: initial_mmap_def)
qed

text \<open>A range of pages below the one reserved for signals.\<close>

definition page_range :: "u64 \<Rightarrow> u64 \<Rightarrow> bool" where
  "page_range start stop \<longleftrightarrow> page_aligned start \<and> page_aligned stop \<and> MAPPING_START \<le> start \<and> start < stop \<and> stop \<le> MAPPING_RESERVE_IN_SIGNAL_START"

lemma insert_page_range:
  assumes wf: "mmap_wf st" and r: "page_range start stop" and ty: "type \<in> {VMA_MAP, VMA_UNMAP}" and stk: "2 \<le> stock st"
  obtains st' where "insert_area start stop type st = Some st'" "mmap_wf st'"
    "kind_at (vma_list st') = retyped start stop type (kind_at (vma_list st))" "stock st \<le> stock st' + 2" "same_rest st st'"
proof -
  have ok: "areas_ok (vma_list st)" and b: "MAPPING_START \<le> start" "start < stop" "stop \<le> MAPPING_RESERVE_IN_SIGNAL_START" "page_aligned start" "page_aligned stop"
    using wf r by (auto simp: mmap_wf_def page_range_def)
  obtain st' where st': "insert_area start stop type st = Some st'" "areas_ok (vma_list st')"
    "kind_at (vma_list st') = retyped start stop type (kind_at (vma_list st))" "stock st \<le> stock st' + 2" "same_rest st st'"
    using insert_area_ok [OF ok ty b stk] .
  have "mmap_wf st'" using st'(2) same_rest_kept(1,2) [OF st'(5)] wf by (simp add: mmap_wf_def kept_def)
  then show thesis using st' that by blast
qed

text \<open>A range a guest may map or unmap at a fixed address.\<close>

definition guest_range :: "u64 \<Rightarrow> u64 \<Rightarrow> bool" where
  "guest_range a len \<longleftrightarrow> page_range a (PAGE_ALIGN_UP (a + len))"

lemma munmap_spec:
  assumes wf: "mmap_wf st" and r: "guest_range addr len" and stk: "2 \<le> stock st"
  obtains res k st' where "sys_munmap K addr len (kernel st) = (res, k)" "internal_munmap K addr len st = Some (res, st')"
    "mmap_wf st'" "kernel st' = k" "stock st \<le> stock st' + 2" "ongoing_vma_list st' = ongoing_vma_list st"
    "kind_at (vma_list st') = (if is_syscall_error res then kind_at (vma_list st)
       else retyped addr (PAGE_ALIGN_UP (addr + len)) VMA_UNMAP (kind_at (vma_list st)))"
proof -
  obtain res k where k: "sys_munmap K addr len (kernel st) = (res, k)" by fastforce
  let ?st = "st\<lparr>kernel := k\<rparr>"
  have wf': "mmap_wf ?st" "2 \<le> stock ?st" using wf stk by (simp_all add: mmap_wf_def stock_def)
  show thesis
  proof (cases "is_syscall_error res")
    case True
    then show thesis using k wf wf' by (intro that [of res k ?st]) (simp_all add: internal_munmap_def Let_def stock_def)
  next
    case False
    obtain st' where st': "insert_area addr (PAGE_ALIGN_UP (addr + len)) VMA_UNMAP ?st = Some st'" "mmap_wf st'"
      "kind_at (vma_list st') = retyped addr (PAGE_ALIGN_UP (addr + len)) VMA_UNMAP (kind_at (vma_list ?st))" "stock ?st \<le> stock st' + 2" "same_rest ?st st'"
      using insert_page_range [OF wf'(1) r [unfolded guest_range_def], of VMA_UNMAP] wf'(2) by blast
    have "internal_munmap K addr len st = Some (res, st')"
      using k wf False st'(1) by (simp add: internal_munmap_def insert_unmap_area_def Let_def)
    then show thesis using that [OF k] st' False same_rest_kept(1) [OF st'(5)] by (simp add: stock_def kept_def)
  qed
qed

text \<open>A map at an address the guest imposes.\<close>

lemma mmap_fixed_spec:
  assumes wf: "mmap_wf st" and r: "guest_range addr len" and fx: "(ucast flags :: u32) AND MAP_FIXED \<noteq> 0" and stk: "2 \<le> stock st"
  obtains res k st' where "sys_mmap K addr len (ucast prot) (ucast flags) (ucast fd) off (kernel st) = (res, k)"
    "internal_mmap K addr len prot flags fd off st = Some (res, st')" "mmap_wf st'" "kernel st' = k" "stock st \<le> stock st' + 2"
    "ongoing_vma_list st' = ongoing_vma_list st"
    "kind_at (vma_list st') = (if is_syscall_error res then kind_at (vma_list st)
       else retyped addr (PAGE_ALIGN_UP (addr + len)) VMA_MAP (kind_at (vma_list st)))"
proof -
  obtain res k where k: "sys_mmap K addr len (ucast prot) (ucast flags) (ucast fd) off (kernel st) = (res, k)" by fastforce
  let ?st = "st\<lparr>kernel := k\<rparr>"
  have wf': "mmap_wf ?st" "2 \<le> stock ?st" using wf stk by (simp_all add: mmap_wf_def stock_def)
  have a: "addr \<noteq> 0" using r by (auto simp: guest_range_def page_range_def MAPPING_START_def)
  show thesis
  proof (cases "is_syscall_error res")
    case True
    then show thesis using k wf wf' fx a by (intro that [of res k ?st]) (simp_all add: internal_mmap_def Let_def stock_def)
  next
    case False
    obtain st' where st': "insert_area addr (PAGE_ALIGN_UP (addr + len)) VMA_MAP ?st = Some st'" "mmap_wf st'"
      "kind_at (vma_list st') = retyped addr (PAGE_ALIGN_UP (addr + len)) VMA_MAP (kind_at (vma_list ?st))" "stock ?st \<le> stock st' + 2" "same_rest ?st st'"
      using insert_page_range [OF wf'(1) r [unfolded guest_range_def], of VMA_MAP] wf'(2) by blast
    have "internal_mmap K addr len prot flags fd off st = Some (res, st')"
      using k wf False st'(1) fx a by (simp add: internal_mmap_def insert_map_area_def Let_def)
    then show thesis using that [OF k] st' False same_rest_kept(1) [OF st'(5)] by (simp add: stock_def kept_def)
  qed
qed

lemma search_spec:
  assumes wf: "mmap_wf st" and len: "0 < len" "len \<le> MAPPING_RESERVE_IN_SIGNAL_START" and stk: "2 \<le> stock st"
  obtains (room) a st' where "(if addr = 0 then find_vma_with_kernel_choose len st else find_vma_with_hint len addr st) = Some (a, st')"
      "area_placed st (PAGE_ALIGN_UP len) a st'" "mmap_wf st'"
  | (none) st' where "(if addr = 0 then find_vma_with_kernel_choose len st else find_vma_with_hint len addr st) = Some (ENOMEM_64, st')"
      "no_room st (PAGE_ALIGN_UP len)" "mmap_wf st'" "kept st st'" "vma_list st' = vma_list st" "stock st' = stock st"
proof -
  have ok: "areas_ok (vma_list st)" "cursor_ok (kernel_cursor st)" "is_init st" using wf by (auto simp: mmap_wf_def)
  have "MAPPING_RESERVE_IN_SIGNAL_START \<le> - 4096" by (simp add: MAPPING_RESERVE_IN_SIGNAL_START_def)
  then have "len \<le> - 4096" using len(2) by simp
  note L = ALIGN_UP_pos [OF len(1) this]
  have L2: "PAGE_ALIGN_UP len \<le> MAPPING_RESERVE_IN_SIGNAL_START" by (rule ALIGN_UP_le [OF len(2)])
  show thesis
  proof (cases "addr = 0")
    case True
    from ok(1,2) L(1) stk show thesis
    proof (rule find_vma_with_kernel_choose_spec)
      fix a st' assume a: "find_vma_with_kernel_choose len st = Some (a, st')" "area_placed st (PAGE_ALIGN_UP len) a st'" "cursor_ok (kernel_cursor st')"
      then have "mmap_wf st'" using ok by (simp add: mmap_wf_def area_placed_def kept_def)
      with a room True show thesis by simp
    next
      assume a: "find_vma_with_kernel_choose len st = Some (ENOMEM_64, st\<lparr>is_end_of_vm_reach := True, kernel_cursor := KERNEL_CHOOSE_START_ADDR\<rparr>)"
        "no_room st (PAGE_ALIGN_UP len)"
      have "cursor_ok KERNEL_CHOOSE_START_ADDR"
        by (simp add: cursor_ok_def page_aligned_def PAGE_ALIGN_DOWN_def KERNEL_CHOOSE_START_ADDR_def MAPPING_START_def MAPPING_RESERVE_IN_SIGNAL_START_def)
      then show thesis using none a ok True by (simp add: mmap_wf_def kept_def stock_def)
    qed
  next
    case False
    from ok(1) L(1) L2 stk show thesis
    proof (rule find_vma_with_hint_spec [where hint = addr])
      fix a st' assume a: "find_vma_with_hint len addr st = Some (a, st')" "area_placed st (PAGE_ALIGN_UP len) a st'" "same_rest st st'"
      then have "mmap_wf st'" using ok same_rest_kept [OF a(3)] by (simp add: mmap_wf_def area_placed_def kept_def)
      with a room False show thesis by simp
    next
      assume a: "find_vma_with_hint len addr st = Some (ENOMEM_64, st)" "no_room st (PAGE_ALIGN_UP len)"
      then show thesis using none wf False by (simp add: kept_def)
    qed
  qed
qed

lemma retyped_back: "(\<And>x. start \<le> x \<Longrightarrow> x < stop \<Longrightarrow> f x = Some u) \<Longrightarrow> retyped start stop u (retyped start stop t f) = f"
  by (rule ext) (simp add: retyped_def)

text \<open>A map where the emulator chooses the address.\<close>

lemma mmap_anywhere_spec:
  assumes wf: "mmap_wf st" and len: "0 < len" "len \<le> MAPPING_RESERVE_IN_SIGNAL_START"
    and fx: "addr = 0 \<or> (ucast flags :: u32) AND MAP_FIXED = 0" and stk: "4 \<le> stock st"
  obtains (none) st' where "internal_mmap K addr len prot flags fd off st = Some (ENOMEM_64, st')" "no_room st (PAGE_ALIGN_UP len)"
      "mmap_wf st'" "kept st st'" "vma_list st' = vma_list st" "stock st' = stock st"
  | (room) a res k st' where "sys_mmap K a len (ucast prot) (ucast flags OR MAP_FIXED) (ucast fd) off (kernel st) = (res, k)"
      "internal_mmap K addr len prot flags fd off st = Some (res, st')" "guest_range a len" "unmapped st a (PAGE_ALIGN_UP (a + len))"
      "mmap_wf st'" "kernel st' = k" "stock st \<le> stock st' + 4" "ongoing_vma_list st' = ongoing_vma_list st"
      "kind_at (vma_list st') = (if is_syscall_error res then kind_at (vma_list st)
         else retyped a (PAGE_ALIGN_UP (a + len)) VMA_MAP (kind_at (vma_list st)))"
      "all_caches st' = (if \<not> is_syscall_error res \<and> is_end_of_vm_reach st' \<and> (ucast prot :: u32) AND PROT_EXEC \<noteq> 0
         then cleanCaches (all_caches st) else all_caches st)"
proof -
  have nf: "\<not> (addr \<noteq> 0 \<and> (ucast flags :: u32) AND MAP_FIXED \<noteq> 0)" using fx by simp
  have stk2: "2 \<le> stock st" using stk by simp
  show thesis
  proof (rule search_spec [OF wf len stk2, of addr])
    fix st' assume s: "(if addr = 0 then find_vma_with_kernel_choose len st else find_vma_with_hint len addr st) = Some (ENOMEM_64, st')"
      "no_room st (PAGE_ALIGN_UP len)" "mmap_wf st'" "kept st st'" "vma_list st' = vma_list st" "stock st' = stock st"
    have "internal_mmap K addr len prot flags fd off st = Some (ENOMEM_64, st')"
      unfolding internal_mmap_def Let_def ensure_init_wf [OF wf] Option.bind.simps(2) if_not_P [OF nf] s(1) by simp
    with s show thesis using none by blast
  next
    fix a st1 assume s: "(if addr = 0 then find_vma_with_kernel_choose len st else find_vma_with_hint len addr st) = Some (a, st1)"
      and p: "area_placed st (PAGE_ALIGN_UP len) a st1" and wf1: "mmap_wf st1"
    have ne: "a \<noteq> ENOMEM_64" by (rule area_placed_not_ENOMEM [OF p])
    have up: "PAGE_ALIGN_UP (a + len) = a + PAGE_ALIGN_UP len" using p by (simp add: area_placed_def ALIGN_UP_add)
    have gr: "guest_range a len" and un: "unmapped st a (PAGE_ALIGN_UP (a + len))"
      using p by (simp_all add: guest_range_def page_range_def area_placed_def up page_aligned_add)
    have kd: "kind_at (vma_list st1) = retyped a (PAGE_ALIGN_UP (a + len)) VMA_MAP (kind_at (vma_list st))" and s1: "stock st \<le> stock st1 + 2"
      and kp: "kept st st1" using p by (simp_all add: area_placed_def up)
    obtain res k where k: "sys_mmap K a len (ucast prot) (ucast flags OR MAP_FIXED) (ucast fd) off (kernel st1) = (res, k)" by fastforce
    let ?st = "st1\<lparr>kernel := k\<rparr>"
    have r: "internal_mmap K addr len prot flags fd off st = do {
         st \<leftarrow> (if is_syscall_error res then insert_unmap_area a (PAGE_ALIGN_UP (a + len)) ?st
                else if is_end_of_vm_reach ?st \<and> (ucast prot :: u32) AND PROT_EXEC \<noteq> 0 then Some (?st\<lparr>all_caches := cleanCaches (all_caches ?st)\<rparr>)
                else Some ?st);
         Some (res, st) }"
      unfolding internal_mmap_def Let_def ensure_init_wf [OF wf] Option.bind.simps(2) if_not_P [OF nf] s by (simp add: ne k)
    have k': "sys_mmap K a len (ucast prot) (ucast flags OR MAP_FIXED) (ucast fd) off (kernel st) = (res, k)" using k kp by (simp add: kept_def)
    show thesis
    proof (cases "is_syscall_error res")
      case True
      have wf2: "mmap_wf ?st" "2 \<le> stock ?st" using wf1 s1 stk by (simp_all add: mmap_wf_def stock_def)
      obtain st' where st': "insert_area a (PAGE_ALIGN_UP (a + len)) VMA_UNMAP ?st = Some st'" "mmap_wf st'"
        "kind_at (vma_list st') = retyped a (PAGE_ALIGN_UP (a + len)) VMA_UNMAP (kind_at (vma_list ?st))" "stock ?st \<le> stock st' + 2" "same_rest ?st st'"
        using insert_page_range [OF wf2(1) gr [unfolded guest_range_def], of VMA_UNMAP] wf2(2) by blast
      have "kind_at (vma_list st') = kind_at (vma_list st)"
        using st'(3) un kd by (simp add: unmapped_def retyped_back)
      moreover have eq: "internal_mmap K addr len prot flags fd off st = Some (res, st')"
        unfolding r using True st'(1) by (simp add: insert_unmap_area_def)
      moreover have "stock ?st = stock st1" by (simp add: stock_def)
      ultimately show thesis using st'(2,4) same_rest_kept(1) [OF st'(5)] kp s1 True
        by (intro room [OF k' eq gr un]) (simp_all add: kept_def)
    next
      case False
      define ex where "ex \<longleftrightarrow> (ucast prot :: u32) AND PROT_EXEC \<noteq> 0"
      define st' where "st' = (if is_end_of_vm_reach st1 \<and> ex then ?st\<lparr>all_caches := cleanCaches (all_caches st1)\<rparr> else ?st)"
      have eq: "internal_mmap K addr len prot flags fd off st = Some (res, st')"
        unfolding r ex_def [symmetric] using False by (simp add: st'_def)
      have f: "vma_list st' = vma_list st1" "is_init st' = is_init st1" "kernel_cursor st' = kernel_cursor st1" "kernel st' = k"
        "free_vma_list st' = free_vma_list st1" "desc_next_memory st' = desc_next_memory st1" "ongoing_vma_list st' = ongoing_vma_list st1"
        by (simp_all add: st'_def)
      then have "mmap_wf st'" "stock st' = stock st1" using wf1 by (simp_all add: mmap_wf_def stock_def)
      moreover have "all_caches st' = (if \<not> is_syscall_error res \<and> is_end_of_vm_reach st' \<and> ex
         then cleanCaches (all_caches st) else all_caches st)"
        using False kp by (cases "is_end_of_vm_reach st1"; cases ex) (simp_all add: st'_def kept_def)
      note this [unfolded ex_def]
      ultimately show thesis using kd s1 False f kp by (intro room [OF k' eq gr un]) (simp_all add: kept_def)
    qed
  qed
qed

section \<open>Stacks waiting to be unmapped\<close>

text \<open>What the emulator relies on: a map at a fixed address is there, and a range of pages can be unmapped.\<close>

definition host_kernel :: "'k syscalls \<Rightarrow> bool" where
  "host_kernel K \<longleftrightarrow>
     (\<forall>a len prot flags fd off k. flags AND MAP_FIXED \<noteq> 0 \<longrightarrow> \<not> is_syscall_error (fst (sys_mmap K a len prot flags fd off k)) \<longrightarrow>
        fst (sys_mmap K a len prot flags fd off k) = a) \<and>
     (\<forall>a len k. page_aligned a \<longrightarrow> 0 < len \<longrightarrow> a + len \<le> MAPPING_RESERVE_IN_SIGNAL_START \<longrightarrow> \<not> is_syscall_error (fst (sys_munmap K a len k)))"

definition area_in_range :: "vma_desc \<Rightarrow> bool" where
  "area_in_range d \<longleftrightarrow> page_range (start_addr d) (end_addr d)"

definition ended :: "vma_desc list \<Rightarrow> vma_desc list" where
  "ended ds = filter (\<lambda>d. vma_kind d = VMA_UNMAP) ds"

lemma find_ended:
  "find (\<lambda>d. vma_kind d = VMA_UNMAP) ds = Some d \<Longrightarrow> ended ds = d # ended (remove1 d ds) \<and>
     filter (\<lambda>d. vma_kind d \<noteq> VMA_UNMAP) (remove1 d ds) = filter (\<lambda>d. vma_kind d \<noteq> VMA_UNMAP) ds \<and> d \<in> set ds"
  by (induction ds) (auto simp: ended_def split: if_splits dest: find_SomeD)

text \<open>One round of the loop.\<close>

lemma collect_round:
  assumes wf: "mmap_wf st" and K: "host_kernel K" and d: "area_in_range d" "find (\<lambda>d. vma_kind d = VMA_UNMAP) (ongoing_vma_list st) = Some d"
    and stk: "2 \<le> stock st"
  obtains st' where "collect_ongoing_unmap K st = collect_ongoing_unmap K st'" "mmap_wf st'" "stock st \<le> stock st' + 1"
    "ongoing_vma_list st' = remove1 d (ongoing_vma_list st)" "kind_at (vma_list st') = retyped (start_addr d) (end_addr d) VMA_UNMAP (kind_at (vma_list st))"
proof -
  obtain res k where k: "sys_munmap K (start_addr d) (end_addr d - start_addr d) (kernel st) = (res, k)" by fastforce
  have "0 < end_addr d - start_addr d" using d(1) by (auto simp: area_in_range_def page_range_def word_neq_0_conv [symmetric])
  moreover have "start_addr d + (end_addr d - start_addr d) \<le> MAPPING_RESERVE_IN_SIGNAL_START" using d(1) by (simp add: area_in_range_def page_range_def)
  moreover have "page_aligned (start_addr d)" using d(1) by (simp add: area_in_range_def page_range_def)
  ultimately have ok: "\<not> is_syscall_error res" using K k unfolding host_kernel_def by (metis fst_conv)
  let ?st = "st\<lparr>ongoing_vma_list := remove1 d (ongoing_vma_list st), kernel := k\<rparr>"
  have wf': "mmap_wf ?st" "2 \<le> stock ?st" "stock ?st = stock st" using wf stk by (simp_all add: mmap_wf_def stock_def)
  have ty: "VMA_UNMAP \<in> {VMA_MAP, VMA_UNMAP}" by simp
  obtain st' where st': "insert_area (start_addr d) (end_addr d) VMA_UNMAP ?st = Some st'" "mmap_wf st'"
    "kind_at (vma_list st') = retyped (start_addr d) (end_addr d) VMA_UNMAP (kind_at (vma_list ?st))" "stock ?st \<le> stock st' + 2" "same_rest ?st st'"
    using insert_page_range [OF wf'(1) d(1) [unfolded area_in_range_def] ty wf'(2)] .
  have "collect_ongoing_unmap K st = collect_ongoing_unmap K (release_desc st')"
    using k ok st'(1) d(2) by (subst collect_ongoing_unmap.simps) (simp add: insert_unmap_area_def assert_def Let_def)
  moreover have "mmap_wf (release_desc st')" using st'(2) by (simp add: mmap_wf_def release_desc_def)
  moreover have "ongoing_vma_list (release_desc st') = remove1 d (ongoing_vma_list st)"
    using same_rest_kept(1) [OF st'(5)] by (simp add: kept_def release_desc_def)
  ultimately show thesis using that st'(3,4) wf'(3) by simp
qed

lemma collect_spec:
  "mmap_wf st \<Longrightarrow> host_kernel K \<Longrightarrow> \<forall>d \<in> set (ongoing_vma_list st). area_in_range d \<Longrightarrow> length (ended (ongoing_vma_list st)) + 2 \<le> stock st \<Longrightarrow>
   \<exists>st'. collect_ongoing_unmap K st = Some st' \<and> mmap_wf st' \<and> stock st \<le> stock st' + length (ended (ongoing_vma_list st)) \<and>
     ongoing_vma_list st' = filter (\<lambda>d. vma_kind d \<noteq> VMA_UNMAP) (ongoing_vma_list st) \<and>
     kind_at (vma_list st') = (\<lambda>a. if \<exists>d \<in> set (ended (ongoing_vma_list st)). owns a d then Some VMA_UNMAP else kind_at (vma_list st) a)"
proof (induction "length (ended (ongoing_vma_list st))" arbitrary: st)
  case 0
  then have n: "\<forall>d \<in> set (ongoing_vma_list st). vma_kind d \<noteq> VMA_UNMAP" by (auto simp: ended_def filter_empty_conv)
  then have "find (\<lambda>d. vma_kind d = VMA_UNMAP) (ongoing_vma_list st) = None" by (simp add: find_None_iff)
  then have "collect_ongoing_unmap K st = Some st" by (subst collect_ongoing_unmap.simps) simp
  then show ?case using 0 n by (simp add: filter_True)
next
  case (Suc n)
  have "find (\<lambda>d. vma_kind d = VMA_UNMAP) (ongoing_vma_list st) \<noteq> None"
    using Suc(2) unfolding ended_def find_None_iff by (metis (mono_tags, lifting) filter_False list.size(3) nat.distinct(1))
  then obtain d where d: "find (\<lambda>d. vma_kind d = VMA_UNMAP) (ongoing_vma_list st) = Some d" by blast
  note F = find_ended [OF d]
  have dr: "area_in_range d" using F Suc.prems(3) by blast
  have two: "2 \<le> stock st" using Suc.prems(4) by simp
  obtain st1 where st1: "collect_ongoing_unmap K st = collect_ongoing_unmap K st1" "mmap_wf st1" "stock st \<le> stock st1 + 1"
    "ongoing_vma_list st1 = remove1 d (ongoing_vma_list st)"
    "kind_at (vma_list st1) = retyped (start_addr d) (end_addr d) VMA_UNMAP (kind_at (vma_list st))"
    using collect_round [OF Suc.prems(1,2) dr d two] .
  have en: "ended (ongoing_vma_list st) = d # ended (ongoing_vma_list st1)" using F st1(4) by simp
  have r: "\<forall>d \<in> set (ongoing_vma_list st1). area_in_range d" using Suc.prems(3) st1(4) by (metis notin_set_remove1)
  have "n = length (ended (ongoing_vma_list st1))" "length (ended (ongoing_vma_list st1)) + 2 \<le> stock st1"
    using Suc(2) Suc.prems(4) st1(3) en by auto
  from Suc.hyps(1) [OF this(1) st1(2) Suc.prems(2) r this(2)] obtain st' where st': "collect_ongoing_unmap K st1 = Some st'" "mmap_wf st'"
    "stock st1 \<le> stock st' + length (ended (ongoing_vma_list st1))"
    "ongoing_vma_list st' = filter (\<lambda>d. vma_kind d \<noteq> VMA_UNMAP) (ongoing_vma_list st1)"
    "kind_at (vma_list st') = (\<lambda>a. if \<exists>d \<in> set (ended (ongoing_vma_list st1)). owns a d then Some VMA_UNMAP else kind_at (vma_list st1) a)" by blast
  have "kind_at (vma_list st') = (\<lambda>a. if \<exists>d \<in> set (ended (ongoing_vma_list st)). owns a d then Some VMA_UNMAP else kind_at (vma_list st) a)"
    unfolding st'(5) st1(5) en by (rule ext) (auto simp: retyped_def owns_def)
  then show ?case using st1 st' en F by (intro exI [of _ st']) simp
qed

section \<open>The entries\<close>

text \<open>What holds between two entries: the page the next descriptors come from is there.\<close>

definition map_ok :: "'k mmap_state \<Rightarrow> bool" where
  "map_ok st \<longleftrightarrow> mmap_wf st \<and> (\<forall>d \<in> set (ongoing_vma_list st). area_in_range d) \<and> length (ongoing_vma_list st) \<le> 40 \<and> desc_next_memory st \<noteq> 0"

text \<open>Once the stacks of ended threads are unmapped, no page can be had for the next descriptors.\<close>

definition page_refused :: "'k syscalls \<Rightarrow> 'k mmap_state \<Rightarrow> bool" where
  "page_refused K st \<longleftrightarrow> (\<exists>st1 res st2. collect_ongoing_unmap K st = Some st1 \<and> desc_next_memory st1 = 0 \<and>
     internal_mmap K 0 PAGE_SIZE 3 0x22 (- 1) 0 st1 = Some (res, st2) \<and> is_syscall_error res)"

lemma stock_entry: "desc_next_memory st \<noteq> 0 \<Longrightarrow> 102 \<le> stock st"
  by (simp add: stock_def DESC_PER_PAGE_def)

lemma ENOMEM_error [simp]: "is_syscall_error ENOMEM_64"
  by (simp add: is_syscall_error_def ENOMEM_64_def)

lemma page_request:
  assumes wf: "mmap_wf st" and K: "host_kernel K" and stk: "4 \<le> stock st"
  obtains res st' where "internal_mmap K 0 PAGE_SIZE 3 0x22 (- 1) 0 st = Some (res, st')" "mmap_wf st'"
    "ongoing_vma_list st' = ongoing_vma_list st" "\<not> is_syscall_error res \<Longrightarrow> res \<noteq> 0"
proof -
  have len: "0 < PAGE_SIZE" "PAGE_SIZE \<le> MAPPING_RESERVE_IN_SIGNAL_START" by (simp_all add: PAGE_SIZE_def MAPPING_RESERVE_IN_SIGNAL_START_def)
  show thesis
  proof (rule mmap_anywhere_spec [where K = K and addr = 0 and flags = "0x22" and prot = 3 and fd = "- 1" and off = 0, OF wf len _ stk])
    fix st' assume "internal_mmap K 0 PAGE_SIZE 3 0x22 (- 1) 0 st = Some (ENOMEM_64, st')" "mmap_wf st'" "kept st st'"
    then show thesis using that [of ENOMEM_64 st'] by (simp add: kept_def)
  next
    fix a res k st'
    assume k: "sys_mmap K a PAGE_SIZE (ucast (3 :: u64)) (ucast (0x22 :: u64) OR MAP_FIXED) (ucast (- 1 :: u64)) 0 (kernel st) = (res, k)"
      and r: "internal_mmap K 0 PAGE_SIZE 3 0x22 (- 1) 0 st = Some (res, st')" "guest_range a PAGE_SIZE" "mmap_wf st'" "ongoing_vma_list st' = ongoing_vma_list st"
    have "a \<noteq> 0" using r(2) by (auto simp: guest_range_def page_range_def MAPPING_START_def)
    moreover have "(ucast (0x22 :: u64) OR MAP_FIXED) AND MAP_FIXED \<noteq> 0" by (simp add: MAP_FIXED_def)
    ultimately have "\<not> is_syscall_error res \<Longrightarrow> res \<noteq> 0" using K k unfolding host_kernel_def by (metis fst_conv)
    then show thesis using that r by blast
  qed simp
qed

lemma refill_ok:
  assumes wf: "mmap_wf st" and K: "host_kernel K" and on: "\<forall>d \<in> set (ongoing_vma_list st). area_in_range d" "length (ongoing_vma_list st) \<le> 40"
    and stk: "46 \<le> stock st"
  shows "case allocate_more_desc_memory_if_needed K st of None \<Rightarrow> page_refused K st | Some st' \<Rightarrow> map_ok st'"
proof -
  have "length (ended (ongoing_vma_list st)) \<le> 40" using on(2) unfolding ended_def by (meson length_filter_le order.trans)
  then have "length (ended (ongoing_vma_list st)) + 2 \<le> stock st" "length (ended (ongoing_vma_list st)) + 4 + 2 \<le> stock st" using stk by auto
  from collect_spec [OF wf K on(1) this(1)] this(2) obtain st1 where st1: "collect_ongoing_unmap K st = Some st1" "mmap_wf st1" "4 \<le> stock st1"
    "ongoing_vma_list st1 = filter (\<lambda>d. vma_kind d \<noteq> VMA_UNMAP) (ongoing_vma_list st)" by auto
  have "length (ongoing_vma_list st1) \<le> 40" using on(2) unfolding st1(4) by (meson length_filter_le order.trans)
  moreover have "\<forall>d \<in> set (ongoing_vma_list st1). area_in_range d" using on(1) st1(4) by auto
  ultimately have on1: "\<forall>d \<in> set (ongoing_vma_list st1). area_in_range d" "length (ongoing_vma_list st1) \<le> 40" by simp_all
  show ?thesis
  proof (cases "desc_next_memory st1 = 0")
    case False
    then show ?thesis using st1 on1 by (simp add: allocate_more_desc_memory_if_needed_def map_ok_def)
  next
    case True
    obtain res st2 where p: "internal_mmap K 0 PAGE_SIZE 3 0x22 (- 1) 0 st1 = Some (res, st2)" "mmap_wf st2"
      "ongoing_vma_list st2 = ongoing_vma_list st1" "\<not> is_syscall_error res \<Longrightarrow> res \<noteq> 0"
      using page_request [OF st1(2) K st1(3)] by metis
    have r: "allocate_more_desc_memory_if_needed K st = (if is_syscall_error res then None else Some (st2\<lparr>desc_next_memory := res\<rparr>))"
      using st1(1) True p(1) by (simp add: allocate_more_desc_memory_if_needed_def allocate_more_desc_memory_def assert_def)
    have "is_syscall_error res \<Longrightarrow> page_refused K st" using True p(1) st1(1) unfolding page_refused_def by blast
    moreover have "\<not> is_syscall_error res \<Longrightarrow> map_ok (st2\<lparr>desc_next_memory := res\<rparr>)"
      using p on1 by (simp add: map_ok_def mmap_wf_def)
    ultimately show ?thesis unfolding r by simp
  qed
qed

definition mmap_args :: "u64 \<Rightarrow> u64 \<Rightarrow> u64 \<Rightarrow> bool" where
  "mmap_args addr len flags \<longleftrightarrow> (if addr \<noteq> 0 \<and> (ucast flags :: u32) AND MAP_FIXED \<noteq> 0 then guest_range addr len
     else 0 < len \<and> len \<le> MAPPING_RESERVE_IN_SIGNAL_START)"

lemma internal_mmap_ok:
  assumes wf: "mmap_wf st" and a: "mmap_args addr len flags" and stk: "4 \<le> stock st"
  obtains res st' where "internal_mmap K addr len prot flags fd off st = Some (res, st')" "mmap_wf st'"
    "ongoing_vma_list st' = ongoing_vma_list st" "stock st \<le> stock st' + 4"
proof (cases "addr \<noteq> 0 \<and> (ucast flags :: u32) AND MAP_FIXED \<noteq> 0")
  case True
  then have "guest_range addr len" "(ucast flags :: u32) AND MAP_FIXED \<noteq> 0" "2 \<le> stock st" using a stk by (auto simp: mmap_args_def)
  then show thesis
  proof (rule mmap_fixed_spec [OF wf, of addr len flags K prot fd off])
    fix res k st' assume "internal_mmap K addr len prot flags fd off st = Some (res, st')" "mmap_wf st'"
      "ongoing_vma_list st' = ongoing_vma_list st" "stock st \<le> stock st' + 2"
    then show thesis using that [of res st'] by simp
  qed
next
  case False
  then have "0 < len" "len \<le> MAPPING_RESERVE_IN_SIGNAL_START" "addr = 0 \<or> (ucast flags :: u32) AND MAP_FIXED = 0" using a by (auto simp: mmap_args_def)
  then show thesis
  proof (rule mmap_anywhere_spec [OF wf _ _ _ stk, of len addr flags K prot fd off])
    fix st' assume "internal_mmap K addr len prot flags fd off st = Some (ENOMEM_64, st')" "mmap_wf st'" "kept st st'" "stock st' = stock st"
    then show thesis using that by (simp add: kept_def)
  qed (use that in blast)
qed

text \<open>The end of an entry: the reserve is refilled when its page has been used.\<close>

definition refilled :: "'k syscalls \<Rightarrow> 'k mmap_state \<Rightarrow> 'k mmap_state option \<Rightarrow> bool" where
  "refilled K st r \<longleftrightarrow> (case r of None \<Rightarrow> page_refused K st | Some st' \<Rightarrow> map_ok st')"

lemma refilled_end:
  assumes st: "map_ok st" and K: "host_kernel K" and m: "mmap_wf st'" "stock st \<le> stock st' + 4"
    and on: "\<forall>d \<in> set (ongoing_vma_list st'). area_in_range d" "length (ongoing_vma_list st') \<le> 40"
  shows "refilled K st' (allocate_more_desc_memory_if_needed K st')"
    "refilled K st' (if desc_next_memory st' = 0 then allocate_more_desc_memory_if_needed K st' else Some st')"
proof -
  have "46 \<le> stock st'" using m(2) stock_entry [of st] st by (simp add: map_ok_def)
  from refill_ok [OF m(1) K on this] show *: "refilled K st' (allocate_more_desc_memory_if_needed K st')" by (simp add: refilled_def)
  show "refilled K st' (if desc_next_memory st' = 0 then allocate_more_desc_memory_if_needed K st' else Some st')"
    using * m on by (simp add: refilled_def map_ok_def)
qed

section \<open>Moving a mapping\<close>

lemma no_wrap:
  fixes a b :: u64
  assumes "a \<le> MAPPING_RESERVE_IN_SIGNAL_START" "b \<le> MAPPING_RESERVE_IN_SIGNAL_START"
  shows "unat (a + b) = unat a + unat b"
proof -
  have "unat a \<le> 0x7000000000" "unat b \<le> 0x7000000000" using assms by (simp_all add: word_le_nat_alt MAPPING_RESERVE_IN_SIGNAL_START_def)
  then show ?thesis by (subst unat_add_lem [THEN iffD1]) auto
qed

lemma not_error: "a \<le> MAPPING_RESERVE_IN_SIGNAL_START \<Longrightarrow> \<not> is_syscall_error a"
proof
  assume a: "a \<le> MAPPING_RESERVE_IN_SIGNAL_START" and e: "is_syscall_error a"
  have "uint a = sint a mod 2 ^ 64" by (simp add: uint_sint take_bit_eq_mod)
  moreover have "sint a mod 2 ^ 64 = sint a + 2 ^ 64" using e by (intro int_mod_pos_eq [where q = "- 1"]) (auto simp: is_syscall_error_def)
  moreover have "uint a \<le> 0x7000000000" using a by (simp add: word_le_def MAPPING_RESERVE_IN_SIGNAL_START_def)
  ultimately show False using e by (simp add: is_syscall_error_def)
qed

text \<open>A mapping of whole pages, its new size and, for \<open>MREMAP_FIXED\<close>, its new place.\<close>

definition mremap_args :: "u64 \<Rightarrow> u64 \<Rightarrow> u64 \<Rightarrow> u64 \<Rightarrow> u64 \<Rightarrow> bool" where
  "mremap_args old_addr old_size new_size flags new_addr \<longleftrightarrow> page_aligned old_size \<and> old_size \<le> MAPPING_RESERVE_IN_SIGNAL_START \<and>
     page_range old_addr (old_addr + old_size) \<and> 0 < new_size \<and> new_size \<le> MAPPING_RESERVE_IN_SIGNAL_START \<and>
     ((ucast flags :: u32) AND MREMAP_FIXED \<noteq> 0 \<longrightarrow> guest_range new_addr new_size)"

text \<open>A call that returns, with a map that is still well formed and a few descriptors less.\<close>

definition returns_ok :: "nat \<Rightarrow> 'k mmap_state \<Rightarrow> (u64 \<times> 'k mmap_state) option \<Rightarrow> bool" where
  "returns_ok n st r \<longleftrightarrow> (\<exists>res st'. r = Some (res, st') \<and> mmap_wf st' \<and> ongoing_vma_list st' = ongoing_vma_list st \<and> stock st \<le> stock st' + n)"

lemma returns_ok_Some [simp]:
  "returns_ok n st (Some (res, st')) = (mmap_wf st' \<and> ongoing_vma_list st' = ongoing_vma_list st \<and> stock st \<le> stock st' + n)"
  by (simp add: returns_ok_def)

lemma wf_kernel [simp]: "mmap_wf (st\<lparr>kernel := k\<rparr>) = mmap_wf st" "stock (st\<lparr>kernel := k\<rparr>) = stock st"
  by (simp_all add: mmap_wf_def stock_def)

lemma insert_then:
  assumes "mmap_wf st" "page_range start stop" "type \<in> {VMA_MAP, VMA_UNMAP}" "2 \<le> stock st" "ongoing_vma_list st = ongoing_vma_list st0"
    and "\<And>st'. mmap_wf st' \<Longrightarrow> ongoing_vma_list st' = ongoing_vma_list st0 \<Longrightarrow> stock st \<le> stock st' + 2 \<Longrightarrow> returns_ok n st0 (f st')"
  shows "returns_ok n st0 (Option.bind (insert_area start stop type st) f)"
proof -
  obtain st' where st': "insert_area start stop type st = Some st'" "mmap_wf st'" "stock st \<le> stock st' + 2" "same_rest st st'"
    using insert_page_range [OF assms(1-4)] by blast
  have "ongoing_vma_list st' = ongoing_vma_list st0" using same_rest_kept(1) [OF st'(4)] assms(5) by (simp add: kept_def)
  then show ?thesis using st' assms(6) by simp
qed

lemma kernel_choose_then:
  assumes wf: "mmap_wf st" and len: "0 < len" "len \<le> MAPPING_RESERVE_IN_SIGNAL_START" and stk: "2 \<le> stock st"
    and on: "ongoing_vma_list st = ongoing_vma_list st0" and none: "\<And>st'. mmap_wf st' \<Longrightarrow> ongoing_vma_list st' = ongoing_vma_list st0 \<Longrightarrow>
      stock st \<le> stock st' \<Longrightarrow> returns_ok n st0 (f (ENOMEM_64, st'))"
    and room: "\<And>a st'. a \<noteq> ENOMEM_64 \<Longrightarrow> page_range a (a + PAGE_ALIGN_UP len) \<Longrightarrow> mmap_wf st' \<Longrightarrow> ongoing_vma_list st' = ongoing_vma_list st0 \<Longrightarrow>
      stock st \<le> stock st' + 2 \<Longrightarrow> returns_ok n st0 (f (a, st'))"
  shows "returns_ok n st0 (Option.bind (find_vma_with_kernel_choose len st) f)"
proof (rule search_spec [OF wf len stk, of 0])
  fix a st' assume r: "(if (0 :: u64) = 0 then find_vma_with_kernel_choose len st else find_vma_with_hint len 0 st) = Some (a, st')"
    and p: "area_placed st (PAGE_ALIGN_UP len) a st'" and "mmap_wf st'"
  moreover have "page_range a (a + PAGE_ALIGN_UP len)" using p by (simp add: area_placed_def page_range_def page_aligned_add)
  moreover have "ongoing_vma_list st' = ongoing_vma_list st0" "stock st \<le> stock st' + 2" using p on by (auto simp: area_placed_def kept_def)
  ultimately show ?thesis using room area_placed_not_ENOMEM [OF p] by simp
next
  fix st' assume "(if (0 :: u64) = 0 then find_vma_with_kernel_choose len st else find_vma_with_hint len 0 st) = Some (ENOMEM_64, st')"
    "mmap_wf st'" "kept st st'" "stock st' = stock st"
  then show ?thesis using none on by (simp add: kept_def)
qed

lemma mremap_ok:
  assumes wf: "mmap_wf st" and a: "mremap_args old_addr old_size new_size flags new_addr" and stk: "4 \<le> stock st"
  shows "returns_ok 4 st (internal_mremap K old_addr old_size new_size flags new_addr st)"
proof -
  let ?old = "PAGE_ALIGN_UP old_size" and ?new = "PAGE_ALIGN_UP new_size"
  have al: "page_aligned old_addr" "?old = old_size" and pr: "page_range old_addr (old_addr + old_size)"
    and nw: "0 < new_size" "new_size \<le> MAPPING_RESERVE_IN_SIGNAL_START" and os: "old_size \<le> MAPPING_RESERVE_IN_SIGNAL_START"
    using a by (auto simp: mremap_args_def page_range_def ALIGN_UP_aligned)
  have b: "old_addr \<le> MAPPING_RESERVE_IN_SIGNAL_START" using pr by (auto simp: page_range_def)
  have u: "PAGE_ALIGN_UP (old_addr + old_size) = old_addr + old_size" using pr by (simp add: page_range_def ALIGN_UP_aligned)
  have new: "?new \<le> MAPPING_RESERVE_IN_SIGNAL_START" using nw(2) by (rule ALIGN_UP_le)
  have new0: "0 < ?new"
  proof (rule ALIGN_UP_pos(1) [OF nw(1)])
    show "new_size \<le> - 4096" using nw(2) by (rule order.trans) (simp add: MAPPING_RESERVE_IN_SIGNAL_START_def)
  qed
  note n = no_wrap [OF b new] no_wrap [OF b os]
  have shrink: "page_range (old_addr + ?new) (old_addr + old_size)" if "?new \<le> ?old" "?old \<noteq> ?new"
  proof -
    have "?new < old_size" using that al(2) by auto
    then have "old_addr + ?new < old_addr + old_size" using n by (simp add: word_less_nat_alt)
    moreover have "MAPPING_START \<le> old_addr + ?new" using n(1) pr by (simp add: page_range_def word_le_nat_alt)
    ultimately show ?thesis using pr by (simp add: page_range_def page_aligned_add)
  qed
  have grow: "page_range (old_addr + old_size) (old_addr + ?new)" if gt: "\<not> ?new \<le> ?old" and un: "is_area_unmap (old_addr + ?old) (old_addr + ?new) st = Some True"
  proof -
    have d: "PAGE_ALIGN_DOWN (old_addr + old_size) = old_addr + old_size" using pr by (simp add: page_range_def page_aligned_def)
    obtain i where i: "find_address_owner (vma_list st) (old_addr + old_size) = Some i" "vma_kind (vma_list st ! i) = VMA_UNMAP"
      "old_addr + ?new \<le> end_addr (vma_list st ! i)"
      using un d al by (auto simp: is_area_unmap_def ALIGN_UP_aligned page_aligned_add Let_def split: bind_splits)
    have o: "vma_list st ! i \<in> set (vma_list st)" "owns (old_addr + old_size) (vma_list st ! i)" using owner_kind [OF i(1)] by simp_all
    have "end_addr (vma_list st ! i) \<le> MAPPING_RESERVE_IN_SIGNAL_START"
      using areas_ok_unmapped(3) [OF _ o(1) i(2)] wf o(2) by (auto simp: mmap_wf_def owns_def)
    then have "old_addr + ?new \<le> MAPPING_RESERVE_IN_SIGNAL_START" using i(3) by simp
    moreover have "old_addr + old_size < old_addr + ?new" using n gt al(2) by (simp add: word_less_nat_alt word_le_nat_alt)
    moreover have "MAPPING_START \<le> old_addr + old_size" using n(2) pr by (simp add: page_range_def word_le_nat_alt)
    ultimately show ?thesis using pr al(1) by (simp add: page_range_def page_aligned_add)
  qed
  have move: "returns_ok 4 st (do {
       (new_possible_addr_p, st) \<leftarrow> find_vma_with_kernel_choose new_size st1;
       if new_possible_addr_p \<noteq> ENOMEM_64
       then do {
         let (res_host, k) = sys_mremap K old_addr old_size new_size fl new_possible_addr_p (kernel st);
         let st = st\<lparr>kernel := k\<rparr>;
         if \<not> is_syscall_error res_host
         then do { st \<leftarrow> insert_unmap_area old_addr (old_addr + old_size) st; Some (new_possible_addr_p, st) }
         else do { st \<leftarrow> insert_unmap_area new_possible_addr_p (new_possible_addr_p + ?new) st; Some (res_host, st) } }
       else Some (ENOMEM_64, st) })"
    if st1: "mmap_wf st1" "stock st1 = stock st" "ongoing_vma_list st1 = ongoing_vma_list st" for st1 fl
    apply (rule kernel_choose_then)
    using st1 nw stk pr
    by (auto simp: insert_unmap_area_def Let_def split: prod.splits intro!: insert_then)
  have down: "PAGE_ALIGN_DOWN old_addr = old_addr" using al(1) by (simp add: page_aligned_def)
  have two: "2 \<le> stock st" using stk by simp
  note unf = internal_mremap_def ensure_init_wf [OF wf] Option.bind.simps(2) down Let_def al(2) u insert_map_area_def insert_unmap_area_def
  consider (invalid) "\<not> is_area_valid old_addr (old_addr + old_size) st"
    | (fixed) "is_area_valid old_addr (old_addr + old_size) st" "(ucast flags :: u32) AND MREMAP_FIXED \<noteq> 0"
    | (shrinks) "is_area_valid old_addr (old_addr + old_size) st" "\<not> (ucast flags :: u32) AND MREMAP_FIXED \<noteq> 0" "?new \<le> old_size"
    | (grows) "is_area_valid old_addr (old_addr + old_size) st" "\<not> (ucast flags :: u32) AND MREMAP_FIXED \<noteq> 0" "\<not> ?new \<le> old_size" by blast
  then show ?thesis
  proof cases
    case invalid
    then show ?thesis unfolding unf using wf by simp
  next
    case fixed
    have gr: "page_range new_addr (PAGE_ALIGN_UP (new_addr + new_size))" using a fixed(2) by (simp add: mremap_args_def guest_range_def)
    show ?thesis unfolding unf using fixed wf stk
      by (auto split: prod.splits intro!: insert_then [OF _ pr] insert_then [OF _ gr])
  next
    case shrinks
    show ?thesis unfolding unf using shrinks wf stk
      by (auto split: prod.splits intro!: insert_then [OF _ shrink [unfolded al(2)]])
  next
    case grows
    note g = grow [unfolded al(2), OF grows(3)]
    have d: "PAGE_ALIGN_DOWN (old_addr + old_size) = old_addr + old_size" using pr by (simp add: page_range_def page_aligned_def)
    have "old_addr + old_size < MAPPING_RESERVE_IN_SIGNAL_START + 4096"
      using pr by (auto simp: page_range_def intro: below_guard)
    moreover have "MAPPING_START \<le> old_addr + old_size" using n(2) pr by (simp add: page_range_def word_le_nat_alt)
    ultimately obtain i where i: "find_address_owner (vma_list st) (old_addr + old_size) = Some i"
      using wf owner_exists [of MAPPING_START "vma_list st" "MAPPING_RESERVE_IN_SIGNAL_START + 4096" "old_addr + old_size"]
      by (auto simp: mmap_wf_def areas_ok_def)
    then obtain free where fr: "is_area_unmap (old_addr + old_size) (old_addr + ?new) st = Some free"
      by (auto simp: is_area_unmap_def Let_def d)
    obtain rh k where k: "sys_mremap K old_addr old_size new_size (ucast flags AND NOT MREMAP_MAYMOVE) new_addr (kernel st) = (rh, k)" by fastforce
    have ne: "\<not> is_syscall_error old_addr" using b by (rule not_error)
    show ?thesis
    proof (cases "free \<and> \<not> is_syscall_error rh")
      case True
      then show ?thesis unfolding unf fr using grows wf two k g fr ne by (auto intro!: insert_then)
    next
      case False
      define st1 where "st1 = (if free then st\<lparr>kernel := k\<rparr> else st)"
      define res where "res = (if free then rh else ENOMEM_64)"
      have st1: "mmap_wf st1" "stock st1 = stock st" "ongoing_vma_list st1 = ongoing_vma_list st" using wf by (simp_all add: st1_def)
      have mid: "(if free then do {
           let (res_host, k) = sys_mremap K old_addr old_size new_size (ucast flags AND NOT MREMAP_MAYMOVE) new_addr (kernel st);
           let st = st\<lparr>kernel := k\<rparr>;
           if \<not> is_syscall_error res_host
           then do { st \<leftarrow> insert_area (old_addr + old_size) (old_addr + ?new) VMA_MAP st; Some (old_addr, st) }
           else Some (res_host, st) } else Some (ENOMEM_64, st)) = Some (res, st1)"
        using False k by (simp add: st1_def res_def)
      show ?thesis
        using grows wf st1 move [OF st1, unfolded Let_def insert_unmap_area_def] mid [unfolded Let_def] unfolding unf fr by simp
    qed
  qed
qed

section \<open>Sequences of entries\<close>

lemma entry_ends:
  assumes st: "map_ok st" and K: "host_kernel K" and r: "returns_ok 4 st r"
  shows "\<exists>res st1. r = Some (res, st1) \<and> refilled K st1 (allocate_more_desc_memory_if_needed K st1) \<and>
     refilled K st1 (if desc_next_memory st1 = 0 then allocate_more_desc_memory_if_needed K st1 else Some st1)"
proof -
  obtain res st1 where "r = Some (res, st1)" "mmap_wf st1" "ongoing_vma_list st1 = ongoing_vma_list st" "stock st \<le> stock st1 + 4"
    using r by (auto simp: returns_ok_def)
  with refilled_end [OF st K, of st1] st show ?thesis by (auto simp: map_ok_def)
qed

lemma entry_wf: "map_ok st \<Longrightarrow> mmap_wf st \<and> 4 \<le> stock st \<and> 2 \<le> stock st"
  using stock_entry [of st] by (auto simp: map_ok_def)

lemma returns_mmap: "map_ok st \<Longrightarrow> mmap_args addr len flags \<Longrightarrow> returns_ok 4 st (internal_mmap K addr len prot flags fd off st)"
  using internal_mmap_ok [of st addr len flags K prot fd off] entry_wf [of st] unfolding returns_ok_def by metis

lemma returns_munmap: "map_ok st \<Longrightarrow> guest_range addr len \<Longrightarrow> returns_ok 4 st (internal_munmap K addr len st)"
proof -
  assume st: "map_ok st" and r: "guest_range addr len"
  obtain res st' where "internal_munmap K addr len st = Some (res, st')" "mmap_wf st'" "ongoing_vma_list st' = ongoing_vma_list st" "stock st \<le> stock st' + 2"
    using munmap_spec [OF _ r, of st K] entry_wf [OF st] by metis
  then show ?thesis by simp
qed

lemma returns_mremap:
  "map_ok st \<Longrightarrow> mremap_args old_addr old_size new_size flags new_addr \<Longrightarrow> returns_ok 4 st (internal_mremap K old_addr old_size new_size flags new_addr st)"
  using mremap_ok entry_wf by blast

text \<open>
  What can happen to the map: the calls of the guest, in a signal handler too, those of the emulator itself,
  and the end of a thread whose stack waits.
\<close>

inductive guest_step :: "'k syscalls \<Rightarrow> 'k mmap_state \<Rightarrow> 'k mmap_state \<Rightarrow> bool" for K where
  mmap: "mmap_args (r 0) (r 1) (r 3) \<Longrightarrow> arm64_mmap K False r st = Some (res, st') \<Longrightarrow> guest_step K st st'"
| signal_mmap: "arm64_mmap K True r st = Some (res, st') \<Longrightarrow> guest_step K st st'"
| munmap: "guest_range (r 0) (r 1) \<Longrightarrow> arm64_munmap K False r st = Some (res, st') \<Longrightarrow> guest_step K st st'"
| signal_munmap: "arm64_munmap K True r st = Some (res, st') \<Longrightarrow> guest_step K st st'"
| mremap: "mremap_args (r 0) (r 1) (r 2) (r 3) (r 4) \<Longrightarrow> arm64_mremap K in_signal r st = Some (res, st') \<Longrightarrow> guest_step K st st'"
| own_mmap: "mmap_args addr len flags \<Longrightarrow> mmap_guest K addr len prot flags fd off st = Some (res, st') \<Longrightarrow> guest_step K st st'"
| own_munmap: "guest_range addr len \<Longrightarrow> munmap_guest K addr len st = Some (res, st') \<Longrightarrow> guest_step K st st'"
| stack: "guest_range addr len \<Longrightarrow> length (ongoing_vma_list st) < 40 \<Longrightarrow> munmap_guest_ongoing K addr len st = Some st' \<Longrightarrow> guest_step K st st'"
| thread_end: "i < length (ongoing_vma_list st) \<Longrightarrow>
     guest_step K st (st\<lparr>ongoing_vma_list := (ongoing_vma_list st)[i := (ongoing_vma_list st ! i)\<lparr>vma_kind := VMA_UNMAP\<rparr>]\<rparr>)"

lemma refilled_Some: "refilled K st1 (Some st') = map_ok st'"
  by (simp add: refilled_def)

lemma munmap_ongoing_ok:
  assumes st: "map_ok st" and K: "host_kernel K" and r: "guest_range addr len" "length (ongoing_vma_list st) < 40"
    and s: "munmap_guest_ongoing K addr len st = Some st'"
  shows "map_ok st'"
proof -
  have wf: "mmap_wf st" "0 < stock st" "\<forall>d \<in> set (ongoing_vma_list st). area_in_range d" using entry_wf [OF st] st by (auto simp: map_ok_def)
  let ?d = "\<lparr>vma_kind = VMA_UNMAP_ONGOING, start_addr = addr, end_addr = PAGE_ALIGN_UP (addr + len)\<rparr>"
  obtain st1 where f: "arm64_get_free_desc st = Some st1" "vma_list st1 = vma_list st" "stock st1 = stock st - 1" "same_rest st st1"
    using get_free_desc_spec [OF wf(2)] .
  note k = same_rest_kept [OF f(4)]
  let ?st = "st1\<lparr>ongoing_vma_list := ?d # ongoing_vma_list st1\<rparr>"
  have "mmap_wf ?st" "stock st \<le> stock ?st + 4" using wf f k by (auto simp: mmap_wf_def kept_def stock_def)
  moreover have "\<forall>d \<in> set (ongoing_vma_list ?st). area_in_range d" "length (ongoing_vma_list ?st) \<le> 40"
    using wf(3) k(1) r by (auto simp: kept_def area_in_range_def guest_range_def)
  moreover have "munmap_guest_ongoing K addr len st = allocate_more_desc_memory_if_needed K ?st"
    using wf(1) f(1) by (simp add: munmap_guest_ongoing_def internal_munmap_ongoing_def)
  ultimately have "refilled K ?st (munmap_guest_ongoing K addr len st)" using refilled_end(1) [OF st K, of ?st] by simp
  then show ?thesis using s by (simp add: refilled_Some)
qed

lemma guest_step_ok:
  assumes K: "host_kernel K"
  shows "guest_step K st st' \<Longrightarrow> map_ok st \<Longrightarrow> map_ok st'"
proof (induction rule: guest_step.induct)
  case (mmap r st res st')
  then show ?case using entry_ends [OF mmap(3) K returns_mmap [OF mmap(3,1), of K "r 2" "r 4" "r 5"]]
    by (auto simp: arm64_mmap_def refilled_Some split: if_splits bind_splits)
next
  case (signal_mmap r st res st')
  then show ?case
    by (auto simp: arm64_mmap_def internal_mmap_signal_def Let_def map_ok_def mmap_wf_def assert_def split: if_splits prod.splits)
next
  case (munmap r st res st')
  then show ?case using entry_ends [OF munmap(3) K returns_munmap [OF munmap(3,1), of K]]
    by (auto simp: arm64_munmap_def refilled_Some split: if_splits bind_splits)
next
  case (signal_munmap r st res st')
  then show ?case by (auto simp: arm64_munmap_def Let_def map_ok_def mmap_wf_def split: prod.splits)
next
  case (mremap r in_signal st res st')
  then show ?case using entry_ends [OF mremap(3) K returns_mremap [OF mremap(3,1), of K]]
    by (auto simp: arm64_mremap_def refilled_Some split: bind_splits)
next
  case (own_mmap addr len flags prot fd off st res st')
  then show ?case using entry_ends [OF own_mmap(3) K returns_mmap [OF own_mmap(3,1), of K prot fd off]]
    by (auto simp: mmap_guest_def refilled_Some split: bind_splits)
next
  case (own_munmap addr len st res st')
  then show ?case using entry_ends [OF own_munmap(3) K returns_munmap [OF own_munmap(3,1), of K]]
    by (auto simp: munmap_guest_def refilled_Some split: bind_splits)
next
  case (stack addr len st st')
  then show ?case using munmap_ongoing_ok [OF _ K] by blast
next
  case (thread_end i st)
  have "area_in_range ((ongoing_vma_list st ! i)\<lparr>vma_kind := VMA_UNMAP\<rparr>)"
    using thread_end by (simp add: map_ok_def area_in_range_def)
  then show ?case using thread_end set_update_subset_insert [of "ongoing_vma_list st" i]
    by (auto simp: map_ok_def mmap_wf_def)
qed

lemma guest_steps_ok:
  assumes "host_kernel K" "(guest_step K)\<^sup>*\<^sup>* st st'" "map_ok st"
  shows "map_ok st'"
  using assms(2,3) by (induction rule: rtranclp_induct) (auto intro: guest_step_ok [OF assms(1)])

end
