(* ===== verification/Sample_Map.thy ===== *)
theory Sample_Map
  imports Sample_Block Guest_Mmap_Sem
begin

text \<open>
  A host kernel that grants every call and the map at program start, on which the properties of the guest's
  memory map are applied; and inputs on which the map goes wrong.
\<close>

definition demo_kernel :: "unit syscalls" where
  "demo_kernel = \<lparr>sys_mmap = (\<lambda>a len prot flags fd off k. (a, k)), sys_munmap = (\<lambda>a len k. (0, k)),
     sys_mremap = (\<lambda>old old_size new_size flags new k. (if flags AND MREMAP_FIXED \<noteq> 0 then new else old, k)),
     sys_shmctl_segsz = (\<lambda>shmid k. (0, 4096)), sys_shmat = (\<lambda>shmid a flags k. (a, k)), sys_shmdt = (\<lambda>a k. (0, k))\<rparr>"

definition demo_map :: "unit mmap_state" where
  "demo_map = the (mmap_init (initial_mmap 4096 demo_g ()))"

text \<open>A map of one mapped area between two unmapped ones, and one with a hole between two mapped areas.\<close>

definition one_mapping :: "unit mmap_state" where
  "one_mapping = demo_map\<lparr>vma_list := [\<lparr>vma_kind = VMA_UNMAP, start_addr = 0x400000, end_addr = 0x500000\<rparr>,
     \<lparr>vma_kind = VMA_MAP, start_addr = 0x500000, end_addr = 0x600000\<rparr>,
     \<lparr>vma_kind = VMA_UNMAP, start_addr = 0x600000, end_addr = 0x7000000000\<rparr>,
     \<lparr>vma_kind = VMA_MAP, start_addr = 0x7000000000, end_addr = 0x7000001000\<rparr>]\<rparr>"

definition hole_mapping :: "unit mmap_state" where
  "hole_mapping = demo_map\<lparr>vma_list := [\<lparr>vma_kind = VMA_MAP, start_addr = 0x400000, end_addr = 0x401000\<rparr>,
     \<lparr>vma_kind = VMA_UNMAP, start_addr = 0x401000, end_addr = 0x402000\<rparr>,
     \<lparr>vma_kind = VMA_MAP, start_addr = 0x402000, end_addr = 0x403000\<rparr>,
     \<lparr>vma_kind = VMA_UNMAP, start_addr = 0x403000, end_addr = 0x7000000000\<rparr>,
     \<lparr>vma_kind = VMA_MAP, start_addr = 0x7000000000, end_addr = 0x7000001000\<rparr>]\<rparr>"

lemma demo_kernel_ok: "host_kernel demo_kernel"
  by (simp add: host_kernel_def demo_kernel_def is_syscall_error_def)

lemma demo_map_init: "mmap_init (initial_mmap 4096 demo_g ()) = Some demo_map" "map_ok demo_map" "all_caches demo_map = demo_g"
proof -
  obtain st where st: "mmap_init (initial_mmap 4096 demo_g ()) = Some st" "mmap_wf st" "desc_next_memory st = 4096" "ongoing_vma_list st = []"
    using mmap_init_wf [of 4096 demo_g "()"] by metis
  then show "mmap_init (initial_mmap 4096 demo_g ()) = Some demo_map" "map_ok demo_map" by (simp_all add: demo_map_def map_ok_def)
  show "all_caches demo_map = demo_g"
    by (simp add: demo_map_def mmap_init_def initial_mmap_def arm64_get_free_desc_def assert_def DESC_PER_PAGE_def Let_def)
qed

lemma demo_map_eq:
  "demo_map = (initial_mmap 4096 demo_g ())\<lparr>is_init := True, free_vma_list := 100, vma_list :=
     [\<lparr>vma_kind = VMA_UNMAP, start_addr = MAPPING_START, end_addr = MAPPING_RESERVE_IN_SIGNAL_START\<rparr>,
      \<lparr>vma_kind = VMA_MAP, start_addr = MAPPING_RESERVE_IN_SIGNAL_START, end_addr = MAPPING_RESERVE_IN_SIGNAL_START + 4096\<rparr>]\<rparr>"
  by (simp add: demo_map_def mmap_init_def initial_mmap_def arm64_get_free_desc_def assert_def DESC_PER_PAGE_def Let_def)

lemma demo_map_wf: "mmap_wf demo_map" "102 \<le> stock demo_map"
  using demo_map_init(2) stock_entry [of demo_map] by (simp_all add: map_ok_def)

lemma demo_pages: "page_aligned 0x500000" "page_aligned 0x600000" "page_aligned 0x1000" "PAGE_ALIGN_UP 0x600000 = 0x600000" "PAGE_ALIGN_UP 0x1000 = 0x1000"
  by (simp_all add: page_aligned_def PAGE_ALIGN_DOWN_def PAGE_ALIGN_UP_def)

lemma demo_guest_range: "guest_range 0x500000 0x100000"
  by (simp add: guest_range_def page_range_def demo_pages MAPPING_START_def MAPPING_RESERVE_IN_SIGNAL_START_def)

section \<open>Where the map goes wrong\<close>

lemmas map_compute = insert_area_def insert_map_area_def insert_unmap_area_def insert_single_def insert_span_def merge_prev_def
  arm64_get_free_desc_def allocate_more_desc_def release_desc_def is_area_valid_def owns_def Let_def assert_def one_mapping_def hole_mapping_def
  demo_map_eq initial_mmap_def PAGE_ALIGN_UP_def PAGE_ALIGN_DOWN_def ensure_init_def

text \<open>An empty range takes the whole area behind it along: the repair behind merges the wrong two areas.\<close>

lemma empty_range_unmaps:
  "map_option (\<lambda>st. kind_at (vma_list st) 0x580000) (insert_unmap_area 0x500000 0x500000 one_mapping) = Some (Some VMA_UNMAP)"
  "kind_at (vma_list one_mapping) 0x580000 = Some VMA_MAP"
  by (simp_all add: map_compute)

text \<open>A mapping duplicated by \<open>mremap\<close> with old size 0 is unmapped in the list although it stays mapped.\<close>

lemma mremap_duplicate_unmaps:
  "map_option (\<lambda>(res, st). kind_at (vma_list st) 0x580000) (internal_mremap demo_kernel 0x500000 0 0x1000 3 0x700000 one_mapping) = Some (Some VMA_UNMAP)"
  by (simp add: map_compute internal_mremap_def demo_kernel_def MREMAP_FIXED_def is_syscall_error_def)

text \<open>A mapping that closes a hole leaves three areas instead of one, so that a range across them is not valid.\<close>

lemma closed_hole_not_valid:
  "map_option (\<lambda>st. (is_area_valid 0x400000 0x403000 st, map (kind_at (vma_list st)) [0x400000, 0x401000, 0x402000]))
     (insert_map_area 0x401000 0x403000 hole_mapping) = Some (False, [Some VMA_MAP, Some VMA_MAP, Some VMA_MAP])"
  by (simp add: map_compute)

text \<open>Unmapping memory that is not in the list, such as memory mapped inside a signal handler, is fatal.\<close>

lemma munmap_outside_fatal:
  assumes wf: "mmap_wf st" and a: "MAPPING_RESERVE_IN_SIGNAL_START + 4096 \<le> addr" and ok: "\<not> is_syscall_error (fst (sys_munmap K addr len (kernel st)))"
  shows "internal_munmap K addr len st = None"
proof -
  obtain res k where k: "sys_munmap K addr len (kernel st) = (res, k)" by fastforce
  have "contig MAPPING_START (vma_list st) (MAPPING_RESERVE_IN_SIGNAL_START + 4096)" using wf by (simp add: mmap_wf_def areas_ok_def)
  then have "find_address_owner (vma_list st) addr = None" using kind_at_outside a unfolding owner_None by blast
  then show ?thesis using wf ok k by (simp add: internal_munmap_def Let_def insert_unmap_area_def insert_area_def)
qed

text \<open>A huge length moves the cursor of the signal area to address 0, and the assertion accepts it.\<close>

lemma signal_cursor_wraps:
  assumes "signal_cursor st = MAPPING_RESERVE_IN_SIGNAL_START"
  shows "map_option (\<lambda>(res, st). signal_cursor st) (internal_mmap_signal K 0 (- 0x7000000000) 3 0x22 fd 0 st) = Some 0"
  using assms by (simp add: internal_mmap_signal_def Let_def PAGE_ALIGN_UP_def MAP_FIXED_def assert_def MAPPING_RESERVE_IN_SIGNAL_START_def
    MAPPING_RESERVE_IN_SIGNAL_END_def split: prod.split)

end
