(* ===== verification/Arm64_Helpers.thy ===== *)
theory Arm64_Helpers
  imports Umeq_Prelude "HOL-Library.Signed_Division"
begin

text \<open>
  The integer helpers translated arm64 code calls: \<open>src/src/target/arm64/disassembler/arm64_helpers.c\<close> with the tables of
  \<open>arm64_crc32_tables.c\<close>. The context argument of a helper that does not use it is left out. \<open>None\<close> is an illegal
  instruction, for which the helper sends SIGILL and does not return.
\<close>

section \<open>Flags\<close>

datatype ops = OPS_ADD | OPS_SUB | OPS_LOGICAL | OPS_ADC

text \<open>The numbers of the enumeration; any other number is the default case of the switch.\<close>

definition ops_of :: "u32 \<Rightarrow> ops option" where
  "ops_of opcode = (if opcode = 0 then Some OPS_ADD else if opcode = 1 then Some OPS_SUB
     else if opcode = 2 then Some OPS_LOGICAL else if opcode = 3 then Some OPS_ADC else None)"

definition arm64_hlp_compute_next_nzcv_32 :: "u32 \<Rightarrow> u32 \<Rightarrow> u32 \<Rightarrow> u32 \<Rightarrow> u32 option" where
  "arm64_hlp_compute_next_nzcv_32 opcode op1 op2 oldnzcv =
     (let c_in = drop_bit 29 oldnzcv AND 1 in
      case map_option (\<lambda>ops. case ops of
          OPS_ADD \<Rightarrow> (let calc = op1 + op2 in
            (calc, if calc < op1 then 0x20000000 else 0, drop_bit 3 ((calc XOR op1) AND (calc XOR op2)) AND 0x10000000))
        | OPS_SUB \<Rightarrow> (let calc = op1 - op2 in
            (calc, if op1 \<ge> op2 then 0x20000000 else 0, drop_bit 3 ((op1 XOR op2) AND (op1 XOR calc)) AND 0x10000000))
        | OPS_LOGICAL \<Rightarrow> (op1, 0, 0)
        | OPS_ADC \<Rightarrow> (let calc = op1 + op2 + c_in in
            (calc, if (if c_in \<noteq> 0 then calc \<le> op1 else calc < op1) then 0x20000000 else 0,
             drop_bit 3 ((calc XOR op1) AND (calc XOR op2)) AND 0x10000000))) (ops_of opcode) of
        None \<Rightarrow> None
      | Some (calc, c, v) \<Rightarrow>
          (let n = calc AND 0x80000000; z = (if calc = 0 then 0x40000000 else 0) in
           Some (n OR z OR c OR v OR (oldnzcv AND 0x0fffffff))))"

definition arm64_hlp_compute_next_nzcv_64 :: "u32 \<Rightarrow> u64 \<Rightarrow> u64 \<Rightarrow> u32 \<Rightarrow> u32 option" where
  "arm64_hlp_compute_next_nzcv_64 opcode op1 op2 oldnzcv =
     (let c_in = drop_bit 29 oldnzcv AND 1 in
      case map_option (\<lambda>ops. case ops of
          OPS_ADD \<Rightarrow> (let calc = op1 + op2 in
            (calc, if calc < op1 then 0x20000000 else 0, ucast (drop_bit 35 ((calc XOR op1) AND (calc XOR op2)) AND 0x10000000)))
        | OPS_SUB \<Rightarrow> (let calc = op1 - op2 in
            (calc, if op1 \<ge> op2 then 0x20000000 else 0, ucast (drop_bit 35 ((op1 XOR op2) AND (op1 XOR calc)) AND 0x10000000)))
        | OPS_LOGICAL \<Rightarrow> (op1, 0, 0)
        | OPS_ADC \<Rightarrow> (let calc = op1 + op2 + ucast c_in in
            (calc, if (if c_in \<noteq> 0 then calc \<le> op1 else calc < op1) then 0x20000000 else 0,
             ucast (drop_bit 35 ((calc XOR op1) AND (calc XOR op2)) AND 0x10000000)))) (ops_of opcode) of
        None \<Rightarrow> None
      | Some (calc, c, v) \<Rightarrow>
          (let n = ucast (drop_bit 32 (calc AND 0x8000000000000000)); z = (if calc = 0 then 0x40000000 else 0) in
           Some (n OR z OR c OR v OR (oldnzcv AND 0x0fffffff))))"

definition arm64_hlp_compute_flags_pred :: "u32 \<Rightarrow> u32 \<Rightarrow> u32 option" where
  "arm64_hlp_compute_flags_pred cond nzcv =
     (let n = drop_bit 31 nzcv AND 1; z = drop_bit 30 nzcv AND 1; v = drop_bit 28 nzcv AND 1; k = drop_bit 1 cond;
          pred = (if k = 0 then Some (if nzcv AND 0x40000000 \<noteq> 0 then 1 else 0)
            else if k = 1 then Some (if nzcv AND 0x20000000 \<noteq> 0 then 1 else 0)
            else if k = 2 then Some (if nzcv AND 0x80000000 \<noteq> 0 then 1 else 0)
            else if k = 3 then Some (if nzcv AND 0x10000000 \<noteq> 0 then 1 else 0)
            else if k = 4 then Some (if nzcv AND 0x20000000 \<noteq> 0 \<and> nzcv AND 0x40000000 = 0 then 1 else 0)
            else if k = 5 then Some (if n = v then 1 else 0)
            else if k = 6 then Some (if z = 0 \<and> n = v then 1 else 0)
            else if k = 7 then Some 1
            else None)
      in map_option (\<lambda>p. if cond AND 1 \<noteq> 0 \<and> cond \<noteq> 15 then 1 - p else p) pred)"

section \<open>Bit fields\<close>

text \<open>\<open>INSN(msb, lsb)\<close>\<close>

definition INSN :: "u32 \<Rightarrow> nat \<Rightarrow> nat \<Rightarrow> u32" where
  "INSN insn msb lsb = drop_bit lsb insn AND (push_bit (msb - lsb + 1) 1 - 1)"

text \<open>
  The shift instructions of the host use the low six bits of the count, which gives the shifts of the code
  by 64 (undefined in C) their meaning.
\<close>

definition shl64 :: "u64 \<Rightarrow> int \<Rightarrow> u64" where "shl64 x n = push_bit (nat (n mod 64)) x"
definition shr64 :: "u64 \<Rightarrow> int \<Rightarrow> u64" where "shr64 x n = drop_bit (nat (n mod 64)) x"

definition arm64_hlp_compute_bitfield :: "u32 \<Rightarrow> u64 \<Rightarrow> u64 \<Rightarrow> u64 option" where
  "arm64_hlp_compute_bitfield insn rn rd = do {
     let is64 = (INSN insn 31 31 \<noteq> 0);
     let reg_size = (if is64 then 64 else 32);
     let reg_mask = (if is64 then NOT 0 else 0xffffffff);
     let R = uint (INSN insn 21 16);
     let S = uint (INSN insn 15 10);
     let (mask, diff) = (if S - R \<ge> 0
         then (if S - R < reg_size - 1 then shl64 1 (S - R + 1) - 1 else reg_mask, S - R)
         else (let m = shl64 1 (S + 1) - 1 in (shr64 m R OR shl64 m (reg_size - R), S - R + reg_size)));
     (inzero, extend) \<leftarrow> (let k = insn AND 0xFF800000 in
         if k = 0x33000000 \<or> k = 0xB3000000 then Some (False, False)
         else if k = 0x13000000 \<or> k = 0x93000000 then Some (True, True)
         else if k = 0x53000000 \<or> k = 0xD3000000 then Some (True, False)
         else None);
     let dst = (if inzero then 0 else rd);
     let src = (if is64 then rn else rn AND 0xffffffff);
     let result = shr64 src R OR shl64 src (reg_size - R);
     let topbits = shl64 (shl64 1 (reg_size - diff - 1) - 1) (diff + 1);
     let signbits = (if extend \<and> shr64 src S AND 1 \<noteq> 0 then topbits else 0);
     Some (signbits OR (result AND mask) OR (dst AND NOT mask))
   }"

section \<open>Division and multiplication\<close>

definition arm64_hlp_udiv_64 :: "u64 \<Rightarrow> u64 \<Rightarrow> u64" where
  "arm64_hlp_udiv_64 op1 op2 = (if op2 \<noteq> 0 then op1 div op2 else 0)"

definition arm64_hlp_udiv_32 :: "u32 \<Rightarrow> u32 \<Rightarrow> u32" where
  "arm64_hlp_udiv_32 op1 op2 = (if op2 \<noteq> 0 then op1 div op2 else 0)"

definition arm64_hlp_sdiv_64 :: "u64 \<Rightarrow> u64 \<Rightarrow> u64" where
  "arm64_hlp_sdiv_64 op1 op2 = (if op1 = 0x8000000000000000 \<and> op2 = NOT 0 then op1
     else if op2 \<noteq> 0 then word_of_int (sint op1 sdiv sint op2) else 0)"

definition arm64_hlp_sdiv_32 :: "u32 \<Rightarrow> u32 \<Rightarrow> u32" where
  "arm64_hlp_sdiv_32 op1 op2 = (if op1 = 0x80000000 \<and> op2 = NOT 0 then op1
     else if op2 \<noteq> 0 then word_of_int (sint op1 sdiv sint op2) else 0)"

definition arm64_hlp_umul_lsb_64 :: "u64 \<Rightarrow> u64 \<Rightarrow> u64" where "arm64_hlp_umul_lsb_64 op1 op2 = op1 * op2"
definition arm64_hlp_umul_lsb_32 :: "u32 \<Rightarrow> u32 \<Rightarrow> u32" where "arm64_hlp_umul_lsb_32 op1 op2 = op1 * op2"

definition arm64_hlp_umul_msb_64 :: "u64 \<Rightarrow> u64 \<Rightarrow> u64" where
  "arm64_hlp_umul_msb_64 op1 op2 = (let res = (ucast op1 :: u128) * ucast op2 in ucast (drop_bit 64 res))"

definition arm64_hlp_smul_msb_64 :: "u64 \<Rightarrow> u64 \<Rightarrow> u64" where
  "arm64_hlp_smul_msb_64 op1 op2 = (let res = (scast op1 :: u128) * scast op2 in ucast (signed_drop_bit 64 res))"

definition arm64_hlp_smul_lsb_64 :: "u64 \<Rightarrow> u64 \<Rightarrow> u64" where "arm64_hlp_smul_lsb_64 op1 op2 = op1 * op2"

section \<open>Exclusive accesses\<close>

text \<open>The field \<open>exclusive_value\<close> of the context, the registers and the memory.\<close>

record excl_state =
  exclusive_value :: u128
  excl_r :: "nat \<Rightarrow> u64"
  excl_mem :: memory

definition arm64_hlp_ldxr :: "u64 \<Rightarrow> u32 \<Rightarrow> excl_state \<Rightarrow> (u64 \<times> excl_state) option" where
  "arm64_hlp_ldxr address size_access st = (if size_access \<le> 3
     then (let value = read_mem (excl_mem st) address (2 ^ unat size_access) in Some (value, st\<lparr>exclusive_value := ucast value\<rparr>))
     else None)"

definition arm64_hlp_ldaxr :: "u64 \<Rightarrow> u32 \<Rightarrow> excl_state \<Rightarrow> (u64 \<times> excl_state) option" where
  "arm64_hlp_ldaxr address size_access st = arm64_hlp_ldxr address size_access st"

text \<open>\<open>__sync_bool_compare_and_swap\<close> on \<open>n\<close> bytes.\<close>

definition compare_and_swap :: "nat \<Rightarrow> u64 \<Rightarrow> u64 \<Rightarrow> u64 \<Rightarrow> memory \<Rightarrow> bool \<times> memory" where
  "compare_and_swap n address old new mem = (if read_mem mem address n = take_bit (8 * n) old
     then (True, write_mem mem address n new) else (False, mem))"

definition arm64_hlp_stxr :: "u64 \<Rightarrow> u32 \<Rightarrow> u64 \<Rightarrow> excl_state \<Rightarrow> (u32 \<times> excl_state) option" where
  "arm64_hlp_stxr address size_access value st = (if size_access \<le> 3
     then (case compare_and_swap (2 ^ unat size_access) address (ucast (exclusive_value st)) value (excl_mem st) of
         (True, mem) \<Rightarrow> Some (0, st\<lparr>excl_mem := mem\<rparr>)
       | (False, mem) \<Rightarrow> Some (1, st))
     else None)"

definition arm64_hlp_stlxr :: "u64 \<Rightarrow> u32 \<Rightarrow> u64 \<Rightarrow> excl_state \<Rightarrow> (u32 \<times> excl_state) option" where
  "arm64_hlp_stlxr address size_access value st = arm64_hlp_stxr address size_access value st"

definition arm64_hlp_ldxp_dirty :: "u32 \<Rightarrow> excl_state \<Rightarrow> excl_state option" where
  "arm64_hlp_ldxp_dirty insn st = (
     let size = INSN insn 31 30; rn = unat (INSN insn 9 5); rt = unat (INSN insn 4 0); rt2 = unat (INSN insn 14 10);
         address = excl_r st rn;
         set = (\<lambda>i v r. if i \<noteq> 31 then r(i := v) else r) in
     if size = 3
     then (let ev = push_bit 64 (ucast (read_mem (excl_mem st) (address + 8) 8)) OR ucast (read_mem (excl_mem st) address 8) in
       Some (st\<lparr>exclusive_value := ev, excl_r := set rt2 (ucast (drop_bit 64 ev)) (set rt (ucast ev) (excl_r st))\<rparr>))
     else if size = 2
     then (let ev = read_mem (excl_mem st) address 8 in
       Some (st\<lparr>exclusive_value := ucast ev, excl_r := set rt2 (take_bit 32 (drop_bit 32 ev)) (set rt (take_bit 32 ev) (excl_r st))\<rparr>))
     else None)"

definition arm64_hlp_ldaxp_dirty :: "u32 \<Rightarrow> excl_state \<Rightarrow> excl_state option" where
  "arm64_hlp_ldaxp_dirty insn st = arm64_hlp_ldxp_dirty insn st"

text \<open>The two assertions on \<open>rt\<close> and \<open>rt2\<close> also end in \<open>None\<close>.\<close>

definition arm64_hlp_stxp_dirty :: "u32 \<Rightarrow> excl_state \<Rightarrow> excl_state option" where
  "arm64_hlp_stxp_dirty insn st = (
     let size_access = INSN insn 31 30; rn = unat (INSN insn 9 5); rt = unat (INSN insn 4 0); rt2 = unat (INSN insn 14 10);
         rs = unat (INSN insn 20 16); address = excl_r st rn; r = excl_r st; ev = exclusive_value st in
     if rt = 31 \<or> rt2 = 31 then None
     else if size_access = 3
     then (case compare_and_swap 8 address (ucast ev) (r rt) (excl_mem st) of
         (True, mem) \<Rightarrow> (case compare_and_swap 8 (address + 8) (ucast (drop_bit 64 ev)) (r rt2) mem of
             (True, mem) \<Rightarrow> Some (st\<lparr>excl_mem := mem, excl_r := r(rs := 0)\<rparr>)
           | (False, mem) \<Rightarrow> Some (st\<lparr>excl_mem := mem, exclusive_value := push_bit 64 (drop_bit 64 ev) OR ucast (r rt), excl_r := r(rs := 1)\<rparr>))
       | (False, mem) \<Rightarrow> Some (st\<lparr>excl_r := r(rs := 1)\<rparr>))
     else if size_access = 2
     then (case compare_and_swap 8 address (ucast ev) (push_bit 32 (r rt2) OR (r rt AND 0xffffffff)) (excl_mem st) of
         (True, mem) \<Rightarrow> Some (st\<lparr>excl_mem := mem, excl_r := r(rs := 0)\<rparr>)
       | (False, mem) \<Rightarrow> Some (st\<lparr>excl_r := r(rs := 1)\<rparr>))
     else None)"

definition arm64_hlp_stlxp_dirty :: "u32 \<Rightarrow> excl_state \<Rightarrow> excl_state option" where
  "arm64_hlp_stlxp_dirty insn st = arm64_hlp_stxp_dirty insn st"

definition arm64_hlp_clrex :: "excl_state \<Rightarrow> excl_state" where
  "arm64_hlp_clrex st = st\<lparr>exclusive_value := NOT (NOT (exclusive_value st))\<rparr>"

section \<open>Counting bits\<close>

text \<open>The loops over \<open>i\<close> from the start index down to 0; \<open>n\<close> is the number of rounds left, so that the index is \<open>n - 1\<close>.\<close>

fun clz_from :: "u64 \<Rightarrow> nat \<Rightarrow> u64" where
  "clz_from rn 0 = 0"
| "clz_from rn (Suc i) = (if drop_bit i rn AND 1 \<noteq> 0 then 0 else 1 + clz_from rn i)"

definition arm64_hlp_clz :: "u64 \<Rightarrow> u32 \<Rightarrow> u64" where
  "arm64_hlp_clz rn start_index = clz_from rn (Suc (unat start_index))"

fun cls_from :: "u64 \<Rightarrow> u64 \<Rightarrow> nat \<Rightarrow> u64" where
  "cls_from rn sign 0 = 0"
| "cls_from rn sign (Suc i) = (if drop_bit i rn AND 1 \<noteq> sign then 0 else 1 + cls_from rn sign i)"

definition arm64_hlp_cls :: "u64 \<Rightarrow> u32 \<Rightarrow> u64" where
  "arm64_hlp_cls rn start_index = cls_from rn (drop_bit (unat start_index) rn AND 1) (unat start_index)"

section \<open>Checksums\<close>

definition crc32_table :: "u64 list" where
  "crc32_table = [
    0x00000000, 0x77073096, 0xee0e612c, 0x990951ba, 0x076dc419, 0x706af48f, 0xe963a535, 0x9e6495a3,
    0x0edb8832, 0x79dcb8a4, 0xe0d5e91e, 0x97d2d988, 0x09b64c2b, 0x7eb17cbd, 0xe7b82d07, 0x90bf1d91,
    0x1db71064, 0x6ab020f2, 0xf3b97148, 0x84be41de, 0x1adad47d, 0x6ddde4eb, 0xf4d4b551, 0x83d385c7,
    0x136c9856, 0x646ba8c0, 0xfd62f97a, 0x8a65c9ec, 0x14015c4f, 0x63066cd9, 0xfa0f3d63, 0x8d080df5,
    0x3b6e20c8, 0x4c69105e, 0xd56041e4, 0xa2677172, 0x3c03e4d1, 0x4b04d447, 0xd20d85fd, 0xa50ab56b,
    0x35b5a8fa, 0x42b2986c, 0xdbbbc9d6, 0xacbcf940, 0x32d86ce3, 0x45df5c75, 0xdcd60dcf, 0xabd13d59,
    0x26d930ac, 0x51de003a, 0xc8d75180, 0xbfd06116, 0x21b4f4b5, 0x56b3c423, 0xcfba9599, 0xb8bda50f,
    0x2802b89e, 0x5f058808, 0xc60cd9b2, 0xb10be924, 0x2f6f7c87, 0x58684c11, 0xc1611dab, 0xb6662d3d,
    0x76dc4190, 0x01db7106, 0x98d220bc, 0xefd5102a, 0x71b18589, 0x06b6b51f, 0x9fbfe4a5, 0xe8b8d433,
    0x7807c9a2, 0x0f00f934, 0x9609a88e, 0xe10e9818, 0x7f6a0dbb, 0x086d3d2d, 0x91646c97, 0xe6635c01,
    0x6b6b51f4, 0x1c6c6162, 0x856530d8, 0xf262004e, 0x6c0695ed, 0x1b01a57b, 0x8208f4c1, 0xf50fc457,
    0x65b0d9c6, 0x12b7e950, 0x8bbeb8ea, 0xfcb9887c, 0x62dd1ddf, 0x15da2d49, 0x8cd37cf3, 0xfbd44c65,
    0x4db26158, 0x3ab551ce, 0xa3bc0074, 0xd4bb30e2, 0x4adfa541, 0x3dd895d7, 0xa4d1c46d, 0xd3d6f4fb,
    0x4369e96a, 0x346ed9fc, 0xad678846, 0xda60b8d0, 0x44042d73, 0x33031de5, 0xaa0a4c5f, 0xdd0d7cc9,
    0x5005713c, 0x270241aa, 0xbe0b1010, 0xc90c2086, 0x5768b525, 0x206f85b3, 0xb966d409, 0xce61e49f,
    0x5edef90e, 0x29d9c998, 0xb0d09822, 0xc7d7a8b4, 0x59b33d17, 0x2eb40d81, 0xb7bd5c3b, 0xc0ba6cad,
    0xedb88320, 0x9abfb3b6, 0x03b6e20c, 0x74b1d29a, 0xead54739, 0x9dd277af, 0x04db2615, 0x73dc1683,
    0xe3630b12, 0x94643b84, 0x0d6d6a3e, 0x7a6a5aa8, 0xe40ecf0b, 0x9309ff9d, 0x0a00ae27, 0x7d079eb1,
    0xf00f9344, 0x8708a3d2, 0x1e01f268, 0x6906c2fe, 0xf762575d, 0x806567cb, 0x196c3671, 0x6e6b06e7,
    0xfed41b76, 0x89d32be0, 0x10da7a5a, 0x67dd4acc, 0xf9b9df6f, 0x8ebeeff9, 0x17b7be43, 0x60b08ed5,
    0xd6d6a3e8, 0xa1d1937e, 0x38d8c2c4, 0x4fdff252, 0xd1bb67f1, 0xa6bc5767, 0x3fb506dd, 0x48b2364b,
    0xd80d2bda, 0xaf0a1b4c, 0x36034af6, 0x41047a60, 0xdf60efc3, 0xa867df55, 0x316e8eef, 0x4669be79,
    0xcb61b38c, 0xbc66831a, 0x256fd2a0, 0x5268e236, 0xcc0c7795, 0xbb0b4703, 0x220216b9, 0x5505262f,
    0xc5ba3bbe, 0xb2bd0b28, 0x2bb45a92, 0x5cb36a04, 0xc2d7ffa7, 0xb5d0cf31, 0x2cd99e8b, 0x5bdeae1d,
    0x9b64c2b0, 0xec63f226, 0x756aa39c, 0x026d930a, 0x9c0906a9, 0xeb0e363f, 0x72076785, 0x05005713,
    0x95bf4a82, 0xe2b87a14, 0x7bb12bae, 0x0cb61b38, 0x92d28e9b, 0xe5d5be0d, 0x7cdcefb7, 0x0bdbdf21,
    0x86d3d2d4, 0xf1d4e242, 0x68ddb3f8, 0x1fda836e, 0x81be16cd, 0xf6b9265b, 0x6fb077e1, 0x18b74777,
    0x88085ae6, 0xff0f6a70, 0x66063bca, 0x11010b5c, 0x8f659eff, 0xf862ae69, 0x616bffd3, 0x166ccf45,
    0xa00ae278, 0xd70dd2ee, 0x4e048354, 0x3903b3c2, 0xa7672661, 0xd06016f7, 0x4969474d, 0x3e6e77db,
    0xaed16a4a, 0xd9d65adc, 0x40df0b66, 0x37d83bf0, 0xa9bcae53, 0xdebb9ec5, 0x47b2cf7f, 0x30b5ffe9,
    0xbdbdf21c, 0xcabac28a, 0x53b39330, 0x24b4a3a6, 0xbad03605, 0xcdd70693, 0x54de5729, 0x23d967bf,
    0xb3667a2e, 0xc4614ab8, 0x5d681b02, 0x2a6f2b94, 0xb40bbe37, 0xc30c8ea1, 0x5a05df1b, 0x2d02ef8d]"

definition crc32c_table :: "u64 list" where
  "crc32c_table = [
    0x00000000, 0xf26b8303, 0xe13b70f7, 0x1350f3f4, 0xc79a971f, 0x35f1141c, 0x26a1e7e8, 0xd4ca64eb,
    0x8ad958cf, 0x78b2dbcc, 0x6be22838, 0x9989ab3b, 0x4d43cfd0, 0xbf284cd3, 0xac78bf27, 0x5e133c24,
    0x105ec76f, 0xe235446c, 0xf165b798, 0x030e349b, 0xd7c45070, 0x25afd373, 0x36ff2087, 0xc494a384,
    0x9a879fa0, 0x68ec1ca3, 0x7bbcef57, 0x89d76c54, 0x5d1d08bf, 0xaf768bbc, 0xbc267848, 0x4e4dfb4b,
    0x20bd8ede, 0xd2d60ddd, 0xc186fe29, 0x33ed7d2a, 0xe72719c1, 0x154c9ac2, 0x061c6936, 0xf477ea35,
    0xaa64d611, 0x580f5512, 0x4b5fa6e6, 0xb93425e5, 0x6dfe410e, 0x9f95c20d, 0x8cc531f9, 0x7eaeb2fa,
    0x30e349b1, 0xc288cab2, 0xd1d83946, 0x23b3ba45, 0xf779deae, 0x05125dad, 0x1642ae59, 0xe4292d5a,
    0xba3a117e, 0x4851927d, 0x5b016189, 0xa96ae28a, 0x7da08661, 0x8fcb0562, 0x9c9bf696, 0x6ef07595,
    0x417b1dbc, 0xb3109ebf, 0xa0406d4b, 0x522bee48, 0x86e18aa3, 0x748a09a0, 0x67dafa54, 0x95b17957,
    0xcba24573, 0x39c9c670, 0x2a993584, 0xd8f2b687, 0x0c38d26c, 0xfe53516f, 0xed03a29b, 0x1f682198,
    0x5125dad3, 0xa34e59d0, 0xb01eaa24, 0x42752927, 0x96bf4dcc, 0x64d4cecf, 0x77843d3b, 0x85efbe38,
    0xdbfc821c, 0x2997011f, 0x3ac7f2eb, 0xc8ac71e8, 0x1c661503, 0xee0d9600, 0xfd5d65f4, 0x0f36e6f7,
    0x61c69362, 0x93ad1061, 0x80fde395, 0x72966096, 0xa65c047d, 0x5437877e, 0x4767748a, 0xb50cf789,
    0xeb1fcbad, 0x197448ae, 0x0a24bb5a, 0xf84f3859, 0x2c855cb2, 0xdeeedfb1, 0xcdbe2c45, 0x3fd5af46,
    0x7198540d, 0x83f3d70e, 0x90a324fa, 0x62c8a7f9, 0xb602c312, 0x44694011, 0x5739b3e5, 0xa55230e6,
    0xfb410cc2, 0x092a8fc1, 0x1a7a7c35, 0xe811ff36, 0x3cdb9bdd, 0xceb018de, 0xdde0eb2a, 0x2f8b6829,
    0x82f63b78, 0x709db87b, 0x63cd4b8f, 0x91a6c88c, 0x456cac67, 0xb7072f64, 0xa457dc90, 0x563c5f93,
    0x082f63b7, 0xfa44e0b4, 0xe9141340, 0x1b7f9043, 0xcfb5f4a8, 0x3dde77ab, 0x2e8e845f, 0xdce5075c,
    0x92a8fc17, 0x60c37f14, 0x73938ce0, 0x81f80fe3, 0x55326b08, 0xa759e80b, 0xb4091bff, 0x466298fc,
    0x1871a4d8, 0xea1a27db, 0xf94ad42f, 0x0b21572c, 0xdfeb33c7, 0x2d80b0c4, 0x3ed04330, 0xccbbc033,
    0xa24bb5a6, 0x502036a5, 0x4370c551, 0xb11b4652, 0x65d122b9, 0x97baa1ba, 0x84ea524e, 0x7681d14d,
    0x2892ed69, 0xdaf96e6a, 0xc9a99d9e, 0x3bc21e9d, 0xef087a76, 0x1d63f975, 0x0e330a81, 0xfc588982,
    0xb21572c9, 0x407ef1ca, 0x532e023e, 0xa145813d, 0x758fe5d6, 0x87e466d5, 0x94b49521, 0x66df1622,
    0x38cc2a06, 0xcaa7a905, 0xd9f75af1, 0x2b9cd9f2, 0xff56bd19, 0x0d3d3e1a, 0x1e6dcdee, 0xec064eed,
    0xc38d26c4, 0x31e6a5c7, 0x22b65633, 0xd0ddd530, 0x0417b1db, 0xf67c32d8, 0xe52cc12c, 0x1747422f,
    0x49547e0b, 0xbb3ffd08, 0xa86f0efc, 0x5a048dff, 0x8ecee914, 0x7ca56a17, 0x6ff599e3, 0x9d9e1ae0,
    0xd3d3e1ab, 0x21b862a8, 0x32e8915c, 0xc083125f, 0x144976b4, 0xe622f5b7, 0xf5720643, 0x07198540,
    0x590ab964, 0xab613a67, 0xb831c993, 0x4a5a4a90, 0x9e902e7b, 0x6cfbad78, 0x7fab5e8c, 0x8dc0dd8f,
    0xe330a81a, 0x115b2b19, 0x020bd8ed, 0xf0605bee, 0x24aa3f05, 0xd6c1bc06, 0xc5914ff2, 0x37faccf1,
    0x69e9f0d5, 0x9b8273d6, 0x88d28022, 0x7ab90321, 0xae7367ca, 0x5c18e4c9, 0x4f48173d, 0xbd23943e,
    0xf36e6f75, 0x0105ec76, 0x12551f82, 0xe03e9c81, 0x34f4f86a, 0xc69f7b69, 0xd5cf889d, 0x27a40b9e,
    0x79b737ba, 0x8bdcb4b9, 0x988c474d, 0x6ae7c44e, 0xbe2da0a5, 0x4c4623a6, 0x5f16d052, 0xad7d5351]"

fun crc32 :: "u64 \<Rightarrow> u8 list \<Rightarrow> u64" where
  "crc32 crc [] = crc"
| "crc32 crc (b # buf) = crc32 (crc32_table ! unat ((crc XOR ucast b) AND 0xff) XOR drop_bit 8 crc) buf"

fun crc32c :: "u64 \<Rightarrow> u8 list \<Rightarrow> u64" where
  "crc32c crc [] = crc"
| "crc32c crc (b # buf) = crc32c (crc32c_table ! unat ((crc XOR ucast b) AND 0xff) XOR drop_bit 8 crc) buf"

text \<open>On the registers \<open>r\<close>; the bytes of \<open>val\<close> in memory order.\<close>

definition arm64_hlp_dirty_crc32 :: "u32 \<Rightarrow> (nat \<Rightarrow> u64) \<Rightarrow> nat \<Rightarrow> u64" where
  "arm64_hlp_dirty_crc32 insn r = (
     let mask = [0xff, 0xffff, 0xffffffff, NOT 0 :: u64]; sz = unat (INSN insn 11 10);
         rd = unat (INSN insn 4 0); rn = unat (INSN insn 9 5); rm = unat (INSN insn 20 16);
         acc = r rn AND 0xffffffff; val = r rm AND mask ! sz; buf = map (\<lambda>i. byte i val) [0..<2 ^ sz] in
     r(rd := (if INSN insn 12 12 \<noteq> 0 then crc32c acc buf else crc32 acc buf)))"

end
