(* ===== verification/Arm64_Dis_Base.thy ===== *)
theory Arm64_Dis_Base
  imports Arm64_Helpers Jitter "HOL-Library.State_Monad"
begin

text \<open>
  The common part of the arm64 disassembler, \<open>src/src/target/arm64/disassembler/arm64_disassembler.c\<close>: the calls it makes on
  the builder of intermediate code, the accesses to guest registers and the sequences its instructions share.

  The code reaches the builder only through \<open>struct irInstructionAllocator\<close>, a table of functions that return
  registers. Here a call is recorded as an \<open>ir_op\<close> and returns the number of the next register; the jitter gives the same
  numbers when the calls are made on it. Calls nested in arguments are made from left to right, an order C leaves open.
\<close>

section \<open>Calls on the builder\<close>

record dis_state =
  dis_ops :: "ir_op list"
  dis_nregs :: nat
  is_stepin :: bool

type_synonym 'a dis = "(dis_state, 'a) state"

abbreviation ret :: "'a \<Rightarrow> 'a dis" where "ret \<equiv> State_Monad.return"

definition emit_op :: "ir_op \<Rightarrow> unit dis" where
  "emit_op i = State (\<lambda>s. ((), s\<lparr>dis_ops := dis_ops s @ [i]\<rparr>))"

definition emit_reg :: "ir_op \<Rightarrow> nat dis" where
  "emit_reg i = State (\<lambda>s. (dis_nregs s, s\<lparr>dis_ops := dis_ops s @ [i], dis_nregs := Suc (dis_nregs s)\<rparr>))"

text \<open>The calls nested in the arguments of a call.\<close>

definition call1 :: "('a \<Rightarrow> 'b dis) \<Rightarrow> 'a dis \<Rightarrow> 'b dis" where
  "call1 f p = do { a \<leftarrow> p; f a }"

definition call2 :: "('a \<Rightarrow> 'b \<Rightarrow> 'c dis) \<Rightarrow> 'a dis \<Rightarrow> 'b dis \<Rightarrow> 'c dis" where
  "call2 f p q = do { a \<leftarrow> p; b \<leftarrow> q; f a b }"

definition call3 :: "('a \<Rightarrow> 'b \<Rightarrow> 'c \<Rightarrow> 'd dis) \<Rightarrow> 'a dis \<Rightarrow> 'b dis \<Rightarrow> 'c dis \<Rightarrow> 'd dis" where
  "call3 f p q r = do { a \<leftarrow> p; b \<leftarrow> q; c \<leftarrow> r; f a b c }"

text \<open>The entries of \<open>struct irInstructionAllocator\<close> the disassembler uses.\<close>

abbreviation add_load_8 :: "nat \<Rightarrow> nat dis" where "add_load_8 a \<equiv> emit_reg (Load IR_REG_8 a)"
abbreviation add_load_16 :: "nat \<Rightarrow> nat dis" where "add_load_16 a \<equiv> emit_reg (Load IR_REG_16 a)"
abbreviation add_load_32 :: "nat \<Rightarrow> nat dis" where "add_load_32 a \<equiv> emit_reg (Load IR_REG_32 a)"
abbreviation add_load_64 :: "nat \<Rightarrow> nat dis" where "add_load_64 a \<equiv> emit_reg (Load IR_REG_64 a)"
abbreviation add_store_8 :: "nat \<Rightarrow> nat \<Rightarrow> unit dis" where "add_store_8 v a \<equiv> emit_op (Store IR_REG_8 v a)"
abbreviation add_store_16 :: "nat \<Rightarrow> nat \<Rightarrow> unit dis" where "add_store_16 v a \<equiv> emit_op (Store IR_REG_16 v a)"
abbreviation add_store_32 :: "nat \<Rightarrow> nat \<Rightarrow> unit dis" where "add_store_32 v a \<equiv> emit_op (Store IR_REG_32 v a)"
abbreviation add_store_64 :: "nat \<Rightarrow> nat \<Rightarrow> unit dis" where "add_store_64 v a \<equiv> emit_op (Store IR_REG_64 v a)"
abbreviation add_add_32 :: "nat \<Rightarrow> nat \<Rightarrow> nat dis" where "add_add_32 x y \<equiv> emit_reg (Add IR_REG_32 x y)"
abbreviation add_add_64 :: "nat \<Rightarrow> nat \<Rightarrow> nat dis" where "add_add_64 x y \<equiv> emit_reg (Add IR_REG_64 x y)"
abbreviation add_sub_32 :: "nat \<Rightarrow> nat \<Rightarrow> nat dis" where "add_sub_32 x y \<equiv> emit_reg (Sub IR_REG_32 x y)"
abbreviation add_sub_64 :: "nat \<Rightarrow> nat \<Rightarrow> nat dis" where "add_sub_64 x y \<equiv> emit_reg (Sub IR_REG_64 x y)"
abbreviation add_xor_32 :: "nat \<Rightarrow> nat \<Rightarrow> nat dis" where "add_xor_32 x y \<equiv> emit_reg (Xor IR_REG_32 x y)"
abbreviation add_xor_64 :: "nat \<Rightarrow> nat \<Rightarrow> nat dis" where "add_xor_64 x y \<equiv> emit_reg (Xor IR_REG_64 x y)"
abbreviation add_and_32 :: "nat \<Rightarrow> nat \<Rightarrow> nat dis" where "add_and_32 x y \<equiv> emit_reg (And IR_REG_32 x y)"
abbreviation add_and_64 :: "nat \<Rightarrow> nat \<Rightarrow> nat dis" where "add_and_64 x y \<equiv> emit_reg (And IR_REG_64 x y)"
abbreviation add_or_32 :: "nat \<Rightarrow> nat \<Rightarrow> nat dis" where "add_or_32 x y \<equiv> emit_reg (Or IR_REG_32 x y)"
abbreviation add_or_64 :: "nat \<Rightarrow> nat \<Rightarrow> nat dis" where "add_or_64 x y \<equiv> emit_reg (Or IR_REG_64 x y)"
abbreviation add_shl_32 :: "nat \<Rightarrow> nat \<Rightarrow> nat dis" where "add_shl_32 x y \<equiv> emit_reg (Shl IR_REG_32 x y)"
abbreviation add_shl_64 :: "nat \<Rightarrow> nat \<Rightarrow> nat dis" where "add_shl_64 x y \<equiv> emit_reg (Shl IR_REG_64 x y)"
abbreviation add_shr_32 :: "nat \<Rightarrow> nat \<Rightarrow> nat dis" where "add_shr_32 x y \<equiv> emit_reg (Shr IR_REG_32 x y)"
abbreviation add_shr_64 :: "nat \<Rightarrow> nat \<Rightarrow> nat dis" where "add_shr_64 x y \<equiv> emit_reg (Shr IR_REG_64 x y)"
abbreviation add_asr_32 :: "nat \<Rightarrow> nat \<Rightarrow> nat dis" where "add_asr_32 x y \<equiv> emit_reg (Asr IR_REG_32 x y)"
abbreviation add_asr_64 :: "nat \<Rightarrow> nat \<Rightarrow> nat dis" where "add_asr_64 x y \<equiv> emit_reg (Asr IR_REG_64 x y)"
abbreviation add_ror_32 :: "nat \<Rightarrow> nat \<Rightarrow> nat dis" where "add_ror_32 x y \<equiv> emit_reg (Ror IR_REG_32 x y)"
abbreviation add_ror_64 :: "nat \<Rightarrow> nat \<Rightarrow> nat dis" where "add_ror_64 x y \<equiv> emit_reg (Ror IR_REG_64 x y)"
abbreviation add_cmpeq_32 :: "nat \<Rightarrow> nat \<Rightarrow> nat dis" where "add_cmpeq_32 x y \<equiv> emit_reg (Cmpeq IR_REG_32 x y)"
abbreviation add_cmpeq_64 :: "nat \<Rightarrow> nat \<Rightarrow> nat dis" where "add_cmpeq_64 x y \<equiv> emit_reg (Cmpeq IR_REG_64 x y)"
abbreviation add_cmpne_32 :: "nat \<Rightarrow> nat \<Rightarrow> nat dis" where "add_cmpne_32 x y \<equiv> emit_reg (Cmpne IR_REG_32 x y)"
abbreviation add_cmpne_64 :: "nat \<Rightarrow> nat \<Rightarrow> nat dis" where "add_cmpne_64 x y \<equiv> emit_reg (Cmpne IR_REG_64 x y)"
abbreviation add_ite_32 :: "nat \<Rightarrow> nat \<Rightarrow> nat \<Rightarrow> nat dis" where "add_ite_32 p x y \<equiv> emit_reg (Ite IR_REG_32 p x y)"
abbreviation add_ite_64 :: "nat \<Rightarrow> nat \<Rightarrow> nat \<Rightarrow> nat dis" where "add_ite_64 p x y \<equiv> emit_reg (Ite IR_REG_64 p x y)"
abbreviation add_8U_to_64 :: "nat \<Rightarrow> nat dis" where "add_8U_to_64 x \<equiv> emit_reg (Cast IR_CAST_8U_TO_64 x)"
abbreviation add_8S_to_32 :: "nat \<Rightarrow> nat dis" where "add_8S_to_32 x \<equiv> emit_reg (Cast IR_CAST_8S_TO_32 x)"
abbreviation add_8S_to_64 :: "nat \<Rightarrow> nat dis" where "add_8S_to_64 x \<equiv> emit_reg (Cast IR_CAST_8S_TO_64 x)"
abbreviation add_16U_to_64 :: "nat \<Rightarrow> nat dis" where "add_16U_to_64 x \<equiv> emit_reg (Cast IR_CAST_16U_TO_64 x)"
abbreviation add_16S_to_32 :: "nat \<Rightarrow> nat dis" where "add_16S_to_32 x \<equiv> emit_reg (Cast IR_CAST_16S_TO_32 x)"
abbreviation add_16S_to_64 :: "nat \<Rightarrow> nat dis" where "add_16S_to_64 x \<equiv> emit_reg (Cast IR_CAST_16S_TO_64 x)"
abbreviation add_32U_to_64 :: "nat \<Rightarrow> nat dis" where "add_32U_to_64 x \<equiv> emit_reg (Cast IR_CAST_32U_TO_64 x)"
abbreviation add_32S_to_64 :: "nat \<Rightarrow> nat dis" where "add_32S_to_64 x \<equiv> emit_reg (Cast IR_CAST_32S_TO_64 x)"
abbreviation add_64_to_8 :: "nat \<Rightarrow> nat dis" where "add_64_to_8 x \<equiv> emit_reg (Cast IR_CAST_64_TO_8 x)"
abbreviation add_64_to_16 :: "nat \<Rightarrow> nat dis" where "add_64_to_16 x \<equiv> emit_reg (Cast IR_CAST_64_TO_16 x)"
abbreviation add_64_to_32 :: "nat \<Rightarrow> nat dis" where "add_64_to_32 x \<equiv> emit_reg (Cast IR_CAST_64_TO_32 x)"
abbreviation add_32_to_8 :: "nat \<Rightarrow> nat dis" where "add_32_to_8 x \<equiv> emit_reg (Cast IR_CAST_32_TO_8 x)"
abbreviation add_32_to_16 :: "nat \<Rightarrow> nat dis" where "add_32_to_16 x \<equiv> emit_reg (Cast IR_CAST_32_TO_16 x)"
abbreviation add_read_context_8 :: "nat \<Rightarrow> nat dis" where "add_read_context_8 off \<equiv> emit_reg (Read_context IR_REG_8 (of_nat off))"
abbreviation add_read_context_16 :: "nat \<Rightarrow> nat dis" where "add_read_context_16 off \<equiv> emit_reg (Read_context IR_REG_16 (of_nat off))"
abbreviation add_read_context_32 :: "nat \<Rightarrow> nat dis" where "add_read_context_32 off \<equiv> emit_reg (Read_context IR_REG_32 (of_nat off))"
abbreviation add_read_context_64 :: "nat \<Rightarrow> nat dis" where "add_read_context_64 off \<equiv> emit_reg (Read_context IR_REG_64 (of_nat off))"
abbreviation add_write_context_8 :: "nat \<Rightarrow> nat \<Rightarrow> unit dis" where "add_write_context_8 v off \<equiv> emit_op (Write_context IR_REG_8 v (of_nat off))"
abbreviation add_write_context_16 :: "nat \<Rightarrow> nat \<Rightarrow> unit dis" where "add_write_context_16 v off \<equiv> emit_op (Write_context IR_REG_16 v (of_nat off))"
abbreviation add_write_context_32 :: "nat \<Rightarrow> nat \<Rightarrow> unit dis" where "add_write_context_32 v off \<equiv> emit_op (Write_context IR_REG_32 v (of_nat off))"
abbreviation add_write_context_64 :: "nat \<Rightarrow> nat \<Rightarrow> unit dis" where "add_write_context_64 v off \<equiv> emit_op (Write_context IR_REG_64 v (of_nat off))"

section \<open>The guest context\<close>

text \<open>
  What the disassembler uses of its context: the address of the instruction, and the host addresses of the
  helpers, which the link decides. \<open>is_stepin\<close> is in the state because the code clears it.
\<close>

record dis_context =
  ctx_pc :: u64
  hlp_addr :: "string \<Rightarrow> u64"

text \<open>\<open>struct arm64_registers\<close>: the offsets of its fields on the x86_64 host.\<close>

definition off_r :: "nat \<Rightarrow> nat" where "off_r i = 8 * i"
definition off_pc :: nat where "off_pc = 256"
definition off_v :: "nat \<Rightarrow> nat" where "off_v i = 272 + 16 * i"
definition off_tpidr_el0 :: nat where "off_tpidr_el0 = 784"
definition off_nzcv :: nat where "off_nzcv = 804"
definition off_helper_pc :: nat where "off_helper_pc = 832"

definition ZERO_REG :: bool where "ZERO_REG = True"
definition SP_REG :: bool where "SP_REG = False"

section \<open>Sequences\<close>

definition mk_8 :: "u8 \<Rightarrow> nat dis" where "mk_8 value = emit_reg (Mov_const IR_REG_8 (ucast value))"
definition mk_32 :: "u32 \<Rightarrow> nat dis" where "mk_32 value = emit_reg (Mov_const IR_REG_32 (ucast value))"
definition mk_64 :: "u64 \<Rightarrow> nat dis" where "mk_64 value = emit_reg (Mov_const IR_REG_64 value)"

definition mk_call_void :: "dis_context \<Rightarrow> string \<Rightarrow> nat dis \<Rightarrow> nat option list \<Rightarrow> unit dis" where
  "mk_call_void c name address params = do {
     address \<leftarrow> address;
     p \<leftarrow> mk_64 (ctx_pc c);
     add_write_context_64 p off_helper_pc;
     emit_op (Call None name address params);
     z \<leftarrow> mk_64 0;
     add_write_context_64 z off_helper_pc
   }"

definition mk_call_32 :: "dis_context \<Rightarrow> string \<Rightarrow> nat dis \<Rightarrow> nat option list \<Rightarrow> nat dis" where
  "mk_call_32 c name address params = do {
     address \<leftarrow> address;
     p \<leftarrow> mk_64 (ctx_pc c);
     add_write_context_64 p off_helper_pc;
     res \<leftarrow> emit_reg (Call (Some IR_REG_32) name address params);
     z \<leftarrow> mk_64 0;
     add_write_context_64 z off_helper_pc;
     ret res
   }"

definition mk_call_64 :: "dis_context \<Rightarrow> string \<Rightarrow> nat dis \<Rightarrow> nat option list \<Rightarrow> nat dis" where
  "mk_call_64 c name address params = do {
     address \<leftarrow> address;
     p \<leftarrow> mk_64 (ctx_pc c);
     add_write_context_64 p off_helper_pc;
     res \<leftarrow> emit_reg (Call (Some IR_REG_64) name address params);
     z \<leftarrow> mk_64 0;
     add_write_context_64 z off_helper_pc;
     ret res
   }"

text \<open>The call of a helper whose only argument is the instruction.\<close>

definition mk_dirty :: "dis_context \<Rightarrow> string \<Rightarrow> u32 \<Rightarrow> unit dis" where
  "mk_dirty c name insn = do {
     p0 \<leftarrow> mk_32 insn;
     mk_call_void c name (mk_64 (hlp_addr c name)) [Some p0, None, None, None]
   }"

definition read_x :: "nat \<Rightarrow> bool \<Rightarrow> nat dis" where
  "read_x index is_zero = (if index = 31 \<and> is_zero then mk_64 0 else add_read_context_64 (off_r index))"

definition write_x :: "nat \<Rightarrow> nat \<Rightarrow> bool \<Rightarrow> unit dis" where
  "write_x index value is_zero = (if index = 31 \<and> is_zero then ret () else add_write_context_64 value (off_r index))"

definition read_w :: "nat \<Rightarrow> bool \<Rightarrow> nat dis" where
  "read_w index is_zero = (if index = 31 \<and> is_zero then mk_32 0 else add_read_context_32 (off_r index))"

definition write_w :: "nat \<Rightarrow> nat \<Rightarrow> bool \<Rightarrow> unit dis" where
  "write_w index value is_zero = (if index = 31 \<and> is_zero then ret ()
     else do { x \<leftarrow> add_32U_to_64 value; add_write_context_64 x (off_r index) })"

definition write_w_sign_extend :: "nat \<Rightarrow> nat \<Rightarrow> bool \<Rightarrow> unit dis" where
  "write_w_sign_extend index value is_zero = (if index = 31 \<and> is_zero then ret ()
     else do { x \<leftarrow> add_32S_to_64 value; add_write_context_64 x (off_r index) })"

text \<open>The halves \<open>v[index].v.lsb\<close>, \<open>v[index].v.msb\<close> and the elements \<open>d\<close>, \<open>s\<close>, \<open>h\<close>, \<open>b\<close> of a vector register.\<close>

definition write_v_lsb :: "nat \<Rightarrow> nat \<Rightarrow> unit dis" where "write_v_lsb index value = add_write_context_64 value (off_v index)"
definition write_v_msb :: "nat \<Rightarrow> nat \<Rightarrow> unit dis" where "write_v_msb index value = add_write_context_64 value (off_v index + 8)"
definition read_v_lsb :: "nat \<Rightarrow> nat dis" where "read_v_lsb index = add_read_context_64 (off_v index)"
definition read_v_msb :: "nat \<Rightarrow> nat dis" where "read_v_msb index = add_read_context_64 (off_v index + 8)"

definition write_d :: "nat \<Rightarrow> nat \<Rightarrow> unit dis" where "write_d index value = add_write_context_64 value (off_v index)"
definition write_d_by_index :: "nat \<Rightarrow> nat \<Rightarrow> nat \<Rightarrow> unit dis" where
  "write_d_by_index no index value = add_write_context_64 value (off_v no + 8 * index)"
definition read_d :: "nat \<Rightarrow> nat dis" where "read_d index = add_read_context_64 (off_v index)"
definition read_d_by_index :: "nat \<Rightarrow> nat \<Rightarrow> nat dis" where "read_d_by_index no index = add_read_context_64 (off_v no + 8 * index)"

definition write_s :: "nat \<Rightarrow> nat \<Rightarrow> unit dis" where
  "write_s index value = do { x \<leftarrow> add_32U_to_64 value; add_write_context_64 x (off_v index) }"
definition write_s_by_index :: "nat \<Rightarrow> nat \<Rightarrow> nat \<Rightarrow> unit dis" where
  "write_s_by_index no index value = add_write_context_32 value (off_v no + 4 * index)"
definition read_s :: "nat \<Rightarrow> nat dis" where "read_s index = add_read_context_32 (off_v index)"
definition read_s_by_index :: "nat \<Rightarrow> nat \<Rightarrow> nat dis" where "read_s_by_index no index = add_read_context_32 (off_v no + 4 * index)"

definition write_h :: "nat \<Rightarrow> nat \<Rightarrow> unit dis" where
  "write_h index value = do { x \<leftarrow> add_16U_to_64 value; add_write_context_64 x (off_v index) }"
definition write_h_by_index :: "nat \<Rightarrow> nat \<Rightarrow> nat \<Rightarrow> unit dis" where
  "write_h_by_index no index value = add_write_context_16 value (off_v no + 2 * index)"
definition read_h :: "nat \<Rightarrow> nat dis" where "read_h index = add_read_context_16 (off_v index)"
definition read_h_by_index :: "nat \<Rightarrow> nat \<Rightarrow> nat dis" where "read_h_by_index no index = add_read_context_16 (off_v no + 2 * index)"

definition write_b :: "nat \<Rightarrow> nat \<Rightarrow> unit dis" where
  "write_b index value = do { x \<leftarrow> add_8U_to_64 value; add_write_context_64 x (off_v index) }"
definition write_b_by_index :: "nat \<Rightarrow> nat \<Rightarrow> nat \<Rightarrow> unit dis" where
  "write_b_by_index no index value = add_write_context_8 value (off_v no + index)"
definition read_b :: "nat \<Rightarrow> nat dis" where "read_b index = add_read_context_8 (off_v index)"
definition read_b_by_index :: "nat \<Rightarrow> nat \<Rightarrow> nat dis" where "read_b_by_index no index = add_read_context_8 (off_v no + index)"

definition write_pc :: "nat \<Rightarrow> unit dis" where "write_pc value = add_write_context_64 value off_pc"
definition read_nzcv :: "nat dis" where "read_nzcv = add_read_context_32 off_nzcv"
definition write_nzcv :: "nat \<Rightarrow> unit dis" where "write_nzcv value = add_write_context_32 value off_nzcv"

definition mk_ror_imm_64 :: "nat \<Rightarrow> u8 \<Rightarrow> nat dis" where "mk_ror_imm_64 op rotation = call2 add_ror_64 (ret op) (mk_8 rotation)"
definition mk_ror_imm_32 :: "nat \<Rightarrow> u8 \<Rightarrow> nat dis" where "mk_ror_imm_32 op rotation = call2 add_ror_32 (ret op) (mk_8 rotation)"

text \<open>The number of an operation, as \<open>enum ops\<close> has it.\<close>

definition ops_number :: "ops \<Rightarrow> u32" where
  "ops_number k = (case k of OPS_ADD \<Rightarrow> 0 | OPS_SUB \<Rightarrow> 1 | OPS_LOGICAL \<Rightarrow> 2 | OPS_ADC \<Rightarrow> 3)"

definition mk_next_nzcv_64 :: "dis_context \<Rightarrow> ops \<Rightarrow> nat \<Rightarrow> nat \<Rightarrow> nat dis" where
  "mk_next_nzcv_64 c k op1 op2 = do {
     p0 \<leftarrow> mk_32 (ops_number k);
     p3 \<leftarrow> read_nzcv;
     mk_call_32 c ''arm64_hlp_compute_next_nzcv_64'' (mk_64 (hlp_addr c ''arm64_hlp_compute_next_nzcv_64'')) [Some p0, Some op1, Some op2, Some p3]
   }"

definition mk_next_nzcv_32 :: "dis_context \<Rightarrow> ops \<Rightarrow> nat \<Rightarrow> nat \<Rightarrow> nat dis" where
  "mk_next_nzcv_32 c k op1 op2 = do {
     p0 \<leftarrow> mk_32 (ops_number k);
     p3 \<leftarrow> read_nzcv;
     mk_call_32 c ''arm64_hlp_compute_next_nzcv_32'' (mk_64 (hlp_addr c ''arm64_hlp_compute_next_nzcv_32'')) [Some p0, Some op1, Some op2, Some p3]
   }"

text \<open>\<open>mk_extend_reg_64\<close> and \<open>mk_extend_reg_32\<close>. The type is a field of three bits, so that the default case, NULL, is never met.\<close>

definition mk_extend_reg_64 :: "nat \<Rightarrow> nat \<Rightarrow> nat \<Rightarrow> nat dis" where
  "mk_extend_reg_64 rm type shift = do {
     unshifted \<leftarrow> (
       if type = 0 then call2 add_and_64 (read_x rm ZERO_REG) (mk_64 0xff)
       else if type = 1 then call2 add_and_64 (read_x rm ZERO_REG) (mk_64 0xffff)
       else if type = 2 then call2 add_and_64 (read_x rm ZERO_REG) (mk_64 0xffffffff)
       else if type = 4 then call2 add_asr_64 (call2 add_shl_64 (read_x rm ZERO_REG) (mk_8 56)) (mk_8 56)
       else if type = 5 then call2 add_asr_64 (call2 add_shl_64 (read_x rm ZERO_REG) (mk_8 48)) (mk_8 48)
       else if type = 6 then call2 add_asr_64 (call2 add_shl_64 (read_x rm ZERO_REG) (mk_8 32)) (mk_8 32)
       else read_x rm ZERO_REG);
     if shift \<noteq> 0 then call2 add_shl_64 (ret unshifted) (mk_8 (of_nat shift)) else ret unshifted
   }"

definition mk_extend_reg_32 :: "nat \<Rightarrow> nat \<Rightarrow> nat \<Rightarrow> nat dis" where
  "mk_extend_reg_32 rm type shift = do {
     unshifted \<leftarrow> (
       if type = 0 then call2 add_and_32 (read_w rm ZERO_REG) (mk_32 0xff)
       else if type = 1 then call2 add_and_32 (read_w rm ZERO_REG) (mk_32 0xffff)
       else if type = 4 then call2 add_asr_32 (call2 add_shl_32 (read_w rm ZERO_REG) (mk_8 24)) (mk_8 24)
       else if type = 5 then call2 add_asr_32 (call2 add_shl_32 (read_w rm ZERO_REG) (mk_8 16)) (mk_8 16)
       else read_w rm ZERO_REG);
     if shift \<noteq> 0 then call2 add_shl_32 (ret unshifted) (mk_8 (of_nat shift)) else ret unshifted
   }"

text \<open>The multiplications.\<close>

definition mk_mul_u_lsb_64 :: "dis_context \<Rightarrow> nat \<Rightarrow> nat \<Rightarrow> nat dis" where
  "mk_mul_u_lsb_64 c op1 op2 = mk_call_64 c ''arm64_hlp_umul_lsb_64'' (mk_64 (hlp_addr c ''arm64_hlp_umul_lsb_64'')) [Some op1, Some op2, None, None]"
definition mk_mul_u_lsb_32 :: "dis_context \<Rightarrow> nat \<Rightarrow> nat \<Rightarrow> nat dis" where
  "mk_mul_u_lsb_32 c op1 op2 = mk_call_32 c ''arm64_hlp_umul_lsb_32'' (mk_64 (hlp_addr c ''arm64_hlp_umul_lsb_32'')) [Some op1, Some op2, None, None]"
definition mk_mul_u_msb_64 :: "dis_context \<Rightarrow> nat \<Rightarrow> nat \<Rightarrow> nat dis" where
  "mk_mul_u_msb_64 c op1 op2 = mk_call_64 c ''arm64_hlp_umul_msb_64'' (mk_64 (hlp_addr c ''arm64_hlp_umul_msb_64'')) [Some op1, Some op2, None, None]"
definition mk_mul_s_msb_64 :: "dis_context \<Rightarrow> nat \<Rightarrow> nat \<Rightarrow> nat dis" where
  "mk_mul_s_msb_64 c op1 op2 = mk_call_64 c ''arm64_hlp_smul_msb_64'' (mk_64 (hlp_addr c ''arm64_hlp_smul_msb_64'')) [Some op1, Some op2, None, None]"
definition mk_mul_s_lsb_64 :: "dis_context \<Rightarrow> nat \<Rightarrow> nat \<Rightarrow> nat dis" where
  "mk_mul_s_lsb_64 c op1 op2 = mk_call_64 c ''arm64_hlp_smul_lsb_64'' (mk_64 (hlp_addr c ''arm64_hlp_smul_lsb_64'')) [Some op1, Some op2, None, None]"

definition mk_barrier :: "dis_context \<Rightarrow> unit dis" where
  "mk_barrier c = mk_call_void c ''arm64_hlp_memory_barrier'' (mk_64 (hlp_addr c ''arm64_hlp_memory_barrier'')) [None, None, None, None]"
definition mk_gdb_breakpoint_instruction :: "dis_context \<Rightarrow> unit dis" where
  "mk_gdb_breakpoint_instruction c =
     mk_call_void c ''arm64_gdb_breakpoint_instruction'' (mk_64 (hlp_addr c ''arm64_gdb_breakpoint_instruction'')) [None, None, None, None]"
definition mk_gdb_stepin_instruction :: "dis_context \<Rightarrow> unit dis" where
  "mk_gdb_stepin_instruction c =
     mk_call_void c ''arm64_gdb_stepin_instruction'' (mk_64 (hlp_addr c ''arm64_gdb_stepin_instruction'')) [None, None, None, None]"

text \<open>\<open>fatal_illegal_opcode\<close>, and \<open>assert_illegal_opcode\<close> on its failing branch: the breakpoint helper is called and the function returns 1.\<close>

definition illegal_opcode :: "dis_context \<Rightarrow> bool dis" where
  "illegal_opcode c = do { mk_gdb_breakpoint_instruction c; ret True }"

definition stepin_exit :: "dis_context \<Rightarrow> unit dis" where
  "stepin_exit c = do {
     s \<leftarrow> State_Monad.get;
     if is_stepin s then do {
       mk_gdb_stepin_instruction c;
       State_Monad.update (\<lambda>s. s\<lparr>is_stepin := False\<rparr>)
     } else ret ()
   }"

definition mk_exit :: "dis_context \<Rightarrow> nat \<Rightarrow> unit dis" where
  "mk_exit c next_pc = do {
     write_pc next_pc;
     stepin_exit c;
     emit_op (Exit next_pc)
   }"

definition mk_exit_pred :: "dis_context \<Rightarrow> nat \<Rightarrow> nat \<Rightarrow> unit dis" where
  "mk_exit_pred c next_pc pred = do {
     write_pc next_pc;
     stepin_exit c;
     emit_op (Exit_cond next_pc (Some pred))
   }"

definition write_fpsr :: "dis_context \<Rightarrow> nat \<Rightarrow> unit dis" where
  "write_fpsr c value = mk_call_void c ''arm64_hlp_write_fpsr'' (mk_64 (hlp_addr c ''arm64_hlp_write_fpsr'')) [Some value, None, None, None]"
definition read_fpsr :: "dis_context \<Rightarrow> nat dis" where
  "read_fpsr c = mk_call_32 c ''arm64_hlp_read_fpsr'' (mk_64 (hlp_addr c ''arm64_hlp_read_fpsr'')) [None, None, None, None]"
definition write_fpcr :: "dis_context \<Rightarrow> nat \<Rightarrow> unit dis" where
  "write_fpcr c value = mk_call_void c ''arm64_hlp_write_fpcr'' (mk_64 (hlp_addr c ''arm64_hlp_write_fpcr'')) [Some value, None, None, None]"
definition read_fpcr :: "dis_context \<Rightarrow> nat dis" where
  "read_fpcr c = mk_call_32 c ''arm64_hlp_read_fpcr'' (mk_64 (hlp_addr c ''arm64_hlp_read_fpcr'')) [None, None, None, None]"

section \<open>Fields of an instruction\<close>

text \<open>\<open>int x = INSN(msb, lsb)\<close> as a number, and as a truth value.\<close>

abbreviation fld :: "u32 \<Rightarrow> nat \<Rightarrow> nat \<Rightarrow> nat" where "fld insn msb lsb \<equiv> unat (INSN insn msb lsb)"
abbreviation flag :: "u32 \<Rightarrow> nat \<Rightarrow> bool" where "flag insn k \<equiv> INSN insn k k \<noteq> 0"

text \<open>\<open>(x << n) >> n\<close> on a signed 64-bit value.\<close>

definition sext :: "nat \<Rightarrow> u64 \<Rightarrow> u64" where "sext n x = signed_drop_bit n (push_bit n x)"

end
