(* ===== verification/Dis_Replay.thy ===== *)
theory Dis_Replay
  imports Be_X86_64 Arm64_Dis_Base
begin

text \<open>
  What recorded calls do when they are made on the jitter: \<open>replay\<close> runs them, and when every call respects the assertions
  of the builder, which \<open>ops_ok\<close> checks on the types of the registers, the jitter ends with the instructions of
  \<open>ops_insns\<close>.
\<close>

section \<open>One call\<close>

fun op_type :: "irRegisterType list \<Rightarrow> ir_op \<Rightarrow> irRegisterType option" where
  "op_type ts (Mov_const t v) = Some t"
| "op_type ts (Load t a) = Some t"
| "op_type ts (Store t s a) = None"
| "op_type ts (Add t x y) = Some t"
| "op_type ts (Sub t x y) = Some t"
| "op_type ts (Xor t x y) = Some t"
| "op_type ts (And t x y) = Some t"
| "op_type ts (Or t x y) = Some t"
| "op_type ts (Shl t x y) = Some t"
| "op_type ts (Shr t x y) = Some t"
| "op_type ts (Asr t x y) = Some t"
| "op_type ts (Ror t x y) = Some t"
| "op_type ts (Cmpeq t x y) = Some t"
| "op_type ts (Cmpne t x y) = Some t"
| "op_type ts (Call t nm a ps) = t"
| "op_type ts (Ite t p x y) = Some (ts ! x)"
| "op_type ts (Cast c x) = Some (snd (cast_types c))"
| "op_type ts (Exit v) = None"
| "op_type ts (Exit_cond v p) = None"
| "op_type ts (Read_context t off) = Some t"
| "op_type ts (Write_context t s off) = None"
| "op_type ts (Insn_marker v) = None"

fun op_insn :: "ir_op \<Rightarrow> nat \<Rightarrow> irInstruction" where
  "op_insn (Mov_const t v) d = IR_MOV_CONST t d v"
| "op_insn (Load t a) d = IR_LOAD t d a"
| "op_insn (Store t s a) d = IR_STORE t s a"
| "op_insn (Add t x y) d = IR_BINOP IR_BINOP_ADD t d x y"
| "op_insn (Sub t x y) d = IR_BINOP IR_BINOP_SUB t d x y"
| "op_insn (Xor t x y) d = IR_BINOP IR_BINOP_XOR t d x y"
| "op_insn (And t x y) d = IR_BINOP IR_BINOP_AND t d x y"
| "op_insn (Or t x y) d = IR_BINOP IR_BINOP_OR t d x y"
| "op_insn (Shl t x y) d = IR_BINOP IR_BINOP_SHL t d x y"
| "op_insn (Shr t x y) d = IR_BINOP IR_BINOP_SHR t d x y"
| "op_insn (Asr t x y) d = IR_BINOP IR_BINOP_ASR t d x y"
| "op_insn (Ror t x y) d = IR_BINOP IR_BINOP_ROR t d x y"
| "op_insn (Cmpeq t x y) d = IR_BINOP IR_BINOP_CMPEQ t d x y"
| "op_insn (Cmpne t x y) d = IR_BINOP IR_BINOP_CMPNE t d x y"
| "op_insn (Call t nm a ps) d = IR_CALL t ''Unknown'' a ps (map_option (\<lambda>_. d) t)"
| "op_insn (Ite t p x y) d = IR_ITE t d p x y"
| "op_insn (Cast c x) d = IR_CAST c d x"
| "op_insn (Exit v) d = IR_EXIT v None"
| "op_insn (Exit_cond v p) d = IR_EXIT v p"
| "op_insn (Read_context t off) d = IR_READ t d off"
| "op_insn (Write_context t s off) d = IR_WRITE t s off"
| "op_insn (Insn_marker v) d = IR_INSN_MARKER v"

text \<open>The assertions of the builder, with the registers of the call given by an earlier call.\<close>

fun op_typed :: "irRegisterType list \<Rightarrow> ir_op \<Rightarrow> bool" where
  "op_typed ts (Store t s a) = (ts ! s = t)"
| "op_typed ts (Add t x y) = (ts ! x = t \<and> ts ! y = t)"
| "op_typed ts (Sub t x y) = (ts ! x = t \<and> ts ! y = t)"
| "op_typed ts (Xor t x y) = (ts ! x = t \<and> ts ! y = t)"
| "op_typed ts (And t x y) = (ts ! x = t \<and> ts ! y = t)"
| "op_typed ts (Or t x y) = (ts ! x = t \<and> ts ! y = t)"
| "op_typed ts (Shl t x y) = (ts ! x = t \<and> ts ! y = IR_REG_8)"
| "op_typed ts (Shr t x y) = (ts ! x = t \<and> ts ! y = IR_REG_8)"
| "op_typed ts (Asr t x y) = (ts ! x = t \<and> ts ! y = IR_REG_8)"
| "op_typed ts (Ror t x y) = (ts ! x = t \<and> ts ! y = IR_REG_8)"
| "op_typed ts (Cmpeq t x y) = (ts ! x = t \<and> ts ! y = t)"
| "op_typed ts (Cmpne t x y) = (ts ! x = t \<and> ts ! y = t)"
| "op_typed ts (Ite t p x y) = (ts ! p = ts ! x \<and> ts ! p = ts ! y)"
| "op_typed ts (Exit v) = (ts ! v = IR_REG_64)"
| "op_typed ts (Exit_cond v p) = (ts ! v = IR_REG_64)"
| "op_typed ts _ = True"

definition op_ok :: "irRegisterType list \<Rightarrow> ir_op \<Rightarrow> bool" where
  "op_ok ts i \<longleftrightarrow> (\<forall>r \<in> set (op_args i). r < length ts) \<and> op_arity i \<and> op_typed ts i"

lemma run_op_emit:
  assumes "op_ok (types_of j) i"
  shows "run_op i j = map_option snd (emit (op_type (types_of j) i) (\<lambda>d. op_insn i (the d)) j)"
proof -
  have m: "map_option snd (map_option (apfst the) x) = map_option snd x" for x :: "(nat option \<times> jitter) option"
    by (cases x) auto
  show ?thesis
  proof (cases i)
    case (Call t nm a ps)
    then have "add_call t nm a ps j = emit t (\<lambda>r. IR_CALL t ''Unknown'' a ps r) j" using assms by (intro add_call_emit) (auto simp: op_ok_def)
    moreover have "emit t (\<lambda>r. IR_CALL t ''Unknown'' a ps r) j = emit t (\<lambda>d. op_insn i (the d)) j" using Call
      by (cases t) (auto simp: emit_def split: bind_splits)
    ultimately show ?thesis using Call by simp
  next
    case (Exit_cond v p)
    then show ?thesis using assms by (auto simp: op_ok_def add_exit_cond_emit)
  next
    case (Exit v)
    then show ?thesis using assms by (auto simp: op_ok_def add_exit_def add_exit_cond_emit)
  next
    case (Ite t p x y)
    then show ?thesis using assms by (auto simp: op_ok_def add_ite_emit m)
  qed (use assms in \<open>auto simp: op_ok_def add_mov_const_emit add_load_emit add_store_emit add_cast_emit add_read_context_emit
      add_write_context_emit add_insn_marker_emit add_add_def add_sub_def add_xor_def add_and_def add_or_def add_shl_def
      add_shr_def add_asr_def add_ror_def add_cmpeq_def add_cmpne_def add_same_def add_shift_def add_binop_emit m\<close>)
qed

lemma op_insn_reads: "ir_reads (op_insn i d) = op_args i"
  by (cases i) auto

lemma op_insn_write: "op_type ts i = Some t \<Longrightarrow> ir_write (op_insn i d) = Some d"
  by (cases i) auto

lemma op_insn_write_None: "op_type ts i = None \<Longrightarrow> ir_write (op_insn i d) = None"
  by (cases i) auto

section \<open>Sequences of calls\<close>

fun replay :: "ir_op list \<Rightarrow> jitter \<Rightarrow> jitter option" where
  "replay [] j = Some j"
| "replay (i # is) j = do { j \<leftarrow> run_op i j; replay is j }"

fun ops_ok :: "irRegisterType list \<Rightarrow> ir_op list \<Rightarrow> bool" where
  "ops_ok ts [] = True"
| "ops_ok ts (i # is) = (op_ok ts i \<and> ops_ok (ts @ opt_list (op_type ts i)) is)"

fun ops_types :: "irRegisterType list \<Rightarrow> ir_op list \<Rightarrow> irRegisterType list" where
  "ops_types ts [] = ts"
| "ops_types ts (i # is) = ops_types (ts @ opt_list (op_type ts i)) is"

fun ops_insns :: "nat \<Rightarrow> ir_op list \<Rightarrow> irInstruction list" where
  "ops_insns n [] = []"
| "ops_insns n (i # is) = op_insn i n # ops_insns (n + length (opt_list (op_type [] i))) is"

lemma op_type_length: "length (opt_list (op_type ts i)) = length (opt_list (op_type [] i))"
  by (cases i) auto

lemma run_op_types:
  assumes ok: "op_ok (types_of j) i" and run: "run_op i j = Some j'"
  shows "types_of j' = types_of j @ opt_list (op_type (types_of j) i)" "insns_of j' = insns_of j @ [op_insn i (length (regs_of j))]"
proof -
  let ?t = "op_type (types_of j) i"
  from run obtain d where em: "emit ?t (\<lambda>d. op_insn i (the d)) j = Some (d, j')" by (auto simp: run_op_emit [OF ok])
  have rd: "\<forall>r \<in> set (ir_reads (op_insn i (the d))). r < length (regs_of j)" using ok by (simp add: op_insn_reads op_ok_def)
  note D = emit_SomeD [OF em rd]
  show "types_of j' = types_of j @ opt_list ?t" using D(10) by (auto simp: new_regs_def split: option.splits)
  have "op_insn i (the d) = op_insn i (length (regs_of j))"
  proof (cases ?t)
    case None
    then show ?thesis by (cases i) auto
  next
    case (Some t)
    then show ?thesis using D(1) by simp
  qed
  then show "insns_of j' = insns_of j @ [op_insn i (length (regs_of j))]" using D(5) by simp
qed

lemma replay_insns:
  "ops_ok (types_of j) is \<Longrightarrow> replay is j = Some j' \<Longrightarrow>
     types_of j' = ops_types (types_of j) is \<and> insns_of j' = insns_of j @ ops_insns (length (regs_of j)) is"
proof (induction "is" arbitrary: j)
  case (Cons i "is")
  from Cons.prems obtain j1 where j1: "run_op i j = Some j1" "replay is j1 = Some j'" by (auto split: bind_splits)
  have ok: "op_ok (types_of j) i" using Cons.prems by simp
  note T = run_op_types [OF ok j1(1)]
  have "length (regs_of j1) = length (regs_of j) + length (opt_list (op_type [] i))"
    using arg_cong [OF T(1), of length] by (simp add: op_type_length [of "types_of j"])
  then show ?case using Cons.IH [OF _ j1(2)] Cons.prems T by simp
qed simp

lemma replay_wf: "ir_wf j \<Longrightarrow> ops_ok (types_of j) is \<Longrightarrow> replay is j = Some j' \<Longrightarrow> ir_wf j'"
proof (induction "is" arbitrary: j)
  case (Cons i "is")
  from Cons.prems obtain j1 where j1: "run_op i j = Some j1" "replay is j1 = Some j'" by (auto split: bind_splits)
  have ok: "op_ok (types_of j) i" using Cons.prems by simp
  then have "ir_wf j1" by (intro run_op_wf [OF Cons.prems(1) _ _ j1(1)]) (auto simp: op_ok_def)
  then show ?case using Cons.IH [OF _ _ j1(2)] Cons.prems run_op_types [OF ok j1(1)] by simp
qed simp

text \<open>The calls succeed as long as the pools have room.\<close>

definition pool_room :: "jitter \<Rightarrow> nat \<Rightarrow> bool" where
  "pool_room j n \<longleftrightarrow> sizeof_irRegister * (int (length (regs_of j)) + int n) \<le> pool_size (registerPoolAllocator j) \<and>
     sizeof_irInstruction * (int (length (insns_of j)) + int n) \<le> pool_size (instructionPoolAllocator j)"

lemma emit_succeeds:
  assumes "ir_wf j" "pool_room j (Suc n)"
  shows "\<exists>d j'. emit t mk j = Some (d, j') \<and> pool_size (registerPoolAllocator j') = pool_size (registerPoolAllocator j)
     \<and> pool_size (instructionPoolAllocator j') = pool_size (instructionPoolAllocator j)"
proof -
  have sz: "\<And>rs j. pool_size (registerPoolAllocator (fold mark_read rs j)) = pool_size (registerPoolAllocator j)"
  proof -
    fix rs and j :: jitter
    show "pool_size (registerPoolAllocator (fold mark_read rs j)) = pool_size (registerPoolAllocator j)"
      by (induction rs arbitrary: j) (simp_all add: mark_read_def)
  qed
  have "sizeof_irRegister + pool_index (registerPoolAllocator j) \<le> pool_size (registerPoolAllocator j)"
    "sizeof_irInstruction + pool_index (instructionPoolAllocator j) \<le> pool_size (instructionPoolAllocator j)"
    using assms ir_wfD(1,2) [OF assms(1)]
    by (auto simp: pool_room_def pool_wf_def sizeof_irRegister_def sizeof_irInstruction_def)
  then show ?thesis
    by (cases t) (auto simp: emit_def allocateRegister_def push_insn_def memoryPoolAlloc_def sz)
qed

lemma replay_succeeds:
  "ir_wf j \<Longrightarrow> ops_ok (types_of j) is \<Longrightarrow> pool_room j (length is) \<Longrightarrow> \<exists>j'. replay is j = Some j'"
proof (induction "is" arbitrary: j)
  case (Cons i "is")
  have ok: "op_ok (types_of j) i" using Cons.prems by simp
  obtain d j1 where em: "emit (op_type (types_of j) i) (\<lambda>d. op_insn i (the d)) j = Some (d, j1)"
    "pool_size (registerPoolAllocator j1) = pool_size (registerPoolAllocator j)"
    "pool_size (instructionPoolAllocator j1) = pool_size (instructionPoolAllocator j)"
    using emit_succeeds [OF Cons.prems(1), of "length is" "op_type (types_of j) i" "\<lambda>d. op_insn i (the d)"] Cons.prems(3) by auto
  then have r: "run_op i j = Some j1" by (simp add: run_op_emit [OF ok])
  note T = run_op_types [OF ok r]
  have "length (regs_of j1) \<le> Suc (length (regs_of j))"
    using arg_cong [OF T(1), of length] by (cases "op_type (types_of j) i") simp_all
  then have "pool_room j1 (length is)" using Cons.prems(3) em(2,3) T(2)
    by (auto simp: pool_room_def sizeof_irRegister_def sizeof_irInstruction_def)
  moreover have "ir_wf j1" using ok by (intro run_op_wf [OF Cons.prems(1) _ _ r]) (auto simp: op_ok_def)
  ultimately show ?case using Cons.IH [of j1] Cons.prems(2) T(1) r by simp
qed simp

lemma ops_ok_append: "ops_ok ts (xs @ ys) \<longleftrightarrow> ops_ok ts xs \<and> ops_ok (ops_types ts xs) ys"
  by (induction xs arbitrary: ts) auto

lemma ops_types_append [simp]: "ops_types ts (xs @ ys) = ops_types (ops_types ts xs) ys"
  by (induction xs arbitrary: ts) auto

text \<open>The number of registers a sequence defines.\<close>

definition ops_nregs :: "ir_op list \<Rightarrow> nat" where
  "ops_nregs is = length (concat (map (\<lambda>i. opt_list (op_type [] i)) is))"

lemma ops_nregs_simps [simp]:
  "ops_nregs [] = 0" "ops_nregs (i # is) = length (opt_list (op_type [] i)) + ops_nregs is" "ops_nregs (xs @ ys) = ops_nregs xs + ops_nregs ys"
  by (simp_all add: ops_nregs_def)

lemma ops_insns_append: "ops_insns n (xs @ ys) = ops_insns n xs @ ops_insns (n + ops_nregs xs) ys"
  by (induction xs arbitrary: n) (simp_all add: add.assoc)

lemma ops_types_length: "length (ops_types ts is) = length ts + ops_nregs is"
proof (induction "is" arbitrary: ts)
  case (Cons i "is")
  then show ?case using op_type_length [of ts i] by simp
qed simp

end
