(* ===== verification/Dis_Logic.thy ===== *)
theory Dis_Logic
  imports Dis_Replay
begin

text \<open>
  Two calculi for programs that make calls on the builder. \<open>jud\<close> gives types to the registers and checks the
  assertions of the builder. \<open>wp\<close> runs the intermediate code a program adds: it takes the values of the registers and the
  memory the code so far has produced, a postcondition for code that runs through and one for code that leaves the block.
\<close>

named_theorems app_simps \<open>programs that only add calls\<close>
named_theorems jud_intros \<open>typing of programs\<close>
named_theorems wp_simps \<open>effect of the code a program adds\<close>

section \<open>Programs that only add calls\<close>

text \<open>The calls made so far are not read: the calls a program adds and its result depend only on the number of registers and the step flag.\<close>

definition app :: "'a dis \<Rightarrow> bool" where
  "app p \<longleftrightarrow> (\<forall>n st. \<exists>r new st'. \<forall>xs.
     run_state p \<lparr>dis_ops = xs, dis_nregs = n, is_stepin = st\<rparr> = (r, \<lparr>dis_ops = xs @ new, dis_nregs = n + ops_nregs new, is_stepin = st'\<rparr>))"

text \<open>The result, the calls and the flag of such a program.\<close>

definition outcome_of :: "'a dis \<Rightarrow> nat \<Rightarrow> bool \<Rightarrow> 'a \<times> ir_op list \<times> bool" where
  "outcome_of p n st = (case run_state p \<lparr>dis_ops = [], dis_nregs = n, is_stepin = st\<rparr> of (r, s) \<Rightarrow> (r, dis_ops s, is_stepin s))"

lemma app_run:
  assumes "app p" "outcome_of p n st = (r, new, st')"
  shows "run_state p \<lparr>dis_ops = xs, dis_nregs = n, is_stepin = st\<rparr> = (r, \<lparr>dis_ops = xs @ new, dis_nregs = n + ops_nregs new, is_stepin = st'\<rparr>)"
proof -
  from assms(1) obtain r1 new1 st1 where a: "run_state p \<lparr>dis_ops = xs, dis_nregs = n, is_stepin = st\<rparr>
      = (r1, \<lparr>dis_ops = xs @ new1, dis_nregs = n + ops_nregs new1, is_stepin = st1\<rparr>)" for xs unfolding app_def by metis
  then show ?thesis using a [of "[]"] assms(2) by (simp add: outcome_of_def)
qed

lemma appI:
  assumes "\<And>n st xs. \<exists>r new st'. outcome_of p n st = (r, new, st') \<and>
    run_state p \<lparr>dis_ops = xs, dis_nregs = n, is_stepin = st\<rparr> = (r, \<lparr>dis_ops = xs @ new, dis_nregs = n + ops_nregs new, is_stepin = st'\<rparr>)"
  shows "app p"
  unfolding app_def
proof (intro allI)
  fix n st
  obtain r new st' where o: "outcome_of p n st = (r, new, st')" by (cases "outcome_of p n st") auto
  have "run_state p \<lparr>dis_ops = xs, dis_nregs = n, is_stepin = st\<rparr> = (r, \<lparr>dis_ops = xs @ new, dis_nregs = n + ops_nregs new, is_stepin = st'\<rparr>)" for xs
    using assms [of n st xs] o by auto
  then show "\<exists>r new st'. \<forall>xs. run_state p \<lparr>dis_ops = xs, dis_nregs = n, is_stepin = st\<rparr>
      = (r, \<lparr>dis_ops = xs @ new, dis_nregs = n + ops_nregs new, is_stepin = st'\<rparr>)" by blast
qed

lemma outcome_ret: "outcome_of (ret x) n st = (x, [], st)"
  by (simp add: outcome_of_def)

lemma app_ret [app_simps]: "app (ret x)"
  by (rule appI) (simp add: outcome_ret)

lemma outcome_emit_op: "outcome_of (emit_op i) n st = ((), [i], st)"
  by (simp add: outcome_of_def emit_op_def)

lemma app_emit_op [app_simps]: "op_type [] i = None \<Longrightarrow> app (emit_op i)"
  by (rule appI) (simp add: outcome_emit_op, simp add: emit_op_def)

lemma outcome_emit_reg: "outcome_of (emit_reg i) n st = (n, [i], st)"
  by (simp add: outcome_of_def emit_reg_def)

lemma app_emit_reg [app_simps]: "op_type [] i \<noteq> None \<Longrightarrow> app (emit_reg i)"
proof (rule appI)
  fix n st xs
  assume "op_type [] i \<noteq> None"
  then have "run_state (emit_reg i) \<lparr>dis_ops = xs, dis_nregs = n, is_stepin = st\<rparr> = (n, \<lparr>dis_ops = xs @ [i], dis_nregs = n + ops_nregs [i], is_stepin = st\<rparr>)"
    by (auto simp: emit_reg_def)
  then show "\<exists>r new st'. outcome_of (emit_reg i) n st = (r, new, st') \<and> run_state (emit_reg i) \<lparr>dis_ops = xs, dis_nregs = n, is_stepin = st\<rparr>
      = (r, \<lparr>dis_ops = xs @ new, dis_nregs = n + ops_nregs new, is_stepin = st'\<rparr>)" unfolding outcome_emit_reg by blast
qed

lemma outcome_bind:
  assumes "app p" "\<And>r. app (f r)"
  shows "outcome_of (p \<bind> f) n st = (case outcome_of p n st of (r, new, st1) \<Rightarrow>
    case outcome_of (f r) (n + ops_nregs new) st1 of (q, new2, st2) \<Rightarrow> (q, new @ new2, st2))"
proof -
  obtain r new st1 where p: "outcome_of p n st = (r, new, st1)" by (cases "outcome_of p n st") auto
  obtain q new2 st2 where f: "outcome_of (f r) (n + ops_nregs new) st1 = (q, new2, st2)" by (cases "outcome_of (f r) (n + ops_nregs new) st1") auto
  show ?thesis using app_run [OF assms(1) p, of "[]"] app_run [OF assms(2) f, of new] p f
    by (simp add: outcome_of_def State_Monad.bind_def)
qed

lemma app_bind [app_simps]:
  assumes "app p" "\<And>r. app (f r)"
  shows "app (p \<bind> f)"
proof (rule appI)
  fix n st xs
  obtain r new st1 where p: "outcome_of p n st = (r, new, st1)" by (cases "outcome_of p n st") auto
  obtain q new2 st2 where f: "outcome_of (f r) (n + ops_nregs new) st1 = (q, new2, st2)" by (cases "outcome_of (f r) (n + ops_nregs new) st1") auto
  have o: "outcome_of (p \<bind> f) n st = (q, new @ new2, st2)" by (simp add: outcome_bind [OF assms] p f)
  have "run_state (p \<bind> f) \<lparr>dis_ops = xs, dis_nregs = n, is_stepin = st\<rparr>
      = (q, \<lparr>dis_ops = xs @ new @ new2, dis_nregs = n + ops_nregs (new @ new2), is_stepin = st2\<rparr>)"
    using app_run [OF assms(1) p, of xs] app_run [OF assms(2) f, of "xs @ new"] by (simp add: State_Monad.bind_def add.assoc)
  then show "\<exists>r new st'. outcome_of (p \<bind> f) n st = (r, new, st') \<and> run_state (p \<bind> f) \<lparr>dis_ops = xs, dis_nregs = n, is_stepin = st\<rparr>
      = (r, \<lparr>dis_ops = xs @ new, dis_nregs = n + ops_nregs new, is_stepin = st'\<rparr>)" unfolding o by blast
qed

lemma app_if [app_simps]: "app p \<Longrightarrow> app q \<Longrightarrow> app (if b then p else q)"
  by simp

lemma app_call [app_simps]:
  "app p \<Longrightarrow> (\<And>a. app (f1 a)) \<Longrightarrow> app (call1 f1 p)"
  "app p \<Longrightarrow> app q \<Longrightarrow> (\<And>a b. app (f2 a b)) \<Longrightarrow> app (call2 f2 p q)"
  "app p \<Longrightarrow> app q \<Longrightarrow> app r \<Longrightarrow> (\<And>a b c. app (f3 a b c)) \<Longrightarrow> app (call3 f3 p q r)"
  unfolding call1_def call2_def call3_def by (intro app_bind; assumption)+

text \<open>The flag: it is read to decide between programs, and cleared.\<close>

definition if_stepin :: "'a dis \<Rightarrow> 'a dis \<Rightarrow> 'a dis" where
  "if_stepin p q = do { s \<leftarrow> State_Monad.get; if is_stepin s then p else q }"

lemma run_get [simp]: "run_state State_Monad.get s = (s, s)"
  by (simp add: State_Monad.get_def)

lemma run_update [simp]: "run_state (State_Monad.update f) s = ((), f s)"
  by (simp add: State_Monad.update_def State_Monad.set_def State_Monad.bind_def)

lemma outcome_if_stepin: "outcome_of (if_stepin p q) n st = outcome_of (if st then p else q) n st"
  by (simp add: outcome_of_def if_stepin_def State_Monad.bind_def)

lemma app_if_stepin [app_simps]: "app p \<Longrightarrow> app q \<Longrightarrow> app (if_stepin p q)"
proof (rule appI)
  fix n st xs
  assume a: "app p" "app q"
  obtain r new st1 where p: "outcome_of (if st then p else q) n st = (r, new, st1)" by (cases "outcome_of (if st then p else q) n st") auto
  have "app (if st then p else q)" using a by simp
  from app_run [OF this p, of xs] show "\<exists>r new st'. outcome_of (if_stepin p q) n st = (r, new, st') \<and>
      run_state (if_stepin p q) \<lparr>dis_ops = xs, dis_nregs = n, is_stepin = st\<rparr> = (r, \<lparr>dis_ops = xs @ new, dis_nregs = n + ops_nregs new, is_stepin = st'\<rparr>)"
    unfolding outcome_if_stepin p by (simp add: if_stepin_def State_Monad.bind_def)
qed

abbreviation clear_stepin :: "unit dis" where "clear_stepin \<equiv> State_Monad.update (\<lambda>s. s\<lparr>is_stepin := False\<rparr>)"

lemma outcome_clear_stepin: "outcome_of clear_stepin n st = ((), [], False)"
  by (simp add: outcome_of_def)

lemma app_clear_stepin [app_simps]: "app clear_stepin"
  by (rule appI) (auto simp: outcome_clear_stepin)

section \<open>Types\<close>

text \<open>
  \<open>needs_clean\<close> and \<open>clean_after\<close> on recorded calls, with helpers that leave zeros above their results.
\<close>

fun ops_clean :: "irRegisterType list \<Rightarrow> nat set \<Rightarrow> ir_op list \<Rightarrow> bool" where
  "ops_clean ts C [] = True"
| "ops_clean ts C (i # is) = (set (needs_clean ts (op_insn i (length ts))) \<subseteq> C \<and>
     ops_clean (ts @ opt_list (op_type ts i)) (clean_after True (op_insn i (length ts)) C) is)"

fun ops_cleaned :: "nat \<Rightarrow> nat set \<Rightarrow> ir_op list \<Rightarrow> nat set" where
  "ops_cleaned n C [] = C"
| "ops_cleaned n C (i # is) = ops_cleaned (n + length (opt_list (op_type [] i))) (clean_after True (op_insn i n) C) is"

lemma ops_clean_append: "ops_clean ts C (xs @ ys) \<longleftrightarrow> ops_clean ts C xs \<and> ops_clean (ops_types ts xs) (ops_cleaned (length ts) C xs) ys"
proof (induction xs arbitrary: ts C)
  case (Cons i xs)
  then show ?case by (simp add: op_type_length [of ts])
qed simp

lemma ops_cleaned_append: "ops_cleaned n C (xs @ ys) = ops_cleaned (n + ops_nregs xs) (ops_cleaned n C xs) ys"
  by (induction xs arbitrary: C n) (simp_all add: add.assoc)

lemma ops_cleaned_mono: "C \<subseteq> ops_cleaned n C is"
proof (induction "is" arbitrary: n C)
  case (Cons i "is")
  have "C \<subseteq> clean_after True (op_insn i n) C" using clean_after_cases [of True "op_insn i n" C] by auto
  with Cons show ?case by fastforce
qed simp

lemma needs_clean_append:
  "\<forall>r \<in> set (op_args i). r < length ts \<Longrightarrow> needs_clean (ts @ us) (op_insn i d) = needs_clean ts (op_insn i d)"
  by (cases i) (auto simp: nth_append)

lemma ops_types_extends: "\<exists>us. ops_types ts is = ts @ us"
proof (induction "is" arbitrary: ts)
  case (Cons i "is")
  from Cons [of "ts @ opt_list (op_type ts i)"] show ?case by auto
qed simp

lemma ops_clean_block: "ops_ok ts is \<Longrightarrow> ops_clean ts C is \<Longrightarrow> clean_block True (ops_types ts is) C (ops_insns (length ts) is)"
proof (induction "is" arbitrary: ts C)
  case (Cons i "is")
  obtain us where us: "ops_types (ts @ opt_list (op_type ts i)) is = ts @ us" using ops_types_extends [of ts "i # is"] by auto
  have "\<forall>r \<in> set (op_args i). r < length ts" using Cons.prems(1) by (simp add: op_ok_def)
  then show ?case using Cons.IH [of "ts @ opt_list (op_type ts i)"] Cons.prems by (simp add: us needs_clean_append op_type_length [of ts])
qed simp

text \<open>
  \<open>jud \<Gamma> p R\<close>: where the registers of \<open>\<Gamma>\<close> have the types it gives them, every call of \<open>p\<close> respects the assertions of the builder
  and the registers of \<open>R\<close> get their types. The registers of 32 and 64 bits are clean.
\<close>

definition typing :: "(nat \<times> irRegisterType) set \<Rightarrow> irRegisterType list \<Rightarrow> nat set \<Rightarrow> bool" where
  "typing \<Gamma> ts C \<longleftrightarrow> (\<forall>(r, t) \<in> \<Gamma>. r < length ts \<and> ts ! r = t \<and> (t \<in> {IR_REG_32, IR_REG_64} \<longrightarrow> r \<in> C))"

definition jud :: "(nat \<times> irRegisterType) set \<Rightarrow> 'a dis \<Rightarrow> ('a \<Rightarrow> (nat \<times> irRegisterType) set) \<Rightarrow> bool" where
  "jud \<Gamma> p R \<longleftrightarrow> app p \<and> (\<forall>ts C st. typing \<Gamma> ts C \<longrightarrow>
     (case outcome_of p (length ts) st of (r, new, st') \<Rightarrow>
       ops_ok ts new \<and> ops_clean ts C new \<and> typing (R r) (ops_types ts new) (ops_cleaned (length ts) C new)))"

lemma typing_extends: "typing \<Gamma> ts C \<Longrightarrow> typing \<Gamma> (ops_types ts is) (ops_cleaned n C is)"
  using ops_types_extends [of ts "is"] ops_cleaned_mono [of C n "is"] by (fastforce simp: typing_def nth_append)

lemma typing_Un: "typing (\<Gamma> \<union> \<Delta>) ts C \<longleftrightarrow> typing \<Gamma> ts C \<and> typing \<Delta> ts C"
  by (simp add: typing_def ball_Un)

lemma judD: "jud \<Gamma> p R \<Longrightarrow> typing \<Gamma> ts C \<Longrightarrow> outcome_of p (length ts) st = (r, new, st') \<Longrightarrow>
    ops_ok ts new \<and> ops_clean ts C new \<and> typing (R r) (ops_types ts new) (ops_cleaned (length ts) C new)"
  unfolding jud_def by (drule conjunct2, drule spec [of _ ts], drule spec [of _ C], drule spec [of _ st]) simp

lemma jud_app: "jud \<Gamma> p R \<Longrightarrow> app p"
  by (simp add: jud_def)

lemma judI:
  assumes "app p" "\<And>ts C st r new st'. typing \<Gamma> ts C \<Longrightarrow> outcome_of p (length ts) st = (r, new, st') \<Longrightarrow>
    ops_ok ts new \<and> ops_clean ts C new \<and> typing (R r) (ops_types ts new) (ops_cleaned (length ts) C new)"
  shows "jud \<Gamma> p R"
  using assms by (auto simp: jud_def)

lemma jud_bind:
  assumes p: "jud \<Gamma> p R" and f: "\<And>r. jud (\<Gamma> \<union> R r) (f r) R'"
  shows "jud \<Gamma> (p \<bind> f) R'"
proof (rule judI)
  have a: "app p" "\<And>r. app (f r)" using p f by (auto dest: jud_app)
  show "app (p \<bind> f)" by (rule app_bind [OF a])
  fix ts C st r new st'
  assume t: "typing \<Gamma> ts C" and o: "outcome_of (p \<bind> f) (length ts) st = (r, new, st')"
  obtain r1 new1 st1 where p1: "outcome_of p (length ts) st = (r1, new1, st1)" by (cases "outcome_of p (length ts) st") auto
  obtain q new2 st2 where f1: "outcome_of (f r1) (length (ops_types ts new1)) st1 = (q, new2, st2)"
    by (cases "outcome_of (f r1) (length (ops_types ts new1)) st1") auto
  note P = judD [OF p t p1]
  have "typing (\<Gamma> \<union> R r1) (ops_types ts new1) (ops_cleaned (length ts) C new1)" using P t by (simp add: typing_Un typing_extends)
  note F = judD [OF f this f1]
  have "r = q" "new = new1 @ new2" using o p1 f1 by (auto simp: outcome_bind [OF a] ops_types_length)
  then show "ops_ok ts new \<and> ops_clean ts C new \<and> typing (R' r) (ops_types ts new) (ops_cleaned (length ts) C new)"
    using P F by (simp add: ops_ok_append ops_clean_append ops_cleaned_append ops_types_length)
qed

lemma jud_ret: "R x \<subseteq> \<Gamma> \<Longrightarrow> jud \<Gamma> (ret x) R"
  by (auto simp: jud_def app_simps outcome_ret typing_def)

lemma jud_if: "(b \<Longrightarrow> jud \<Gamma> p R) \<Longrightarrow> (\<not> b \<Longrightarrow> jud \<Gamma> q R) \<Longrightarrow> jud \<Gamma> (if b then p else q) R"
  by simp

lemma jud_weaken: "jud \<Gamma> p R \<Longrightarrow> \<Gamma> \<subseteq> \<Delta> \<Longrightarrow> jud \<Delta> p R"
proof -
  have "\<Gamma> \<subseteq> \<Delta> \<Longrightarrow> typing \<Delta> ts C \<Longrightarrow> typing \<Gamma> ts C" for ts C by (auto simp: typing_def)
  then show "jud \<Gamma> p R \<Longrightarrow> \<Gamma> \<subseteq> \<Delta> \<Longrightarrow> jud \<Delta> p R" by (simp add: jud_def)
qed

lemma jud_call:
  "jud \<Gamma> p R \<Longrightarrow> (\<And>a. jud (\<Gamma> \<union> R a) (f1 a) R') \<Longrightarrow> jud \<Gamma> (call1 f1 p) R'"
  "jud \<Gamma> p R \<Longrightarrow> (\<And>a. jud (\<Gamma> \<union> R a) q R2) \<Longrightarrow> (\<And>a b. jud (\<Gamma> \<union> R a \<union> R2 b) (f2 a b) R') \<Longrightarrow> jud \<Gamma> (call2 f2 p q) R'"
  "jud \<Gamma> p R \<Longrightarrow> (\<And>a. jud (\<Gamma> \<union> R a) q R2) \<Longrightarrow> (\<And>a b. jud (\<Gamma> \<union> R a \<union> R2 b) r R3) \<Longrightarrow>
     (\<And>a b c. jud (\<Gamma> \<union> R a \<union> R2 b \<union> R3 c) (f3 a b c) R') \<Longrightarrow> jud \<Gamma> (call3 f3 p q r) R'"
  unfolding call1_def call2_def call3_def by (blast intro: jud_bind)+

lemma jud_if_stepin: "jud \<Gamma> p R \<Longrightarrow> jud \<Gamma> q R \<Longrightarrow> jud \<Gamma> (if_stepin p q) R"
  by (auto simp: jud_def app_simps outcome_if_stepin)

lemma jud_clear_stepin: "jud \<Gamma> clear_stepin (\<lambda>_. {})"
  by (auto simp: jud_def app_simps outcome_clear_stepin typing_def)

lemma jud_emit_op: "op_type [] i = None \<Longrightarrow> (\<And>ts C. typing \<Gamma> ts C \<Longrightarrow> op_ok ts i \<and> set (needs_clean ts (op_insn i (length ts))) \<subseteq> C) \<Longrightarrow>
    jud \<Gamma> (emit_op i) (\<lambda>_. {})"
  by (rule judI) (auto simp: app_simps outcome_emit_op typing_def)

lemma jud_emit_reg:
  assumes "op_type [] i \<noteq> None" "\<And>ts C. typing \<Gamma> ts C \<Longrightarrow> op_ok ts i \<and> op_type ts i = Some t \<and> set (needs_clean ts (op_insn i (length ts))) \<subseteq> C \<and>
    (t \<in> {IR_REG_32, IR_REG_64} \<longrightarrow> length ts \<in> clean_after True (op_insn i (length ts)) C)"
  shows "jud \<Gamma> (emit_reg i) (\<lambda>r. {(r, t)})"
proof (rule judI)
  show "app (emit_reg i)" using assms(1) by (simp add: app_simps)
qed (use assms(2) in \<open>auto simp: outcome_emit_reg typing_def\<close>)

section \<open>Effect\<close>

definition wp :: "xenv \<Rightarrow> u64 \<Rightarrow> (nat \<Rightarrow> bool) \<Rightarrow> 'a dis \<Rightarrow> ('a \<Rightarrow> nat \<Rightarrow> bool \<Rightarrow> (nat \<Rightarrow> u64) \<Rightarrow> memory \<Rightarrow> bool) \<Rightarrow>
    (u64 \<Rightarrow> bool \<Rightarrow> memory \<Rightarrow> bool) \<Rightarrow> nat \<Rightarrow> bool \<Rightarrow> (nat \<Rightarrow> u64) \<Rightarrow> memory \<Rightarrow> bool" where
  "wp E ctx K p Q L n st vals mem \<longleftrightarrow> (case outcome_of p n st of (r, new, st') \<Rightarrow>
     case irun E ctx K (ops_insns n new) vals mem of
       None \<Rightarrow> False
     | Some (Next vals' mem') \<Rightarrow> Q r (n + ops_nregs new) st' vals' mem'
     | Some (Leave v k mem') \<Rightarrow> L v k mem')"

lemma irun_append: "irun E ctx K (xs @ ys) vals mem = (case irun E ctx K xs vals mem of
    None \<Rightarrow> None | Some (Next vals mem) \<Rightarrow> irun E ctx K ys vals mem | Some (Leave v k mem) \<Rightarrow> Some (Leave v k mem))"
  by (induction xs arbitrary: vals mem) (auto split: option.splits xres.splits)

lemma wp_bind [wp_simps]:
  assumes "app p" "\<And>r. app (f r)"
  shows "wp E ctx K (p \<bind> f) Q L n st vals mem = wp E ctx K p (\<lambda>r. wp E ctx K (f r) Q L) L n st vals mem"
proof -
  obtain r new st1 where p: "outcome_of p n st = (r, new, st1)" by (cases "outcome_of p n st") auto
  obtain q new2 st2 where f: "outcome_of (f r) (n + ops_nregs new) st1 = (q, new2, st2)" by (cases "outcome_of (f r) (n + ops_nregs new) st1") auto
  show ?thesis
  proof (cases "irun E ctx K (ops_insns n new) vals mem")
    case None
    then show ?thesis by (simp add: wp_def outcome_bind [OF assms] p f ops_insns_append irun_append)
  next
    case (Some x)
    then show ?thesis by (cases x) (simp_all add: wp_def outcome_bind [OF assms] p f ops_insns_append irun_append add.assoc split: option.splits xres.splits)
  qed
qed

lemma wp_ret [wp_simps]: "wp E ctx K (ret x) Q L n st vals mem = Q x n st vals mem"
  by (simp add: wp_def outcome_ret)

lemma wp_if [wp_simps]: "wp E ctx K (if b then p else q) Q L n st vals mem
    = (if b then wp E ctx K p Q L n st vals mem else wp E ctx K q Q L n st vals mem)"
  by simp

lemma wp_if_stepin [wp_simps]: "wp E ctx K (if_stepin p q) Q L n st vals mem
    = (if st then wp E ctx K p Q L n st vals mem else wp E ctx K q Q L n st vals mem)"
  by (simp add: wp_def outcome_if_stepin)

lemma wp_clear_stepin [wp_simps]: "wp E ctx K clear_stepin Q L n st vals mem = Q () n False vals mem"
  by (simp add: wp_def outcome_clear_stepin)

lemma wp_emit_op [wp_simps]: "op_type [] i = None \<Longrightarrow> wp E ctx K (emit_op i) Q L n st vals mem =
    (case iexec E ctx K (op_insn i n) vals mem of None \<Rightarrow> False
     | Some (Next vals mem) \<Rightarrow> Q () n st vals mem | Some (Leave v k mem) \<Rightarrow> L v k mem)"
  by (auto simp: wp_def outcome_emit_op split: option.splits xres.splits)

lemma wp_emit_reg [wp_simps]: "op_type [] i \<noteq> None \<Longrightarrow> wp E ctx K (emit_reg i) Q L n st vals mem =
    (case iexec E ctx K (op_insn i n) vals mem of None \<Rightarrow> False
     | Some (Next vals mem) \<Rightarrow> Q n (Suc n) st vals mem | Some (Leave v k mem) \<Rightarrow> L v k mem)"
  by (auto simp: wp_def outcome_emit_reg split: option.splits xres.splits)

end
