(* ===== verification/Arm64_Dis_Mem.thy ===== *)
theory Arm64_Dis_Mem
  imports Arm64_Dis_Base
begin

text \<open>The loads and stores of \<open>src/src/target/arm64/disassembler/arm64_disassembler.c\<close>. A result \<open>True\<close> is the value 1: the block ends here.\<close>

section \<open>Pairs\<close>

definition dis_load_store_pair :: "dis_context \<Rightarrow> u32 \<Rightarrow> bool dis" where
  "dis_load_store_pair c insn = (
     let is_64 = flag insn 31; is_signed = flag insn 30; is_load = flag insn 22; imm7 = ucast (INSN insn 21 15);
         rt2 = fld insn 14 10; rn = fld insn 9 5; rt = fld insn 4 0; is_wb = flag insn 23; is_not_postindex = flag insn 24;
         offset = push_bit (if is_64 then 3 else 2) (sext 57 imm7) in
     do {
       address1 \<leftarrow> (if is_not_postindex then call2 add_add_64 (read_x rn SP_REG) (mk_64 offset) else read_x rn SP_REG);
       address2 \<leftarrow> call2 add_add_64 (ret address1) (mk_64 (if is_64 then 8 else 4));
       (if is_load then
         if is_64 then do {
           call1 (\<lambda>v. write_x rt v ZERO_REG) (add_load_64 address1);
           call1 (\<lambda>v. write_x rt2 v ZERO_REG) (add_load_64 address2)
         } else if is_signed then do {
           call1 (\<lambda>v. write_w_sign_extend rt v ZERO_REG) (add_load_32 address1);
           call1 (\<lambda>v. write_w_sign_extend rt2 v ZERO_REG) (add_load_32 address2)
         } else do {
           call1 (\<lambda>v. write_w rt v ZERO_REG) (add_load_32 address1);
           call1 (\<lambda>v. write_w rt2 v ZERO_REG) (add_load_32 address2)
         }
       else
         if is_64 then do {
           call1 (\<lambda>v. add_store_64 v address1) (read_x rt ZERO_REG);
           call1 (\<lambda>v. add_store_64 v address2) (read_x rt2 ZERO_REG)
         } else do {
           call1 (\<lambda>v. add_store_32 v address1) (read_w rt ZERO_REG);
           call1 (\<lambda>v. add_store_32 v address2) (read_w rt2 ZERO_REG)
         });
       (if is_wb then
         if is_not_postindex then write_x rn address1 SP_REG
         else call1 (\<lambda>v. write_x rn v SP_REG) (call2 add_add_64 (ret address1) (mk_64 offset))
       else ret ());
       ret False
     })"

definition dis_load_store_no_allocate_pair_offset :: "dis_context \<Rightarrow> u32 \<Rightarrow> bool dis" where
  "dis_load_store_no_allocate_pair_offset c insn = (
     let is_64 = flag insn 31; is_load = flag insn 22; imm7 = ucast (INSN insn 21 15);
         rt2 = fld insn 14 10; rn = fld insn 9 5; rt = fld insn 4 0;
         offset = push_bit (if is_64 then 3 else 2) (sext 57 imm7) in
     do {
       address1 \<leftarrow> call2 add_add_64 (read_x rn SP_REG) (mk_64 offset);
       address2 \<leftarrow> call2 add_add_64 (ret address1) (mk_64 (if is_64 then 8 else 4));
       (if is_load then
         if is_64 then do {
           call1 (\<lambda>v. write_x rt v ZERO_REG) (add_load_64 address1);
           call1 (\<lambda>v. write_x rt2 v ZERO_REG) (add_load_64 address2)
         } else do {
           call1 (\<lambda>v. write_w rt v ZERO_REG) (add_load_32 address1);
           call1 (\<lambda>v. write_w rt2 v ZERO_REG) (add_load_32 address2)
         }
       else
         if is_64 then do {
           call1 (\<lambda>v. add_store_64 v address1) (read_x rt ZERO_REG);
           call1 (\<lambda>v. add_store_64 v address2) (read_x rt2 ZERO_REG)
         } else do {
           call1 (\<lambda>v. add_store_32 v address1) (read_w rt ZERO_REG);
           call1 (\<lambda>v. add_store_32 v address2) (read_w rt2 ZERO_REG)
         });
       ret False
     })"

definition dis_load_store_pair_pre_indexed :: "dis_context \<Rightarrow> u32 \<Rightarrow> bool dis" where
  "dis_load_store_pair_pre_indexed c insn = dis_load_store_pair c insn"
definition dis_load_store_pair_offset :: "dis_context \<Rightarrow> u32 \<Rightarrow> bool dis" where
  "dis_load_store_pair_offset c insn = dis_load_store_pair c insn"
definition dis_load_store_pair_post_indexed :: "dis_context \<Rightarrow> u32 \<Rightarrow> bool dis" where
  "dis_load_store_pair_post_indexed c insn = dis_load_store_pair c insn"

definition dis_load_store_pair_simd_vfp :: "dis_context \<Rightarrow> u32 \<Rightarrow> bool dis" where
  "dis_load_store_pair_simd_vfp c insn = (
     let opc = fld insn 31 30; is_load = flag insn 22; imm7 = ucast (INSN insn 21 15);
         rt2 = fld insn 14 10; rn = fld insn 9 5; rt = fld insn 4 0; is_wb = flag insn 23;
         is_not_postindex = (fld insn 24 23 \<noteq> 1); offset = push_bit (2 + opc) (sext 57 imm7);
         zero_msb = (\<lambda>i. call1 (write_v_msb i) (mk_64 0)); next8 = (\<lambda>a. call2 add_add_64 (ret a) (mk_64 8));
         write_back = (
           if is_wb then
             if is_not_postindex then (\<lambda>a. write_x rn a SP_REG)
             else (\<lambda>a. call1 (\<lambda>v. write_x rn v SP_REG) (call2 add_add_64 (ret a) (mk_64 offset)))
           else (\<lambda>a. ret ())) in
     do {
       address1 \<leftarrow> (if is_not_postindex then call2 add_add_64 (read_x rn SP_REG) (mk_64 offset) else read_x rn SP_REG);
       address2 \<leftarrow> call2 add_add_64 (ret address1) (mk_64 (push_bit opc 4));
       if opc = 0 then do {
         (if is_load then do {
           call1 (write_s rt) (add_load_32 address1); zero_msb rt;
           call1 (write_s rt2) (add_load_32 address2); zero_msb rt2
         } else do {
           call1 (\<lambda>v. add_store_32 v address1) (read_s rt);
           call1 (\<lambda>v. add_store_32 v address2) (read_s rt2)
         });
         write_back address1; ret False
       } else if opc = 1 then do {
         (if is_load then do {
           call1 (write_d rt) (add_load_64 address1); zero_msb rt;
           call1 (write_d rt2) (add_load_64 address2); zero_msb rt2
         } else do {
           call1 (\<lambda>v. add_store_64 v address1) (read_d rt);
           call1 (\<lambda>v. add_store_64 v address2) (read_d rt2)
         });
         write_back address1; ret False
       } else if opc = 2 then do {
         (if is_load then do {
           call1 (write_v_lsb rt) (add_load_64 address1);
           call1 (write_v_msb rt) (call1 (\<lambda>a. add_load_64 a) (next8 address1));
           call1 (write_v_lsb rt2) (add_load_64 address2);
           call1 (write_v_msb rt2) (call1 (\<lambda>a. add_load_64 a) (next8 address2))
         } else do {
           call1 (\<lambda>v. add_store_64 v address1) (read_v_lsb rt);
           call2 (\<lambda>v a. add_store_64 v a) (read_v_msb rt) (next8 address1);
           call1 (\<lambda>v. add_store_64 v address2) (read_v_lsb rt2);
           call2 (\<lambda>v a. add_store_64 v a) (read_v_msb rt2) (next8 address2)
         });
         write_back address1; ret False
       } else illegal_opcode c
     })"

definition dis_load_store_no_allocate_pair_offset_simd_vfp :: "dis_context \<Rightarrow> u32 \<Rightarrow> bool dis" where
  "dis_load_store_no_allocate_pair_offset_simd_vfp c insn = dis_load_store_pair_simd_vfp c insn"
definition dis_load_store_pair_pre_indexed_simd_vfp :: "dis_context \<Rightarrow> u32 \<Rightarrow> bool dis" where
  "dis_load_store_pair_pre_indexed_simd_vfp c insn = dis_load_store_pair_simd_vfp c insn"
definition dis_load_store_pair_offset_simd_vfp :: "dis_context \<Rightarrow> u32 \<Rightarrow> bool dis" where
  "dis_load_store_pair_offset_simd_vfp c insn = dis_load_store_pair_simd_vfp c insn"
definition dis_load_store_pair_post_indexed_simd_vfp :: "dis_context \<Rightarrow> u32 \<Rightarrow> bool dis" where
  "dis_load_store_pair_post_indexed_simd_vfp c insn = dis_load_store_pair_simd_vfp c insn"

section \<open>Literals\<close>

definition dis_load_register_literal :: "dis_context \<Rightarrow> u32 \<Rightarrow> bool dis" where
  "dis_load_register_literal c insn = (
     let opc = fld insn 31 30; imm19 = sext 43 (ucast (push_bit 2 (INSN insn 23 5))); rt = fld insn 4 0 in
     if opc = 3 then ret False
     else do {
       address \<leftarrow> mk_64 (ctx_pc c + imm19);
       (if opc = 0 then call1 (\<lambda>v. write_w rt v ZERO_REG) (add_load_32 address)
       else if opc = 1 then call1 (\<lambda>v. write_x rt v ZERO_REG) (add_load_64 address)
       else call1 (\<lambda>v. write_w_sign_extend rt v ZERO_REG) (add_load_32 address));
       ret False
     })"

definition dis_load_register_literal_simd :: "dis_context \<Rightarrow> u32 \<Rightarrow> bool dis" where
  "dis_load_register_literal_simd c insn = (
     let opc = fld insn 31 30; imm19 = signed_drop_bit 43 (push_bit 45 (ucast (INSN insn 23 5))); rt = fld insn 4 0 in
     do {
       address \<leftarrow> mk_64 (ctx_pc c + imm19);
       if opc = 0 then do { call1 (write_s rt) (add_load_32 address); ret False }
       else if opc = 1 then do { call1 (write_d rt) (add_load_64 address); ret False }
       else if opc = 2 then do {
         address2 \<leftarrow> mk_64 (ctx_pc c + imm19 + 8);
         call1 (write_v_lsb rt) (add_load_64 address);
         call1 (write_v_msb rt) (add_load_64 address2);
         ret False
       } else illegal_opcode c
     })"

section \<open>Single registers\<close>

definition dis_load_store_register :: "dis_context \<Rightarrow> nat \<Rightarrow> nat \<Rightarrow> nat \<Rightarrow> nat \<Rightarrow> bool dis" where
  "dis_load_store_register c sz opc rt address = (
     if opc = 0 then do {
       (if sz = 0 then call1 (\<lambda>v. add_store_8 v address) (call1 (\<lambda>x. add_64_to_8 x) (read_x rt ZERO_REG))
       else if sz = 1 then call1 (\<lambda>v. add_store_16 v address) (call1 (\<lambda>x. add_64_to_16 x) (read_x rt ZERO_REG))
       else if sz = 2 then call1 (\<lambda>v. add_store_32 v address) (read_w rt ZERO_REG)
       else if sz = 3 then call1 (\<lambda>v. add_store_64 v address) (read_x rt ZERO_REG)
       else ret ());
       ret False
     } else if opc = 1 then do {
       res \<leftarrow> (if sz = 0 then call1 (\<lambda>x. add_8U_to_64 x) (add_load_8 address)
         else if sz = 1 then call1 (\<lambda>x. add_16U_to_64 x) (add_load_16 address)
         else if sz = 2 then call1 (\<lambda>x. add_32U_to_64 x) (add_load_32 address)
         else add_load_64 address);
       write_x rt res ZERO_REG;
       ret False
     } else if opc = 2 then
       if sz < 3 then do {
         res \<leftarrow> (if sz = 0 then call1 (\<lambda>x. add_8S_to_64 x) (add_load_8 address)
           else if sz = 1 then call1 (\<lambda>x. add_16S_to_64 x) (add_load_16 address)
           else call1 (\<lambda>x. add_32S_to_64 x) (add_load_32 address));
         write_x rt res ZERO_REG;
         ret False
       } else illegal_opcode c
     else
       if sz < 2 then do {
         res \<leftarrow> (if sz = 0 then call1 (\<lambda>x. add_8S_to_32 x) (add_load_8 address)
           else call1 (\<lambda>x. add_16S_to_32 x) (add_load_16 address));
         write_w rt res ZERO_REG;
         ret False
       } else illegal_opcode c)"

definition dis_load_store_register_simd :: "dis_context \<Rightarrow> bool \<Rightarrow> nat \<Rightarrow> nat \<Rightarrow> nat \<Rightarrow> bool dis" where
  "dis_load_store_register_simd c is_load sz rt address = (
     let zero_msb = call1 (write_v_msb rt) (mk_64 0); next8 = call2 add_add_64 (ret address) (mk_64 8) in
     if is_load then
       if sz = 0 then do { call1 (write_b rt) (add_load_8 address); zero_msb; ret False }
       else if sz = 1 then do { call1 (write_h rt) (add_load_16 address); zero_msb; ret False }
       else if sz = 2 then do { call1 (write_s rt) (add_load_32 address); zero_msb; ret False }
       else if sz = 3 then do { call1 (write_d rt) (add_load_64 address); zero_msb; ret False }
       else if sz = 4 then do {
         call1 (write_v_lsb rt) (add_load_64 address);
         call1 (write_v_msb rt) (call1 (\<lambda>a. add_load_64 a) next8);
         ret False
       } else illegal_opcode c
     else
       if sz = 0 then do { call1 (\<lambda>v. add_store_8 v address) (read_b rt); ret False }
       else if sz = 1 then do { call1 (\<lambda>v. add_store_16 v address) (read_h rt); ret False }
       else if sz = 2 then do { call1 (\<lambda>v. add_store_32 v address) (read_s rt); ret False }
       else if sz = 3 then do { call1 (\<lambda>v. add_store_64 v address) (read_d rt); ret False }
       else if sz = 4 then do {
         call1 (\<lambda>v. add_store_64 v address) (read_v_lsb rt);
         call2 (\<lambda>v a. add_store_64 v a) (read_v_msb rt) next8;
         ret False
       } else illegal_opcode c)"

definition dis_load_store_register_unsigned_offset :: "dis_context \<Rightarrow> u32 \<Rightarrow> bool dis" where
  "dis_load_store_register_unsigned_offset c insn = (
     let sz = fld insn 31 30; opc = fld insn 23 22; imm12 = INSN insn 21 10; rn = fld insn 9 5; rt = fld insn 4 0 in
     if sz = 3 \<and> opc = 2 then ret False
     else do {
       address \<leftarrow> call2 add_add_64 (read_x rn SP_REG) (mk_64 (ucast (push_bit sz imm12)));
       dis_load_store_register c sz opc rt address
     })"

text \<open>\<open>(INSN(23,23) << 2) | INSN(31,30)\<close>\<close>

definition simd_size :: "u32 \<Rightarrow> nat" where
  "simd_size insn = unat (push_bit 2 (INSN insn 23 23) OR INSN insn 31 30)"

definition dis_load_store_register_unsigned_offset_simd :: "dis_context \<Rightarrow> u32 \<Rightarrow> bool dis" where
  "dis_load_store_register_unsigned_offset_simd c insn = (
     let sz = simd_size insn; is_load = flag insn 22; imm12 = INSN insn 21 10; rn = fld insn 9 5; rt = fld insn 4 0 in
     do {
       address \<leftarrow> call2 add_add_64 (read_x rn SP_REG) (mk_64 (ucast (push_bit sz imm12)));
       dis_load_store_register_simd c is_load sz rt address
     })"

definition dis_load_store_register_unscaled_immediate :: "dis_context \<Rightarrow> u32 \<Rightarrow> bool dis" where
  "dis_load_store_register_unscaled_immediate c insn = (
     let sz = fld insn 31 30; opc = fld insn 23 22; imm9 = sext 55 (ucast (INSN insn 20 12)); rn = fld insn 9 5; rt = fld insn 4 0 in
     if sz = 3 \<and> opc = 2 then ret False
     else do {
       address \<leftarrow> call2 add_add_64 (read_x rn SP_REG) (mk_64 imm9);
       dis_load_store_register c sz opc rt address
     })"

definition dis_load_store_register_unscaled_immediate_simd :: "dis_context \<Rightarrow> u32 \<Rightarrow> bool dis" where
  "dis_load_store_register_unscaled_immediate_simd c insn = (
     let sz = simd_size insn; is_load = flag insn 22; rn = fld insn 9 5; rt = fld insn 4 0; imm9 = sext 55 (ucast (INSN insn 20 12)) in
     do {
       address \<leftarrow> call2 add_add_64 (read_x rn SP_REG) (mk_64 imm9);
       dis_load_store_register_simd c is_load sz rt address
     })"

definition dis_load_store_register_immediate_post_indexed :: "dis_context \<Rightarrow> u32 \<Rightarrow> bool dis" where
  "dis_load_store_register_immediate_post_indexed c insn = (
     let sz = fld insn 31 30; opc = fld insn 23 22; imm9 = sext 55 (ucast (INSN insn 20 12)); rn = fld insn 9 5; rt = fld insn 4 0 in
     do {
       address \<leftarrow> read_x rn SP_REG;
       res \<leftarrow> dis_load_store_register c sz opc rt address;
       call1 (\<lambda>v. write_x rn v SP_REG) (call2 add_add_64 (ret address) (mk_64 imm9));
       ret res
     })"

definition dis_load_store_register_immediate_post_indexed_simd :: "dis_context \<Rightarrow> u32 \<Rightarrow> bool dis" where
  "dis_load_store_register_immediate_post_indexed_simd c insn = (
     let sz = simd_size insn; is_load = flag insn 22; rn = fld insn 9 5; rt = fld insn 4 0; imm9 = sext 55 (ucast (INSN insn 20 12)) in
     do {
       address \<leftarrow> read_x rn SP_REG;
       res \<leftarrow> dis_load_store_register_simd c is_load sz rt address;
       call1 (\<lambda>v. write_x rn v SP_REG) (call2 add_add_64 (ret address) (mk_64 imm9));
       ret res
     })"

definition dis_load_store_register_register_offset :: "dis_context \<Rightarrow> u32 \<Rightarrow> bool dis" where
  "dis_load_store_register_register_offset c insn = (
     let sz = fld insn 31 30; opc = fld insn 23 22; rn = fld insn 9 5; rt = fld insn 4 0; rm = fld insn 20 16;
         option = fld insn 15 13; S = flag insn 12 in
     if sz = 3 \<and> opc = 2 then ret False
     else if option = 3 \<or> option = 7 \<or> option = 2 \<or> option = 6 then do {
       offset_not_scale \<leftarrow> (if option = 3 \<or> option = 7 then read_x rm ZERO_REG
         else if option = 2 then call1 (\<lambda>x. add_32U_to_64 x) (read_w rm ZERO_REG)
         else call1 (\<lambda>x. add_32S_to_64 x) (read_w rm ZERO_REG));
       offset \<leftarrow> (if S \<and> sz \<noteq> 0 then call2 add_shl_64 (ret offset_not_scale) (mk_8 (of_nat sz)) else ret offset_not_scale);
       address \<leftarrow> call2 add_add_64 (read_x rn SP_REG) (ret offset);
       dis_load_store_register c sz opc rt address
     } else illegal_opcode c)"

definition dis_load_store_register_register_offset_simd :: "dis_context \<Rightarrow> u32 \<Rightarrow> bool dis" where
  "dis_load_store_register_register_offset_simd c insn = (
     let sz = simd_size insn; is_load = flag insn 22; rn = fld insn 9 5; rt = fld insn 4 0; rm = fld insn 20 16;
         option = fld insn 15 13; S = flag insn 12 in
     if option = 3 \<or> option = 7 \<or> option = 2 \<or> option = 6 then do {
       offset_not_scale \<leftarrow> (if option = 3 \<or> option = 7 then read_x rm ZERO_REG
         else if option = 2 then call1 (\<lambda>x. add_32U_to_64 x) (read_w rm ZERO_REG)
         else call1 (\<lambda>x. add_32S_to_64 x) (read_w rm ZERO_REG));
       offset \<leftarrow> (if S \<and> sz \<noteq> 0 then call2 add_shl_64 (ret offset_not_scale) (mk_8 (of_nat sz)) else ret offset_not_scale);
       address \<leftarrow> call2 add_add_64 (read_x rn SP_REG) (ret offset);
       dis_load_store_register_simd c is_load sz rt address
     } else illegal_opcode c)"

definition dis_load_store_register_unprivileged :: "dis_context \<Rightarrow> u32 \<Rightarrow> bool dis" where
  "dis_load_store_register_unprivileged c insn = dis_load_store_register_unscaled_immediate c insn"

definition dis_load_store_register_immediate_pre_indexed :: "dis_context \<Rightarrow> u32 \<Rightarrow> bool dis" where
  "dis_load_store_register_immediate_pre_indexed c insn = (
     let sz = fld insn 31 30; opc = fld insn 23 22; imm9 = sext 55 (ucast (INSN insn 20 12)); rn = fld insn 9 5; rt = fld insn 4 0 in
     do {
       address \<leftarrow> call2 add_add_64 (read_x rn SP_REG) (mk_64 imm9);
       res \<leftarrow> dis_load_store_register c sz opc rt address;
       write_x rn address SP_REG;
       ret res
     })"

definition dis_load_store_register_immediate_pre_indexed_simd :: "dis_context \<Rightarrow> u32 \<Rightarrow> bool dis" where
  "dis_load_store_register_immediate_pre_indexed_simd c insn = (
     let sz = simd_size insn; is_load = flag insn 22; rn = fld insn 9 5; rt = fld insn 4 0; imm9 = sext 55 (ucast (INSN insn 20 12)) in
     do {
       address \<leftarrow> call2 add_add_64 (read_x rn SP_REG) (mk_64 imm9);
       res \<leftarrow> dis_load_store_register_simd c is_load sz rt address;
       write_x rn address SP_REG;
       ret res
     })"

section \<open>Exclusive and ordered accesses\<close>

definition dis_load_exclusive :: "dis_context \<Rightarrow> u32 \<Rightarrow> bool dis" where
  "dis_load_exclusive c insn = do {
     p0 \<leftarrow> read_x (fld insn 9 5) SP_REG;
     p1 \<leftarrow> mk_32 (INSN insn 31 30);
     result \<leftarrow> mk_call_64 c ''arm64_hlp_ldxr'' (mk_64 (hlp_addr c ''arm64_hlp_ldxr'')) [Some p0, Some p1, None, None];
     write_x (fld insn 4 0) result ZERO_REG;
     ret False
   }"

definition dis_load_aquire_exclusive :: "dis_context \<Rightarrow> u32 \<Rightarrow> bool dis" where
  "dis_load_aquire_exclusive c insn = do {
     p0 \<leftarrow> read_x (fld insn 9 5) SP_REG;
     p1 \<leftarrow> mk_32 (INSN insn 31 30);
     result \<leftarrow> mk_call_64 c ''arm64_hlp_ldaxr'' (mk_64 (hlp_addr c ''arm64_hlp_ldaxr'')) [Some p0, Some p1, None, None];
     write_x (fld insn 4 0) result ZERO_REG;
     ret False
   }"

definition dis_load_aquire_exclusive_pair :: "dis_context \<Rightarrow> u32 \<Rightarrow> bool dis" where
  "dis_load_aquire_exclusive_pair c insn = do { mk_dirty c ''arm64_hlp_ldaxp_dirty'' insn; ret False }"
definition dis_load_exclusive_pair :: "dis_context \<Rightarrow> u32 \<Rightarrow> bool dis" where
  "dis_load_exclusive_pair c insn = do { mk_dirty c ''arm64_hlp_ldxp_dirty'' insn; ret False }"

definition dis_load_aquire :: "dis_context \<Rightarrow> u32 \<Rightarrow> bool dis" where
  "dis_load_aquire c insn = (
     let sz = fld insn 31 30; rt = fld insn 4 0; rn = fld insn 9 5 in
     do {
       (if sz = 3 then call1 (\<lambda>v. write_x rt v ZERO_REG) (call1 (\<lambda>a. add_load_64 a) (read_x rn SP_REG))
       else if sz = 2 then call1 (\<lambda>v. write_w rt v ZERO_REG) (call1 (\<lambda>a. add_load_32 a) (read_x rn SP_REG))
       else if sz = 1 then call1 (\<lambda>v. write_x rt v ZERO_REG) (call1 (\<lambda>x. add_16U_to_64 x) (call1 (\<lambda>a. add_load_16 a) (read_x rn SP_REG)))
       else call1 (\<lambda>v. write_x rt v ZERO_REG) (call1 (\<lambda>x. add_8U_to_64 x) (call1 (\<lambda>a. add_load_8 a) (read_x rn SP_REG))));
       mk_barrier c;
       ret False
     })"

definition dis_store_release :: "dis_context \<Rightarrow> u32 \<Rightarrow> bool dis" where
  "dis_store_release c insn = (
     let sz = fld insn 31 30; rt = fld insn 4 0; rn = fld insn 9 5 in
     do {
       mk_barrier c;
       (if sz = 3 then call2 (\<lambda>v a. add_store_64 v a) (read_x rt ZERO_REG) (read_x rn SP_REG)
       else if sz = 2 then call2 (\<lambda>v a. add_store_32 v a) (read_w rt ZERO_REG) (read_x rn SP_REG)
       else if sz = 1 then call2 (\<lambda>v a. add_store_16 v a) (call1 (\<lambda>x. add_64_to_16 x) (read_x rt ZERO_REG)) (read_x rn SP_REG)
       else call2 (\<lambda>v a. add_store_8 v a) (call1 (\<lambda>x. add_64_to_8 x) (read_x rt ZERO_REG)) (read_x rn SP_REG));
       ret False
     })"

definition dis_store_exclusive :: "dis_context \<Rightarrow> u32 \<Rightarrow> bool dis" where
  "dis_store_exclusive c insn = do {
     p0 \<leftarrow> read_x (fld insn 9 5) SP_REG;
     p1 \<leftarrow> mk_32 (INSN insn 31 30);
     p2 \<leftarrow> read_x (fld insn 4 0) ZERO_REG;
     result \<leftarrow> mk_call_32 c ''arm64_hlp_stxr'' (mk_64 (hlp_addr c ''arm64_hlp_stxr'')) [Some p0, Some p1, Some p2, None];
     write_w (fld insn 20 16) result ZERO_REG;
     ret False
   }"

definition dis_store_exclusive_pair :: "dis_context \<Rightarrow> u32 \<Rightarrow> bool dis" where
  "dis_store_exclusive_pair c insn = do { mk_dirty c ''arm64_hlp_stxp_dirty'' insn; ret False }"
definition dis_store_release_exclusive_pair :: "dis_context \<Rightarrow> u32 \<Rightarrow> bool dis" where
  "dis_store_release_exclusive_pair c insn = do { mk_dirty c ''arm64_hlp_stlxp_dirty'' insn; ret False }"

definition dis_store_release_exclusive :: "dis_context \<Rightarrow> u32 \<Rightarrow> bool dis" where
  "dis_store_release_exclusive c insn = do {
     p0 \<leftarrow> read_x (fld insn 9 5) SP_REG;
     p1 \<leftarrow> mk_32 (INSN insn 31 30);
     p2 \<leftarrow> read_x (fld insn 4 0) ZERO_REG;
     result \<leftarrow> mk_call_32 c ''arm64_hlp_stlxr'' (mk_64 (hlp_addr c ''arm64_hlp_stlxr'')) [Some p0, Some p1, Some p2, None];
     write_w (fld insn 20 16) result ZERO_REG;
     ret False
   }"

section \<open>Structures of vector registers\<close>

definition dis_load_store_multiple_structure :: "dis_context \<Rightarrow> u32 \<Rightarrow> bool dis" where
  "dis_load_store_multiple_structure c insn = do { mk_dirty c ''arm64_hlp_dirty_advanced_simd_load_store_multiple_structure_simd'' insn; ret False }"
definition dis_load_store_multiple_structure_post_index :: "dis_context \<Rightarrow> u32 \<Rightarrow> bool dis" where
  "dis_load_store_multiple_structure_post_index c insn = do { mk_dirty c ''arm64_hlp_dirty_advanced_simd_load_store_multiple_structure_post_index_simd'' insn; ret False }"
definition dis_load_store_single_structure :: "dis_context \<Rightarrow> u32 \<Rightarrow> bool dis" where
  "dis_load_store_single_structure c insn = do { mk_dirty c ''arm64_hlp_dirty_advanced_simd_load_store_single_structure_simd'' insn; ret False }"
definition dis_load_store_single_structure_post_index :: "dis_context \<Rightarrow> u32 \<Rightarrow> bool dis" where
  "dis_load_store_single_structure_post_index c insn = do { mk_dirty c ''arm64_hlp_dirty_advanced_simd_load_store_single_structure_post_index_simd'' insn; ret False }"

section \<open>Decoding\<close>

definition dis_load_store_exclusive :: "dis_context \<Rightarrow> u32 \<Rightarrow> bool dis" where
  "dis_load_store_exclusive c insn = (
     let o2 = fld insn 23 23; o1 = fld insn 21 21; o0 = fld insn 15 15; l = fld insn 22 22 in
     if o0 = 1 \<and> o1 = 0 \<and> o2 = 0 \<and> l = 1 then dis_load_aquire_exclusive c insn
     else if o0 = 1 \<and> o1 = 1 \<and> o2 = 0 \<and> l = 1 then dis_load_aquire_exclusive_pair c insn
     else if o0 = 0 \<and> o1 = 1 \<and> o2 = 0 \<and> l = 1 then dis_load_exclusive_pair c insn
     else if o0 = 1 \<and> o1 = 0 \<and> o2 = 1 \<and> l = 1 then dis_load_aquire c insn
     else if o0 = 0 \<and> o1 = 0 \<and> o2 = 0 \<and> l = 1 then dis_load_exclusive c insn
     else if o0 = 0 \<and> o1 = 0 \<and> o2 = 0 \<and> l = 0 then dis_store_exclusive c insn
     else if o0 = 1 \<and> o1 = 0 \<and> o2 = 0 \<and> l = 0 then dis_store_release_exclusive c insn
     else if o0 = 1 \<and> o1 = 0 \<and> o2 = 1 \<and> l = 0 then dis_store_release c insn
     else if o0 = 0 \<and> o1 = 1 \<and> o2 = 0 \<and> l = 0 then dis_store_exclusive_pair c insn
     else if o0 = 1 \<and> o1 = 1 \<and> o2 = 0 \<and> l = 0 then dis_store_release_exclusive_pair c insn
     else illegal_opcode c)"

definition dis_load_store_insn :: "dis_context \<Rightarrow> u32 \<Rightarrow> bool dis" where
  "dis_load_store_insn c insn = (
     let op_29__28 = fld insn 29 28; op_24__23 = fld insn 24 23; simd = flag insn 26 in
     if op_29__28 = 0 then
       if fld insn 28 24 = 0x08 then dis_load_store_exclusive c insn
       else if op_24__23 = 0 then dis_load_store_multiple_structure c insn
       else if op_24__23 = 1 then dis_load_store_multiple_structure_post_index c insn
       else if op_24__23 = 2 then dis_load_store_single_structure c insn
       else dis_load_store_single_structure_post_index c insn
     else if op_29__28 = 1 then
       if simd then dis_load_register_literal_simd c insn else dis_load_register_literal c insn
     else if op_29__28 = 2 then
       if op_24__23 = 0 then
         if simd then dis_load_store_no_allocate_pair_offset_simd_vfp c insn else dis_load_store_no_allocate_pair_offset c insn
       else if op_24__23 = 1 then
         if simd then dis_load_store_pair_post_indexed_simd_vfp c insn else dis_load_store_pair_post_indexed c insn
       else if op_24__23 = 2 then
         if simd then dis_load_store_pair_offset_simd_vfp c insn else dis_load_store_pair_offset c insn
       else
         if simd then dis_load_store_pair_pre_indexed_simd_vfp c insn else dis_load_store_pair_pre_indexed c insn
     else
       if flag insn 24 then
         if simd then dis_load_store_register_unsigned_offset_simd c insn else dis_load_store_register_unsigned_offset c insn
       else if fld insn 11 10 = 0 then
         if simd then dis_load_store_register_unscaled_immediate_simd c insn else dis_load_store_register_unscaled_immediate c insn
       else if fld insn 11 10 = 1 then
         if simd then dis_load_store_register_immediate_post_indexed_simd c insn else dis_load_store_register_immediate_post_indexed c insn
       else if fld insn 11 10 = 2 then
         if flag insn 21 then
           if simd then dis_load_store_register_register_offset_simd c insn else dis_load_store_register_register_offset c insn
         else dis_load_store_register_unprivileged c insn
       else
         if simd then dis_load_store_register_immediate_pre_indexed_simd c insn else dis_load_store_register_immediate_pre_indexed c insn)"

end
