(* ===== verification/Arm64_Dis_Data.thy ===== *)
theory Arm64_Dis_Data
  imports Arm64_Dis_Base
begin

text \<open>The integer data processing instructions of \<open>src/src/target/arm64/disassembler/arm64_disassembler.c\<close>.\<close>

section \<open>Additions and subtractions\<close>

definition dis_add_sub :: "dis_context \<Rightarrow> u32 \<Rightarrow> nat \<Rightarrow> nat \<Rightarrow> bool \<Rightarrow> bool dis" where
  "dis_add_sub c insn op1 op2 is_rd_zero_reg = (
     let is_64 = flag insn 31; is_sub = flag insn 30; S = flag insn 29; rd = fld insn 4 0 in
     do {
       res \<leftarrow> (if is_sub then if is_64 then add_sub_64 op1 op2 else add_sub_32 op1 op2
         else if is_64 then add_add_64 op1 op2 else add_add_32 op1 op2);
       (if S then
          if is_64 then call1 write_nzcv (mk_next_nzcv_64 c (if is_sub then OPS_SUB else OPS_ADD) op1 op2)
          else call1 write_nzcv (mk_next_nzcv_32 c (if is_sub then OPS_SUB else OPS_ADD) op1 op2)
        else ret ());
       (if is_64 then write_x rd res (if S then ZERO_REG else is_rd_zero_reg)
        else write_w rd res (if S then ZERO_REG else is_rd_zero_reg));
       ret False
     })"

definition dis_add_sub_immediate_insn :: "dis_context \<Rightarrow> u32 \<Rightarrow> bool dis" where
  "dis_add_sub_immediate_insn c insn = (
     let is_64 = flag insn 31; shift = fld insn 23 22; imm12 = INSN insn 21 10; rn = fld insn 9 5 in
     if \<not> (shift \<noteq> 2 \<and> shift \<noteq> 3) then illegal_opcode c
     else (let imm12 = (if shift = 1 then push_bit 12 imm12 else imm12) in
       do {
         op1 \<leftarrow> (if is_64 then read_x rn SP_REG else read_w rn SP_REG);
         op2 \<leftarrow> (if is_64 then mk_64 (ucast imm12) else mk_32 imm12);
         dis_add_sub c insn op1 op2 SP_REG
       }))"

definition dis_add_sub_shifted_register_insn :: "dis_context \<Rightarrow> u32 \<Rightarrow> bool dis" where
  "dis_add_sub_shifted_register_insn c insn = (
     let is_64 = flag insn 31; shift = fld insn 23 22; imm6 = fld insn 15 10; rn = fld insn 9 5; rm = fld insn 20 16 in
     if is_64 then do {
       op1 \<leftarrow> read_x rn ZERO_REG;
       if imm6 \<noteq> 0 then
         if shift = 3 then illegal_opcode c
         else do {
           op2 \<leftarrow> (if shift = 0 then call2 add_shl_64 (read_x rm ZERO_REG) (mk_8 (of_nat imm6))
             else if shift = 1 then call2 add_shr_64 (read_x rm ZERO_REG) (mk_8 (of_nat imm6))
             else call2 add_asr_64 (read_x rm ZERO_REG) (mk_8 (of_nat imm6)));
           dis_add_sub c insn op1 op2 ZERO_REG
         }
       else do { op2 \<leftarrow> read_x rm ZERO_REG; dis_add_sub c insn op1 op2 ZERO_REG }
     } else do {
       op1 \<leftarrow> read_w rn ZERO_REG;
       if imm6 \<noteq> 0 then
         if \<not> imm6 < 32 then illegal_opcode c
         else if shift = 3 then illegal_opcode c
         else do {
           op2 \<leftarrow> (if shift = 0 then call2 add_shl_32 (read_w rm ZERO_REG) (mk_8 (of_nat imm6))
             else if shift = 1 then call2 add_shr_32 (read_w rm ZERO_REG) (mk_8 (of_nat imm6))
             else call2 add_asr_32 (read_w rm ZERO_REG) (mk_8 (of_nat imm6)));
           dis_add_sub c insn op1 op2 ZERO_REG
         }
       else do { op2 \<leftarrow> read_w rm ZERO_REG; dis_add_sub c insn op1 op2 ZERO_REG }
     })"

definition dis_add_sub_extended_register_insn :: "dis_context \<Rightarrow> u32 \<Rightarrow> bool dis" where
  "dis_add_sub_extended_register_insn c insn = (
     let is_64 = flag insn 31; rn = fld insn 9 5; rm = fld insn 20 16; option = fld insn 15 13; imm3 = fld insn 12 10 in
     do {
       op1 \<leftarrow> (if is_64 then read_x rn SP_REG else read_w rn SP_REG);
       op2 \<leftarrow> (if is_64 then mk_extend_reg_64 rm option imm3 else mk_extend_reg_32 rm option imm3);
       dis_add_sub c insn op1 op2 SP_REG
     })"

definition dis_add_substract_with_carry :: "dis_context \<Rightarrow> u32 \<Rightarrow> bool dis" where
  "dis_add_substract_with_carry c insn = (
     let is_64 = flag insn 31; is_sub = flag insn 30; rd = fld insn 4 0; rn = fld insn 9 5; rm = fld insn 20 16; S = flag insn 29 in
     do {
       carry \<leftarrow> call2 add_and_32 (call2 add_shr_32 read_nzcv (mk_8 29)) (mk_32 1);
       if is_64 then do {
         op1 \<leftarrow> read_x rn ZERO_REG;
         op2 \<leftarrow> read_x rm ZERO_REG;
         op2_inverted \<leftarrow> (if is_sub then call2 add_xor_64 (ret op2) (mk_64 (NOT 0)) else ret op2);
         res \<leftarrow> call2 add_add_64 (add_add_64 op1 op2_inverted) (add_32U_to_64 carry);
         (if S then call1 write_nzcv (mk_next_nzcv_64 c OPS_ADC op1 op2_inverted) else ret ());
         write_x rd res ZERO_REG;
         ret False
       } else do {
         op1 \<leftarrow> read_w rn ZERO_REG;
         op2 \<leftarrow> read_w rm ZERO_REG;
         op2_inverted \<leftarrow> (if is_sub then call2 add_xor_32 (ret op2) (mk_32 (NOT 0)) else ret op2);
         res \<leftarrow> call2 add_add_32 (add_add_32 op1 op2_inverted) (ret carry);
         (if S then call1 write_nzcv (mk_next_nzcv_32 c OPS_ADC op1 op2_inverted) else ret ());
         write_w rd res ZERO_REG;
         ret False
       }
     })"

section \<open>Addresses and wide moves\<close>

definition dis_adrp :: "dis_context \<Rightarrow> u32 \<Rightarrow> bool dis" where
  "dis_adrp c insn = (
     let imm = push_bit 14 (ucast (INSN insn 23 5)) + ucast (push_bit 12 (INSN insn 30 29)); rd = fld insn 4 0; imm = sext 31 imm in
     do {
       call1 (\<lambda>v. write_x rd v ZERO_REG) (mk_64 ((ctx_pc c AND NOT 0xfff) + imm));
       ret False
     })"

definition dis_adr :: "dis_context \<Rightarrow> u32 \<Rightarrow> bool dis" where
  "dis_adr c insn = (
     let imm = ucast (push_bit 2 (INSN insn 23 5) + INSN insn 30 29); rd = fld insn 4 0; imm = sext 43 imm in
     do {
       call1 (\<lambda>v. write_x rd v ZERO_REG) (mk_64 (ctx_pc c + imm));
       ret False
     })"

definition dis_movn :: "dis_context \<Rightarrow> u32 \<Rightarrow> bool dis" where
  "dis_movn c insn = (
     let is_64 = flag insn 31; rd = fld insn 4 0; pos = 16 * fld insn 22 21; imm16 = NOT (push_bit pos (ucast (INSN insn 20 5))) :: u64 in
     do {
       (if is_64 then call1 (\<lambda>v. write_x rd v ZERO_REG) (mk_64 imm16)
        else call1 (\<lambda>v. write_w rd v ZERO_REG) (mk_32 (ucast imm16)));
       ret False
     })"

definition dis_movz :: "dis_context \<Rightarrow> u32 \<Rightarrow> bool dis" where
  "dis_movz c insn = (
     let is_64 = flag insn 31; rd = fld insn 4 0; pos = 16 * fld insn 22 21; imm16 = push_bit pos (ucast (INSN insn 20 5)) :: u64 in
     do {
       (if is_64 then call1 (\<lambda>v. write_x rd v ZERO_REG) (mk_64 imm16)
        else call1 (\<lambda>v. write_w rd v ZERO_REG) (mk_32 (ucast imm16)));
       ret False
     })"

definition dis_movk :: "dis_context \<Rightarrow> u32 \<Rightarrow> bool dis" where
  "dis_movk c insn = (
     let is_64 = flag insn 31; rd = fld insn 4 0; pos = 16 * fld insn 22 21; mask = push_bit pos 0xffff;
         imm16 = push_bit pos (ucast (INSN insn 20 5)) in
     do {
       res \<leftarrow> call2 add_or_64 (call2 add_and_64 (read_x rd ZERO_REG) (mk_64 (NOT mask))) (mk_64 imm16);
       (if is_64 then write_x rd res ZERO_REG
        else call1 (\<lambda>v. write_w rd v ZERO_REG) (add_64_to_32 res));
       ret False
     })"

section \<open>Logical operations\<close>

text \<open>The end the two logical instructions share: the flags and the result.\<close>

definition logical_result :: "dis_context \<Rightarrow> bool \<Rightarrow> bool \<Rightarrow> nat \<Rightarrow> nat \<Rightarrow> bool \<Rightarrow> bool dis" where
  "logical_result c is_64 is_setflags rd res is_zero = do {
     (if is_setflags then
        if is_64 then call1 write_nzcv (do { z \<leftarrow> mk_64 0; mk_next_nzcv_64 c OPS_LOGICAL res z })
        else call1 write_nzcv (do { w \<leftarrow> add_64_to_32 res; z \<leftarrow> mk_32 0; mk_next_nzcv_32 c OPS_LOGICAL w z })
      else ret ());
     (if is_64 then write_x rd res is_zero
      else call1 (\<lambda>v. write_w rd v is_zero) (add_64_to_32 res));
     ret False
   }"

definition dis_logical_shifted_register :: "dis_context \<Rightarrow> u32 \<Rightarrow> bool dis" where
  "dis_logical_shifted_register c insn = (
     let is_64 = flag insn 31; opc = fld insn 30 29; n = flag insn 21; shift = fld insn 23 22; imm6 = fld insn 15 10;
         rm = fld insn 20 16; rn = fld insn 9 5; rd = fld insn 4 0 in
     do {
       op2 \<leftarrow> (if imm6 \<noteq> 0 then
           if shift = 0 then call2 add_shl_64 (read_x rm ZERO_REG) (mk_8 (of_nat imm6))
           else if shift = 1 then
             if is_64 then call2 add_shr_64 (read_x rm ZERO_REG) (mk_8 (of_nat imm6))
             else call1 (\<lambda>x. add_32U_to_64 x) (call2 add_shr_32 (read_w rm ZERO_REG) (mk_8 (of_nat imm6)))
           else if shift = 2 then
             if is_64 then call2 add_asr_64 (read_x rm ZERO_REG) (mk_8 (of_nat imm6))
             else call1 (\<lambda>x. add_32U_to_64 x) (call2 add_asr_32 (read_w rm ZERO_REG) (mk_8 (of_nat imm6)))
           else
             if is_64 then call1 (\<lambda>x. mk_ror_imm_64 x (of_nat imm6)) (read_x rm ZERO_REG)
             else call1 (\<lambda>x. add_32U_to_64 x) (call1 (\<lambda>x. mk_ror_imm_32 x (of_nat imm6)) (read_w rm ZERO_REG))
         else read_x rm ZERO_REG);
       op2_inverted \<leftarrow> (if n then call2 add_xor_64 (ret op2) (mk_64 (NOT 0)) else ret op2);
       res \<leftarrow> (if opc = 1 then call2 add_or_64 (read_x rn ZERO_REG) (ret op2_inverted)
         else if opc = 2 then call2 add_xor_64 (read_x rn ZERO_REG) (ret op2_inverted)
         else call2 add_and_64 (read_x rn ZERO_REG) (ret op2_inverted));
       logical_result c is_64 (opc = 3) rd res ZERO_REG
     })"

text \<open>Shifts of \<open>unsigned long\<close> values, by the low six bits of the count.\<close>

definition rotateRight :: "u64 \<Rightarrow> nat \<Rightarrow> nat \<Rightarrow> u64" where
  "rotateRight value rot width = (let rot = rot mod 64 in
     push_bit ((width - rot) mod 64) (value AND (push_bit rot 1 - 1)) OR drop_bit rot value)"

text \<open>The inner loop, which doubles the pattern up to the width of the register, and the search for the width of the pattern.\<close>

function replicate_imm :: "nat \<Rightarrow> nat \<Rightarrow> u64 \<Rightarrow> u64" where
  "replicate_imm n i immediate = (if i < n \<and> 0 < i then replicate_imm n (i * 2) (immediate OR push_bit i immediate) else immediate)"
  by auto
termination by (relation "measure (\<lambda>(n, i, _). n - i)") auto

definition imm_of_width :: "bool \<Rightarrow> nat \<Rightarrow> nat \<Rightarrow> nat \<Rightarrow> u64" where
  "imm_of_width is_64 imms immr width = (
     let pattern = push_bit (imms mod width + 1) 1 - 1;
         pattern = rotateRight pattern (immr mod width) width;
         immediate = pattern AND (push_bit width 1 - 1) in
     replicate_imm (if is_64 then 64 else 32) width immediate)"

function logical_imm_from :: "bool \<Rightarrow> nat \<Rightarrow> nat \<Rightarrow> nat \<Rightarrow> u64" where
  "logical_imm_from is_64 imms immr width = (if 2 \<le> width then
       if imms AND width = 0 then imm_of_width is_64 imms immr width
       else logical_imm_from is_64 imms immr (width div 2)
     else 0)"
  by auto
termination by (relation "measure (\<lambda>(_, _, _, w). w)") auto

definition logical_immediate :: "bool \<Rightarrow> bool \<Rightarrow> nat \<Rightarrow> nat \<Rightarrow> u64" where
  "logical_immediate is_64 n immr imms = (if n then rotateRight (push_bit ((imms + 1) mod 64) 1 - 1) immr 64
     else logical_imm_from is_64 imms immr 0x20)"

definition dis_logical_immediate :: "dis_context \<Rightarrow> u32 \<Rightarrow> bool dis" where
  "dis_logical_immediate c insn = (
     let is_64 = flag insn 31; opc = fld insn 30 29; rn = fld insn 9 5; rd = fld insn 4 0; n = flag insn 22;
         immr = fld insn 21 16; imms = fld insn 15 10; immediate = logical_immediate is_64 n immr imms in
     do {
       res \<leftarrow> (if opc = 1 then call2 add_or_64 (read_x rn ZERO_REG) (mk_64 immediate)
         else if opc = 2 then call2 add_xor_64 (read_x rn ZERO_REG) (mk_64 immediate)
         else call2 add_and_64 (read_x rn ZERO_REG) (mk_64 immediate));
       logical_result c is_64 (opc = 3) rd res (if opc = 3 then ZERO_REG else SP_REG)
     })"

section \<open>Bit fields\<close>

definition dis_bitfield_insn :: "dis_context \<Rightarrow> u32 \<Rightarrow> bool dis" where
  "dis_bitfield_insn c insn = (
     let is_64 = flag insn 31; rn = fld insn 9 5; rd = fld insn 4 0 in
     do {
       p0 \<leftarrow> mk_32 insn;
       p1 \<leftarrow> read_x rn ZERO_REG;
       p2 \<leftarrow> read_x rd ZERO_REG;
       res \<leftarrow> mk_call_64 c ''arm64_hlp_compute_bitfield'' (mk_64 (hlp_addr c ''arm64_hlp_compute_bitfield'')) [Some p0, Some p1, Some p2, None];
       (if is_64 then write_x rd res ZERO_REG
        else call1 (\<lambda>v. write_w rd v ZERO_REG) (add_64_to_32 res));
       ret False
     })"

definition dis_extr :: "dis_context \<Rightarrow> u32 \<Rightarrow> bool dis" where
  "dis_extr c insn = (
     let is_64 = flag insn 31; imms = fld insn 15 10; rd = fld insn 4 0; rn = fld insn 9 5; rm = fld insn 20 16 in
     if rn = rm then
       if is_64 then do {
         res \<leftarrow> call1 (\<lambda>x. mk_ror_imm_64 x (of_nat imms)) (read_x rm ZERO_REG);
         write_x rd res ZERO_REG;
         ret False
       } else do {
         res \<leftarrow> call1 (\<lambda>x. mk_ror_imm_32 x (of_nat imms)) (read_w rm ZERO_REG);
         write_w rd res ZERO_REG;
         ret False
       }
     else
       if is_64 then do {
         res \<leftarrow> call2 add_or_64 (call2 add_shr_64 (read_x rm ZERO_REG) (mk_8 (of_nat imms)))
           (call2 add_shl_64 (read_x rn ZERO_REG) (mk_8 (of_nat (64 - imms))));
         write_x rd res ZERO_REG;
         ret False
       } else if \<not> imms < 32 then illegal_opcode c
       else do {
         res \<leftarrow> call2 add_or_32 (call2 add_shr_32 (read_w rm ZERO_REG) (mk_8 (of_nat imms)))
           (call2 add_shl_32 (read_w rn ZERO_REG) (mk_8 (of_nat (32 - imms))));
         write_w rd res ZERO_REG;
         ret False
       })"

section \<open>Division, shifts, multiplication\<close>

text \<open>The 64-bit divisions ask for a 32-bit result.\<close>

definition dis_udiv :: "dis_context \<Rightarrow> u32 \<Rightarrow> bool dis" where
  "dis_udiv c insn = (
     let is_64 = flag insn 31; rd = fld insn 4 0; rn = fld insn 9 5; rm = fld insn 20 16 in
     if is_64 then do {
       p0 \<leftarrow> read_x rn ZERO_REG;
       p1 \<leftarrow> read_x rm ZERO_REG;
       res \<leftarrow> mk_call_32 c ''arm64_hlp_udiv_64'' (mk_64 (hlp_addr c ''arm64_hlp_udiv_64'')) [Some p0, Some p1, None, None];
       write_x rd res ZERO_REG;
       ret False
     } else do {
       p0 \<leftarrow> read_w rn ZERO_REG;
       p1 \<leftarrow> read_w rm ZERO_REG;
       res \<leftarrow> mk_call_32 c ''arm64_hlp_udiv_32'' (mk_64 (hlp_addr c ''arm64_hlp_udiv_32'')) [Some p0, Some p1, None, None];
       write_w rd res ZERO_REG;
       ret False
     })"

definition dis_sdiv :: "dis_context \<Rightarrow> u32 \<Rightarrow> bool dis" where
  "dis_sdiv c insn = (
     let is_64 = flag insn 31; rd = fld insn 4 0; rn = fld insn 9 5; rm = fld insn 20 16 in
     if is_64 then do {
       p0 \<leftarrow> read_x rn ZERO_REG;
       p1 \<leftarrow> read_x rm ZERO_REG;
       res \<leftarrow> mk_call_32 c ''arm64_hlp_sdiv_64'' (mk_64 (hlp_addr c ''arm64_hlp_sdiv_64'')) [Some p0, Some p1, None, None];
       write_x rd res ZERO_REG;
       ret False
     } else do {
       p0 \<leftarrow> read_w rn ZERO_REG;
       p1 \<leftarrow> read_w rm ZERO_REG;
       res \<leftarrow> mk_call_32 c ''arm64_hlp_sdiv_32'' (mk_64 (hlp_addr c ''arm64_hlp_sdiv_32'')) [Some p0, Some p1, None, None];
       write_w rd res ZERO_REG;
       ret False
     })"

text \<open>The count of a shift by a register: its low five or six bits, as an 8-bit register.\<close>

definition mk_shift_count :: "nat \<Rightarrow> u64 \<Rightarrow> nat dis" where
  "mk_shift_count rm msk = call1 (\<lambda>x. add_64_to_8 x) (call2 add_and_64 (read_x rm ZERO_REG) (mk_64 msk))"

definition dis_lslv :: "dis_context \<Rightarrow> u32 \<Rightarrow> bool dis" where
  "dis_lslv c insn = (
     let is_64 = flag insn 31; rm = fld insn 20 16; rn = fld insn 9 5; rd = fld insn 4 0; msk = (if is_64 then 0x3f else 0x1f) in
     do {
       res \<leftarrow> call2 add_shl_64 (read_x rn ZERO_REG) (mk_shift_count rm msk);
       (if is_64 then write_x rd res ZERO_REG
        else call1 (\<lambda>v. write_w rd v ZERO_REG) (add_64_to_32 res));
       ret False
     })"

definition dis_lsrv :: "dis_context \<Rightarrow> u32 \<Rightarrow> bool dis" where
  "dis_lsrv c insn = (
     let is_64 = flag insn 31; rm = fld insn 20 16; rn = fld insn 9 5; rd = fld insn 4 0; msk = (if is_64 then 0x3f else 0x1f);
         mask_res = (if is_64 then NOT 0 else 0xffffffff) in
     do {
       res \<leftarrow> call2 add_shr_64 (call2 add_and_64 (read_x rn ZERO_REG) (mk_64 mask_res)) (mk_shift_count rm msk);
       (if is_64 then write_x rd res ZERO_REG
        else call1 (\<lambda>v. write_w rd v ZERO_REG) (add_64_to_32 res));
       ret False
     })"

definition dis_asrv :: "dis_context \<Rightarrow> u32 \<Rightarrow> bool dis" where
  "dis_asrv c insn = (
     let is_64 = flag insn 31; rm = fld insn 20 16; rn = fld insn 9 5; rd = fld insn 4 0; msk = (if is_64 then 0x3f else 0x1f) in
     if is_64 then do {
       res \<leftarrow> call2 add_asr_64 (read_x rn ZERO_REG) (mk_shift_count rm msk);
       write_x rd res ZERO_REG;
       ret False
     } else do {
       res \<leftarrow> call2 add_asr_32 (read_w rn ZERO_REG) (mk_shift_count rm msk);
       write_w rd res ZERO_REG;
       ret False
     })"

definition dis_rorv :: "dis_context \<Rightarrow> u32 \<Rightarrow> bool dis" where
  "dis_rorv c insn = (
     let is_64 = flag insn 31; rm = fld insn 20 16; rn = fld insn 9 5; rd = fld insn 4 0 in
     if is_64 then do {
       res \<leftarrow> call2 add_ror_64 (read_x rn ZERO_REG) (mk_shift_count rm 0x3f);
       write_x rd res ZERO_REG;
       ret False
     } else do {
       res \<leftarrow> call2 add_ror_32 (read_w rn ZERO_REG) (mk_shift_count rm 0x1f);
       write_w rd res ZERO_REG;
       ret False
     })"

definition dis_crc32 :: "dis_context \<Rightarrow> u32 \<Rightarrow> bool dis" where
  "dis_crc32 c insn = do { mk_dirty c ''arm64_hlp_dirty_crc32'' insn; ret False }"

definition dis_madd :: "dis_context \<Rightarrow> u32 \<Rightarrow> bool dis" where
  "dis_madd c insn = (
     let is_64 = flag insn 31; rd = fld insn 4 0; ra = fld insn 14 10; rn = fld insn 9 5; rm = fld insn 20 16 in
     do {
       (if is_64 then call1 (\<lambda>v. write_x rd v ZERO_REG) (call2 add_add_64 (read_x ra ZERO_REG)
          (call2 (mk_mul_u_lsb_64 c) (read_x rn ZERO_REG) (read_x rm ZERO_REG)))
        else call1 (\<lambda>v. write_w rd v ZERO_REG) (call2 add_add_32 (read_w ra ZERO_REG)
          (call2 (mk_mul_u_lsb_32 c) (read_w rn ZERO_REG) (read_w rm ZERO_REG))));
       ret False
     })"

definition dis_msub :: "dis_context \<Rightarrow> u32 \<Rightarrow> bool dis" where
  "dis_msub c insn = (
     let is_64 = flag insn 31; rd = fld insn 4 0; ra = fld insn 14 10; rn = fld insn 9 5; rm = fld insn 20 16 in
     do {
       (if is_64 then call1 (\<lambda>v. write_x rd v ZERO_REG) (call2 add_sub_64 (read_x ra ZERO_REG)
          (call2 (mk_mul_u_lsb_64 c) (read_x rn ZERO_REG) (read_x rm ZERO_REG)))
        else call1 (\<lambda>v. write_w rd v ZERO_REG) (call2 add_sub_32 (read_w ra ZERO_REG)
          (call2 (mk_mul_u_lsb_32 c) (read_w rn ZERO_REG) (read_w rm ZERO_REG))));
       ret False
     })"

definition dis_smaddl :: "dis_context \<Rightarrow> u32 \<Rightarrow> bool dis" where
  "dis_smaddl c insn = do {
     mult \<leftarrow> call2 (mk_mul_s_lsb_64 c) (call1 (\<lambda>x. add_32S_to_64 x) (read_w (fld insn 9 5) ZERO_REG))
       (call1 (\<lambda>x. add_32S_to_64 x) (read_w (fld insn 20 16) ZERO_REG));
     res \<leftarrow> call2 add_add_64 (read_x (fld insn 14 10) ZERO_REG) (ret mult);
     write_x (fld insn 4 0) res ZERO_REG;
     ret False
   }"

definition dis_smsubl :: "dis_context \<Rightarrow> u32 \<Rightarrow> bool dis" where
  "dis_smsubl c insn = do {
     mult \<leftarrow> call2 (mk_mul_s_lsb_64 c) (call1 (\<lambda>x. add_32S_to_64 x) (read_w (fld insn 9 5) ZERO_REG))
       (call1 (\<lambda>x. add_32S_to_64 x) (read_w (fld insn 20 16) ZERO_REG));
     res \<leftarrow> call2 add_sub_64 (read_x (fld insn 14 10) ZERO_REG) (ret mult);
     write_x (fld insn 4 0) res ZERO_REG;
     ret False
   }"

definition dis_smulh :: "dis_context \<Rightarrow> u32 \<Rightarrow> bool dis" where
  "dis_smulh c insn = do {
     call1 (\<lambda>v. write_x (fld insn 4 0) v ZERO_REG) (call2 (mk_mul_s_msb_64 c) (read_x (fld insn 9 5) ZERO_REG) (read_x (fld insn 20 16) ZERO_REG));
     ret False
   }"

definition dis_umaddl :: "dis_context \<Rightarrow> u32 \<Rightarrow> bool dis" where
  "dis_umaddl c insn = do {
     mult \<leftarrow> call2 (mk_mul_u_lsb_64 c) (call1 (\<lambda>x. add_32U_to_64 x) (read_w (fld insn 9 5) ZERO_REG))
       (call1 (\<lambda>x. add_32U_to_64 x) (read_w (fld insn 20 16) ZERO_REG));
     res \<leftarrow> call2 add_add_64 (read_x (fld insn 14 10) ZERO_REG) (ret mult);
     write_x (fld insn 4 0) res ZERO_REG;
     ret False
   }"

definition dis_umsubl :: "dis_context \<Rightarrow> u32 \<Rightarrow> bool dis" where
  "dis_umsubl c insn = do {
     mult \<leftarrow> call2 (mk_mul_u_lsb_64 c) (call1 (\<lambda>x. add_32U_to_64 x) (read_w (fld insn 9 5) ZERO_REG))
       (call1 (\<lambda>x. add_32U_to_64 x) (read_w (fld insn 20 16) ZERO_REG));
     res \<leftarrow> call2 add_sub_64 (read_x (fld insn 14 10) ZERO_REG) (ret mult);
     write_x (fld insn 4 0) res ZERO_REG;
     ret False
   }"

definition dis_umulh :: "dis_context \<Rightarrow> u32 \<Rightarrow> bool dis" where
  "dis_umulh c insn = do {
     call1 (\<lambda>v. write_x (fld insn 4 0) v ZERO_REG) (call2 (mk_mul_u_msb_64 c) (read_x (fld insn 9 5) ZERO_REG) (read_x (fld insn 20 16) ZERO_REG));
     ret False
   }"

section \<open>Conditional instructions\<close>

text \<open>The call of the predicate helper, which four instructions make.\<close>

definition mk_pred :: "dis_context \<Rightarrow> u32 \<Rightarrow> nat dis" where
  "mk_pred c cond = do {
     p0 \<leftarrow> mk_32 cond;
     p1 \<leftarrow> read_nzcv;
     mk_call_32 c ''arm64_hlp_compute_flags_pred'' (mk_64 (hlp_addr c ''arm64_hlp_compute_flags_pred'')) [Some p0, Some p1, None, None]
   }"

definition dis_ccmp_A_ccmn :: "dis_context \<Rightarrow> u32 \<Rightarrow> nat \<Rightarrow> bool dis" where
  "dis_ccmp_A_ccmn c insn op2 = (
     let is_64 = flag insn 31; op = flag insn 30; cond = INSN insn 15 12; rn = fld insn 9 5; nzcv = INSN insn 4 0;
         k = (if op then OPS_SUB else OPS_ADD) in
     do {
       pred \<leftarrow> mk_pred c cond;
       res_true \<leftarrow> (if is_64 then do {
           p0 \<leftarrow> mk_32 (ops_number k);
           p1 \<leftarrow> read_x rn ZERO_REG;
           p3 \<leftarrow> read_nzcv;
           mk_call_32 c ''arm64_hlp_compute_next_nzcv_64'' (mk_64 (hlp_addr c ''arm64_hlp_compute_next_nzcv_64'')) [Some p0, Some p1, Some op2, Some p3]
         } else do {
           p0 \<leftarrow> mk_32 (ops_number k);
           p1 \<leftarrow> read_w rn ZERO_REG;
           p3 \<leftarrow> read_nzcv;
           mk_call_32 c ''arm64_hlp_compute_next_nzcv_32'' (mk_64 (hlp_addr c ''arm64_hlp_compute_next_nzcv_32'')) [Some p0, Some p1, Some op2, Some p3]
         });
       res_false \<leftarrow> mk_32 (push_bit 28 nzcv);
       res \<leftarrow> add_ite_32 pred res_true res_false;
       write_nzcv res;
       ret False
     })"

definition dis_ccmp_A_ccmn_immediate :: "dis_context \<Rightarrow> u32 \<Rightarrow> bool dis" where
  "dis_ccmp_A_ccmn_immediate c insn = (
     let is_64 = flag insn 31; imm5 = INSN insn 20 16 in
     do {
       op2 \<leftarrow> (if is_64 then mk_64 (ucast imm5) else mk_32 imm5);
       dis_ccmp_A_ccmn c insn op2
     })"

definition dis_ccmp_A_ccmn_register :: "dis_context \<Rightarrow> u32 \<Rightarrow> bool dis" where
  "dis_ccmp_A_ccmn_register c insn = (
     let is_64 = flag insn 31; rm = fld insn 20 16 in
     do {
       op2 \<leftarrow> (if is_64 then read_x rm ZERO_REG else read_w rm ZERO_REG);
       dis_ccmp_A_ccmn c insn op2
     })"

definition dis_cond_select :: "dis_context \<Rightarrow> u32 \<Rightarrow> nat \<Rightarrow> bool dis" where
  "dis_cond_select c insn op2 = (
     let is_64 = flag insn 31; rd = fld insn 4 0; rn = fld insn 9 5; cond = INSN insn 15 12 in
     do {
       pred \<leftarrow> mk_pred c cond;
       res \<leftarrow> call3 add_ite_64 (add_32U_to_64 pred) (read_x rn ZERO_REG) (ret op2);
       (if is_64 then write_x rd res ZERO_REG
        else call1 (\<lambda>v. write_w rd v ZERO_REG) (add_64_to_32 res));
       ret False
     })"

definition dis_csneg :: "dis_context \<Rightarrow> u32 \<Rightarrow> bool dis" where
  "dis_csneg c insn = call1 (dis_cond_select c insn) (call2 add_sub_64 (mk_64 0) (read_x (fld insn 20 16) ZERO_REG))"
definition dis_csinv :: "dis_context \<Rightarrow> u32 \<Rightarrow> bool dis" where
  "dis_csinv c insn = call1 (dis_cond_select c insn) (call2 add_xor_64 (read_x (fld insn 20 16) ZERO_REG) (mk_64 (NOT 0)))"
definition dis_csinc :: "dis_context \<Rightarrow> u32 \<Rightarrow> bool dis" where
  "dis_csinc c insn = call1 (dis_cond_select c insn) (call2 add_add_64 (read_x (fld insn 20 16) ZERO_REG) (mk_64 1))"
definition dis_csel :: "dis_context \<Rightarrow> u32 \<Rightarrow> bool dis" where
  "dis_csel c insn = call1 (dis_cond_select c insn) (read_x (fld insn 20 16) ZERO_REG)"

section \<open>Reversals and counts\<close>

text \<open>One exchange of neighbouring groups of bits, which \<open>rbit\<close>, \<open>rev16\<close>, \<open>rev32\<close> and \<open>rev\<close> are made of.\<close>

definition swap_64 :: "nat \<Rightarrow> u64 \<Rightarrow> u64 \<Rightarrow> u8 \<Rightarrow> nat dis" where
  "swap_64 x lo hi k = call2 add_or_64 (call2 add_shl_64 (call2 add_and_64 (ret x) (mk_64 lo)) (mk_8 k))
     (call2 add_shr_64 (call2 add_and_64 (ret x) (mk_64 hi)) (mk_8 k))"

definition swap_32 :: "nat \<Rightarrow> u32 \<Rightarrow> u32 \<Rightarrow> u8 \<Rightarrow> nat dis" where
  "swap_32 x lo hi k = call2 add_or_32 (call2 add_shl_32 (call2 add_and_32 (ret x) (mk_32 lo)) (mk_8 k))
     (call2 add_shr_32 (call2 add_and_32 (ret x) (mk_32 hi)) (mk_8 k))"

fun rbit_steps_64 :: "(u64 \<times> u8) list \<Rightarrow> nat \<Rightarrow> nat dis" where
  "rbit_steps_64 [] x = ret x"
| "rbit_steps_64 ((m, k) # cs) x = do { x \<leftarrow> swap_64 x m (NOT m) k; rbit_steps_64 cs x }"

fun rbit_steps_32 :: "(u32 \<times> u8) list \<Rightarrow> nat \<Rightarrow> nat dis" where
  "rbit_steps_32 [] x = ret x"
| "rbit_steps_32 ((m, k) # cs) x = do { x \<leftarrow> swap_32 x m (NOT m) k; rbit_steps_32 cs x }"

definition dis_rbit_64 :: "dis_context \<Rightarrow> u32 \<Rightarrow> bool dis" where
  "dis_rbit_64 c insn = do {
     x \<leftarrow> read_x (fld insn 9 5) ZERO_REG;
     x \<leftarrow> rbit_steps_64 [(0x5555555555555555, 1), (0x3333333333333333, 2), (0x0F0F0F0F0F0F0F0F, 4), (0x00FF00FF00FF00FF, 8),
            (0x0000FFFF0000FFFF, 16), (0x00000000FFFFFFFF, 32)] x;
     write_x (fld insn 4 0) x ZERO_REG;
     ret False
   }"

definition dis_rbit_32 :: "dis_context \<Rightarrow> u32 \<Rightarrow> bool dis" where
  "dis_rbit_32 c insn = do {
     w \<leftarrow> read_w (fld insn 9 5) ZERO_REG;
     w \<leftarrow> rbit_steps_32 [(0x55555555, 1), (0x33333333, 2), (0x0F0F0F0F, 4), (0x00FF00FF, 8), (0x0000FFFF, 16)] w;
     write_w (fld insn 4 0) w ZERO_REG;
     ret False
   }"

definition dis_rbit :: "dis_context \<Rightarrow> u32 \<Rightarrow> bool dis" where
  "dis_rbit c insn = (if flag insn 31 then dis_rbit_64 c insn else dis_rbit_32 c insn)"

definition dis_rev16 :: "dis_context \<Rightarrow> u32 \<Rightarrow> bool dis" where
  "dis_rev16 c insn = (
     let is_64 = flag insn 31; rd = fld insn 4 0; rn = fld insn 9 5 in
     if is_64 then do {
       rn_reg \<leftarrow> read_x rn ZERO_REG;
       res \<leftarrow> swap_64 rn_reg 0x00ff00ff00ff00ff 0xff00ff00ff00ff00 8;
       write_x rd res ZERO_REG;
       ret False
     } else do {
       rn_reg \<leftarrow> read_w rn ZERO_REG;
       res \<leftarrow> swap_32 rn_reg 0x00ff00ff 0xff00ff00 8;
       write_w rd res ZERO_REG;
       ret False
     })"

definition dis_rev32 :: "dis_context \<Rightarrow> u32 \<Rightarrow> bool dis" where
  "dis_rev32 c insn = do {
     rn_reg \<leftarrow> read_x (fld insn 9 5) ZERO_REG;
     phase1 \<leftarrow> swap_64 rn_reg 0x0000ffff0000ffff 0xffff0000ffff0000 16;
     res \<leftarrow> swap_64 phase1 0x00ff00ff00ff00ff 0xff00ff00ff00ff00 8;
     write_x (fld insn 4 0) res ZERO_REG;
     ret False
   }"

definition dis_rev :: "dis_context \<Rightarrow> u32 \<Rightarrow> bool dis" where
  "dis_rev c insn = (
     let is_64 = flag insn 31; rn = fld insn 9 5; rd = fld insn 4 0 in
     if is_64 then do {
       rn_reg \<leftarrow> read_x rn ZERO_REG;
       phase1 \<leftarrow> swap_64 rn_reg 0x00000000ffffffff 0xffffffff00000000 32;
       phase2 \<leftarrow> swap_64 phase1 0x0000ffff0000ffff 0xffff0000ffff0000 16;
       res \<leftarrow> swap_64 phase2 0x00ff00ff00ff00ff 0xff00ff00ff00ff00 8;
       write_x rd res ZERO_REG;
       ret False
     } else do {
       rn_reg \<leftarrow> read_w rn ZERO_REG;
       phase1 \<leftarrow> swap_32 rn_reg 0x0000ffff 0xffff0000 16;
       res \<leftarrow> swap_32 phase1 0x00ff00ff 0xff00ff00 8;
       write_w rd res ZERO_REG;
       ret False
     })"

definition dis_clz :: "dis_context \<Rightarrow> u32 \<Rightarrow> bool dis" where
  "dis_clz c insn = (
     let is_64 = flag insn 31; rn = fld insn 9 5; rd = fld insn 4 0 in
     do {
       p0 \<leftarrow> read_x rn ZERO_REG;
       p1 \<leftarrow> mk_32 (if is_64 then 63 else 31);
       res \<leftarrow> mk_call_64 c ''arm64_hlp_clz'' (mk_64 (hlp_addr c ''arm64_hlp_clz'')) [Some p0, Some p1, None, None];
       (if is_64 then write_x rd res ZERO_REG
        else call1 (\<lambda>v. write_w rd v ZERO_REG) (add_64_to_32 res));
       ret False
     })"

definition dis_cls :: "dis_context \<Rightarrow> u32 \<Rightarrow> bool dis" where
  "dis_cls c insn = (
     let is_64 = flag insn 31; rn = fld insn 9 5; rd = fld insn 4 0 in
     do {
       p0 \<leftarrow> read_x rn ZERO_REG;
       p1 \<leftarrow> mk_32 (if is_64 then 63 else 31);
       res \<leftarrow> mk_call_64 c ''arm64_hlp_cls'' (mk_64 (hlp_addr c ''arm64_hlp_cls'')) [Some p0, Some p1, None, None];
       (if is_64 then write_x rd res ZERO_REG
        else call1 (\<lambda>v. write_w rd v ZERO_REG) (add_64_to_32 res));
       ret False
     })"

section \<open>Decoding\<close>

definition dis_data_processing_immediate_insn :: "dis_context \<Rightarrow> u32 \<Rightarrow> bool dis" where
  "dis_data_processing_immediate_insn c insn = (
     let op_25__23 = fld insn 25 23 in
     if op_25__23 \<le> 1 then if flag insn 31 then dis_adrp c insn else dis_adr c insn
     else if op_25__23 \<le> 3 then dis_add_sub_immediate_insn c insn
     else if op_25__23 = 4 then dis_logical_immediate c insn
     else if op_25__23 = 5 then
       if fld insn 30 29 = 0 then dis_movn c insn
       else if fld insn 30 29 = 2 then dis_movz c insn
       else if fld insn 30 29 = 3 then dis_movk c insn
       else illegal_opcode c
     else if op_25__23 = 6 then dis_bitfield_insn c insn
     else dis_extr c insn)"

definition dis_conditional_select :: "dis_context \<Rightarrow> u32 \<Rightarrow> bool dis" where
  "dis_conditional_select c insn = (
     let op = flag insn 30; op2 = fld insn 11 10 in
     if op then if op2 \<noteq> 0 then dis_csneg c insn else dis_csinv c insn
     else if op2 \<noteq> 0 then dis_csinc c insn else dis_csel c insn)"

definition dis_data_processing_1_source :: "dis_context \<Rightarrow> u32 \<Rightarrow> bool dis" where
  "dis_data_processing_1_source c insn = (
     let is_64 = flag insn 31; opcode = fld insn 15 10 in
     if opcode = 0 then dis_rbit c insn
     else if opcode = 1 then dis_rev16 c insn
     else if opcode = 2 then if is_64 then dis_rev32 c insn else dis_rev c insn
     else if opcode = 3 then dis_rev c insn
     else if opcode = 4 then dis_clz c insn
     else if opcode = 5 then dis_cls c insn
     else illegal_opcode c)"

definition dis_data_processing_2_source :: "dis_context \<Rightarrow> u32 \<Rightarrow> bool dis" where
  "dis_data_processing_2_source c insn = (
     let opcode = fld insn 15 10 in
     if opcode = 2 then dis_udiv c insn
     else if opcode = 3 then dis_sdiv c insn
     else if opcode = 8 then dis_lslv c insn
     else if opcode = 9 then dis_lsrv c insn
     else if opcode = 10 then dis_asrv c insn
     else if opcode = 11 then dis_rorv c insn
     else if 16 \<le> opcode \<and> opcode \<le> 23 then dis_crc32 c insn
     else illegal_opcode c)"

definition dis_data_processing_3_source :: "dis_context \<Rightarrow> u32 \<Rightarrow> bool dis" where
  "dis_data_processing_3_source c insn = (
     let op31_o0 = unat (push_bit 1 (INSN insn 23 21) OR INSN insn 15 15) in
     if op31_o0 = 0 then dis_madd c insn
     else if op31_o0 = 1 then dis_msub c insn
     else if op31_o0 = 2 then dis_smaddl c insn
     else if op31_o0 = 3 then dis_smsubl c insn
     else if op31_o0 = 4 then dis_smulh c insn
     else if op31_o0 = 10 then dis_umaddl c insn
     else if op31_o0 = 11 then dis_umsubl c insn
     else if op31_o0 = 12 then dis_umulh c insn
     else illegal_opcode c)"

definition dis_data_processing_register_insn :: "dis_context \<Rightarrow> u32 \<Rightarrow> bool dis" where
  "dis_data_processing_register_insn c insn = (
     if flag insn 28 then
       if flag insn 24 then dis_data_processing_3_source c insn
       else (let k = fld insn 23 21 in
         if k = 0 then dis_add_substract_with_carry c insn
         else if k = 2 then if flag insn 11 then dis_ccmp_A_ccmn_immediate c insn else dis_ccmp_A_ccmn_register c insn
         else if k = 4 then dis_conditional_select c insn
         else if k = 6 then if flag insn 30 then dis_data_processing_1_source c insn else dis_data_processing_2_source c insn
         else illegal_opcode c)
     else if flag insn 24 then
       if flag insn 21 then dis_add_sub_extended_register_insn c insn else dis_add_sub_shifted_register_insn c insn
     else dis_logical_shifted_register c insn)"

end
