(* ===== verification/Arm64_Dis_Branch.thy ===== *)
theory Arm64_Dis_Branch
  imports Arm64_Dis_Data
begin

text \<open>
  Branches, exceptions and system instructions of \<open>src/src/target/arm64/disassembler/arm64_disassembler.c\<close>. \<open>dump_state\<close> is empty
  without \<open>DUMP_STATE\<close> and is left out.
\<close>

definition dis_b_A_bl :: "dis_context \<Rightarrow> u32 \<Rightarrow> bool dis" where
  "dis_b_A_bl c insn = (
     let is_l = flag insn 31; imm26 = sext 36 (ucast (push_bit 2 (INSN insn 25 0))) in
     do {
       (if is_l then call1 (\<lambda>v. write_x 30 v ZERO_REG) (mk_64 (ctx_pc c + 4)) else ret ());
       call1 (mk_exit c) (mk_64 (ctx_pc c + imm26));
       ret True
     })"

definition dis_svc :: "dis_context \<Rightarrow> u32 \<Rightarrow> bool dis" where
  "dis_svc c insn = do {
     call1 write_pc (mk_64 (ctx_pc c + 4));
     mk_call_void c ''arm64_hlp_syscall'' (mk_64 (hlp_addr c ''arm64_hlp_syscall'')) [None, None, None, None];
     call1 (mk_exit c) (mk_64 (ctx_pc c + 4));
     ret True
   }"

definition dis_brk :: "dis_context \<Rightarrow> u32 \<Rightarrow> bool dis" where
  "dis_brk c insn = do {
     call1 write_pc (mk_64 (ctx_pc c));
     mk_gdb_breakpoint_instruction c;
     call1 (\<lambda>v. emit_op (Exit v)) (mk_64 (ctx_pc c));
     ret True
   }"

definition dis_br :: "dis_context \<Rightarrow> u32 \<Rightarrow> bool dis" where
  "dis_br c insn = do {
     r \<leftarrow> read_x (fld insn 9 5) ZERO_REG;
     mk_exit c r;
     ret True
   }"

definition dis_blr :: "dis_context \<Rightarrow> u32 \<Rightarrow> bool dis" where
  "dis_blr c insn = do {
     r \<leftarrow> read_x (fld insn 9 5) ZERO_REG;
     call1 (\<lambda>v. write_x 30 v ZERO_REG) (mk_64 (ctx_pc c + 4));
     mk_exit c r;
     ret True
   }"

definition dis_ret :: "dis_context \<Rightarrow> u32 \<Rightarrow> bool dis" where
  "dis_ret c insn = do {
     r \<leftarrow> read_x (fld insn 9 5) ZERO_REG;
     mk_exit c r;
     ret True
   }"

text \<open>The end of the conditional branches: a single exit when the guest is stepped, two exits otherwise. \<open>wide\<close> gives the predicate the type of the selection.\<close>

definition branch_exits :: "dis_context \<Rightarrow> nat \<Rightarrow> nat dis \<Rightarrow> u64 \<Rightarrow> bool dis" where
  "branch_exits c pred wide imm = do {
     s \<leftarrow> State_Monad.get;
     (if is_stepin s then do {
        next_pc \<leftarrow> call3 add_ite_64 wide (mk_64 (ctx_pc c + imm)) (mk_64 (ctx_pc c + 4));
        mk_exit c next_pc
      } else do {
        call1 (\<lambda>a. mk_exit_pred c a pred) (mk_64 (ctx_pc c + imm));
        call1 (mk_exit c) (mk_64 (ctx_pc c + 4))
      });
     ret True
   }"

definition dis_conditionnal_branch_immediate_insn :: "dis_context \<Rightarrow> u32 \<Rightarrow> bool dis" where
  "dis_conditionnal_branch_immediate_insn c insn = (
     let cond = INSN insn 3 0; imm19 = sext 43 (ucast (push_bit 2 (INSN insn 23 5))) in
     do {
       pred \<leftarrow> mk_pred c cond;
       branch_exits c pred (add_32U_to_64 pred) imm19
     })"

definition dis_cbz_A_cbnz :: "dis_context \<Rightarrow> u32 \<Rightarrow> bool dis" where
  "dis_cbz_A_cbnz c insn = (
     let is_64 = flag insn 31; imm19 = sext 43 (ucast (push_bit 2 (INSN insn 23 5))); rt = fld insn 4 0; is_cmp_not_zero = flag insn 24 in
     do {
       pred \<leftarrow> (if is_cmp_not_zero then
           if is_64 then call2 add_cmpne_64 (read_x rt ZERO_REG) (mk_64 0)
           else call1 (\<lambda>x. add_32U_to_64 x) (call2 add_cmpne_32 (read_w rt ZERO_REG) (mk_32 0))
         else
           if is_64 then call2 add_cmpeq_64 (read_x rt ZERO_REG) (mk_64 0)
           else call1 (\<lambda>x. add_32U_to_64 x) (call2 add_cmpeq_32 (read_w rt ZERO_REG) (mk_32 0)));
       branch_exits c pred (ret pred) imm19
     })"

definition dis_cbnz :: "dis_context \<Rightarrow> u32 \<Rightarrow> bool dis" where "dis_cbnz c insn = dis_cbz_A_cbnz c insn"
definition dis_cbz :: "dis_context \<Rightarrow> u32 \<Rightarrow> bool dis" where "dis_cbz c insn = dis_cbz_A_cbnz c insn"

definition dis_tbz_A_tbnz :: "dis_context \<Rightarrow> u32 \<Rightarrow> bool dis" where
  "dis_tbz_A_tbnz c insn = (
     let bit_pos = unat (push_bit 5 (INSN insn 31 31) OR INSN insn 23 19); imm14 = sext 48 (ucast (push_bit 2 (INSN insn 18 5)));
         rt = fld insn 4 0; is_tbnz = flag insn 24 in
     do {
       res \<leftarrow> call2 add_and_64 (read_x rt ZERO_REG) (mk_64 (push_bit bit_pos 1));
       pred \<leftarrow> (if is_tbnz then call2 add_cmpne_64 (ret res) (mk_64 0) else call2 add_cmpeq_64 (ret res) (mk_64 0));
       branch_exits c pred (ret pred) imm14
     })"

section \<open>System registers and barriers\<close>

definition dis_msr_register :: "dis_context \<Rightarrow> u32 \<Rightarrow> bool dis" where
  "dis_msr_register c insn = (
     let op0 = 2 + fld insn 19 19; op1 = fld insn 18 16; op2 = fld insn 7 5; crn = fld insn 15 12; crm = fld insn 11 8; rt = fld insn 4 0 in
     if op0 = 3 \<and> op1 = 3 \<and> crn = 0xd \<and> crm = 0 \<and> op2 = 2 then do {
       call1 (\<lambda>v. add_write_context_64 v off_tpidr_el0) (read_x rt ZERO_REG); ret False
     } else if op0 = 3 \<and> op1 = 3 \<and> crn = 0x4 \<and> crm = 2 \<and> op2 = 0 then do {
       call1 write_nzcv (read_w rt ZERO_REG); ret False
     } else if op0 = 3 \<and> op1 = 3 \<and> crn = 0x4 \<and> crm = 4 \<and> op2 = 0 then do {
       call1 (write_fpcr c) (read_w rt ZERO_REG); ret False
     } else if op0 = 3 \<and> op1 = 3 \<and> crn = 0x4 \<and> crm = 4 \<and> op2 = 1 then do {
       call1 (write_fpsr c) (read_w rt ZERO_REG); ret False
     } else illegal_opcode c)"

definition dis_mrs_register :: "dis_context \<Rightarrow> u32 \<Rightarrow> bool dis" where
  "dis_mrs_register c insn = (
     let op0 = 2 + fld insn 19 19; op1 = fld insn 18 16; op2 = fld insn 7 5; crn = fld insn 15 12; crm = fld insn 11 8; rt = fld insn 4 0 in
     if op0 = 3 \<and> op1 = 3 \<and> crn = 0xd \<and> crm = 0 \<and> op2 = 2 then do {
       call1 (\<lambda>v. write_x rt v ZERO_REG) (add_read_context_64 off_tpidr_el0); ret False
     } else if op0 = 3 \<and> op1 = 3 \<and> crn = 0x0 \<and> crm = 0 \<and> op2 = 7 then do {
       call1 (\<lambda>v. write_x rt v ZERO_REG) (mk_64 (push_bit 4 1 OR 7)); ret False
     } else if op0 = 3 \<and> op1 = 3 \<and> crn = 0x4 \<and> crm = 2 \<and> op2 = 0 then do {
       call1 (\<lambda>v. write_x rt v ZERO_REG) (call1 (\<lambda>x. add_32U_to_64 x) read_nzcv); ret False
     } else if op0 = 3 \<and> op1 = 3 \<and> crn = 0x4 \<and> crm = 4 \<and> op2 = 0 then do {
       call1 (\<lambda>v. write_x rt v ZERO_REG) (read_fpcr c); ret False
     } else if op0 = 3 \<and> op1 = 3 \<and> crn = 0x4 \<and> crm = 4 \<and> op2 = 1 then do {
       call1 (\<lambda>v. write_x rt v ZERO_REG) (read_fpsr c); ret False
     } else if op0 = 3 \<and> op1 = 3 \<and> crn = 0x0 \<and> crm = 0 \<and> op2 = 1 then do {
       call1 (\<lambda>v. write_x rt v ZERO_REG) (mk_64 0x80030003); ret False
     } else if op0 = 3 \<and> op1 = 3 \<and> crn = 0xe \<and> crm = 0 \<and> op2 = 2 then do {
       call1 (\<lambda>v. write_x rt v ZERO_REG) (mk_64 0); ret False
     } else illegal_opcode c)"

definition dis_clrex :: "dis_context \<Rightarrow> u32 \<Rightarrow> bool dis" where
  "dis_clrex c insn = do {
     mk_call_void c ''arm64_hlp_clrex'' (mk_64 (hlp_addr c ''arm64_hlp_clrex'')) [None, None, None, None];
     ret False
   }"

definition dis_dsb :: "dis_context \<Rightarrow> u32 \<Rightarrow> bool dis" where "dis_dsb c insn = do { mk_barrier c; ret False }"
definition dis_dmb :: "dis_context \<Rightarrow> u32 \<Rightarrow> bool dis" where "dis_dmb c insn = do { mk_barrier c; ret False }"
definition dis_isb :: "dis_context \<Rightarrow> u32 \<Rightarrow> bool dis" where "dis_isb c insn = do { mk_barrier c; ret False }"

definition dis_sys :: "dis_context \<Rightarrow> u32 \<Rightarrow> bool dis" where
  "dis_sys c insn = (
     let op1 = fld insn 18 16; crn = fld insn 15 12; crm = fld insn 11 8; op2 = fld insn 7 5 in
     if op1 = 3 \<and> crn = 7 \<and> crm = 10 \<and> op2 = 1 then ret False
     else if op1 = 3 \<and> crn = 7 \<and> crm = 11 \<and> op2 = 1 then ret False
     else if op1 = 3 \<and> crn = 7 \<and> crm = 14 \<and> op2 = 1 then ret False
     else if op1 = 3 \<and> crn = 7 \<and> crm = 5 \<and> op2 = 1 then do {
       mk_call_void c ''arm64_clean_caches'' (mk_64 (hlp_addr c ''arm64_clean_caches'')) [None, None, None, None];
       call1 (mk_exit c) (mk_64 (ctx_pc c + 4));
       ret True
     } else illegal_opcode c)"

section \<open>Decoding\<close>

definition dis_exception_insn :: "dis_context \<Rightarrow> u32 \<Rightarrow> bool dis" where
  "dis_exception_insn c insn = (
     let opc = fld insn 23 21; ll = fld insn 1 0 in
     if opc = 0 \<and> ll = 1 then dis_svc c insn
     else if opc = 1 \<and> ll = 0 then dis_brk c insn
     else illegal_opcode c)"

definition dis_unconditionnal_branch_register :: "dis_context \<Rightarrow> u32 \<Rightarrow> bool dis" where
  "dis_unconditionnal_branch_register c insn = (
     let opc = fld insn 24 21 in
     if opc = 0 then dis_br c insn
     else if opc = 1 then dis_blr c insn
     else if opc = 2 then dis_ret c insn
     else illegal_opcode c)"

definition dis_system :: "dis_context \<Rightarrow> u32 \<Rightarrow> bool dis" where
  "dis_system c insn = (
     let l = flag insn 21; op0 = fld insn 20 19; crn = fld insn 15 12; op2 = fld insn 7 5 in
     if l then
       if op0 = 2 \<or> op0 = 3 then dis_mrs_register c insn else illegal_opcode c
     else if op0 = 0 then
       if crn = 3 then
         if op2 = 2 then dis_clrex c insn
         else if op2 = 4 then dis_dsb c insn
         else if op2 = 5 then dis_dmb c insn
         else if op2 = 6 then dis_isb c insn
         else illegal_opcode c
       else if crn = 2 then ret False
       else illegal_opcode c
     else if op0 = 1 then dis_sys c insn
     else dis_msr_register c insn)"

definition dis_branch_A_exception_A_system_insn :: "dis_context \<Rightarrow> u32 \<Rightarrow> bool dis" where
  "dis_branch_A_exception_A_system_insn c insn = (
     let k = fld insn 30 29 in
     if k = 0 then dis_b_A_bl c insn
     else if k = 1 then
       if flag insn 25 then dis_tbz_A_tbnz c insn
       else if flag insn 24 then dis_cbnz c insn else dis_cbz c insn
     else if k = 2 then
       if flag insn 31 then
         if flag insn 25 then dis_unconditionnal_branch_register c insn
         else if flag insn 24 then dis_system c insn else dis_exception_insn c insn
       else dis_conditionnal_branch_immediate_insn c insn
     else illegal_opcode c)"

end
