(* ===== verification/Arm64_Dis_Simd.thy ===== *)
theory Arm64_Dis_Simd
  imports Arm64_Dis_Base
begin

text \<open>
  The vector and floating point instructions of \<open>src/src/target/arm64/disassembler/arm64_disassembler.c\<close>. Moves are
  translated in place; most others are a call of a helper with the instruction as its argument.
\<close>

section \<open>Modified immediates\<close>

text \<open>The second component is \<open>is_illegal\<close>. The loop of the 64-bit mask is written out byte by byte.\<close>

definition simd_immediate :: "nat \<Rightarrow> nat \<Rightarrow> u64 \<Rightarrow> u64 \<times> bool" where
  "simd_immediate op cmode imm8 = (
     let odd_mode = odd cmode;
         imm8_7 = drop_bit 7 imm8 AND 1; imm8_6_not = drop_bit 6 (NOT imm8) AND 1; imm8_6 = drop_bit 6 imm8 AND 1; imm8_5_0 = imm8 AND 0x3f in
     if cmode div 2 = 0 then (push_bit 32 imm8 OR imm8, False)
     else if cmode div 2 = 1 then (push_bit 40 imm8 OR push_bit 8 imm8, False)
     else if cmode div 2 = 2 then (push_bit 48 imm8 OR push_bit 16 imm8, False)
     else if cmode div 2 = 3 then (push_bit 56 imm8 OR push_bit 24 imm8, False)
     else if cmode div 2 = 4 then (push_bit 48 imm8 OR push_bit 32 imm8 OR push_bit 16 imm8 OR imm8, False)
     else if cmode div 2 = 5 then (push_bit 56 imm8 OR push_bit 40 imm8 OR push_bit 24 imm8 OR push_bit 8 imm8, False)
     else if cmode div 2 = 6 then
       if odd_mode then (push_bit 48 imm8 OR push_bit 32 0xffff OR push_bit 16 imm8 OR 0xffff, False)
       else (push_bit 40 imm8 OR push_bit 32 0xff OR push_bit 8 imm8 OR 0xff, False)
     else if cmode div 2 = 7 then
       if \<not> odd_mode \<and> op = 0 then
         (push_bit 56 imm8 OR push_bit 48 imm8 OR push_bit 40 imm8 OR push_bit 32 imm8 OR push_bit 24 imm8 OR push_bit 16 imm8 OR push_bit 8 imm8 OR imm8, False)
       else if \<not> odd_mode \<and> op = 1 then
         (foldl (\<lambda>imm64 i. imm64 OR (if imm8 AND push_bit i 1 \<noteq> 0 then push_bit (8 * i) 0xff else 0)) 0 [0, 1, 2, 3, 4, 5, 6, 7], False)
       else if odd_mode \<and> op = 0 then
         (let imm32 = push_bit 31 imm8_7 OR push_bit 30 imm8_6_not OR push_bit 29 imm8_6 OR push_bit 28 imm8_6 OR
                push_bit 27 imm8_6 OR push_bit 26 imm8_6 OR push_bit 25 imm8_6 OR push_bit 19 imm8_5_0 in
          (push_bit 32 imm32 OR imm32, False))
       else if odd_mode \<and> op = 1 then
         (push_bit 63 imm8_7 OR push_bit 62 imm8_6_not OR push_bit 61 imm8_6 OR push_bit 60 imm8_6 OR
          push_bit 59 imm8_6 OR push_bit 58 imm8_6 OR push_bit 57 imm8_6 OR push_bit 56 imm8_6 OR
          push_bit 55 imm8_6 OR push_bit 54 imm8_6 OR push_bit 48 imm8_5_0, False)
       else (0, True)
     else (0, True))"

text \<open>\<open>(INSN(18,16) << 5) + INSN(9,5)\<close>\<close>

definition simd_imm8 :: "u32 \<Rightarrow> u64" where
  "simd_imm8 insn = ucast (push_bit 5 (INSN insn 18 16) + INSN insn 9 5)"

definition dis_mvni :: "dis_context \<Rightarrow> u32 \<Rightarrow> bool dis" where
  "dis_mvni c insn = (
     let Q = flag insn 30; rd = fld insn 4 0; (imm, is_illegal) = simd_immediate (fld insn 29 29) (fld insn 15 12) (simd_imm8 insn) in
     do {
       imm64 \<leftarrow> mk_64 (NOT imm);
       if is_illegal then illegal_opcode c
       else do {
         write_v_lsb rd imm64;
         (if Q then write_v_msb rd imm64 else call1 (write_v_msb rd) (mk_64 0));
         ret False
       }
     })"

definition dis_movi :: "dis_context \<Rightarrow> u32 \<Rightarrow> bool dis" where
  "dis_movi c insn = (
     let Q = flag insn 30; rd = fld insn 4 0; (imm, is_illegal) = simd_immediate (fld insn 29 29) (fld insn 15 12) (simd_imm8 insn) in
     do {
       imm64 \<leftarrow> mk_64 imm;
       if is_illegal then illegal_opcode c
       else do {
         write_v_lsb rd imm64;
         (if Q then write_v_msb rd imm64 else call1 (write_v_msb rd) (mk_64 0));
         ret False
       }
     })"

definition dis_bic_immediate :: "dis_context \<Rightarrow> u32 \<Rightarrow> bool dis" where
  "dis_bic_immediate c insn = (
     let Q = flag insn 30; rd = fld insn 4 0; (imm, is_illegal) = simd_immediate (fld insn 29 29) (fld insn 15 12) (simd_imm8 insn) in
     do {
       imm64 \<leftarrow> mk_64 (NOT imm);
       if is_illegal then illegal_opcode c
       else do {
         call1 (write_v_lsb rd) (call2 add_and_64 (read_v_lsb rd) (ret imm64));
         (if Q then call1 (write_v_msb rd) (call2 add_and_64 (read_v_msb rd) (ret imm64)) else call1 (write_v_msb rd) (mk_64 0));
         ret False
       }
     })"

definition dis_orr_immediate :: "dis_context \<Rightarrow> u32 \<Rightarrow> bool dis" where
  "dis_orr_immediate c insn = (
     let Q = flag insn 30; rd = fld insn 4 0; (imm, is_illegal) = simd_immediate (fld insn 29 29) (fld insn 15 12) (simd_imm8 insn) in
     do {
       imm64 \<leftarrow> mk_64 imm;
       if is_illegal then illegal_opcode c
       else do {
         call1 (write_v_lsb rd) (call2 add_or_64 (read_v_lsb rd) (ret imm64));
         (if Q then call1 (write_v_msb rd) (call2 add_or_64 (read_v_msb rd) (ret imm64)) else call1 (write_v_msb rd) (mk_64 0));
         ret False
       }
     })"

definition dis_fmov_immediate :: "dis_context \<Rightarrow> u32 \<Rightarrow> bool dis" where
  "dis_fmov_immediate c insn = (
     let Q = flag insn 30; rd = fld insn 4 0; (imm, is_illegal) = simd_immediate (fld insn 29 29) (fld insn 15 12) (simd_imm8 insn) in
     do {
       imm64 \<leftarrow> mk_64 imm;
       if is_illegal then illegal_opcode c
       else do {
         write_v_lsb rd imm64;
         (if Q then write_v_msb rd imm64 else call1 (write_v_msb rd) (mk_64 0));
         ret False
       }
     })"

section \<open>Moves\<close>

definition dis_fmov :: "dis_context \<Rightarrow> u32 \<Rightarrow> bool dis" where
  "dis_fmov c insn = (
     let sf = fld insn 31 31; type = fld insn 23 22; rmode = fld insn 20 19; opcode = fld insn 18 16; rn = fld insn 9 5; rd = fld insn 4 0 in
     if sf = 0 \<and> type = 0 \<and> rmode = 0 \<and> opcode = 7 then do {
       call1 (write_s rd) (read_w rn ZERO_REG);
       call1 (write_v_msb rd) (mk_64 0);
       ret False
     } else if sf = 0 \<and> type = 0 \<and> rmode = 0 \<and> opcode = 6 then do {
       call1 (\<lambda>v. write_w rd v ZERO_REG) (read_s rn);
       ret False
     } else if sf = 1 \<and> type = 1 \<and> rmode = 0 \<and> opcode = 7 then do {
       call1 (write_d rd) (read_x rn ZERO_REG);
       call1 (write_v_msb rd) (mk_64 0);
       ret False
     } else if sf = 1 \<and> type = 1 \<and> rmode = 0 \<and> opcode = 6 then do {
       call1 (\<lambda>v. write_x rd v ZERO_REG) (read_d rn);
       ret False
     } else if sf = 1 \<and> type = 2 \<and> rmode = 1 \<and> opcode = 6 then do {
       call1 (\<lambda>v. write_x rd v ZERO_REG) (read_v_msb rn);
       ret False
     } else if sf = 1 \<and> type = 2 \<and> rmode = 1 \<and> opcode = 7 then do {
       call1 (write_v_msb rd) (read_x rn ZERO_REG);
       ret False
     } else illegal_opcode c)"

definition dis_fmov_register :: "dis_context \<Rightarrow> u32 \<Rightarrow> bool dis" where
  "dis_fmov_register c insn = (
     let is_d = flag insn 22; rd = fld insn 4 0; rn = fld insn 9 5 in
     do {
       (if is_d then call1 (write_d rd) (read_d rn) else call1 (write_s rd) (read_s rn));
       call1 (write_v_msb rd) (mk_64 0);
       ret False
     })"

definition dis_smov :: "dis_context \<Rightarrow> u32 \<Rightarrow> bool dis" where
  "dis_smov c insn = (
     let q = flag insn 30; q_imm5 = fld insn 20 16; rd = fld insn 4 0; rn = fld insn 9 5;
         write_res = (\<lambda>res. do { (if q then write_x rd res ZERO_REG else write_w rd res ZERO_REG); ret False }) in
     if bit q_imm5 0 then do {
       b \<leftarrow> add_read_context_8 (off_v rn + q_imm5 div 2);
       res \<leftarrow> (if q then add_8S_to_64 b else add_8S_to_32 b);
       write_res res
     } else if bit q_imm5 1 then do {
       h \<leftarrow> add_read_context_16 (off_v rn + 2 * (q_imm5 div 4));
       res \<leftarrow> (if q then add_16S_to_64 h else add_16S_to_32 h);
       write_res res
     } else if bit q_imm5 2 then do {
       w \<leftarrow> add_read_context_32 (off_v rn + 4 * (q_imm5 div 8));
       res \<leftarrow> add_32S_to_64 w;
       write_res res
     } else if bit q_imm5 3 then do {
       res \<leftarrow> add_read_context_64 (off_v rn + 8 * (q_imm5 div 16 mod 2));
       write_res res
     } else illegal_opcode c)"

definition dis_umov :: "dis_context \<Rightarrow> u32 \<Rightarrow> bool dis" where
  "dis_umov c insn = (
     let q_imm5 = unat (push_bit 5 (INSN insn 30 30) OR INSN insn 20 16); rd = fld insn 4 0; rn = fld insn 9 5 in
     if bit q_imm5 0 then do {
       res \<leftarrow> call1 (\<lambda>x. add_8U_to_64 x) (add_read_context_8 (off_v rn + q_imm5 div 2));
       write_x rd res ZERO_REG; ret False
     } else if bit q_imm5 1 then do {
       res \<leftarrow> call1 (\<lambda>x. add_16U_to_64 x) (add_read_context_16 (off_v rn + 2 * (q_imm5 div 4)));
       write_x rd res ZERO_REG; ret False
     } else if bit q_imm5 2 then do {
       res \<leftarrow> call1 (\<lambda>x. add_32U_to_64 x) (add_read_context_32 (off_v rn + 4 * (q_imm5 div 8)));
       write_x rd res ZERO_REG; ret False
     } else if bit q_imm5 3 then do {
       res \<leftarrow> add_read_context_64 (off_v rn + 8 * (q_imm5 div 16 mod 2));
       write_x rd res ZERO_REG; ret False
     } else illegal_opcode c)"

definition dis_insn_element :: "dis_context \<Rightarrow> u32 \<Rightarrow> bool dis" where
  "dis_insn_element c insn = (
     let rd = fld insn 4 0; rn = fld insn 9 5; imm5 = fld insn 20 16; imm4 = fld insn 14 11 in
     do {
       (if bit imm5 0 then call1 (write_b_by_index rd (imm5 div 2)) (read_b_by_index rn imm4)
        else if bit imm5 1 then call1 (write_h_by_index rd (imm5 div 4)) (read_h_by_index rn (imm4 div 2))
        else if bit imm5 2 then call1 (write_s_by_index rd (imm5 div 8)) (read_s_by_index rn (imm4 div 4))
        else if bit imm5 3 then call1 (write_d_by_index rd (imm5 div 16)) (read_d_by_index rn (imm4 div 8))
        else ret ());
       ret False
     })"

definition dis_dup_element :: "dis_context \<Rightarrow> u32 \<Rightarrow> bool dis" where
  "dis_dup_element c insn = do { mk_dirty c ''arm64_hlp_dirty_simd_dup_element'' insn; ret False }"
definition dis_dup_general :: "dis_context \<Rightarrow> u32 \<Rightarrow> bool dis" where
  "dis_dup_general c insn = do { mk_dirty c ''arm64_hlp_dirty_simd_dup_general'' insn; ret False }"

definition dis_insn_general :: "dis_context \<Rightarrow> u32 \<Rightarrow> bool dis" where
  "dis_insn_general c insn = (
     let rd = fld insn 4 0; rn = fld insn 9 5; imm5 = fld insn 20 16 in
     do {
       (if bit imm5 0 then call1 (write_b_by_index rd (imm5 div 2)) (call1 (\<lambda>x. add_32_to_8 x) (read_w rn ZERO_REG))
        else if bit imm5 1 then call1 (write_h_by_index rd (imm5 div 4)) (call1 (\<lambda>x. add_32_to_16 x) (read_w rn ZERO_REG))
        else if bit imm5 2 then call1 (write_s_by_index rd (imm5 div 8)) (read_w rn ZERO_REG)
        else if bit imm5 3 then call1 (write_d_by_index rd (imm5 div 16)) (read_x rn ZERO_REG)
        else ret ());
       ret False
     })"

definition dis_advanced_simd_scalar_copy :: "dis_context \<Rightarrow> u32 \<Rightarrow> bool dis" where
  "dis_advanced_simd_scalar_copy c insn = (
     let rn = fld insn 9 5; rd = fld insn 4 0; imm5 = fld insn 20 16;
         clear = do { call1 (write_v_lsb rd) (mk_64 0); call1 (write_v_msb rd) (mk_64 0) } in
     if bit imm5 0 then do { value \<leftarrow> read_b_by_index rn (imm5 div 2); clear; write_b rd value; ret False }
     else if bit imm5 1 then do { value \<leftarrow> read_h_by_index rn (imm5 div 4); clear; write_h rd value; ret False }
     else if bit imm5 2 then do { value \<leftarrow> read_s_by_index rn (imm5 div 8); clear; write_s rd value; ret False }
     else do { value \<leftarrow> read_d_by_index rn (imm5 div 16); clear; write_d rd value; ret False })"

section \<open>Calls of helpers\<close>

definition dis_scvtf_scalar_integer :: "dis_context \<Rightarrow> u32 \<Rightarrow> bool dis" where
  "dis_scvtf_scalar_integer c insn = do { mk_dirty c ''arm64_hlp_dirty_scvtf_scalar_integer_simd'' insn; ret False }"
definition dis_ucvtf_scalar_integer :: "dis_context \<Rightarrow> u32 \<Rightarrow> bool dis" where
  "dis_ucvtf_scalar_integer c insn = do { mk_dirty c ''arm64_hlp_dirty_ucvtf_scalar_integer_simd'' insn; ret False }"
definition dis_fcvtxx_scalar_integer :: "dis_context \<Rightarrow> u32 \<Rightarrow> bool dis" where
  "dis_fcvtxx_scalar_integer c insn = do { mk_dirty c ''arm64_hlp_dirty_fcvtxx_scalar_integer_simd'' insn; ret False }"
definition dis_floating_point_data_processing_3_source :: "dis_context \<Rightarrow> u32 \<Rightarrow> bool dis" where
  "dis_floating_point_data_processing_3_source c insn = do { mk_dirty c ''arm64_hlp_dirty_floating_point_data_processing_3_source_simd'' insn; ret False }"
definition dis_floating_point_immediate :: "dis_context \<Rightarrow> u32 \<Rightarrow> bool dis" where
  "dis_floating_point_immediate c insn = do { mk_dirty c ''arm64_hlp_dirty_floating_point_immediate_simd'' insn; ret False }"
definition dis_floating_point_compare :: "dis_context \<Rightarrow> u32 \<Rightarrow> bool dis" where
  "dis_floating_point_compare c insn = do { mk_dirty c ''arm64_hlp_dirty_floating_point_compare_simd'' insn; ret False }"
definition dis_floating_point_data_processing_2_source :: "dis_context \<Rightarrow> u32 \<Rightarrow> bool dis" where
  "dis_floating_point_data_processing_2_source c insn = do { mk_dirty c ''arm64_hlp_dirty_floating_point_data_processing_2_source_simd'' insn; ret False }"
definition dis_floating_point_conditional_select :: "dis_context \<Rightarrow> u32 \<Rightarrow> bool dis" where
  "dis_floating_point_conditional_select c insn = do { mk_dirty c ''arm64_hlp_dirty_floating_point_conditional_select_simd'' insn; ret False }"
definition dis_advanced_simd_shift_by_immediate :: "dis_context \<Rightarrow> u32 \<Rightarrow> bool dis" where
  "dis_advanced_simd_shift_by_immediate c insn = do { mk_dirty c ''arm64_hlp_dirty_advanced_simd_shift_by_immediate_simd'' insn; ret False }"
definition dis_advanced_simd_scalar_three_different :: "dis_context \<Rightarrow> u32 \<Rightarrow> bool dis" where
  "dis_advanced_simd_scalar_three_different c insn = do { mk_dirty c ''arm64_hlp_dirty_advanced_simd_scalar_three_different_simd'' insn; ret False }"
definition dis_advanced_simd_scalar_two_reg_misc :: "dis_context \<Rightarrow> u32 \<Rightarrow> bool dis" where
  "dis_advanced_simd_scalar_two_reg_misc c insn = do { mk_dirty c ''arm64_hlp_dirty_advanced_simd_scalar_two_reg_misc_simd'' insn; ret False }"
definition dis_advanced_simd_scalar_pair_wise :: "dis_context \<Rightarrow> u32 \<Rightarrow> bool dis" where
  "dis_advanced_simd_scalar_pair_wise c insn = do { mk_dirty c ''arm64_hlp_dirty_advanced_simd_scalar_pair_wise_simd'' insn; ret False }"
definition dis_advanced_simd_table_lookup :: "dis_context \<Rightarrow> u32 \<Rightarrow> bool dis" where
  "dis_advanced_simd_table_lookup c insn = do { mk_dirty c ''arm64_hlp_dirty_advanced_simd_table_lookup_simd'' insn; ret False }"
definition dis_advanced_simd_permute :: "dis_context \<Rightarrow> u32 \<Rightarrow> bool dis" where
  "dis_advanced_simd_permute c insn = do { mk_dirty c ''arm64_hlp_dirty_advanced_simd_permute_simd'' insn; ret False }"
definition dis_advanced_simd_ext :: "dis_context \<Rightarrow> u32 \<Rightarrow> bool dis" where
  "dis_advanced_simd_ext c insn = do { mk_dirty c ''arm64_hlp_dirty_advanced_simd_ext_simd'' insn; ret False }"
definition dis_advanced_simd_three_different :: "dis_context \<Rightarrow> u32 \<Rightarrow> bool dis" where
  "dis_advanced_simd_three_different c insn = do { mk_dirty c ''arm64_hlp_dirty_advanced_simd_simd_three_different_simd'' insn; ret False }"
definition dis_advanced_simd_two_reg_misc :: "dis_context \<Rightarrow> u32 \<Rightarrow> bool dis" where
  "dis_advanced_simd_two_reg_misc c insn = do { mk_dirty c ''arm64_hlp_dirty_advanced_simd_two_reg_misc_simd'' insn; ret False }"
definition dis_advanced_simd_accross_lanes :: "dis_context \<Rightarrow> u32 \<Rightarrow> bool dis" where
  "dis_advanced_simd_accross_lanes c insn = do { mk_dirty c ''arm64_hlp_dirty_advanced_simd_accross_lanes_simd'' insn; ret False }"
definition dis_advanced_simd_scalar_three_same :: "dis_context \<Rightarrow> u32 \<Rightarrow> bool dis" where
  "dis_advanced_simd_scalar_three_same c insn = do { mk_dirty c ''arm64_hlp_dirty_advanced_simd_scalar_three_same_simd'' insn; ret False }"
definition dis_advanced_simd_three_same :: "dis_context \<Rightarrow> u32 \<Rightarrow> bool dis" where
  "dis_advanced_simd_three_same c insn = do { mk_dirty c ''arm64_hlp_dirty_advanced_simd_three_same_simd'' insn; ret False }"
definition dis_advanced_simd_vector_x_indexed_element :: "dis_context \<Rightarrow> u32 \<Rightarrow> bool dis" where
  "dis_advanced_simd_vector_x_indexed_element c insn = do { mk_dirty c ''arm64_hlp_dirty_advanced_simd_vector_x_indexed_element_simd'' insn; ret False }"
definition dis_advanced_simd_scalar_x_indexed_element :: "dis_context \<Rightarrow> u32 \<Rightarrow> bool dis" where
  "dis_advanced_simd_scalar_x_indexed_element c insn = do { mk_dirty c ''arm64_hlp_dirty_advanced_simd_scalar_x_indexed_element_simd'' insn; ret False }"
definition dis_advanced_simd_scalar_shift_by_immediate :: "dis_context \<Rightarrow> u32 \<Rightarrow> bool dis" where
  "dis_advanced_simd_scalar_shift_by_immediate c insn = do { mk_dirty c ''arm64_hlp_dirty_advanced_simd_scalar_shift_by_immediate_simd'' insn; ret False }"
definition dis_floating_point_conditional_compare :: "dis_context \<Rightarrow> u32 \<Rightarrow> bool dis" where
  "dis_floating_point_conditional_compare c insn = do { mk_dirty c ''arm64_hlp_dirty_floating_point_conditional_compare'' insn; ret False }"
definition dis_conversion_between_floating_point_and_fixed_point_insn :: "dis_context \<Rightarrow> u32 \<Rightarrow> bool dis" where
  "dis_conversion_between_floating_point_and_fixed_point_insn c insn = do { mk_dirty c ''arm64_hlp_dirty_conversion_between_floating_point_and_fixed_point'' insn; ret False }"

section \<open>Decoding\<close>

definition dis_floating_point_data_processing_1_source :: "dis_context \<Rightarrow> u32 \<Rightarrow> bool dis" where
  "dis_floating_point_data_processing_1_source c insn = (
     let opcode = fld insn 20 15 in
     if opcode = 0 then dis_fmov_register c insn
     else do { mk_dirty c ''arm64_hlp_dirty_floating_point_data_processing_1_source'' insn; ret False })"

definition dis_conversion_between_floating_point_and_integer_insn :: "dis_context \<Rightarrow> u32 \<Rightarrow> bool dis" where
  "dis_conversion_between_floating_point_and_integer_insn c insn = (
     let sf = fld insn 31 31; type = fld insn 23 22; rmode = fld insn 20 19; opcode = fld insn 18 16 in
     if sf = 0 \<and> type = 0 \<and> rmode = 0 \<and> opcode = 7 then dis_fmov c insn
     else if sf = 0 \<and> type = 0 \<and> rmode = 0 \<and> opcode = 6 then dis_fmov c insn
     else if sf = 1 \<and> type = 1 \<and> rmode = 0 \<and> opcode = 7 then dis_fmov c insn
     else if sf = 1 \<and> type = 1 \<and> rmode = 0 \<and> opcode = 6 then dis_fmov c insn
     else if sf = 1 \<and> type = 2 \<and> rmode = 1 \<and> opcode = 6 then dis_fmov c insn
     else if sf = 1 \<and> type = 2 \<and> rmode = 1 \<and> opcode = 7 then dis_fmov c insn
     else if type < 2 \<and> rmode = 0 \<and> opcode = 2 then dis_scvtf_scalar_integer c insn
     else if type < 2 \<and> rmode = 0 \<and> opcode = 3 then dis_ucvtf_scalar_integer c insn
     else dis_fcvtxx_scalar_integer c insn)"

definition dis_advanced_simd_copy :: "dis_context \<Rightarrow> u32 \<Rightarrow> bool dis" where
  "dis_advanced_simd_copy c insn = (
     let op = flag insn 29; imm4 = fld insn 14 11 in
     if op then dis_insn_element c insn
     else if imm4 = 0 then dis_dup_element c insn
     else if imm4 = 1 then dis_dup_general c insn
     else if imm4 = 3 then dis_insn_general c insn
     else if imm4 = 5 then dis_smov c insn
     else if imm4 = 7 then dis_umov c insn
     else illegal_opcode c)"

definition dis_advanced_simd_modified_immediate :: "dis_context \<Rightarrow> u32 \<Rightarrow> bool dis" where
  "dis_advanced_simd_modified_immediate c insn = (
     let cmode = fld insn 15 12; op = flag insn 29 in
     if cmode \<in> {0, 2, 4, 6, 8, 10, 12, 13} then if op then dis_mvni c insn else dis_movi c insn
     else if cmode = 14 then dis_movi c insn
     else if cmode \<in> {1, 3, 5, 7, 9, 11} then if op then dis_bic_immediate c insn else dis_orr_immediate c insn
     else dis_fmov_immediate c insn)"

text \<open>\<open>assert_illegal_opcode((insn & mask) == value)\<close> before the call of a function.\<close>

definition checked :: "dis_context \<Rightarrow> u32 \<Rightarrow> u32 \<Rightarrow> u32 \<Rightarrow> (dis_context \<Rightarrow> u32 \<Rightarrow> bool dis) \<Rightarrow> bool dis" where
  "checked c insn m v f = (if insn AND m = v then f c insn else illegal_opcode c)"

definition dis_advanced_simd :: "dis_context \<Rightarrow> u32 \<Rightarrow> bool dis" where
  "dis_advanced_simd c insn = (
     if \<not> flag insn 28 then
       if \<not> flag insn 24 then
         if \<not> flag insn 10 then
           if \<not> flag insn 21 then
             if \<not> flag insn 29 then
               if \<not> flag insn 11 then checked c insn 0xbf208c00 0x0e000000 dis_advanced_simd_table_lookup
               else checked c insn 0xbf208c00 0x0e000800 dis_advanced_simd_permute
             else checked c insn 0xbf208400 0x2e000000 dis_advanced_simd_ext
           else
             if \<not> flag insn 11 then checked c insn 0x9f200c00 0x0e200000 dis_advanced_simd_three_different
             else if \<not> flag insn 20 then checked c insn 0x9f3e0c00 0x0e200800 dis_advanced_simd_two_reg_misc
             else checked c insn 0x9f3e0c00 0x0e300800 dis_advanced_simd_accross_lanes
         else
           if \<not> flag insn 21 then checked c insn 0x9fe08400 0x0e000400 dis_advanced_simd_copy
           else checked c insn 0x9f200400 0x0e200400 dis_advanced_simd_three_same
       else
         if \<not> flag insn 10 then checked c insn 0x9f000400 0x0f000000 dis_advanced_simd_vector_x_indexed_element
         else if fld insn 22 19 = 0 then checked c insn 0x9ff80400 0x0f000400 dis_advanced_simd_modified_immediate
         else checked c insn 0x9f000400 0x0f000400 dis_advanced_simd_shift_by_immediate
     else
       if \<not> flag insn 24 then
         if \<not> flag insn 10 then
           if \<not> flag insn 11 then checked c insn 0xdf200c00 0x5e200000 dis_advanced_simd_scalar_three_different
           else if \<not> flag insn 20 then checked c insn 0xdf3e0c00 0x5e200800 dis_advanced_simd_scalar_two_reg_misc
           else checked c insn 0xdf3e0c00 0x5e300800 dis_advanced_simd_scalar_pair_wise
         else
           if \<not> flag insn 21 then checked c insn 0xdfe08400 0x5e000400 dis_advanced_simd_scalar_copy
           else checked c insn 0xdf200400 0x5e200400 dis_advanced_simd_scalar_three_same
       else
         if \<not> flag insn 30 then illegal_opcode c
         else if \<not> flag insn 10 then checked c insn 0xdf000400 0x5f000000 dis_advanced_simd_scalar_x_indexed_element
         else checked c insn 0xdf800400 0x5f000400 dis_advanced_simd_scalar_shift_by_immediate)"

text \<open>The result of the conversion to fixed point is dropped; it is 0.\<close>

definition dis_data_processing_simd_insn :: "dis_context \<Rightarrow> u32 \<Rightarrow> bool dis" where
  "dis_data_processing_simd_insn c insn = (
     if flag insn 28 then
       if flag insn 30 then dis_advanced_simd c insn
       else if flag insn 24 then dis_floating_point_data_processing_3_source c insn
       else if flag insn 21 then
         if fld insn 11 10 = 0 then
           if flag insn 12 then dis_floating_point_immediate c insn
           else if flag insn 13 then dis_floating_point_compare c insn
           else if flag insn 14 then dis_floating_point_data_processing_1_source c insn
           else dis_conversion_between_floating_point_and_integer_insn c insn
         else if fld insn 11 10 = 1 then dis_floating_point_conditional_compare c insn
         else if fld insn 11 10 = 2 then dis_floating_point_data_processing_2_source c insn
         else dis_floating_point_conditional_select c insn
       else do { dis_conversion_between_floating_point_and_fixed_point_insn c insn; ret False }
     else dis_advanced_simd c insn)"

end
