(* ===== verification/Arm64_Disassembler.thy ===== *)
theory Arm64_Disassembler
  imports Arm64_Dis_Mem Arm64_Dis_Branch Arm64_Dis_Simd
begin

text \<open>The entry points of \<open>src/src/target/arm64/disassembler/arm64_disassembler.c\<close>: one instruction, and a block.\<close>

definition disassemble_insn :: "dis_context \<Rightarrow> u32 \<Rightarrow> bool dis" where
  "disassemble_insn c insn = (
     if fld insn 28 27 = 0 then illegal_opcode c
     else if fld insn 28 26 = 4 then dis_data_processing_immediate_insn c insn
     else if fld insn 28 26 = 5 then dis_branch_A_exception_A_system_insn c insn
     else if fld insn 27 27 = 1 \<and> fld insn 25 25 = 0 then dis_load_store_insn c insn
     else if fld insn 27 25 = 5 then dis_data_processing_register_insn c insn
     else if fld insn 28 25 = 7 then dis_data_processing_simd_insn c insn
     else if fld insn 28 25 = 15 then dis_data_processing_simd_insn c insn
     else illegal_opcode c)"

text \<open>
  The loop over the instructions of a block. \<open>n\<close> is the number of rounds left: at most \<open>maxInsn\<close>, and one when the guest is
  stepped (the bound is evaluated again in every round). \<open>fetch\<close> reads the instruction word at an address. The block ends
  behind its last instruction when that has no exit of its own.
\<close>

fun dis_rounds :: "(u64 \<Rightarrow> u32) \<Rightarrow> (string \<Rightarrow> u64) \<Rightarrow> nat \<Rightarrow> nat \<Rightarrow> u64 \<Rightarrow> unit dis" where
  "dis_rounds fetch hlp 0 i pc = call1 (mk_exit \<lparr>ctx_pc = pc - 4, hlp_addr = hlp\<rparr>) (mk_64 pc)"
| "dis_rounds fetch hlp (Suc n) i pc = do {
     s \<leftarrow> State_Monad.get;
     if is_stepin s \<and> i \<noteq> 0 then call1 (mk_exit \<lparr>ctx_pc = pc - 4, hlp_addr = hlp\<rparr>) (mk_64 pc)
     else do {
       isExit \<leftarrow> disassemble_insn \<lparr>ctx_pc = pc, hlp_addr = hlp\<rparr> (fetch pc);
       if isExit then ret () else dis_rounds fetch hlp n (Suc i) (pc + 4)
     }
   }"

text \<open>
  \<open>None\<close> when the assertion on the alignment fails. A block has at least one instruction: with \<open>maxInsn\<close> 0 the code would use
  \<open>isExit\<close> without setting it.
\<close>

definition disassemble_arm64 :: "(u64 \<Rightarrow> u32) \<Rightarrow> (string \<Rightarrow> u64) \<Rightarrow> u64 \<Rightarrow> nat \<Rightarrow> dis_state \<Rightarrow> dis_state option" where
  "disassemble_arm64 fetch hlp pc maxInsn s = do {
     assert (pc AND 3 = 0);
     Some (snd (run_state (dis_rounds fetch hlp maxInsn 0 pc) s))
   }"

fun dis_rounds_with_marker :: "(u64 \<Rightarrow> u32) \<Rightarrow> (string \<Rightarrow> u64) \<Rightarrow> nat \<Rightarrow> nat \<Rightarrow> u64 \<Rightarrow> unit dis" where
  "dis_rounds_with_marker fetch hlp 0 i pc = call1 (mk_exit \<lparr>ctx_pc = pc - 4, hlp_addr = hlp\<rparr>) (mk_64 pc)"
| "dis_rounds_with_marker fetch hlp (Suc n) i pc = do {
     s \<leftarrow> State_Monad.get;
     if is_stepin s \<and> i \<noteq> 0 then call1 (mk_exit \<lparr>ctx_pc = pc - 4, hlp_addr = hlp\<rparr>) (mk_64 pc)
     else do {
       emit_op (Insn_marker (of_nat (4 * i)));
       isExit \<leftarrow> disassemble_insn \<lparr>ctx_pc = pc, hlp_addr = hlp\<rparr> (fetch pc);
       if isExit then ret () else dis_rounds_with_marker fetch hlp n (Suc i) (pc + 4)
     }
   }"

definition disassemble_arm64_with_marker :: "(u64 \<Rightarrow> u32) \<Rightarrow> (string \<Rightarrow> u64) \<Rightarrow> u64 \<Rightarrow> nat \<Rightarrow> dis_state \<Rightarrow> dis_state option" where
  "disassemble_arm64_with_marker fetch hlp pc maxInsn s = do {
     assert (pc AND 3 = 0);
     Some (snd (run_state (dis_rounds_with_marker fetch hlp maxInsn 0 pc) s))
   }"

end
