(* ===== verification/Arm64_Dis_Typing.thy ===== *)
theory Arm64_Dis_Typing
  imports Dis_Logic Arm64_Disassembler
begin

text \<open>Every instruction word is translated by calls that respect the assertions of the builder and by code the host registers serve.\<close>

lemma typingD: "(r, t) \<in> \<Gamma> \<Longrightarrow> typing \<Gamma> ts C \<Longrightarrow> r < length ts \<and> ts ! r = t \<and> (t \<in> {IR_REG_32, IR_REG_64} \<longrightarrow> r \<in> C)"
  by (auto simp: typing_def)

text \<open>Registers of 32 or 64 bits.\<close>

definition bound :: "(nat \<times> irRegisterType) set \<Rightarrow> nat \<Rightarrow> bool" where
  "bound \<Gamma> r \<longleftrightarrow> (\<exists>t \<in> {IR_REG_32, IR_REG_64}. (r, t) \<in> \<Gamma>)"

lemma bound_simps [simp]:
  "bound (\<Gamma> \<union> \<Delta>) r \<longleftrightarrow> bound \<Gamma> r \<or> bound \<Delta> r" "bound (insert (x, t) \<Gamma>) r \<longleftrightarrow> r = x \<and> t \<in> {IR_REG_32, IR_REG_64} \<or> bound \<Gamma> r" "\<not> bound {} r"
  by (auto simp: bound_def)

lemma boundD: "bound \<Gamma> r \<Longrightarrow> typing \<Gamma> ts C \<Longrightarrow> r < length ts \<and> r \<in> C"
  by (auto simp: bound_def dest: typingD)

lemma jud_emit [jud_intros]:
  "trunc t w = w \<Longrightarrow> jud \<Gamma> (emit_reg (Mov_const t w)) (\<lambda>r. {(r, t)})"
  "bound \<Gamma> a \<Longrightarrow> jud \<Gamma> (emit_reg (Load t a)) (\<lambda>r. {(r, t)})"
  "(x, t) \<in> \<Gamma> \<Longrightarrow> (y, t) \<in> \<Gamma> \<Longrightarrow> jud \<Gamma> (emit_reg (Add t x y)) (\<lambda>r. {(r, t)})"
  "(x, t) \<in> \<Gamma> \<Longrightarrow> (y, t) \<in> \<Gamma> \<Longrightarrow> jud \<Gamma> (emit_reg (Sub t x y)) (\<lambda>r. {(r, t)})"
  "(x, t) \<in> \<Gamma> \<Longrightarrow> (y, t) \<in> \<Gamma> \<Longrightarrow> jud \<Gamma> (emit_reg (Xor t x y)) (\<lambda>r. {(r, t)})"
  "(x, t) \<in> \<Gamma> \<Longrightarrow> (y, t) \<in> \<Gamma> \<Longrightarrow> jud \<Gamma> (emit_reg (And t x y)) (\<lambda>r. {(r, t)})"
  "(x, t) \<in> \<Gamma> \<Longrightarrow> (y, t) \<in> \<Gamma> \<Longrightarrow> jud \<Gamma> (emit_reg (Or t x y)) (\<lambda>r. {(r, t)})"
  "(x, t) \<in> \<Gamma> \<Longrightarrow> (y, IR_REG_8) \<in> \<Gamma> \<Longrightarrow> jud \<Gamma> (emit_reg (Shl t x y)) (\<lambda>r. {(r, t)})"
  "t \<in> {IR_REG_32, IR_REG_64} \<Longrightarrow> (x, t) \<in> \<Gamma> \<Longrightarrow> (y, IR_REG_8) \<in> \<Gamma> \<Longrightarrow> jud \<Gamma> (emit_reg (Shr t x y)) (\<lambda>r. {(r, t)})"
  "(x, t) \<in> \<Gamma> \<Longrightarrow> (y, IR_REG_8) \<in> \<Gamma> \<Longrightarrow> jud \<Gamma> (emit_reg (Asr t x y)) (\<lambda>r. {(r, t)})"
  "(x, t) \<in> \<Gamma> \<Longrightarrow> (y, IR_REG_8) \<in> \<Gamma> \<Longrightarrow> jud \<Gamma> (emit_reg (Ror t x y)) (\<lambda>r. {(r, t)})"
  "t \<in> {IR_REG_32, IR_REG_64} \<Longrightarrow> (x, t) \<in> \<Gamma> \<Longrightarrow> (y, t) \<in> \<Gamma> \<Longrightarrow> jud \<Gamma> (emit_reg (Cmpeq t x y)) (\<lambda>r. {(r, t)})"
  "t \<in> {IR_REG_32, IR_REG_64} \<Longrightarrow> (x, t) \<in> \<Gamma> \<Longrightarrow> (y, t) \<in> \<Gamma> \<Longrightarrow> jud \<Gamma> (emit_reg (Cmpne t x y)) (\<lambda>r. {(r, t)})"
  "(x, IR_REG_8) \<in> \<Gamma> \<Longrightarrow> jud \<Gamma> (emit_reg (Cast IR_CAST_8U_TO_64 x)) (\<lambda>r. {(r, IR_REG_64)})"
  "(x, IR_REG_8) \<in> \<Gamma> \<Longrightarrow> jud \<Gamma> (emit_reg (Cast IR_CAST_8S_TO_64 x)) (\<lambda>r. {(r, IR_REG_64)})"
  "(x, IR_REG_16) \<in> \<Gamma> \<Longrightarrow> jud \<Gamma> (emit_reg (Cast IR_CAST_16U_TO_64 x)) (\<lambda>r. {(r, IR_REG_64)})"
  "(x, IR_REG_16) \<in> \<Gamma> \<Longrightarrow> jud \<Gamma> (emit_reg (Cast IR_CAST_16S_TO_64 x)) (\<lambda>r. {(r, IR_REG_64)})"
  "bound \<Gamma> x \<Longrightarrow> jud \<Gamma> (emit_reg (Cast IR_CAST_32U_TO_64 x)) (\<lambda>r. {(r, IR_REG_64)})"
  "bound \<Gamma> x \<Longrightarrow> jud \<Gamma> (emit_reg (Cast IR_CAST_32S_TO_64 x)) (\<lambda>r. {(r, IR_REG_64)})"
  "bound \<Gamma> x \<Longrightarrow> jud \<Gamma> (emit_reg (Cast IR_CAST_64_TO_8 x)) (\<lambda>r. {(r, IR_REG_8)})"
  "bound \<Gamma> x \<Longrightarrow> jud \<Gamma> (emit_reg (Cast IR_CAST_64_TO_16 x)) (\<lambda>r. {(r, IR_REG_16)})"
  "bound \<Gamma> x \<Longrightarrow> jud \<Gamma> (emit_reg (Cast IR_CAST_64_TO_32 x)) (\<lambda>r. {(r, IR_REG_32)})"
  "bound \<Gamma> x \<Longrightarrow> jud \<Gamma> (emit_reg (Cast IR_CAST_32_TO_8 x)) (\<lambda>r. {(r, IR_REG_8)})"
  "bound \<Gamma> x \<Longrightarrow> jud \<Gamma> (emit_reg (Cast IR_CAST_32_TO_16 x)) (\<lambda>r. {(r, IR_REG_16)})"
  "jud \<Gamma> (emit_reg (Read_context t off)) (\<lambda>r. {(r, t)})"
  "bound \<Gamma> s \<or> (s, t) \<in> \<Gamma> \<Longrightarrow> jud \<Gamma> (emit_op (Write_context t s off)) (\<lambda>_. {})"
  "(s, t) \<in> \<Gamma> \<Longrightarrow> bound \<Gamma> a \<Longrightarrow> jud \<Gamma> (emit_op (Store t s a)) (\<lambda>_. {})"
  "(v, IR_REG_64) \<in> \<Gamma> \<Longrightarrow> jud \<Gamma> (emit_op (Exit v)) (\<lambda>_. {})"
  "(v, IR_REG_64) \<in> \<Gamma> \<Longrightarrow> bound \<Gamma> p \<Longrightarrow> jud \<Gamma> (emit_op (Exit_cond v (Some p))) (\<lambda>_. {})"
  "jud \<Gamma> (emit_op (Insn_marker m)) (\<lambda>_. {})"
  by (auto intro!: jud_emit_reg jud_emit_op simp: op_ok_def split: if_splits dest: typingD boundD)

lemma jud_ite [jud_intros]: "t \<in> {IR_REG_32, IR_REG_64} \<Longrightarrow> (p, t) \<in> \<Gamma> \<Longrightarrow> (x, t) \<in> \<Gamma> \<Longrightarrow> (y, t) \<in> \<Gamma> \<Longrightarrow> jud \<Gamma> (emit_reg (Ite t p x y)) (\<lambda>r. {(r, t)})"
proof (intro jud_emit_reg)
  fix ts C
  assume "t \<in> {IR_REG_32, IR_REG_64}" "(p, t) \<in> \<Gamma>" "(x, t) \<in> \<Gamma>" "(y, t) \<in> \<Gamma>" and t: "typing \<Gamma> ts C"
  then show "op_ok ts (Ite t p x y) \<and> op_type ts (Ite t p x y) = Some t \<and> set (needs_clean ts (op_insn (Ite t p x y) (length ts))) \<subseteq> C \<and>
      (t \<in> {IR_REG_32, IR_REG_64} \<longrightarrow> length ts \<in> clean_after True (op_insn (Ite t p x y) (length ts)) C)"
    using typingD [OF _ t, of p t] typingD [OF _ t, of x t] typingD [OF _ t, of y t] by (simp add: op_ok_def)
qed simp

lemma jud_emit_call:
  assumes "bound \<Gamma> a" "list_all (\<lambda>p. list_all (bound \<Gamma>) (opt_list p)) ps" "length ps = 4"
  shows "jud \<Gamma> (emit_op (Call None nm a ps)) (\<lambda>_. {})" "jud \<Gamma> (emit_reg (Call (Some t) nm a ps)) (\<lambda>r. {(r, t)})"
proof -
  have "op_ok ts (Call u nm a ps) \<and> set (needs_clean ts (op_insn (Call u nm a ps) d)) \<subseteq> C" if "typing \<Gamma> ts C" for ts u d C
    using assms by (auto simp: op_ok_def list_all_iff dest: boundD [OF _ that])
  then show "jud \<Gamma> (emit_op (Call None nm a ps)) (\<lambda>_. {})" "jud \<Gamma> (emit_reg (Call (Some t) nm a ps)) (\<lambda>r. {(r, t)})"
    by (intro jud_emit_op jud_emit_reg; simp)+
qed

lemma stepin_exit_if: "stepin_exit c = if_stepin (do { mk_gdb_stepin_instruction c; clear_stepin }) (ret ())"
  by (simp add: stepin_exit_def if_stepin_def)

lemma branch_exits_if: "branch_exits c pred wide imm = do {
    if_stepin (do { next_pc \<leftarrow> call3 add_ite_64 wide (mk_64 (ctx_pc c + imm)) (mk_64 (ctx_pc c + 4)); mk_exit c next_pc })
      (do { call1 (\<lambda>a. mk_exit_pred c a pred) (mk_64 (ctx_pc c + imm)); call1 (mk_exit c) (mk_64 (ctx_pc c + 4)) });
    ret True }"
  by (simp add: branch_exits_def if_stepin_def)

lemma bound_mem: "(r, IR_REG_32) \<in> \<Gamma> \<Longrightarrow> bound \<Gamma> r" "(r, IR_REG_64) \<in> \<Gamma> \<Longrightarrow> bound \<Gamma> r"
  by (auto simp: bound_def)

section \<open>Sequences\<close>

lemma jud_ret_reg [jud_intros]: "(x, t) \<in> \<Gamma> \<Longrightarrow> jud \<Gamma> (ret x) (\<lambda>r. {(r, t)})"
  by (rule jud_ret) simp

lemma jud_ret_unit [jud_intros]: "jud \<Gamma> (ret ()) (\<lambda>_. {})" "jud \<Gamma> (ret b) (\<lambda>_::bool. {})"
  by (rule jud_ret; simp)+

lemma call_ret:
  "call1 f1 (ret x) = f1 x" "call2 f2 (ret x) q = q \<bind> f2 x" "call2 f2 p (ret y) = p \<bind> (\<lambda>x. f2 x y)"
  "call3 f3 (ret x) p q = p \<bind> (\<lambda>y. q \<bind> f3 x y)" "call3 f3 p q (ret z) = p \<bind> (\<lambda>x. q \<bind> (\<lambda>y. f3 x y z))"
  by (simp_all add: call1_def call2_def call3_def)

lemmas jud_rules = jud_bind jud_call jud_if jud_if_stepin jud_clear_stepin

lemma jud_mk [jud_intros]:
  "jud \<Gamma> (mk_8 v) (\<lambda>r. {(r, IR_REG_8)})" "jud \<Gamma> (mk_32 w) (\<lambda>r. {(r, IR_REG_32)})" "jud \<Gamma> (mk_64 x) (\<lambda>r. {(r, IR_REG_64)})"
proof -
  have "trunc IR_REG_8 (ucast v) = (ucast v :: u64)" "trunc IR_REG_32 (ucast w) = (ucast w :: u64)" "trunc IR_REG_64 x = x"
    by (simp_all add: trunc_def unsigned_ucast_eq take_bit_word_eq_self unsigned_take_bit_eq [symmetric])
  then show "jud \<Gamma> (mk_8 v) (\<lambda>r. {(r, IR_REG_8)})" "jud \<Gamma> (mk_32 w) (\<lambda>r. {(r, IR_REG_32)})" "jud \<Gamma> (mk_64 x) (\<lambda>r. {(r, IR_REG_64)})"
    unfolding mk_8_def mk_32_def mk_64_def by (auto intro!: jud_intros)
qed

lemma jud_mk_call_void [jud_intros]:
  assumes "jud \<Gamma> address (\<lambda>r. {(r, IR_REG_64)})" "list_all (\<lambda>p. list_all (bound \<Gamma>) (opt_list p)) ps" "length ps = 4"
  shows "jud \<Gamma> (mk_call_void c name address ps) (\<lambda>_. {})"
  unfolding mk_call_void_def
  by (rule jud_rules assms(1) jud_emit_call jud_emit jud_ret_reg jud_ret_unit jud_mk | (use assms(2,3) in \<open>auto simp: list_all_iff\<close>; fail))+

lemma jud_mk_call_32 [jud_intros]:
  assumes "jud \<Gamma> address (\<lambda>r. {(r, IR_REG_64)})" "list_all (\<lambda>p. list_all (bound \<Gamma>) (opt_list p)) ps" "length ps = 4"
  shows "jud \<Gamma> (mk_call_32 c name address ps) (\<lambda>r. {(r, IR_REG_32)})"
  unfolding mk_call_32_def
  by (rule jud_rules assms(1) jud_emit_call jud_emit jud_ret_reg jud_ret_unit jud_mk | (use assms(2,3) in \<open>auto simp: list_all_iff\<close>; fail))+

lemma jud_mk_call_64 [jud_intros]:
  assumes "jud \<Gamma> address (\<lambda>r. {(r, IR_REG_64)})" "list_all (\<lambda>p. list_all (bound \<Gamma>) (opt_list p)) ps" "length ps = 4"
  shows "jud \<Gamma> (mk_call_64 c name address ps) (\<lambda>r. {(r, IR_REG_64)})"
  unfolding mk_call_64_def
  by (rule jud_rules assms(1) jud_emit_call jud_emit jud_ret_reg jud_ret_unit jud_mk | (use assms(2,3) in \<open>auto simp: list_all_iff\<close>; fail))+

lemma jud_mk_dirty [jud_intros]: "jud \<Gamma> (mk_dirty c name insn) (\<lambda>_. {})"
  unfolding mk_dirty_def by (rule jud_rules jud_intros | simp)+

lemma jud_registers [jud_intros]:
  "jud \<Gamma> (read_x i z) (\<lambda>r. {(r, IR_REG_64)})" "bound \<Gamma> x \<Longrightarrow> jud \<Gamma> (write_x i x z) (\<lambda>_. {})"
  "jud \<Gamma> (read_w i z) (\<lambda>r. {(r, IR_REG_32)})" "bound \<Gamma> x \<Longrightarrow> jud \<Gamma> (write_w i x z) (\<lambda>_. {})"
  "bound \<Gamma> x \<Longrightarrow> jud \<Gamma> (write_w_sign_extend i x z) (\<lambda>_. {})"
  unfolding read_x_def write_x_def read_w_def write_w_def write_w_sign_extend_def by (rule jud_rules jud_intros | simp)+

lemma jud_vector_registers [jud_intros]:
  "jud \<Gamma> (read_v_lsb i) (\<lambda>r. {(r, IR_REG_64)})" "jud \<Gamma> (read_v_msb i) (\<lambda>r. {(r, IR_REG_64)})"
  "bound \<Gamma> x \<Longrightarrow> jud \<Gamma> (write_v_lsb i x) (\<lambda>_. {})" "bound \<Gamma> x \<Longrightarrow> jud \<Gamma> (write_v_msb i x) (\<lambda>_. {})"
  "jud \<Gamma> (read_d i) (\<lambda>r. {(r, IR_REG_64)})" "jud \<Gamma> (read_d_by_index i k) (\<lambda>r. {(r, IR_REG_64)})"
  "bound \<Gamma> x \<Longrightarrow> jud \<Gamma> (write_d i x) (\<lambda>_. {})" "bound \<Gamma> x \<Longrightarrow> jud \<Gamma> (write_d_by_index i k x) (\<lambda>_. {})"
  "jud \<Gamma> (read_s i) (\<lambda>r. {(r, IR_REG_32)})" "jud \<Gamma> (read_s_by_index i k) (\<lambda>r. {(r, IR_REG_32)})"
  "bound \<Gamma> x \<Longrightarrow> jud \<Gamma> (write_s i x) (\<lambda>_. {})" "bound \<Gamma> x \<Longrightarrow> jud \<Gamma> (write_s_by_index i k x) (\<lambda>_. {})"
  "jud \<Gamma> (read_h i) (\<lambda>r. {(r, IR_REG_16)})" "jud \<Gamma> (read_h_by_index i k) (\<lambda>r. {(r, IR_REG_16)})"
  "(x, IR_REG_16) \<in> \<Gamma> \<Longrightarrow> jud \<Gamma> (write_h i x) (\<lambda>_. {})" "(x, IR_REG_16) \<in> \<Gamma> \<Longrightarrow> jud \<Gamma> (write_h_by_index i k x) (\<lambda>_. {})"
  "jud \<Gamma> (read_b i) (\<lambda>r. {(r, IR_REG_8)})" "jud \<Gamma> (read_b_by_index i k) (\<lambda>r. {(r, IR_REG_8)})"
  "(x, IR_REG_8) \<in> \<Gamma> \<Longrightarrow> jud \<Gamma> (write_b i x) (\<lambda>_. {})" "(x, IR_REG_8) \<in> \<Gamma> \<Longrightarrow> jud \<Gamma> (write_b_by_index i k x) (\<lambda>_. {})"
  unfolding read_v_lsb_def read_v_msb_def write_v_lsb_def write_v_msb_def read_d_def read_d_by_index_def write_d_def write_d_by_index_def
    read_s_def read_s_by_index_def write_s_def write_s_by_index_def read_h_def read_h_by_index_def write_h_def write_h_by_index_def
    read_b_def read_b_by_index_def write_b_def write_b_by_index_def
  by (rule jud_rules jud_intros | simp)+

lemma jud_flags [jud_intros]:
  "bound \<Gamma> x \<Longrightarrow> jud \<Gamma> (write_pc x) (\<lambda>_. {})" "jud \<Gamma> read_nzcv (\<lambda>r. {(r, IR_REG_32)})" "bound \<Gamma> x \<Longrightarrow> jud \<Gamma> (write_nzcv x) (\<lambda>_. {})"
  "(x, IR_REG_64) \<in> \<Gamma> \<Longrightarrow> jud \<Gamma> (mk_ror_imm_64 x v) (\<lambda>r. {(r, IR_REG_64)})"
  "(x, IR_REG_32) \<in> \<Gamma> \<Longrightarrow> jud \<Gamma> (mk_ror_imm_32 x v) (\<lambda>r. {(r, IR_REG_32)})"
  unfolding write_pc_def read_nzcv_def write_nzcv_def mk_ror_imm_64_def mk_ror_imm_32_def call_ret by (rule jud_rules jud_intros | simp)+

lemma jud_next_nzcv [jud_intros]:
  "bound \<Gamma> x \<Longrightarrow> bound \<Gamma> y \<Longrightarrow> jud \<Gamma> (mk_next_nzcv_64 c k x y) (\<lambda>r. {(r, IR_REG_32)})"
  "bound \<Gamma> x \<Longrightarrow> bound \<Gamma> y \<Longrightarrow> jud \<Gamma> (mk_next_nzcv_32 c k x y) (\<lambda>r. {(r, IR_REG_32)})"
  unfolding mk_next_nzcv_64_def mk_next_nzcv_32_def by (rule jud_rules jud_intros | simp)+

lemma jud_extend_reg [jud_intros]:
  "jud \<Gamma> (mk_extend_reg_64 rm k s) (\<lambda>r. {(r, IR_REG_64)})" "jud \<Gamma> (mk_extend_reg_32 rm k s) (\<lambda>r. {(r, IR_REG_32)})"
  unfolding mk_extend_reg_64_def mk_extend_reg_32_def call_ret by (rule jud_rules jud_intros | simp)+

lemma jud_helpers [jud_intros]:
  "bound \<Gamma> x \<Longrightarrow> bound \<Gamma> y \<Longrightarrow> jud \<Gamma> (mk_mul_u_lsb_64 c x y) (\<lambda>r. {(r, IR_REG_64)})"
  "bound \<Gamma> x \<Longrightarrow> bound \<Gamma> y \<Longrightarrow> jud \<Gamma> (mk_mul_u_lsb_32 c x y) (\<lambda>r. {(r, IR_REG_32)})"
  "bound \<Gamma> x \<Longrightarrow> bound \<Gamma> y \<Longrightarrow> jud \<Gamma> (mk_mul_u_msb_64 c x y) (\<lambda>r. {(r, IR_REG_64)})"
  "bound \<Gamma> x \<Longrightarrow> bound \<Gamma> y \<Longrightarrow> jud \<Gamma> (mk_mul_s_msb_64 c x y) (\<lambda>r. {(r, IR_REG_64)})"
  "bound \<Gamma> x \<Longrightarrow> bound \<Gamma> y \<Longrightarrow> jud \<Gamma> (mk_mul_s_lsb_64 c x y) (\<lambda>r. {(r, IR_REG_64)})"
  "jud \<Gamma> (mk_barrier c) (\<lambda>_. {})" "jud \<Gamma> (mk_gdb_breakpoint_instruction c) (\<lambda>_. {})" "jud \<Gamma> (mk_gdb_stepin_instruction c) (\<lambda>_. {})"
  "bound \<Gamma> x \<Longrightarrow> jud \<Gamma> (write_fpsr c x) (\<lambda>_. {})" "jud \<Gamma> (read_fpsr c) (\<lambda>r. {(r, IR_REG_32)})"
  "bound \<Gamma> x \<Longrightarrow> jud \<Gamma> (write_fpcr c x) (\<lambda>_. {})" "jud \<Gamma> (read_fpcr c) (\<lambda>r. {(r, IR_REG_32)})"
  unfolding mk_mul_u_lsb_64_def mk_mul_u_lsb_32_def mk_mul_u_msb_64_def mk_mul_s_msb_64_def mk_mul_s_lsb_64_def mk_barrier_def
    mk_gdb_breakpoint_instruction_def mk_gdb_stepin_instruction_def write_fpsr_def read_fpsr_def write_fpcr_def read_fpcr_def
  by (rule jud_rules jud_intros | simp)+

lemma jud_exits [jud_intros]:
  "jud \<Gamma> (illegal_opcode c) (\<lambda>_. {})" "jud \<Gamma> (stepin_exit c) (\<lambda>_. {})"
  "(x, IR_REG_64) \<in> \<Gamma> \<Longrightarrow> jud \<Gamma> (mk_exit c x) (\<lambda>_. {})"
  "(x, IR_REG_64) \<in> \<Gamma> \<Longrightarrow> bound \<Gamma> p \<Longrightarrow> jud \<Gamma> (mk_exit_pred c x p) (\<lambda>_. {})"
  unfolding illegal_opcode_def mk_exit_def mk_exit_pred_def stepin_exit_if
  by (rule jud_rules jud_intros | (auto simp: bound_def)[])+

lemma jud_if_fun: "(b \<Longrightarrow> jud \<Gamma> (f x) R) \<Longrightarrow> (\<not> b \<Longrightarrow> jud \<Gamma> (g x) R) \<Longrightarrow> jud \<Gamma> ((if b then f else g) x) R"
  by simp

text \<open>The results of the signed casts to 32 bits are not clean; they are only written to a register.\<close>

lemma jud_signed_write:
  assumes "op_type [] (Cast k x) \<noteq> None" "snd (cast_types k) = IR_REG_32" "(x, fst (cast_types k)) \<in> \<Gamma>"
  shows "jud \<Gamma> (emit_reg (Cast k x) \<bind> (\<lambda>res. write_w i res z \<bind> (\<lambda>_. ret False))) (\<lambda>_. {})"
proof (rule judI)
  show "app (emit_reg (Cast k x) \<bind> (\<lambda>res. write_w i res z \<bind> (\<lambda>_. ret False)))" by (auto simp: write_w_def intro!: app_simps)
  fix ts C st r new st'
  assume t: "typing \<Gamma> ts C" and o: "outcome_of (emit_reg (Cast k x) \<bind> (\<lambda>res. write_w i res z \<bind> (\<lambda>_. ret False))) (length ts) st = (r, new, st')"
  have "x < length ts" "ts ! x = fst (cast_types k)" using typingD [OF assms(3) t] by auto
  moreover have "new = (if i = 31 \<and> z then [Cast k x] else [Cast k x, Cast IR_CAST_32U_TO_64 (length ts), Write_context IR_REG_64 (Suc (length ts)) (of_nat (off_r i))])"
    using o by (auto simp: write_w_def outcome_of_def emit_reg_def emit_op_def State_Monad.bind_def split: if_splits)
  ultimately show "ops_ok ts new \<and> ops_clean ts C new \<and> typing {} (ops_types ts new) (ops_cleaned (length ts) C new)"
    using assms(2) by (auto simp: op_ok_def typing_def nth_append split: if_splits)
qed

lemmas jud_signed_writes = jud_signed_write [where k = IR_CAST_8S_TO_32, simplified] jud_signed_write [where k = IR_CAST_16S_TO_32, simplified]

lemma jud_signed_load:
  assumes "bound \<Gamma> a"
  shows "jud \<Gamma> ((if b then call1 (\<lambda>x. add_8S_to_32 x) (add_load_8 a) else call1 (\<lambda>x. add_16S_to_32 x) (add_load_16 a)) \<bind> (\<lambda>res. write_w i res z \<bind> (\<lambda>_. ret False))) (\<lambda>_. {})"
  by (cases b) (simp_all add: call1_def, (rule jud_bind [OF jud_emit(2) [OF assms] jud_signed_write]; simp)+)

section \<open>Loads and stores\<close>

lemma jud_load_store_register [jud_intros]:
  "bound \<Gamma> a \<Longrightarrow> jud \<Gamma> (dis_load_store_register c sz opc rt a) (\<lambda>_. {})"
  "(a, IR_REG_64) \<in> \<Gamma> \<Longrightarrow> jud \<Gamma> (dis_load_store_register_simd c l sz rt a) (\<lambda>_. {})"
  unfolding dis_load_store_register_def dis_load_store_register_simd_def Let_def call_ret
  by (rule jud_signed_load | rule jud_rules jud_intros | simp add: bound_mem)+

lemma jud_pairs [jud_intros]:
  "jud \<Gamma> (dis_load_store_pair c insn) (\<lambda>_. {})"
  "jud \<Gamma> (dis_load_store_no_allocate_pair_offset c insn) (\<lambda>_. {})"
  "jud \<Gamma> (dis_load_store_pair_pre_indexed c insn) (\<lambda>_. {})"
  "jud \<Gamma> (dis_load_store_pair_offset c insn) (\<lambda>_. {})"
  "jud \<Gamma> (dis_load_store_pair_post_indexed c insn) (\<lambda>_. {})"
  "jud \<Gamma> (dis_load_store_pair_simd_vfp c insn) (\<lambda>_. {})"
  "jud \<Gamma> (dis_load_store_no_allocate_pair_offset_simd_vfp c insn) (\<lambda>_. {})"
  "jud \<Gamma> (dis_load_store_pair_pre_indexed_simd_vfp c insn) (\<lambda>_. {})"
  "jud \<Gamma> (dis_load_store_pair_offset_simd_vfp c insn) (\<lambda>_. {})"
  "jud \<Gamma> (dis_load_store_pair_post_indexed_simd_vfp c insn) (\<lambda>_. {})"
  unfolding dis_load_store_pair_def dis_load_store_no_allocate_pair_offset_def dis_load_store_pair_pre_indexed_def dis_load_store_pair_offset_def
    dis_load_store_pair_post_indexed_def dis_load_store_pair_simd_vfp_def dis_load_store_no_allocate_pair_offset_simd_vfp_def
    dis_load_store_pair_pre_indexed_simd_vfp_def dis_load_store_pair_offset_simd_vfp_def dis_load_store_pair_post_indexed_simd_vfp_def Let_def
    call_ret
  by (rule jud_rules jud_if_fun jud_intros | simp add: bound_mem)+

lemma jud_single [jud_intros]:
  "jud \<Gamma> (dis_load_register_literal c insn) (\<lambda>_. {})"
  "jud \<Gamma> (dis_load_register_literal_simd c insn) (\<lambda>_. {})"
  "jud \<Gamma> (dis_load_store_register_unsigned_offset c insn) (\<lambda>_. {})"
  "jud \<Gamma> (dis_load_store_register_unsigned_offset_simd c insn) (\<lambda>_. {})"
  "jud \<Gamma> (dis_load_store_register_unscaled_immediate c insn) (\<lambda>_. {})"
  "jud \<Gamma> (dis_load_store_register_unscaled_immediate_simd c insn) (\<lambda>_. {})"
  "jud \<Gamma> (dis_load_store_register_immediate_post_indexed c insn) (\<lambda>_. {})"
  "jud \<Gamma> (dis_load_store_register_immediate_post_indexed_simd c insn) (\<lambda>_. {})"
  "jud \<Gamma> (dis_load_store_register_register_offset c insn) (\<lambda>_. {})"
  "jud \<Gamma> (dis_load_store_register_register_offset_simd c insn) (\<lambda>_. {})"
  "jud \<Gamma> (dis_load_store_register_unprivileged c insn) (\<lambda>_. {})"
  "jud \<Gamma> (dis_load_store_register_immediate_pre_indexed c insn) (\<lambda>_. {})"
  "jud \<Gamma> (dis_load_store_register_immediate_pre_indexed_simd c insn) (\<lambda>_. {})"
  unfolding dis_load_register_literal_def dis_load_register_literal_simd_def dis_load_store_register_unsigned_offset_def
    dis_load_store_register_unsigned_offset_simd_def dis_load_store_register_unscaled_immediate_def
    dis_load_store_register_unscaled_immediate_simd_def dis_load_store_register_immediate_post_indexed_def
    dis_load_store_register_immediate_post_indexed_simd_def dis_load_store_register_register_offset_def
    dis_load_store_register_register_offset_simd_def dis_load_store_register_unprivileged_def dis_load_store_register_immediate_pre_indexed_def
    dis_load_store_register_immediate_pre_indexed_simd_def Let_def call_ret
  by (rule jud_rules jud_if_fun jud_intros | simp add: bound_mem)+

lemma jud_exclusive [jud_intros]:
  "jud \<Gamma> (dis_load_exclusive c insn) (\<lambda>_. {})"
  "jud \<Gamma> (dis_load_aquire_exclusive c insn) (\<lambda>_. {})"
  "jud \<Gamma> (dis_load_aquire_exclusive_pair c insn) (\<lambda>_. {})"
  "jud \<Gamma> (dis_load_exclusive_pair c insn) (\<lambda>_. {})"
  "jud \<Gamma> (dis_load_aquire c insn) (\<lambda>_. {})"
  "jud \<Gamma> (dis_store_release c insn) (\<lambda>_. {})"
  "jud \<Gamma> (dis_store_exclusive c insn) (\<lambda>_. {})"
  "jud \<Gamma> (dis_store_exclusive_pair c insn) (\<lambda>_. {})"
  "jud \<Gamma> (dis_store_release_exclusive_pair c insn) (\<lambda>_. {})"
  "jud \<Gamma> (dis_store_release_exclusive c insn) (\<lambda>_. {})"
  "jud \<Gamma> (dis_load_store_multiple_structure c insn) (\<lambda>_. {})"
  "jud \<Gamma> (dis_load_store_multiple_structure_post_index c insn) (\<lambda>_. {})"
  "jud \<Gamma> (dis_load_store_single_structure c insn) (\<lambda>_. {})"
  "jud \<Gamma> (dis_load_store_single_structure_post_index c insn) (\<lambda>_. {})"
  unfolding dis_load_exclusive_def dis_load_aquire_exclusive_def dis_load_aquire_exclusive_pair_def dis_load_exclusive_pair_def
    dis_load_aquire_def dis_store_release_def dis_store_exclusive_def dis_store_exclusive_pair_def dis_store_release_exclusive_pair_def
    dis_store_release_exclusive_def dis_load_store_multiple_structure_def dis_load_store_multiple_structure_post_index_def
    dis_load_store_single_structure_def dis_load_store_single_structure_post_index_def Let_def call_ret
  by (rule jud_rules jud_if_fun jud_intros | simp add: bound_mem)+

lemma jud_load_store_exclusive [jud_intros]:
  "jud \<Gamma> (dis_load_store_exclusive c insn) (\<lambda>_. {})"
  unfolding dis_load_store_exclusive_def Let_def call_ret
  by (rule jud_rules jud_if_fun jud_intros | simp add: bound_mem)+

lemma jud_load_store [jud_intros]:
  "jud \<Gamma> (dis_load_store_insn c insn) (\<lambda>_. {})"
  unfolding dis_load_store_insn_def Let_def call_ret
  by (rule jud_rules jud_if_fun jud_intros | simp add: bound_mem)+

section \<open>Data processing\<close>

abbreviation width :: "bool \<Rightarrow> irRegisterType" where "width is_64 \<equiv> if is_64 then IR_REG_64 else IR_REG_32"

lemma jud_add_sub [jud_intros]:
  "(x, width (flag insn 31)) \<in> \<Gamma> \<Longrightarrow> (y, width (flag insn 31)) \<in> \<Gamma> \<Longrightarrow> jud \<Gamma> (dis_add_sub c insn x y z) (\<lambda>_. {})"
  unfolding dis_add_sub_def Let_def by (cases "flag insn 31"; simp only: if_True if_False) (rule jud_rules jud_intros | simp add: bound_mem)+

lemma jud_pred [jud_intros]: "jud \<Gamma> (mk_shift_count rm v) (\<lambda>r. {(r, IR_REG_8)})" "jud \<Gamma> (mk_pred c k) (\<lambda>r. {(r, IR_REG_32)})"
  unfolding mk_shift_count_def mk_pred_def by (rule jud_rules jud_intros | simp)+

lemma jud_parts [jud_intros]:
  "(x, IR_REG_64) \<in> \<Gamma> \<Longrightarrow> jud \<Gamma> (logical_result c is_64 S rd x z) (\<lambda>_. {})"
  "(x, IR_REG_64) \<in> \<Gamma> \<Longrightarrow> jud \<Gamma> (dis_cond_select c insn x) (\<lambda>_. {})"
  "bound \<Gamma> x \<Longrightarrow> jud \<Gamma> (dis_ccmp_A_ccmn c insn x) (\<lambda>_. {})"
  "(x, IR_REG_64) \<in> \<Gamma> \<Longrightarrow> jud \<Gamma> (swap_64 x lo hi s) (\<lambda>r. {(r, IR_REG_64)})"
  "(x, IR_REG_32) \<in> \<Gamma> \<Longrightarrow> jud \<Gamma> (swap_32 x lo' hi' s) (\<lambda>r. {(r, IR_REG_32)})"
  unfolding logical_result_def dis_cond_select_def dis_ccmp_A_ccmn_def swap_64_def swap_32_def Let_def call_ret
  by (rule jud_rules jud_intros | simp add: bound_mem)+

lemma jud_rbit_steps_64 [jud_intros]: "(x, IR_REG_64) \<in> \<Gamma> \<Longrightarrow> jud \<Gamma> (rbit_steps_64 cs x) (\<lambda>r. {(r, IR_REG_64)})"
  by (induction cs x arbitrary: \<Gamma> rule: rbit_steps_64.induct) (auto intro!: jud_intros jud_bind)

lemma jud_rbit_steps_32 [jud_intros]: "(x, IR_REG_32) \<in> \<Gamma> \<Longrightarrow> jud \<Gamma> (rbit_steps_32 cs x) (\<lambda>r. {(r, IR_REG_32)})"
  by (induction cs x arbitrary: \<Gamma> rule: rbit_steps_32.induct) (auto intro!: jud_intros jud_bind)

lemma jud_widths [jud_intros]:
  "jud \<Gamma> (dis_add_sub_immediate_insn c insn) (\<lambda>_. {})"
  "jud \<Gamma> (dis_add_sub_shifted_register_insn c insn) (\<lambda>_. {})"
  "jud \<Gamma> (dis_add_sub_extended_register_insn c insn) (\<lambda>_. {})"
  "jud \<Gamma> (dis_ccmp_A_ccmn_immediate c insn) (\<lambda>_. {})"
  "jud \<Gamma> (dis_ccmp_A_ccmn_register c insn) (\<lambda>_. {})"
  unfolding dis_add_sub_immediate_insn_def dis_add_sub_shifted_register_insn_def dis_add_sub_extended_register_insn_def dis_ccmp_A_ccmn_immediate_def dis_ccmp_A_ccmn_register_def Let_def call_ret
  by (cases "flag insn 31"; simp only: if_True if_False; (rule jud_rules jud_intros | simp add: bound_mem)+)+

lemma jud_data1 [jud_intros]:
  "jud \<Gamma> (dis_add_substract_with_carry c insn) (\<lambda>_. {})"
  "jud \<Gamma> (dis_adrp c insn) (\<lambda>_. {})"
  "jud \<Gamma> (dis_adr c insn) (\<lambda>_. {})"
  "jud \<Gamma> (dis_movn c insn) (\<lambda>_. {})"
  "jud \<Gamma> (dis_movz c insn) (\<lambda>_. {})"
  "jud \<Gamma> (dis_movk c insn) (\<lambda>_. {})"
  "jud \<Gamma> (dis_logical_shifted_register c insn) (\<lambda>_. {})"
  "jud \<Gamma> (dis_logical_immediate c insn) (\<lambda>_. {})"
  "jud \<Gamma> (dis_bitfield_insn c insn) (\<lambda>_. {})"
  "jud \<Gamma> (dis_extr c insn) (\<lambda>_. {})"
  "jud \<Gamma> (dis_udiv c insn) (\<lambda>_. {})"
  "jud \<Gamma> (dis_sdiv c insn) (\<lambda>_. {})"
  "jud \<Gamma> (dis_lslv c insn) (\<lambda>_. {})"
  "jud \<Gamma> (dis_lsrv c insn) (\<lambda>_. {})"
  "jud \<Gamma> (dis_asrv c insn) (\<lambda>_. {})"
  "jud \<Gamma> (dis_rorv c insn) (\<lambda>_. {})"
  "jud \<Gamma> (dis_crc32 c insn) (\<lambda>_. {})"
  "jud \<Gamma> (dis_madd c insn) (\<lambda>_. {})"
  unfolding dis_add_substract_with_carry_def dis_adrp_def dis_adr_def dis_movn_def dis_movz_def dis_movk_def dis_logical_shifted_register_def
    dis_logical_immediate_def dis_bitfield_insn_def dis_extr_def dis_udiv_def dis_sdiv_def dis_lslv_def dis_lsrv_def dis_asrv_def dis_rorv_def
    dis_crc32_def dis_madd_def Let_def call_ret
  by (rule jud_rules jud_if_fun jud_intros | simp add: bound_mem)+

lemma jud_data2 [jud_intros]:
  "jud \<Gamma> (dis_msub c insn) (\<lambda>_. {})"
  "jud \<Gamma> (dis_smaddl c insn) (\<lambda>_. {})"
  "jud \<Gamma> (dis_smsubl c insn) (\<lambda>_. {})"
  "jud \<Gamma> (dis_smulh c insn) (\<lambda>_. {})"
  "jud \<Gamma> (dis_umaddl c insn) (\<lambda>_. {})"
  "jud \<Gamma> (dis_umsubl c insn) (\<lambda>_. {})"
  "jud \<Gamma> (dis_umulh c insn) (\<lambda>_. {})"
  "jud \<Gamma> (dis_csneg c insn) (\<lambda>_. {})"
  "jud \<Gamma> (dis_csinv c insn) (\<lambda>_. {})"
  "jud \<Gamma> (dis_csinc c insn) (\<lambda>_. {})"
  "jud \<Gamma> (dis_csel c insn) (\<lambda>_. {})"
  "jud \<Gamma> (dis_rbit_64 c insn) (\<lambda>_. {})"
  "jud \<Gamma> (dis_rbit_32 c insn) (\<lambda>_. {})"
  "jud \<Gamma> (dis_rbit c insn) (\<lambda>_. {})"
  "jud \<Gamma> (dis_rev16 c insn) (\<lambda>_. {})"
  "jud \<Gamma> (dis_rev32 c insn) (\<lambda>_. {})"
  "jud \<Gamma> (dis_rev c insn) (\<lambda>_. {})"
  "jud \<Gamma> (dis_clz c insn) (\<lambda>_. {})"
  "jud \<Gamma> (dis_cls c insn) (\<lambda>_. {})"
  unfolding dis_msub_def dis_smaddl_def dis_smsubl_def dis_smulh_def dis_umaddl_def dis_umsubl_def dis_umulh_def dis_csneg_def dis_csinv_def
    dis_csinc_def dis_csel_def dis_rbit_64_def dis_rbit_32_def dis_rbit_def dis_rev16_def dis_rev32_def dis_rev_def dis_clz_def dis_cls_def
    Let_def call_ret
  by (rule jud_rules jud_if_fun jud_intros | simp add: bound_mem)+

lemma jud_data_sources [jud_intros]:
  "jud \<Gamma> (dis_conditional_select c insn) (\<lambda>_. {})"
  "jud \<Gamma> (dis_data_processing_1_source c insn) (\<lambda>_. {})"
  "jud \<Gamma> (dis_data_processing_2_source c insn) (\<lambda>_. {})"
  "jud \<Gamma> (dis_data_processing_3_source c insn) (\<lambda>_. {})"
  unfolding dis_conditional_select_def dis_data_processing_1_source_def dis_data_processing_2_source_def dis_data_processing_3_source_def Let_def
    call_ret
  by (rule jud_rules jud_if_fun jud_intros | simp add: bound_mem)+

lemma jud_data_processing [jud_intros]:
  "jud \<Gamma> (dis_data_processing_immediate_insn c insn) (\<lambda>_. {})"
  "jud \<Gamma> (dis_data_processing_register_insn c insn) (\<lambda>_. {})"
  unfolding dis_data_processing_immediate_insn_def dis_data_processing_register_insn_def Let_def call_ret
  by (rule jud_rules jud_if_fun jud_intros | simp add: bound_mem)+

section \<open>Branches and system instructions\<close>

lemma jud_branch_exits [jud_intros]:
  assumes "bound \<Gamma> pred" "jud \<Gamma> wide (\<lambda>r. {(r, IR_REG_64)})"
  shows "jud \<Gamma> (branch_exits c pred wide imm) (\<lambda>_. {})"
  unfolding branch_exits_if by (rule jud_rules jud_intros assms(2) | simp add: assms(1))+

lemma jud_branches [jud_intros]:
  "jud \<Gamma> (dis_b_A_bl c insn) (\<lambda>_. {})"
  "jud \<Gamma> (dis_svc c insn) (\<lambda>_. {})"
  "jud \<Gamma> (dis_brk c insn) (\<lambda>_. {})"
  "jud \<Gamma> (dis_br c insn) (\<lambda>_. {})"
  "jud \<Gamma> (dis_blr c insn) (\<lambda>_. {})"
  "jud \<Gamma> (dis_ret c insn) (\<lambda>_. {})"
  "jud \<Gamma> (dis_conditionnal_branch_immediate_insn c insn) (\<lambda>_. {})"
  "jud \<Gamma> (dis_cbz_A_cbnz c insn) (\<lambda>_. {})"
  "jud \<Gamma> (dis_cbnz c insn) (\<lambda>_. {})"
  "jud \<Gamma> (dis_cbz c insn) (\<lambda>_. {})"
  "jud \<Gamma> (dis_tbz_A_tbnz c insn) (\<lambda>_. {})"
  "jud \<Gamma> (dis_msr_register c insn) (\<lambda>_. {})"
  "jud \<Gamma> (dis_mrs_register c insn) (\<lambda>_. {})"
  "jud \<Gamma> (dis_clrex c insn) (\<lambda>_. {})"
  "jud \<Gamma> (dis_dsb c insn) (\<lambda>_. {})"
  "jud \<Gamma> (dis_dmb c insn) (\<lambda>_. {})"
  "jud \<Gamma> (dis_isb c insn) (\<lambda>_. {})"
  "jud \<Gamma> (dis_sys c insn) (\<lambda>_. {})"
  unfolding dis_b_A_bl_def dis_svc_def dis_brk_def dis_br_def dis_blr_def dis_ret_def dis_conditionnal_branch_immediate_insn_def
    dis_cbz_A_cbnz_def dis_cbnz_def dis_cbz_def dis_tbz_A_tbnz_def dis_msr_register_def dis_mrs_register_def dis_clrex_def dis_dsb_def dis_dmb_def
    dis_isb_def dis_sys_def Let_def call_ret
  by (rule jud_rules jud_if_fun jud_intros | simp add: bound_mem)+

lemma jud_branch_classes [jud_intros]:
  "jud \<Gamma> (dis_exception_insn c insn) (\<lambda>_. {})"
  "jud \<Gamma> (dis_unconditionnal_branch_register c insn) (\<lambda>_. {})"
  "jud \<Gamma> (dis_system c insn) (\<lambda>_. {})"
  unfolding dis_exception_insn_def dis_unconditionnal_branch_register_def dis_system_def Let_def call_ret
  by (rule jud_rules jud_if_fun jud_intros | simp add: bound_mem)+

lemma jud_branch [jud_intros]:
  "jud \<Gamma> (dis_branch_A_exception_A_system_insn c insn) (\<lambda>_. {})"
  unfolding dis_branch_A_exception_A_system_insn_def Let_def call_ret
  by (rule jud_rules jud_if_fun jud_intros | simp add: bound_mem)+

section \<open>Vector instructions\<close>

lemma jud_immediates [jud_intros]:
  "jud \<Gamma> (dis_mvni c insn) (\<lambda>_. {})"
  "jud \<Gamma> (dis_movi c insn) (\<lambda>_. {})"
  "jud \<Gamma> (dis_bic_immediate c insn) (\<lambda>_. {})"
  "jud \<Gamma> (dis_orr_immediate c insn) (\<lambda>_. {})"
  "jud \<Gamma> (dis_fmov_immediate c insn) (\<lambda>_. {})"
  unfolding dis_mvni_def dis_movi_def dis_bic_immediate_def dis_orr_immediate_def dis_fmov_immediate_def Let_def call_ret
  by (cases "simd_immediate (fld insn 29 29) (fld insn 15 12) (simd_imm8 insn)"; simp only: prod.case; (rule jud_rules jud_intros | simp)+)+

lemma jud_smov [jud_intros]: "jud \<Gamma> (dis_smov c insn) (\<lambda>_. {})"
  unfolding dis_smov_def Let_def by (cases "flag insn 30"; simp only: if_True if_False; (rule jud_signed_writes | rule jud_rules jud_intros | simp)+)

lemma jud_moves [jud_intros]:
  "jud \<Gamma> (dis_fmov c insn) (\<lambda>_. {})"
  "jud \<Gamma> (dis_fmov_register c insn) (\<lambda>_. {})"
  "jud \<Gamma> (dis_umov c insn) (\<lambda>_. {})"
  "jud \<Gamma> (dis_insn_element c insn) (\<lambda>_. {})"
  "jud \<Gamma> (dis_insn_general c insn) (\<lambda>_. {})"
  "jud \<Gamma> (dis_advanced_simd_scalar_copy c insn) (\<lambda>_. {})"
  unfolding dis_fmov_def dis_fmov_register_def dis_umov_def dis_insn_element_def dis_insn_general_def dis_advanced_simd_scalar_copy_def Let_def
    call_ret
  by (rule jud_rules jud_if_fun jud_intros | simp add: bound_mem)+

lemma jud_dirty [jud_intros]:
  "jud \<Gamma> (dis_dup_element c insn) (\<lambda>_. {})"
  "jud \<Gamma> (dis_dup_general c insn) (\<lambda>_. {})"
  "jud \<Gamma> (dis_scvtf_scalar_integer c insn) (\<lambda>_. {})"
  "jud \<Gamma> (dis_ucvtf_scalar_integer c insn) (\<lambda>_. {})"
  "jud \<Gamma> (dis_fcvtxx_scalar_integer c insn) (\<lambda>_. {})"
  "jud \<Gamma> (dis_floating_point_data_processing_3_source c insn) (\<lambda>_. {})"
  "jud \<Gamma> (dis_floating_point_immediate c insn) (\<lambda>_. {})"
  "jud \<Gamma> (dis_floating_point_compare c insn) (\<lambda>_. {})"
  "jud \<Gamma> (dis_floating_point_data_processing_2_source c insn) (\<lambda>_. {})"
  "jud \<Gamma> (dis_floating_point_conditional_select c insn) (\<lambda>_. {})"
  "jud \<Gamma> (dis_advanced_simd_shift_by_immediate c insn) (\<lambda>_. {})"
  "jud \<Gamma> (dis_advanced_simd_scalar_three_different c insn) (\<lambda>_. {})"
  "jud \<Gamma> (dis_advanced_simd_scalar_two_reg_misc c insn) (\<lambda>_. {})"
  "jud \<Gamma> (dis_advanced_simd_scalar_pair_wise c insn) (\<lambda>_. {})"
  "jud \<Gamma> (dis_advanced_simd_table_lookup c insn) (\<lambda>_. {})"
  "jud \<Gamma> (dis_advanced_simd_permute c insn) (\<lambda>_. {})"
  "jud \<Gamma> (dis_advanced_simd_ext c insn) (\<lambda>_. {})"
  "jud \<Gamma> (dis_advanced_simd_three_different c insn) (\<lambda>_. {})"
  "jud \<Gamma> (dis_advanced_simd_two_reg_misc c insn) (\<lambda>_. {})"
  "jud \<Gamma> (dis_advanced_simd_accross_lanes c insn) (\<lambda>_. {})"
  "jud \<Gamma> (dis_advanced_simd_scalar_three_same c insn) (\<lambda>_. {})"
  "jud \<Gamma> (dis_advanced_simd_three_same c insn) (\<lambda>_. {})"
  "jud \<Gamma> (dis_advanced_simd_vector_x_indexed_element c insn) (\<lambda>_. {})"
  "jud \<Gamma> (dis_advanced_simd_scalar_x_indexed_element c insn) (\<lambda>_. {})"
  "jud \<Gamma> (dis_advanced_simd_scalar_shift_by_immediate c insn) (\<lambda>_. {})"
  "jud \<Gamma> (dis_floating_point_conditional_compare c insn) (\<lambda>_. {})"
  "jud \<Gamma> (dis_conversion_between_floating_point_and_fixed_point_insn c insn) (\<lambda>_. {})"
  unfolding dis_dup_element_def dis_dup_general_def dis_scvtf_scalar_integer_def dis_ucvtf_scalar_integer_def dis_fcvtxx_scalar_integer_def
    dis_floating_point_data_processing_3_source_def dis_floating_point_immediate_def dis_floating_point_compare_def
    dis_floating_point_data_processing_2_source_def dis_floating_point_conditional_select_def dis_advanced_simd_shift_by_immediate_def
    dis_advanced_simd_scalar_three_different_def dis_advanced_simd_scalar_two_reg_misc_def dis_advanced_simd_scalar_pair_wise_def
    dis_advanced_simd_table_lookup_def dis_advanced_simd_permute_def dis_advanced_simd_ext_def dis_advanced_simd_three_different_def
    dis_advanced_simd_two_reg_misc_def dis_advanced_simd_accross_lanes_def dis_advanced_simd_scalar_three_same_def
    dis_advanced_simd_three_same_def dis_advanced_simd_vector_x_indexed_element_def dis_advanced_simd_scalar_x_indexed_element_def
    dis_advanced_simd_scalar_shift_by_immediate_def dis_floating_point_conditional_compare_def
    dis_conversion_between_floating_point_and_fixed_point_insn_def Let_def call_ret
  by (rule jud_rules jud_if_fun jud_intros | simp add: bound_mem)+

lemma jud_simd_classes [jud_intros]:
  "jud \<Gamma> (dis_floating_point_data_processing_1_source c insn) (\<lambda>_. {})"
  "jud \<Gamma> (dis_conversion_between_floating_point_and_integer_insn c insn) (\<lambda>_. {})"
  "jud \<Gamma> (dis_advanced_simd_copy c insn) (\<lambda>_. {})"
  "jud \<Gamma> (dis_advanced_simd_modified_immediate c insn) (\<lambda>_. {})"
  unfolding dis_floating_point_data_processing_1_source_def dis_conversion_between_floating_point_and_integer_insn_def dis_advanced_simd_copy_def
    dis_advanced_simd_modified_immediate_def Let_def call_ret
  by (rule jud_rules jud_if_fun jud_intros | simp add: bound_mem)+

lemma jud_checked [jud_intros]: "jud \<Gamma> (f c insn) (\<lambda>_. {}) \<Longrightarrow> jud \<Gamma> (checked c insn m v f) (\<lambda>_. {})"
  unfolding checked_def by (rule jud_rules jud_intros | simp)+

lemma jud_advanced_simd [jud_intros]:
  "jud \<Gamma> (dis_advanced_simd c insn) (\<lambda>_. {})"
  unfolding dis_advanced_simd_def Let_def call_ret
  by (rule jud_rules jud_if_fun jud_intros | simp add: bound_mem)+

lemma jud_simd [jud_intros]:
  "jud \<Gamma> (dis_data_processing_simd_insn c insn) (\<lambda>_. {})"
  unfolding dis_data_processing_simd_insn_def Let_def call_ret
  by (rule jud_rules jud_if_fun jud_intros | simp add: bound_mem)+

section \<open>The disassembler\<close>

lemma jud_disassemble_insn [jud_intros]: "jud \<Gamma> (disassemble_insn c insn) (\<lambda>_. {})"
  unfolding disassemble_insn_def by (rule jud_rules jud_intros)+

lemma dis_rounds_if: "dis_rounds fetch hlp (Suc n) i pc =
    if_stepin (if i \<noteq> 0 then call1 (mk_exit \<lparr>ctx_pc = pc - 4, hlp_addr = hlp\<rparr>) (mk_64 pc)
        else do { isExit \<leftarrow> disassemble_insn \<lparr>ctx_pc = pc, hlp_addr = hlp\<rparr> (fetch pc); if isExit then ret () else dis_rounds fetch hlp n (Suc i) (pc + 4) })
      (do { isExit \<leftarrow> disassemble_insn \<lparr>ctx_pc = pc, hlp_addr = hlp\<rparr> (fetch pc); if isExit then ret () else dis_rounds fetch hlp n (Suc i) (pc + 4) })"
  unfolding if_stepin_def by (auto intro!: arg_cong [where f = "\<lambda>f. State_Monad.get \<bind> f"])

lemma dis_rounds_with_marker_if: "dis_rounds_with_marker fetch hlp (Suc n) i pc =
    if_stepin (if i \<noteq> 0 then call1 (mk_exit \<lparr>ctx_pc = pc - 4, hlp_addr = hlp\<rparr>) (mk_64 pc)
        else do { emit_op (Insn_marker (of_nat (4 * i))); isExit \<leftarrow> disassemble_insn \<lparr>ctx_pc = pc, hlp_addr = hlp\<rparr> (fetch pc);
                  if isExit then ret () else dis_rounds_with_marker fetch hlp n (Suc i) (pc + 4) })
      (do { emit_op (Insn_marker (of_nat (4 * i))); isExit \<leftarrow> disassemble_insn \<lparr>ctx_pc = pc, hlp_addr = hlp\<rparr> (fetch pc);
            if isExit then ret () else dis_rounds_with_marker fetch hlp n (Suc i) (pc + 4) })"
  unfolding if_stepin_def by (auto intro!: arg_cong [where f = "\<lambda>f. State_Monad.get \<bind> f"])

lemma jud_dis_rounds [jud_intros]: "jud \<Gamma> (dis_rounds fetch hlp n i pc) (\<lambda>_. {})"
proof (induction n arbitrary: \<Gamma> i pc)
  case 0
  show ?case unfolding dis_rounds.simps by (rule jud_rules jud_intros | simp)+
next
  case (Suc n)
  show ?case unfolding dis_rounds_if by (rule jud_rules jud_intros Suc.IH | simp)+
qed

lemma jud_dis_rounds_with_marker [jud_intros]: "jud \<Gamma> (dis_rounds_with_marker fetch hlp n i pc) (\<lambda>_. {})"
proof (induction n arbitrary: \<Gamma> i pc)
  case 0
  show ?case unfolding dis_rounds_with_marker.simps by (rule jud_rules jud_intros | simp)+
next
  case (Suc n)
  show ?case unfolding dis_rounds_with_marker_if by (rule jud_rules jud_intros Suc.IH | simp)+
qed

end
