(* ===== verification/Arm64_Dis_Cost.thy ===== *)
theory Arm64_Dis_Cost
  imports Arm64_Dis_Typing
begin

text \<open>How many calls on the builder an instruction and a block make.\<close>

named_theorems cost_intros \<open>number of calls of a program\<close>

definition cost :: "'a dis \<Rightarrow> nat \<Rightarrow> bool" where
  "cost p k \<longleftrightarrow> app p \<and> (\<forall>n st. length (fst (snd (outcome_of p n st))) \<le> k)"

lemma cost_weaken: "cost p k \<Longrightarrow> k \<le> l \<Longrightarrow> cost p l"
  unfolding cost_def using le_trans by blast

lemma cost_bind:
  assumes p: "cost p k" and f: "\<And>r. cost (f r) l"
  shows "cost (p \<bind> f) (k + l)"
proof -
  have a: "app p" "\<And>r. app (f r)" using p f by (auto simp: cost_def)
  have "length (fst (snd (outcome_of (p \<bind> f) n st))) \<le> k + l" for n st
  proof -
    obtain r new st1 where p1: "outcome_of p n st = (r, new, st1)" by (cases "outcome_of p n st") auto
    obtain q new2 st2 where f1: "outcome_of (f r) (n + ops_nregs new) st1 = (q, new2, st2)"
      by (cases "outcome_of (f r) (n + ops_nregs new) st1") auto
    have "length new \<le> k" using p p1 unfolding cost_def by (metis fst_conv snd_conv)
    moreover have "length new2 \<le> l" using f [of r] f1 unfolding cost_def by (metis fst_conv snd_conv)
    ultimately show ?thesis by (simp add: outcome_bind [OF a] p1 f1)
  qed
  then show ?thesis using app_bind [OF a] by (simp add: cost_def)
qed

lemma cost_ret: "cost (ret x) 0"
  by (simp add: cost_def app_simps outcome_ret)

lemma cost_emit: "op_type [] i = None \<Longrightarrow> cost (emit_op i) 1" "op_type [] i \<noteq> None \<Longrightarrow> cost (emit_reg i) 1"
  by (simp_all add: cost_def app_simps outcome_emit_op outcome_emit_reg)

lemma cost_if: "cost p k \<Longrightarrow> cost q l \<Longrightarrow> cost (if b then p else q) (max k l)" "cost (f x) k \<Longrightarrow> cost (g x) l \<Longrightarrow> cost ((if b then f else g) x) (max k l)"
  by (auto simp: cost_def max.coboundedI1 max.coboundedI2)

lemma cost_if_stepin: "cost p k \<Longrightarrow> cost q l \<Longrightarrow> cost (if_stepin p q) (max k l)"
  by (auto simp: cost_def app_simps outcome_if_stepin max.coboundedI1 max.coboundedI2)

lemma cost_clear_stepin: "cost clear_stepin 0"
  by (simp add: cost_def app_simps outcome_clear_stepin)

lemma cost_call:
  "cost p k \<Longrightarrow> (\<And>a. cost (f1 a) m) \<Longrightarrow> cost (call1 f1 p) (k + m)"
  "cost p k \<Longrightarrow> cost q l \<Longrightarrow> (\<And>a b. cost (f2 a b) m) \<Longrightarrow> cost (call2 f2 p q) (k + (l + m))"
  "cost p k \<Longrightarrow> cost q l \<Longrightarrow> cost r j \<Longrightarrow> (\<And>a b c. cost (f3 a b c) m) \<Longrightarrow> cost (call3 f3 p q r) (k + (l + (j + m)))"
  unfolding call1_def call2_def call3_def by (blast intro: cost_bind)+

lemmas cost_rules = cost_bind cost_ret cost_emit cost_if cost_if_stepin cost_clear_stepin cost_call

section \<open>Sequences\<close>

lemma cost_mk [cost_intros]:
  "cost (mk_8 v) 1"
  "cost (mk_32 w) 1"
  "cost (mk_64 x) 1"
  unfolding mk_8_def mk_32_def mk_64_def
  by (rule cost_weaken, (rule cost_rules cost_intros | (simp; fail))+)+

lemma cost_mk_call [cost_intros]:
  "cost p 1 \<Longrightarrow> cost (mk_call_void c name p ps) 6" "cost p 1 \<Longrightarrow> cost (mk_call_32 c name p ps) 6" "cost p 1 \<Longrightarrow> cost (mk_call_64 c name p ps) 6"
  unfolding mk_call_void_def mk_call_32_def mk_call_64_def by (rule cost_weaken, (rule cost_rules cost_intros | assumption | (simp; fail))+)+

lemma cost_dirty [cost_intros]:
  "cost (mk_dirty c name insn) 7"
  unfolding mk_dirty_def
  by (rule cost_weaken, (rule cost_rules cost_intros | (simp; fail))+)+

lemma cost_registers [cost_intros]:
  "cost (read_x i z) 1"
  "cost (write_x i x z) 1"
  "cost (read_w i z) 1"
  "cost (write_w i x z) 2"
  "cost (write_w_sign_extend i x z) 2"
  unfolding read_x_def write_x_def read_w_def write_w_def write_w_sign_extend_def
  by (rule cost_weaken, (rule cost_rules cost_intros | (simp; fail))+)+

lemma cost_vector_registers [cost_intros]:
  "cost (read_v_lsb i) 1"
  "cost (read_v_msb i) 1"
  "cost (write_v_lsb i x) 1"
  "cost (write_v_msb i x) 1"
  "cost (read_d i) 1"
  "cost (read_d_by_index i k) 1"
  "cost (write_d i x) 1"
  "cost (write_d_by_index i k x) 1"
  "cost (read_s i) 1"
  "cost (read_s_by_index i k) 1"
  "cost (write_s i x) 2"
  "cost (write_s_by_index i k x) 1"
  "cost (read_h i) 1"
  "cost (read_h_by_index i k) 1"
  "cost (write_h i x) 2"
  "cost (write_h_by_index i k x) 1"
  "cost (read_b i) 1"
  "cost (read_b_by_index i k) 1"
  "cost (write_b i x) 2"
  "cost (write_b_by_index i k x) 1"
  unfolding read_v_lsb_def read_v_msb_def write_v_lsb_def write_v_msb_def read_d_def read_d_by_index_def write_d_def write_d_by_index_def
    read_s_def read_s_by_index_def write_s_def write_s_by_index_def read_h_def read_h_by_index_def write_h_def write_h_by_index_def read_b_def
    read_b_by_index_def write_b_def write_b_by_index_def
  by (rule cost_weaken, (rule cost_rules cost_intros | (simp; fail))+)+

lemma cost_flags [cost_intros]:
  "cost (write_pc x) 1"
  "cost (read_nzcv) 1"
  "cost (write_nzcv x) 1"
  "cost (mk_ror_imm_64 x v) 2"
  "cost (mk_ror_imm_32 x v) 2"
  unfolding write_pc_def read_nzcv_def write_nzcv_def mk_ror_imm_64_def mk_ror_imm_32_def
  by (rule cost_weaken, (rule cost_rules cost_intros | (simp; fail))+)+

lemma cost_helpers [cost_intros]:
  "cost (mk_next_nzcv_64 c k x y) 8"
  "cost (mk_next_nzcv_32 c k x y) 8"
  "cost (mk_extend_reg_64 rm t s) 7"
  "cost (mk_extend_reg_32 rm t s) 7"
  "cost (mk_mul_u_lsb_64 c x y) 6"
  "cost (mk_mul_u_lsb_32 c x y) 6"
  "cost (mk_mul_u_msb_64 c x y) 6"
  "cost (mk_mul_s_msb_64 c x y) 6"
  "cost (mk_mul_s_lsb_64 c x y) 6"
  "cost (mk_barrier c) 6"
  "cost (mk_gdb_breakpoint_instruction c) 6"
  "cost (mk_gdb_stepin_instruction c) 6"
  "cost (write_fpsr c x) 6"
  "cost (read_fpsr c) 6"
  "cost (write_fpcr c x) 6"
  "cost (read_fpcr c) 6"
  unfolding mk_next_nzcv_64_def mk_next_nzcv_32_def mk_extend_reg_64_def mk_extend_reg_32_def mk_mul_u_lsb_64_def mk_mul_u_lsb_32_def
    mk_mul_u_msb_64_def mk_mul_s_msb_64_def mk_mul_s_lsb_64_def mk_barrier_def mk_gdb_breakpoint_instruction_def mk_gdb_stepin_instruction_def
    write_fpsr_def read_fpsr_def write_fpcr_def read_fpcr_def
  by (rule cost_weaken, (rule cost_rules cost_intros | (simp; fail))+)+

lemma cost_exits [cost_intros]:
  "cost (illegal_opcode c) 6"
  "cost (stepin_exit c) 6"
  unfolding illegal_opcode_def stepin_exit_if
  by (rule cost_weaken, (rule cost_rules cost_intros | (simp; fail))+)+

lemma cost_mk_exit [cost_intros]:
  "cost (mk_exit c x) 8"
  "cost (mk_exit_pred c x p) 8"
  unfolding mk_exit_def mk_exit_pred_def
  by (rule cost_weaken, (rule cost_rules cost_intros | (simp; fail))+)+

section \<open>Instructions\<close>

lemma cost_parts [cost_intros]:
  "cost (dis_load_store_register c sz opc rt a) 8"
  "cost (dis_load_store_register_simd c l sz rt a) 8"
  "cost (dis_add_sub c insn x y z) 12"
  "cost (logical_result c is_64 S rd x z) 14"
  "cost (mk_shift_count rm v) 4"
  "cost (mk_pred c w) 8"
  "cost (swap_64 x lo hi s) 9"
  "cost (swap_32 x lo' hi' s) 9"
  unfolding dis_load_store_register_def dis_load_store_register_simd_def dis_add_sub_def logical_result_def mk_shift_count_def mk_pred_def
    swap_64_def swap_32_def Let_def call_ret
  by (rule cost_weaken, (rule cost_rules cost_intros | (simp; fail))+)+

lemma cost_conditional [cost_intros]:
  "cost (dis_ccmp_A_ccmn c insn x) 21"
  "cost (dis_cond_select c insn x) 14"
  unfolding dis_ccmp_A_ccmn_def dis_cond_select_def Let_def call_ret
  by (rule cost_weaken, (rule cost_rules cost_intros | (simp; fail))+)+

lemma cost_rbit_steps [cost_intros]: "cost (rbit_steps_64 cs x) (9 * length cs)" "cost (rbit_steps_32 ds y) (9 * length ds)"
proof -
  show "cost (rbit_steps_64 cs x) (9 * length cs)"
    by (induction cs x rule: rbit_steps_64.induct) (auto intro!: cost_ret cost_bind cost_intros)
  show "cost (rbit_steps_32 ds y) (9 * length ds)"
    by (induction ds y rule: rbit_steps_32.induct) (auto intro!: cost_ret cost_bind cost_intros)
qed

lemma cost_branch_exits [cost_intros]: "cost wide 1 \<Longrightarrow> cost (branch_exits c pred wide imm) 18"
  unfolding branch_exits_if by (rule cost_weaken, (rule cost_rules cost_intros | assumption | (simp; fail))+)

lemma cost_branch_exits_ret [cost_intros]: "cost (branch_exits c pred (ret r) imm) 18"
  unfolding branch_exits_if by (rule cost_weaken, (rule cost_rules cost_intros | (simp; fail))+)

lemma cost_mem [cost_intros]:
  "cost (dis_load_store_pair c insn) 56"
  "cost (dis_load_store_no_allocate_pair_offset c insn) 56"
  "cost (dis_load_store_pair_pre_indexed c insn) 56"
  "cost (dis_load_store_pair_offset c insn) 56"
  "cost (dis_load_store_pair_post_indexed c insn) 56"
  "cost (dis_load_store_pair_simd_vfp c insn) 56"
  "cost (dis_load_store_no_allocate_pair_offset_simd_vfp c insn) 56"
  "cost (dis_load_store_pair_pre_indexed_simd_vfp c insn) 56"
  "cost (dis_load_store_pair_offset_simd_vfp c insn) 56"
  "cost (dis_load_store_pair_post_indexed_simd_vfp c insn) 56"
  "cost (dis_load_register_literal c insn) 56"
  "cost (dis_load_register_literal_simd c insn) 56"
  "cost (dis_load_store_register_unsigned_offset c insn) 56"
  "cost (dis_load_store_register_unsigned_offset_simd c insn) 56"
  "cost (dis_load_store_register_unscaled_immediate c insn) 56"
  "cost (dis_load_store_register_unscaled_immediate_simd c insn) 56"
  "cost (dis_load_store_register_immediate_post_indexed c insn) 56"
  "cost (dis_load_store_register_immediate_post_indexed_simd c insn) 56"
  "cost (dis_load_store_register_register_offset c insn) 56"
  "cost (dis_load_store_register_register_offset_simd c insn) 56"
  "cost (dis_load_store_register_unprivileged c insn) 56"
  "cost (dis_load_store_register_immediate_pre_indexed c insn) 56"
  "cost (dis_load_store_register_immediate_pre_indexed_simd c insn) 56"
  "cost (dis_load_exclusive c insn) 56"
  "cost (dis_load_aquire_exclusive c insn) 56"
  "cost (dis_load_aquire_exclusive_pair c insn) 56"
  "cost (dis_load_exclusive_pair c insn) 56"
  "cost (dis_load_aquire c insn) 56"
  "cost (dis_store_release c insn) 56"
  "cost (dis_store_exclusive c insn) 56"
  "cost (dis_store_exclusive_pair c insn) 56"
  "cost (dis_store_release_exclusive_pair c insn) 56"
  "cost (dis_store_release_exclusive c insn) 56"
  "cost (dis_load_store_multiple_structure c insn) 56"
  "cost (dis_load_store_multiple_structure_post_index c insn) 56"
  "cost (dis_load_store_single_structure c insn) 56"
  "cost (dis_load_store_single_structure_post_index c insn) 56"
  unfolding dis_load_store_pair_def dis_load_store_no_allocate_pair_offset_def dis_load_store_pair_pre_indexed_def dis_load_store_pair_offset_def
    dis_load_store_pair_post_indexed_def dis_load_store_pair_simd_vfp_def dis_load_store_no_allocate_pair_offset_simd_vfp_def
    dis_load_store_pair_pre_indexed_simd_vfp_def dis_load_store_pair_offset_simd_vfp_def dis_load_store_pair_post_indexed_simd_vfp_def
    dis_load_register_literal_def dis_load_register_literal_simd_def dis_load_store_register_unsigned_offset_def
    dis_load_store_register_unsigned_offset_simd_def dis_load_store_register_unscaled_immediate_def
    dis_load_store_register_unscaled_immediate_simd_def dis_load_store_register_immediate_post_indexed_def
    dis_load_store_register_immediate_post_indexed_simd_def dis_load_store_register_register_offset_def
    dis_load_store_register_register_offset_simd_def dis_load_store_register_unprivileged_def dis_load_store_register_immediate_pre_indexed_def
    dis_load_store_register_immediate_pre_indexed_simd_def dis_load_exclusive_def dis_load_aquire_exclusive_def dis_load_aquire_exclusive_pair_def
    dis_load_exclusive_pair_def dis_load_aquire_def dis_store_release_def dis_store_exclusive_def dis_store_exclusive_pair_def
    dis_store_release_exclusive_pair_def dis_store_release_exclusive_def dis_load_store_multiple_structure_def
    dis_load_store_multiple_structure_post_index_def dis_load_store_single_structure_def dis_load_store_single_structure_post_index_def Let_def
    call_ret
  by (rule cost_weaken, (rule cost_rules cost_intros | (simp; fail))+)+

lemma cost_data [cost_intros]:
  "cost (dis_add_sub_immediate_insn c insn) 56"
  "cost (dis_add_sub_shifted_register_insn c insn) 56"
  "cost (dis_add_sub_extended_register_insn c insn) 56"
  "cost (dis_add_substract_with_carry c insn) 56"
  "cost (dis_adrp c insn) 56"
  "cost (dis_adr c insn) 56"
  "cost (dis_movn c insn) 56"
  "cost (dis_movz c insn) 56"
  "cost (dis_movk c insn) 56"
  "cost (dis_logical_shifted_register c insn) 56"
  "cost (dis_logical_immediate c insn) 56"
  "cost (dis_bitfield_insn c insn) 56"
  "cost (dis_extr c insn) 56"
  "cost (dis_udiv c insn) 56"
  "cost (dis_sdiv c insn) 56"
  "cost (dis_lslv c insn) 56"
  "cost (dis_lsrv c insn) 56"
  "cost (dis_asrv c insn) 56"
  "cost (dis_rorv c insn) 56"
  "cost (dis_crc32 c insn) 56"
  "cost (dis_madd c insn) 56"
  "cost (dis_msub c insn) 56"
  "cost (dis_smaddl c insn) 56"
  "cost (dis_smsubl c insn) 56"
  "cost (dis_smulh c insn) 56"
  "cost (dis_umaddl c insn) 56"
  "cost (dis_umsubl c insn) 56"
  "cost (dis_umulh c insn) 56"
  "cost (dis_ccmp_A_ccmn_immediate c insn) 56"
  "cost (dis_ccmp_A_ccmn_register c insn) 56"
  "cost (dis_csneg c insn) 56"
  "cost (dis_csinv c insn) 56"
  "cost (dis_csinc c insn) 56"
  "cost (dis_csel c insn) 56"
  "cost (dis_rbit_64 c insn) 56"
  "cost (dis_rbit_32 c insn) 56"
  "cost (dis_rbit c insn) 56"
  "cost (dis_rev16 c insn) 56"
  "cost (dis_rev32 c insn) 56"
  "cost (dis_rev c insn) 56"
  "cost (dis_clz c insn) 56"
  "cost (dis_cls c insn) 56"
  unfolding dis_add_sub_immediate_insn_def dis_add_sub_shifted_register_insn_def dis_add_sub_extended_register_insn_def
    dis_add_substract_with_carry_def dis_adrp_def dis_adr_def dis_movn_def dis_movz_def dis_movk_def dis_logical_shifted_register_def
    dis_logical_immediate_def dis_bitfield_insn_def dis_extr_def dis_udiv_def dis_sdiv_def dis_lslv_def dis_lsrv_def dis_asrv_def dis_rorv_def
    dis_crc32_def dis_madd_def dis_msub_def dis_smaddl_def dis_smsubl_def dis_smulh_def dis_umaddl_def dis_umsubl_def dis_umulh_def
    dis_ccmp_A_ccmn_immediate_def dis_ccmp_A_ccmn_register_def dis_csneg_def dis_csinv_def dis_csinc_def dis_csel_def dis_rbit_64_def
    dis_rbit_32_def dis_rbit_def dis_rev16_def dis_rev32_def dis_rev_def dis_clz_def dis_cls_def Let_def call_ret
  by (rule cost_weaken, (rule cost_rules cost_intros | (simp; fail))+)+

lemma cost_branches [cost_intros]:
  "cost (dis_b_A_bl c insn) 56"
  "cost (dis_svc c insn) 56"
  "cost (dis_brk c insn) 56"
  "cost (dis_br c insn) 56"
  "cost (dis_blr c insn) 56"
  "cost (dis_ret c insn) 56"
  "cost (dis_conditionnal_branch_immediate_insn c insn) 56"
  "cost (dis_cbz_A_cbnz c insn) 56"
  "cost (dis_cbnz c insn) 56"
  "cost (dis_cbz c insn) 56"
  "cost (dis_tbz_A_tbnz c insn) 56"
  "cost (dis_msr_register c insn) 56"
  "cost (dis_mrs_register c insn) 56"
  "cost (dis_clrex c insn) 56"
  "cost (dis_dsb c insn) 56"
  "cost (dis_dmb c insn) 56"
  "cost (dis_isb c insn) 56"
  "cost (dis_sys c insn) 56"
  unfolding dis_b_A_bl_def dis_svc_def dis_brk_def dis_br_def dis_blr_def dis_ret_def dis_conditionnal_branch_immediate_insn_def
    dis_cbz_A_cbnz_def dis_cbnz_def dis_cbz_def dis_tbz_A_tbnz_def dis_msr_register_def dis_mrs_register_def dis_clrex_def dis_dsb_def dis_dmb_def
    dis_isb_def dis_sys_def Let_def call_ret
  by (rule cost_weaken, (rule cost_rules cost_intros | (simp; fail))+)+

lemma cost_immediates [cost_intros]:
  "cost (dis_mvni c insn) 56"
  "cost (dis_movi c insn) 56"
  "cost (dis_bic_immediate c insn) 56"
  "cost (dis_orr_immediate c insn) 56"
  "cost (dis_fmov_immediate c insn) 56"
  unfolding dis_mvni_def dis_movi_def dis_bic_immediate_def dis_orr_immediate_def dis_fmov_immediate_def Let_def call_ret
  by (cases "simd_immediate (fld insn 29 29) (fld insn 15 12) (simd_imm8 insn)"; simp only: prod.case;
      rule cost_weaken, (rule cost_rules cost_intros | (simp; fail))+)+

lemma cost_simd [cost_intros]:
  "cost (dis_fmov c insn) 56"
  "cost (dis_fmov_register c insn) 56"
  "cost (dis_smov c insn) 56"
  "cost (dis_umov c insn) 56"
  "cost (dis_insn_element c insn) 56"
  "cost (dis_dup_element c insn) 56"
  "cost (dis_dup_general c insn) 56"
  "cost (dis_insn_general c insn) 56"
  "cost (dis_advanced_simd_scalar_copy c insn) 56"
  "cost (dis_scvtf_scalar_integer c insn) 56"
  "cost (dis_ucvtf_scalar_integer c insn) 56"
  "cost (dis_fcvtxx_scalar_integer c insn) 56"
  "cost (dis_floating_point_data_processing_3_source c insn) 56"
  "cost (dis_floating_point_immediate c insn) 56"
  "cost (dis_floating_point_compare c insn) 56"
  "cost (dis_floating_point_data_processing_2_source c insn) 56"
  "cost (dis_floating_point_conditional_select c insn) 56"
  "cost (dis_advanced_simd_shift_by_immediate c insn) 56"
  "cost (dis_advanced_simd_scalar_three_different c insn) 56"
  "cost (dis_advanced_simd_scalar_two_reg_misc c insn) 56"
  "cost (dis_advanced_simd_scalar_pair_wise c insn) 56"
  "cost (dis_advanced_simd_table_lookup c insn) 56"
  "cost (dis_advanced_simd_permute c insn) 56"
  "cost (dis_advanced_simd_ext c insn) 56"
  "cost (dis_advanced_simd_three_different c insn) 56"
  "cost (dis_advanced_simd_two_reg_misc c insn) 56"
  "cost (dis_advanced_simd_accross_lanes c insn) 56"
  "cost (dis_advanced_simd_scalar_three_same c insn) 56"
  "cost (dis_advanced_simd_three_same c insn) 56"
  "cost (dis_advanced_simd_vector_x_indexed_element c insn) 56"
  "cost (dis_advanced_simd_scalar_x_indexed_element c insn) 56"
  "cost (dis_advanced_simd_scalar_shift_by_immediate c insn) 56"
  "cost (dis_floating_point_conditional_compare c insn) 56"
  "cost (dis_conversion_between_floating_point_and_fixed_point_insn c insn) 56"
  unfolding dis_fmov_def dis_fmov_register_def dis_smov_def dis_umov_def dis_insn_element_def dis_dup_element_def dis_dup_general_def
    dis_insn_general_def dis_advanced_simd_scalar_copy_def dis_scvtf_scalar_integer_def dis_ucvtf_scalar_integer_def dis_fcvtxx_scalar_integer_def
    dis_floating_point_data_processing_3_source_def dis_floating_point_immediate_def dis_floating_point_compare_def
    dis_floating_point_data_processing_2_source_def dis_floating_point_conditional_select_def dis_advanced_simd_shift_by_immediate_def
    dis_advanced_simd_scalar_three_different_def dis_advanced_simd_scalar_two_reg_misc_def dis_advanced_simd_scalar_pair_wise_def
    dis_advanced_simd_table_lookup_def dis_advanced_simd_permute_def dis_advanced_simd_ext_def dis_advanced_simd_three_different_def
    dis_advanced_simd_two_reg_misc_def dis_advanced_simd_accross_lanes_def dis_advanced_simd_scalar_three_same_def
    dis_advanced_simd_three_same_def dis_advanced_simd_vector_x_indexed_element_def dis_advanced_simd_scalar_x_indexed_element_def
    dis_advanced_simd_scalar_shift_by_immediate_def dis_floating_point_conditional_compare_def
    dis_conversion_between_floating_point_and_fixed_point_insn_def Let_def call_ret
  by (rule cost_weaken, (rule cost_rules cost_intros | (simp; fail))+)+

lemma cost_checked [cost_intros]: "cost (f c insn) 56 \<Longrightarrow> cost (checked c insn m v f) 56"
  unfolding checked_def by (rule cost_weaken, (rule cost_rules cost_intros | assumption | (simp; fail))+)

lemma cost_class1 [cost_intros]:
  "cost (dis_load_store_exclusive c insn) 56"
  unfolding dis_load_store_exclusive_def Let_def call_ret
  by (rule cost_weaken, (rule cost_rules cost_intros | (simp; fail))+)+

lemma cost_class2 [cost_intros]:
  "cost (dis_load_store_insn c insn) 56"
  unfolding dis_load_store_insn_def Let_def call_ret
  by (rule cost_weaken, (rule cost_rules cost_intros | (simp; fail))+)+

lemma cost_class3 [cost_intros]:
  "cost (dis_conditional_select c insn) 56"
  "cost (dis_data_processing_1_source c insn) 56"
  "cost (dis_data_processing_2_source c insn) 56"
  "cost (dis_data_processing_3_source c insn) 56"
  unfolding dis_conditional_select_def dis_data_processing_1_source_def dis_data_processing_2_source_def dis_data_processing_3_source_def Let_def
    call_ret
  by (rule cost_weaken, (rule cost_rules cost_intros | (simp; fail))+)+

lemma cost_class4 [cost_intros]:
  "cost (dis_data_processing_immediate_insn c insn) 56"
  "cost (dis_data_processing_register_insn c insn) 56"
  unfolding dis_data_processing_immediate_insn_def dis_data_processing_register_insn_def Let_def call_ret
  by (rule cost_weaken, (rule cost_rules cost_intros | (simp; fail))+)+

lemma cost_class5 [cost_intros]:
  "cost (dis_exception_insn c insn) 56"
  "cost (dis_unconditionnal_branch_register c insn) 56"
  "cost (dis_system c insn) 56"
  unfolding dis_exception_insn_def dis_unconditionnal_branch_register_def dis_system_def Let_def call_ret
  by (rule cost_weaken, (rule cost_rules cost_intros | (simp; fail))+)+

lemma cost_class6 [cost_intros]:
  "cost (dis_branch_A_exception_A_system_insn c insn) 56"
  unfolding dis_branch_A_exception_A_system_insn_def Let_def call_ret
  by (rule cost_weaken, (rule cost_rules cost_intros | (simp; fail))+)+

lemma cost_class7 [cost_intros]:
  "cost (dis_floating_point_data_processing_1_source c insn) 56"
  "cost (dis_conversion_between_floating_point_and_integer_insn c insn) 56"
  "cost (dis_advanced_simd_copy c insn) 56"
  "cost (dis_advanced_simd_modified_immediate c insn) 56"
  unfolding dis_floating_point_data_processing_1_source_def dis_conversion_between_floating_point_and_integer_insn_def dis_advanced_simd_copy_def
    dis_advanced_simd_modified_immediate_def Let_def call_ret
  by (rule cost_weaken, (rule cost_rules cost_intros | (simp; fail))+)+

lemma cost_class8 [cost_intros]:
  "cost (dis_advanced_simd c insn) 56"
  unfolding dis_advanced_simd_def Let_def call_ret
  by (rule cost_weaken, (rule cost_rules cost_intros | (simp; fail))+)+

lemma cost_class9 [cost_intros]:
  "cost (dis_data_processing_simd_insn c insn) 56"
  unfolding dis_data_processing_simd_insn_def Let_def call_ret
  by (rule cost_weaken, (rule cost_rules cost_intros | (simp; fail))+)+

lemma cost_disassemble_insn [cost_intros]: "cost (disassemble_insn c insn) 56"
  unfolding disassemble_insn_def by (rule cost_weaken, (rule cost_rules cost_intros | (simp; fail))+)

section \<open>Blocks\<close>

lemma cost_dis_rounds: "cost (dis_rounds fetch hlp n i pc) (56 * n + 9)"
proof (induction n arbitrary: i pc)
  case 0
  show ?case unfolding dis_rounds.simps by (rule cost_weaken, (rule cost_rules cost_intros | (simp; fail))+)
next
  case (Suc n)
  show ?case unfolding dis_rounds_if by (rule cost_weaken, (rule cost_rules cost_intros Suc.IH | (simp; fail))+)
qed

lemma cost_dis_rounds_with_marker: "cost (dis_rounds_with_marker fetch hlp n i pc) (57 * n + 9)"
proof (induction n arbitrary: i pc)
  case 0
  show ?case unfolding dis_rounds_with_marker.simps by (rule cost_weaken, (rule cost_rules cost_intros | (simp; fail))+)
next
  case (Suc n)
  show ?case unfolding dis_rounds_with_marker_if by (rule cost_weaken, (rule cost_rules cost_intros Suc.IH | (simp; fail))+)
qed

end
