(* ===== verification/Arm64_Dis_Blocks.thy ===== *)
theory Arm64_Dis_Blocks
  imports Arm64_Dis_Cost Main_Program
begin

text \<open>Whole blocks: the calls of a block can be made on a jitter whose pools are large enough, and when they are not.\<close>

definition dis_start :: "bool \<Rightarrow> dis_state" where
  "dis_start st = \<lparr>dis_ops = [], dis_nregs = 0, is_stepin = st\<rparr>"

lemma app_start:
  assumes "app p"
  shows "dis_ops (snd (run_state p (dis_start st))) = fst (snd (outcome_of p 0 st))"
  by (simp add: dis_start_def outcome_of_def split: prod.splits)

lemma rounds_ops:
  "disassemble_arm64 fetch hlp pc m (dis_start st) = Some s \<Longrightarrow> dis_ops s = fst (snd (outcome_of (dis_rounds fetch hlp m 0 pc) 0 st))"
  "disassemble_arm64_with_marker fetch hlp pc m (dis_start st) = Some s \<Longrightarrow>
     dis_ops s = fst (snd (outcome_of (dis_rounds_with_marker fetch hlp m 0 pc) 0 st))"
  by (auto simp: disassemble_arm64_def disassemble_arm64_with_marker_def app_start [OF jud_app [OF jud_dis_rounds]]
      app_start [OF jud_app [OF jud_dis_rounds_with_marker]] split: bind_splits)

lemma jud_ops_ok: "jud {} p (\<lambda>_. {}) \<Longrightarrow> ops_ok [] (fst (snd (outcome_of p 0 st))) \<and> ops_clean [] {} (fst (snd (outcome_of p 0 st)))"
  using judD [of "{}" p "\<lambda>_. {}" "[]" "{}" st] by (cases "outcome_of p 0 st") (auto simp: typing_def)

lemma block_ops_ok:
  "disassemble_arm64 fetch hlp pc m (dis_start st) = Some s \<Longrightarrow> ops_ok [] (dis_ops s) \<and> length (dis_ops s) \<le> 56 * m + 9"
  "disassemble_arm64_with_marker fetch hlp pc m (dis_start st) = Some s \<Longrightarrow> ops_ok [] (dis_ops s) \<and> length (dis_ops s) \<le> 57 * m + 9"
  using cost_dis_rounds [of fetch hlp m 0 pc] cost_dis_rounds_with_marker [of fetch hlp m 0 pc]
  by (auto simp: rounds_ops cost_def intro: jud_ops_ok [THEN conjunct1] jud_intros)

lemma replay_built: "ir_built j \<Longrightarrow> ops_ok (types_of j) is \<Longrightarrow> replay is j = Some j' \<Longrightarrow> ir_built j'"
proof (induction "is" arbitrary: j)
  case (Cons i "is")
  from Cons.prems obtain j1 where j1: "run_op i j = Some j1" "replay is j1 = Some j'" by (auto split: bind_splits)
  have ok: "op_ok (types_of j) i" using Cons.prems by simp
  then have "ir_built j1" by (intro ir_built.built [OF Cons.prems(1) _ _ j1(1)]) (auto simp: op_ok_def)
  then show ?case using Cons.IH [OF _ _ j1(2)] Cons.prems run_op_types [OF ok j1(1)] by simp
qed simp

lemma block_built:
  assumes "ir_built j" "regs_of j = []" "insns_of j = []"
    "64 * (56 * int m + 9) \<le> pool_size (registerPoolAllocator j)" "64 * (56 * int m + 9) \<le> pool_size (instructionPoolAllocator j)"
    "pc AND 3 = 0"
  shows "\<exists>s j'. disassemble_arm64 fetch hlp pc m (dis_start st) = Some s \<and> replay (dis_ops s) j = Some j' \<and> ir_built j' \<and>
    insns_of j' = ops_insns 0 (dis_ops s)"
proof -
  obtain s where s: "disassemble_arm64 fetch hlp pc m (dis_start st) = Some s" using assms(6) by (auto simp: disassemble_arm64_def)
  note ok = block_ops_ok(1) [OF s]
  have "int (length (dis_ops s)) \<le> 56 * int m + 9" using ok by linarith
  then have "pool_room j (length (dis_ops s))" using assms(2-5)
    by (auto simp: pool_room_def sizeof_irRegister_def sizeof_irInstruction_def)
  then obtain j' where j': "replay (dis_ops s) j = Some j'" using replay_succeeds [OF ir_built_wf [OF assms(1)]] ok assms(2) by fastforce
  then show ?thesis using s replay_insns [of j] replay_built [OF assms(1) _ j'] ok assms(2,3) by auto
qed

text \<open>The code of every block respects what the host registers hold, with helpers that leave zeros above their results.\<close>

lemma block_clean:
  assumes "disassemble_arm64 fetch hlp pc m (dis_start st) = Some s" "replay (dis_ops s) j = Some j'" "regs_of j = []" "insns_of j = []"
  shows "clean_block True (types_of j') {} (insns_of j')"
proof -
  have "ops_clean [] {} (dis_ops s)" unfolding rounds_ops(1) [OF assms(1)] by (rule jud_ops_ok [THEN conjunct2]) (rule jud_dis_rounds)
  then show ?thesis using ops_clean_block [of "[]" "dis_ops s" "{}"] block_ops_ok(1) [OF assms(1)] replay_insns [of j, OF _ assms(2)] assms(3,4) by simp
qed

lemma block_replayed:
  assumes "ir_built j" "regs_of j = []" "insns_of j = []" "disassemble_arm64 fetch hlp pc m (dis_start st) = Some s" "replay (dis_ops s) j = Some j'"
  shows "ir_built j'" "ops_insns 0 (dis_ops s) = insns_of j'" "clean_block True (types_of j') {} (insns_of j')"
  using replay_built [OF assms(1) _ assms(5)] replay_insns [of j, OF _ assms(5)] block_ops_ok(1) [OF assms(4)] block_clean [OF assms(4,5,2,3)] assms(2,3) by auto

text \<open>The instruction pool holds what was built.\<close>

lemma replay_pool: "ops_ok (types_of j) is \<Longrightarrow> replay is j = Some j' \<Longrightarrow> pool_size (instructionPoolAllocator j') = pool_size (instructionPoolAllocator j)"
proof (induction "is" arbitrary: j)
  case (Cons i "is")
  from Cons.prems obtain j1 where j1: "run_op i j = Some j1" "replay is j1 = Some j'" by (auto split: bind_splits)
  have ok: "op_ok (types_of j) i" using Cons.prems by simp
  obtain d where em: "emit (op_type (types_of j) i) (\<lambda>d. op_insn i (the d)) j = Some (d, j1)" using j1(1) by (auto simp: run_op_emit [OF ok])
  have sz: "pool_size (instructionPoolAllocator (fold mark_read rs j)) = pool_size (instructionPoolAllocator j)" for rs and j :: jitter
    by (induction rs arbitrary: j) (simp_all add: mark_read_def)
  have "pool_size (instructionPoolAllocator j1) = pool_size (instructionPoolAllocator j)" using em
    by (auto simp: emit_def allocateRegister_def push_insn_def memoryPoolAlloc_def sz split: option.splits bind_splits if_splits)
  then show ?case using Cons.IH [OF _ j1(2)] Cons.prems run_op_types [OF ok j1(1)] by simp
qed simp

lemma replay_length:
  assumes "ir_wf j" "ops_ok (types_of j) is" "replay is j = Some j'"
  shows "64 * int (length is) \<le> pool_size (instructionPoolAllocator j)"
proof -
  have l: "length (ops_insns n is) = length is" for n by (induction "is" arbitrary: n) simp_all
  have "length (insns_of j') = length (insns_of j) + length is" using replay_insns [OF assms(2,3)] l by simp
  then show ?thesis using ir_wfD(2) [OF replay_wf [OF assms]] replay_pool [OF assms(2,3)]
    by (auto simp: pool_wf_def sizeof_irInstruction_def)
qed

section \<open>A block of bit reversals\<close>

text \<open>\<open>rbit x0, x1\<close>\<close>

abbreviation rbit_insn :: u32 where "rbit_insn \<equiv> 0xdac00020"

lemma rbit_decoded: "disassemble_insn c rbit_insn = dis_rbit_64 c rbit_insn"
  by (simp add: disassemble_insn_def dis_data_processing_register_insn_def dis_data_processing_1_source_def dis_rbit_def INSN_def)


lemma rbit_outcome: "\<exists>new. outcome_of (dis_rbit_64 c rbit_insn) n st = (False, new, st) \<and> length new = 56"
  by (simp add: outcome_of_def dis_rbit_64_def swap_64_def call2_def read_x_def write_x_def mk_8_def mk_64_def emit_reg_def emit_op_def
      INSN_def ZERO_REG_def)

lemma mk_exit_outcome: "\<exists>new. outcome_of (call1 (mk_exit c) (mk_64 pc)) n False = ((), new, False) \<and> length new = 3"
  by (simp add: outcome_of_def mk_exit_def call1_def write_pc_def stepin_exit_def mk_64_def emit_reg_def emit_op_def State_Monad.bind_def)

lemma rbit_rounds: "length (fst (snd (outcome_of (dis_rounds (\<lambda>_. rbit_insn) hlp m i pc) n False))) = 56 * m + 3"
proof (induction m arbitrary: i pc n)
  case 0
  show ?case using mk_exit_outcome [of "\<lparr>ctx_pc = pc - 4, hlp_addr = hlp\<rparr>" pc n] by auto
next
  case (Suc m)
  let ?c = "\<lparr>ctx_pc = pc, hlp_addr = hlp\<rparr>"
  obtain new where new: "outcome_of (disassemble_insn ?c rbit_insn) n False = (False, new, False)" "length new = 56"
    using rbit_outcome [of ?c n False] by (auto simp: rbit_decoded)
  have a: "app (disassemble_insn ?c rbit_insn)" "\<And>r. app (if r then ret () else dis_rounds (\<lambda>_. rbit_insn) hlp m (Suc i) (pc + 4))"
    by (auto intro: jud_app [OF jud_disassemble_insn] jud_app [OF jud_dis_rounds] app_ret)
  show ?case using Suc.IH [of "Suc i" "pc + 4" "n + ops_nregs new"] new(2)
    unfolding dis_rounds_if outcome_if_stepin if_False outcome_bind [OF a] new(1) by (auto split: prod.splits)
qed

lemma rbit_block_fails:
  assumes "createJitter id () sz = Some (j, be)" "sz \<le> 128 * (56 * int m + 3)" "pc AND 3 = 0"
    "disassemble_arm64 (\<lambda>_. rbit_insn) hlp pc m (dis_start False) = Some s"
  shows "replay (dis_ops s) j = None"
proof (rule ccontr)
  assume "\<not> ?thesis"
  then obtain j' where j': "replay (dis_ops s) j = Some j'" by auto
  have "pool_size (instructionPoolAllocator j) = (sz - 832) div 2" using assms(1)
    by (auto simp: createJitter_def resetJitter_def memoryPoolReset_def memoryPoolInit_def sizeof_jitter_def Let_def split: bind_splits)
  moreover have "length (dis_ops s) = 56 * m + 3" by (simp add: rounds_ops(1) [OF assms(4)] rbit_rounds)
  ultimately show False using replay_length [OF createJitter_wf(1) [OF assms(1)] _ j'] block_ops_ok(1) [OF assms(4)] assms(2)
    createJitter_wf(2) [OF assms(1)] by auto
qed

lemma rbit_exhausts:
  assumes "createJitter id () (jitter_context_size (cache_memory_config p)) = Some (j, be)" "pc AND 3 = 0"
    "disassemble_arm64 (\<lambda>_. rbit_insn) hlp pc (nat (max_insn (cache_memory_config p))) (dis_start False) = Some s"
  shows "replay (dis_ops s) j = None"
  by (rule rbit_block_fails [OF assms(1) _ assms(2,3)]) (cases p; simp add: KB_def)

end
