(* ===== verification/Arm64_Helpers_Sem.thy ===== *)
theory Arm64_Helpers_Sem
  imports Arm64_Helpers
begin

text \<open>What the helpers compute, against the definitions of the architecture.\<close>

section \<open>Flags\<close>

text \<open>The flags of the sum of two words and a carry.\<close>

definition carry_out :: "'a::len word \<Rightarrow> 'a word \<Rightarrow> bool \<Rightarrow> bool" where
  "carry_out x y c \<longleftrightarrow> 2 ^ LENGTH('a) \<le> unat x + unat y + of_bool c"

definition overflow_out :: "'a::len word \<Rightarrow> 'a word \<Rightarrow> bool \<Rightarrow> bool" where
  "overflow_out x y c \<longleftrightarrow> sint x + sint y + of_bool c \<noteq> sint (x + y + of_bool c)"

text \<open>A flags word with the given four flags and the other bits of the old one.\<close>

definition nzcv_word :: "bool \<Rightarrow> bool \<Rightarrow> bool \<Rightarrow> bool \<Rightarrow> u32 \<Rightarrow> u32" where
  "nzcv_word n z c v old = (if n then 0x80000000 else 0) OR (if z then 0x40000000 else 0) OR
     (if c then 0x20000000 else 0) OR (if v then 0x10000000 else 0) OR (old AND 0x0fffffff)"

definition add_with_carry_flags :: "'a::len word \<Rightarrow> 'a word \<Rightarrow> bool \<Rightarrow> u32 \<Rightarrow> u32" where
  "add_with_carry_flags x y c old =
     (let s = x + y + of_bool c in nzcv_word (sint s < 0) (s = 0) (carry_out x y c) (overflow_out x y c) old)"

lemma mod_once: "m \<le> a \<Longrightarrow> a < 2 * m \<Longrightarrow> a mod m = a - (m :: nat)"
  by (simp add: le_mod_geq)

lemma sub_as_add: "x - y = x + NOT y + (1 :: 'a::len word)"
  by (simp add: minus_eq_not_plus_1 add.assoc)

lemma carry_add: "(x + y < (x :: 'a::len word)) = carry_out x y False"
proof -
  have u: "unat (x + y) = (unat x + unat y) mod 2 ^ LENGTH('a)" by (simp add: unat_word_ariths)
  show ?thesis
  proof (cases "unat x + unat y < 2 ^ LENGTH('a)")
    case True
    then show ?thesis by (simp add: carry_out_def word_less_nat_alt u)
  next
    case False
    moreover have "unat x < 2 ^ LENGTH('a)" "unat y < 2 ^ LENGTH('a)" by (rule unsigned_less)+
    ultimately have "(unat x + unat y) mod 2 ^ LENGTH('a) = unat x + unat y - 2 ^ LENGTH('a)" by (intro mod_once) linarith+
    moreover have "unat x + unat y - 2 ^ LENGTH('a) < unat x" using False \<open>unat y < 2 ^ LENGTH('a)\<close> by linarith
    ultimately show ?thesis using False by (simp add: carry_out_def word_less_nat_alt u)
  qed
qed

lemma carry_add_1: "(x + y + 1 \<le> (x :: 'a::len word)) = carry_out x y True"
proof -
  have u: "unat (x + y + 1) = (unat x + unat y + 1) mod 2 ^ LENGTH('a)" by (simp add: unat_word_ariths mod_simps)
  have l: "unat x < 2 ^ LENGTH('a)" "unat y < 2 ^ LENGTH('a)" by (rule unsigned_less)+
  show ?thesis
  proof (cases "unat x + unat y + 1 < 2 ^ LENGTH('a)")
    case True
    then show ?thesis by (simp add: carry_out_def word_le_nat_alt u)
  next
    case False
    then have "(unat x + unat y + 1) mod 2 ^ LENGTH('a) = unat x + unat y + 1 - 2 ^ LENGTH('a)" using l by (intro mod_once) linarith+
    moreover have "unat x + unat y + 1 - 2 ^ LENGTH('a) \<le> unat x" using l by linarith
    ultimately show ?thesis using False by (simp add: carry_out_def word_le_nat_alt u)
  qed
qed

lemma carry_sub: "(y \<le> (x :: 'a::len word)) = carry_out x (NOT y) True"
  unfolding carry_add_1 [symmetric] sub_as_add [symmetric] by (simp add: word_sub_le_iff)

lemma sint_sum_carry:
  fixes x y :: "'a::len word"
  shows "sint (x + y + of_bool c) = (sint x + sint y + of_bool c + 2 ^ (LENGTH('a) - 1)) mod 2 ^ LENGTH('a) - 2 ^ (LENGTH('a) - 1)"
proof -
  have "x + y + of_bool c = word_of_int (sint x + sint y + of_bool c)" by simp
  then show ?thesis by (simp only: int_word_sint)
qed

lemma overflow_sign:
  fixes x y :: "'a::len word"
  shows "overflow_out x y c \<longleftrightarrow> (sint (x + y + of_bool c) < 0) \<noteq> (sint x < 0) \<and> (sint (x + y + of_bool c) < 0) \<noteq> (sint y < 0)"
proof -
  define h :: int where "h = 2 ^ (LENGTH('a) - 1)"
  define s where "s = sint (x + y + of_bool c)"
  define b where "b = (of_bool c :: int)"
  define t where "t = sint x + sint y + b"
  have bd: "- h \<le> sint x" "sint x < h" "- h \<le> sint y" "sint y < h"
    by (simp_all add: h_def sint_greater_eq sint_less)
  have two: "2 ^ LENGTH('a) = 2 * h" unfolding h_def by (metis len_gt_0 power_minus_mult mult.commute)
  have s: "s = (t + h) mod (2 * h) - h" unfolding s_def t_def b_def sint_sum_carry two h_def by simp
  have c: "0 \<le> b" "b \<le> 1" by (auto simp: b_def)
  have o: "overflow_out x y c \<longleftrightarrow> t \<noteq> s" by (simp add: overflow_out_def t_def s_def b_def)
  have h: "0 < h" by (simp add: h_def)
  consider "- h \<le> t" "t < h" | "h \<le> t" | "t < - h" by linarith
  then show ?thesis
  proof cases
    case 1
    then have "s = t" unfolding s using h by (subst mod_pos_pos_trivial) auto
    then show ?thesis using bd c unfolding o s_def [symmetric] unfolding t_def by auto
  next
    case 2
    then have "(t + h) mod (2 * h) = t + h - 2 * h" using bd c unfolding t_def by (intro int_mod_pos_eq [where q = 1]) auto
    then have "s = t - 2 * h" unfolding s by simp
    then show ?thesis using 2 bd c h unfolding o s_def [symmetric] unfolding t_def by auto
  next
    case 3
    then have "(t + h) mod (2 * h) = t + h + 2 * h" using bd c unfolding t_def by (intro int_mod_pos_eq [where q = "- 1"]) auto
    then have "s = t + 2 * h" unfolding s by simp
    then show ?thesis using 3 bd c h unfolding o s_def [symmetric] unfolding t_def by auto
  qed
qed

lemma sint_negative: "(sint x < 0) = bit x (LENGTH('a) - 1)" for x :: "'a::len word"
  by (simp add: bit_last_iff)

lemma overflow_bits:
  fixes x y :: "'a::len word"
  shows "bit ((x + y + of_bool c XOR x) AND (x + y + of_bool c XOR y)) (LENGTH('a) - 1) = overflow_out x y c"
  unfolding overflow_sign sint_negative by (auto simp: bit_simps)

lemma overflow_sub_bits:
  fixes x y :: "'a::len word"
  shows "bit ((x XOR y) AND (x XOR (x - y))) (LENGTH('a) - 1) = overflow_out x (NOT y) True"
proof -
  have "bit ((x XOR y) AND (x XOR (x - y))) (LENGTH('a) - 1)
      = bit ((x + NOT y + of_bool True XOR x) AND (x + NOT y + of_bool True XOR NOT y)) (LENGTH('a) - 1)"
    unfolding sub_as_add by (auto simp: bit_simps)
  then show ?thesis unfolding overflow_bits .
qed

lemma and_one_bit: "w AND push_bit k 1 = (if bit w k then push_bit k 1 else (0 :: 'a::len word))"
  by (rule bit_word_eqI) (auto simp: bit_simps bit_1_iff)

lemma v_flag_32: "drop_bit 3 (w :: u32) AND 0x10000000 = (if bit w 31 then 0x10000000 else 0)"
  using and_one_bit [of "drop_bit 3 w" 28] by (simp add: bit_drop_bit_eq)

lemma v_flag_64: "ucast (drop_bit 35 (w :: u64) AND 0x10000000) = (if bit w 63 then 0x10000000 else (0 :: u32))"
  using and_one_bit [of "drop_bit 35 w" 28] by (simp add: bit_drop_bit_eq)

lemma n_flag_32: "(w :: u32) AND 0x80000000 = (if sint w < 0 then 0x80000000 else 0)"
  using and_one_bit [of w 31] by (simp add: sint_negative)

lemma n_flag_64: "ucast (drop_bit 32 ((w :: u64) AND 0x8000000000000000)) = (if sint w < 0 then 0x80000000 else (0 :: u32))"
  using and_one_bit [of w 63] by (simp add: sint_negative)

lemma c_in_bit: "(drop_bit 29 (old :: u32) AND 1) = of_bool (bit old 29)" "(ucast (drop_bit 29 old AND 1) :: u64) = of_bool (bit old 29)"
  using and_one_bit [of "drop_bit 29 old" 0] by (simp_all add: bit_drop_bit_eq)

definition flags_of :: "ops \<Rightarrow> 'a::len word \<Rightarrow> 'a word \<Rightarrow> u32 \<Rightarrow> u32" where
  "flags_of k x y old = (case k of OPS_ADD \<Rightarrow> add_with_carry_flags x y False old
     | OPS_SUB \<Rightarrow> add_with_carry_flags x (NOT y) True old
     | OPS_LOGICAL \<Rightarrow> nzcv_word (sint x < 0) (x = 0) False False old
     | OPS_ADC \<Rightarrow> add_with_carry_flags x y (bit old 29) old)"

lemma next_nzcv_32: "arm64_hlp_compute_next_nzcv_32 opcode x y old = map_option (\<lambda>k. flags_of k x y old) (ops_of opcode)"
proof (cases "ops_of opcode")
  case (Some k)
  show ?thesis
  proof (cases k)
    case OPS_ADD
    have "bit ((x + y XOR x) AND (x + y XOR y)) 31 = overflow_out x y False" using overflow_bits [of x y False] by simp
    then show ?thesis using Some OPS_ADD
      by (simp add: arm64_hlp_compute_next_nzcv_32_def flags_of_def add_with_carry_flags_def nzcv_word_def Let_def v_flag_32 n_flag_32 carry_add del: drop_bit_and drop_bit_xor)
  next
    case OPS_SUB
    have "bit ((x XOR y) AND (x XOR (x - y))) 31 = overflow_out x (NOT y) True" using overflow_sub_bits [of x y] by simp
    then show ?thesis using Some OPS_SUB
      by (simp add: arm64_hlp_compute_next_nzcv_32_def flags_of_def add_with_carry_flags_def nzcv_word_def Let_def v_flag_32 n_flag_32 carry_sub sub_as_add [symmetric] del: drop_bit_and drop_bit_xor)
  next
    case OPS_LOGICAL
    then show ?thesis using Some
      by (simp add: arm64_hlp_compute_next_nzcv_32_def flags_of_def nzcv_word_def Let_def n_flag_32 del: drop_bit_and drop_bit_xor)
  next
    case OPS_ADC
    have "bit ((x + y + of_bool (bit old 29) XOR x) AND (x + y + of_bool (bit old 29) XOR y)) 31 = overflow_out x y (bit old 29)"
      using overflow_bits [of x y "bit old 29"] by simp
    then show ?thesis using Some OPS_ADC
      by (cases "bit old 29") (simp_all add: arm64_hlp_compute_next_nzcv_32_def flags_of_def add_with_carry_flags_def nzcv_word_def Let_def v_flag_32 n_flag_32
          c_in_bit carry_add carry_add_1 del: drop_bit_and drop_bit_xor)
  qed
qed (simp add: arm64_hlp_compute_next_nzcv_32_def)

lemma next_nzcv_64: "arm64_hlp_compute_next_nzcv_64 opcode x y old = map_option (\<lambda>k. flags_of k x y old) (ops_of opcode)"
proof (cases "ops_of opcode")
  case (Some k)
  show ?thesis
  proof (cases k)
    case OPS_ADD
    have "bit ((x + y XOR x) AND (x + y XOR y)) 63 = overflow_out x y False" using overflow_bits [of x y False] by simp
    then show ?thesis using Some OPS_ADD
      by (simp add: arm64_hlp_compute_next_nzcv_64_def flags_of_def add_with_carry_flags_def nzcv_word_def Let_def v_flag_64 n_flag_64 carry_add del: drop_bit_and drop_bit_xor)
  next
    case OPS_SUB
    have "bit ((x XOR y) AND (x XOR (x - y))) 63 = overflow_out x (NOT y) True" using overflow_sub_bits [of x y] by simp
    then show ?thesis using Some OPS_SUB
      by (simp add: arm64_hlp_compute_next_nzcv_64_def flags_of_def add_with_carry_flags_def nzcv_word_def Let_def v_flag_64 n_flag_64 carry_sub sub_as_add [symmetric] del: drop_bit_and drop_bit_xor)
  next
    case OPS_LOGICAL
    then show ?thesis using Some
      by (simp add: arm64_hlp_compute_next_nzcv_64_def flags_of_def nzcv_word_def Let_def n_flag_64 del: drop_bit_and drop_bit_xor)
  next
    case OPS_ADC
    have "bit ((x + y + of_bool (bit old 29) XOR x) AND (x + y + of_bool (bit old 29) XOR y)) 63 = overflow_out x y (bit old 29)"
      using overflow_bits [of x y "bit old 29"] by simp
    then show ?thesis using Some OPS_ADC
      by (cases "bit old 29") (simp_all add: arm64_hlp_compute_next_nzcv_64_def flags_of_def add_with_carry_flags_def nzcv_word_def Let_def v_flag_64 n_flag_64
          c_in_bit carry_add carry_add_1 del: drop_bit_and drop_bit_xor)
  qed
qed (simp add: arm64_hlp_compute_next_nzcv_64_def)

text \<open>The condition codes of the architecture.\<close>

definition condition_holds :: "nat \<Rightarrow> u32 \<Rightarrow> bool" where
  "condition_holds cond nzcv = (
     let N = bit nzcv 31; Z = bit nzcv 30; C = bit nzcv 29; V = bit nzcv 28;
         base = [Z, C, N, V, C \<and> \<not> Z, N = V, N = V \<and> \<not> Z, True] ! (cond div 2) in
     if odd cond \<and> cond \<noteq> 15 then \<not> base else base)"

lemma flag_bits:
  "((nzcv :: u32) AND 0x40000000 \<noteq> 0) = bit nzcv 30" "(nzcv AND 0x20000000 \<noteq> 0) = bit nzcv 29"
  "(nzcv AND 0x80000000 \<noteq> 0) = bit nzcv 31" "(nzcv AND 0x10000000 \<noteq> 0) = bit nzcv 28"
  "drop_bit 31 nzcv AND 1 = of_bool (bit nzcv 31)" "drop_bit 30 nzcv AND 1 = of_bool (bit nzcv 30)" "drop_bit 28 nzcv AND 1 = of_bool (bit nzcv 28)"
  using and_one_bit [of nzcv 30] and_one_bit [of nzcv 29] and_one_bit [of nzcv 31] and_one_bit [of nzcv 28]
    and_one_bit [of "drop_bit 31 nzcv" 0] and_one_bit [of "drop_bit 30 nzcv" 0] and_one_bit [of "drop_bit 28 nzcv" 0]
  by (simp_all add: bit_drop_bit_eq)

lemma flag_bit_zero: "((nzcv :: u32) AND 0x40000000 = 0) = (\<not> bit nzcv 30)"
  using flag_bits(1) [of nzcv] by blast

lemma less_16_cases: "cond < 16 \<Longrightarrow> cond \<in> {0, 1, 2, 3, 4, 5, 6, 7, 8, 9, 10, 11, 12, 13, 14, 15 :: nat}"
  by (auto simp: eval_nat_numeral less_Suc_eq)

lemma flags_pred:
  assumes "cond < 16"
  shows "arm64_hlp_compute_flags_pred (of_nat cond) nzcv = Some (of_bool (condition_holds cond nzcv))"
  using less_16_cases [OF assms]
  by (elim insertE emptyE) (auto simp: arm64_hlp_compute_flags_pred_def condition_holds_def Let_def flag_bits flag_bit_zero)

section \<open>Bit fields\<close>

text \<open>
  The architecture's description: a field of the source, from bit \<open>R\<close> to the bottom when \<open>S\<close> is not below \<open>R\<close>, and
  from the bottom to bit \<open>N - R\<close> otherwise, is inserted into the destination, into zeros, or sign extended.
\<close>

datatype bitfield_kind = BFM | SBFM | UBFM

definition bitfield_pos :: "nat \<Rightarrow> nat \<Rightarrow> nat \<Rightarrow> nat" where
  "bitfield_pos N R S = (if R \<le> S then 0 else N - R)"

definition bitfield_width :: "nat \<Rightarrow> nat \<Rightarrow> nat" where
  "bitfield_width R S = (if R \<le> S then S - R + 1 else S + 1)"

definition bitfield_bit :: "bitfield_kind \<Rightarrow> nat \<Rightarrow> nat \<Rightarrow> nat \<Rightarrow> u64 \<Rightarrow> u64 \<Rightarrow> nat \<Rightarrow> bool" where
  "bitfield_bit k N R S src dst i = (let p = bitfield_pos N R S; w = bitfield_width R S in
     if p \<le> i \<and> i < p + w then bit src ((if R \<le> S then R else 0) + (i - p))
     else case k of BFM \<Rightarrow> bit dst i | UBFM \<Rightarrow> False | SBFM \<Rightarrow> p + w \<le> i \<and> bit src S)"

definition bitfield_kind_of :: "u32 \<Rightarrow> bitfield_kind option" where
  "bitfield_kind_of insn = (let k = insn AND 0xFF800000 in
     if k = 0x33000000 \<or> k = 0xB3000000 then Some BFM
     else if k = 0x13000000 \<or> k = 0x93000000 then Some SBFM
     else if k = 0x53000000 \<or> k = 0xD3000000 then Some UBFM else None)"

lemma nat_mod_64: "nat (int n mod 64) = n mod 64"
  by (metis nat_int of_nat_mod of_nat_numeral)

lemma bit_shl64: "bit (shl64 x (int n)) i \<longleftrightarrow> n mod 64 \<le> i \<and> i < 64 \<and> bit x (i - n mod 64)"
  by (auto simp: shl64_def bit_push_bit_iff nat_mod_64 dest: bit_imp_le_length)

lemma bit_shr64: "n < 64 \<Longrightarrow> bit (shr64 x (int n)) i \<longleftrightarrow> bit x (i + n)"
  by (simp add: shr64_def bit_drop_bit_eq nat_mod_64 add.commute)

lemma bit_ones64: "n < 64 \<Longrightarrow> bit (shl64 1 (int n) - 1) i \<longleftrightarrow> i < n \<and> i < 64"
proof -
  assume n: "n < 64"
  then have "shl64 1 (int n) - 1 = mask n" by (simp add: shl64_def nat_mod_64 mask_eq_exp_minus_1)
  then show ?thesis by (auto simp: bit_mask_iff)
qed

lemma bitfield_correct:
  fixes insn :: u32
  defines "N \<equiv> if INSN insn 31 31 \<noteq> 0 then 64 else 32 :: nat" and "R \<equiv> unat (INSN insn 21 16)" and "S \<equiv> unat (INSN insn 15 10)"
  assumes k: "bitfield_kind_of insn = Some k" and RS: "R < N" "S < N"
  shows "\<exists>res. arm64_hlp_compute_bitfield insn rn rd = Some res \<and> (\<forall>i < N. bit res i = bitfield_bit k N R S rn rd i)"
proof -
  have u: "uint (INSN insn 21 16) = int R" "uint (INSN insn 15 10) = int S" by (simp_all add: R_def S_def)
  let ?src = "if INSN insn 31 31 \<noteq> 0 then rn else rn AND 0xffffffff"
  have m32: "bit (x AND 0xffffffff) i \<longleftrightarrow> bit x i \<and> i < 32" for x :: u64 and i
  proof -
    have "(0xffffffff :: u64) = mask 32" by (simp add: mask_eq_exp_minus_1)
    then show ?thesis by (simp only: bit_and_iff bit_mask_iff) auto
  qed
  have src: "bit ?src i \<longleftrightarrow> i < N \<and> bit rn i" for i
    using m32 by (auto simp: N_def dest: bit_imp_le_length)
  have N: "N \<le> 64" "R < 64" "S < 64" "32 \<le> N" using RS by (auto simp: N_def split: if_splits)
  define D where "D = (if R \<le> S then S - R + 1 else N - R + S + 1)"
  define mk where "mk = (if int S - int R \<ge> 0 then (if int S - int R < int N - 1 then shl64 1 (int S - int R + 1) - 1 else if INSN insn 31 31 \<noteq> 0 then NOT 0 else 0xffffffff)
    else shr64 (shl64 1 (int S + 1) - 1) (int R) OR shl64 (shl64 1 (int S + 1) - 1) (int N - int R))"
  define diff where "diff = (if int S - int R \<ge> 0 then int S - int R else int S - int R + int N)"
  have diff: "diff + 1 = int D" "int N - diff - 1 = int (N - D)" "D \<le> N" "0 < D" using RS by (auto simp: diff_def D_def)
  have mk: "bit mk i \<longleftrightarrow> bitfield_pos N R S \<le> i \<and> i < bitfield_pos N R S + bitfield_width R S" if i: "i < N" for i
  proof (cases "R \<le> S")
    case True
    then have e: "int S - int R + 1 = int (S - R + 1)" by simp
    show ?thesis
    proof (cases "S - R < N - 1")
      case T: True
      then have "int S - int R < int N - 1" using True by linarith
      then have "mk = shl64 1 (int (S - R + 1)) - 1" using True unfolding mk_def e by simp
      then show ?thesis using True T N i bit_ones64 [of "S - R + 1" i] by (simp add: bitfield_pos_def bitfield_width_def)
    next
      case F: False
      then have R0: "R = 0" "S = N - 1" using RS True by auto
      then have "mk = (if INSN insn 31 31 \<noteq> 0 then NOT 0 else 0xffffffff)" using N by (simp add: mk_def)
      moreover have "bit (0xffffffff :: u64) i \<longleftrightarrow> i < 32" using m32 [of "- 1" i] i N by auto
      ultimately have "bit mk i" using i by (simp add: N_def split: if_splits)
      then show ?thesis using R0 i by (simp add: bitfield_pos_def bitfield_width_def)
    qed
  next
    case False
    have e: "int S + 1 = int (S + 1)" "int N - int R = int (N - R)" using RS by auto
    define ones where "ones = shl64 1 (int (S + 1)) - 1"
    have ones: "bit ones n \<longleftrightarrow> n < S + 1" for n using bit_ones64 [of "S + 1" n] N False RS by (auto simp: ones_def)
    have m: "(N - R) mod 64 = N - R" using False N by simp
    have "mk = shr64 ones (int R) OR shl64 ones (int (N - R))" using False unfolding mk_def e ones_def by simp
    then have "bit mk i \<longleftrightarrow> i + R < S + 1 \<or> N - R \<le> i \<and> i < 64 \<and> i - (N - R) < S + 1"
      by (simp only: bit_or_iff bit_shr64 [OF N(2)] bit_shl64 ones m)
    then show ?thesis using False i N by (auto simp: bitfield_pos_def bitfield_width_def)
  qed
  define rot where "rot = shr64 ?src (int R) OR shl64 ?src (int N - int R)"
  have rot: "bit rot i = bit rn ((if R \<le> S then R else 0) + (i - bitfield_pos N R S))" if "bit mk i" "i < N" for i
  proof -
    have e: "int N - int R = int (N - R)" using RS by auto
    have m: "(N - R) mod 64 = (if N - R = 64 then 0 else N - R)" using N by auto
    have b: "bit rot i \<longleftrightarrow> (i + R < N \<and> bit rn (i + R)) \<or> (N - R) mod 64 \<le> i \<and> i < 64 \<and> i - (N - R) mod 64 < N \<and> bit rn (i - (N - R) mod 64)"
      unfolding rot_def e bit_or_iff bit_shl64 bit_shr64 [OF N(2)] src by simp
    show ?thesis using that(1) that(2) N RS unfolding b mk [OF that(2)] m
      by (cases "R = 0") (auto simp: bitfield_pos_def bitfield_width_def add.commute split: if_splits)
  qed
  define top where "top = shl64 (shl64 1 (int N - diff - 1) - 1) (diff + 1)"
  have top: "bit top i \<longleftrightarrow> D \<le> i" if "i < N" for i
  proof -
    define ones where "ones = shl64 1 (int (N - D)) - 1"
    have ones: "bit ones n \<longleftrightarrow> n < N - D" for n using bit_ones64 [of "N - D" n] N diff(4) by (auto simp: ones_def)
    have "bit top i \<longleftrightarrow> D mod 64 \<le> i \<and> i < 64 \<and> i - D mod 64 < N - D"
      unfolding top_def diff(1,2) ones_def [symmetric] by (simp only: bit_shl64 ones)
    moreover have "D mod 64 = (if D = 64 then 0 else D)" using diff(3) N by auto
    ultimately show ?thesis using that diff(3) N by auto
  qed
  have sgn: "shr64 ?src (int S) AND 1 \<noteq> 0 \<longleftrightarrow> bit rn S"
    using and_one_bit [of "shr64 ?src (int S)" 0] bit_shr64 [OF N(3), of ?src 0] src [of S] RS by simp
  have D: "D = bitfield_pos N R S + bitfield_width R S" by (auto simp: D_def bitfield_pos_def bitfield_width_def)
  let ?res = "(if k = SBFM \<and> bit rn S then top else 0) OR (rot AND mk) OR ((if k = BFM then rd else 0) AND NOT mk)"
  have n: "(if INSN insn 31 31 \<noteq> 0 then 64 else 32) = int N" by (simp add: N_def)
  have "arm64_hlp_compute_bitfield insn rn rd = Some ?res"
    using k unfolding arm64_hlp_compute_bitfield_def Let_def n u rot_def top_def sgn
    by (auto simp: bitfield_kind_of_def Let_def mk_def diff_def split: if_splits)
  moreover have "bit ?res i = bitfield_bit k N R S rn rd i" if "i < N" for i
    using that rot [OF _ that] mk [OF that] top [OF that] N unfolding D
    by (cases k) (auto simp: bitfield_bit_def Let_def bit_or_iff bit_and_iff bit_not_iff)
  ultimately show ?thesis by blast
qed

section \<open>Division\<close>

text \<open>The quotient rounded towards zero, as a word; the quotient by zero is zero.\<close>

definition signed_quotient :: "'a::len word \<Rightarrow> 'a word \<Rightarrow> 'a word" where
  "signed_quotient x y = (if y = 0 then 0 else word_of_int (sgn (sint x) * sgn (sint y) * (\<bar>sint x\<bar> div \<bar>sint y\<bar>)))"

lemma sdiv_64: "arm64_hlp_sdiv_64 x y = signed_quotient x y"
  by (auto simp: arm64_hlp_sdiv_64_def signed_quotient_def signed_divide_int_def)

lemma sdiv_32: "arm64_hlp_sdiv_32 x y = signed_quotient x y"
  by (auto simp: arm64_hlp_sdiv_32_def signed_quotient_def signed_divide_int_def)

section \<open>Counting bits\<close>

lemma low_bit_zero: "(w AND 1 = (0 :: u64)) = (\<not> bit w 0)"
  using and_one_bit [of w 0] by simp

lemma clz_from_count:
  "n \<le> 64 \<Longrightarrow> \<exists>k \<le> n. clz_from rn n = of_nat k \<and> (\<forall>i. n - k \<le> i \<longrightarrow> i < n \<longrightarrow> \<not> bit rn i) \<and> (k < n \<longrightarrow> bit rn (n - k - 1))"
proof (induction n)
  case (Suc n)
  then obtain k where k: "k \<le> n" "clz_from rn n = of_nat k" "\<forall>i. n - k \<le> i \<longrightarrow> i < n \<longrightarrow> \<not> bit rn i" "k < n \<longrightarrow> bit rn (n - k - 1)" by auto
  show ?case
  proof (cases "bit rn n")
    case True
    then show ?thesis by (intro exI [of _ 0]) (simp add: low_bit_zero bit_drop_bit_eq)
  next
    case False
    have "i = n \<or> i < n" if "i < Suc n" for i using that by auto
    then show ?thesis using k False by (intro exI [of _ "Suc k"]) (auto simp: low_bit_zero bit_drop_bit_eq)
  qed
qed simp

lemma cls_from_count:
  "n \<le> 64 \<Longrightarrow> \<exists>k \<le> n. cls_from rn (of_bool s) n = of_nat k \<and> (\<forall>i. n - k \<le> i \<longrightarrow> i < n \<longrightarrow> bit rn i = s) \<and> (k < n \<longrightarrow> bit rn (n - k - 1) \<noteq> s)"
proof (induction n)
  case (Suc n)
  then obtain k where k: "k \<le> n" "cls_from rn (of_bool s) n = of_nat k" "\<forall>i. n - k \<le> i \<longrightarrow> i < n \<longrightarrow> bit rn i = s" "k < n \<longrightarrow> bit rn (n - k - 1) \<noteq> s" by auto
  have b: "drop_bit n rn AND 1 = of_bool (bit rn n)" using and_one_bit [of "drop_bit n rn" 0] by (simp add: bit_drop_bit_eq)
  show ?case
  proof (cases "bit rn n = s")
    case False
    then show ?thesis using b by (intro exI [of _ 0]) auto
  next
    case True
    have "i = n \<or> i < n" if "i < Suc n" for i using that by auto
    then show ?thesis using k True b by (intro exI [of _ "Suc k"]) auto
  qed
qed simp

section \<open>Checksums\<close>

text \<open>One bit of the division by the (reflected) polynomial.\<close>

definition crc_bit :: "u64 \<Rightarrow> u64 \<Rightarrow> u64" where
  "crc_bit poly x = (if bit x 0 then drop_bit 1 x XOR poly else drop_bit 1 x)"

definition crc_byte :: "u64 \<Rightarrow> u64 \<Rightarrow> u64" where
  "crc_byte poly x = (crc_bit poly ^^ 8) x"

lemma crc_bit_xor: "crc_bit poly (x XOR y) = crc_bit poly x XOR crc_bit poly y"
  by (rule bit_word_eqI) (auto simp: crc_bit_def bit_simps)

lemma crc_bits_xor: "(crc_bit poly ^^ n) (x XOR y) = (crc_bit poly ^^ n) x XOR (crc_bit poly ^^ n) y"
  by (induction n) (simp_all add: crc_bit_xor)

lemma crc_bits_high: "(\<forall>i < n. \<not> bit x i) \<Longrightarrow> (crc_bit poly ^^ n) x = drop_bit n x"
proof (induction n arbitrary: x)
  case (Suc n)
  have "crc_bit poly x = drop_bit 1 x" using Suc.prems by (simp add: crc_bit_def)
  moreover have "\<forall>i < n. \<not> bit (drop_bit 1 x) i" using Suc.prems by (simp add: bit_drop_bit_eq)
  ultimately show ?case using Suc.IH [of "drop_bit 1 x"] by (simp add: funpow_swap1 drop_bit_drop_bit)
qed simp

lemma crc_table_step:
  assumes t: "\<And>b. b < 256 \<Longrightarrow> table ! b = crc_byte poly (of_nat b)"
  shows "table ! unat (x AND 0xff) XOR drop_bit 8 x = crc_byte poly x"
proof -
  have m: "(0xff :: u64) = mask 8" by (simp add: mask_eq_exp_minus_1)
  have x: "x = (x AND 0xff) XOR (x AND NOT 0xff)" by (rule bit_word_eqI) (auto simp: bit_simps)
  have "x AND 0xff \<le> 0xff" by (rule word_and_le1)
  then have "unat (x AND 0xff) < 256" by (simp add: word_le_nat_alt)
  then have "table ! unat (x AND 0xff) = crc_byte poly (x AND 0xff)" using t by simp
  moreover have "crc_byte poly (x AND NOT 0xff) = drop_bit 8 x"
  proof -
    have "\<forall>i < 8. \<not> bit (x AND NOT 0xff) i" unfolding m by (simp only: bit_and_iff bit_not_iff bit_mask_iff) auto
    from crc_bits_high [OF this] have "crc_byte poly (x AND NOT 0xff) = drop_bit 8 (x AND NOT 0xff)" by (simp add: crc_byte_def)
    also have "\<dots> = drop_bit 8 x" unfolding m
    proof (rule bit_word_eqI)
      fix n assume "n < LENGTH(64)"
      show "bit (drop_bit 8 (x AND NOT (mask 8))) n = bit (drop_bit 8 x) n"
        unfolding bit_drop_bit_eq comp_def bit_and_iff bit_not_iff bit_mask_iff by (auto dest: bit_imp_le_length)
    qed
    finally show ?thesis .
  qed
  ultimately show ?thesis unfolding crc_byte_def by (subst (3) x) (simp only: crc_bits_xor)
qed

lemma crc_byte_8: "crc_byte p x = crc_bit p (crc_bit p (crc_bit p (crc_bit p (crc_bit p (crc_bit p (crc_bit p (crc_bit p x)))))))"
  by (simp add: crc_byte_def eval_nat_numeral)

definition all_bytes :: "u64 list" where
  "all_bytes = [0, 1, 2, 3, 4, 5, 6, 7, 8, 9, 10, 11, 12, 13, 14, 15, 16, 17, 18, 19, 20, 21, 22, 23, 24, 25, 26, 27, 28, 29, 30, 31, 32, 33, 34, 35, 36, 37, 38, 39, 40, 41, 42, 43, 44, 45, 46, 47, 48, 49, 50, 51, 52, 53, 54, 55, 56, 57, 58, 59, 60, 61, 62, 63, 64, 65, 66, 67, 68, 69, 70, 71, 72, 73, 74, 75, 76, 77, 78, 79, 80, 81, 82, 83, 84, 85, 86, 87, 88, 89, 90, 91, 92, 93, 94, 95, 96, 97, 98, 99, 100, 101, 102, 103, 104, 105, 106, 107, 108, 109, 110, 111, 112, 113, 114, 115, 116, 117, 118, 119, 120, 121, 122, 123, 124, 125, 126, 127, 128, 129, 130, 131, 132, 133, 134, 135, 136, 137, 138, 139, 140, 141, 142, 143, 144, 145, 146, 147, 148, 149, 150, 151, 152, 153, 154, 155, 156, 157, 158, 159, 160, 161, 162, 163, 164, 165, 166, 167, 168, 169, 170, 171, 172, 173, 174, 175, 176, 177, 178, 179, 180, 181, 182, 183, 184, 185, 186, 187, 188, 189, 190, 191, 192, 193, 194, 195, 196, 197, 198, 199, 200, 201, 202, 203, 204, 205, 206, 207, 208, 209, 210, 211, 212, 213, 214, 215, 216, 217, 218, 219, 220, 221, 222, 223, 224, 225, 226, 227, 228, 229, 230, 231, 232, 233, 234, 235, 236, 237, 238, 239, 240, 241, 242, 243, 244, 245, 246, 247, 248, 249, 250, 251, 252, 253, 254, 255]"

lemma all_bytes_upt: "all_bytes = map of_nat [0..<256]"
  by (simp add: all_bytes_def upt_conv_Cons)

lemma crc32_table_bytes: "crc32_table = map (crc_byte 0xedb88320) all_bytes"
  by (simp add: crc32_table_def all_bytes_def crc_byte_8 crc_bit_def)

lemma crc32c_table_bytes: "crc32c_table = map (crc_byte 0x82f63b78) all_bytes"
  by (simp add: crc32c_table_def all_bytes_def crc_byte_8 crc_bit_def)

lemma crc_table_nth:
  "b < 256 \<Longrightarrow> crc32_table ! b = crc_byte 0xedb88320 (of_nat b)" "b < 256 \<Longrightarrow> crc32c_table ! b = crc_byte 0x82f63b78 (of_nat b)"
  by (simp_all add: crc32_table_bytes crc32c_table_bytes all_bytes_upt del: upt_Suc)

text \<open>The checksum of a message is the division of its bits by the polynomial, least significant bit first.\<close>

definition crc_message :: "u64 \<Rightarrow> u64 \<Rightarrow> u8 list \<Rightarrow> u64" where
  "crc_message poly crc buf = foldl (\<lambda>c b. crc_byte poly (c XOR ucast b)) crc buf"

lemma drop_byte: "drop_bit 8 (ucast (b :: u8) :: u64) = 0"
  by (rule bit_word_eqI) (auto simp: bit_simps dest: bit_imp_le_length)

lemma crc32_message: "crc32 crc buf = crc_message 0xedb88320 crc buf"
proof (induction buf arbitrary: crc)
  case (Cons b buf)
  then show ?case using crc_table_step [of crc32_table, OF crc_table_nth(1), of "crc XOR ucast b"]
    by (simp add: crc_message_def drop_byte)
qed (simp add: crc_message_def)

lemma crc32c_message: "crc32c crc buf = crc_message 0x82f63b78 crc buf"
proof (induction buf arbitrary: crc)
  case (Cons b buf)
  then show ?case using crc_table_step [of crc32c_table, OF crc_table_nth(2), of "crc XOR ucast b"]
    by (simp add: crc_message_def drop_byte)
qed (simp add: crc_message_def)

text \<open>The mask on the operand of a checksum keeps the bytes that are read.\<close>

lemma INSN_bound: "msb - lsb < 31 \<Longrightarrow> unat (INSN insn msb lsb) < 2 ^ (msb - lsb + 1)"
proof -
  assume "msb - lsb < 31"
  have "INSN insn msb lsb = take_bit (msb - lsb + 1) (drop_bit lsb insn)"
    by (simp add: INSN_def take_bit_eq_mask mask_eq_exp_minus_1)
  then show ?thesis by (metis unsigned_take_bit_eq take_bit_nat_less_exp)
qed

lemma byte_mask: "i < n \<Longrightarrow> byte i (x AND mask (8 * n)) = byte i (x :: u64)"
  by (rule bit_word_eqI) (auto simp: byte_def bit_simps dest: bit_imp_le_length)

lemma crc_bytes_masked:
  "map (\<lambda>i. byte i (x AND [0xff, 0xffff, 0xffffffff, - 1] ! unat (INSN insn 11 10))) [0..<2 ^ unat (INSN insn 11 10)]
     = map (\<lambda>i. byte i (x :: u64)) [0..<2 ^ unat (INSN insn 11 10)]"
proof -
  have m: "[0xff, 0xffff, 0xffffffff, - 1 :: u64] ! k = mask (8 * 2 ^ k)" if "k < 4" for k
  proof -
    have "k = 0 \<or> k = 1 \<or> k = 2 \<or> k = 3" using that by linarith
    then show ?thesis by (elim disjE) (simp_all add: mask_eq_exp_minus_1)
  qed
  show ?thesis using INSN_bound [of 11 10 insn] by (simp add: m byte_mask)
qed

section \<open>Exclusive accesses\<close>

text \<open>
  A store exclusive after a load exclusive of the same address and size writes, and says 0, exactly when the
  memory holds the value that was loaded; otherwise it says 1 and writes nothing.
\<close>

lemma exclusive_pair:
  assumes l: "arm64_hlp_ldxr a sz st = Some (v, st1)" and e: "exclusive_value st2 = exclusive_value st1"
  shows "arm64_hlp_stxr a sz w st2 = Some (if read_mem (excl_mem st2) a (2 ^ unat sz) = v
    then (0, st2\<lparr>excl_mem := write_mem (excl_mem st2) a (2 ^ unat sz) w\<rparr>) else (1, st2))"
proof -
  have s: "sz \<le> 3" and v: "v = read_mem (excl_mem st) a (2 ^ unat sz)" "exclusive_value st2 = ucast v"
    using l e by (auto simp: arm64_hlp_ldxr_def Let_def split: if_splits)
  have "(ucast (ucast v :: u128) :: u64) = v" by (rule bit_word_eqI) (auto simp: bit_simps)
  moreover have "take_bit (8 * 2 ^ unat sz) v = v" unfolding v(1) by (rule read_mem_take_bit)
  ultimately show ?thesis using s v(2) by (simp add: arm64_hlp_stxr_def compare_and_swap_def)
qed

text \<open>A failed store exclusive of a pair has written its first half.\<close>

definition torn_state :: excl_state where
  "torn_state = \<lparr>exclusive_value = 0, excl_r = (\<lambda>i. if i = 0 then 4096 else of_nat i), excl_mem = (\<lambda>a. if a = 4104 then 1 else 0)\<rparr>"

lemma stxp_torn:
  "map_option (\<lambda>st. (excl_r st 3, read_mem (excl_mem st) 4096 8)) (arm64_hlp_stxp_dirty 0xc8230801 torn_state) = Some (1, 1)"
  "read_mem (excl_mem torn_state) 4096 8 = 0"
  by code_simp+

end
