(* ===== verification/Arm64_Guest.thy ===== *)
theory Arm64_Guest
  imports Cache Arm64_Dis_Blocks Arm64_Helpers_Sem
begin

text \<open>
  The guest as the translated code sees it: the registers are fields of \<open>struct arm64_registers\<close> at the address \<open>ctx\<close>, the
  memory is everything outside of this structure. \<open>guest ctx m\<close> reads the state of the guest from the host memory.
\<close>

record guest =
  gX :: "nat \<Rightarrow> u64"
  gPC :: u64
  gNZCV :: u32
  gV_lsb :: "nat \<Rightarrow> u64"
  gV_msb :: "nat \<Rightarrow> u64"
  gTPIDR :: u64
  gMEM :: memory

text \<open>\<open>sizeof(struct arm64_registers)\<close>\<close>

definition ctx_size :: nat where "ctx_size = 848"

definition ctx_field :: "u64 \<Rightarrow> nat \<Rightarrow> nat \<Rightarrow> memory \<Rightarrow> u64" where
  "ctx_field ctx off n m = read_mem m (ctx + of_nat off) n"

definition set_field :: "u64 \<Rightarrow> nat \<Rightarrow> nat \<Rightarrow> u64 \<Rightarrow> memory \<Rightarrow> memory" where
  "set_field ctx off n v m = write_mem m (ctx + of_nat off) n v"

definition guest :: "u64 \<Rightarrow> memory \<Rightarrow> guest" where
  "guest ctx m = \<lparr>
     gX = (\<lambda>i. if i < 32 then ctx_field ctx (off_r i) 8 m else 0),
     gPC = ctx_field ctx off_pc 8 m,
     gNZCV = ucast (ctx_field ctx off_nzcv 4 m),
     gV_lsb = (\<lambda>i. if i < 32 then ctx_field ctx (off_v i) 8 m else 0),
     gV_msb = (\<lambda>i. if i < 32 then ctx_field ctx (off_v i + 8) 8 m else 0),
     gTPIDR = ctx_field ctx off_tpidr_el0 8 m,
     gMEM = (\<lambda>a. if unat (a - ctx) < ctx_size then 0 else m a)\<rparr>"

lemmas offsets = off_r_def off_pc_def off_nzcv_def off_v_def off_tpidr_el0_def off_helper_pc_def ctx_size_def

lemma of_nat_distinct: "i < 2 ^ 64 \<Longrightarrow> j < 2 ^ 64 \<Longrightarrow> i \<noteq> j \<Longrightarrow> (of_nat i :: u64) \<noteq> of_nat j"
  by (simp add: word_of_nat_eq_iff take_bit_nat_eq_self)

lemma field_other:
  assumes "off + n \<le> off' \<or> off' + n' \<le> off" "off + n \<le> ctx_size" "off' + n' \<le> ctx_size"
  shows "ctx_field ctx off n (set_field ctx off' n' v m) = ctx_field ctx off n m"
  unfolding ctx_field_def set_field_def
proof (rule read_mem_cong, rule write_mem_other)
  fix k l
  assume "k < n" "l < n'"
  then have "(of_nat (off + k) :: u64) \<noteq> of_nat (off' + l)" using assms by (intro of_nat_distinct) (auto simp: ctx_size_def)
  then show "ctx + of_nat off + of_nat k \<noteq> ctx + of_nat off' + of_nat l" by (simp add: add.assoc)
qed

lemma field_same: "n \<le> 8 \<Longrightarrow> ctx_field ctx off n (set_field ctx off n v m) = take_bit (8 * n) v"
  by (simp add: ctx_field_def set_field_def read_write_mem)

lemma read_mem_low: "take_bit (8 * n) (read_mem m a (n + k)) = read_mem m a n"
proof (induction n arbitrary: a)
  case (Suc n)
  have "take_bit (8 * Suc n) (ucast (m a) OR push_bit 8 w) = ucast (m a) OR push_bit 8 (take_bit (8 * n) w)" for w :: u64
    by (rule bit_word_eqI) (auto simp: bit_simps dest: bit_imp_le_length)
  then show ?case using Suc by simp
qed simp

lemma field_low: "ctx_field ctx off 4 m = take_bit 32 (ctx_field ctx off 8 m)"
  using read_mem_low [of 4 m _ 4] by (simp add: ctx_field_def)

lemma mem_outside:
  assumes "off + n \<le> ctx_size" "ctx_size \<le> unat (a - ctx)"
  shows "set_field ctx off n v m a = m a"
  unfolding set_field_def
proof (rule write_mem_other)
  fix k
  assume "k < n"
  then have "unat (of_nat (off + k) :: u64) = off + k" using assms(1) by (simp add: ctx_size_def unat_of_nat del: of_nat_add)
  moreover have "unat (a - ctx) \<noteq> off + k" using \<open>k < n\<close> assms by linarith
  ultimately show "a \<noteq> ctx + of_nat off + of_nat k" by (auto simp: add.assoc)
qed


text \<open>The effect of writing a field.\<close>

definition set_x :: "nat \<Rightarrow> u64 \<Rightarrow> guest \<Rightarrow> guest" where "set_x i v g = g\<lparr>gX := (gX g)(i := v)\<rparr>"

lemma take_bit_64 [simp]: "take_bit 64 (v :: u64) = v"
  by (simp add: take_bit_word_eq_self)

lemma ucast_low [simp]: "(ucast (take_bit 32 (v :: u64)) :: u32) = ucast v"
  by (rule bit_word_eqI) (auto simp: bit_simps)

text \<open>Fields of an array of registers.\<close>

lemma field_array:
  assumes "x \<noteq> i" "base + (s * x + n) \<le> ctx_size" "base' + (s * i + n') \<le> ctx_size" "base \<le> base' + s - n" "base' \<le> base + s - n'" "n \<le> s" "n' \<le> s"
  shows "ctx_field ctx (base + s * x) n (set_field ctx (base' + s * i) n' v m) = ctx_field ctx (base + s * x) n m"
proof (rule field_other)
  have "s * x + s \<le> s * i \<or> s * i + s \<le> s * x" using assms(1) by (metis (no_types) mult_Suc_right add.commute Suc_leI linorder_neq_iff mult_le_mono2)
  then show "base + s * x + n \<le> base' + s * i \<or> base' + s * i + n' \<le> base + s * x" using assms(4-) by linarith
qed (use assms(2,3) in simp_all)

lemma field_halves:
  assumes "x < 32" "i < 32"
  shows "ctx_field ctx (280 + 16 * x) 8 (set_field ctx (272 + 16 * i) 8 v m) = ctx_field ctx (280 + 16 * x) 8 m"
    "ctx_field ctx (272 + 16 * x) 8 (set_field ctx (280 + 16 * i) 8 v m) = ctx_field ctx (272 + 16 * x) 8 m"
proof -
  have "x < i \<or> x = i \<or> i < x" by linarith
  then have "280 + 16 * x + 8 \<le> 272 + 16 * i \<or> 272 + 16 * i + 8 \<le> 280 + 16 * x" "272 + 16 * x + 8 \<le> 280 + 16 * i \<or> 280 + 16 * i + 8 \<le> 272 + 16 * x"
    by linarith+
  then show "ctx_field ctx (280 + 16 * x) 8 (set_field ctx (272 + 16 * i) 8 v m) = ctx_field ctx (280 + 16 * x) 8 m"
    "ctx_field ctx (272 + 16 * x) 8 (set_field ctx (280 + 16 * i) 8 v m) = ctx_field ctx (272 + 16 * x) 8 m"
    using assms by (simp_all add: field_other ctx_size_def)
qed

lemmas field_rules = field_halves field_other field_same mem_outside field_array [where base = 0 and base' = 0 and s = 8, simplified] field_array [where s = 16]

lemma guest_set_x: "i < 32 \<Longrightarrow> guest ctx (set_field ctx (off_r i) 8 v m) = set_x i v (guest ctx m)"
  by (auto simp: guest_def set_x_def field_rules offsets fun_eq_iff)

lemma guest_set_pc: "guest ctx (set_field ctx off_pc 8 v m) = guest ctx m\<lparr>gPC := v\<rparr>"
  by (auto simp: guest_def field_rules offsets fun_eq_iff)

lemma guest_set_nzcv: "guest ctx (set_field ctx off_nzcv 4 v m) = guest ctx m\<lparr>gNZCV := ucast v\<rparr>"
  by (auto simp: guest_def field_rules offsets fun_eq_iff)

lemma guest_set_tpidr: "guest ctx (set_field ctx off_tpidr_el0 8 v m) = guest ctx m\<lparr>gTPIDR := v\<rparr>"
  by (auto simp: guest_def field_rules offsets fun_eq_iff)

lemma guest_set_helper_pc: "guest ctx (set_field ctx off_helper_pc 8 v m) = guest ctx m"
  by (auto simp: guest_def field_rules offsets fun_eq_iff)

lemma guest_set_v:
  "i < 32 \<Longrightarrow> guest ctx (set_field ctx (off_v i) 8 v m) = guest ctx m\<lparr>gV_lsb := (gV_lsb (guest ctx m))(i := v)\<rparr>"
  "i < 32 \<Longrightarrow> guest ctx (set_field ctx (off_v i + 8) 8 v m) = guest ctx m\<lparr>gV_msb := (gV_msb (guest ctx m))(i := v)\<rparr>"
  by (auto simp: guest_def field_rules offsets fun_eq_iff)

lemmas guest_set = guest_set_x guest_set_pc guest_set_nzcv guest_set_tpidr guest_set_helper_pc guest_set_v

lemma guest_get:
  "i < 32 \<Longrightarrow> ctx_field ctx (off_r i) 8 m = gX (guest ctx m) i"
  "ctx_field ctx off_pc 8 m = gPC (guest ctx m)"
  "ctx_field ctx off_nzcv 4 m = ucast (gNZCV (guest ctx m))"
  "ctx_field ctx off_tpidr_el0 8 m = gTPIDR (guest ctx m)"
  "i < 32 \<Longrightarrow> ctx_field ctx (off_v i) 8 m = gV_lsb (guest ctx m) i"
  "i < 32 \<Longrightarrow> ctx_field ctx (off_v i + 8) 8 m = gV_msb (guest ctx m) i"
proof -
  have "ctx_field ctx off_nzcv 4 m = take_bit 32 (ctx_field ctx off_nzcv 4 m)" using read_mem_take_bit [of 4 m] by (simp add: ctx_field_def)
  then show "ctx_field ctx off_nzcv 4 m = ucast (gNZCV (guest ctx m))" by (simp add: guest_def unsigned_ucast_eq)
qed (simp_all add: guest_def)

text \<open>Register 31 is the stack pointer or reads as zero, as the instruction says.\<close>

definition rx :: "bool \<Rightarrow> nat \<Rightarrow> guest \<Rightarrow> u64" where "rx z i g = (if i = 31 \<and> z then 0 else gX g i)"
definition wx :: "bool \<Rightarrow> nat \<Rightarrow> u64 \<Rightarrow> guest \<Rightarrow> guest" where "wx z i v g = (if i = 31 \<and> z then g else set_x i v g)"

lemma rx_wx_31 [simp]: "rx True 31 g = 0" "wx True 31 v g = g"
  by (simp_all add: rx_def wx_def)

section \<open>Guest memory\<close>

text \<open>An access of \<open>n\<close> bytes that does not touch the registers.\<close>

definition outside :: "u64 \<Rightarrow> u64 \<Rightarrow> nat \<Rightarrow> bool" where
  "outside ctx a n \<longleftrightarrow> (\<forall>k < n. ctx_size \<le> unat (a + of_nat k - ctx))"

lemma guest_load: "outside ctx a n \<Longrightarrow> read_mem m a n = read_mem (gMEM (guest ctx m)) a n"
  by (rule read_mem_cong) (auto simp: outside_def guest_def not_less dest: leD)

lemma store_field:
  assumes "outside ctx a n" "off + k \<le> ctx_size"
  shows "ctx_field ctx off k (write_mem m a n v) = ctx_field ctx off k m"
  unfolding ctx_field_def
proof (rule read_mem_cong, rule write_mem_other)
  fix i j
  assume "i < k" "j < n"
  have "unat (of_nat (off + i) :: u64) = off + i" using assms(2) \<open>i < k\<close> by (simp add: ctx_size_def unat_of_nat del: of_nat_add)
  moreover have "ctx_size \<le> unat (a + of_nat j - ctx)" using assms(1) \<open>j < n\<close> by (simp add: outside_def)
  ultimately show "ctx + of_nat off + of_nat i \<noteq> a + of_nat j" using assms(2) \<open>i < k\<close>
    by (metis (no_types) add.assoc add_diff_cancel_left' add_less_mono1 nat_add_left_cancel_less leD of_nat_add order_less_le_trans)
qed

lemma guest_store:
  assumes "outside ctx a n" "n \<le> 8"
  shows "guest ctx (write_mem m a n v) = guest ctx m\<lparr>gMEM := write_mem (gMEM (guest ctx m)) a n v\<rparr>"
proof -
  have "(if unat (b - ctx) < ctx_size then 0 else write_mem m a n v b) = write_mem (\<lambda>a. if unat (a - ctx) < ctx_size then 0 else m a) a n v b" for b
  proof (cases "\<exists>k < n. b = a + of_nat k")
    case True
    then obtain k where k: "k < n" "b = a + of_nat k" by blast
    then show ?thesis using assms by (auto simp: write_mem_same outside_def dest: leD)
  next
    case False
    then have "write_mem f a n v b = f b" for f by (intro write_mem_other) auto
    then show ?thesis by simp
  qed
  then show ?thesis using assms(1) by (auto simp: guest_def store_field offsets fun_eq_iff)
qed

end
