(* ===== verification/Arm64_Spec.thy ===== *)
theory Arm64_Spec
  imports Arm64_Guest
begin

text \<open>
  Reference semantics of the integer instructions of the architecture: what an instruction word does to the state of the
  guest. \<open>sf\<close> is the bit that chooses between 64 and 32 bits; results of 32 bits clear the upper half of a register.
\<close>

abbreviation low32 :: "u64 \<Rightarrow> u64" where "low32 \<equiv> take_bit 32"

definition trn :: "bool \<Rightarrow> u64 \<Rightarrow> u64" where "trn sf v = (if sf then v else low32 v)"

abbreviation size_of :: "bool \<Rightarrow> nat" where "size_of sf \<equiv> if sf then 64 else 32"

text \<open>The word of \<open>n\<close> bits with the given bits.\<close>

definition of_bits :: "nat \<Rightarrow> (nat \<Rightarrow> bool) \<Rightarrow> u64" where
  "of_bits n P = horner_sum of_bool 2 (map P [0..<n])"

lemma bit_of_bits: "n \<le> 64 \<Longrightarrow> bit (of_bits n P) i \<longleftrightarrow> i < n \<and> P i"
  by (auto simp: of_bits_def bit_horner_sum_bit_word_iff)

section \<open>Data processing with immediates\<close>

definition a64_adr :: "u32 \<Rightarrow> u64 \<Rightarrow> guest \<Rightarrow> guest" where
  "a64_adr insn pc g = (let imm = signed_take_bit 20 (of_nat (4 * fld insn 23 5 + fld insn 30 29)) in
     wx True (fld insn 4 0) (if bit insn 31 then (pc AND NOT 0xfff) + push_bit 12 imm else pc + imm) g)"

text \<open>Sums and differences: a difference is the sum with the complement and a carry.\<close>

definition sum_flags :: "bool \<Rightarrow> u64 \<Rightarrow> u64 \<Rightarrow> bool \<Rightarrow> u32 \<Rightarrow> u32" where
  "sum_flags sf x y c old = (if sf then add_with_carry_flags x y c old else add_with_carry_flags (ucast x :: u32) (ucast y) c old)"

definition a64_sum :: "u32 \<Rightarrow> bool \<Rightarrow> u64 \<Rightarrow> u64 \<Rightarrow> bool \<Rightarrow> guest \<Rightarrow> guest" where
  "a64_sum insn z x y c g = (let sf = bit insn 31; S = bit insn 29 in
     wx (S \<or> z) (fld insn 4 0) (trn sf (x + y + of_bool c)) (if S then g\<lparr>gNZCV := sum_flags sf x y c (gNZCV g)\<rparr> else g))"

definition a64_add_sub :: "u32 \<Rightarrow> bool \<Rightarrow> u64 \<Rightarrow> u64 \<Rightarrow> guest \<Rightarrow> guest" where
  "a64_add_sub insn z x y = (if bit insn 30 then a64_sum insn z x (NOT y) True else a64_sum insn z x y False)"

definition a64_add_sub_imm :: "u32 \<Rightarrow> guest \<Rightarrow> guest" where
  "a64_add_sub_imm insn g = a64_add_sub insn False (rx False (fld insn 9 5) g)
     (of_nat (fld insn 21 10 * (if fld insn 23 22 = 1 then 4096 else 1))) g"

text \<open>Logical operations.\<close>

definition logic_flags :: "bool \<Rightarrow> u64 \<Rightarrow> u32 \<Rightarrow> u32" where
  "logic_flags sf v old = nzcv_word (bit v (size_of sf - 1)) (trn sf v = 0) False False old"

definition a64_logical :: "u32 \<Rightarrow> bool \<Rightarrow> u64 \<Rightarrow> u64 \<Rightarrow> guest \<Rightarrow> guest" where
  "a64_logical insn z x y g = (let sf = bit insn 31; opc = fld insn 30 29;
       v = trn sf (if opc = 1 then x OR y else if opc = 2 then x XOR y else x AND y) in
     wx z (fld insn 4 0) v (if opc = 3 then g\<lparr>gNZCV := logic_flags sf v (gNZCV g)\<rparr> else g))"

text \<open>
  The immediates of logical operations: a run of \<open>imms mod e + 1\<close> ones, rotated right by \<open>immr\<close> in an element of \<open>e\<close> bits and
  repeated in the register.
\<close>

definition mask_element :: "bool \<Rightarrow> nat \<Rightarrow> nat option" where
  "mask_element n imms = (if n then Some 64 else if imms < 32 then Some 32 else if imms < 48 then Some 16 else if imms < 56 then Some 8
     else if imms < 60 then Some 4 else if imms < 62 then Some 2 else None)"

text \<open>The register has to hold the element, and the run is shorter than the element.\<close>

definition mask_valid :: "bool \<Rightarrow> bool \<Rightarrow> nat \<Rightarrow> bool" where
  "mask_valid sf n imms = ((n \<longrightarrow> sf) \<and> (case mask_element n imms of None \<Rightarrow> False | Some e \<Rightarrow> imms mod e \<noteq> e - 1))"

definition bit_mask :: "nat \<Rightarrow> nat \<Rightarrow> nat \<Rightarrow> u64" where
  "bit_mask e immr imms = of_bits 64 (\<lambda>i. (i + immr) mod e \<le> imms mod e)"

definition a64_logical_imm :: "u32 \<Rightarrow> guest \<Rightarrow> guest" where
  "a64_logical_imm insn g = a64_logical insn (fld insn 30 29 = 3) (rx True (fld insn 9 5) g)
     (bit_mask (the (mask_element (bit insn 22) (fld insn 15 10))) (fld insn 21 16) (fld insn 15 10)) g"

definition a64_move_wide :: "u32 \<Rightarrow> guest \<Rightarrow> guest" where
  "a64_move_wide insn g = (let pos = 16 * fld insn 22 21; imm = push_bit pos (of_nat (fld insn 20 5)); rd = fld insn 4 0; opc = fld insn 30 29;
       v = (if opc = 0 then NOT imm else if opc = 2 then imm else (rx True rd g AND NOT (push_bit pos 0xffff)) OR imm) in
     wx True rd (trn (bit insn 31) v) g)"

definition a64_bitfield :: "u32 \<Rightarrow> guest \<Rightarrow> guest" where
  "a64_bitfield insn g = (let N = size_of (bit insn 31); rd = fld insn 4 0 in
     wx True rd (of_bits N (bitfield_bit (the (bitfield_kind_of insn)) N (fld insn 21 16) (fld insn 15 10) (rx True (fld insn 9 5) g) (rx True rd g))) g)"

text \<open>The word at bit \<open>imms\<close> of the concatenation of two registers.\<close>

definition a64_extr :: "u32 \<Rightarrow> guest \<Rightarrow> guest" where
  "a64_extr insn g = (let N = size_of (bit insn 31); lsb = fld insn 15 10; hi = rx True (fld insn 9 5) g; lo = rx True (fld insn 20 16) g in
     wx True (fld insn 4 0) (of_bits N (\<lambda>i. if i + lsb < N then bit lo (i + lsb) else bit hi (i + lsb - N))) g)"

section \<open>Data processing with registers\<close>

definition shift_reg :: "bool \<Rightarrow> nat \<Rightarrow> nat \<Rightarrow> u64 \<Rightarrow> u64" where
  "shift_reg sf kind k v = (if kind = 0 then trn sf (push_bit k v)
     else if kind = 1 then drop_bit k (trn sf v)
     else if kind = 2 then trn sf (signed_drop_bit k (if sf then v else signed_take_bit 31 v))
     else rotr (size_of sf) k v)"

definition a64_add_sub_shifted :: "u32 \<Rightarrow> guest \<Rightarrow> guest" where
  "a64_add_sub_shifted insn g = a64_add_sub insn True (rx True (fld insn 9 5) g)
     (shift_reg (bit insn 31) (fld insn 23 22) (fld insn 15 10) (rx True (fld insn 20 16) g)) g"

definition a64_logical_shifted :: "u32 \<Rightarrow> guest \<Rightarrow> guest" where
  "a64_logical_shifted insn g = (let y = shift_reg (bit insn 31) (fld insn 23 22) (fld insn 15 10) (rx True (fld insn 20 16) g) in
     a64_logical insn True (rx True (fld insn 9 5) g) (if bit insn 21 then NOT y else y) g)"

definition extend_reg :: "nat \<Rightarrow> u64 \<Rightarrow> u64" where
  "extend_reg option v = (let n = 8 * 2 ^ (option mod 4) in if option < 4 then take_bit n v else signed_take_bit (n - 1) v)"

definition a64_add_sub_extended :: "u32 \<Rightarrow> guest \<Rightarrow> guest" where
  "a64_add_sub_extended insn g = a64_add_sub insn False (rx False (fld insn 9 5) g)
     (push_bit (fld insn 12 10) (extend_reg (fld insn 15 13) (rx True (fld insn 20 16) g))) g"

definition a64_add_sub_carry :: "u32 \<Rightarrow> guest \<Rightarrow> guest" where
  "a64_add_sub_carry insn g = (let y = rx True (fld insn 20 16) g in
     a64_sum insn True (rx True (fld insn 9 5) g) (if bit insn 30 then NOT y else y) (bit (gNZCV g) 29) g)"

definition a64_ccmp :: "u32 \<Rightarrow> guest \<Rightarrow> guest" where
  "a64_ccmp insn g = (let sf = bit insn 31; x = rx True (fld insn 9 5) g;
       y = (if bit insn 11 then of_nat (fld insn 20 16) else rx True (fld insn 20 16) g) in
     g\<lparr>gNZCV := if condition_holds (fld insn 15 12) (gNZCV g)
       then (if bit insn 30 then sum_flags sf x (NOT y) True (gNZCV g) else sum_flags sf x y False (gNZCV g))
       else push_bit 28 (of_nat (fld insn 3 0))\<rparr>)"

definition a64_csel :: "u32 \<Rightarrow> guest \<Rightarrow> guest" where
  "a64_csel insn g = (let y = rx True (fld insn 20 16) g;
       y = (if bit insn 30 then NOT y else y); y = (if bit insn 10 then y + 1 else y);
       v = (if condition_holds (fld insn 15 12) (gNZCV g) then rx True (fld insn 9 5) g else y) in
     wx True (fld insn 4 0) (trn (bit insn 31) v) g)"

text \<open>Reversals as permutations of the bits of an element, and counts of leading bits.\<close>

definition rev_bits :: "nat \<Rightarrow> u64 \<Rightarrow> u64" where "rev_bits n v = of_bits n (\<lambda>i. bit v (n - 1 - i))"

definition rev_bytes :: "nat \<Rightarrow> nat \<Rightarrow> u64 \<Rightarrow> u64" where
  "rev_bytes n e v = of_bits n (\<lambda>i. bit v (e * (i div e) + (e - 8 - 8 * (i mod e div 8)) + i mod 8))"

definition leading :: "(bool \<Rightarrow> bool) \<Rightarrow> nat \<Rightarrow> u64 \<Rightarrow> nat" where
  "leading P n v = length (takeWhile P (rev (map (bit v) [0..<n])))"

definition a64_data_1 :: "u32 \<Rightarrow> guest \<Rightarrow> guest" where
  "a64_data_1 insn g = (let n = size_of (bit insn 31); opc = fld insn 15 10; v = rx True (fld insn 9 5) g in
     wx True (fld insn 4 0) (if opc = 0 then rev_bits n v
       else if opc = 1 then rev_bytes n 16 v
       else if opc = 2 then rev_bytes n 32 v
       else if opc = 3 then rev_bytes n 64 v
       else if opc = 4 then of_nat (leading Not n v)
       else of_nat (leading (\<lambda>b. b = bit v (n - 1)) (n - 1) v)) g)"

definition a64_data_2 :: "u32 \<Rightarrow> guest \<Rightarrow> guest" where
  "a64_data_2 insn g = (let sf = bit insn 31; opc = fld insn 15 10; x = rx True (fld insn 9 5) g; y = rx True (fld insn 20 16) g;
       k = unat (take_bit (if sf then 6 else 5) y) in
     wx True (fld insn 4 0) (if opc = 2 then (if sf then if y = 0 then 0 else x div y else ucast (if ucast y = (0 :: u32) then 0 else ucast x div (ucast y :: u32)))
       else if opc = 3 then (if sf then signed_quotient x y else ucast (signed_quotient (ucast x) (ucast y :: u32)))
       else shift_reg sf (opc - 8) k x) g)"

definition a64_data_3 :: "u32 \<Rightarrow> guest \<Rightarrow> guest" where
  "a64_data_3 insn g = (let sf = bit insn 31; sub = bit insn 15; op31 = fld insn 23 21; x = rx True (fld insn 9 5) g; y = rx True (fld insn 20 16) g;
       a = rx True (fld insn 14 10) g;
       acc = (\<lambda>p. if sub then a - p else a + p);
       v = (if op31 = 0 then trn sf (acc (x * y))
         else if op31 = 1 then acc (signed_take_bit 31 x * signed_take_bit 31 y)
         else if op31 = 2 then word_of_int (sint x * sint y div 2 ^ 64)
         else if op31 = 5 then acc (low32 x * low32 y)
         else word_of_int (uint x * uint y div 2 ^ 64)) in
     wx True (fld insn 4 0) v g)"

end
