(* ===== verification/Arm64_Spec_Insn.thy ===== *)
theory Arm64_Spec_Insn
  imports Arm64_Spec
begin

text \<open>
  The reference semantics continued: branches, loads and stores, and the decoding of an instruction word by the patterns of the
  architecture's encoding tables. \<open>a64\<close> is one step of the guest; words outside the modelled subset have no step.
\<close>

section \<open>Branches\<close>

definition branch_offset :: "u32 \<Rightarrow> nat \<Rightarrow> nat \<Rightarrow> u64" where
  "branch_offset insn msb lsb = push_bit 2 (signed_take_bit (msb - lsb) (ucast (INSN insn msb lsb)))"

definition a64_b :: "u32 \<Rightarrow> guest \<Rightarrow> guest" where
  "a64_b insn g = (if bit insn 31 then set_x 30 (gPC g + 4) g else g)\<lparr>gPC := gPC g + branch_offset insn 25 0\<rparr>"

definition branch_if :: "bool \<Rightarrow> u64 \<Rightarrow> guest \<Rightarrow> guest" where
  "branch_if taken offset g = g\<lparr>gPC := gPC g + (if taken then offset else 4)\<rparr>"

definition a64_b_cond :: "u32 \<Rightarrow> guest \<Rightarrow> guest" where
  "a64_b_cond insn g = branch_if (condition_holds (fld insn 3 0) (gNZCV g)) (branch_offset insn 23 5) g"

definition a64_cbz :: "u32 \<Rightarrow> guest \<Rightarrow> guest" where
  "a64_cbz insn g = branch_if ((trn (bit insn 31) (rx True (fld insn 4 0) g) = 0) \<noteq> bit insn 24) (branch_offset insn 23 5) g"

definition a64_tbz :: "u32 \<Rightarrow> guest \<Rightarrow> guest" where
  "a64_tbz insn g = branch_if (bit (rx True (fld insn 4 0) g) (32 * of_bool (bit insn 31) + fld insn 23 19) = bit insn 24) (branch_offset insn 18 5) g"

definition a64_br :: "u32 \<Rightarrow> guest \<Rightarrow> guest" where
  "a64_br insn g = (if fld insn 22 21 = 1 then set_x 30 (gPC g + 4) g else g)\<lparr>gPC := rx True (fld insn 9 5) g\<rparr>"

section \<open>Loads and stores\<close>

text \<open>The access of one register: store, load with zeros, load with the sign to 64 and to 32 bits.\<close>

definition a64_access :: "nat \<Rightarrow> nat \<Rightarrow> nat \<Rightarrow> u64 \<Rightarrow> guest \<Rightarrow> guest" where
  "a64_access sz opc rt a g = (let v = read_mem (gMEM g) a (2 ^ sz); s = signed_take_bit (8 * 2 ^ sz - 1) v in
     if opc = 0 then g\<lparr>gMEM := write_mem (gMEM g) a (2 ^ sz) (rx True rt g)\<rparr>
     else wx True rt (if opc = 1 then v else if opc = 2 then s else low32 s) g)"

definition access_valid :: "nat \<Rightarrow> nat \<Rightarrow> bool" where
  "access_valid sz opc \<longleftrightarrow> opc < 2 \<or> opc = 2 \<and> sz < 3 \<or> opc = 3 \<and> sz < 2"

text \<open>The addressing modes: a scaled offset, an offset of nine bits, the same written back before or after the access, a register.\<close>

datatype addressing = Scaled | Unscaled | Post | Pre | Indexed

definition addressing_of :: "u32 \<Rightarrow> addressing option" where
  "addressing_of insn = (if insn AND 0x3F000000 = 0x39000000 then Some Scaled
     else if insn AND 0x3F200C00 = 0x38000000 then Some Unscaled
     else if insn AND 0x3F200C00 = 0x38000400 then Some Post
     else if insn AND 0x3F200C00 = 0x38000C00 then Some Pre
     else if insn AND 0x3F204C00 = 0x38204800 then Some Indexed else None)"

definition offset_of :: "addressing \<Rightarrow> u32 \<Rightarrow> guest \<Rightarrow> u64" where
  "offset_of m insn g = (case m of Scaled \<Rightarrow> of_nat (fld insn 21 10 * 2 ^ fld insn 31 30)
     | Indexed \<Rightarrow> push_bit (if bit insn 12 then fld insn 31 30 else 0) (extend_reg (fld insn 15 13) (rx True (fld insn 20 16) g))
     | _ \<Rightarrow> signed_take_bit 8 (of_nat (fld insn 20 12)))"

definition address_of :: "addressing \<Rightarrow> u32 \<Rightarrow> guest \<Rightarrow> u64" where
  "address_of m insn g = rx False (fld insn 9 5) g + (if m = Post then 0 else offset_of m insn g)"

definition a64_load_store :: "addressing \<Rightarrow> u32 \<Rightarrow> guest \<Rightarrow> guest" where
  "a64_load_store m insn g = (let rn = fld insn 9 5; g' = a64_access (fld insn 31 30) (fld insn 23 22) (fld insn 4 0) (address_of m insn g) g in
     if m = Post \<or> m = Pre then wx False rn (rx False rn g + offset_of m insn g) g' else g')"

text \<open>Pairs. The mode is in bits 24 and 23: no write back (0 and 2), after (1), before (3).\<close>

definition pair_offset :: "u32 \<Rightarrow> u64" where
  "pair_offset insn = push_bit (if bit insn 31 then 3 else 2) (signed_take_bit 6 (ucast (INSN insn 21 15)))"

definition pair_address :: "u32 \<Rightarrow> guest \<Rightarrow> u64" where
  "pair_address insn g = rx False (fld insn 9 5) g + (if fld insn 24 23 = 1 then 0 else pair_offset insn)"

definition pair_opc :: "u32 \<Rightarrow> nat" where
  "pair_opc insn = (if \<not> bit insn 22 then 0 else if bit insn 30 then 2 else 1)"

definition a64_pair :: "u32 \<Rightarrow> guest \<Rightarrow> guest" where
  "a64_pair insn g = (let sz = if bit insn 31 then 3 else 2; opc = pair_opc insn; rn = fld insn 9 5; a = pair_address insn g;
       g' = a64_access sz opc (fld insn 14 10) (a + 2 ^ sz) (a64_access sz opc (fld insn 4 0) a g) in
     if bit insn 23 then wx False rn (rx False rn g + pair_offset insn) g' else g')"

definition pair_valid :: "u32 \<Rightarrow> bool" where
  "pair_valid insn \<longleftrightarrow> fld insn 31 30 < 3 \<and> (bit insn 30 \<longrightarrow> bit insn 22 \<and> fld insn 24 23 \<noteq> 0)"

definition a64_literal :: "u32 \<Rightarrow> guest \<Rightarrow> guest" where
  "a64_literal insn g = (let opc = fld insn 31 30 in
     a64_access (if opc = 1 then 3 else 2) (if opc = 2 then 2 else 1) (fld insn 4 0) (gPC g + branch_offset insn 23 5) g)"

section \<open>Decoding\<close>

definition followed :: "(guest \<Rightarrow> guest) \<Rightarrow> guest \<Rightarrow> guest" where
  "followed f g = (f g)\<lparr>gPC := gPC g + 4\<rparr>"

text \<open>Groups of instructions with the same first bits.\<close>

definition a64_immediate :: "u32 \<Rightarrow> (guest \<Rightarrow> guest) option" where
  "a64_immediate insn = (let sf = bit insn 31; fits = (\<lambda>k. sf \<or> k < 32) in
     if insn AND 0x1F000000 = 0x10000000 then Some (\<lambda>g. a64_adr insn (gPC g) g)
     else if insn AND 0x1F800000 = 0x11000000 then Some (a64_add_sub_imm insn)
     else if insn AND 0x1F800000 = 0x12000000 \<and> mask_valid sf (bit insn 22) (fld insn 15 10) then Some (a64_logical_imm insn)
     else if insn AND 0x1F800000 = 0x12800000 \<and> fld insn 30 29 \<noteq> 1 \<and> (sf \<or> fld insn 22 21 < 2) then Some (a64_move_wide insn)
     else if insn AND 0x1F800000 = 0x13000000 \<and> fld insn 30 29 \<noteq> 3 \<and> bit insn 22 = sf \<and> fits (fld insn 21 16) \<and> fits (fld insn 15 10) then Some (a64_bitfield insn)
     else if insn AND 0x7FA00000 = 0x13800000 \<and> bit insn 22 = sf \<and> fits (fld insn 15 10) then Some (a64_extr insn)
     else None)"

definition a64_register :: "u32 \<Rightarrow> (guest \<Rightarrow> guest) option" where
  "a64_register insn = (let sf = bit insn 31; fits = (\<lambda>k. sf \<or> k < 32) in
     if insn AND 0x1F000000 = 0x0A000000 \<and> fits (fld insn 15 10) then Some (a64_logical_shifted insn)
     else if insn AND 0x1F200000 = 0x0B000000 \<and> fld insn 23 22 \<noteq> 3 \<and> fits (fld insn 15 10) then Some (a64_add_sub_shifted insn)
     else if insn AND 0x1FE00000 = 0x0B200000 \<and> fld insn 12 10 \<le> 4 then Some (a64_add_sub_extended insn)
     else if insn AND 0x1FE0FC00 = 0x1A000000 then Some (a64_add_sub_carry insn)
     else if insn AND 0x3FE00410 = 0x3A400000 then Some (a64_ccmp insn)
     else if insn AND 0x3FE00800 = 0x1A800000 then Some (a64_csel insn)
     else if insn AND 0x7FFF0000 = 0x5AC00000 \<and> fld insn 15 10 < 6 \<and> (fld insn 15 10 = 3 \<longrightarrow> sf) then Some (a64_data_1 insn)
     else if insn AND 0x7FE00000 = 0x1AC00000 \<and> fld insn 15 10 \<in> {2, 3, 8, 9, 10, 11} then Some (a64_data_2 insn)
     else if insn AND 0x7F000000 = 0x1B000000 \<and> fld insn 23 21 \<in> {0, 1, 2, 5, 6} \<and> (fld insn 23 21 \<noteq> 0 \<longrightarrow> sf) \<and> (fld insn 23 21 \<in> {2, 6} \<longrightarrow> \<not> bit insn 15)
       then Some (a64_data_3 insn)
     else None)"

definition a64_memory :: "u32 \<Rightarrow> (guest \<Rightarrow> guest) option" where
  "a64_memory insn = (case addressing_of insn of
       Some m \<Rightarrow> if access_valid (fld insn 31 30) (fld insn 23 22) then Some (a64_load_store m insn) else None
     | None \<Rightarrow> if insn AND 0x3E000000 = 0x28000000 \<and> pair_valid insn then Some (a64_pair insn)
         else if insn AND 0x3F000000 = 0x18000000 \<and> fld insn 31 30 \<noteq> 3 then Some (a64_literal insn)
         else None)"

definition a64_branch :: "u32 \<Rightarrow> (guest \<Rightarrow> guest) option" where
  "a64_branch insn = (if insn AND 0x7C000000 = 0x14000000 then Some (a64_b insn)
     else if insn AND 0x7E000000 = 0x34000000 then Some (a64_cbz insn)
     else if insn AND 0x7E000000 = 0x36000000 then Some (a64_tbz insn)
     else if insn AND 0xFF000010 = 0x54000000 then Some (a64_b_cond insn)
     else if insn AND 0xFF9FFC1F = 0xD61F0000 \<and> fld insn 22 21 \<noteq> 3 then Some (a64_br insn)
     else None)"

text \<open>The memory a word reads or writes: addresses and lengths.\<close>

definition a64_touches :: "u32 \<Rightarrow> guest \<Rightarrow> (u64 \<times> nat) list" where
  "a64_touches insn g = (case addressing_of insn of Some m \<Rightarrow> [(address_of m insn g, 2 ^ fld insn 31 30)]
     | None \<Rightarrow> if insn AND 0x3E000000 = 0x28000000 then (let n = if bit insn 31 then 8 else 4 in [(pair_address insn g, n), (pair_address insn g + of_nat n, n)])
         else if insn AND 0x3F000000 = 0x18000000 then [(gPC g + branch_offset insn 23 5, if fld insn 31 30 = 1 then 8 else 4)]
         else [])"

text \<open>A step that falls through, and a step in general.\<close>

definition a64_straight :: "u32 \<Rightarrow> (guest \<Rightarrow> guest) option" where
  "a64_straight insn = (if insn = 0xD503201F then Some id
     else case a64_immediate insn of Some f \<Rightarrow> Some f
     | None \<Rightarrow> case a64_register insn of Some f \<Rightarrow> Some f | None \<Rightarrow> a64_memory insn)"

definition a64 :: "u32 \<Rightarrow> guest \<Rightarrow> guest option" where
  "a64 insn g = (case a64_branch insn of Some f \<Rightarrow> Some (f g) | None \<Rightarrow> map_option (\<lambda>f. followed f g) (a64_straight insn))"

text \<open>The steps of the guest from the address its program counter holds, up to a branch or \<open>n\<close> steps.\<close>

fun a64_block :: "(u64 \<Rightarrow> u32) \<Rightarrow> nat \<Rightarrow> guest \<Rightarrow> guest option" where
  "a64_block fetch 0 g = Some g"
| "a64_block fetch (Suc n) g = (case a64 (fetch (gPC g)) g of None \<Rightarrow> None
     | Some g' \<Rightarrow> if a64_branch (fetch (gPC g)) = None then a64_block fetch n g' else Some g')"

fun a64_steps :: "(u64 \<Rightarrow> u32) \<Rightarrow> nat \<Rightarrow> guest \<Rightarrow> guest option" where
  "a64_steps fetch 0 g = Some g"
| "a64_steps fetch (Suc n) g = Option.bind (a64 (fetch (gPC g)) g) (a64_steps fetch n)"

lemma a64_block_steps: "a64_block fetch n g = Some g' \<Longrightarrow> \<exists>k \<le> n. a64_steps fetch k g = Some g'"
proof (induction n arbitrary: g)
  case (Suc n)
  then obtain g1 where g1: "a64 (fetch (gPC g)) g = Some g1" by (auto split: option.splits)
  show ?case
  proof (cases "a64_branch (fetch (gPC g)) = None")
    case True
    with Suc g1 obtain k where "k \<le> n" "a64_steps fetch k g1 = Some g'" by auto
    with g1 show ?thesis by (intro exI [of _ "Suc k"]) simp
  next
    case False
    with Suc.prems g1 show ?thesis by (intro exI [of _ 1]) simp
  qed
qed (auto intro: exI [of _ 0])

end
