(* ===== verification/Arm64_Dis_Wp.thy ===== *)
theory Arm64_Dis_Wp
  imports Arm64_Spec
begin

text \<open>The effect of the sequences the instructions are made of, on the state of the guest.\<close>

declare wp_emit_op [wp_simps del] wp_emit_reg [wp_simps del] wp_bind [wp_simps del]

lemma cost_app: "cost p k \<Longrightarrow> app p"
  by (simp add: cost_def)

lemmas sequence_apps [app_simps] = cost_mk [THEN cost_app] cost_registers [THEN cost_app] cost_vector_registers [THEN cost_app]
  cost_flags [THEN cost_app] cost_helpers [THEN cost_app] cost_exits [THEN cost_app] cost_mk_exit [THEN cost_app]
  cost_parts [THEN cost_app] cost_conditional [THEN cost_app] cost_dirty [THEN cost_app] cost_rbit_steps [THEN cost_app]

lemma app_mk_call [app_simps]:
  "app (mk_call_void c name (mk_64 a) ps)" "app (mk_call_32 c name (mk_64 a) ps)" "app (mk_call_64 c name (mk_64 a) ps)"
  by (rule cost_app, (rule cost_intros)+)+

section \<open>Operations\<close>

lemma wp_mk [wp_simps]:
  "wp E ctx K (mk_8 b) Q L n st vals mem = Q n (Suc n) st (vals(n := ucast b)) mem"
  "wp E ctx K (mk_32 w) Q L n st vals mem = Q n (Suc n) st (vals(n := ucast w)) mem"
  "wp E ctx K (mk_64 v) Q L n st vals mem = Q n (Suc n) st (vals(n := v)) mem"
proof -
  have "trunc IR_REG_8 (ucast b) = (ucast b :: u64)" "trunc IR_REG_32 (ucast w) = (ucast w :: u64)" "trunc IR_REG_64 v = v"
    by (simp_all add: trunc_def unsigned_ucast_eq take_bit_word_eq_self unsigned_take_bit_eq [symmetric])
  then show "wp E ctx K (mk_8 b) Q L n st vals mem = Q n (Suc n) st (vals(n := ucast b)) mem"
    "wp E ctx K (mk_32 w) Q L n st vals mem = Q n (Suc n) st (vals(n := ucast w)) mem"
    "wp E ctx K (mk_64 v) Q L n st vals mem = Q n (Suc n) st (vals(n := v)) mem"
    by (simp_all add: mk_8_def mk_32_def mk_64_def wp_emit_reg)
qed

lemma wp_bind_fun [wp_simps]: "app p \<Longrightarrow> (\<And>r. app (f r)) \<Longrightarrow> wp E ctx K (p \<bind> f) Q L = wp E ctx K p (\<lambda>r. wp E ctx K (f r) Q L) L"
  by (simp add: fun_eq_iff wp_bind)

lemma wp_call [wp_simps]:
  "app p \<Longrightarrow> (\<And>a. app (f1 a)) \<Longrightarrow> wp E ctx K (call1 f1 p) Q L = wp E ctx K p (\<lambda>a. wp E ctx K (f1 a) Q L) L"
  "app p \<Longrightarrow> app q \<Longrightarrow> (\<And>a b. app (f2 a b)) \<Longrightarrow> wp E ctx K (call2 f2 p q) Q L =
     wp E ctx K p (\<lambda>a. wp E ctx K q (\<lambda>b. wp E ctx K (f2 a b) Q L) L) L"
  "app p \<Longrightarrow> app q \<Longrightarrow> app r \<Longrightarrow> (\<And>a b c. app (f3 a b c)) \<Longrightarrow> wp E ctx K (call3 f3 p q r) Q L =
     wp E ctx K p (\<lambda>a. wp E ctx K q (\<lambda>b. wp E ctx K r (\<lambda>c. wp E ctx K (f3 a b c) Q L) L) L) L"
  by (simp_all add: call1_def call2_def call3_def wp_bind_fun app_bind)

text \<open>Operations on registers.\<close>



lemma wp_binop [wp_simps]:
  "wp E ctx K (emit_reg (Add t x y)) Q L n st vals mem = Q n (Suc n) st (vals(n := trunc t (vals x + vals y))) mem"
  "wp E ctx K (emit_reg (Sub t x y)) Q L n st vals mem = Q n (Suc n) st (vals(n := trunc t (vals x - vals y))) mem"
  "wp E ctx K (emit_reg (Xor t x y)) Q L n st vals mem = Q n (Suc n) st (vals(n := trunc t (vals x XOR vals y))) mem"
  "wp E ctx K (emit_reg (And t x y)) Q L n st vals mem = Q n (Suc n) st (vals(n := trunc t (vals x AND vals y))) mem"
  "wp E ctx K (emit_reg (Or t x y)) Q L n st vals mem = Q n (Suc n) st (vals(n := trunc t (vals x OR vals y))) mem"
  "wp E ctx K (emit_reg (Shl t x y)) Q L n st vals mem = Q n (Suc n) st (vals(n := trunc t (push_bit (unat (vals y AND 63)) (vals x)))) mem"
  "wp E ctx K (emit_reg (Shr t x y)) Q L n st vals mem = Q n (Suc n) st (vals(n := trunc t (drop_bit (unat (vals y AND 63)) (vals x)))) mem"
  "wp E ctx K (emit_reg (Asr t x y)) Q L n st vals mem =
     Q n (Suc n) st (vals(n := trunc t (signed_drop_bit (unat (vals y AND 63)) (signed_take_bit (type_bits t - 1) (vals x))))) mem"
  "wp E ctx K (emit_reg (Ror t x y)) Q L n st vals mem = Q n (Suc n) st (vals(n := trunc t (rotr (type_bits t) (unat (vals y)) (vals x)))) mem"
  "wp E ctx K (emit_reg (Cmpeq t x y)) Q L n st vals mem = Q n (Suc n) st (vals(n := trunc t (if vals x = vals y then NOT 0 else 0))) mem"
  "wp E ctx K (emit_reg (Cmpne t x y)) Q L n st vals mem = Q n (Suc n) st (vals(n := trunc t (if vals x \<noteq> vals y then NOT 0 else 0))) mem"
  "wp E ctx K (emit_reg (Ite t p x y)) Q L n st vals mem = Q n (Suc n) st (vals(n := if vals p \<noteq> 0 then vals x else vals y)) mem"
  "wp E ctx K (emit_reg (Cast k x)) Q L n st vals mem = Q n (Suc n) st (vals(n := ir_cast k (vals x))) mem"
  by (simp_all add: wp_emit_reg ir_binop_def)

lemma wp_memory [wp_simps]:
  "wp E ctx K (emit_reg (Load t a)) Q L n st vals mem = Q n (Suc n) st (vals(n := read_mem mem (vals a) (type_bytes t))) mem"
  "wp E ctx K (emit_op (Store t s a)) Q' L n st vals mem = Q' () n st vals (write_mem mem (vals a) (type_bytes t) (vals s))"
  "wp E ctx K (emit_op (Exit v)) Q' L n st vals mem = L (vals v) (K v) mem"
  "wp E ctx K (emit_op (Exit_cond v (Some p))) Q' L n st vals mem = (if vals p = 0 then Q' () n st vals mem else L (vals v) (K v) mem)"
  "wp E ctx K (emit_op (Insn_marker w)) Q' L n st vals mem = Q' () n st vals mem"
  by (simp_all add: wp_emit_reg wp_emit_op)

lemma scast_off: "off < 0x80000000 \<Longrightarrow> scast (of_nat off :: 32 word) = (of_nat off :: u64)"
  by (simp add: signed_of_nat signed_take_bit_int_eq_self)

lemma wp_context [wp_simps]:
  "off < 0x80000000 \<Longrightarrow> wp E ctx K (emit_reg (Read_context t (of_nat off))) Q L n st vals mem =
     Q n (Suc n) st (vals(n := ctx_field ctx off (type_bytes t) mem)) mem"
  "off < 0x80000000 \<Longrightarrow> wp E ctx K (emit_op (Write_context t s (of_nat off))) Q' L n st vals mem =
     Q' () n st vals (set_field ctx off (type_bytes t) (vals s) mem)"
  by (simp_all add: wp_emit_reg wp_emit_op scast_off ctx_field_def set_field_def)

lemma trunc_simps [simp]: "trunc IR_REG_64 v = v" "trunc IR_REG_32 v = low32 v"
  by (simp_all add: trunc_def)

lemma cast_simps [simp]:
  "ir_cast IR_CAST_32U_TO_64 v = low32 v" "ir_cast IR_CAST_64_TO_32 v = low32 v" "ir_cast IR_CAST_64_TO_8 v = take_bit 8 v" "ir_cast IR_CAST_64_TO_16 v = take_bit 16 v"
  "ir_cast IR_CAST_32S_TO_64 v = signed_take_bit 31 v" "ir_cast IR_CAST_8U_TO_64 v = take_bit 8 v" "ir_cast IR_CAST_16U_TO_64 v = take_bit 16 v"
  "ir_cast IR_CAST_8S_TO_64 v = signed_take_bit 7 v" "ir_cast IR_CAST_16S_TO_64 v = signed_take_bit 15 v"
  "ir_cast IR_CAST_8S_TO_32 v = low32 (signed_take_bit 7 v)" "ir_cast IR_CAST_16S_TO_32 v = low32 (signed_take_bit 15 v)"
  by (simp_all add: ir_cast_def trunc_def)


section \<open>Registers of the guest\<close>

definition mem_x :: "u64 \<Rightarrow> bool \<Rightarrow> nat \<Rightarrow> u64 \<Rightarrow> memory \<Rightarrow> memory" where
  "mem_x ctx z i v m = (if i = 31 \<and> z then m else set_field ctx (off_r i) 8 v m)"

lemma guest_mem_x [simp]: "i < 32 \<Longrightarrow> guest ctx (mem_x ctx z i v m) = wx z i v (guest ctx m)"
  by (simp add: mem_x_def wx_def guest_set)

lemma off_r_bound: "i < 32 \<Longrightarrow> off_r i < 0x80000000"
  by (simp add: off_r_def)

lemma wp_registers [wp_simps]:
  "i < 32 \<Longrightarrow> wp E ctx K (read_x i z) Q L n st vals mem = Q n (Suc n) st (vals(n := rx z i (guest ctx mem))) mem"
  "i < 32 \<Longrightarrow> wp E ctx K (read_w i z) Q L n st vals mem = Q n (Suc n) st (vals(n := low32 (rx z i (guest ctx mem)))) mem"
  "i < 32 \<Longrightarrow> wp E ctx K (write_x i r z) Q' L n st vals mem = Q' () n st vals (mem_x ctx z i (vals r) mem)"
  by (simp_all add: read_x_def read_w_def write_x_def rx_def mem_x_def wp_simps off_r_bound field_low guest_get)

lemma wp_write_w [wp_simps]:
  "i < 32 \<Longrightarrow> wp E ctx K (write_w i r z) Q' L n st vals mem =
     (if i = 31 \<and> z then Q' () n st vals mem else Q' () (Suc n) st (vals(n := low32 (vals r))) (mem_x ctx z i (low32 (vals r)) mem))"
  "i < 32 \<Longrightarrow> wp E ctx K (write_w_sign_extend i r z) Q' L n st vals mem =
     (if i = 31 \<and> z then Q' () n st vals mem else Q' () (Suc n) st (vals(n := signed_take_bit 31 (vals r))) (mem_x ctx z i (signed_take_bit 31 (vals r)) mem))"
  by (simp_all add: write_w_def write_w_sign_extend_def mem_x_def wp_bind_fun app_simps wp_simps off_r_bound)

lemma wp_flags [wp_simps]:
  "wp E ctx K read_nzcv Q L n st vals mem = Q n (Suc n) st (vals(n := ucast (gNZCV (guest ctx mem)))) mem"
  "wp E ctx K (write_nzcv r) Q' L n st vals mem = Q' () n st vals (set_field ctx off_nzcv 4 (vals r) mem)"
  "wp E ctx K (write_pc r) Q' L n st vals mem = Q' () n st vals (set_field ctx off_pc 8 (vals r) mem)"
proof -
  have "off_nzcv < 0x80000000" "off_pc < 0x80000000" by (simp_all add: off_nzcv_def off_pc_def)
  then show "wp E ctx K read_nzcv Q L n st vals mem = Q n (Suc n) st (vals(n := ucast (gNZCV (guest ctx mem)))) mem"
    "wp E ctx K (write_nzcv r) Q' L n st vals mem = Q' () n st vals (set_field ctx off_nzcv 4 (vals r) mem)"
    "wp E ctx K (write_pc r) Q' L n st vals mem = Q' () n st vals (set_field ctx off_pc 8 (vals r) mem)"
    by (simp_all add: read_nzcv_def write_nzcv_def write_pc_def wp_context guest_get)
qed

declare guest_set [simp]

section \<open>Helpers\<close>

text \<open>
  What is behind the address of a helper: a function of the first \<open>k\<close> arguments that leaves the memory as it is. A result
  of 32 bits is what the low half of the host register holds.
\<close>

definition linked32 :: "xenv \<Rightarrow> u64 \<Rightarrow> nat \<Rightarrow> (u64 list \<Rightarrow> u32 option) \<Rightarrow> bool" where
  "linked32 E a k f \<longleftrightarrow> hlp_arity E a = k \<and> (\<forall>ctx args m r. f args = Some r \<longrightarrow>
     snd (hlp_fun E a ctx args m) = m \<and> low32 (fst (hlp_fun E a ctx args m)) = ucast r \<and> (hlp_extends E \<longrightarrow> fst (hlp_fun E a ctx args m) = ucast r))"

definition linked64 :: "xenv \<Rightarrow> u64 \<Rightarrow> nat \<Rightarrow> (u64 list \<Rightarrow> u64 option) \<Rightarrow> bool" where
  "linked64 E a k f \<longleftrightarrow> hlp_arity E a = k \<and> (\<forall>ctx args m r. f args = Some r \<longrightarrow> hlp_fun E a ctx args m = (r, m))"

definition mem_call :: "u64 \<Rightarrow> u64 \<Rightarrow> memory \<Rightarrow> memory" where
  "mem_call ctx pc m = set_field ctx off_helper_pc 8 0 (set_field ctx off_helper_pc 8 pc m)"

lemma guest_mem_call [simp]: "guest ctx (mem_call ctx pc m) = guest ctx m"
  by (simp add: mem_call_def)

lemma off_helper_pc_bound: "off_helper_pc < 0x80000000"
  by (simp add: off_helper_pc_def)

definition call_args :: "(nat \<Rightarrow> u64) \<Rightarrow> nat \<Rightarrow> nat option list \<Rightarrow> u64 list" where
  "call_args vals k ps = map (\<lambda>p. vals (the p)) (take k ps)"

lemma wp_mk_call_32:
  fixes vals :: "nat \<Rightarrow> u64" and n :: nat and a :: u64 and c :: dis_context and k :: nat and ps :: "nat option list" and f :: "u64 list \<Rightarrow> u32 option"
  defines "res \<equiv> f (call_args (vals(n := a, Suc n := ctx_pc c)) k ps)"
  assumes "linked32 E a k f" "k \<le> length ps" "None \<notin> set (take k ps)" "res \<noteq> None"
  shows "wp E ctx K (mk_call_32 c nm (mk_64 a) ps) Q L n st vals mem = Q (Suc (Suc n)) (Suc (Suc (Suc (Suc n)))) st
    (vals(n := a, Suc n := ctx_pc c, Suc (Suc n) := ucast (the res), Suc (Suc (Suc n)) := 0)) (mem_call ctx (ctx_pc c) mem)"
proof -
  obtain r where r: "res = Some r" using assms(5) by blast
  have l: "snd (hlp_fun E a ctx (call_args (vals(n := a, Suc n := ctx_pc c)) k ps) m) = m"
    "low32 (fst (hlp_fun E a ctx (call_args (vals(n := a, Suc n := ctx_pc c)) k ps) m)) = ucast r"
    "hlp_extends E \<longrightarrow> fst (hlp_fun E a ctx (call_args (vals(n := a, Suc n := ctx_pc c)) k ps) m) = ucast r" for m
    using assms(2) r unfolding linked32_def res_def by blast+
  obtain x where x: "hlp_fun E a ctx (call_args (vals(n := a, Suc n := ctx_pc c)) k ps) (set_field ctx off_helper_pc 8 (ctx_pc c) mem)
      = (x, set_field ctx off_helper_pc 8 (ctx_pc c) mem)" "low32 x = ucast r" "hlp_extends E \<longrightarrow> low32 x = x"
    using l [of "set_field ctx off_helper_pc 8 (ctx_pc c) mem"]
    by (cases "hlp_fun E a ctx (call_args (vals(n := a, Suc n := ctx_pc c)) k ps) (set_field ctx off_helper_pc 8 (ctx_pc c) mem)") auto
  have "hlp_arity E a = k" using assms(2) by (simp add: linked32_def)
  then show ?thesis using x assms(3,4) by (auto simp: r extended_def mk_call_32_def wp_bind_fun app_simps wp_mk wp_context off_helper_pc_bound wp_emit_reg wp_ret
      call_args_def mem_call_def Let_def)
qed

lemma wp_mk_call_64:
  fixes vals :: "nat \<Rightarrow> u64" and n :: nat and a :: u64 and c :: dis_context and k :: nat and ps :: "nat option list" and f :: "u64 list \<Rightarrow> u64 option"
  defines "res \<equiv> f (call_args (vals(n := a, Suc n := ctx_pc c)) k ps)"
  assumes "linked64 E a k f" "k \<le> length ps" "None \<notin> set (take k ps)" "res \<noteq> None"
  shows "wp E ctx K (mk_call_64 c nm (mk_64 a) ps) Q L n st vals mem = Q (Suc (Suc n)) (Suc (Suc (Suc (Suc n)))) st
    (vals(n := a, Suc n := ctx_pc c, Suc (Suc n) := the res, Suc (Suc (Suc n)) := 0)) (mem_call ctx (ctx_pc c) mem)"
proof -
  have x: "hlp_fun E a ctx (call_args (vals(n := a, Suc n := ctx_pc c)) k ps) m = (the res, m)" for m
    using assms(2,5) unfolding linked64_def res_def by (metis option.collapse)
  have "hlp_arity E a = k" using assms(2) by (simp add: linked64_def)
  then show ?thesis using x assms(3,4) by (simp add: extended_def mk_call_64_def wp_bind_fun app_simps wp_mk wp_context off_helper_pc_bound wp_emit_reg wp_ret
      call_args_def mem_call_def Let_def)
qed

end
