(* ===== verification/Arm64_Sem_Data.thy ===== *)
theory Arm64_Sem_Data
  imports Arm64_Dis_Wp
begin

text \<open>The data processing instructions: the code they are translated to does what the architecture says.\<close>

section \<open>Fields\<close>

lemma INSN_take: "msb - lsb < 31 \<Longrightarrow> INSN insn msb lsb = take_bit (msb - lsb + 1) (drop_bit lsb insn)"
  by (simp add: INSN_def take_bit_eq_mask mask_eq_exp_minus_1 push_bit_eq_mult)

lemma fld_bound [simp]:
  "fld insn 4 0 < 32" "fld insn 9 5 < 32" "fld insn 20 16 < 32" "fld insn 14 10 < 32"
  using INSN_bound [of 4 0 insn] INSN_bound [of 9 5 insn] INSN_bound [of 20 16 insn] INSN_bound [of 14 10 insn] by simp_all

lemma bit_INSN: "msb - lsb < 31 \<Longrightarrow> bit (INSN insn msb lsb) k = (k \<le> msb - lsb \<and> bit insn (lsb + k))"
  by (auto simp: INSN_take bit_simps dest: bit_imp_le_length)

lemma flag_bit: "k < 32 \<Longrightarrow> flag insn k = bit insn k"
proof -
  have "INSN insn k k = of_bool (bit insn k)" by (rule bit_word_eqI) (auto simp: bit_INSN bit_simps)
  then show "flag insn k = bit insn k" by simp
qed

lemma flag_bits_insn [simp]: "flag insn 31 = bit insn 31" "flag insn 30 = bit insn 30" "flag insn 29 = bit insn 29" "flag insn 22 = bit insn 22"
    "flag insn 21 = bit insn 21" "flag insn 28 = bit insn 28" "flag insn 24 = bit insn 24" "flag insn 25 = bit insn 25" "flag insn 11 = bit insn 11" "flag insn 12 = bit insn 12"
  by (simp_all add: flag_bit)

lemma sext_signed: "n < 64 \<Longrightarrow> sext n x = signed_take_bit (63 - n) x"
proof -
  have e: "k = 63 - n" if "\<not> 64 - n \<le> k" "63 - n \<le> k" for k :: nat using that by simp
  assume "n < 64"
  then show ?thesis unfolding sext_def by (intro bit_word_eqI) (auto simp: bit_simps min_def dest: e)
qed

lemma ucast_down_up [simp]: "ucast (ucast (v :: u64) :: u32) = low32 v"
  by (rule bit_word_eqI) (auto simp: bit_simps)

lemma ucast_up_down [simp]: "ucast (ucast (w :: u32) :: u64) = w"
  by (rule bit_word_eqI) (auto simp: bit_simps)

lemma reg_simps [simp]: "ZERO_REG" "\<not> SP_REG"
  by (simp_all add: ZERO_REG_def SP_REG_def)

section \<open>Effects\<close>

definition effect :: "xenv \<Rightarrow> u64 \<Rightarrow> (nat \<Rightarrow> bool) \<Rightarrow> bool dis \<Rightarrow> (guest \<Rightarrow> guest) \<Rightarrow> bool" where
  "effect E ctx K p f \<longleftrightarrow> (\<forall>n st vals mem.
     wp E ctx K p (\<lambda>r n' st' vals' mem'. \<not> r \<and> st' = st \<and> guest ctx mem' = f (guest ctx mem)) (\<lambda>_ _ _. False) n st vals mem)"


text \<open>The helpers the translated code calls are the ones of \<open>arm64_helpers.c\<close>.\<close>

definition helpers_linked :: "xenv \<Rightarrow> (string \<Rightarrow> u64) \<Rightarrow> bool" where
  "helpers_linked E hlp \<longleftrightarrow>
     linked32 E (hlp ''arm64_hlp_compute_next_nzcv_64'') 4 (\<lambda>as. arm64_hlp_compute_next_nzcv_64 (ucast (as ! 0)) (as ! 1) (as ! 2) (ucast (as ! 3))) \<and>
     linked32 E (hlp ''arm64_hlp_compute_next_nzcv_32'') 4 (\<lambda>as. arm64_hlp_compute_next_nzcv_32 (ucast (as ! 0)) (ucast (as ! 1)) (ucast (as ! 2)) (ucast (as ! 3))) \<and>
     linked32 E (hlp ''arm64_hlp_compute_flags_pred'') 2 (\<lambda>as. arm64_hlp_compute_flags_pred (ucast (as ! 0)) (ucast (as ! 1))) \<and>
     linked64 E (hlp ''arm64_hlp_compute_bitfield'') 3 (\<lambda>as. arm64_hlp_compute_bitfield (ucast (as ! 0)) (as ! 1) (as ! 2)) \<and>
     linked32 E (hlp ''arm64_hlp_udiv_32'') 2 (\<lambda>as. Some (arm64_hlp_udiv_32 (ucast (as ! 0)) (ucast (as ! 1)))) \<and>
     linked32 E (hlp ''arm64_hlp_sdiv_32'') 2 (\<lambda>as. Some (arm64_hlp_sdiv_32 (ucast (as ! 0)) (ucast (as ! 1)))) \<and>
     linked64 E (hlp ''arm64_hlp_umul_lsb_64'') 2 (\<lambda>as. Some (arm64_hlp_umul_lsb_64 (as ! 0) (as ! 1))) \<and>
     linked32 E (hlp ''arm64_hlp_umul_lsb_32'') 2 (\<lambda>as. Some (arm64_hlp_umul_lsb_32 (ucast (as ! 0)) (ucast (as ! 1)))) \<and>
     linked64 E (hlp ''arm64_hlp_umul_msb_64'') 2 (\<lambda>as. Some (arm64_hlp_umul_msb_64 (as ! 0) (as ! 1))) \<and>
     linked64 E (hlp ''arm64_hlp_smul_msb_64'') 2 (\<lambda>as. Some (arm64_hlp_smul_msb_64 (as ! 0) (as ! 1))) \<and>
     linked64 E (hlp ''arm64_hlp_smul_lsb_64'') 2 (\<lambda>as. Some (arm64_hlp_smul_lsb_64 (as ! 0) (as ! 1))) \<and>
     linked64 E (hlp ''arm64_hlp_clz'') 2 (\<lambda>as. Some (arm64_hlp_clz (as ! 0) (ucast (as ! 1)))) \<and>
     linked64 E (hlp ''arm64_hlp_cls'') 2 (\<lambda>as. Some (arm64_hlp_cls (as ! 0) (ucast (as ! 1))))"

lemma ops_number_of [simp]: "ops_of (ops_number k) = Some k"
  by (cases k) (simp_all add: ops_of_def ops_number_def)

lemma wp_next_nzcv [wp_simps]:
  fixes mem :: memory and vals :: "nat \<Rightarrow> u64" and n :: nat and k :: ops and ctx :: u64 and c :: dis_context
  assumes "helpers_linked E (hlp_addr c)" "x < n" "y < n"
  defines "vals' \<equiv> (\<lambda>a r. vals(n := ucast (ops_number k), Suc n := ucast (gNZCV (guest ctx mem)), Suc (Suc n) := a,
      Suc (Suc (Suc n)) := ctx_pc c, Suc (Suc (Suc (Suc n))) := ucast r, Suc (Suc (Suc (Suc (Suc n)))) := (0 :: u64)))"
  shows
    "wp E ctx K (mk_next_nzcv_64 c k x y) Q L n st vals mem = Q (Suc (Suc (Suc (Suc n)))) (Suc (Suc (Suc (Suc (Suc (Suc n)))))) st
      (vals' (hlp_addr c ''arm64_hlp_compute_next_nzcv_64'') (flags_of k (vals x) (vals y) (gNZCV (guest ctx mem)))) (mem_call ctx (ctx_pc c) mem)"
    "wp E ctx K (mk_next_nzcv_32 c k x y) Q L n st vals mem = Q (Suc (Suc (Suc (Suc n)))) (Suc (Suc (Suc (Suc (Suc (Suc n)))))) st
      (vals' (hlp_addr c ''arm64_hlp_compute_next_nzcv_32'') (flags_of k (ucast (vals x) :: u32) (ucast (vals y)) (gNZCV (guest ctx mem)))) (mem_call ctx (ctx_pc c) mem)"
proof -
  have ne: "x \<noteq> n" "x \<noteq> Suc n" "x \<noteq> Suc (Suc n)" "x \<noteq> Suc (Suc (Suc n))" "y \<noteq> n" "y \<noteq> Suc n" "y \<noteq> Suc (Suc n)" "y \<noteq> Suc (Suc (Suc n))"
    using assms(2,3) by auto
  have l: "linked32 E (hlp_addr c ''arm64_hlp_compute_next_nzcv_64'') 4 (\<lambda>as. arm64_hlp_compute_next_nzcv_64 (ucast (as ! 0)) (as ! 1) (as ! 2) (ucast (as ! 3)))"
    "linked32 E (hlp_addr c ''arm64_hlp_compute_next_nzcv_32'') 4 (\<lambda>as. arm64_hlp_compute_next_nzcv_32 (ucast (as ! 0)) (ucast (as ! 1)) (ucast (as ! 2)) (ucast (as ! 3)))"
    using assms(1) by (simp_all add: helpers_linked_def)
  show "wp E ctx K (mk_next_nzcv_64 c k x y) Q L n st vals mem = Q (Suc (Suc (Suc (Suc n)))) (Suc (Suc (Suc (Suc (Suc (Suc n)))))) st
      (vals' (hlp_addr c ''arm64_hlp_compute_next_nzcv_64'') (flags_of k (vals x) (vals y) (gNZCV (guest ctx mem)))) (mem_call ctx (ctx_pc c) mem)"
    "wp E ctx K (mk_next_nzcv_32 c k x y) Q L n st vals mem = Q (Suc (Suc (Suc (Suc n)))) (Suc (Suc (Suc (Suc (Suc (Suc n)))))) st
      (vals' (hlp_addr c ''arm64_hlp_compute_next_nzcv_32'') (flags_of k (ucast (vals x) :: u32) (ucast (vals y)) (gNZCV (guest ctx mem)))) (mem_call ctx (ctx_pc c) mem)"
    by (simp_all add: mk_next_nzcv_64_def mk_next_nzcv_32_def wp_simps app_simps wp_mk_call_32 [OF l(1)] wp_mk_call_32 [OF l(2)] call_args_def
        next_nzcv_64 next_nzcv_32 ne vals'_def)
qed

section \<open>Immediates\<close>


lemma adr_value: "ucast (push_bit 2 (INSN insn 23 5) + INSN insn 30 29) = (of_nat (4 * fld insn 23 5 + fld insn 30 29) :: u64)"
proof -
  have "unat (push_bit 2 (INSN insn 23 5) + INSN insn 30 29) = 4 * fld insn 23 5 + fld insn 30 29"
    using INSN_bound [of 23 5 insn] INSN_bound [of 30 29 insn] by (simp add: push_bit_eq_mult unat_word_ariths)
  from arg_cong [OF this, of "of_nat :: nat \<Rightarrow> u64"] show ?thesis by simp
qed

lemma adr_effect: "\<not> bit insn 31 \<Longrightarrow> effect E ctx K (dis_adr c insn) (a64_adr insn (ctx_pc c))"
  unfolding effect_def dis_adr_def a64_adr_def Let_def by (simp add: wp_simps app_simps sext_signed adr_value)

lemma adrp_value: "sext 31 (push_bit 14 (ucast (INSN insn 23 5)) + ucast (push_bit 12 (INSN insn 30 29))) =
   push_bit 12 (signed_take_bit 20 (of_nat (4 * fld insn 23 5 + fld insn 30 29) :: u64))"
proof -
  have "unat (push_bit 12 (INSN insn 30 29)) = 4096 * fld insn 30 29"
    using INSN_bound [of 30 29 insn] by (simp add: push_bit_eq_mult unat_word_ariths)
  from arg_cong [OF this, of "of_nat :: nat \<Rightarrow> u64"]
  have "push_bit 14 (ucast (INSN insn 23 5)) + ucast (push_bit 12 (INSN insn 30 29)) = push_bit 12 (of_nat (4 * fld insn 23 5 + fld insn 30 29) :: u64)"
    by (simp add: push_bit_eq_mult algebra_simps)
  moreover have "signed_take_bit 32 (push_bit 12 x) = push_bit 12 (signed_take_bit 20 x)" for x :: u64
    by (rule bit_word_eqI) (auto simp: bit_simps min_def)
  ultimately show ?thesis by (simp add: sext_signed del: of_nat_add of_nat_mult)
qed

lemma adrp_effect: "bit insn 31 \<Longrightarrow> effect E ctx K (dis_adrp c insn) (a64_adr insn (ctx_pc c))"
  unfolding effect_def dis_adrp_def a64_adr_def Let_def adrp_value by (simp add: wp_simps app_simps del: of_nat_add of_nat_mult)

lemma mov_effect:
  "fld insn 30 29 = 0 \<Longrightarrow> effect E ctx K (dis_movn c insn) (a64_move_wide insn)"
  "fld insn 30 29 = 2 \<Longrightarrow> effect E ctx K (dis_movz c insn) (a64_move_wide insn)"
  "fld insn 30 29 = 3 \<Longrightarrow> effect E ctx K (dis_movk c insn) (a64_move_wide insn)"
  unfolding effect_def dis_movn_def dis_movz_def dis_movk_def a64_move_wide_def trn_def Let_def by (simp_all add: wp_simps app_simps)

lemma ucast_not [simp]: "(ucast (NOT (v :: u64)) :: u32) = NOT (ucast v)"
  by (rule bit_word_eqI) (auto simp: bit_simps)

lemma wp_add_sub:
  assumes "helpers_linked E (hlp_addr c)" "x < n" "y < n" "trn (bit insn 31) (vals x) = vals x" "trn (bit insn 31) (vals y) = vals y"
    "\<And>n' vals' mem'. guest ctx mem' = a64_add_sub insn z (vals x) (vals y) (guest ctx mem) \<Longrightarrow> Q False n' st vals' mem'"
  shows "wp E ctx K (dis_add_sub c insn x y z) Q L n st vals mem"
proof -
  have "x \<noteq> n" "y \<noteq> n" "x < Suc n" "y < Suc n" using assms(2,3) by auto
  with assms show ?thesis unfolding dis_add_sub_def Let_def
    by (cases "bit insn 31"; cases "bit insn 30"; cases "bit insn 29"; cases "fld insn 4 0 = 31"; cases z)
      (simp_all add: wp_simps app_simps a64_add_sub_def a64_sum_def trn_def flags_of_def sum_flags_def sub_as_add)
qed


lemma low32_cong: "low32 x = low32 x' \<Longrightarrow> (ucast x :: u32) = ucast x'" "low32 x = low32 x' \<Longrightarrow> low32 y = low32 y' \<Longrightarrow> low32 (x + y) = low32 (x' + y')"
  "low32 x = low32 x' \<Longrightarrow> low32 (NOT x) = low32 (NOT x')"
proof -
  show "low32 x = low32 x' \<Longrightarrow> (ucast x :: u32) = ucast x'" by (metis ucast_low)
  show "low32 x = low32 x' \<Longrightarrow> low32 y = low32 y' \<Longrightarrow> low32 (x + y) = low32 (x' + y')" by (metis take_bit_add_word)
  show "low32 x = low32 x' \<Longrightarrow> low32 (NOT x) = low32 (NOT x')" by (metis take_bit_not_iff)
qed

lemma a64_sum_cong:
  assumes "trn (bit insn 31) x = trn (bit insn 31) x'" "trn (bit insn 31) y = trn (bit insn 31) y'"
  shows "a64_sum insn z x y c = a64_sum insn z x' y' c"
proof (cases "bit insn 31")
  case False
  then have "low32 x = low32 x'" "low32 y = low32 y'" using assms by (simp_all add: trn_def)
  then show ?thesis using False low32_cong(1) [of x x'] low32_cong(1) [of y y'] low32_cong(2) [of "x + y" "x' + y'" "of_bool c" "of_bool c"] low32_cong(2) [of x x' y y']
    by (simp add: a64_sum_def sum_flags_def trn_def fun_eq_iff Let_def)
qed (use assms in \<open>simp add: trn_def\<close>)

lemma a64_add_sub_cong:
  assumes "trn (bit insn 31) x = trn (bit insn 31) x'" "trn (bit insn 31) y = trn (bit insn 31) y'"
  shows "a64_add_sub insn z x y = a64_add_sub insn z x' y'"
proof -
  have "trn (bit insn 31) (NOT y) = trn (bit insn 31) (NOT y')" using assms(2) low32_cong(3) [of y y'] by (simp add: trn_def split: if_splits)
  then show ?thesis using a64_sum_cong [OF assms] a64_sum_cong [OF assms(1), of "NOT y" "NOT y'"] by (simp add: a64_add_sub_def)
qed

lemma trn_trn [simp]: "trn sf (trn sf v) = trn sf v"
  by (simp add: trn_def)

lemma add_sub_imm_value: "of_nat (fld insn 21 10 * 4096) = (ucast (push_bit 12 (INSN insn 21 10)) :: u64)" "low32 (ucast (w :: u32)) = (ucast w :: u64)"
proof -
  have "unat (push_bit 12 (INSN insn 21 10)) = fld insn 21 10 * 4096" using INSN_bound [of 21 10 insn] by (simp add: push_bit_eq_mult unat_word_ariths)
  from arg_cong [OF this, of "of_nat :: nat \<Rightarrow> u64"] show "of_nat (fld insn 21 10 * 4096) = (ucast (push_bit 12 (INSN insn 21 10)) :: u64)" by simp
  show "low32 (ucast (w :: u32)) = (ucast w :: u64)" by (rule bit_word_eqI) (auto simp: bit_simps dest: bit_imp_le_length)
qed

lemma add_sub_imm_effect:
  assumes "helpers_linked E (hlp_addr c)" "fld insn 23 22 < 2"
  shows "effect E ctx K (dis_add_sub_immediate_insn c insn) (a64_add_sub_imm insn)"
proof -
  let ?imm = "if fld insn 23 22 = 1 then push_bit 12 (INSN insn 21 10) else INSN insn 21 10"
  have imm: "of_nat (fld insn 21 10 * (if fld insn 23 22 = 1 then 4096 else 1)) = (ucast ?imm :: u64)"
    using add_sub_imm_value(1) [of insn] by simp
  have "a64_add_sub insn False (trn (bit insn 31) (rx False (fld insn 9 5) g)) (ucast ?imm) g = a64_add_sub_imm insn g" for g
    unfolding a64_add_sub_imm_def imm by (rule fun_cong [OF a64_add_sub_cong]) simp_all
  then show ?thesis unfolding effect_def dis_add_sub_immediate_insn_def Let_def using assms(2)
    by (cases "bit insn 31") (auto simp: wp_simps app_simps trn_def add_sub_imm_value(2) intro!: wp_add_sub [OF assms(1)])
qed

section \<open>Registers\<close>

lemma mask_6: "(63 :: u64) = mask 6"
  by (simp add: mask_eq_exp_minus_1)

lemma shift_amount [simp]: "k < 64 \<Longrightarrow> unat ((ucast (word_of_nat k :: u8) :: u64) AND 63) = k" "k < 64 \<Longrightarrow> unat (ucast (word_of_nat k :: u8) :: u64) = k"
proof -
  assume k: "k < 64"
  have u: "(ucast (word_of_nat k :: u8) :: u64) = word_of_nat k" using k by (simp add: word_of_nat_eq_iff unsigned_of_nat take_bit_nat_eq_self)
  have v: "unat (word_of_nat k :: u64) = k" using k by (simp add: unat_of_nat)
  show "unat (ucast (word_of_nat k :: u8) :: u64) = k" by (simp only: u v)
  have "take_bit 6 k = k" using k by (simp add: take_bit_nat_eq_self)
  then show "unat ((ucast (word_of_nat k :: u8) :: u64) AND 63) = k"
    unfolding u mask_6 take_bit_eq_mask [symmetric] by (simp only: unsigned_take_bit_eq v)
qed

lemma fld_bound6 [simp]: "fld insn 15 10 < 64" "fld insn 21 16 < 64" "fld insn 15 13 < 8" "fld insn 12 10 < 8" "fld insn 23 22 < 4" "fld insn 30 29 < 4" "fld insn 15 12 < 16"
  using INSN_bound [of 15 10 insn] INSN_bound [of 21 16 insn] INSN_bound [of 15 13 insn] INSN_bound [of 12 10 insn] INSN_bound [of 23 22 insn]
    INSN_bound [of 30 29 insn] INSN_bound [of 15 12 insn] by simp_all

lemma of_nat_unat_word: "word_of_nat (unat (w :: 'a::len word)) = (ucast w :: 'b::len word)"
  by simp

lemma field_amount [simp]:
  "unat (w :: u32) < 64 \<Longrightarrow> unat ((ucast (ucast w :: u8) :: u64) AND 63) = unat w" "unat (w :: u32) < 64 \<Longrightarrow> unat (ucast (ucast w :: u8) :: u64) = unat w"
  using shift_amount [of "unat w"] by (simp_all only: of_nat_unat_word)

lemma low32_signed_take [simp]: "low32 (signed_take_bit 31 v) = low32 v"
proof (rule bit_word_eqI)
  fix n
  show "bit (low32 (signed_take_bit 31 v)) n = bit (low32 v) n" by (cases "n = 31") (auto simp: bit_simps min_def)
qed

lemma low32_drop: "low32 (drop_bit k (low32 v)) = drop_bit k (low32 v)"
  by (rule bit_word_eqI) (auto simp: bit_simps)

lemma low32_push: "low32 (push_bit k (low32 v)) = low32 (push_bit k v)"
  by (rule bit_word_eqI) (auto simp: bit_simps)

lemma signed_take_low: "signed_take_bit 31 (low32 v) = signed_take_bit 31 v"
  by (rule bit_word_eqI) (auto simp: bit_simps min_def)

lemma rotr_trn: "trn sf (rotr (size_of sf) k v) = rotr (size_of sf) k v" "rotr 32 k (low32 v) = rotr 32 k v"
  by (auto simp: rotr_def trn_def Let_def)

lemma shift_reg_0 [simp]: "kind < 4 \<Longrightarrow> shift_reg sf kind 0 v = trn sf v"
proof -
  have "low32 v OR low32 (push_bit 32 (low32 v)) = low32 v" "v OR push_bit 64 v = v" by (rule bit_word_eqI, auto simp: bit_simps)+
  then show "kind < 4 \<Longrightarrow> shift_reg sf kind 0 v = trn sf v" by (auto simp: shift_reg_def trn_def rotr_def Let_def)
qed

lemma trn_shift_reg: "trn sf (shift_reg sf kind k v) = shift_reg sf kind k v"
  by (auto simp: shift_reg_def trn_def low32_drop rotr_def Let_def)

lemma add_sub_shifted_effect:
  assumes "helpers_linked E (hlp_addr c)" "fld insn 23 22 \<noteq> 3" "bit insn 31 \<or> fld insn 15 10 < 32"
  shows "effect E ctx K (dis_add_sub_shifted_register_insn c insn) (a64_add_sub_shifted insn)"
proof -
  let ?y = "\<lambda>g. shift_reg (bit insn 31) (fld insn 23 22) (fld insn 15 10) (rx True (fld insn 20 16) g)"
  have e: "a64_add_sub insn True (trn (bit insn 31) (rx True (fld insn 9 5) g)) (?y g) g = a64_add_sub_shifted insn g" for g
    unfolding a64_add_sub_shifted_def by (rule fun_cong [OF a64_add_sub_cong]) simp_all
  have "fld insn 23 22 = 0 \<or> fld insn 23 22 = 1 \<or> fld insn 23 22 = 2" using assms(2) fld_bound6(5) [of insn] by linarith
  with assms(2,3) show ?thesis unfolding effect_def dis_add_sub_shifted_register_insn_def Let_def e [symmetric]
    by (cases "bit insn 31"; cases "fld insn 15 10 = 0")
     (auto simp: wp_simps app_simps shift_reg_def trn_def low32_drop low32_push signed_take_low signed_take_bit_63 intro!: wp_add_sub [OF assms(1)])
qed

lemma shl_asr_64: "k < 64 \<Longrightarrow> signed_drop_bit k (push_bit k (v :: u64)) = signed_take_bit (63 - k) v"
  using sext_signed [of k v] by (simp add: sext_def)

lemma shl_asr_32: "k < 32 \<Longrightarrow> low32 (signed_drop_bit k (signed_take_bit 31 (push_bit k v))) = low32 (signed_take_bit (31 - k) v)"
proof (rule bit_word_eqI)
  fix i
  assume "k < 32"
  then show "bit (low32 (signed_drop_bit k (signed_take_bit 31 (push_bit k v)))) i = bit (low32 (signed_take_bit (31 - k) v)) i"
    by (cases "i + k = 31") (auto simp: bit_simps min_def add.commute)
qed

lemma option_cases: "k < 8 \<Longrightarrow> k = 0 \<or> k = 1 \<or> k = 2 \<or> k = 3 \<or> k = 4 \<or> k = 5 \<or> k = 6 \<or> k = (7 :: nat)"
  by auto

lemma and_masks: "(v :: u64) AND 0xff = take_bit 8 v" "v AND 0xffff = take_bit 16 v" "v AND 0xffffffff = low32 v" "v AND 63 = take_bit 6 v" "v AND 31 = take_bit 5 v"
proof -
  have "(0xff :: u64) = mask 8" "(0xffff :: u64) = mask 16" "(0xffffffff :: u64) = mask 32" "(63 :: u64) = mask 6" "(31 :: u64) = mask 5"
    by (simp_all add: mask_eq_exp_minus_1)
  then show "(v :: u64) AND 0xff = take_bit 8 v" "v AND 0xffff = take_bit 16 v" "v AND 0xffffffff = low32 v" "v AND 63 = take_bit 6 v" "v AND 31 = take_bit 5 v"
    by (simp_all only: take_bit_eq_mask)
qed

text \<open>An operand: the registers before are kept.\<close>

definition operand :: "(nat \<Rightarrow> nat \<Rightarrow> bool \<Rightarrow> (nat \<Rightarrow> u64) \<Rightarrow> memory \<Rightarrow> bool) \<Rightarrow> nat \<Rightarrow> bool \<Rightarrow> (nat \<Rightarrow> u64) \<Rightarrow> memory \<Rightarrow> u64 \<Rightarrow> bool" where
  "operand Q n st vals mem v \<longleftrightarrow> (\<forall>n' vals' r. vals' r = v \<longrightarrow> r < n' \<longrightarrow> (\<forall>q < n. vals' q = vals q) \<longrightarrow> n \<le> n' \<longrightarrow> Q r n' st vals' mem)"

lemma wp_extend_64:
  assumes "i < 32" "option < 8" "s < 8" "operand Q n st vals mem (push_bit s (extend_reg option (rx True i (guest ctx mem))))"
  shows "wp E ctx K (mk_extend_reg_64 i option s) Q L n st vals mem"
  using assms option_cases [of option] unfolding mk_extend_reg_64_def operand_def
  by (cases "s = 0") (auto simp: wp_simps app_simps extend_reg_def shl_asr_64 signed_take_bit_63 and_masks(1-3))

lemma low32_take [simp]: "n \<le> 32 \<Longrightarrow> low32 (take_bit n v) = take_bit n v" "n \<le> 32 \<Longrightarrow> take_bit n (low32 v) = take_bit n v"
  by (simp_all add: min_def)

lemma wp_extend_32:
  assumes "i < 32" "option < 8" "s < 8" "operand Q n st vals mem (low32 (push_bit s (extend_reg option (rx True i (guest ctx mem)))))"
  shows "wp E ctx K (mk_extend_reg_32 i option s) Q L n st vals mem"
proof -
  let ?x = "rx True i (guest ctx mem)"
  have e: "low32 (extend_reg option ?x) = (if option = 0 then take_bit 8 ?x else if option = 1 then take_bit 16 ?x else if option = 4 then low32 (signed_take_bit 7 ?x)
      else if option = 5 then low32 (signed_take_bit 15 ?x) else low32 ?x)"
    using option_cases [OF assms(2)] by (auto simp: extend_reg_def signed_take_bit_63)
  have "operand Q n st vals mem (low32 (push_bit s (low32 (extend_reg option ?x))))" using assms(4) by (simp add: low32_push)
  with assms(1,3) option_cases [OF assms(2)] show ?thesis unfolding mk_extend_reg_32_def operand_def e
    by (cases "s = 0") (auto simp: wp_simps app_simps and_masks(1-3) low32_push signed_take_low shl_asr_32)
qed

lemma add_sub_extended_effect:
  assumes "helpers_linked E (hlp_addr c)"
  shows "effect E ctx K (dis_add_sub_extended_register_insn c insn) (a64_add_sub_extended insn)"
proof -
  have "a64_add_sub insn False (trn (bit insn 31) (rx False (fld insn 9 5) g)) (trn (bit insn 31) (push_bit (fld insn 12 10) (extend_reg (fld insn 15 13) (rx True (fld insn 20 16) g)))) g
      = a64_add_sub_extended insn g" for g
    unfolding a64_add_sub_extended_def by (rule fun_cong [OF a64_add_sub_cong]) simp_all
  note e = this [symmetric]
  show ?thesis unfolding effect_def dis_add_sub_extended_register_insn_def Let_def e
    apply (cases "bit insn 31"; simp add: wp_simps app_simps trn_def; intro allI)
     apply (rule wp_extend_64; simp?; unfold operand_def; intro allI impI; rule wp_add_sub [OF assms]; simp add: trn_def)
    apply (rule wp_extend_32; simp?; unfold operand_def; intro allI impI; rule wp_add_sub [OF assms]; simp add: trn_def)
    done
qed

lemma low32_add: "low32 (low32 x + y) = low32 (x + y)" "low32 (x + low32 y) = low32 (x + y)"
  using low32_cong(2) [of "low32 x" x y y] low32_cong(2) [of x x "low32 y" y] by simp_all

lemma low32_add_nested: "low32 (x + (low32 y + z)) = low32 (x + (y + z))" "low32 (low32 x + (y + z)) = low32 (x + (y + z))"
  using low32_add(2) [of x "low32 y + z"] low32_add(2) [of x "y + z"] by (simp_all add: low32_add)

lemma carry_in: "low32 (drop_bit 29 (ucast (w :: u32))) AND 1 = (of_bool (bit w 29) :: u64)"
  by (rule bit_word_eqI) (auto simp: bit_simps)

lemma low32_not_0: "low32 (ucast (NOT (0 :: u32))) = low32 (NOT 0 :: u64)" "(ucast (- 1 :: u32) :: u64) = low32 (- 1)" "x XOR low32 (- 1) = x XOR low32 (NOT 0 :: u64)"
  by (rule bit_word_eqI, auto simp: bit_simps)+

lemma xor_ones: "low32 x XOR mask 32 = low32 (NOT x)" "(x :: u64) XOR - 1 = NOT x" "low32 (x XOR low32 (- 1)) = low32 (NOT x)" "low32 x XOR low32 (- 1) = low32 (NOT x)"
  by (rule bit_word_eqI, auto simp: bit_simps)+

lemma add_sub_carry_effect:
  assumes "helpers_linked E (hlp_addr c)"
  shows "effect E ctx K (dis_add_substract_with_carry c insn) (a64_add_sub_carry insn)"
proof -
  have "a64_sum insn True (trn (bit insn 31) (rx True (fld insn 9 5) g)) (trn (bit insn 31) (if bit insn 30 then NOT (rx True (fld insn 20 16) g) else rx True (fld insn 20 16) g)) (bit (gNZCV g) 29) g
      = a64_add_sub_carry insn g" for g
    unfolding a64_add_sub_carry_def Let_def by (rule fun_cong [OF a64_sum_cong]) simp_all
  note e = this [symmetric]
  show ?thesis unfolding effect_def dis_add_substract_with_carry_def Let_def e a64_sum_def using assms
    by (cases "bit insn 31"; cases "bit insn 30"; cases "bit insn 29"; cases "fld insn 4 0 = 31")
      (simp_all add: wp_simps app_simps trn_def carry_in low32_add low32_add_nested add.assoc xor_ones low32_not_0 sum_flags_def flags_of_def)
qed

end
