(* ===== verification/Arm64_Sem_Logic.thy ===== *)
theory Arm64_Sem_Logic
  imports Arm64_Sem_Data
begin

text \<open>Logical operations, bit fields, and the operations with one to three sources.\<close>

lemma wp_bindI: "app p \<Longrightarrow> (\<And>r. app (f r)) \<Longrightarrow> wp E ctx K p (\<lambda>r. wp E ctx K (f r) Q L) L n st vals mem \<Longrightarrow> wp E ctx K (p \<bind> f) Q L n st vals mem"
  by (simp add: wp_bind_fun)

lemma logical_flags:
  "flags_of OPS_LOGICAL v y old = logic_flags True v old"
  "flags_of OPS_LOGICAL (ucast v :: u32) z old = logic_flags False (low32 v) old"
proof -
  have "(ucast v = (0 :: u32)) = (low32 v = 0)" by (metis ucast_down_up ucast_low unsigned_0)
  then show "flags_of OPS_LOGICAL v y old = logic_flags True v old" "flags_of OPS_LOGICAL (ucast v :: u32) z old = logic_flags False (low32 v) old"
    by (simp_all add: flags_of_def logic_flags_def trn_def bit_last_iff [symmetric] bit_simps)
qed

lemma wp_logical_result:
  assumes "helpers_linked E (hlp_addr c)" "x < n" "rd < 32"
    "\<And>n' vals' mem'. guest ctx mem' = wx z rd (trn sf (vals x)) (if fl then (guest ctx mem)\<lparr>gNZCV := logic_flags sf (trn sf (vals x)) (gNZCV (guest ctx mem))\<rparr> else guest ctx mem)
      \<Longrightarrow> Q False n' st vals' mem'"
  shows "wp E ctx K (logical_result c sf fl rd x z) Q L n st vals mem"
proof -
  have "x \<noteq> n" "x < Suc n" "x < Suc (Suc n)" using assms(2) by auto
  with assms show ?thesis unfolding logical_result_def
    by (cases sf; cases fl; cases "rd = 31"; cases z)
      (simp_all add: wp_simps app_simps trn_def logical_flags)
qed

text \<open>The value of a logical operation depends on the low half only, if only that is kept.\<close>

lemma a64_logical_cong: "trn (bit insn 31) y = trn (bit insn 31) y' \<Longrightarrow> a64_logical insn z x y = a64_logical insn z x y'"
proof -
  have "low32 (x OR y) = low32 (x OR y')" "low32 (x XOR y) = low32 (x XOR y')" "low32 (x AND y) = low32 (x AND y')" if "low32 y = low32 y'"
    using that by (simp_all add: take_bit_or take_bit_xor take_bit_and)
  then show "trn (bit insn 31) y = trn (bit insn 31) y' \<Longrightarrow> a64_logical insn z x y = a64_logical insn z x y'"
    by (auto simp: a64_logical_def trn_def Let_def fun_eq_iff split: if_splits)
qed

section \<open>Immediates of logical operations\<close>

declare logical_imm_from.simps [simp del] replicate_imm.simps [simp del]

lemma ones_mask: "push_bit k 1 - 1 = (mask k :: u64)"
  by (simp add: mask_eq_exp_minus_1)

lemma bit_rotateRight:
  assumes "rot < w" "w \<le> 64" "\<And>i. w \<le> i \<Longrightarrow> \<not> bit v i"
  shows "bit (rotateRight v rot w) i \<longleftrightarrow> i < w \<and> bit v ((i + rot) mod w)"
proof -
  have "bit (push_bit ((w - rot) mod 64) (v AND mask rot)) i \<longleftrightarrow> i < w \<and> w \<le> i + rot \<and> bit v (i + rot - w)"
  proof (cases "rot = 0")
    case False
    then have e: "(w - rot) mod 64 = w - rot" using assms(1,2) by simp
    have "i - (w - rot) = i + rot - w" using assms(1) by simp
    then have "bit (push_bit (w - rot) (v AND mask rot)) i \<longleftrightarrow> w - rot \<le> i \<and> i < 64 \<and> bit v (i + rot - w) \<and> i + rot - w < rot \<and> i + rot - w < 64"
      by (auto simp only: bit_push_bit_iff bit_and_iff bit_mask_iff possible_bit_word len_bit0 len_num1)
    then show ?thesis unfolding e using assms(1,2) by linarith
  qed simp
  then have r: "bit (rotateRight v rot w) i \<longleftrightarrow> (i < w \<and> w \<le> i + rot \<and> bit v (i + rot - w)) \<or> bit v (i + rot)"
    using assms(1,2) by (simp only: rotateRight_def ones_mask Let_def bit_or_iff bit_drop_bit_eq add.commute [of rot] o_apply mod_less order.strict_trans2 [OF assms(1,2)])
  show ?thesis
  proof (cases "i + rot < w")
    case True
    then show ?thesis unfolding r by simp
  next
    case False
    then have "i < w \<Longrightarrow> (i + rot) mod w = i + rot - w" using assms(1) by (simp add: mod_if)
    then show ?thesis unfolding r using False assms(3) [of "i + rot"] by auto
  qed
qed

lemma bit_replicate_imm:
  assumes "\<And>i. w \<le> i \<Longrightarrow> \<not> bit v i" "0 < w" "w * 2 ^ j \<le> 64"
  shows "bit (replicate_imm (w * 2 ^ j) w v) i \<longleftrightarrow> i < w * 2 ^ j \<and> bit v (i mod w)"
  using assms
proof (induction j arbitrary: w v)
  case 0
  then show ?case by (auto simp: replicate_imm.simps) (metis mod_less not_less)+
next
  case (Suc j)
  have w: "w < w * 2 ^ Suc j" using Suc.prems(2) one_less_power [of "2 :: nat" "Suc j"] by simp
  have "w * 2 ^ Suc j = 2 * (w * 2 ^ j)" "w \<le> w * 2 ^ j" by simp_all
  then have l: "w * 2 \<le> 64" using Suc.prems(3) by linarith
  have b: "bit (v OR push_bit w v) i \<longleftrightarrow> i < w * 2 \<and> bit v (if i < w then i else i - w)" for i
    using Suc.prems(1) [of i] Suc.prems(1) [of "i - w"] l by (cases "i < w"; cases "i < w * 2") (auto simp: bit_or_iff bit_push_bit_iff)
  have "i mod w < w" "i mod w < w * 2" using mod_less_divisor [OF Suc.prems(2), of i] by linarith+
  then have "bit (v OR push_bit w v) (i mod (w * 2)) = bit v (i mod w)" unfolding b
    by (cases "i div w mod 2 = 0") (auto simp: mod_mult2_eq)
  moreover have "bit (replicate_imm (w * 2 * 2 ^ j) (w * 2) (v OR push_bit w v)) i \<longleftrightarrow> i < w * 2 * 2 ^ j \<and> bit (v OR push_bit w v) (i mod (w * 2))"
    by (rule Suc.IH) (use Suc.prems b in \<open>simp_all add: mult.assoc\<close>)
  moreover have "replicate_imm (w * 2 ^ Suc j) w v = replicate_imm (w * 2 * 2 ^ j) (w * 2) (v OR push_bit w v)" using w Suc.prems(2)
    by (subst replicate_imm.simps) (simp add: mult.assoc)
  ultimately show ?case by (simp add: mult.assoc)
qed

lemma bit_imm_of_width:
  assumes "0 < w" "size_of sf = w * 2 ^ j" "imms mod w < w - 1"
  shows "bit (imm_of_width sf imms immr w) i \<longleftrightarrow> i < size_of sf \<and> (i + immr) mod w \<le> imms mod w"
proof -
  let ?p = "mask (imms mod w + 1) :: u64"
  have w: "w \<le> 64" "w * 2 ^ j \<le> 64" using assms(2) by (cases sf; cases "2 ^ j :: nat"; simp)+
  have "\<not> bit ?p i" if "w \<le> i" for i using that assms(1,3) by (auto simp: bit_mask_iff)
  from bit_rotateRight [OF mod_less_divisor [OF assms(1)] w(1) this]
  have p: "bit (rotateRight ?p (immr mod w) w) i \<longleftrightarrow> i < w \<and> (i + immr) mod w \<le> imms mod w" for i
    using w assms(1,3) by (auto simp: bit_mask_iff mod_add_right_eq)
  let ?q = "rotateRight ?p (immr mod w) w AND mask w"
  have q: "bit ?q i \<longleftrightarrow> i < w \<and> (i + immr) mod w \<le> imms mod w" for i
    using w by (auto simp: bit_and_iff p [simplified] bit_mask_iff)
  have "bit (replicate_imm (w * 2 ^ j) w ?q) i \<longleftrightarrow> i < w * 2 ^ j \<and> bit ?q (i mod w)"
    by (rule bit_replicate_imm) (use q assms(1) w in auto)
  then show ?thesis unfolding q imm_of_width_def ones_mask Let_def assms(2) using assms(1) by (simp add: mod_add_left_eq)
qed

lemma and_width:
  assumes "n < 64"
  shows "(n AND 32 = 0) = (n < 32)" "32 \<le> n \<Longrightarrow> (n AND 16 = 0) = (n < 48)" "48 \<le> n \<Longrightarrow> (n AND 8 = 0) = (n < 56)"
    "56 \<le> n \<Longrightarrow> (n AND 4 = 0) = (n < 60)" "60 \<le> n \<Longrightarrow> (n AND 2 = 0) = (n < (62 :: nat))"
proof -
  have "\<forall>n \<in> set [0..<64]. ((n AND 32 = 0) = (n < 32)) \<and> (32 \<le> n \<longrightarrow> (n AND 16 = 0) = (n < 48)) \<and> (48 \<le> n \<longrightarrow> (n AND 8 = 0) = (n < 56)) \<and>
    (56 \<le> n \<longrightarrow> (n AND 4 = 0) = (n < 60)) \<and> (60 \<le> n \<longrightarrow> (n AND 2 = 0) = (n < (62 :: nat)))" by code_simp
  moreover have "n \<in> set [0..<64]" using assms by simp
  ultimately show "(n AND 32 = 0) = (n < 32)" "32 \<le> n \<Longrightarrow> (n AND 16 = 0) = (n < 48)" "48 \<le> n \<Longrightarrow> (n AND 8 = 0) = (n < 56)"
    "56 \<le> n \<Longrightarrow> (n AND 4 = 0) = (n < 60)" "60 \<le> n \<Longrightarrow> (n AND 2 = 0) = (n < (62 :: nat))" by blast+
qed

lemma logical_imm_from_element: "imms < 64 \<Longrightarrow> logical_imm_from sf imms immr 32 = (case mask_element False imms of None \<Rightarrow> 0 | Some e \<Rightarrow> imm_of_width sf imms immr e)"
  by (simp add: logical_imm_from.simps and_width mask_element_def)

lemma logical_immediate_mask:
  assumes "imms < 64" "immr < 64" "mask_valid sf n imms"
  shows "trn sf (logical_immediate sf n immr imms) = trn sf (bit_mask (the (mask_element n imms)) immr imms)"
proof (rule bit_word_eqI)
  fix i
  assume "i < LENGTH(64)"
  obtain e where e: "n \<longrightarrow> sf" "mask_element n imms = Some e" "imms mod e \<noteq> e - 1" using assms(3) by (auto simp: mask_valid_def split: option.splits)
  have m: "bit (trn sf (bit_mask e immr imms)) i \<longleftrightarrow> i < size_of sf \<and> (i + immr) mod e \<le> imms mod e"
    using \<open>i < LENGTH(64)\<close> by (auto simp: trn_def bit_mask_def bit_of_bits bit_take_bit_iff)
  have "bit (logical_immediate sf n immr imms) i \<longleftrightarrow> i < size_of sf \<and> (i + immr) mod e \<le> imms mod e"
  proof (cases n)
    case True
    then have "e = 64" "imms < 63" "sf" using e assms(1) by (auto simp: mask_element_def)
    moreover have "(imms + 1) mod 64 = imms + 1" using \<open>imms < 63\<close> by simp
    ultimately show ?thesis using True bit_rotateRight [of immr 64 "mask (imms + 1)" i] assms(2) unfolding logical_immediate_def ones_mask by (auto simp: bit_mask_iff)
  next
    case False
    then have "e = 32 \<or> e = 16 \<or> e = 8 \<or> e = 4 \<or> e = 2" using e(2) by (auto simp: mask_element_def split: if_splits)
    then obtain j where j: "size_of sf = e * 2 ^ j" "0 < e"
      using that [of 0] that [of 1] that [of 2] that [of 3] that [of 4] that [of 5] by (cases sf) auto
    moreover have "imms mod e < e - 1" using e(3) \<open>0 < e\<close> mod_less_divisor [of e imms] by linarith
    ultimately show ?thesis using False e(2) bit_imm_of_width [of e sf j imms immr i] assms(1) by (simp add: logical_immediate_def logical_imm_from_element)
  qed
  then show "bit (trn sf (logical_immediate sf n immr imms)) i = bit (trn sf (bit_mask (the (mask_element n imms)) immr imms)) i"
    unfolding e(2) option.sel m by (auto simp: trn_def bit_take_bit_iff)
qed

lemma logical_imm_effect:
  assumes "helpers_linked E (hlp_addr c)" "mask_valid (bit insn 31) (bit insn 22) (fld insn 15 10)"
  shows "effect E ctx K (dis_logical_immediate c insn) (a64_logical_imm insn)"
proof -
  let ?i = "logical_immediate (bit insn 31) (bit insn 22) (fld insn 21 16) (fld insn 15 10)"
  have "a64_logical_imm insn g = a64_logical insn (fld insn 30 29 = 3) (rx True (fld insn 9 5) g) ?i g" for g
    unfolding a64_logical_imm_def by (rule fun_cong [OF a64_logical_cong [OF logical_immediate_mask [symmetric]]]) (use assms(2) in simp_all)
  note e = this
  show ?thesis unfolding effect_def dis_logical_immediate_def Let_def e a64_logical_def
    by (cases "fld insn 30 29 = 1"; cases "fld insn 30 29 = 2"; cases "fld insn 30 29 = 3"; simp add: wp_simps app_simps; intro allI; rule wp_logical_result [OF assms(1)]; simp)
qed

lemma wp_shifted_operand:
  assumes "i < 32" "kind < 4" "k < 64" "sf \<or> k < 32"
    "\<And>n' vals' r. trn sf (vals' r) = shift_reg sf kind k (rx True i (guest ctx mem)) \<Longrightarrow> r < n' \<Longrightarrow> \<forall>q < n. vals' q = vals q \<Longrightarrow> n \<le> n' \<Longrightarrow> Q r n' st vals' mem"
  shows "wp E ctx K (if k \<noteq> 0 then
      if kind = 0 then call2 add_shl_64 (read_x i True) (mk_8 (of_nat k))
      else if kind = 1 then
        if sf then call2 add_shr_64 (read_x i True) (mk_8 (of_nat k))
        else call1 (\<lambda>x. add_32U_to_64 x) (call2 add_shr_32 (read_w i True) (mk_8 (of_nat k)))
      else if kind = 2 then
        if sf then call2 add_asr_64 (read_x i True) (mk_8 (of_nat k))
        else call1 (\<lambda>x. add_32U_to_64 x) (call2 add_asr_32 (read_w i True) (mk_8 (of_nat k)))
      else
        if sf then call1 (\<lambda>x. mk_ror_imm_64 x (of_nat k)) (read_x i True)
        else call1 (\<lambda>x. add_32U_to_64 x) (call1 (\<lambda>x. mk_ror_imm_32 x (of_nat k)) (read_w i True))
      else read_x i True) Q L n st vals mem"
proof -
  have "kind = 0 \<or> kind = 1 \<or> kind = 2 \<or> kind = 3" using assms(2) by linarith
  moreover have "low32 (rotr 32 k v) = rotr 32 k v" for v using rotr_trn(1) [of False k v] by (simp add: trn_def)
  moreover have "rotr 64 0 v = v" "rotr 32 0 v = low32 v" for v
    using shift_reg_0 [of 3 True v] shift_reg_0 [of 3 False v] by (simp_all add: shift_reg_def trn_def)
  ultimately show ?thesis using assms(1,3,4)
    by (cases sf; cases "k = 0") (auto simp: wp_simps app_simps shift_reg_def trn_def low32_drop low32_push signed_take_low signed_take_bit_63 rotr_trn(2)
      mk_ror_imm_64_def mk_ror_imm_32_def intro!: assms(5))
qed

lemma logical_shifted_effect:
  assumes "helpers_linked E (hlp_addr c)" "bit insn 31 \<or> fld insn 15 10 < 32"
  shows "effect E ctx K (dis_logical_shifted_register c insn) (a64_logical_shifted insn)"
  unfolding effect_def
proof (intro allI)
  fix n st vals mem
  let ?sf = "bit insn 31"
  let ?g = "guest ctx mem"
  let ?s = "shift_reg ?sf (fld insn 23 22) (fld insn 15 10) (rx True (fld insn 20 16) ?g)"
  have i: "trn ?sf (NOT v) = trn ?sf (NOT ?s)" "trn ?sf v = trn ?sf ?s" if "trn ?sf v = ?s" for v
    using low32_cong(3) [of v ?s] that trn_shift_reg [of ?sf "fld insn 23 22" "fld insn 15 10" "rx True (fld insn 20 16) ?g"] by (cases ?sf; simp add: trn_def)+
  have e: "a64_logical_shifted insn ?g = a64_logical insn True (rx True (fld insn 9 5) ?g) (if bit insn 21 then NOT v else v) ?g" if "trn ?sf v = ?s" for v
    unfolding a64_logical_shifted_def Let_def by (rule fun_cong [OF a64_logical_cong]) (use i [OF that] in simp)
  have "wp E ctx K (do {
      op2_inverted \<leftarrow> (if bit insn 21 then call2 add_xor_64 (ret r) (mk_64 (NOT 0)) else ret r);
      res \<leftarrow> (if fld insn 30 29 = 1 then call2 add_or_64 (read_x (fld insn 9 5) True) (ret op2_inverted)
        else if fld insn 30 29 = 2 then call2 add_xor_64 (read_x (fld insn 9 5) True) (ret op2_inverted)
        else call2 add_and_64 (read_x (fld insn 9 5) True) (ret op2_inverted));
      logical_result c (bit insn 31) (fld insn 30 29 = 3) (fld insn 4 0) res True
    }) (\<lambda>r n' st' vals' mem'. \<not> r \<and> st' = st \<and> guest ctx mem' = a64_logical_shifted insn ?g) (\<lambda>_ _ _. False) n' st vals' mem"
    if "trn ?sf (vals' r) = ?s" "r < n'" for n' vals' r
    unfolding e [OF that(1)] a64_logical_def Let_def using that(2) less_imp_neq [OF that(2)]
    by (cases "bit insn 21"; cases "fld insn 30 29 = 1"; cases "fld insn 30 29 = 2"; cases "fld insn 30 29 = 3"; simp add: wp_simps app_simps)
      (rule wp_logical_result [OF assms(1)]; simp add: xor_ones)+
  note rest = this
  show "wp E ctx K (dis_logical_shifted_register c insn) (\<lambda>r n' st' vals' mem'. \<not> r \<and> st' = st \<and> guest ctx mem' = a64_logical_shifted insn ?g) (\<lambda>_ _ _. False) n st vals mem"
    unfolding dis_logical_shifted_register_def Let_def flag_bits_insn ZERO_REG_def
    by (rule wp_bindI, simp add: app_simps, simp add: app_simps, rule wp_shifted_operand) (rule rest | simp add: assms(2))+
qed

section \<open>Bit fields\<close>

lemma bitfield_value:
  fixes insn :: u32
  defines "N \<equiv> size_of (bit insn 31)"
  assumes "bitfield_kind_of insn = Some k" "fld insn 21 16 < N" "fld insn 15 10 < N"
  shows "\<exists>v. arm64_hlp_compute_bitfield insn x y = Some v \<and> trn (bit insn 31) v = of_bits N (bitfield_bit k N (fld insn 21 16) (fld insn 15 10) x y)"
proof -
  obtain v where v: "arm64_hlp_compute_bitfield insn x y = Some v" "\<And>i. i < N \<Longrightarrow> bit v i = bitfield_bit k N (fld insn 21 16) (fld insn 15 10) x y i"
    using bitfield_correct [OF assms(2), of x y] assms(3,4) by (auto simp: N_def flag_bits_insn(1) [simplified])
  have "trn (bit insn 31) v = of_bits N (bitfield_bit k N (fld insn 21 16) (fld insn 15 10) x y)"
    by (rule bit_word_eqI) (use v(2) in \<open>auto simp: trn_def bit_take_bit_iff bit_of_bits N_def split: if_splits\<close>)
  with v(1) show ?thesis by blast
qed

lemma bitfield_effect:
  assumes "helpers_linked E (hlp_addr c)" "bitfield_kind_of insn \<noteq> None" "fld insn 21 16 < size_of (bit insn 31)" "fld insn 15 10 < size_of (bit insn 31)"
  shows "effect E ctx K (dis_bitfield_insn c insn) (a64_bitfield insn)"
proof -
  obtain k where k: "bitfield_kind_of insn = Some k" using assms(2) by blast
  have l: "linked64 E (hlp_addr c ''arm64_hlp_compute_bitfield'') 3 (\<lambda>as. arm64_hlp_compute_bitfield (ucast (as ! 0)) (as ! 1) (as ! 2))"
    using assms(1) by (simp add: helpers_linked_def)
  obtain f where f: "arm64_hlp_compute_bitfield insn x y = Some (f x y)"
      "trn (bit insn 31) (f x y) = of_bits (size_of (bit insn 31)) (bitfield_bit k (size_of (bit insn 31)) (fld insn 21 16) (fld insn 15 10) x y)" for x y
    using bitfield_value [OF k assms(3,4)] by metis
  show ?thesis unfolding effect_def dis_bitfield_insn_def a64_bitfield_def Let_def k option.sel f(2) [symmetric]
    by (cases "bit insn 31"; cases "fld insn 4 0 = 31") (simp_all add: wp_simps app_simps wp_mk_call_64 [OF l] call_args_def f(1) trn_def)
qed

section \<open>Conditional instructions\<close>

lemma wp_pred [wp_simps]:
  fixes mem :: memory and vals :: "nat \<Rightarrow> u64" and n :: nat and ctx :: u64 and c :: dis_context and cond :: u32
  assumes "helpers_linked E (hlp_addr c)" "unat cond < 16"
  shows "wp E ctx K (mk_pred c cond) Q L n st vals mem = Q (Suc (Suc (Suc (Suc n)))) (Suc (Suc (Suc (Suc (Suc (Suc n)))))) st
    (vals(n := ucast cond, Suc n := ucast (gNZCV (guest ctx mem)), Suc (Suc n) := hlp_addr c ''arm64_hlp_compute_flags_pred'',
      Suc (Suc (Suc n)) := ctx_pc c, Suc (Suc (Suc (Suc n))) := of_bool (condition_holds (unat cond) (gNZCV (guest ctx mem))), Suc (Suc (Suc (Suc (Suc n)))) := 0))
    (mem_call ctx (ctx_pc c) mem)"
proof -
  have l: "linked32 E (hlp_addr c ''arm64_hlp_compute_flags_pred'') 2 (\<lambda>as. arm64_hlp_compute_flags_pred (ucast (as ! 0)) (ucast (as ! 1)))"
    using assms(1) by (simp add: helpers_linked_def)
  have "arm64_hlp_compute_flags_pred cond nzcv = Some (of_bool (condition_holds (unat cond) nzcv))" for nzcv
    using flags_pred [OF assms(2)] by simp
  then show ?thesis by (simp add: mk_pred_def wp_simps app_simps wp_mk_call_32 [OF l] call_args_def)
qed

lemma cond_bound [simp]: "unat (INSN insn 15 12) < 16"
  using INSN_bound [of 15 12 insn] by simp

lemma wp_cond_select:
  assumes "helpers_linked E (hlp_addr c)" "x < n"
    "\<And>n' vals' mem'. guest ctx mem' = wx True (fld insn 4 0) (trn (bit insn 31) (if condition_holds (fld insn 15 12) (gNZCV (guest ctx mem))
        then rx True (fld insn 9 5) (guest ctx mem) else vals x)) (guest ctx mem) \<Longrightarrow> Q False n' st vals' mem'"
  shows "wp E ctx K (dis_cond_select c insn x) Q L n st vals mem"
proof -
  have ne: "x \<noteq> n" "x \<noteq> Suc n" "x \<noteq> Suc (Suc n)" "x \<noteq> Suc (Suc (Suc n))" "x \<noteq> Suc (Suc (Suc (Suc n)))" "x \<noteq> Suc (Suc (Suc (Suc (Suc n))))"
    "x \<noteq> Suc (Suc (Suc (Suc (Suc (Suc n)))))" "x \<noteq> Suc (Suc (Suc (Suc (Suc (Suc (Suc n))))))" using assms(2) by auto
  show ?thesis unfolding dis_cond_select_def Let_def
    by (cases "bit insn 31"; cases "fld insn 4 0 = 31"; cases "condition_holds (fld insn 15 12) (gNZCV (guest ctx mem))")
      (simp_all add: wp_simps app_simps trn_def assms ne)
qed

lemma fld_11_10: "fld insn 11 10 < 2 \<Longrightarrow> (fld insn 11 10 = 0) = (\<not> bit insn 10)"
proof -
  assume "fld insn 11 10 < 2"
  then have "fld insn 11 10 = unat (0 :: u32) \<or> fld insn 11 10 = unat (1 :: u32)" by auto
  then have "INSN insn 11 10 = 0 \<or> INSN insn 11 10 = 1" by (simp only: word_unat_eq_iff)
  then show ?thesis using bit_INSN [of 11 10 insn 0] by auto
qed

lemma csel_effect:
  assumes "helpers_linked E (hlp_addr c)" "fld insn 11 10 < 2"
  shows "effect E ctx K (dis_conditional_select c insn) (a64_csel insn)"
proof -
  show ?thesis unfolding effect_def dis_conditional_select_def a64_csel_def dis_csneg_def dis_csinv_def dis_csinc_def dis_csel_def Let_def
    by (cases "bit insn 30"; cases "bit insn 10"; simp add: wp_simps app_simps fld_11_10 [OF assms(2)] xor_ones split del: if_split; intro allI)
      (rule wp_cond_select [OF assms(1)]; simp add: minus_eq_not_plus_1 [symmetric])+
qed

lemma wp_ccmp:
  assumes "helpers_linked E (hlp_addr c)" "x < n" "trn (bit insn 31) (vals x) = trn (bit insn 31) y"
    "\<And>n' vals' mem'. guest ctx mem' = (guest ctx mem)\<lparr>gNZCV := if condition_holds (fld insn 15 12) (gNZCV (guest ctx mem))
       then (if bit insn 30 then sum_flags (bit insn 31) (rx True (fld insn 9 5) (guest ctx mem)) (NOT y) True (gNZCV (guest ctx mem))
         else sum_flags (bit insn 31) (rx True (fld insn 9 5) (guest ctx mem)) y False (gNZCV (guest ctx mem)))
       else push_bit 28 (of_nat (fld insn 3 0))\<rparr> \<Longrightarrow> Q False n' st vals' mem'"
  shows "wp E ctx K (dis_ccmp_A_ccmn c insn x) Q L n st vals mem"
proof -
  have l: "linked32 E (hlp_addr c ''arm64_hlp_compute_next_nzcv_64'') 4 (\<lambda>as. arm64_hlp_compute_next_nzcv_64 (ucast (as ! 0)) (as ! 1) (as ! 2) (ucast (as ! 3)))"
    "linked32 E (hlp_addr c ''arm64_hlp_compute_next_nzcv_32'') 4 (\<lambda>as. arm64_hlp_compute_next_nzcv_32 (ucast (as ! 0)) (ucast (as ! 1)) (ucast (as ! 2)) (ucast (as ! 3)))"
    using assms(1) by (simp_all add: helpers_linked_def)
  have ne: "x \<noteq> n" "x \<noteq> Suc n" "x \<noteq> Suc (Suc n)" "x \<noteq> Suc (Suc (Suc n))" "x \<noteq> Suc (Suc (Suc (Suc n)))" "x \<noteq> Suc (Suc (Suc (Suc (Suc n))))"
    "x \<noteq> Suc (Suc (Suc (Suc (Suc (Suc n)))))" "x \<noteq> Suc (Suc (Suc (Suc (Suc (Suc (Suc n))))))" "x \<noteq> Suc (Suc (Suc (Suc (Suc (Suc (Suc (Suc n)))))))"
    "x \<noteq> Suc (Suc (Suc (Suc (Suc (Suc (Suc (Suc (Suc n))))))))" "x \<noteq> Suc (Suc (Suc (Suc (Suc (Suc (Suc (Suc (Suc (Suc n)))))))))" using assms(2) by auto
  have y: "bit insn 31 \<Longrightarrow> vals x = y" "\<not> bit insn 31 \<Longrightarrow> (ucast (vals x) :: u32) = ucast y"
    using assms(3) low32_cong(1) [of "vals x" y] by (simp_all add: trn_def)
  have f: "push_bit 28 (INSN insn 4 0) = push_bit 28 (INSN insn 3 0)" by (rule bit_word_eqI) (auto simp: bit_simps bit_INSN)
  show ?thesis unfolding dis_ccmp_A_ccmn_def Let_def f
    by (cases "bit insn 31"; cases "bit insn 30"; cases "condition_holds (fld insn 15 12) (gNZCV (guest ctx mem))")
      (simp_all add: wp_simps app_simps assms wp_mk_call_32 [OF l(1)] wp_mk_call_32 [OF l(2)] call_args_def
        next_nzcv_64 next_nzcv_32 ne flags_of_def sum_flags_def y)
qed

lemma ccmp_effect:
  assumes "helpers_linked E (hlp_addr c)"
  shows "bit insn 11 \<Longrightarrow> effect E ctx K (dis_ccmp_A_ccmn_immediate c insn) (a64_ccmp insn)"
    "\<not> bit insn 11 \<Longrightarrow> effect E ctx K (dis_ccmp_A_ccmn_register c insn) (a64_ccmp insn)"
  unfolding effect_def dis_ccmp_A_ccmn_immediate_def dis_ccmp_A_ccmn_register_def a64_ccmp_def Let_def
  by (cases "bit insn 31"; simp add: wp_simps app_simps split del: if_split; intro allI; rule wp_ccmp [OF assms]; simp add: trn_def add_sub_imm_value(2))+

section \<open>Shifts\<close>

lemma wp_shift_count [wp_simps]:
  assumes "i < 32"
  shows "wp E ctx K (mk_shift_count i msk) Q L n st vals mem = Q (Suc (Suc (Suc n))) (Suc (Suc (Suc (Suc n)))) st
    (vals(n := rx True i (guest ctx mem), Suc n := msk, Suc (Suc n) := rx True i (guest ctx mem) AND msk, Suc (Suc (Suc n)) := take_bit 8 (rx True i (guest ctx mem) AND msk))) mem"
  by (simp add: mk_shift_count_def wp_simps app_simps assms)

lemma count_value:
  fixes y :: u64
  shows "unat (take_bit 8 (take_bit 6 y) AND 63) = unat (take_bit 6 y)" "unat (take_bit 8 (take_bit 5 y) AND 63) = unat (take_bit 5 y)"
    "take_bit 8 (take_bit 6 y) = take_bit 6 y" "take_bit 8 (take_bit 5 y) = take_bit 5 y"
  by (simp_all add: and_masks)

lemma low32_rotr [simp]: "low32 (rotr 32 k v) = rotr 32 k v"
  using rotr_trn(1) [of False k v] by (simp add: trn_def)

lemma shift_effect:
  assumes "8 \<le> fld insn 15 10" "fld insn 15 10 \<le> 11"
  shows "effect E ctx K (dis_data_processing_2_source c insn) (a64_data_2 insn)"
proof -
  have "fld insn 15 10 = 8 \<or> fld insn 15 10 = 9 \<or> fld insn 15 10 = 10 \<or> fld insn 15 10 = 11" using assms by linarith
  then show ?thesis unfolding effect_def dis_data_processing_2_source_def a64_data_2_def dis_lslv_def dis_lsrv_def dis_asrv_def dis_rorv_def Let_def
    by (elim disjE; cases "bit insn 31"; cases "fld insn 4 0 = 31")
      (simp_all add: wp_simps app_simps and_masks count_value shift_reg_def trn_def low32_drop low32_push signed_take_low signed_take_bit_63 rotr_trn(2))
qed

section \<open>Division and multiplication\<close>

lemma ucast_take_32: "ucast (low32 v) = (ucast v :: u32)"
  by simp

lemma division_effect:
  assumes "helpers_linked E (hlp_addr c)" "fld insn 15 10 = 2 \<or> fld insn 15 10 = 3" "\<not> bit insn 31"
  shows "effect E ctx K (dis_data_processing_2_source c insn) (a64_data_2 insn)"
proof -
  have l: "linked32 E (hlp_addr c ''arm64_hlp_udiv_32'') 2 (\<lambda>as. Some (arm64_hlp_udiv_32 (ucast (as ! 0)) (ucast (as ! 1))))"
    "linked32 E (hlp_addr c ''arm64_hlp_sdiv_32'') 2 (\<lambda>as. Some (arm64_hlp_sdiv_32 (ucast (as ! 0)) (ucast (as ! 1))))"
    using assms(1) by (simp_all add: helpers_linked_def)
  show ?thesis using assms(2,3) unfolding effect_def dis_data_processing_2_source_def a64_data_2_def dis_udiv_def dis_sdiv_def Let_def
    by (elim disjE; cases "fld insn 4 0 = 31")
      (simp_all add: wp_simps app_simps wp_mk_call_32 [OF l(1)] wp_mk_call_32 [OF l(2)] call_args_def arm64_hlp_udiv_32_def sdiv_32 add_sub_imm_value(2))
qed

lemma uint_widen: "uint (ucast (x :: u64) :: u128) = uint x"
proof -
  have "uint x < 2 ^ 128" by (rule order.strict_trans1 [OF less_imp_le [OF uint_bounded]]) simp
  then show ?thesis by (simp add: unsigned_ucast_eq take_bit_int_eq_self)
qed

lemma umul_msb: "arm64_hlp_umul_msb_64 x y = word_of_int (uint x * uint y div 2 ^ 64)"
proof -
  have "uint x * uint y < 2 ^ 64 * 2 ^ 64" by (rule mult_strict_mono') (use uint_bounded [of x] uint_bounded [of y] in auto)
  then have p: "uint ((ucast x :: u128) * ucast y) = uint x * uint y" by (simp add: uint_word_ariths uint_widen)
  have "uint (drop_bit 64 ((ucast x :: u128) * ucast y)) = uint x * uint y div 2 ^ 64"
    unfolding unsigned_drop_bit_eq p using p [symmetric] uint_bounded [of "(ucast x :: u128) * ucast y"]
    by (simp add: drop_bit_eq_div take_bit_int_eq_self)
  then show ?thesis unfolding arm64_hlp_umul_msb_64_def Let_def ucast_eq by simp
qed

lemma sint_bounds: "- (2 ^ 63) \<le> sint (x :: u64)" "sint x < 2 ^ 63" "\<bar>sint x\<bar> \<le> 2 ^ 63"
  using sint_ge [of x] sint_less [of x] by simp_all

lemma sint_widen: "sint (scast (x :: u64) :: u128) = sint x"
proof -
  have "signed_take_bit 127 (sint x) = sint x" by (rule signed_take_bit_int_eq_self) (use sint_bounds [of x] in simp_all)
  then show ?thesis by (simp add: signed_scast_eq)
qed

lemma sint_product: "sint ((scast (x :: u64) :: u128) * scast (y :: u64)) = sint x * sint y"
proof -
  have "\<bar>sint x * sint y\<bar> \<le> 2 ^ 63 * 2 ^ 63" unfolding abs_mult by (rule mult_mono [OF sint_bounds(3) sint_bounds(3)]) simp_all
  then have "signed_take_bit 127 (sint x * sint y) = sint x * sint y" by (intro signed_take_bit_int_eq_self) simp_all
  then show ?thesis by (simp add: sint_word_ariths sint_widen)
qed

lemma smul_msb: "arm64_hlp_smul_msb_64 x y = word_of_int (sint x * sint y div 2 ^ 64)"
proof -
  have p: "sint (signed_drop_bit 64 ((scast x :: u128) * scast y)) = sint x * sint y div 2 ^ 64"
    unfolding sint_signed_drop_bit_eq sint_product drop_bit_eq_div ..
  have "(ucast w :: u64) = word_of_int (sint w)" for w :: u128
    by (rule bit_word_eqI) (simp add: bit_simps min_def)
  then show ?thesis unfolding arm64_hlp_smul_msb_64_def Let_def p [symmetric] .
qed

lemma ucast_product: "(ucast (ucast a * ucast b :: u32) :: u64) = low32 (a * b)"
proof -
  have "uint (low32 (a * b)) = uint a * uint b mod 2 ^ 32"
    unfolding unsigned_take_bit_eq by (simp add: take_bit_eq_mod uint_word_ariths mod_mod_cancel)
  then show ?thesis by (simp add: word_uint_eq_iff uint_word_ariths unsigned_ucast_eq take_bit_eq_mod mod_mult_eq mod_mod_cancel)
qed

lemma low32_mult: "low32 (low32 a * low32 b) = low32 (a * b)"
  by (simp add: ucast_product [symmetric])

lemma low32_mult_add: "low32 (x + low32 a * low32 b) = low32 (x + a * b)" "low32 (low32 x - low32 y) = low32 (x - y)" "low32 (x - low32 a * low32 b) = low32 (x - a * b)"
proof -
  show "low32 (x + low32 a * low32 b) = low32 (x + a * b)" by (rule low32_cong(2)) (simp_all add: low32_mult)
  have d: "low32 (x - y) = low32 (x' - y')" if "low32 x = low32 x'" "low32 y = low32 y'" for x y x' y' :: u64
    unfolding sub_as_add by (intro low32_cong that refl)
  show "low32 (low32 x - low32 y) = low32 (x - y)" "low32 (x - low32 a * low32 b) = low32 (x - a * b)" by (rule d; simp add: low32_mult)+
qed

lemma wp_mul [wp_simps]:
  fixes vals :: "nat \<Rightarrow> u64" and n :: nat and c :: dis_context
  assumes "helpers_linked E (hlp_addr c)" "x < n" "y < n"
  defines "vals' \<equiv> (\<lambda>nm r. vals(n := hlp_addr c nm, Suc n := ctx_pc c, Suc (Suc n) := r, Suc (Suc (Suc n)) := (0 :: u64)))"
  shows
    "wp E ctx K (mk_mul_u_lsb_64 c x y) Q L n st vals mem = Q (Suc (Suc n)) (Suc (Suc (Suc (Suc n)))) st (vals' ''arm64_hlp_umul_lsb_64'' (vals x * vals y)) (mem_call ctx (ctx_pc c) mem)"
    "wp E ctx K (mk_mul_s_lsb_64 c x y) Q L n st vals mem = Q (Suc (Suc n)) (Suc (Suc (Suc (Suc n)))) st (vals' ''arm64_hlp_smul_lsb_64'' (vals x * vals y)) (mem_call ctx (ctx_pc c) mem)"
    "wp E ctx K (mk_mul_u_lsb_32 c x y) Q L n st vals mem = Q (Suc (Suc n)) (Suc (Suc (Suc (Suc n)))) st (vals' ''arm64_hlp_umul_lsb_32'' (low32 (vals x * vals y))) (mem_call ctx (ctx_pc c) mem)"
    "wp E ctx K (mk_mul_u_msb_64 c x y) Q L n st vals mem = Q (Suc (Suc n)) (Suc (Suc (Suc (Suc n)))) st (vals' ''arm64_hlp_umul_msb_64'' (word_of_int (uint (vals x) * uint (vals y) div 2 ^ 64))) (mem_call ctx (ctx_pc c) mem)"
    "wp E ctx K (mk_mul_s_msb_64 c x y) Q L n st vals mem = Q (Suc (Suc n)) (Suc (Suc (Suc (Suc n)))) st (vals' ''arm64_hlp_smul_msb_64'' (word_of_int (sint (vals x) * sint (vals y) div 2 ^ 64))) (mem_call ctx (ctx_pc c) mem)"
proof -
  have ne: "x \<noteq> n" "x \<noteq> Suc n" "y \<noteq> n" "y \<noteq> Suc n" using assms(2,3) by auto
  have l: "linked64 E (hlp_addr c ''arm64_hlp_umul_lsb_64'') 2 (\<lambda>as. Some (arm64_hlp_umul_lsb_64 (as ! 0) (as ! 1)))"
     "linked32 E (hlp_addr c ''arm64_hlp_umul_lsb_32'') 2 (\<lambda>as. Some (arm64_hlp_umul_lsb_32 (ucast (as ! 0)) (ucast (as ! 1))))"
     "linked64 E (hlp_addr c ''arm64_hlp_umul_msb_64'') 2 (\<lambda>as. Some (arm64_hlp_umul_msb_64 (as ! 0) (as ! 1)))"
     "linked64 E (hlp_addr c ''arm64_hlp_smul_msb_64'') 2 (\<lambda>as. Some (arm64_hlp_smul_msb_64 (as ! 0) (as ! 1)))"
     "linked64 E (hlp_addr c ''arm64_hlp_smul_lsb_64'') 2 (\<lambda>as. Some (arm64_hlp_smul_lsb_64 (as ! 0) (as ! 1)))"
    using assms(1) by (simp_all add: helpers_linked_def)
  show
    "wp E ctx K (mk_mul_u_lsb_64 c x y) Q L n st vals mem = Q (Suc (Suc n)) (Suc (Suc (Suc (Suc n)))) st (vals' ''arm64_hlp_umul_lsb_64'' (vals x * vals y)) (mem_call ctx (ctx_pc c) mem)"
    "wp E ctx K (mk_mul_s_lsb_64 c x y) Q L n st vals mem = Q (Suc (Suc n)) (Suc (Suc (Suc (Suc n)))) st (vals' ''arm64_hlp_smul_lsb_64'' (vals x * vals y)) (mem_call ctx (ctx_pc c) mem)"
    "wp E ctx K (mk_mul_u_lsb_32 c x y) Q L n st vals mem = Q (Suc (Suc n)) (Suc (Suc (Suc (Suc n)))) st (vals' ''arm64_hlp_umul_lsb_32'' (low32 (vals x * vals y))) (mem_call ctx (ctx_pc c) mem)"
    "wp E ctx K (mk_mul_u_msb_64 c x y) Q L n st vals mem = Q (Suc (Suc n)) (Suc (Suc (Suc (Suc n)))) st (vals' ''arm64_hlp_umul_msb_64'' (word_of_int (uint (vals x) * uint (vals y) div 2 ^ 64))) (mem_call ctx (ctx_pc c) mem)"
    "wp E ctx K (mk_mul_s_msb_64 c x y) Q L n st vals mem = Q (Suc (Suc n)) (Suc (Suc (Suc (Suc n)))) st (vals' ''arm64_hlp_smul_msb_64'' (word_of_int (sint (vals x) * sint (vals y) div 2 ^ 64))) (mem_call ctx (ctx_pc c) mem)"
    by (simp_all add: mk_mul_u_lsb_64_def mk_mul_u_lsb_32_def mk_mul_u_msb_64_def mk_mul_s_msb_64_def mk_mul_s_lsb_64_def
      wp_mk_call_64 [OF l(1)] wp_mk_call_32 [OF l(2)] wp_mk_call_64 [OF l(3)] wp_mk_call_64 [OF l(4)] wp_mk_call_64 [OF l(5)] call_args_def ne vals'_def
      arm64_hlp_umul_lsb_64_def arm64_hlp_umul_lsb_32_def arm64_hlp_smul_lsb_64_def umul_msb smul_msb ucast_product)
qed

lemma op31_value: "unat (push_bit 1 (INSN insn 23 21) OR INSN insn 15 15) = 2 * fld insn 23 21 + of_bool (bit insn 15)"
proof -
  have "INSN insn 15 15 = of_bool (bit insn 15)" by (rule bit_word_eqI) (auto simp: bit_INSN bit_simps)
  moreover have "push_bit 1 (INSN insn 23 21) OR of_bool (bit insn 15) = push_bit 1 (INSN insn 23 21) + of_bool (bit insn 15)"
    by (rule disjunctive_add [symmetric]) (simp only: bit_push_bit_iff bit_of_bool_iff, auto)
  ultimately show ?thesis using INSN_bound [of 23 21 insn] by (simp add: push_bit_eq_mult unat_word_ariths)
qed

lemma data_3_effect:
  assumes "helpers_linked E (hlp_addr c)" "fld insn 23 21 \<in> {0, 1, 2, 5, 6}" "fld insn 23 21 = 2 \<or> fld insn 23 21 = 6 \<Longrightarrow> \<not> bit insn 15"
  shows "effect E ctx K (dis_data_processing_3_source c insn) (a64_data_3 insn)"
proof -
  have "fld insn 23 21 = 0 \<or> fld insn 23 21 = 1 \<or> fld insn 23 21 = 2 \<or> fld insn 23 21 = 5 \<or> fld insn 23 21 = 6" using assms(2) by simp
  then show ?thesis using assms(1,3) unfolding effect_def dis_data_processing_3_source_def a64_data_3_def Let_def op31_value
    dis_madd_def dis_msub_def dis_smaddl_def dis_smsubl_def dis_smulh_def dis_umaddl_def dis_umsubl_def dis_umulh_def
    by (elim disjE; cases "bit insn 15"; cases "bit insn 31"; cases "fld insn 4 0 = 31") (simp_all add: wp_simps app_simps trn_def signed_take_low low32_add low32_mult_add)
qed

section \<open>Extraction\<close>

lemma extr_value_64: "k < 64 \<Longrightarrow> 0 < k \<Longrightarrow> drop_bit k lo OR push_bit (64 - k) hi = of_bits 64 (\<lambda>i. if i + k < 64 then bit lo (i + k) else bit hi (i + k - 64))"
  by (rule bit_word_eqI) (auto simp: bit_simps bit_of_bits add.commute dest: bit_imp_le_length)

lemma extr_value_32: "k < 32 \<Longrightarrow> drop_bit k (low32 lo) OR low32 (push_bit (32 - k) hi) = of_bits 32 (\<lambda>i. if i + k < 32 then bit lo (i + k) else bit hi (i + k - 32))"
  by (rule bit_word_eqI) (auto simp: bit_simps bit_of_bits add.commute dest: bit_imp_le_length)

lemma rotr_value: "k < w \<Longrightarrow> w \<le> 64 \<Longrightarrow> rotr w k v = of_bits w (\<lambda>i. if i + k < w then bit v (i + k) else bit v (i + k - w))"
  unfolding rotr_def Let_def by (rule bit_word_eqI) (auto simp: bit_simps bit_of_bits add.commute dest: bit_imp_le_length)

lemma extr_effect:
  assumes "bit insn 31 \<or> fld insn 15 10 < 32" "bit insn 31 \<longrightarrow> fld insn 15 10 \<noteq> 0 \<or> fld insn 9 5 = fld insn 20 16"
  shows "effect E ctx K (dis_extr c insn) (a64_extr insn)"
proof -
  obtain k where k: "fld insn 15 10 = k" "k < 64" using fld_bound6(1) [of insn] by blast
  have e: "a64_extr insn g = wx True (fld insn 4 0) (if fld insn 9 5 = fld insn 20 16 then rotr (size_of (bit insn 31)) k (rx True (fld insn 20 16) g)
      else if bit insn 31 then drop_bit k (rx True (fld insn 20 16) g) OR push_bit (64 - k) (rx True (fld insn 9 5) g)
      else drop_bit k (low32 (rx True (fld insn 20 16) g)) OR low32 (push_bit (32 - k) (rx True (fld insn 9 5) g))) g" for g
    using assms unfolding a64_extr_def Let_def k(1) using k(2)
    by (cases "bit insn 31"; cases "fld insn 9 5 = fld insn 20 16"; simp add: rotr_value extr_value_64 extr_value_32 split del: if_split cong: if_cong)
  show ?thesis using assms k(2) unfolding effect_def dis_extr_def Let_def mk_ror_imm_64_def mk_ror_imm_32_def e k(1)
    by (cases "bit insn 31"; cases "fld insn 9 5 = fld insn 20 16"; cases "fld insn 4 0 = 31")
      (simp_all add: wp_simps app_simps rotr_trn(2) low32_drop low32_push del: of_nat_diff)
qed

section \<open>Reversals\<close>

text \<open>The exchange of neighbouring groups of \<open>k\<close> bits moves bit \<open>flip k i\<close> to bit \<open>i\<close>.\<close>

definition swp :: "nat \<Rightarrow> nat \<Rightarrow> u64 \<Rightarrow> u64 \<Rightarrow> u64 \<Rightarrow> u64" where
  "swp N k lo hi v = take_bit N (push_bit k (v AND lo) OR drop_bit k (v AND hi))"

definition flip :: "nat \<Rightarrow> nat \<Rightarrow> nat" where "flip k i = (if odd (i div k) then i - k else i + k)"

definition groups :: "nat \<Rightarrow> nat \<Rightarrow> u64 \<Rightarrow> u64 \<Rightarrow> bool" where
  "groups N k lo hi \<longleftrightarrow> take_bit N hi = hi \<and> (\<forall>i \<in> set [0..<N]. bit lo i = even (i div k) \<and> bit hi i = odd (i div k) \<and> flip k i < N)"

lemma groups_masks:
  "groups 64 1 0x5555555555555555 (NOT 0x5555555555555555)" "groups 64 2 0x3333333333333333 (NOT 0x3333333333333333)" "groups 64 4 0x0F0F0F0F0F0F0F0F (NOT 0x0F0F0F0F0F0F0F0F)"
  "groups 64 8 0x00FF00FF00FF00FF (NOT 0x00FF00FF00FF00FF)" "groups 64 16 0x0000FFFF0000FFFF (NOT 0x0000FFFF0000FFFF)" "groups 64 32 0x00000000FFFFFFFF (NOT 0x00000000FFFFFFFF)"
  by code_simp+

lemma bit_swp:
  assumes "groups N k lo hi" "i < N" "0 < k" "N \<le> 64"
  shows "bit (swp N k lo hi v) i = bit v (flip k i)"
proof -
  have g: "j < N \<Longrightarrow> bit lo j = even (j div k) \<and> bit hi j = odd (j div k) \<and> flip k j < N" for j using assms(1) by (simp add: groups_def)
  have h: "j < N" if "bit hi j" for j using assms(1) that by (metis groups_def bit_take_bit_iff)
  have b: "bit (swp N k lo hi v) i \<longleftrightarrow> k \<le> i \<and> bit v (i - k) \<and> bit lo (i - k) \<or> bit v (i + k) \<and> bit hi (i + k)"
    using assms(2,4) by (auto simp: swp_def bit_simps add.commute)
  have up: "(i + k) div k = i div k + 1" using assms(3) div_add_self2 [of k i] by simp
  show ?thesis
  proof (cases "k \<le> i")
    case True
    then have "(i - k) div k = i div k - 1" "0 < i div k" using assms(3) by (simp_all add: div_greater_zero_iff le_div_geq)
    then show ?thesis using True g [of "i - k"] g [of "i + k"] g [of i] h [of "i + k"] assms(2) up unfolding b flip_def by auto
  next
    case False
    then show ?thesis using g [of "i + k"] g [of i] assms(2) up unfolding b flip_def by auto
  qed
qed

text \<open>Sequences of exchanges.\<close>

lemma wp_swap_64:
  assumes "x < n" "unat c < 64" "operand Q n st vals mem (swp 64 (unat c) lo hi (vals x))"
  shows "wp E ctx K (swap_64 x lo hi c) Q L n st vals mem"
proof -
  have "unat ((ucast c :: u64) AND 63) = unat c" using shift_amount(1) [OF assms(2)] by simp
  moreover
  have "x \<noteq> n" "x \<noteq> Suc n" "x \<noteq> Suc (Suc n)" "x \<noteq> Suc (Suc (Suc n))" "x \<noteq> Suc (Suc (Suc (Suc n)))" using assms(1) by auto
  ultimately show ?thesis using assms unfolding operand_def swp_def by (simp add: swap_64_def wp_simps app_simps)
qed

lemma wp_swap_32:
  assumes "x < n" "unat c < 32" "low32 (vals x) = vals x" "operand Q n st vals mem (swp 32 (unat c) (ucast lo) (ucast hi) (vals x))"
  shows "wp E ctx K (swap_32 x lo hi c) Q L n st vals mem"
proof -
  have "unat ((ucast c :: u64) AND 63) = unat c" using shift_amount(1) [of "unat c"] assms(2) by simp
  moreover
  have "x \<noteq> n" "x \<noteq> Suc n" "x \<noteq> Suc (Suc n)" "x \<noteq> Suc (Suc (Suc n))" "x \<noteq> Suc (Suc (Suc (Suc n)))" using assms(1) by auto
  moreover have "low32 (drop_bit (unat c) (vals x)) = drop_bit (unat c) (vals x)" "low32 (drop_bit (unat c) (ucast hi)) = drop_bit (unat c) (ucast hi)"
    using low32_drop [of "unat c" "vals x"] low32_drop [of "unat c" "ucast hi"] by (simp_all add: assms(3) add_sub_imm_value(2))
  ultimately show ?thesis using assms unfolding operand_def swp_def by (simp add: swap_32_def wp_simps app_simps add_sub_imm_value(2))
qed

lemma operandI: "(\<And>n' vals' r. vals' r = v \<Longrightarrow> r < n' \<Longrightarrow> \<forall>q < n. vals' q = vals q \<Longrightarrow> n \<le> n' \<Longrightarrow> Q r n' st vals' mem) \<Longrightarrow> operand Q n st vals mem v"
  by (simp add: operand_def)

lemma operandD: "operand Q n st vals mem v \<Longrightarrow> vals' r = v \<Longrightarrow> r < n' \<Longrightarrow> \<forall>q < n. vals' q = vals q \<Longrightarrow> n \<le> n' \<Longrightarrow> Q r n' st vals' mem"
  by (simp add: operand_def)

lemma operand_later: "operand Q n st vals mem v \<Longrightarrow> n \<le> n' \<Longrightarrow> \<forall>q < n. vals' q = vals q \<Longrightarrow> operand Q n' st vals' mem v"
  by (rule operandI, erule operandD) auto

lemma wp_rbit_steps_64:
  "x < n \<Longrightarrow> \<forall>(m, c) \<in> set cs. unat c < 64 \<Longrightarrow> operand Q n st vals mem (foldl (\<lambda>v (m, c). swp 64 (unat c) m (NOT m) v) (vals x) cs) \<Longrightarrow>
    wp E ctx K (rbit_steps_64 cs x) Q L n st vals mem"
proof (induction cs arbitrary: x n vals)
  case Nil
  then show ?case by (simp add: wp_simps operand_def)
next
  case (Cons p cs)
  obtain m c where p: "p = (m, c)" by (cases p)
  show ?case unfolding p rbit_steps_64.simps
  proof (rule wp_bindI)
    show "wp E ctx K (swap_64 x m (NOT m) c) (\<lambda>r. wp E ctx K (rbit_steps_64 cs r) Q L) L n st vals mem"
      by (rule wp_swap_64, use Cons.prems p in simp, use Cons.prems p in simp, rule operandI, rule Cons.IH) (use Cons.prems p in \<open>auto elim!: operand_later\<close>)
  qed (simp_all add: app_simps)
qed

lemma wp_rbit_steps_32:
  "x < n \<Longrightarrow> \<forall>(m, c) \<in> set cs. unat c < 32 \<Longrightarrow> low32 (vals x) = vals x \<Longrightarrow>
    operand Q n st vals mem (foldl (\<lambda>v (m, c). swp 32 (unat c) (ucast m) (ucast (NOT m)) v) (vals x) cs) \<Longrightarrow>
    wp E ctx K (rbit_steps_32 cs x) Q L n st vals mem"
proof (induction cs arbitrary: x n vals)
  case Nil
  then show ?case by (simp add: wp_simps operand_def)
next
  case (Cons p cs)
  obtain m c where p: "p = (m, c)" by (cases p)
  show ?case unfolding p rbit_steps_32.simps
  proof (rule wp_bindI)
    show "wp E ctx K (swap_32 x m (NOT m) c) (\<lambda>r. wp E ctx K (rbit_steps_32 cs r) Q L) L n st vals mem"
      by (rule wp_swap_32, use Cons.prems p in simp, use Cons.prems p in simp, use Cons.prems p in simp, rule operandI, rule Cons.IH)
        (use Cons.prems p in \<open>auto simp: swp_def elim!: operand_later\<close>)
  qed (simp_all add: app_simps)
qed


section \<open>Values of the reversals\<close>

lemma groups_masks_32:
  "groups 32 1 0x55555555 0xAAAAAAAA" "groups 32 2 0x33333333 0xCCCCCCCC" "groups 32 4 0x0F0F0F0F 0xF0F0F0F0"
  "groups 32 8 0x00FF00FF 0xFF00FF00" "groups 32 16 0x0000FFFF 0xFFFF0000"
  by code_simp+

lemma flips_64:
  "\<forall>i \<in> set [0..<64]. flip 32 i < 64 \<and> flip 16 i < 64 \<and> flip 8 i < 64 \<and> flip 4 i < 64 \<and> flip 2 i < 64 \<and> flip 1 i < 64 \<and>
     flip 1 (flip 2 (flip 4 (flip 8 (flip 16 (flip 32 i))))) = 63 - i \<and>
     flip 8 i = 16 * (i div 16) + (8 - 8 * (i mod 16 div 8)) + i mod 8 \<and>
     flip 16 (flip 8 i) = 32 * (i div 32) + (24 - 8 * (i mod 32 div 8)) + i mod 8 \<and>
     flip 32 (flip 16 (flip 8 i)) = 64 * (i div 64) + (56 - 8 * (i mod 64 div 8)) + i mod 8"
  by code_simp

lemma flips_32:
  "\<forall>i \<in> set [0..<32]. flip 16 i < 32 \<and> flip 8 i < 32 \<and> flip 4 i < 32 \<and> flip 2 i < 32 \<and> flip 1 i < 32 \<and>
     flip 1 (flip 2 (flip 4 (flip 8 (flip 16 i)))) = 31 - i"
  by code_simp

lemma flips_64_D:
  assumes "i < 64"
  shows "flip 32 i < 64" "flip 16 i < 64" "flip 8 i < 64" "flip 4 i < 64" "flip 2 i < 64" "flip 1 i < 64"
    "flip 1 (flip 2 (flip 4 (flip 8 (flip 16 (flip 32 i))))) = 63 - i"
    "flip 8 i = 16 * (i div 16) + (8 - 8 * (i mod 16 div 8)) + i mod 8"
    "flip 16 (flip 8 i) = 32 * (i div 32) + (24 - 8 * (i mod 32 div 8)) + i mod 8"
    "flip 32 (flip 16 (flip 8 i)) = 64 * (i div 64) + (56 - 8 * (i mod 64 div 8)) + i mod 8"
proof -
  have "i \<in> set [0..<64]" using assms by simp
  note f = bspec [OF flips_64 this]
  show "flip 32 i < 64" "flip 16 i < 64" "flip 8 i < 64" "flip 4 i < 64" "flip 2 i < 64" "flip 1 i < 64"
    "flip 1 (flip 2 (flip 4 (flip 8 (flip 16 (flip 32 i))))) = 63 - i"
    "flip 8 i = 16 * (i div 16) + (8 - 8 * (i mod 16 div 8)) + i mod 8"
    "flip 16 (flip 8 i) = 32 * (i div 32) + (24 - 8 * (i mod 32 div 8)) + i mod 8"
    "flip 32 (flip 16 (flip 8 i)) = 64 * (i div 64) + (56 - 8 * (i mod 64 div 8)) + i mod 8"
    using f by blast+
qed

lemma flips_32_D:
  assumes "i < 32"
  shows "flip 16 i < 32" "flip 8 i < 32" "flip 4 i < 32" "flip 2 i < 32" "flip 1 i < 32" "flip 1 (flip 2 (flip 4 (flip 8 (flip 16 i)))) = 31 - i"
proof -
  have "i \<in> set [0..<32]" using assms by simp
  note f = bspec [OF flips_32 this]
  show "flip 16 i < 32" "flip 8 i < 32" "flip 4 i < 32" "flip 2 i < 32" "flip 1 i < 32" "flip 1 (flip 2 (flip 4 (flip 8 (flip 16 i)))) = 31 - i"
    using f by blast+
qed

lemma swp_eqI: "N \<le> 64 \<Longrightarrow> (\<And>i. i < N \<Longrightarrow> bit (swp N k lo hi v) i = P i) \<Longrightarrow> swp N k lo hi v = of_bits N P"
proof (rule bit_word_eqI)
  fix i
  assume a: "N \<le> 64" "\<And>i. i < N \<Longrightarrow> bit (swp N k lo hi v) i = P i"
  have "take_bit N (swp N k lo hi v) = swp N k lo hi v" unfolding swp_def take_bit_take_bit by simp
  then have "bit (swp N k lo hi v) i \<Longrightarrow> i < N" by (metis bit_take_bit_iff)
  then show "bit (swp N k lo hi v) i = bit (of_bits N P) i" using a by (auto simp: bit_of_bits)
qed

lemma rbit_value_64: "foldl (\<lambda>v (m, c). swp 64 (unat c) m (NOT m) v) v [(0x5555555555555555, 1), (0x3333333333333333, 2), (0x0F0F0F0F0F0F0F0F, 4),
    (0x00FF00FF00FF00FF, 8), (0x0000FFFF0000FFFF, 16), (0x00000000FFFFFFFF, 32 :: u8)] = rev_bits 64 v"
proof -
  have "bit (swp 64 32 0x00000000FFFFFFFF (NOT 0x00000000FFFFFFFF) (swp 64 16 0x0000FFFF0000FFFF (NOT 0x0000FFFF0000FFFF) (swp 64 8 0x00FF00FF00FF00FF (NOT 0x00FF00FF00FF00FF)
      (swp 64 4 0x0F0F0F0F0F0F0F0F (NOT 0x0F0F0F0F0F0F0F0F) (swp 64 2 0x3333333333333333 (NOT 0x3333333333333333) (swp 64 1 0x5555555555555555 (NOT 0x5555555555555555) v)))))) i
      = bit v (63 - i)" if "i < 64" for i
    using that by (simp only: bit_swp [OF groups_masks(1)] bit_swp [OF groups_masks(2)] bit_swp [OF groups_masks(3)] bit_swp [OF groups_masks(4)] bit_swp [OF groups_masks(5)] bit_swp [OF groups_masks(6)]
        flips_64_D(1-7) zero_less_numeral zero_less_one order.refl)
  from swp_eqI [OF order.refl this] show ?thesis by (simp add: rev_bits_def)
qed

lemma rbit_value_32: "foldl (\<lambda>v (m, c). swp 32 (unat c) (ucast m) (ucast (NOT m)) v) v [(0x55555555 :: u32, 1), (0x33333333, 2), (0x0F0F0F0F, 4), (0x00FF00FF, 8),
    (0x0000FFFF, 16 :: u8)] = rev_bits 32 v"
proof -
  have "bit (swp 32 16 0x0000FFFF 0xFFFF0000 (swp 32 8 0x00FF00FF 0xFF00FF00 (swp 32 4 0x0F0F0F0F 0xF0F0F0F0 (swp 32 2 0x33333333 0xCCCCCCCC (swp 32 1 0x55555555 0xAAAAAAAA v))))) i
      = bit v (31 - i)" if "i < 32" for i
    using that by (simp only: bit_swp [OF groups_masks_32(1)] bit_swp [OF groups_masks_32(2)] bit_swp [OF groups_masks_32(3)] bit_swp [OF groups_masks_32(4)] bit_swp [OF groups_masks_32(5)]
        flips_32_D zero_less_numeral zero_less_one numeral_le_iff le_num_simps)
  from swp_eqI [OF _ this] show ?thesis by (simp add: rev_bits_def)
qed

lemma groups_bytes:
  "groups 64 8 0x00FF00FF00FF00FF 0xFF00FF00FF00FF00" "groups 64 16 0x0000FFFF0000FFFF 0xFFFF0000FFFF0000" "groups 64 32 0x00000000FFFFFFFF 0xFFFFFFFF00000000"
  by code_simp+

lemma rev_values:
  "swp 64 8 0x00FF00FF00FF00FF 0xFF00FF00FF00FF00 v = rev_bytes 64 16 v"
  "swp 64 8 0x00FF00FF00FF00FF 0xFF00FF00FF00FF00 (swp 64 16 0x0000FFFF0000FFFF 0xFFFF0000FFFF0000 v) = rev_bytes 64 32 v"
  "swp 64 8 0x00FF00FF00FF00FF 0xFF00FF00FF00FF00 (swp 64 16 0x0000FFFF0000FFFF 0xFFFF0000FFFF0000 (swp 64 32 0x00000000FFFFFFFF 0xFFFFFFFF00000000 v)) = rev_bytes 64 64 v"
  "swp 32 8 0x00FF00FF 0xFF00FF00 v = rev_bytes 32 16 v"
  "swp 32 8 0x00FF00FF 0xFF00FF00 (swp 32 16 0x0000FFFF 0xFFFF0000 v) = rev_bytes 32 32 v"
proof -
  have l: "i < 64" if "i < 32" for i :: nat using that by simp
  note b = bit_swp [OF groups_bytes(1)] bit_swp [OF groups_bytes(2)] bit_swp [OF groups_bytes(3)] bit_swp [OF groups_masks_32(4)] bit_swp [OF groups_masks_32(5)]
    flips_64_D(2,3) flips_32_D(1,2) zero_less_numeral order.refl numeral_le_iff le_num_simps
  show "swp 64 8 0x00FF00FF00FF00FF 0xFF00FF00FF00FF00 v = rev_bytes 64 16 v"
    unfolding rev_bytes_def by (rule swp_eqI) (simp_all only: b, simp add: flips_64_D(8))
  show "swp 64 8 0x00FF00FF00FF00FF 0xFF00FF00FF00FF00 (swp 64 16 0x0000FFFF0000FFFF 0xFFFF0000FFFF0000 v) = rev_bytes 64 32 v"
    unfolding rev_bytes_def by (rule swp_eqI) (simp_all only: b, simp add: flips_64_D(9))
  show "swp 64 8 0x00FF00FF00FF00FF 0xFF00FF00FF00FF00 (swp 64 16 0x0000FFFF0000FFFF 0xFFFF0000FFFF0000 (swp 64 32 0x00000000FFFFFFFF 0xFFFFFFFF00000000 v)) = rev_bytes 64 64 v"
    unfolding rev_bytes_def by (rule swp_eqI) (simp_all only: b, simp add: flips_64_D(10))
  show "swp 32 8 0x00FF00FF 0xFF00FF00 v = rev_bytes 32 16 v"
    unfolding rev_bytes_def by (rule swp_eqI) (simp_all only: b, simp add: flips_64_D(8) l)
  show "swp 32 8 0x00FF00FF 0xFF00FF00 (swp 32 16 0x0000FFFF 0xFFFF0000 v) = rev_bytes 32 32 v"
    unfolding rev_bytes_def by (rule swp_eqI) (simp_all only: b, simp add: flips_64_D(9) l)
qed

section \<open>One source\<close>

lemma swp_low [simp]: "low32 (swp 32 k lo hi v) = swp 32 k lo hi v"
  by (simp only: swp_def take_bit_take_bit min.idem)

declare rbit_steps_64.simps [simp del] rbit_steps_32.simps [simp del]

lemma wp_rbit:
  assumes "\<And>n' vals' mem'. guest ctx mem' = wx True (fld insn 4 0) (rev_bits (size_of (bit insn 31)) (rx True (fld insn 9 5) (guest ctx mem))) (guest ctx mem) \<Longrightarrow> Q False n' st vals' mem'"
  shows "wp E ctx K (dis_rbit c insn) Q L n st vals mem"
proof (cases "bit insn 31")
  case True
  then show ?thesis unfolding dis_rbit_def dis_rbit_64_def
    by (simp add: wp_simps app_simps, intro wp_rbit_steps_64 operandI) (auto simp: wp_simps app_simps intro!: assms simp del: foldl_Cons simp add: rbit_value_64)
next
  case False
  have "rev_bits 32 (low32 v) = rev_bits 32 v" for v by (rule bit_word_eqI) (auto simp: rev_bits_def bit_of_bits bit_take_bit_iff)
  moreover have "low32 (rev_bits 32 v) = rev_bits 32 v" for v by (rule bit_word_eqI) (auto simp: rev_bits_def bit_of_bits bit_take_bit_iff)
  ultimately show ?thesis using False unfolding dis_rbit_def dis_rbit_32_def
    by (simp add: wp_simps app_simps, intro wp_rbit_steps_32 operandI) (auto simp: wp_simps app_simps intro!: assms simp del: foldl_Cons simp add: rbit_value_32)
qed

lemma low32_rev_bytes: "low32 (rev_bytes 32 e v) = rev_bytes 32 e v" "e = 16 \<or> e = 32 \<Longrightarrow> rev_bytes 32 e (low32 v) = rev_bytes 32 e v"
proof -
  show "low32 (rev_bytes 32 e v) = rev_bytes 32 e v" by (rule bit_word_eqI) (auto simp: rev_bytes_def bit_of_bits bit_take_bit_iff)
  have "swp 32 k (ucast (lo :: u32)) (ucast (hi :: u32)) (low32 v) = swp 32 k (ucast lo) (ucast hi) v" for k lo hi
    by (rule bit_word_eqI) (auto simp: swp_def bit_simps dest: bit_imp_le_length)
  from this [of 8 "0x00FF00FF" "0xFF00FF00"] this [of 16 "0xFFFF" "0xFFFF0000"] rev_values(4,5) [of "low32 v"] rev_values(4,5) [of v]
  show "e = 16 \<or> e = 32 \<Longrightarrow> rev_bytes 32 e (low32 v) = rev_bytes 32 e v" by auto
qed

lemma wp_rev:
  assumes "\<And>n' vals' mem'. guest ctx mem' = wx True (fld insn 4 0) (rev_bytes (size_of (bit insn 31)) e (rx True (fld insn 9 5) (guest ctx mem))) (guest ctx mem) \<Longrightarrow> Q False n' st vals' mem'"
  shows "e = 16 \<Longrightarrow> wp E ctx K (dis_rev16 c insn) Q L n st vals mem"
    "e = 32 \<Longrightarrow> bit insn 31 \<Longrightarrow> wp E ctx K (dis_rev32 c insn) Q L n st vals mem"
    "e = size_of (bit insn 31) \<Longrightarrow> wp E ctx K (dis_rev c insn) Q L n st vals mem"
proof -
  show "wp E ctx K (dis_rev16 c insn) Q L n st vals mem" if "e = 16"
  proof (cases "bit insn 31")
    case True
    with that show ?thesis unfolding dis_rev16_def Let_def by (simp add: wp_simps app_simps, intro wp_swap_64 operandI) (auto simp: wp_simps app_simps rev_values(1) intro!: assms)
  next
    case False
    with that show ?thesis unfolding dis_rev16_def Let_def by (simp add: wp_simps app_simps, intro wp_swap_32 operandI) (auto simp: wp_simps app_simps rev_values(4) low32_rev_bytes intro!: assms)
  qed
  show "wp E ctx K (dis_rev32 c insn) Q L n st vals mem" if "e = 32" "bit insn 31"
    using that unfolding dis_rev32_def by (simp add: wp_simps app_simps, intro wp_swap_64 operandI) (auto simp: wp_simps app_simps rev_values(2) intro!: assms)
  show "wp E ctx K (dis_rev c insn) Q L n st vals mem" if "e = size_of (bit insn 31)"
  proof (cases "bit insn 31")
    case True
    with that show ?thesis unfolding dis_rev_def Let_def by (simp add: wp_simps app_simps, intro wp_swap_64 operandI) (auto simp: wp_simps app_simps rev_values(3) intro!: assms)
  next
    case False
    with that show ?thesis unfolding dis_rev_def Let_def by (simp add: wp_simps app_simps, intro wp_swap_32 operandI) (auto simp: wp_simps app_simps rev_values(5) low32_rev_bytes intro!: assms)
  qed
qed

section \<open>Counts\<close>

lemma leading_Suc: "leading P (Suc n) v = (if P (bit v n) then Suc (leading P n v) else 0)"
  by (simp add: leading_def)

lemma leading_bound: "leading P n v \<le> n"
  using length_takeWhile_le [of P "rev (map (bit v) [0..<n])"] by (simp add: leading_def)

lemma low_bit: "drop_bit i (v :: u64) AND 1 = of_bool (bit v i)"
  by (rule bit_word_eqI) (auto simp: bit_simps)

lemma clz_leading: "clz_from v n = of_nat (leading Not n v)"
  by (induction n) (simp_all add: leading_Suc low_bit leading_def)

lemma cls_leading: "cls_from v (of_bool s) n = of_nat (leading (\<lambda>b. b = s) n v)"
  by (induction n) (simp_all add: leading_Suc low_bit leading_def)

lemma low32_count: "n \<le> 64 \<Longrightarrow> low32 (of_nat (leading P n v)) = of_nat (leading P n v)"
proof -
  assume "n \<le> 64"
  then have "leading P n v < 2 ^ 32" using leading_bound [of P n v] by simp
  then show ?thesis by (simp add: take_bit_of_nat take_bit_nat_eq_self)
qed

lemma wp_count:
  assumes "helpers_linked E (hlp_addr c)"
    "\<And>n' vals' mem'. guest ctx mem' = wx True (fld insn 4 0) (of_nat (leading P k (rx True (fld insn 9 5) (guest ctx mem)))) (guest ctx mem) \<Longrightarrow> Q False n' st vals' mem'"
  shows "P = Not \<Longrightarrow> k = size_of (bit insn 31) \<Longrightarrow> wp E ctx K (dis_clz c insn) Q L n st vals mem"
    "P = (\<lambda>b. b = bit (rx True (fld insn 9 5) (guest ctx mem)) k) \<Longrightarrow> k = size_of (bit insn 31) - 1 \<Longrightarrow> wp E ctx K (dis_cls c insn) Q L n st vals mem"
proof -
  have l: "linked64 E (hlp_addr c ''arm64_hlp_clz'') 2 (\<lambda>as. Some (arm64_hlp_clz (as ! 0) (ucast (as ! 1))))"
     "linked64 E (hlp_addr c ''arm64_hlp_cls'') 2 (\<lambda>as. Some (arm64_hlp_cls (as ! 0) (ucast (as ! 1))))" using assms(1) by (simp_all add: helpers_linked_def)
  note s = wp_simps app_simps wp_mk_call_64 [OF l(1)] wp_mk_call_64 [OF l(2)] call_args_def arm64_hlp_clz_def arm64_hlp_cls_def clz_leading cls_leading low_bit low32_count
  show "wp E ctx K (dis_clz c insn) Q L n st vals mem" if "P = Not" "k = size_of (bit insn 31)"
    using that assms(2) by (cases "bit insn 31"; cases "fld insn 4 0 = 31") (simp_all add: dis_clz_def s)
  show "wp E ctx K (dis_cls c insn) Q L n st vals mem" if "P = (\<lambda>b. b = bit (rx True (fld insn 9 5) (guest ctx mem)) k)" "k = size_of (bit insn 31) - 1"
    using that assms(2) by (cases "bit insn 31"; cases "fld insn 4 0 = 31") (simp_all add: dis_cls_def s)
qed

lemma data_1_effect:
  assumes "helpers_linked E (hlp_addr c)" "fld insn 15 10 < 6" "fld insn 15 10 = 3 \<longrightarrow> bit insn 31"
  shows "effect E ctx K (dis_data_processing_1_source c insn) (a64_data_1 insn)"
proof -
  note d = effect_def dis_data_processing_1_source_def a64_data_1_def Let_def
  consider (rbit) "fld insn 15 10 = 0" | (rev16) "fld insn 15 10 = 1" | (rev32) "fld insn 15 10 = 2" | (rev) "fld insn 15 10 = 3" | (clz) "fld insn 15 10 = 4" | (cls) "fld insn 15 10 = 5"
    using assms(2) by linarith
  then show ?thesis
  proof cases
    case rbit
    then show ?thesis by (simp add: d split del: if_split, intro allI) (rule wp_rbit, simp)
  next
    case rev16
    then show ?thesis by (simp add: d split del: if_split, intro allI) (rule wp_rev(1), simp_all)
  next
    case rev32
    then show ?thesis by (cases "bit insn 31") (simp_all add: d, (intro allI, rule wp_rev(2), simp_all)[1], intro allI, rule wp_rev(3), simp_all)
  next
    case rev
    then show ?thesis using assms(3) by (simp add: d split del: if_split, intro allI) (rule wp_rev(3), simp_all)
  next
    case clz
    then show ?thesis by (simp add: d split del: if_split, intro allI) (rule wp_count(1) [OF assms(1)], simp_all)
  next
    case cls
    then show ?thesis by (simp add: d split del: if_split, intro allI) (rule wp_count(2) [OF assms(1)], simp_all)
  qed
qed

end
