(* ===== verification/Arm64_Sem_Branch.thy ===== *)
theory Arm64_Sem_Branch
  imports Arm64_Spec_Insn Arm64_Sem_Logic
begin

text \<open>Branches: the code leaves the block with the address the architecture goes on at.\<close>

section \<open>Branches\<close>

lemma wp_stepin_exit [wp_simps]: "wp E ctx K (stepin_exit c) Q L n False vals mem = Q () n False vals mem"
  by (simp add: stepin_exit_if wp_simps)

lemma wp_mk_exit [wp_simps]:
  "wp E ctx K (mk_exit c r) Q L n False vals mem = L (vals r) (K r) (set_field ctx off_pc 8 (vals r) mem)"
  "wp E ctx K (mk_exit_pred c r p) Q L n False vals mem = (if vals p = 0 then Q () n False vals (set_field ctx off_pc 8 (vals r) mem)
     else L (vals r) (K r) (set_field ctx off_pc 8 (vals r) mem))"
  by (simp_all add: mk_exit_def mk_exit_pred_def wp_simps app_simps)

text \<open>Code that leaves the block with the address the guest goes on at.\<close>

definition leaves :: "xenv \<Rightarrow> u64 \<Rightarrow> (nat \<Rightarrow> bool) \<Rightarrow> u64 \<Rightarrow> bool dis \<Rightarrow> (guest \<Rightarrow> guest) \<Rightarrow> bool" where
  "leaves E ctx K pc p f \<longleftrightarrow> (\<forall>n vals mem. let g = f ((guest ctx mem)\<lparr>gPC := pc\<rparr>) in
     wp E ctx K p (\<lambda>_ _ _ _ _. False) (\<lambda>v k mem'. guest ctx mem' = g \<and> v = gPC g) n False vals mem)"

lemma pc_simps [simp]:
  "rx z i (g\<lparr>gPC := p\<rparr>) = rx z i g" "(set_x i v g)\<lparr>gPC := p\<rparr> = set_x i v (g\<lparr>gPC := p\<rparr>)" "gPC (set_x i v g) = gPC g" "gNZCV (set_x i v g) = gNZCV g"
  by (simp_all add: rx_def set_x_def)

lemma branch_offset_sext:
  "sext 36 (ucast (push_bit 2 (INSN insn 25 0))) = branch_offset insn 25 0"
  "sext 43 (ucast (push_bit 2 (INSN insn 23 5))) = branch_offset insn 23 5"
  "sext 48 (ucast (push_bit 2 (INSN insn 18 5))) = branch_offset insn 18 5"
proof -
  have u: "(ucast (push_bit 2 (INSN insn msb lsb)) :: u64) = push_bit 2 (ucast (INSN insn msb lsb))" if "msb - lsb < 30" for msb lsb
    using that by (intro bit_word_eqI) (auto simp: bit_push_bit_iff bit_ucast_iff bit_INSN)
  have s: "signed_take_bit (Suc (Suc k)) (push_bit 2 x) = push_bit 2 (signed_take_bit k x)" if "k < 62" for k and x :: u64
    using that by (intro bit_word_eqI) (auto simp: bit_signed_take_bit_iff bit_push_bit_iff min_def)
  show "sext 36 (ucast (push_bit 2 (INSN insn 25 0))) = branch_offset insn 25 0" "sext 43 (ucast (push_bit 2 (INSN insn 23 5))) = branch_offset insn 23 5"
    "sext 48 (ucast (push_bit 2 (INSN insn 18 5))) = branch_offset insn 18 5"
    using s [of 25] s [of 18] s [of 13] by (simp_all only: u) (simp_all add: sext_signed branch_offset_def eval_nat_numeral)
qed

lemma b_leaves: "leaves E ctx K (ctx_pc c) (dis_b_A_bl c insn) (a64_b insn)"
  unfolding leaves_def dis_b_A_bl_def a64_b_def Let_def branch_offset_sext
  by (cases "bit insn 31") (simp_all add: wp_simps app_simps wx_def)

lemma br_leaves:
  assumes "fld insn 24 21 = fld insn 22 21" "fld insn 22 21 \<noteq> 3"
  shows "leaves E ctx K (ctx_pc c) (dis_unconditionnal_branch_register c insn) (a64_br insn)"
proof -
  have "fld insn 22 21 < 4" using INSN_bound [of 22 21 insn] by simp
  then have "fld insn 22 21 = 0 \<or> fld insn 22 21 = 1 \<or> fld insn 22 21 = 2" using assms(2) by linarith
  then show ?thesis unfolding leaves_def dis_unconditionnal_branch_register_def dis_br_def dis_blr_def dis_ret_def a64_br_def Let_def assms(1)
    by (elim disjE) (simp_all add: wp_simps app_simps wx_def)
qed

lemma app_branch_exits [app_simps]: "app wide \<Longrightarrow> app (branch_exits c pred wide imm)"
  by (simp add: branch_exits_if app_simps)

lemma wp_branch_exits [wp_simps]:
  assumes "pred < n" "app wide"
  shows "wp E ctx K (branch_exits c pred wide imm) Q L n False vals mem = (if vals pred = 0
     then L (ctx_pc c + 4) (K (Suc n)) (set_field ctx off_pc 8 (ctx_pc c + 4) (set_field ctx off_pc 8 (ctx_pc c + imm) mem))
     else L (ctx_pc c + imm) (K n) (set_field ctx off_pc 8 (ctx_pc c + imm) mem))"
  using assms by (simp add: branch_exits_if wp_simps app_simps)

lemma b_cond_leaves:
  assumes "helpers_linked E (hlp_addr c)"
  shows "leaves E ctx K (ctx_pc c) (dis_conditionnal_branch_immediate_insn c insn) (a64_b_cond insn)"
proof -
  have "unat (INSN insn 3 0) < 16" using INSN_bound [of 3 0 insn] by simp
  then show ?thesis unfolding leaves_def dis_conditionnal_branch_immediate_insn_def a64_b_cond_def branch_if_def Let_def branch_offset_sext
    using assms by (simp add: wp_simps app_simps)
qed

lemma cbz_leaves: "leaves E ctx K (ctx_pc c) (dis_cbz_A_cbnz c insn) (a64_cbz insn)"
  unfolding leaves_def dis_cbz_A_cbnz_def a64_cbz_def branch_if_def Let_def branch_offset_sext
  by (cases "bit insn 24"; cases "bit insn 31") (simp_all add: wp_simps app_simps trn_def)

lemma tbz_position: "unat (push_bit 5 (INSN insn 31 31) OR INSN insn 23 19) = 32 * of_bool (bit insn 31) + fld insn 23 19"
proof -
  have "INSN insn 31 31 = of_bool (bit insn 31)" by (rule bit_word_eqI) (auto simp: bit_INSN bit_simps)
  moreover have "push_bit 5 (of_bool (bit insn 31)) OR INSN insn 23 19 = push_bit 5 (of_bool (bit insn 31)) + INSN insn 23 19"
    by (rule disjunctive_add [symmetric]) (simp only: bit_push_bit_iff bit_of_bool_iff bit_INSN, auto)
  ultimately show ?thesis using INSN_bound [of 23 19 insn] by (cases "bit insn 31") (simp_all add: push_bit_eq_mult unat_word_ariths)
qed

lemma tbz_leaves: "leaves E ctx K (ctx_pc c) (dis_tbz_A_tbnz c insn) (a64_tbz insn)"
proof -
  define k where "k = 32 * of_bool (bit insn 31) + fld insn 23 19"
  have "k < 64" using INSN_bound [of 23 19 insn] by (auto simp: k_def)
  then have "(v AND 2 ^ k = 0) = (\<not> bit v k)" for v :: u64 using and_exp_eq_0_iff_not_bit [of v k] by simp
  then show ?thesis
    unfolding leaves_def dis_tbz_A_tbnz_def a64_tbz_def branch_if_def Let_def branch_offset_sext tbz_position k_def [symmetric]
    by (cases "bit insn 24") (simp_all add: wp_simps app_simps)
qed

end
