(* ===== verification/Arm64_Sem_Mem.thy ===== *)
theory Arm64_Sem_Mem
  imports Arm64_Sem_Branch
begin

text \<open>Loads and stores of addresses outside of the structure that holds the registers.\<close>

section \<open>Loads and stores\<close>

declare read_mem.simps [simp del] write_mem.simps [simp del]

lemma write_mem_narrow: "write_mem m a 1 (take_bit 8 v) = write_mem m a 1 v" "write_mem m a 2 (take_bit 16 v) = write_mem m a 2 v" "write_mem m a 4 (low32 v) = write_mem m a 4 v"
  by (simp_all add: write_mem_trunc)

lemma read_mem_narrow: "take_bit 8 (read_mem m a 1) = read_mem m a 1" "take_bit 16 (read_mem m a 2) = read_mem m a 2" "low32 (read_mem m a 4) = read_mem m a 4"
  using read_mem_take_bit [of 1 m a] read_mem_take_bit [of 2 m a] read_mem_take_bit [of 4 m a] by simp_all

lemma wp_access:
  assumes "a < n" "rt < 32" "sz < 4" "access_valid sz opc" "outside ctx (vals a) (2 ^ sz)"
    "\<And>n' vals' mem'. guest ctx mem' = a64_access sz opc rt (vals a) (guest ctx mem) \<Longrightarrow> \<forall>q < n. vals' q = vals q \<Longrightarrow> n \<le> n' \<Longrightarrow> Q False n' st vals' mem'"
  shows "wp E ctx K (dis_load_store_register c sz opc rt a) Q L n st vals mem"
proof -
  have sz: "sz = 0 \<or> sz = 1 \<or> sz = 2 \<or> sz = 3" using assms(3) by linarith
  have opc: "opc = 0 \<or> opc = 1 \<or> opc = 2 \<and> sz < 3 \<or> opc = 3 \<and> sz < 2" using assms(4) by (auto simp: access_valid_def)
  have ne: "a \<noteq> n" "a \<noteq> Suc n" using assms(1) by auto
  have g: "guest ctx (write_mem mem (vals a) (2 ^ sz) v) = (guest ctx mem)\<lparr>gMEM := write_mem (gMEM (guest ctx mem)) (vals a) (2 ^ sz) v\<rparr>" for v
    by (rule guest_store [OF assms(5)]) (use sz in auto)
  note l = guest_load [OF assms(5), of mem]
  have Q: "Q False n' st vals' mem'" if "guest ctx mem' = a64_access sz opc rt (vals a) (guest ctx mem)" "\<forall>q < n. vals' q = vals q" "n \<le> n'" for n' vals' mem'
    using that by (rule assms(6))
  note d = dis_load_store_register_def wp_simps app_simps
  show ?thesis using opc
  proof (elim disjE conjE)
    assume o: "opc = 0"
    show ?thesis using sz g Q assms(1,2) ne unfolding o d
      by (elim disjE) (simp_all add: d a64_access_def write_mem_narrow Let_def del: One_nat_def)
  next
    assume o: "opc = 1"
    show ?thesis using sz l Q assms(1,2) ne unfolding o d
      by (elim disjE) (simp_all add: d a64_access_def read_mem_narrow Let_def del: One_nat_def)
  next
    assume o: "opc = 2" "sz < 3"
    show ?thesis using sz l Q assms(1,2) ne o(2) unfolding o(1) d
      by (elim disjE) (simp_all add: d a64_access_def read_mem_narrow Let_def del: One_nat_def)
  next
    assume o: "opc = 3" "sz < 2"
    show ?thesis using sz l Q assms(1,2) ne o(2) unfolding o(1) d
      by (elim disjE; cases "rt = 31") (simp_all add: d a64_access_def read_mem_narrow Let_def del: One_nat_def)
  qed
qed

definition effect_on :: "xenv \<Rightarrow> u64 \<Rightarrow> (nat \<Rightarrow> bool) \<Rightarrow> (guest \<Rightarrow> bool) \<Rightarrow> bool dis \<Rightarrow> (guest \<Rightarrow> guest) \<Rightarrow> bool" where
  "effect_on E ctx K P p f \<longleftrightarrow> (\<forall>n st vals mem. P (guest ctx mem) \<longrightarrow>
     wp E ctx K p (\<lambda>r n' st' vals' mem'. \<not> r \<and> st' = st \<and> guest ctx mem' = f (guest ctx mem)) (\<lambda>_ _ _. False) n st vals mem)"

lemma effect_effect_on: "effect E ctx K p f \<Longrightarrow> effect_on E ctx K P p f"
  by (simp add: effect_def effect_on_def)

lemma fld_size [simp]: "fld insn 31 30 < 4"
  using INSN_bound [of 31 30 insn] by simp

lemma scaled_offset: "(ucast (push_bit (fld insn 31 30) (INSN insn 21 10)) :: u64) = of_nat (fld insn 21 10 * 2 ^ fld insn 31 30)"
proof -
  have "fld insn 31 30 = 0 \<or> fld insn 31 30 = 1 \<or> fld insn 31 30 = 2 \<or> fld insn 31 30 = 3" using fld_size [of insn] by linarith
  then have "unat (push_bit (fld insn 31 30) (INSN insn 21 10)) = fld insn 21 10 * 2 ^ fld insn 31 30"
    using INSN_bound [of 21 10 insn] by (elim disjE) (simp_all add: push_bit_eq_mult unat_word_ariths)
  from arg_cong [OF this, of "of_nat :: nat \<Rightarrow> u64"] show ?thesis by simp
qed

lemma immediate_offset: "sext 55 (ucast (INSN insn 20 12)) = signed_take_bit 8 (of_nat (fld insn 20 12) :: u64)"
  by (simp add: sext_signed)

definition at_address :: "u64 \<Rightarrow> addressing \<Rightarrow> u32 \<Rightarrow> guest \<Rightarrow> bool" where
  "at_address ctx m insn g = outside ctx (address_of m insn g) (2 ^ fld insn 31 30)"

lemma valid_not_prefetch: "access_valid sz opc \<Longrightarrow> \<not> (sz = 3 \<and> opc = 2)"
  by (auto simp: access_valid_def)

lemma load_store_effects:
  assumes v: "access_valid (fld insn 31 30) (fld insn 23 22)"
  shows "effect_on E ctx K (at_address ctx Scaled insn) (dis_load_store_register_unsigned_offset c insn) (a64_load_store Scaled insn)"
    "effect_on E ctx K (at_address ctx Unscaled insn) (dis_load_store_register_unscaled_immediate c insn) (a64_load_store Unscaled insn)"
    "effect_on E ctx K (at_address ctx Post insn) (dis_load_store_register_immediate_post_indexed c insn) (a64_load_store Post insn)"
    "effect_on E ctx K (at_address ctx Pre insn) (dis_load_store_register_immediate_pre_indexed c insn) (a64_load_store Pre insn)"
proof -
  note d = effect_on_def at_address_def address_of_def offset_of_def a64_load_store_def Let_def
  show "effect_on E ctx K (at_address ctx Scaled insn) (dis_load_store_register_unsigned_offset c insn) (a64_load_store Scaled insn)"
    unfolding d dis_load_store_register_unsigned_offset_def scaled_offset if_not_P [OF valid_not_prefetch [OF v]]
    by (auto simp: wp_simps app_simps v intro!: wp_access simp del: of_nat_mult)
  show "effect_on E ctx K (at_address ctx Unscaled insn) (dis_load_store_register_unscaled_immediate c insn) (a64_load_store Unscaled insn)"
    unfolding d dis_load_store_register_unscaled_immediate_def immediate_offset if_not_P [OF valid_not_prefetch [OF v]]
    by (auto simp: wp_simps app_simps v intro!: wp_access)
  show "effect_on E ctx K (at_address ctx Post insn) (dis_load_store_register_immediate_post_indexed c insn) (a64_load_store Post insn)"
    unfolding d dis_load_store_register_immediate_post_indexed_def immediate_offset
    by (auto simp: wp_simps app_simps v intro!: wp_access)
  show "effect_on E ctx K (at_address ctx Pre insn) (dis_load_store_register_immediate_pre_indexed c insn) (a64_load_store Pre insn)"
    unfolding d dis_load_store_register_immediate_pre_indexed_def immediate_offset
    by (auto simp: wp_simps app_simps v intro!: wp_access)
qed

lemma indexed_effect:
  assumes v: "access_valid (fld insn 31 30) (fld insn 23 22)" and o: "fld insn 15 13 \<in> {2, 3, 6, 7}"
  shows "effect_on E ctx K (at_address ctx Indexed insn) (dis_load_store_register_register_offset c insn) (a64_load_store Indexed insn)"
proof -
  note d = effect_on_def at_address_def address_of_def offset_of_def a64_load_store_def Let_def
  have o': "fld insn 15 13 = 2 \<or> fld insn 15 13 = 3 \<or> fld insn 15 13 = 6 \<or> fld insn 15 13 = 7" using o by simp
  have s: "unat ((ucast (word_of_nat (fld insn 31 30) :: u8) :: u64) AND 63) = fld insn 31 30" by (rule shift_amount(1)) (use fld_size [of insn] in linarith)
  show ?thesis using o' s v
    unfolding d dis_load_store_register_register_offset_def if_not_P [OF valid_not_prefetch [OF v]]
    by (elim disjE; cases "bit insn 12"; cases "fld insn 31 30 = 0")
      (auto simp: wp_simps app_simps v extend_reg_def signed_take_bit_63 signed_take_low intro!: wp_access)
qed

section \<open>Pairs and literals\<close>

lemma pair_offset_sext: "push_bit (if bit insn 31 then 3 else 2) (sext 57 (ucast (INSN insn 21 15))) = pair_offset insn"
  by (simp add: pair_offset_def sext_signed)

definition at_pair :: "u64 \<Rightarrow> u32 \<Rightarrow> guest \<Rightarrow> bool" where
  "at_pair ctx insn g = (let n = if bit insn 31 then 8 else 4 in outside ctx (pair_address insn g) n \<and> outside ctx (pair_address insn g + of_nat n) n)"

lemma literal_effect:
  assumes "fld insn 31 30 \<noteq> 3"
  shows "effect_on E ctx K (\<lambda>g. outside ctx (ctx_pc c + branch_offset insn 23 5) (if fld insn 31 30 = 1 then 8 else 4)) (dis_load_register_literal c insn)
    (\<lambda>g. a64_access (if fld insn 31 30 = 1 then 3 else 2) (if fld insn 31 30 = 2 then 2 else 1) (fld insn 4 0) (ctx_pc c + branch_offset insn 23 5) g)"
proof -
  have "fld insn 31 30 = 0 \<or> fld insn 31 30 = 1 \<or> fld insn 31 30 = 2" using assms fld_size [of insn] by linarith
  note opc = this
  show ?thesis unfolding effect_on_def
  proof (intro allI impI)
    fix n st vals mem
    let ?a = "ctx_pc c + branch_offset insn 23 5"
    assume o: "outside ctx ?a (if fld insn 31 30 = 1 then 8 else 4)"
    show "wp E ctx K (dis_load_register_literal c insn) (\<lambda>r n' st' vals' mem'. \<not> r \<and> st' = st \<and> guest ctx mem' =
        a64_access (if fld insn 31 30 = 1 then 3 else 2) (if fld insn 31 30 = 2 then 2 else 1) (fld insn 4 0) ?a (guest ctx mem)) (\<lambda>_ _ _. False) n st vals mem"
      using opc guest_load [OF o, of mem] unfolding dis_load_register_literal_def branch_offset_sext Let_def
      by (elim disjE; cases "fld insn 4 0 = 31") (simp_all add: wp_simps app_simps a64_access_def read_mem_narrow Let_def)
  qed
qed

lemma gMEM_wx [simp]: "gMEM (wx z i v g) = gMEM g"
  by (simp add: wx_def set_x_def)

lemma wp_one:
  assumes "a < n" "rt < 32"
    "\<And>n' vals' mem'. guest ctx mem' = a64_access sz opc rt (vals a) (guest ctx mem) \<Longrightarrow> \<forall>q < n. vals' q = vals q \<Longrightarrow> n \<le> n' \<Longrightarrow> Q () n' st vals' mem'"
  shows
    "outside ctx (vals a) 8 \<Longrightarrow> sz = 3 \<Longrightarrow> opc = 1 \<Longrightarrow> wp E ctx K (call1 (\<lambda>v. write_x rt v True) (add_load_64 a)) Q L n st vals mem"
    "outside ctx (vals a) 4 \<Longrightarrow> sz = 2 \<Longrightarrow> opc = 1 \<Longrightarrow> wp E ctx K (call1 (\<lambda>v. write_w rt v True) (add_load_32 a)) Q L n st vals mem"
    "outside ctx (vals a) 4 \<Longrightarrow> sz = 2 \<Longrightarrow> opc = 2 \<Longrightarrow> wp E ctx K (call1 (\<lambda>v. write_w_sign_extend rt v True) (add_load_32 a)) Q L n st vals mem"
    "outside ctx (vals a) 8 \<Longrightarrow> sz = 3 \<Longrightarrow> opc = 0 \<Longrightarrow> wp E ctx K (call1 (\<lambda>v. add_store_64 v a) (read_x rt True)) Q L n st vals mem"
    "outside ctx (vals a) 4 \<Longrightarrow> sz = 2 \<Longrightarrow> opc = 0 \<Longrightarrow> wp E ctx K (call1 (\<lambda>v. add_store_32 v a) (read_w rt True)) Q L n st vals mem"
proof -
  have ne: "a \<noteq> n" using assms(1) by auto
  note d = wp_simps app_simps a64_access_def Let_def
  have Q: "Q () n' st vals' mem'" if "guest ctx mem' = a64_access sz opc rt (vals a) (guest ctx mem)" "\<forall>q < n. vals' q = vals q" "n \<le> n'" for n' vals' mem'
    using that by (rule assms(3))
  show "wp E ctx K (call1 (\<lambda>v. write_x rt v True) (add_load_64 a)) Q L n st vals mem" if "outside ctx (vals a) 8" "sz = 3" "opc = 1"
    using guest_load [OF that(1), of mem] that(2,3) Q assms(1,2) ne by (simp add: d)
  show "wp E ctx K (call1 (\<lambda>v. write_w rt v True) (add_load_32 a)) Q L n st vals mem" if "outside ctx (vals a) 4" "sz = 2" "opc = 1"
    using guest_load [OF that(1), of mem] that(2,3) Q assms(1,2) ne by (cases "rt = 31") (simp_all add: d read_mem_narrow)
  show "wp E ctx K (call1 (\<lambda>v. write_w_sign_extend rt v True) (add_load_32 a)) Q L n st vals mem" if "outside ctx (vals a) 4" "sz = 2" "opc = 2"
    using guest_load [OF that(1), of mem] that(2,3) Q assms(1,2) ne by (cases "rt = 31") (simp_all add: d read_mem_narrow)
  show "wp E ctx K (call1 (\<lambda>v. add_store_64 v a) (read_x rt True)) Q L n st vals mem" if "outside ctx (vals a) 8" "sz = 3" "opc = 0"
    using guest_store [OF that(1), of mem] that(2,3) Q assms(1,2) ne by (simp add: d)
  show "wp E ctx K (call1 (\<lambda>v. add_store_32 v a) (read_w rt True)) Q L n st vals mem" if "outside ctx (vals a) 4" "sz = 2" "opc = 0"
    using guest_store [OF that(1), of mem] that(2,3) Q assms(1,2) ne by (simp add: d write_mem_narrow)
qed

lemma wp_pair_body:
  assumes "a1 < n" "a2 < n" "rt < 32" "rt2 < 32" "is_signed \<Longrightarrow> is_load \<and> \<not> is_64"
    "sz = (if is_64 then 3 else 2)" "opc = (if \<not> is_load then 0 else if is_signed then 2 else 1)"
    "outside ctx (vals a1) (2 ^ sz)" "outside ctx (vals a2) (2 ^ sz)"
    "\<And>n' vals' mem'. guest ctx mem' = a64_access sz opc rt2 (vals a2) (a64_access sz opc rt (vals a1) (guest ctx mem)) \<Longrightarrow>
       \<forall>q < n. vals' q = vals q \<Longrightarrow> n \<le> n' \<Longrightarrow> Q () n' st vals' mem'"
  shows "wp E ctx K (if is_load then
         if is_64 then do {
           call1 (\<lambda>v. write_x rt v True) (add_load_64 a1);
           call1 (\<lambda>v. write_x rt2 v True) (add_load_64 a2)
         } else if is_signed then do {
           call1 (\<lambda>v. write_w_sign_extend rt v True) (add_load_32 a1);
           call1 (\<lambda>v. write_w_sign_extend rt2 v True) (add_load_32 a2)
         } else do {
           call1 (\<lambda>v. write_w rt v True) (add_load_32 a1);
           call1 (\<lambda>v. write_w rt2 v True) (add_load_32 a2)
         }
       else
         if is_64 then do {
           call1 (\<lambda>v. add_store_64 v a1) (read_x rt True);
           call1 (\<lambda>v. add_store_64 v a2) (read_x rt2 True)
         } else do {
           call1 (\<lambda>v. add_store_32 v a1) (read_w rt True);
           call1 (\<lambda>v. add_store_32 v a2) (read_w rt2 True)
         }) Q L n st vals mem"
  using assms(1-9)
  by (cases is_load; cases is_64; cases is_signed) 
    (auto intro!: wp_bindI wp_one [where opc = opc and sz = sz] assms(10) simp: app_simps)

lemma fld_two: "k < 31 \<Longrightarrow> fld insn (Suc k) k = of_bool (bit insn k) + 2 * of_bool (bit insn (Suc k))"
proof -
  assume k: "k < 31"
  have "INSN insn (Suc k) k = take_bit (Suc (Suc 0)) (drop_bit k insn)" by (simp add: INSN_take)
  also have "\<dots> = of_bool (bit insn k) + 2 * of_bool (bit insn (Suc k))"
    by (simp only: take_bit_Suc take_bit_0) (simp add: bit_iff_odd_drop_bit mod_2_eq_odd drop_bit_Suc drop_bit_half)
  finally show ?thesis by (cases "bit insn k"; cases "bit insn (Suc k)") simp_all
qed

lemmas fld_pairs = fld_two [of 30, simplified] fld_two [of 23, simplified] fld_two [of 22, simplified] fld_two [of 21, simplified]

lemma wp_address:
  "x < n \<Longrightarrow> operand Q n st vals mem (vals x + v) \<Longrightarrow> wp E ctx K (call2 add_add_64 (ret x) (mk_64 v)) Q L n st vals mem"
  "i < 32 \<Longrightarrow> operand Q n st vals mem (rx z i (guest ctx mem)) \<Longrightarrow> wp E ctx K (read_x i z) Q L n st vals mem"
  "i < 32 \<Longrightarrow> operand Q n st vals mem (rx z i (guest ctx mem) + v) \<Longrightarrow> wp E ctx K (call2 add_add_64 (read_x i z) (mk_64 v)) Q L n st vals mem"
  by (auto simp: wp_simps app_simps operand_def)

text \<open>What the pairs share: the second address, the accesses, and what is left to do.\<close>

lemma wp_pair:
  fixes insn :: u32 and mem :: memory and ctx :: u64
  defines "g \<equiv> guest ctx mem"
  defines "sz \<equiv> (if bit insn 31 then 3 else 2 :: nat)"
  assumes valid: "bit insn 30 \<Longrightarrow> bit insn 22 \<and> \<not> bit insn 31" and at: "at_pair ctx insn g"
    and a1: "vals a1 = pair_address insn g" "a1 < n"
    and W: "app W" "\<And>n' vals' mem'. guest ctx mem' = a64_access sz (pair_opc insn) (fld insn 14 10) (pair_address insn g + 2 ^ sz)
         (a64_access sz (pair_opc insn) (fld insn 4 0) (pair_address insn g) g) \<Longrightarrow> vals' a1 = vals a1 \<Longrightarrow> a1 < n' \<Longrightarrow> wp E ctx K W Q L n' st vals' mem'"
  shows "wp E ctx K (do {
       a2 \<leftarrow> call2 add_add_64 (ret a1) (mk_64 (if bit insn 31 then 8 else 4));
       (if bit insn 22 then
         if bit insn 31 then do {
           call1 (\<lambda>v. write_x (fld insn 4 0) v True) (add_load_64 a1);
           call1 (\<lambda>v. write_x (fld insn 14 10) v True) (add_load_64 a2)
         } else if bit insn 30 then do {
           call1 (\<lambda>v. write_w_sign_extend (fld insn 4 0) v True) (add_load_32 a1);
           call1 (\<lambda>v. write_w_sign_extend (fld insn 14 10) v True) (add_load_32 a2)
         } else do {
           call1 (\<lambda>v. write_w (fld insn 4 0) v True) (add_load_32 a1);
           call1 (\<lambda>v. write_w (fld insn 14 10) v True) (add_load_32 a2)
         }
       else
         if bit insn 31 then do {
           call1 (\<lambda>v. add_store_64 v a1) (read_x (fld insn 4 0) True);
           call1 (\<lambda>v. add_store_64 v a2) (read_x (fld insn 14 10) True)
         } else do {
           call1 (\<lambda>v. add_store_32 v a1) (read_w (fld insn 4 0) True);
           call1 (\<lambda>v. add_store_32 v a2) (read_w (fld insn 14 10) True)
         });
       W
     }) Q L n st vals mem"
proof -
  have o: "outside ctx (pair_address insn g) (2 ^ sz)" "outside ctx (pair_address insn g + 2 ^ sz) (2 ^ sz)"
    using at by (auto simp: at_pair_def Let_def sz_def split: if_splits)
  have e: "(if bit insn 31 then 8 else 4) = (2 ^ sz :: u64)" by (simp add: sz_def)
  have v: "vals' a1 = vals a1" if "\<forall>q < n. vals' q = vals q" for vals' :: "nat \<Rightarrow> u64" using that a1(2) by blast
  show ?thesis unfolding e
  proof (rule wp_bindI, goal_cases)
    case 3
    show ?case
    proof (rule wp_address(1) [OF a1(2)], rule operandI, rule wp_bindI, goal_cases)
      case (3 n' vals' r)
      have r: "vals' r = pair_address insn g + 2 ^ sz" "r < n'" "vals' a1 = pair_address insn g" "a1 < n'"
        using 3(1,2,4) v [OF 3(3)] a1 by simp_all
      have va: "vals' a1 = vals a1" using r(3) a1(1) by simp
      show ?case
      proof (rule wp_pair_body [where sz = sz and opc = "pair_opc insn"])
        fix n2 and vals2 :: "nat \<Rightarrow> u64" and mem2
        assume "guest ctx mem2 = a64_access sz (pair_opc insn) (fld insn 14 10) (vals' r) (a64_access sz (pair_opc insn) (fld insn 4 0) (vals' a1) (guest ctx mem))"
          "\<forall>q < n'. vals2 q = vals' q" "n' \<le> n2"
        then show "wp E ctx K W Q L n2 st vals2 mem2" using r va by (intro W(2)) (simp_all add: g_def)
      qed (use r o valid in \<open>simp_all add: pair_opc_def sz_def\<close>)
    qed (use W(1) in \<open>simp_all add: app_simps\<close>)
  qed (use W(1) in \<open>simp_all add: app_simps\<close>)
qed

lemma a64_pair_eq: "a64_pair insn g = (let sz = (if bit insn 31 then 3 else 2); g' = a64_access sz (pair_opc insn) (fld insn 14 10) (pair_address insn g + 2 ^ sz)
    (a64_access sz (pair_opc insn) (fld insn 4 0) (pair_address insn g) g) in if bit insn 23 then wx False (fld insn 9 5) (rx False (fld insn 9 5) g + pair_offset insn) g' else g')"
  by (simp add: a64_pair_def Let_def)

lemma pair_effect:
  assumes "pair_valid insn" "fld insn 24 23 \<noteq> 0"
  shows "effect_on E ctx K (at_pair ctx insn) (dis_load_store_pair c insn) (a64_pair insn)"
  unfolding effect_on_def
proof (intro allI impI)
  fix n and st :: bool and vals :: "nat \<Rightarrow> u64" and mem
  assume at: "at_pair ctx insn (guest ctx mem)"
  have f23: "flag insn 23 = bit insn 23" by (rule flag_bit) simp
  have post: "fld insn 24 23 = 1 \<longleftrightarrow> \<not> bit insn 24" using assms(2) by (auto simp: fld_pairs)
  have valid: "bit insn 30 \<Longrightarrow> bit insn 22 \<and> \<not> bit insn 31" using assms(1) by (auto simp: pair_valid_def fld_pairs)
  note w = wp_pair [OF valid at]
  show "wp E ctx K (dis_load_store_pair c insn) (\<lambda>r n' st' vals' mem'. \<not> r \<and> st' = st \<and> guest ctx mem' = a64_pair insn (guest ctx mem)) (\<lambda>_ _ _. False) n st vals mem"
    unfolding dis_load_store_pair_def Let_def flag_bits_insn f23 pair_offset_sext ZERO_REG_def SP_REG_def
  proof (rule wp_bindI, goal_cases)
    case 3
    show ?case
    proof (cases "bit insn 24")
      case True
      then show ?thesis by (simp only: if_True, intro wp_address operandI w; simp add: wp_simps app_simps pair_address_def post post [unfolded One_nat_def] a64_pair_eq Let_def)
    next
      case False
      then show ?thesis by (simp only: if_False, intro wp_address operandI w; simp add: wp_simps app_simps pair_address_def post post [unfolded One_nat_def] a64_pair_eq Let_def)
    qed
  qed (simp_all add: app_simps)
qed

lemma no_allocate_pair_effect:
  assumes "pair_valid insn" "fld insn 24 23 = 0"
  shows "effect_on E ctx K (at_pair ctx insn) (dis_load_store_no_allocate_pair_offset c insn) (a64_pair insn)"
  unfolding effect_on_def
proof (intro allI impI)
  fix n and st :: bool and vals :: "nat \<Rightarrow> u64" and mem
  assume at: "at_pair ctx insn (guest ctx mem)"
  have b: "\<not> bit insn 23" "bit insn 30 = False" using assms by (auto simp: pair_valid_def fld_pairs)
  then have "bit insn 30 \<Longrightarrow> bit insn 22 \<and> \<not> bit insn 31" by simp
  note w = wp_pair [OF this at, unfolded b(2) if_False]
  show "wp E ctx K (dis_load_store_no_allocate_pair_offset c insn) (\<lambda>r n' st' vals' mem'. \<not> r \<and> st' = st \<and> guest ctx mem' = a64_pair insn (guest ctx mem)) (\<lambda>_ _ _. False) n st vals mem"
    unfolding dis_load_store_no_allocate_pair_offset_def Let_def flag_bits_insn pair_offset_sext ZERO_REG_def SP_REG_def
    by (rule wp_bindI; (intro wp_address operandI w)?; simp add: wp_simps app_simps pair_address_def assms(2) a64_pair_eq Let_def b)
qed

end
