(* ===== verification/Arm64_Sem_Insn.thy ===== *)
theory Arm64_Sem_Insn
  imports Arm64_Sem_Mem
begin

text \<open>Instruction words: the disassembler reaches the function the encoding tables say, and the code it adds is one step of the guest.\<close>

section \<open>Decoding\<close>

lemma pattern_field:
  assumes "insn AND m = v" "INSN m msb lsb = push_bit (msb - lsb + 1) 1 - 1" "msb - lsb < 31"
  shows "INSN insn msb lsb = INSN v msb lsb"
proof (rule bit_word_eqI)
  fix k
  have "bit m (lsb + k)" if "k \<le> msb - lsb" "bit insn (lsb + k) \<or> bit v (lsb + k)"
  proof -
    have "k < 32" using that(1) assms(3) by simp
    then have "bit (INSN m msb lsb) k" using that(1) unfolding assms(2) push_bit_eq_mult mult_1 mask_eq_exp_minus_1 [symmetric] by (simp add: bit_mask_iff)
    then show ?thesis by (simp add: bit_INSN assms(3))
  qed
  moreover have "bit v j \<longleftrightarrow> bit insn j \<and> bit m j" for j using assms(1) by (auto simp: bit_and_iff)
  ultimately show "bit (INSN insn msb lsb) k = bit (INSN v msb lsb) k" using assms(3) by (auto simp: bit_INSN)
qed

lemma pattern_bit: "insn AND m = v \<Longrightarrow> bit m k \<Longrightarrow> bit insn k = bit v k"
  by (auto simp: bit_and_iff)

lemma INSN_numeral: "INSN (numeral w) msb lsb = drop_bit lsb (numeral w) AND (push_bit (msb - lsb + 1) 1 - 1)"
  by (simp add: INSN_def)

lemma fld_low: "(\<And>k. j \<le> k \<Longrightarrow> k \<le> msb - lsb \<Longrightarrow> \<not> bit insn (lsb + k)) \<Longrightarrow> msb - lsb < 31 \<Longrightarrow> j < 32 \<Longrightarrow> fld insn msb lsb < 2 ^ j"
proof -
  assume "\<And>k. j \<le> k \<Longrightarrow> k \<le> msb - lsb \<Longrightarrow> \<not> bit insn (lsb + k)" "msb - lsb < 31" "j < 32"
  then have "take_bit j (INSN insn msb lsb) = INSN insn msb lsb" by (intro bit_word_eqI) (auto simp: bit_take_bit_iff bit_INSN linorder_not_le [symmetric])
  then have "fld insn msb lsb = take_bit j (fld insn msb lsb)" by (metis unsigned_take_bit_eq)
  then show ?thesis by (metis take_bit_nat_less_exp)
qed

lemma immediate_decoded:
  "insn AND 0x1F800000 = 0x11000000 \<Longrightarrow> disassemble_insn c insn = dis_add_sub_immediate_insn c insn"
  "insn AND 0x1F800000 = 0x12000000 \<Longrightarrow> disassemble_insn c insn = dis_logical_immediate c insn"
  "insn AND 0x1F800000 = 0x12800000 \<Longrightarrow> fld insn 30 29 \<noteq> 1 \<Longrightarrow> disassemble_insn c insn =
     (if fld insn 30 29 = 0 then dis_movn c insn else if fld insn 30 29 = 2 then dis_movz c insn else dis_movk c insn)"
  "insn AND 0x1F800000 = 0x13000000 \<Longrightarrow> disassemble_insn c insn = dis_bitfield_insn c insn"
  "insn AND 0x7FA00000 = 0x13800000 \<Longrightarrow> disassemble_insn c insn = dis_extr c insn"
proof -
  note d = disassemble_insn_def dis_data_processing_immediate_insn_def Let_def
  show "disassemble_insn c insn = dis_add_sub_immediate_insn c insn" if p: "insn AND 0x1F800000 = 0x11000000" by (simp add: d pattern_field [OF p] INSN_numeral)
  show "disassemble_insn c insn = dis_logical_immediate c insn" if p: "insn AND 0x1F800000 = 0x12000000" by (simp add: d pattern_field [OF p] INSN_numeral)
  show "disassemble_insn c insn = (if fld insn 30 29 = 0 then dis_movn c insn else if fld insn 30 29 = 2 then dis_movz c insn else dis_movk c insn)"
    if p: "insn AND 0x1F800000 = 0x12800000" and o: "fld insn 30 29 \<noteq> 1"
  proof -
    have "fld insn 30 29 = 0 \<or> fld insn 30 29 = 2 \<or> fld insn 30 29 = 3" using o fld_bound6(6) [of insn] by linarith
    then show ?thesis by (elim disjE) (simp_all add: d pattern_field [OF p] INSN_numeral)
  qed
  show "disassemble_insn c insn = dis_bitfield_insn c insn" if p: "insn AND 0x1F800000 = 0x13000000" by (simp add: d pattern_field [OF p] INSN_numeral)
  show "disassemble_insn c insn = dis_extr c insn" if p: "insn AND 0x7FA00000 = 0x13800000" by (simp add: d pattern_field [OF p] INSN_numeral)
qed

lemma adr_decoded:
  assumes p: "insn AND 0x1F000000 = 0x10000000"
  shows "disassemble_insn c insn = (if bit insn 31 then dis_adrp c insn else dis_adr c insn)"
proof -
  have "\<not> bit insn 24" "\<not> bit insn 25" using pattern_bit [OF p, of 24] pattern_bit [OF p, of 25] by simp_all
  then have "\<not> bit insn (23 + k)" if "1 \<le> k" "k \<le> 2" for k
  proof -
    have "k = 1 \<or> k = 2" using that by linarith
    then show ?thesis using \<open>\<not> bit insn 24\<close> \<open>\<not> bit insn 25\<close> by (elim disjE) simp_all
  qed
  then have "fld insn 25 23 < 2 ^ 1" by (intro fld_low) auto
  then show ?thesis by (simp add: disassemble_insn_def dis_data_processing_immediate_insn_def Let_def pattern_field [OF p] INSN_numeral)
qed

lemma register_decoded:
  "insn AND 0x1F000000 = 0x0A000000 \<Longrightarrow> disassemble_insn c insn = dis_logical_shifted_register c insn"
  "insn AND 0x1F200000 = 0x0B000000 \<Longrightarrow> disassemble_insn c insn = dis_add_sub_shifted_register_insn c insn"
  "insn AND 0x1FE00000 = 0x0B200000 \<Longrightarrow> disassemble_insn c insn = dis_add_sub_extended_register_insn c insn"
  "insn AND 0x1FE0FC00 = 0x1A000000 \<Longrightarrow> disassemble_insn c insn = dis_add_substract_with_carry c insn"
  "insn AND 0x3FE00410 = 0x3A400000 \<Longrightarrow> disassemble_insn c insn = (if bit insn 11 then dis_ccmp_A_ccmn_immediate c insn else dis_ccmp_A_ccmn_register c insn)"
  "insn AND 0x3FE00800 = 0x1A800000 \<Longrightarrow> disassemble_insn c insn = dis_conditional_select c insn"
  "insn AND 0x7FFF0000 = 0x5AC00000 \<Longrightarrow> disassemble_insn c insn = dis_data_processing_1_source c insn"
  "insn AND 0x7FE00000 = 0x1AC00000 \<Longrightarrow> disassemble_insn c insn = dis_data_processing_2_source c insn"
  "insn AND 0x7F000000 = 0x1B000000 \<Longrightarrow> disassemble_insn c insn = dis_data_processing_3_source c insn"
proof -
  note d = disassemble_insn_def dis_data_processing_register_insn_def Let_def
  show "disassemble_insn c insn = dis_logical_shifted_register c insn" if p: "insn AND 0x1F000000 = 0x0A000000"
    by (simp add: d pattern_field [OF p] pattern_bit [OF p] INSN_numeral)
  show "disassemble_insn c insn = dis_add_sub_shifted_register_insn c insn" if p: "insn AND 0x1F200000 = 0x0B000000"
    by (simp add: d pattern_field [OF p] pattern_bit [OF p] INSN_numeral)
  show "disassemble_insn c insn = dis_add_sub_extended_register_insn c insn" if p: "insn AND 0x1FE00000 = 0x0B200000"
    by (simp add: d pattern_field [OF p] pattern_bit [OF p] INSN_numeral)
  show "disassemble_insn c insn = dis_add_substract_with_carry c insn" if p: "insn AND 0x1FE0FC00 = 0x1A000000"
    by (simp add: d pattern_field [OF p] pattern_bit [OF p] INSN_numeral)
  show "disassemble_insn c insn = (if bit insn 11 then dis_ccmp_A_ccmn_immediate c insn else dis_ccmp_A_ccmn_register c insn)" if p: "insn AND 0x3FE00410 = 0x3A400000"
    by (simp add: d pattern_field [OF p] pattern_bit [OF p] INSN_numeral)
  show "disassemble_insn c insn = dis_conditional_select c insn" if p: "insn AND 0x3FE00800 = 0x1A800000"
    by (simp add: d pattern_field [OF p] pattern_bit [OF p] INSN_numeral)
  show "disassemble_insn c insn = dis_data_processing_1_source c insn" if p: "insn AND 0x7FFF0000 = 0x5AC00000"
    by (simp add: d pattern_field [OF p] pattern_bit [OF p] INSN_numeral)
  show "disassemble_insn c insn = dis_data_processing_2_source c insn" if p: "insn AND 0x7FE00000 = 0x1AC00000"
    by (simp add: d pattern_field [OF p] pattern_bit [OF p] INSN_numeral)
  show "disassemble_insn c insn = dis_data_processing_3_source c insn" if p: "insn AND 0x7F000000 = 0x1B000000"
    by (simp add: d pattern_field [OF p] pattern_bit [OF p] INSN_numeral)
qed

lemma memory_decoded:
  "insn AND 0x3F000000 = 0x39000000 \<Longrightarrow> disassemble_insn c insn = dis_load_store_register_unsigned_offset c insn"
  "insn AND 0x3F200C00 = 0x38000000 \<Longrightarrow> disassemble_insn c insn = dis_load_store_register_unscaled_immediate c insn"
  "insn AND 0x3F200C00 = 0x38000400 \<Longrightarrow> disassemble_insn c insn = dis_load_store_register_immediate_post_indexed c insn"
  "insn AND 0x3F200C00 = 0x38000C00 \<Longrightarrow> disassemble_insn c insn = dis_load_store_register_immediate_pre_indexed c insn"
  "insn AND 0x3F204C00 = 0x38204800 \<Longrightarrow> disassemble_insn c insn = dis_load_store_register_register_offset c insn"
  "insn AND 0x3E000000 = 0x28000000 \<Longrightarrow> disassemble_insn c insn = (if fld insn 24 23 = 0 then dis_load_store_no_allocate_pair_offset c insn else dis_load_store_pair c insn)"
  "insn AND 0x3F000000 = 0x18000000 \<Longrightarrow> disassemble_insn c insn = dis_load_register_literal c insn"
proof -
  note d = disassemble_insn_def dis_load_store_insn_def dis_load_store_pair_pre_indexed_def dis_load_store_pair_offset_def dis_load_store_pair_post_indexed_def Let_def
  show "disassemble_insn c insn = dis_load_store_register_unsigned_offset c insn" if p: "insn AND 0x3F000000 = 0x39000000"
    by (simp add: d pattern_field [OF p] pattern_bit [OF p] INSN_numeral)
  show "disassemble_insn c insn = dis_load_store_register_unscaled_immediate c insn" if p: "insn AND 0x3F200C00 = 0x38000000"
    by (simp add: d pattern_field [OF p] pattern_bit [OF p] INSN_numeral)
  show "disassemble_insn c insn = dis_load_store_register_immediate_post_indexed c insn" if p: "insn AND 0x3F200C00 = 0x38000400"
    by (simp add: d pattern_field [OF p] pattern_bit [OF p] INSN_numeral)
  show "disassemble_insn c insn = dis_load_store_register_immediate_pre_indexed c insn" if p: "insn AND 0x3F200C00 = 0x38000C00"
    by (simp add: d pattern_field [OF p] pattern_bit [OF p] INSN_numeral)
  show "disassemble_insn c insn = dis_load_store_register_register_offset c insn" if p: "insn AND 0x3F204C00 = 0x38204800"
    by (simp add: d pattern_field [OF p] pattern_bit [OF p] INSN_numeral)
  show "disassemble_insn c insn = (if fld insn 24 23 = 0 then dis_load_store_no_allocate_pair_offset c insn else dis_load_store_pair c insn)" if p: "insn AND 0x3E000000 = 0x28000000"
    by (simp add: d pattern_field [OF p] pattern_bit [OF p] INSN_numeral)
  show "disassemble_insn c insn = dis_load_register_literal c insn" if p: "insn AND 0x3F000000 = 0x18000000"
    by (simp add: d pattern_field [OF p] pattern_bit [OF p] INSN_numeral)
qed

lemma branch_decoded:
  "insn AND 0x7C000000 = 0x14000000 \<Longrightarrow> disassemble_insn c insn = dis_b_A_bl c insn"
  "insn AND 0x7E000000 = 0x34000000 \<Longrightarrow> disassemble_insn c insn = dis_cbz_A_cbnz c insn"
  "insn AND 0x7E000000 = 0x36000000 \<Longrightarrow> disassemble_insn c insn = dis_tbz_A_tbnz c insn"
  "insn AND 0xFF000010 = 0x54000000 \<Longrightarrow> disassemble_insn c insn = dis_conditionnal_branch_immediate_insn c insn"
  "insn AND 0xFF9FFC1F = 0xD61F0000 \<Longrightarrow> disassemble_insn c insn = dis_unconditionnal_branch_register c insn"
proof -
  note d = disassemble_insn_def dis_branch_A_exception_A_system_insn_def dis_cbnz_def dis_cbz_def Let_def
  show "disassemble_insn c insn = dis_b_A_bl c insn" if p: "insn AND 0x7C000000 = 0x14000000"
    by (simp add: d pattern_field [OF p] pattern_bit [OF p] INSN_numeral)
  show "disassemble_insn c insn = dis_cbz_A_cbnz c insn" if p: "insn AND 0x7E000000 = 0x34000000"
    by (simp add: d pattern_field [OF p] pattern_bit [OF p] INSN_numeral)
  show "disassemble_insn c insn = dis_tbz_A_tbnz c insn" if p: "insn AND 0x7E000000 = 0x36000000"
    by (simp add: d pattern_field [OF p] pattern_bit [OF p] INSN_numeral)
  show "disassemble_insn c insn = dis_conditionnal_branch_immediate_insn c insn" if p: "insn AND 0xFF000010 = 0x54000000"
    by (simp add: d pattern_field [OF p] pattern_bit [OF p] INSN_numeral)
  show "disassemble_insn c insn = dis_unconditionnal_branch_register c insn" if p: "insn AND 0xFF9FFC1F = 0xD61F0000"
    by (simp add: d pattern_field [OF p] pattern_bit [OF p] INSN_numeral)
qed

lemma nop_decoded: "disassemble_insn c 0xD503201F = ret False"
  by (simp add: disassemble_insn_def dis_branch_A_exception_A_system_insn_def dis_system_def Let_def INSN_numeral)

section \<open>Steps that fall through\<close>

text \<open>No step but the relative ones reads the program counter.\<close>

definition pc_free :: "(guest \<Rightarrow> guest) \<Rightarrow> bool" where
  "pc_free f \<longleftrightarrow> (\<forall>g p. f (g\<lparr>gPC := p\<rparr>) = (f g)\<lparr>gPC := p\<rparr>)"

lemma wx_pc: "wx z i v (g\<lparr>gPC := p\<rparr>) = (wx z i v g)\<lparr>gPC := p\<rparr>"
  by (simp add: wx_def)

lemma nzcv_pc: "g\<lparr>gPC := p, gNZCV := x\<rparr> = g\<lparr>gNZCV := x, gPC := p\<rparr>" "g\<lparr>gPC := p, gMEM := m\<rparr> = g\<lparr>gMEM := m, gPC := p\<rparr>"
  by simp_all

lemma pc_free_data:
  "pc_free (a64_sum insn z x y c)" "pc_free (a64_add_sub insn z x y)" "pc_free (a64_logical insn z x y)"
  by (auto simp: pc_free_def a64_sum_def a64_add_sub_def a64_logical_def wx_pc nzcv_pc Let_def)

lemma pc_free_insns:
  "pc_free (a64_add_sub_imm insn)" "pc_free (a64_logical_imm insn)" "pc_free (a64_move_wide insn)" "pc_free (a64_bitfield insn)" "pc_free (a64_extr insn)"
  "pc_free (a64_logical_shifted insn)" "pc_free (a64_add_sub_shifted insn)" "pc_free (a64_add_sub_extended insn)" "pc_free (a64_add_sub_carry insn)" "pc_free (a64_ccmp insn)"
  "pc_free (a64_csel insn)" "pc_free (a64_data_1 insn)" "pc_free (a64_data_2 insn)" "pc_free (a64_data_3 insn)" "pc_free (a64_access sz opc rt a)" "pc_free id"
  using pc_free_data unfolding pc_free_def a64_add_sub_imm_def a64_logical_imm_def a64_move_wide_def a64_bitfield_def a64_extr_def a64_logical_shifted_def
    a64_add_sub_shifted_def a64_add_sub_extended_def a64_add_sub_carry_def a64_ccmp_def a64_csel_def a64_data_1_def a64_data_2_def a64_data_3_def a64_access_def
  by (simp_all add: wx_pc nzcv_pc Let_def)

lemma pc_free_memory: "pc_free (a64_load_store m insn)" "pc_free (a64_pair insn)"
  using pc_free_insns(15) unfolding pc_free_def a64_load_store_def a64_pair_def pair_address_def address_of_def offset_of_def
  by (simp_all add: wx_pc Let_def split: addressing.splits)

lemma pc_free_adr: "pc_free (a64_adr insn pc)"
  by (simp add: pc_free_def a64_adr_def wx_pc Let_def)

text \<open>Words whose translation is not the architecture's: the extraction of 64 bits at position 0 from two registers, and the divisions of 64 bits.\<close>

definition deviates :: "u32 \<Rightarrow> bool" where
  "deviates insn \<longleftrightarrow> bit insn 31 \<and> (insn AND 0x7FA00000 = 0x13800000 \<and> fld insn 15 10 = 0 \<and> fld insn 9 5 \<noteq> fld insn 20 16 \<or>
     insn AND 0x7FE00000 = 0x1AC00000 \<and> fld insn 15 10 \<in> {2, 3})"

text \<open>The code of a word does what a function of the guest says that agrees with \<open>f\<close> at the address of the word.\<close>

definition implements :: "xenv \<Rightarrow> u64 \<Rightarrow> (nat \<Rightarrow> bool) \<Rightarrow> u64 \<Rightarrow> (guest \<Rightarrow> bool) \<Rightarrow> bool dis \<Rightarrow> (guest \<Rightarrow> guest) \<Rightarrow> bool" where
  "implements E ctx K pc P p f \<longleftrightarrow> (\<exists>h. pc_free h \<and> (\<forall>g. gPC g = pc \<longrightarrow> f g = h g) \<and> effect_on E ctx K P p h)"

lemma implementsI: "pc_free f \<Longrightarrow> effect E ctx K p f \<Longrightarrow> implements E ctx K pc P p f"
  by (auto simp: implements_def intro: effect_effect_on)

lemma and_one: "insn AND 2 ^ k = (if bit insn k then 2 ^ k else 0)" for insn :: u32
proof (cases "bit insn k")
  case True
  then have "insn AND 2 ^ k = 2 ^ k" by (intro bit_word_eqI) (auto simp: bit_and_iff bit_exp_iff)
  with True show ?thesis by simp
qed (simp add: and_exp_eq_0_iff_not_bit)

lemma bitfield_pattern:
  assumes "insn AND 0x1F800000 = 0x13000000" "fld insn 30 29 \<noteq> 3"
  shows "bitfield_kind_of insn \<noteq> None"
proof -
  have "insn AND 0xFF800000 = (insn AND 2 ^ 31) OR (insn AND 2 ^ 30) OR (insn AND 2 ^ 29) OR (insn AND 0x1F800000)"
    by (simp flip: bit.conj_disj_distrib)
  also have "\<dots> = (if bit insn 31 then 2 ^ 31 else 0) OR (if bit insn 30 then 2 ^ 30 else 0) OR (if bit insn 29 then 2 ^ 29 else 0) OR 0x13000000"
    by (simp only: and_one assms(1))
  finally show ?thesis using assms(2) fld_two [of 29 insn]
    by (cases "bit insn 31"; cases "bit insn 30"; cases "bit insn 29") (simp_all add: bitfield_kind_of_def Let_def)
qed

lemma add_sub_imm_shift: "insn AND 0x1F800000 = 0x11000000 \<Longrightarrow> fld insn 23 22 < 2"
  using pattern_bit [of insn "0x1F800000" "0x11000000" 23] fld_two [of 22 insn] by simp

lemma immediate_implements:
  assumes l: "helpers_linked E (hlp_addr c)" and f: "a64_immediate insn = Some f" and v: "\<not> deviates insn"
  shows "implements E ctx K (ctx_pc c) P (disassemble_insn c insn) f"
proof -
  consider (adr) "insn AND 0x1F000000 = 0x10000000" "f = (\<lambda>g. a64_adr insn (gPC g) g)"
    | (add_sub) "insn AND 0x1F800000 = 0x11000000" "f = a64_add_sub_imm insn"
    | (logical) "insn AND 0x1F800000 = 0x12000000" "mask_valid (bit insn 31) (bit insn 22) (fld insn 15 10)" "f = a64_logical_imm insn"
    | (move) "insn AND 0x1F800000 = 0x12800000" "fld insn 30 29 \<noteq> 1" "f = a64_move_wide insn"
    | (bitfield) "insn AND 0x1F800000 = 0x13000000" "fld insn 30 29 \<noteq> 3" "bit insn 31 \<or> fld insn 21 16 < 32" "bit insn 31 \<or> fld insn 15 10 < 32" "f = a64_bitfield insn"
    | (extr) "insn AND 0x7FA00000 = 0x13800000" "bit insn 31 \<or> fld insn 15 10 < 32" "f = a64_extr insn"
    using f unfolding a64_immediate_def Let_def by (auto split: if_splits)
  then show ?thesis
  proof cases
    case adr
    have "effect E ctx K (disassemble_insn c insn) (a64_adr insn (ctx_pc c))"
      using adr_effect adrp_effect unfolding adr_decoded [OF adr(1)] by (cases "bit insn 31") simp_all
    then show ?thesis unfolding implements_def adr(2) by (intro exI [of _ "a64_adr insn (ctx_pc c)"]) (simp add: pc_free_adr effect_effect_on)
  next
    case add_sub
    then show ?thesis using add_sub_imm_effect [OF l] add_sub_imm_shift by (intro implementsI) (simp_all add: pc_free_insns immediate_decoded)
  next
    case logical
    then show ?thesis using logical_imm_effect [OF l] by (intro implementsI) (simp_all add: pc_free_insns immediate_decoded)
  next
    case move
    then have "fld insn 30 29 = 0 \<or> fld insn 30 29 = 2 \<or> fld insn 30 29 = 3" using fld_bound6(6) [of insn] by linarith
    then show ?thesis using move mov_effect [of insn] by (intro implementsI) (auto simp: pc_free_insns immediate_decoded)
  next
    case bitfield
    then show ?thesis using bitfield_effect [OF l bitfield_pattern] by (intro implementsI) (auto simp: pc_free_insns immediate_decoded)
  next
    case extr
    then show ?thesis using extr_effect [of insn] v by (intro implementsI) (auto simp: pc_free_insns immediate_decoded deviates_def)
  qed
qed

lemma register_implements:
  assumes l: "helpers_linked E (hlp_addr c)" and f: "a64_register insn = Some f" and v: "\<not> deviates insn"
  shows "implements E ctx K (ctx_pc c) P (disassemble_insn c insn) f"
proof -
  consider (logical) "insn AND 0x1F000000 = 0x0A000000" "bit insn 31 \<or> fld insn 15 10 < 32" "f = a64_logical_shifted insn"
    | (shifted) "insn AND 0x1F200000 = 0x0B000000" "fld insn 23 22 \<noteq> 3" "bit insn 31 \<or> fld insn 15 10 < 32" "f = a64_add_sub_shifted insn"
    | (extended) "insn AND 0x1FE00000 = 0x0B200000" "f = a64_add_sub_extended insn"
    | (carry) "insn AND 0x1FE0FC00 = 0x1A000000" "f = a64_add_sub_carry insn"
    | (ccmp) "insn AND 0x3FE00410 = 0x3A400000" "f = a64_ccmp insn"
    | (csel) "insn AND 0x3FE00800 = 0x1A800000" "f = a64_csel insn"
    | (one) "insn AND 0x7FFF0000 = 0x5AC00000" "fld insn 15 10 < 6" "fld insn 15 10 = 3 \<longrightarrow> bit insn 31" "f = a64_data_1 insn"
    | (two) "insn AND 0x7FE00000 = 0x1AC00000" "fld insn 15 10 \<in> {2, 3, 8, 9, 10, 11}" "f = a64_data_2 insn"
    | (three) "insn AND 0x7F000000 = 0x1B000000" "fld insn 23 21 \<in> {0, 1, 2, 5, 6}" "fld insn 23 21 \<in> {2, 6} \<longrightarrow> \<not> bit insn 15" "f = a64_data_3 insn"
    using f unfolding a64_register_def Let_def by (simp split: if_splits)
  then show ?thesis
  proof cases
    case logical
    then show ?thesis using logical_shifted_effect [OF l] by (intro implementsI) (simp_all add: pc_free_insns register_decoded)
  next
    case shifted
    then show ?thesis using add_sub_shifted_effect [OF l] by (intro implementsI) (simp_all add: pc_free_insns register_decoded)
  next
    case extended
    then show ?thesis using add_sub_extended_effect [OF l] by (intro implementsI) (simp_all add: pc_free_insns register_decoded)
  next
    case carry
    then show ?thesis using add_sub_carry_effect [OF l] by (intro implementsI) (simp_all add: pc_free_insns register_decoded)
  next
    case ccmp
    then show ?thesis using ccmp_effect [OF l] by (intro implementsI) (simp_all add: pc_free_insns register_decoded)
  next
    case csel
    then have "fld insn 11 10 < 2" using pattern_bit [of insn "0x3FE00800" "0x1A800000" 11] fld_two [of 10 insn] by simp
    then show ?thesis using csel csel_effect [OF l] by (intro implementsI) (simp_all add: pc_free_insns register_decoded)
  next
    case one
    then show ?thesis using data_1_effect [OF l] by (intro implementsI) (simp_all add: pc_free_insns register_decoded)
  next
    case two
    then have "8 \<le> fld insn 15 10 \<and> fld insn 15 10 \<le> 11 \<or> (fld insn 15 10 = 2 \<or> fld insn 15 10 = 3) \<and> \<not> bit insn 31"
      using v by (auto simp: deviates_def)
    then have "effect E ctx K (dis_data_processing_2_source c insn) (a64_data_2 insn)" using shift_effect [of insn] division_effect [OF l] by blast
    then show ?thesis using two by (intro implementsI) (simp_all add: pc_free_insns register_decoded)
  next
    case three
    then have "effect E ctx K (dis_data_processing_3_source c insn) (a64_data_3 insn)" by (intro data_3_effect [OF l]) auto
    then show ?thesis using three by (intro implementsI) (simp_all add: pc_free_insns register_decoded)
  qed
qed

text \<open>The memory a word touches is not the registers of the guest.\<close>

definition touches_outside :: "u64 \<Rightarrow> u32 \<Rightarrow> guest \<Rightarrow> bool" where
  "touches_outside ctx insn g \<longleftrightarrow> list_all (\<lambda>(a, n). outside ctx a n) (a64_touches insn g)"

lemma effect_on_mono: "effect_on E ctx K P p f \<Longrightarrow> (\<And>g. P' g \<Longrightarrow> P g) \<Longrightarrow> effect_on E ctx K P' p f"
  by (auto simp: effect_on_def)

lemma implementsI_on: "pc_free f \<Longrightarrow> effect_on E ctx K P p f \<Longrightarrow> (\<And>g. P' g \<Longrightarrow> P g) \<Longrightarrow> implements E ctx K pc P' p f"
  unfolding implements_def using effect_on_mono by blast

lemma address_pc [simp]: "address_of m insn (g\<lparr>gPC := p\<rparr>) = address_of m insn g" "pair_address insn (g\<lparr>gPC := p\<rparr>) = pair_address insn g"
  by (simp_all add: address_of_def offset_of_def pair_address_def split: addressing.splits)

lemma indexed_option: "bit insn 14 \<Longrightarrow> fld insn 15 13 \<in> {2, 3, 6, 7}"
proof -
  assume "bit insn 14"
  then have "bit (INSN insn 15 13) 1" by (simp add: bit_INSN)
  then have b: "bit (fld insn 15 13) 1" by (simp add: bit_unsigned_iff)
  have "fld insn 15 13 < 8" using INSN_bound [of 15 13 insn] by simp
  then have "fld insn 15 13 = 0 \<or> fld insn 15 13 = 1 \<or> fld insn 15 13 = 2 \<or> fld insn 15 13 = 3 \<or> fld insn 15 13 = 4 \<or> fld insn 15 13 = 5 \<or> fld insn 15 13 = 6 \<or> fld insn 15 13 = 7"
    by linarith
  then show ?thesis using b by (elim disjE) (simp_all add: bit_1_iff)
qed

lemma load_store_implements:
  assumes m: "addressing_of insn = Some m" and v: "access_valid (fld insn 31 30) (fld insn 23 22)"
  shows "effect_on E ctx K (at_address ctx m insn) (disassemble_insn c insn) (a64_load_store m insn)"
proof -
  consider (scaled) "insn AND 0x3F000000 = 0x39000000" "m = Scaled" | (unscaled) "insn AND 0x3F200C00 = 0x38000000" "m = Unscaled"
    | (post) "insn AND 0x3F200C00 = 0x38000400" "m = Post" | (pre) "insn AND 0x3F200C00 = 0x38000C00" "m = Pre"
    | (indexed) "insn AND 0x3F204C00 = 0x38204800" "m = Indexed"
    using m unfolding addressing_of_def by (simp split: if_splits)
  then show ?thesis
  proof cases
    case indexed
    then have "bit insn 14" using pattern_bit [of insn "0x3F204C00" "0x38204800" 14] by simp
    then show ?thesis using indexed indexed_effect [OF v indexed_option] by (simp add: memory_decoded)
  qed (simp_all add: load_store_effects [OF v] memory_decoded)
qed

lemma memory_implements:
  assumes f: "a64_memory insn = Some f"
  shows "implements E ctx K (ctx_pc c) (\<lambda>g. touches_outside ctx insn (g\<lparr>gPC := ctx_pc c\<rparr>)) (disassemble_insn c insn) f"
proof (cases "addressing_of insn")
  case (Some m)
  then have fm: "f = a64_load_store m insn" "access_valid (fld insn 31 30) (fld insn 23 22)" using f by (auto simp: a64_memory_def split: if_splits)
  show ?thesis unfolding fm(1)
    by (rule implementsI_on [OF pc_free_memory(1) load_store_implements [OF Some fm(2)]]) (simp add: touches_outside_def a64_touches_def Some at_address_def)
next
  case None
  then consider (pair) "insn AND 0x3E000000 = 0x28000000" "pair_valid insn" "f = a64_pair insn"
    | (literal) "insn AND 0x3F000000 = 0x18000000" "fld insn 31 30 \<noteq> 3" "f = a64_literal insn"
    using f unfolding a64_memory_def by (simp split: if_splits)
  then show ?thesis
  proof cases
    case pair
    have "effect_on E ctx K (at_pair ctx insn) (disassemble_insn c insn) (a64_pair insn)"
      using pair_effect [OF pair(2)] no_allocate_pair_effect [OF pair(2)] by (simp add: memory_decoded(6) [OF pair(1)])
    then show ?thesis unfolding pair(3)
      by (rule implementsI_on [OF pc_free_memory(2)]) (auto simp: touches_outside_def a64_touches_def None pair(1) at_pair_def Let_def)
  next
    case literal
    let ?a = "ctx_pc c + branch_offset insn 23 5"
    let ?h = "a64_access (if fld insn 31 30 = 1 then 3 else 2) (if fld insn 31 30 = 2 then 2 else 1) (fld insn 4 0) ?a"
    have h: "\<forall>g. gPC g = ctx_pc c \<longrightarrow> f g = ?h g" by (simp add: literal(3) a64_literal_def Let_def)
    have np: "insn AND 0x3E000000 \<noteq> 0x28000000"
    proof
      assume "insn AND 0x3E000000 = 0x28000000"
      then show False using pattern_bit [OF literal(1), of 29] pattern_bit [of insn "0x3E000000" "0x28000000" 29] by simp
    qed
    have "effect_on E ctx K (\<lambda>g. touches_outside ctx insn (g\<lparr>gPC := ctx_pc c\<rparr>)) (disassemble_insn c insn) ?h"
      unfolding memory_decoded(7) [OF literal(1)]
      by (rule effect_on_mono [OF literal_effect [OF literal(2)]]) (simp add: touches_outside_def a64_touches_def None literal(1) np)
    then show ?thesis unfolding implements_def using h pc_free_insns(15) by blast
  qed
qed

lemma straight_implements:
  assumes "helpers_linked E (hlp_addr c)" "a64_straight insn = Some f" "\<not> deviates insn"
  shows "implements E ctx K (ctx_pc c) (\<lambda>g. touches_outside ctx insn (g\<lparr>gPC := ctx_pc c\<rparr>)) (disassemble_insn c insn) f"
proof (cases "insn = 0xD503201F")
  case True
  then have "f = id" using assms(2) by (simp add: a64_straight_def)
  then show ?thesis unfolding True nop_decoded by (intro implementsI) (simp_all add: pc_free_insns effect_def wp_simps)
next
  case False
  then have "a64_immediate insn = Some f \<or> a64_register insn = Some f \<or> a64_memory insn = Some f"
    using assms(2) by (auto simp: a64_straight_def split: option.splits)
  then show ?thesis using immediate_implements [OF assms(1) _ assms(3)] register_implements [OF assms(1) _ assms(3)] memory_implements by blast
qed

lemma branch_leaves:
  assumes "helpers_linked E (hlp_addr c)" "a64_branch insn = Some f"
  shows "leaves E ctx K (ctx_pc c) (disassemble_insn c insn) f"
proof -
  consider (b) "insn AND 0x7C000000 = 0x14000000" "f = a64_b insn" | (cbz) "insn AND 0x7E000000 = 0x34000000" "f = a64_cbz insn"
    | (tbz) "insn AND 0x7E000000 = 0x36000000" "f = a64_tbz insn" | (b_cond) "insn AND 0xFF000010 = 0x54000000" "f = a64_b_cond insn"
    | (br) "insn AND 0xFF9FFC1F = 0xD61F0000" "fld insn 22 21 \<noteq> 3" "f = a64_br insn"
    using assms(2) unfolding a64_branch_def by (simp split: if_splits)
  then show ?thesis
  proof cases
    case br
    have "fld insn 24 21 < 2 ^ 2"
    proof (rule fld_low)
      fix k :: nat assume "2 \<le> k" "k \<le> 24 - 21"
      then have "k = 2 \<or> k = 3" by linarith
      then show "\<not> bit insn (21 + k)" using pattern_bit [OF br(1), of 23] pattern_bit [OF br(1), of 24] by (elim disjE) simp_all
    qed simp_all
    moreover have "take_bit 2 (fld insn 24 21) = fld insn 22 21"
    proof -
      have "take_bit 2 (INSN insn 24 21) = INSN insn 22 21" by (rule bit_word_eqI) (auto simp: bit_take_bit_iff bit_INSN)
      then show ?thesis by (metis unsigned_take_bit_eq)
    qed
    ultimately have "fld insn 24 21 = fld insn 22 21" by (simp add: take_bit_nat_eq_self)
    then show ?thesis using br br_leaves by (simp add: branch_decoded)
  qed (simp_all add: branch_decoded b_leaves cbz_leaves tbz_leaves b_cond_leaves [OF assms(1)])
qed

end
