(* ===== verification/Arm64_Sem_Block.thy ===== *)
theory Arm64_Sem_Block
  imports Arm64_Sem_Insn
begin

section \<open>Instructions and blocks\<close>

lemma wp_mono:
  "wp E ctx K p Q L n st vals mem \<Longrightarrow> (\<And>r n' st' vals' mem'. Q r n' st' vals' mem' \<Longrightarrow> Q' r n' st' vals' mem') \<Longrightarrow> (\<And>v k mem'. L v k mem' \<Longrightarrow> L' v k mem') \<Longrightarrow>
     wp E ctx K p Q' L' n st vals mem"
  by (auto simp: wp_def split: prod.splits option.splits xres.splits)

text \<open>The code of one word is one step of the guest: it goes on behind the word, or leaves the block with the new program counter.\<close>

lemma wp_disassemble_insn:
  fixes c :: dis_context and mem :: memory and ctx :: u64
  defines "g \<equiv> (guest ctx mem)\<lparr>gPC := ctx_pc c\<rparr>"
  assumes l: "helpers_linked E (hlp_addr c)" and s: "a64 insn g = Some g'" and t: "touches_outside ctx insn g" and v: "\<not> deviates insn"
  shows "wp E ctx K (disassemble_insn c insn)
    (\<lambda>r n' st vals' mem'. a64_branch insn = None \<and> \<not> r \<and> \<not> st \<and> gPC g' = ctx_pc c + 4 \<and> (guest ctx mem')\<lparr>gPC := ctx_pc c + 4\<rparr> = g')
    (\<lambda>v k mem'. a64_branch insn \<noteq> None \<and> guest ctx mem' = g' \<and> v = gPC g') n False vals mem"
proof (cases "a64_branch insn")
  case (Some f)
  then have g': "g' = f g" using s by (simp add: a64_def)
  have "wp E ctx K (disassemble_insn c insn) (\<lambda>_ _ _ _ _. False) (\<lambda>v k mem'. guest ctx mem' = f g \<and> v = gPC (f g)) n False vals mem"
    using branch_leaves [OF l Some] unfolding leaves_def g_def Let_def by blast
  then show ?thesis unfolding g' by (rule wp_mono) (use Some in auto)
next
  case None
  then obtain f where f: "a64_straight insn = Some f" "g' = followed f g" using s by (auto simp: a64_def)
  obtain h where h: "pc_free h" "\<forall>g. gPC g = ctx_pc c \<longrightarrow> f g = h g" "effect_on E ctx K (\<lambda>g. touches_outside ctx insn (g\<lparr>gPC := ctx_pc c\<rparr>)) (disassemble_insn c insn) h"
    using straight_implements [OF l f(1) v] unfolding implements_def by blast
  have "g' = (h (guest ctx mem))\<lparr>gPC := ctx_pc c + 4\<rparr>" using h(1,2) by (simp add: f(2) followed_def g_def pc_free_def)
  moreover have "wp E ctx K (disassemble_insn c insn) (\<lambda>r n' st' vals' mem'. \<not> r \<and> st' = False \<and> guest ctx mem' = h (guest ctx mem)) (\<lambda>_ _ _. False) n False vals mem"
    using h(3) t unfolding effect_on_def g_def by blast
  ultimately show ?thesis by (elim wp_mono) (use None in auto)
qed

text \<open>What is asked of the words of a block, along the steps of the guest.\<close>

fun block_safe :: "u64 \<Rightarrow> (u64 \<Rightarrow> u32) \<Rightarrow> nat \<Rightarrow> guest \<Rightarrow> bool" where
  "block_safe ctx fetch 0 g = True"
| "block_safe ctx fetch (Suc n) g = (let insn = fetch (gPC g) in
     touches_outside ctx insn g \<and> \<not> deviates insn \<and>
     (case a64 insn g of None \<Rightarrow> True | Some g' \<Rightarrow> a64_branch insn = None \<longrightarrow> block_safe ctx fetch n g'))"

lemma wp_dis_rounds:
  assumes "helpers_linked E hlp" "a64_block fetch m ((guest ctx mem)\<lparr>gPC := pc\<rparr>) = Some g'" "block_safe ctx fetch m ((guest ctx mem)\<lparr>gPC := pc\<rparr>)"
  shows "wp E ctx K (dis_rounds fetch hlp m i pc) (\<lambda>_ _ _ _ _. False) (\<lambda>v k mem'. guest ctx mem' = g' \<and> v = gPC g') n False vals mem"
  using assms(2,3)
proof (induction m arbitrary: i pc n vals mem)
  case 0
  then show ?case by (auto simp: wp_simps app_simps)
next
  case (Suc m)
  let ?c = "\<lparr>ctx_pc = pc, hlp_addr = hlp\<rparr>"
  let ?g = "(guest ctx mem)\<lparr>gPC := pc\<rparr>"
  let ?insn = "fetch pc"
  from Suc.prems obtain g1 where g1: "a64 ?insn ?g = Some g1" by (auto split: option.splits)
  have t: "touches_outside ctx ?insn ?g" "\<not> deviates ?insn" using Suc.prems(2) by (simp_all add: Let_def)
  have step: "wp E ctx K (disassemble_insn ?c ?insn)
    (\<lambda>r n' st vals' mem'. a64_branch ?insn = None \<and> \<not> r \<and> \<not> st \<and> gPC g1 = pc + 4 \<and> (guest ctx mem')\<lparr>gPC := pc + 4\<rparr> = g1)
    (\<lambda>v k mem'. a64_branch ?insn \<noteq> None \<and> guest ctx mem' = g1 \<and> v = gPC g1) n False vals mem"
    using wp_disassemble_insn [where c = ?c and E = E and mem = mem and ctx = ctx and insn = ?insn] assms(1) g1 t by simp
  have a: "app (disassemble_insn ?c ?insn)" "\<And>r. app (if r then ret () else dis_rounds fetch hlp m (Suc i) (pc + 4))"
    by (auto intro: jud_app [OF jud_disassemble_insn] jud_app [OF jud_dis_rounds] app_ret)
  show ?case unfolding dis_rounds_if wp_if_stepin if_False wp_bind_fun [OF a] using step
  proof (rule wp_mono)
    fix r n' st vals' mem'
    assume q: "a64_branch ?insn = None \<and> \<not> r \<and> \<not> st \<and> gPC g1 = pc + 4 \<and> (guest ctx mem')\<lparr>gPC := pc + 4\<rparr> = g1"
    then have "wp E ctx K (dis_rounds fetch hlp m (Suc i) (pc + 4)) (\<lambda>_ _ _ _ _. False) (\<lambda>v k mem'. guest ctx mem' = g' \<and> v = gPC g') n' False vals' mem'"
      using Suc.prems g1 by (intro Suc.IH) (simp_all add: Let_def)
    with q show "wp E ctx K (if r then ret () else dis_rounds fetch hlp m (Suc i) (pc + 4)) (\<lambda>_ _ _ _ _. False) (\<lambda>v k mem'. guest ctx mem' = g' \<and> v = gPC g') n' st vals' mem'"
      by simp
  next
    fix v k mem'
    assume "a64_branch ?insn \<noteq> None \<and> guest ctx mem' = g1 \<and> v = gPC g1"
    then show "guest ctx mem' = g' \<and> v = gPC g'" using Suc.prems(1) g1 by auto
  qed
qed

lemma block_run:
  assumes "disassemble_arm64 fetch hlp pc m (dis_start False) = Some s" "helpers_linked E hlp"
    "a64_block fetch m ((guest ctx mem)\<lparr>gPC := pc\<rparr>) = Some g'" "block_safe ctx fetch m ((guest ctx mem)\<lparr>gPC := pc\<rparr>)"
  shows "\<exists>k mem'. irun E ctx K (ops_insns 0 (dis_ops s)) vals mem = Some (Leave (gPC g') k mem') \<and> guest ctx mem' = g'"
  using wp_dis_rounds [OF assms(2-), of K 0 0 vals] unfolding wp_def rounds_ops(1) [OF assms(1)]
  by (auto split: prod.splits option.splits xres.splits)

end
