(* ===== verification/Sample_Guest.thy ===== *)
theory Sample_Guest
  imports Arm64_Sem_Block Sample_Block
begin

text \<open>
  A guest program and its helpers, at which the theorems about guest code are instantiated: \<open>movz x0, #5\<close> and \<open>b.ne\<close> back to it.
  The helpers are linked at small addresses.
\<close>

section \<open>Helpers\<close>

definition demo_names :: "string list" where
  "demo_names = [''arm64_hlp_compute_next_nzcv_64'', ''arm64_hlp_compute_next_nzcv_32'', ''arm64_hlp_compute_flags_pred'', ''arm64_hlp_compute_bitfield'',
     ''arm64_hlp_udiv_32'', ''arm64_hlp_sdiv_32'', ''arm64_hlp_umul_lsb_64'', ''arm64_hlp_umul_lsb_32'', ''arm64_hlp_umul_msb_64'',
     ''arm64_hlp_smul_msb_64'', ''arm64_hlp_smul_lsb_64'', ''arm64_hlp_clz'', ''arm64_hlp_cls'']"

definition demo_hlp :: "string \<Rightarrow> u64" where
  "demo_hlp name = of_nat (length (takeWhile (\<lambda>s. s \<noteq> name) demo_names))"

definition demo_arity :: "nat list" where "demo_arity = [4, 4, 2, 3, 2, 2, 2, 2, 2, 2, 2, 2, 2]"

definition result32 :: "u32 option \<Rightarrow> u64" where "result32 r = (case r of None \<Rightarrow> 0 | Some v \<Rightarrow> ucast v)"
definition result64 :: "u64 option \<Rightarrow> u64" where "result64 r = (case r of None \<Rightarrow> 0 | Some v \<Rightarrow> v)"

definition demo_result :: "nat \<Rightarrow> u64 list \<Rightarrow> u64" where
  "demo_result a as = [
     result32 (arm64_hlp_compute_next_nzcv_64 (ucast (as ! 0)) (as ! 1) (as ! 2) (ucast (as ! 3))),
     result32 (arm64_hlp_compute_next_nzcv_32 (ucast (as ! 0)) (ucast (as ! 1)) (ucast (as ! 2)) (ucast (as ! 3))),
     result32 (arm64_hlp_compute_flags_pred (ucast (as ! 0)) (ucast (as ! 1))),
     result64 (arm64_hlp_compute_bitfield (ucast (as ! 0)) (as ! 1) (as ! 2)),
     result32 (Some (arm64_hlp_udiv_32 (ucast (as ! 0)) (ucast (as ! 1)))), result32 (Some (arm64_hlp_sdiv_32 (ucast (as ! 0)) (ucast (as ! 1)))),
     arm64_hlp_umul_lsb_64 (as ! 0) (as ! 1), result32 (Some (arm64_hlp_umul_lsb_32 (ucast (as ! 0)) (ucast (as ! 1)))),
     arm64_hlp_umul_msb_64 (as ! 0) (as ! 1), arm64_hlp_smul_msb_64 (as ! 0) (as ! 1), arm64_hlp_smul_lsb_64 (as ! 0) (as ! 1),
     arm64_hlp_clz (as ! 0) (ucast (as ! 1)), arm64_hlp_cls (as ! 0) (ucast (as ! 1))] ! a"

definition linked_env :: xenv where
  "linked_env = \<lparr>hlp_arity = (\<lambda>a. if unat a < 13 then demo_arity ! unat a else 0),
     hlp_fun = (\<lambda>a ctx as m. (if unat a < 13 then demo_result (unat a) as else 0, m)), hlp_extends = True\<rparr>"

definition linked_helper :: "u64 \<Rightarrow> host \<Rightarrow> host" where
  "linked_helper a m = m\<lparr>gpr := (gpr m)(0 := fst (hlp_fun linked_env a (gpr m 7) (take (hlp_arity linked_env a) [gpr m 6, gpr m 2, gpr m 1, gpr m 8]) (hmem m)))\<rparr>"

lemma linked_helper_ok: "helper_ok linked_helper linked_env"
  by (simp add: helper_ok_def linked_helper_def linked_env_def)

lemma demo_addresses:
  "demo_hlp ''arm64_hlp_compute_next_nzcv_64'' = 0" "demo_hlp ''arm64_hlp_compute_next_nzcv_32'' = 1" "demo_hlp ''arm64_hlp_compute_flags_pred'' = 2"
  "demo_hlp ''arm64_hlp_compute_bitfield'' = 3" "demo_hlp ''arm64_hlp_udiv_32'' = 4" "demo_hlp ''arm64_hlp_sdiv_32'' = 5" "demo_hlp ''arm64_hlp_umul_lsb_64'' = 6"
  "demo_hlp ''arm64_hlp_umul_lsb_32'' = 7" "demo_hlp ''arm64_hlp_umul_msb_64'' = 8" "demo_hlp ''arm64_hlp_smul_msb_64'' = 9"
  "demo_hlp ''arm64_hlp_smul_lsb_64'' = 10" "demo_hlp ''arm64_hlp_clz'' = 11" "demo_hlp ''arm64_hlp_cls'' = 12"
  by (simp_all add: demo_hlp_def demo_names_def)

lemma linked_env_helpers: "helpers_linked linked_env demo_hlp"
proof -
  have "low32 (ucast (r :: u32)) = ucast r" for r by (rule bit_word_eqI) (auto simp: bit_simps dest: bit_imp_le_length)
  then show ?thesis unfolding helpers_linked_def demo_addresses linked32_def linked64_def linked_env_def
    by (simp add: demo_arity_def demo_result_def result32_def result64_def)
qed

section \<open>The program\<close>

definition demo_fetch :: "u64 \<Rightarrow> u32" where "demo_fetch a = (if a = 32768 then 0xD28000A0 else 0x54FFFFE1)"

definition demo_block_ops :: "ir_op list" where
  "demo_block_ops = [Mov_const IR_REG_64 5, Write_context IR_REG_64 0 0,
     Mov_const IR_REG_32 1, Read_context IR_REG_32 804, Mov_const IR_REG_64 2, Mov_const IR_REG_64 32772, Write_context IR_REG_64 4 832,
     Call (Some IR_REG_32) ''arm64_hlp_compute_flags_pred'' 3 [Some 1, Some 2, None, None], Mov_const IR_REG_64 0, Write_context IR_REG_64 6 832,
     Mov_const IR_REG_64 32768, Write_context IR_REG_64 7 256, Exit_cond 7 (Some 5),
     Mov_const IR_REG_64 32776, Write_context IR_REG_64 8 256, Exit 8]"

lemma demo_words:
  "disassemble_insn c 0xD28000A0 = dis_movz c 0xD28000A0"
  "disassemble_insn c 0x54FFFFE1 = dis_conditionnal_branch_immediate_insn c 0x54FFFFE1"
proof -
  have "fld 0xD28000A0 30 29 = 2" by (simp add: INSN_numeral)
  then show "disassemble_insn c 0xD28000A0 = dis_movz c 0xD28000A0" using immediate_decoded(3) [of "0xD28000A0" c] by simp
  show "disassemble_insn c 0x54FFFFE1 = dis_conditionnal_branch_immediate_insn c 0x54FFFFE1" using branch_decoded(4) [of "0x54FFFFE1" c] by simp
qed

lemma demo_movz: "dis_movz c 0xD28000A0 = do { r \<leftarrow> mk_64 5; write_x 0 r ZERO_REG; ret False }"
  by (simp add: dis_movz_def INSN_numeral call1_def)

lemma demo_branch: "dis_conditionnal_branch_immediate_insn c 0x54FFFFE1 = do { pred \<leftarrow> mk_pred c 1; branch_exits c pred (add_32U_to_64 pred) (- 4) }"
  by (simp add: dis_conditionnal_branch_immediate_insn_def INSN_numeral sext_signed)

lemma demo_disassembled:
  "disassemble_arm64 demo_fetch demo_hlp 32768 (Suc (Suc 0)) (dis_start False) = Some \<lparr>dis_ops = demo_block_ops, dis_nregs = 9, is_stepin = False\<rparr>"
  by (simp add: disassemble_arm64_def demo_fetch_def demo_words demo_movz demo_branch dis_start_def demo_block_ops_def
      branch_exits_def mk_pred_def mk_call_32_def mk_exit_def mk_exit_pred_def stepin_exit_def
      write_x_def write_pc_def read_nzcv_def mk_32_def mk_64_def call1_def emit_reg_def emit_op_def State_Monad.bind_def
      demo_addresses ZERO_REG_def off_r_def off_pc_def off_nzcv_def off_helper_pc_def)

definition demo_block_jitter :: jitter where "demo_block_jitter = the (replay demo_block_ops demo_start)"

lemma demo_block_replayed: "replay demo_block_ops demo_start = Some demo_block_jitter"
proof -
  have "\<not> Option.is_none (replay demo_block_ops demo_start)" by code_simp
  then show ?thesis by (auto simp: demo_block_jitter_def Option.is_none_def)
qed

lemma demo_start_empty: "regs_of demo_start = []" "insns_of demo_start = []"
  by code_simp+

lemma demo_block_jitted: "\<exists>len m h. jitCode (demo_block_jitter, demo_be) mem buf (int JIT_BUFFER_SIZE) = Some (len, m, h) \<and> 0 < len"
proof -
  have "case jitCode (demo_block_jitter, demo_be) (\<lambda>_. 0) 65536 (int JIT_BUFFER_SIZE) of None \<Rightarrow> False | Some (len, m, h') \<Rightarrow> 0 < len" by code_simp
  then obtain len m h' where "jitCode (demo_block_jitter, demo_be) (\<lambda>_. 0) 65536 (int JIT_BUFFER_SIZE) = Some (len, m, h')" "0 < len"
    by (auto split: option.splits)
  from jitCode_any_buffer [OF this(1)] this(2) show ?thesis by blast
qed

text \<open>The registers of the guest are at address 4096, all zero.\<close>

abbreviation (input) demo_guest :: guest where "demo_guest \<equiv> guest 4096 (\<lambda>_. 0)"

lemma demo_guest_steps: "\<exists>g. a64_block demo_fetch (Suc (Suc 0)) (demo_guest\<lparr>gPC := 32768\<rparr>) = Some g \<and> gPC g = 32768 \<and> gX g 0 = 5"
proof -
  have "case a64_block demo_fetch (Suc (Suc 0)) (demo_guest\<lparr>gPC := 32768\<rparr>) of None \<Rightarrow> False | Some g \<Rightarrow> gPC g = 32768 \<and> gX g 0 = 5" by code_simp
  then show ?thesis by (auto split: option.splits)
qed

lemma demo_guest_safe: "block_safe 4096 demo_fetch (Suc (Suc 0)) (demo_guest\<lparr>gPC := 32768\<rparr>)"
  by code_simp

definition guest_host :: "u64 \<Rightarrow> host" where
  "guest_host pc = \<lparr>gpr = (\<lambda>_. 0)(7 := 4096), zf = False, rip = pc, hmem = (\<lambda>_. 0), hstack = [4242]\<rparr>"

lemma guest_host_sim: "sim (\<lambda>_. 0) 4096 (\<lambda>_. 0) [4242] (guest_host pc)"
proof -
  have "(r + 8 :: u8) \<noteq> 7" if "r < 8" for r
  proof
    assume "r + 8 = 7"
    then have "r = 7 - 8" by (metis add_diff_cancel_right')
    with that show False by simp
  qed
  then show ?thesis by (simp add: sim_def guest_host_def)
qed

end
