(* ===== verification/Spec2Isabelle.thy ===== *)
theory Spec2Isabelle
  imports Sample_Map Sample_Guest
begin

text \<open>
Umeq runs programs for ARM processors on another Linux host. A guest block is disassembled into an intermediate
  code, compiled to host code, kept in a cache and run; blocks that follow each other are linked by patching
  the exit of the first. This development models the disassembler of arm64 guests, the just-in-time compiler for x86_64 hosts,
  the code caches, the main loop, the start of the program, and the emulation of the memory system
  calls of arm64 guests. Machine integers keep their width; \<open>None\<close> stands for a failed assertion or \<open>fatal\<close>.

  \<^bold>\<open>Theories\<close>

  \<^item> \<open>Umeq_Prelude\<close>: machine types, collections of simplification rules, generic lemmas.
  \<^item> \<open>Memory_Pool\<close>, \<open>Jitter_Types\<close>, \<open>Jitter\<close> (\<open>src/src/jitter/jitter.c\<close>, \<open>jitter_types.h\<close>): the pools, the intermediate
    code, the builder functions \<open>add_*\<close>, \<open>jitCode\<close> and \<open>findInsn\<close>; the builder's invariant \<open>ir_wf\<close> (typed,
    single assignment, exact last uses).
  \<^item> \<open>X86_Host\<close>: the subset of x86_64 machine code the backend emits, as a byte-level interpreter.
  \<^item> \<open>Be_Select\<close>, \<open>Be_RegAlloc\<close>, \<open>Be_CodeGen\<close>, \<open>Be_X86_64\<close> (\<open>src/src/jitter/x86_64/be_x86_64.c\<close>): the three passes of the
    backend, and \<open>jit\<close>, \<open>patch\<close>, the search for instruction markers and the signal exit.
  \<^item> \<open>Be_Encode\<close>, \<open>Be_Emit\<close>, \<open>Be_CodeGen_Sem\<close>, \<open>Be_RegAlloc_Sem\<close>, \<open>Be_Select_Wf\<close>, \<open>Be_Select_Sem\<close>: each pass keeps the
    meaning. The emitted bytes decode to the intended instructions and run like them; the linear scan never gives one
    register to two live values; selection keeps the effect of the intermediate code.
  \<^item> \<open>Cache\<close>, \<open>Cache_Global\<close> (\<open>src/src/cache/cache.c\<close>), \<open>Cache_None\<close> (\<open>cacheNone.c\<close>): the area of translated blocks with
    its hash table and lists in memory, the list of all caches with the request to clean them, and the cache without
    storage of signal handlers. \<open>Cache_Interface\<close> states what the loop relies on as the locale \<open>code_cache\<close>;
    both caches are instances of it.
  \<^item> \<open>Main_Loop\<close>, \<open>Main_Program\<close> (\<open>src/src/main.c\<close>): \<open>loop_common\<close> over any \<open>code_cache\<close>, the contexts of a loop, the choice
    of a memory profile, the command line.
  \<^item> \<open>Guest_Mmap\<close> (\<open>src/src/target/memory/mmap_common.c\<close>, \<open>src/src/target/arm64/syscall/arm64_mmap.c\<close>): the list of mapped
    and unmapped areas, its descriptors, the search for room and the entries for mmap, munmap, mremap, shmat and shmdt.
    \<open>Guest_Areas\<close> gives the list its meaning as a function from addresses to types and shows that \<open>insert_area\<close>
    refines the update of this function; \<open>Guest_Search\<close> and \<open>Guest_Mmap_Sem\<close> show what searches and calls do to it and the
    invariant of every sequence of calls.
  \<^item> \<open>Arm64_Helpers\<close> (\<open>src/src/target/arm64/disassembler/arm64_helpers.c\<close>): the integer helpers translated arm64 code calls.
    \<open>Arm64_Helpers_Sem\<close> compares them with the architecture: flags, conditions, bit fields, signed division, checksums.
  \<^item> \<open>Arm64_Dis_Base\<close>, \<open>Arm64_Dis_Mem\<close>, \<open>Arm64_Dis_Data\<close>, \<open>Arm64_Dis_Branch\<close>, \<open>Arm64_Dis_Simd\<close>, \<open>Arm64_Disassembler\<close>
    (\<open>src/src/target/arm64/disassembler/arm64_disassembler.c\<close>): one definition for each \<open>dis_*\<close> function and the decoding tree, in the
    state monad whose state is the list of calls made on the builder so far. A register the builder returns is the number
    of the call. Nested calls, whose order C leaves open, are made from left to right.
  \<^item> \<open>Dis_Replay\<close>, \<open>Dis_Logic\<close>: the list of calls replayed on the builder of \<open>Jitter\<close>, and the two calculi for functions of the
    disassembler: the types of the registers they use and the effect of the code they make.
    \<open>Arm64_Dis_Typing\<close>, \<open>Arm64_Dis_Cost\<close>: every function of the disassembler is typed, leaves no use of undefined bits and makes
    at most 56 calls. \<open>Arm64_Dis_Blocks\<close>: blocks, and the block that exhausts the pools.
  \<^item> \<open>Arm64_Guest\<close>: the guest as translated code sees it, registers at the offsets of \<open>struct arm64_registers\<close> and the memory outside.
    \<open>Arm64_Spec\<close>, \<open>Arm64_Spec_Insn\<close>: a reference semantics of the A64 integer instructions, written from the architecture and not
    from the source: arithmetic and logic on immediates, shifted and extended registers, moves, bit fields, conditional compares and
    selects, shifts, division, multiplication, reversals and counts, loads and stores with every addressing mode, pairs,
    literals, and all branches. \<open>a64\<close> is one step, \<open>a64_block\<close> the steps up to a branch.
  \<^item> \<open>Arm64_Dis_Wp\<close>, \<open>Arm64_Sem_Data\<close>, \<open>Arm64_Sem_Logic\<close>, \<open>Arm64_Sem_Branch\<close>, \<open>Arm64_Sem_Mem\<close>: the code of each function of the disassembler
    has the effect of the instruction. \<open>Arm64_Sem_Insn\<close>: the decoding tree reaches the function the encoding tables say.
    \<open>Arm64_Sem_Block\<close>: words and blocks.
  \<^item> \<open>Sample_Block\<close>, \<open>Sample_Map\<close>, \<open>Sample_Guest\<close>: a block, a loop, a host kernel, maps and a guest program with its helpers on which
    the properties are applied, and inputs on which the map goes wrong.

  \<^bold>\<open>What is shown\<close>

  The compiler: code built through the builder and compiled into the buffer or the cache, when run, returns the
  value, memory and link address the intermediate code stands for, provided at most eight values are needed at
  each instruction and the narrow values that the backend compares at full width are clean. The caches: lookup, append and
  patch agree with an abstract set of blocks. The loop: a round never fails and runs only a block of the current
  guest address; the loop returns when the guest stops. The memory map: a map goes only where the guest has nothing,
  is undone when the host refuses, and the descriptors it needs are always in reserve. The disassembler: for every
  sequence of instruction words the builder accepts all calls of a block if its pools have 56 entries for each instruction;
  the pools of the configured sizes have not. From guest words to host bytes: a block that is disassembled, compiled and
  run, in the buffer or in the cache, takes registers, flags and memory of the guest through the steps of the reference semantics and
  returns the new program counter. Two kinds of words are translated otherwise (\<open>deviates\<close>): divisions of 64 bits, whose result is cut to
  32 bits, and extractions of 64 bits at position 0.

  \<^bold>\<open>Parameters and bounds\<close>

  The target, the processor state of the guest, the run of translated code and the helper functions a block calls
  are parameters of the loop; the memory instructions are fetched from and the addresses of helpers are parameters of the
  disassembler. The theorems about the guest ask that the addresses lead to the helpers of \<open>Arm64_Helpers\<close> (\<open>helpers_linked\<close>), that
  these leave zeros above a result of 32 bits (\<open>hlp_extends\<close>; the code tests such results at full width), that the guest does not
  step through single instructions, and that it does not access the memory of its own register structure (\<open>block_safe\<close>). The hypotheses \<open>translates\<close> and \<open>executes\<close> say what the loop relies on. The host's system
  calls are a parameter of the memory map, with \<open>host_kernel\<close> as hypothesis. Host runs carry a number of steps, and the
  theorems give a number that is enough. \<open>loop_common\<close>, \<open>lookup_pc\<close> and \<open>collect_ongoing_unmap\<close> may not terminate and
  are partial functions; that they return is a theorem. At most 40 stacks wait to be unmapped at a time in the
  invariant of the map, which the page of 102 descriptors in reserve covers.

  \<^bold>\<open>Not modelled\<close>

  The disassemblers and helpers of the ARM guest, the vector and floating point helpers of
  the ARM64 guest, the vendored floating point library, the backend for
  i386 hosts, the assembly stubs that enter and leave translated code, the conversion of system call arguments,
  loaders and the gdb server. The reference semantics leaves out the vector, floating point, system, exclusive and unprivileged
  instructions and the checksums, whose translation is modelled. Threads run one at a time here: the mutexes of the cache list and of the map
  make their operations atomic.
\<close>

section \<open>The guest\<close>

text \<open>C2. The code the disassembler adds for one instruction word is one step of the architecture: run on the
  registers at \<open>ctx\<close>, it leaves the registers, the flags and the memory of the guest as the step does, and it leaves the block
  with the new program counter exactly for the branches. Words outside the reference semantics have no step; the words of
  \<open>deviates\<close> are translated otherwise.\<close>

theorem insn_correct:
  assumes "helpers_linked E (hlp_addr c)" "a64 insn ((guest ctx mem)\<lparr>gPC := ctx_pc c\<rparr>) = Some g'"
    "touches_outside ctx insn ((guest ctx mem)\<lparr>gPC := ctx_pc c\<rparr>)" "\<not> deviates insn"
    "outcome_of (disassemble_insn c insn) n False = (isExit, new, stepin)"
  shows "\<exists>res. irun E ctx K (ops_insns n new) vals mem = Some res \<and> (case res of
      Next vals' mem' \<Rightarrow> a64_branch insn = None \<and> \<not> isExit \<and> (guest ctx mem')\<lparr>gPC := ctx_pc c + 4\<rparr> = g'
    | Leave v k mem' \<Rightarrow> a64_branch insn \<noteq> None \<and> guest ctx mem' = g' \<and> v = gPC g')"
  using wp_disassemble_insn [OF assms(1-4), of K n vals] assms(5) by (auto simp: wp_def split: option.splits xres.splits)

theorem insn_correct_witness:
  "\<exists>g' isExit new stepin res. a64 0xD28000A0 (demo_guest\<lparr>gPC := 32768\<rparr>) = Some g' \<and>
     outcome_of (disassemble_insn \<lparr>ctx_pc = 32768, hlp_addr = demo_hlp\<rparr> 0xD28000A0) 0 False = (isExit, new, stepin) \<and>
     irun linked_env 4096 (\<lambda>_. False) (ops_insns 0 new) (\<lambda>_. 0) (\<lambda>_. 0) = Some res"
proof -
  have "\<not> Option.is_none (a64 0xD28000A0 (demo_guest\<lparr>gPC := 32768\<rparr>))" by code_simp
  then obtain g' where g: "a64 0xD28000A0 (demo_guest\<lparr>gPC := 32768\<rparr>) = Some g'" by (auto simp: Option.is_none_def)
  have t: "touches_outside 4096 0xD28000A0 (demo_guest\<lparr>gPC := 32768\<rparr>)" "\<not> deviates 0xD28000A0" by code_simp+
  obtain isExit new stepin where o: "outcome_of (disassemble_insn \<lparr>ctx_pc = 32768, hlp_addr = demo_hlp\<rparr> 0xD28000A0) 0 False = (isExit, new, stepin)"
    by (metis prod_cases3)
  show ?thesis using insn_correct [where E = linked_env and c = "\<lparr>ctx_pc = 32768, hlp_addr = demo_hlp\<rparr>" and ctx = 4096 and mem = "\<lambda>_. 0" and K = "\<lambda>_. False" and vals = "\<lambda>_. 0"] linked_env_helpers g t o
    by fastforce
qed



text \<open>C1. From guest words to host bytes: the code \<open>jitCode\<close> writes for the block at \<open>pc\<close>, run by the
  processor on a context that holds the registers of the guest, returns, hands back the program counter the guest has after the
  steps of the block, and leaves registers and memory as these steps do.\<close>

theorem guest_block_compiled:
  assumes "ir_built j" "regs_of j = []" "insns_of j = []" "be_fresh b"
    "disassemble_arm64 fetch hlp pc n (dis_start False) = Some s" "replay (dis_ops s) j = Some j1"
    "jitCode (j1, b) code buffer sz = Some (len, code', j', b')" "sz < 2 ^ 31"
    "helpers_linked E hlp" "hlp_extends E" "helper_ok h E"
    "a64_block fetch n ((guest ctx mem)\<lparr>gPC := pc\<rparr>) = Some g'" "block_safe ctx fetch n ((guest ctx mem)\<lparr>gPC := pc\<rparr>)"
    "sim pvals ctx mem (ra # st) m" "rip m = buffer"
  shows "\<exists>m'. runs h code' m m' \<and> rip m' = ra \<and> hstack m' = st \<and> gpr m' 0 = gPC g' \<and> guest ctx (hmem m') = g'"
proof -
  note b = block_replayed [OF assms(1-3,5,6)]
  obtain k mem' where r: "irun E ctx (is_const (insns_of j1)) (insns_of j1) (\<lambda>_. 0) mem = Some (Leave (gPC g') k mem')" "guest ctx mem' = g'"
    using block_run [OF assms(5,9,12,13)] unfolding b(2) by blast
  show ?thesis using jit_code_correct [OF ir_built_wf [OF b(1)] assms(4,7,8) _ r(1) assms(11,14,15)] b(3) assms(10) r(2) by (auto simp: reaches_def)
qed

theorem guest_block_compiled_witness:
  "\<exists>len code' j' b' m'. jitCode (demo_block_jitter, demo_be) (\<lambda>_. 0) 65536 (int JIT_BUFFER_SIZE) = Some (len, code', j', b') \<and>
     runs linked_helper code' (guest_host 65536) m' \<and> rip m' = 4242 \<and> gpr m' 0 = 32768 \<and> gX (guest 4096 (hmem m')) 0 = 5"
proof -
  obtain len code' j' b' where j: "jitCode (demo_block_jitter, demo_be) (\<lambda>_. 0) 65536 (int JIT_BUFFER_SIZE) = Some (len, code', j', b')"
    using demo_block_jitted by (metis prod_cases3)
  obtain g where g: "a64_block demo_fetch (Suc (Suc 0)) (demo_guest\<lparr>gPC := 32768\<rparr>) = Some g" "gPC g = 32768" "gX g 0 = 5"
    using demo_guest_steps by blast
  have r: "replay (dis_ops \<lparr>dis_ops = demo_block_ops, dis_nregs = 9, is_stepin = False\<rparr>) demo_start = Some demo_block_jitter"
    by (simp add: demo_block_replayed)
  have "\<exists>m'. runs linked_helper code' (guest_host 65536) m' \<and> rip m' = 4242 \<and> hstack m' = [] \<and> gpr m' 0 = gPC g \<and> guest 4096 (hmem m') = g"
    by (rule guest_block_compiled [OF ir_built.created [OF demo_start_created] demo_start_empty demo_be_fresh demo_disassembled r j _ linked_env_helpers _
          linked_helper_ok g(1) demo_guest_safe guest_host_sim]) (simp_all add: linked_env_def guest_host_def JIT_BUFFER_SIZE_def)
  then show ?thesis using j g(2,3) by auto
qed

text \<open>C3. The same for a block the cache holds: appended behind the translated code of other blocks and run at the
  address the cache gave it, it takes the guest through the steps of the block.\<close>

theorem guest_block_installed:
  assumes "cache_state_inv p buf JIT_BUFFER_SIZE (c, m0)" "ir_built j" "regs_of j = []" "insns_of j = []" "be_fresh b"
    "disassemble_arm64 fetch hlp pc n (dis_start False) = Some s" "replay (dis_ops s) j = Some j1"
    "jitCode (j1, b) m0 buf (int JIT_BUFFER_SIZE) = Some (len, m1, h')" "0 < len"
    "cache_append p (c, m1) pc buf (nat len) event = Some (a, event', c2, m2)"
    "helpers_linked E hlp" "hlp_extends E" "helper_ok h E"
    "a64_block fetch n ((guest ctx mem)\<lparr>gPC := pc\<rparr>) = Some g'" "block_safe ctx fetch n ((guest ctx mem)\<lparr>gPC := pc\<rparr>)"
    "sim pvals ctx mem (ra # st) m" "rip m = a"
  shows "\<exists>m'. runs h m2 m m' \<and> rip m' = ra \<and> hstack m' = st \<and> gpr m' 0 = gPC g' \<and> guest ctx (hmem m') = g'"
proof -
  note b = block_replayed [OF assms(2-4,6,7)]
  obtain k mem' where r: "irun E ctx (is_const (insns_of j1)) (insns_of j1) (\<lambda>_. 0) mem = Some (Leave (gPC g') k mem')" "guest ctx mem' = g'"
    using block_run [OF assms(6,11,14,15)] unfolding b(2) by blast
  have "clean_block (hlp_extends E) (types_of j1) {} (insns_of j1)" using b(3) assms(12) by simp
  from hashed.installed_block_correct [OF refl assms(1) ir_built_wf [OF b(1)] assms(5,8,9,10) this r(1) assms(13,16,17)] r(2) show ?thesis
    by (auto simp: reaches_def)
qed

theorem guest_block_installed_witness:
  "\<exists>len m1 h' a event' c2 m2 m'. jitCode (demo_block_jitter, demo_be) (\<lambda>_. 0) 65536 (int JIT_BUFFER_SIZE) = Some (len, m1, h') \<and>
     cache_append 1048576 (demo_g, m1) 32768 65536 (nat len) False = Some (a, event', c2, m2) \<and>
     runs linked_helper m2 (guest_host a) m' \<and> rip m' = 4242 \<and> gpr m' 0 = 32768 \<and> gX (guest 4096 (hmem m')) 0 = 5"
proof -
  obtain len m1 h' where j: "jitCode (demo_block_jitter, demo_be) (\<lambda>_. 0) 65536 (int JIT_BUFFER_SIZE) = Some (len, m1, h')" "0 < len"
    using demo_block_jitted by blast
  note F = jitCode_frame [OF j(1)]
  have i1: "cache_state_inv 1048576 65536 JIT_BUFFER_SIZE (demo_g, m1)"
    by (rule hashed.write_buffer(1) [OF demo_g_inv(1)]) (use F(3) in simp)
  have n: "0 < nat len" "nat len \<le> JIT_BUFFER_SIZE" using j(2) F(2) by auto
  from hashed.append_total [OF i1 n, of 32768 False] obtain a event' c2 m2 where
    ap: "cache_append 1048576 (demo_g, m1) 32768 65536 (nat len) False = Some (a, event', c2, m2)" by (metis prod_cases3)
  obtain g where g: "a64_block demo_fetch (Suc (Suc 0)) (demo_guest\<lparr>gPC := 32768\<rparr>) = Some g" "gPC g = 32768" "gX g 0 = 5"
    using demo_guest_steps by blast
  have r: "replay (dis_ops \<lparr>dis_ops = demo_block_ops, dis_nregs = 9, is_stepin = False\<rparr>) demo_start = Some demo_block_jitter"
    by (simp add: demo_block_replayed)
  have "\<exists>m'. runs linked_helper m2 (guest_host a) m' \<and> rip m' = 4242 \<and> hstack m' = [] \<and> gpr m' 0 = gPC g \<and> guest 4096 (hmem m') = g"
    by (rule guest_block_installed [OF demo_g_inv(1) ir_built.created [OF demo_start_created] demo_start_empty demo_be_fresh demo_disassembled r j ap
          linked_env_helpers _ linked_helper_ok g(1) demo_guest_safe guest_host_sim]) (simp_all add: linked_env_def guest_host_def)
  then show ?thesis using j ap g(2,3) by auto
qed

section \<open>The compiler\<close>

text \<open>C5. The code \<open>jitCode\<close> writes for a block has the effect of the block's intermediate code: when the
  intermediate code leaves with a value, the host run from the start of the buffer returns with that value, the same memory,
  the stack of the caller, and, for an exit with a constant address, the address of an area that can be patched.\<close>

theorem compile_correct:
  assumes "ir_built j" "be_fresh s"
    "jitCode (j, s) code buffer sz = Some (len, code', j', s')" "sz < 2 ^ 31"
    "clean_block (hlp_extends E) (types_of j) {} (insns_of j)"
    "irun E ctx (is_const (insns_of j)) (insns_of j) ivals mem = Some (Leave v k mem')"
    "helper_ok h E" "sim pvals ctx mem (ra # st) m" "rip m = buffer"
  shows "\<exists>m'. runs h code' m m' \<and> rip m' = ra \<and> gpr m' 0 = v \<and> hmem m' = mem' \<and> hstack m' = st \<and>
    (if k then patch_area code' (gpr m' 2) else gpr m' 2 = 0)"
  using jit_code_correct [OF ir_built_wf [OF assms(1)] assms(2-)] by (simp add: reaches_def)

theorem compile_correct_witness:
  "\<exists>len code' j' s' m'. jitCode (demo_jitter, demo_be) (\<lambda>_. 0) 4096 16384 = Some (len, code', j', s') \<and>
     runs demo_helper code' (demo_host 4096) m' \<and> rip m' = 4242 \<and> gpr m' 0 = 12"
proof -
  obtain len code' j' s' where j: "jitCode (demo_jitter, demo_be) (\<lambda>_. 0) 4096 16384 = Some (len, code', j', s')"
    using demo_jitted by auto
  have "rip (demo_host 4096) = 4096" by (simp add: demo_host_def)
  from compile_correct [OF demo_built demo_be_fresh j _ demo_clean demo_run demo_helper_ok demo_sim this] j
  show ?thesis by auto
qed

text \<open>C9. The first pass translates the intermediate code into host instructions over virtual registers with
  the same effect, whatever bits the host leaves above a partial write.\<close>

theorem selection_correct:
  assumes "ir_wf j" "be_fresh s" "allocateInstructions (insns_of j) (s, regs_of j) = Some (s', irs')"
    "clean_block (hlp_extends E) (types_of j) {} (insns_of j)"
    "irun E ctx (is_const (insns_of j)) (insns_of j) ivals mem = Some ires"
    "vrun E ctx (xinsns_of s') xvals mem res"
  shows "map_option outcome res = Some (outcome ires)"
proof -
  have "rel (types_of j) {} (regs_of j) ivals xvals" using ir_wf_regD(2) [OF assms(1)] by (simp add: rel_def)
  with allocateInstructions_run [OF assms(1) sel_inv_start [OF assms(1,2)], of s' irs' E ctx] assms show ?thesis
    by (auto simp: be_fresh_def)
qed

theorem selection_correct_witness:
  "\<exists>res. vrun demo_env 0 (xinsns_of (fst demo_sel)) (\<lambda>_. 0) (\<lambda>_. 0) res \<and> map_option outcome res = Some (Some (12, False), (\<lambda>_. 0))"
proof -
  have "vrun demo_env 0 (xinsns_of (fst demo_sel)) (\<lambda>_. 0) (\<lambda>_. 0) (Some (Leave 12 False (\<lambda>_. 0)))"
    unfolding demo_xinsns 
    by ((rule vrun_next [where junk = 0], simp, rule vrun_next [where junk = 0], simp, rule vrun_next [where junk = 0], simp),
        rule vrun_leave [where junk = 0], simp add: binop_val_def)
  from selection_correct [OF demo_wf demo_be_fresh demo_selected demo_clean demo_run this] this show ?thesis by auto
qed

text \<open>C22. The host instructions the first pass leaves define every virtual register once and before its uses, and
  every register records its last use.\<close>

theorem selection_wf:
  assumes "ir_wf j" "be_fresh s" "allocateInstructions (insns_of j) (s, regs_of j) = Some (s', irs')"
  shows "x_wf (xregs_of s') (xinsns_of s')"
  by (rule allocateInstructions_x_wf [OF assms])

theorem selection_wf_witness: "x_wf (xregs_of (fst demo_sel)) (xinsns_of (fst demo_sel)) \<and> length (xinsns_of (fst demo_sel)) = 4"
  using selection_wf [OF demo_wf demo_be_fresh demo_selected] by (simp add: demo_xinsns)

text \<open>C8. Register allocation keeps the effect of the host instructions: the run on the eight physical
  registers ends as a run on the virtual ones.\<close>

theorem allocation_correct:
  assumes "x_wf (xregs_of s) (xinsns_of s)" "allocateRegisters s = Some s'"
  shows "\<exists>res. vrun E ctx (xinsns_of s) vals mem res \<and>
    map_option outcome (xrun E ctx (phys_insns s') pvals mem) = map_option outcome res"
proof -
  note A = allocateRegisters_ok [OF assms]
  have "\<forall>r. live (xinsns_of s') 0 r \<longrightarrow> pvals (phys (xregs_of s') r) = vals r" by (simp add: live_def defined_def)
  from alloc_run [OF A(1) _ this, of E ctx mem] A(2) show ?thesis by (simp add: phys_insns_def)
qed

theorem allocation_correct_witness:
  "\<exists>res. vrun demo_env 0 (xinsns_of (fst demo_sel)) (\<lambda>_. 0) (\<lambda>_. 0) res \<and>
    map_option outcome (xrun demo_env 0 (phys_insns demo_alloc) (\<lambda>_. 0) (\<lambda>_. 0)) = map_option outcome res"
  by (rule allocation_correct [OF demo_x_wf demo_allocated])

text \<open>C16. No two values that are still needed share a physical register, and the register an instruction writes
  holds no value that is still needed, not even an operand of the instruction.\<close>

theorem allocation_safe:
  assumes "x_wf (xregs_of s) (xinsns_of s)" "allocateRegisters s = Some s'" "k < length (xinsns_of s)"
    "live (xinsns_of s) k r"
  shows "phys (xregs_of s') r < 8 \<and> (\<forall>q. live (xinsns_of s) k q \<and> q \<noteq> r \<longrightarrow> phys (xregs_of s') q \<noteq> phys (xregs_of s') r) \<and>
    (\<forall>d. x_write (xinsns_of s ! k) = Some d \<longrightarrow> phys (xregs_of s') d \<noteq> phys (xregs_of s') r)"
proof -
  note A = allocateRegisters_ok [OF assms(1,2)]
  have k: "k < length (xinsns_of s')" using assms(3) A(2) by simp
  note P = alloc_ok_phys [OF A(1) k, unfolded A(2)]
  from P(1,2,4) assms(4) show ?thesis by blast
qed

theorem allocation_safe_witness: "phys (xregs_of demo_alloc) 1 \<noteq> phys (xregs_of demo_alloc) 0 \<and> phys (xregs_of demo_alloc) 2 \<noteq> phys (xregs_of demo_alloc) 0"
proof -
  have l: "live (xinsns_of (fst demo_sel)) 2 0" "live (xinsns_of (fst demo_sel)) 2 1"
    by (auto simp: live_def defined_def demo_xinsns last_read_def numeral_2_eq_2 less_Suc_eq intro: exI [of _ 0] exI [of _ 1])
  have k: "2 < length (xinsns_of (fst demo_sel))" "x_write (xinsns_of (fst demo_sel) ! 2) = Some 2" by (simp_all add: demo_xinsns)
  from allocation_safe [OF demo_x_wf demo_allocated k(1) l(1)] l(2) k(2) show ?thesis by auto
qed

text \<open>C17. The allocator finds a register for every value as long as no instruction needs more than the eight
  there are; it never runs out earlier by keeping a register too long.\<close>

theorem allocation_succeeds:
  assumes "x_wf (xregs_of s) (xinsns_of s)" "\<forall>k < length (xinsns_of s). pressure (xinsns_of s) k \<le> REG_NUMBER"
  shows "\<exists>s'. allocateRegisters s = Some s'"
proof -
  have "alloc_inv (xinsns_of s) 0 (xregs_of s, replicate REG_NUMBER True)"
    using assms(1) by (simp add: alloc_inv_def placed_def live_def defined_def)
  moreover have "tight (xinsns_of s) 0 (xregs_of s, replicate REG_NUMBER True)" by (simp add: tight_def)
  ultimately obtain a where "allocateRegistersFrom 0 (xinsns_of s) (xregs_of s, replicate REG_NUMBER True) = Some a"
    using alloc_succeeds [of "xinsns_of s" 0] assms(2) by force
  then show ?thesis by (cases a) (simp add: allocateRegisters_def)
qed

theorem allocation_succeeds_witness: "\<exists>s'. allocateRegisters (fst demo_sel) = Some s'"
  using allocation_succeeds [OF demo_x_wf] demo_pressure by blast

text \<open>C10. The bytes of a sequence of host instructions on physical registers, run by the processor, compute what
  the instructions mean.\<close>

theorem codegen_correct:
  assumes "helper_ok h E" "\<forall>i \<in> set is. phys_ok i" "gen_insns is = Some c"
    "sim vals ctx mem (ra # st) m" "code_at code (rip m) c" "xrun E ctx is vals mem = Some res"
  shows "reaches h code ctx ra st (rip m + of_nat (length c)) m res"
  by (rule gen_insns_correct [OF assms])

theorem codegen_correct_witness:
  "\<exists>c. gen_insns [X86_MOV_CONST 0 5] = Some c \<and> reaches demo_helper (store_code (\<lambda>_. 0) 4096 c) 0 4242 [] (4096 + of_nat (length c))
     (demo_host 4096) (Next ((\<lambda>_. 0)(0 := 5)) (\<lambda>_. 0))"
proof -
  let ?c = "gen_mov_const 0 5"
  have "length ?c < 2 ^ 64" by (simp add: gen_simps le64_def)
  from store_code_at [OF this, of "\<lambda>_. 0" 4096] have at: "code_at (store_code (\<lambda>_. 0) 4096 ?c) (rip (demo_host 4096)) ?c" by (simp add: demo_host_def)
  have g: "gen_insns [X86_MOV_CONST 0 5] = Some ?c" by simp
  have p: "\<forall>i \<in> set [X86_MOV_CONST (0::u8) 5]. phys_ok i" by (simp add: phys_ok_def)
  have x: "xrun demo_env 0 [X86_MOV_CONST 0 5] (\<lambda>_. 0) (\<lambda>_. 0) = Some (Next ((\<lambda>_. 0)(0 := 5)) (\<lambda>_. 0))" by simp
  from codegen_correct [OF demo_helper_ok p g demo_sim at x] g show ?thesis by (simp add: demo_host_def)
qed

text \<open>A block of \<open>n\<close> host instructions needs at most 45 bytes for each.\<close>

lemma code_length:
  assumes "generateCode s = Some c"
  shows "length c \<le> 45 * length (xinsns_of s)"
  using gen_insns_length [of "phys_insns s" c] assms by (simp add: generateCode_def phys_insns_def)

text \<open>C18. A patched exit no longer returns: it goes on at the target, with the guest memory, the stack and all
  registers but \<open>rax\<close> and \<open>rdx\<close> unchanged.\<close>

theorem patch_links:
  assumes "code_at code (rip m) (gen_exit_sequence v True)" "v < 8"
    "patch code (exit_link (rip m) True) target = Some code'"
  shows "\<exists>m'. runs h code' m m' \<and> rip m' = target \<and> hmem m' = hmem m \<and> hstack m' = hstack m \<and>
     (\<forall>r. r \<notin> {0, 2} \<longrightarrow> gpr m' r = gpr m r)"
  by (rule patched_exit_jumps [OF assms])

theorem patch_links_witness:
  "\<exists>code' m'. patch (store_code (\<lambda>_. 0) 4096 (gen_exit_sequence 0 True)) (exit_link 4096 True) 8192 = Some code' \<and>
     runs demo_helper code' (demo_host 4096) m' \<and> rip m' = 8192"
proof -
  let ?c = "gen_exit_sequence 0 True"
  have "length ?c < 2 ^ 64" by (simp add: gen_exit_sequence_def gen_simps)
  from store_code_at [OF this, of "\<lambda>_. 0" 4096] have at: "code_at (store_code (\<lambda>_. 0) 4096 ?c) (rip (demo_host 4096)) ?c" by (simp add: demo_host_def)
  obtain code' where p: "patch (store_code (\<lambda>_. 0) 4096 ?c) (exit_link (rip (demo_host 4096)) True) 8192 = Some code'"
    using patch_bytes [OF exit_patch_area [OF at]] by blast
  from patch_links [OF at _ p, of demo_helper] p show ?thesis by (auto simp: demo_host_def)
qed



text \<open>The first byte of the code behind a marker is counted to the guest instruction before it: the scan
  stops as soon as the position has reached the offset.\<close>

lemma marker_first_byte:
  assumes "phys_insns s = is @ X86_INSN_MARKER v # js" "gen_insns (unmarked is) = Some c" "is \<noteq> []" "\<not> is_marker (last is)"
    "\<exists>d. gen_insn (last is) = Some d \<and> d \<noteq> []"
  shows "findInsnInCode s (length c) = Some (last_marker (NOT 0) is)"
  using findInsnFrom_first_byte [OF assms(2-4), of 0 "length c"] assms(1,5) by (simp add: findInsnInCode_def)

text \<open>C7. A block that has been translated and appended to the cache behaves, run from where the cache has put
  it, as the intermediate code it was made from.\<close>

theorem installed_correct:
  assumes "cache_state_inv p buf JIT_BUFFER_SIZE (c, m)" "ir_built j" "be_fresh s"
    "jitCode (j, s) m buf (int JIT_BUFFER_SIZE) = Some (len, m1, h')" "0 < len"
    "cache_append p (c, m1) pc buf (nat len) event = Some (a, event', c2, m2)"
    "clean_block (hlp_extends E) (types_of j) {} (insns_of j)"
    "irun E ctx (is_const (insns_of j)) (insns_of j) ivals mem = Some (Leave v k mem')"
    "helper_ok h E" "sim pvals ctx mem (ra # st) mch" "rip mch = a"
  shows "\<exists>m'. runs h m2 mch m' \<and> rip m' = ra \<and> gpr m' 0 = v \<and> hmem m' = mem' \<and> hstack m' = st \<and>
    (if k then patch_area m2 (gpr m' 2) else gpr m' 2 = 0)"
  using hashed.installed_block_correct [OF refl assms(1) ir_built_wf [OF assms(2)] assms(3-)] by (simp add: reaches_def)

theorem installed_correct_witness:
  "\<exists>len m1 h' a event' c2 m2 m'. jitCode (demo_jitter, demo_be) (\<lambda>_. 0) 65536 (int JIT_BUFFER_SIZE) = Some (len, m1, h') \<and>
     cache_append 1048576 (demo_g, m1) 4096 65536 (nat len) False = Some (a, event', c2, m2) \<and>
     runs demo_helper m2 (demo_host a) m' \<and> rip m' = 4242 \<and> gpr m' 0 = 12"
proof -
  have "(case jitCode (demo_jitter, demo_be) (\<lambda>_. 0) 4096 (int JIT_BUFFER_SIZE) of None \<Rightarrow> False | Some (len, m, h') \<Rightarrow> 0 < len)" by code_simp
  then obtain len m h' where j0: "jitCode (demo_jitter, demo_be) (\<lambda>_. 0) 4096 (int JIT_BUFFER_SIZE) = Some (len, m, h')" "0 < len"
    by (auto split: option.splits)
  from jitCode_any_buffer [OF j0(1)] obtain m1 where
    j: "jitCode (demo_jitter, demo_be) (\<lambda>_. 0) 65536 (int JIT_BUFFER_SIZE) = Some (len, m1, h')" by blast
  note F = jitCode_frame [OF j]
  have i1: "cache_state_inv 1048576 65536 JIT_BUFFER_SIZE (demo_g, m1)"
    by (rule hashed.write_buffer(1) [OF demo_g_inv(1)]) (use F(3) in simp)
  have n: "0 < nat len" "nat len \<le> JIT_BUFFER_SIZE" using j0(2) F(2) by auto
  from hashed.append_total [OF i1 n, of 4096 False] obtain a event' c2 m2 where
    ap: "cache_append 1048576 (demo_g, m1) 4096 65536 (nat len) False = Some (a, event', c2, m2)" by (metis prod_cases3)
  have "rip (demo_host a) = a" by (simp add: demo_host_def)
  from installed_correct [OF demo_g_inv(1) demo_built demo_be_fresh j j0(2) ap demo_clean demo_run demo_helper_ok demo_sim this] j ap
  show ?thesis by auto
qed

section \<open>The builder of intermediate code\<close>

text \<open>C11. Whatever sequence of builder calls a disassembler makes with registers it got from earlier calls, the
  intermediate code is well formed: every register is written once, before its uses, the types fit, the registers
  record their last use, and the pools are within their bounds.\<close>

theorem built_wf:
  assumes "ir_built j"
  shows "ir_wf j"
  by (rule ir_built_wf [OF assms])

theorem built_wf_witness: "ir_wf demo_jitter \<and> length (insns_of demo_jitter) = 4"
  using built_wf [OF demo_built] by (simp add: demo_insns)

section \<open>The program\<close>



text \<open>What the loop of a profile takes from the stack leaves at least 512 KB of the stack limit that made the
  profile be chosen.\<close>

lemma stack_fits:
  assumes "setup_memory_profile (Some (rlim_cur, rlim_max)) ok p0 = Some (p, lim)"
  shows "\<exists>l. lim = Some l \<and> of_int (loop_stack_usage (cache_memory_config p) + 512 * KB) \<le> l"
proof -
  obtain l where l: "lim = Some l" "of_int (profile_size p) \<le> l" using profile_limit [OF assms] by blast
  have "(of_int (loop_stack_usage (cache_memory_config p) + 512 * KB) :: u64) \<le> of_int (profile_size p)"
    by (cases p) (simp_all add: loop_stack_usage_def KB_def MB_def JIT_BUFFER_SIZE_def)
  with l show ?thesis by auto
qed

text \<open>The options written on the command line are read back: the values of \<open>-E\<close> and \<open>-U\<close> in their order, the
  flags, and the index of the guest program.\<close>

lemma options_roundtrip:
  assumes "length (envs_of cs) \<le> 16" "length (unsets_of cs) \<le> 16" "\<not> is_option_word prog"
  shows "\<exists>opts. capture_options (self # concat (map words_of cs) @ prog # args) no_options = Inr opts \<and>
    take (additionnal_env_index opts) (additionnal_env opts) = map Some (envs_of cs) \<and>
    take (unset_env_index opts) (unset_env opts) = map Some (unsets_of cs) \<and>
    (is_umeq_call_in_execve opts \<longleftrightarrow> Execve \<in> set cs) \<and> (is_under_proot opts \<longleftrightarrow> (\<exists>c \<in> set cs. c \<noteq> Execve)) \<and>
    drop (target_argv0_index opts) (self # concat (map words_of cs) @ prog # args) = prog # args"
proof -
  let ?argv = "self # concat (map words_of cs) @ prog # args" and ?o = "fold (add_option self) cs no_options"
  have "drop (target_argv0_index no_options) ?argv = concat (map words_of cs) @ prog # args" by (simp add: no_options_def)
  note A = capture_all [OF this]
  have r: "capture_options ?argv no_options = capture_options ?argv ?o" "drop (target_argv0_index ?o) ?argv = prog # args"
    using A assms(1,2) by (simp_all add: no_options_def)
  have "capture_options ?argv ?o = Inr ?o" by (rule capture_stops [OF r(2) assms(3)])
  then show ?thesis
    using r fold_options [of no_options cs self] assms(1,2) by (simp add: no_options_def)
qed

text \<open>C25. A seventeenth \<open>-E\<close> is written behind the array of 16 before the assertion on the count is reached.\<close>

theorem options_overflow:
  assumes "length (envs_of cs) = 16" "length (unsets_of cs) \<le> 16"
  shows "main loader run (self # concat (map words_of cs) @ ''-E'' # v # rest) = Inl Out_of_bounds"
  using capture_overflow [of no_options "self # concat (map words_of cs) @ ''-E'' # v # rest" cs v rest] assms
  by (simp add: main_def no_options_def)

theorem options_overflow_witness:
  "main (\<lambda>_ _. (0, 0)) (\<lambda>_ _ _. 0) (''umeq'' # concat (replicate 16 [''-E'', ''x'']) @ [''-E'', ''x'', ''prog'']) = Inl Out_of_bounds"
  using options_overflow [of "replicate 16 (Set_env ''x'')" "\<lambda>_ _. (0, 0)" "\<lambda>_ _ _. 0" "''umeq''" "''x''" "[''prog'']"]
  by (simp add: eval_nat_numeral)

section \<open>The code caches\<close>



text \<open>C14. Appending stores the bytes of the buffer as a block for the guest address, in an area of its own:
  when the cache has not been cleaned to make room, every other block and its bytes are unchanged.\<close>

theorem cache_append_stores:
  assumes "cache_state_inv p buf n (g, mem)" "k \<le> n"
  shows "\<exists>a event' g' mem'. cache_append p (g, mem) pc buf k event = Some (a, event', g', mem') \<and>
     cache_state_inv p buf n (g', mem') \<and> cache_block p (g', mem') pc a k \<and> (event \<longrightarrow> event') \<and>
     (\<forall>i < k. mem' (a + of_nat i) = mem (buf + of_nat i)) \<and>
     (\<not> event' \<longrightarrow> (\<forall>pc' a' n'. cache_block p (g, mem) pc' a' n' \<longrightarrow>
        cache_block p (g', mem') pc' a' n' \<and> (\<forall>i < n'. mem' (a' + of_nat i) = mem (a' + of_nat i))))"
  by (rule cache_append_spec [OF assms])

theorem cache_append_stores_witness:
  "\<exists>a event' g' mem'. cache_append 1048576 (demo_g, \<lambda>_. 0) 4096 65536 100 False = Some (a, event', g', mem') \<and>
     cache_block 1048576 (g', mem') 4096 a 100"
  using cache_append_stores [OF demo_g_inv(1), of 100 4096 False] by (auto simp: JIT_BUFFER_SIZE_def)

text \<open>C15. A block that was missing and has then been appended is what the next lookup of its address returns.\<close>

theorem cache_roundtrip:
  assumes "cache_state_inv p buf n s" "k \<le> n" "cache_lookup p s pc False = Some (0, False, g, mem)"
    "cache_append p (g, mem) pc buf k False = Some (a, event, g', mem')"
  shows "\<exists>g''. cache_lookup p (g', mem') pc False = Some (a, False, g'', mem')"
  using append_lookup [OF assms] hashed.lookup_inv [OF assms(1,3)] by blast

theorem cache_roundtrip_witness:
  "\<exists>g a event g' mem' g''. cache_lookup 1048576 (demo_g, \<lambda>_. 0) 4096 False = Some (0, False, g, \<lambda>_. 0) \<and>
    cache_append 1048576 (g, \<lambda>_. 0) 4096 65536 100 False = Some (a, event, g', mem') \<and>
    cache_lookup 1048576 (g', mem') 4096 False = Some (a, False, g'', mem')"
proof -
  have "map_option (\<lambda>(a, event, g, m). (a, event)) (cache_lookup 1048576 (demo_g, \<lambda>_. 0) 4096 False) = Some (0, False)"
    by (simp add: cache_simps demo_g_def demo_no_caches_def MB_def Let_def)
  then obtain g m where l: "cache_lookup 1048576 (demo_g, \<lambda>_. 0) 4096 False = Some (0, False, g, m)" by auto
  from hashed.lookup_inv [OF demo_g_inv(1) this] have m: "m = (\<lambda>_. 0)"
    and i: "cache_state_inv 1048576 65536 JIT_BUFFER_SIZE (g, \<lambda>_. 0)" by auto
  have k: "100 \<le> JIT_BUFFER_SIZE" by (simp add: JIT_BUFFER_SIZE_def)
  from hashed.append_total [OF i _ k] obtain a event g' mem' where
    "cache_append 1048576 (g, \<lambda>_. 0) 4096 65536 100 False = Some (a, event, g', mem')" by fastforce
  with cache_roundtrip [OF demo_g_inv(1) k l [unfolded m] this] l m show ?thesis by blast
qed



text \<open>C24. Removing a cache takes exactly it out of the list; removing one that is not there fails the assertion.\<close>

theorem cache_removed:
  assumes "caches_wf g qs"
  shows "if p \<in> set qs then \<exists>g'. removeCache p g = Some g' \<and> caches_wf g' (remove1 p qs) else removeCache p g = None"
proof (cases "p \<in> set qs")
  case True
  with ll_remove_wf [OF assms] show ?thesis by (auto simp: removeCache_def)
next
  case False
  have "ll_remove_from g p prev cur = None" if "linked (heap g) cur rs" "p \<notin> set rs" for prev cur rs
    using that
  proof (induction rs arbitrary: prev cur)
    case (Cons r rs)
    then show ?case by (subst ll_remove_from.simps) (auto)
  qed (simp add: ll_remove_from.simps)
  with False assms show ?thesis by (auto simp: removeCache_def ll_remove_cache_def caches_wf_def)
qed

theorem cache_removed_witness: "(\<exists>g'. removeCache 1048576 demo_g = Some g' \<and> caches_wf g' []) \<and> removeCache 4096 demo_g = None"
  using cache_removed [OF demo_g_inv(2), of 1048576] cache_removed [OF demo_g_inv(2), of 4096] by simp

text \<open>C21. Any host address inside a block leads back to the guest address it was translated from and to the start of
  its code.\<close>

theorem host_pc_found:
  assumes "cache_inv (c, mem) es" "(off, pc, len) \<in> set es" "k < len"
  shows "lookup_pc (c, mem) (tb_to_jit_area (area c + of_nat off) + of_nat k) = Some (pc, Some (tb_to_jit_area (area c + of_nat off)))"
  by (rule lookup_pc_finds [OF assms])

theorem host_pc_found_witness:
  "\<exists>c mem a. lookup_pc (c, mem) (a + 5) = Some (4096, Some a)"
proof -
  from hashed.append_inv [OF demo_g_inv(1), of 100 4096 False] hashed.append_total [OF demo_g_inv(1), of 100 4096 False]
  obtain a g' mem' where "cache_block 1048576 (g', mem') 4096 a 100" by (auto simp: JIT_BUFFER_SIZE_def)
  then obtain c es off where "cache_inv (c, mem') es" "(off, 4096, 100) \<in> set es" "a = tb_to_jit_area (area c + of_nat off)"
    by (auto simp: cache_block_def)
  with host_pc_found [OF this(1,2), of 5] show ?thesis by auto
qed

text \<open>C26. The scan does not end when it meets a header of size zero before the end of the area, as in an area that
  has never been written: an address outside the blocks must not be looked up.\<close>

theorem host_pc_stuck:
  assumes "tb_size mem (area c) = 0" "area c < area_end c"
  shows "lookup_pc (c, mem) host_pc = None"
  using lookup_pc_from_stuck [OF assms] by (simp add: lookup_pc_def)

theorem host_pc_stuck_witness:
  "lookup_pc (\<lparr>next_cache = 0, jitter_area_size = 4096, write_pos = 0, clean = False, cached = (\<lambda>_. 0), hash_list = (\<lambda>_. 0),
      area = 4096, area_end = 8192\<rparr>, \<lambda>_. 0) 5000 = None"
  by (rule host_pc_stuck) (simp add: tb_size_def numeral_2_eq_2, simp)

section \<open>The main loop\<close>





text \<open>The same loop without a cache, as it runs inside a signal handler.\<close>

lemma loop_ends_signal:
  assumes "executes env (\<lambda>_. True) block_none" "translates env buf mx ps" "loop_inv (\<lambda>_. True) block_none ps st"
    "stops_within n (loop_body lookup_none append_none env buf mx) (\<lambda>st. isLooping env (target_st st)) st"
  shows "\<exists>st'. loop_common lookup_none append_none env buf mx st = Some st' \<and> \<not> isLooping env (target_st st')"
  using none.loop_common_returns [OF assms(1,2) refl assms(3,4)] by blast

lemma demo_ends_signal:
  "\<exists>st'. loop_common lookup_none append_none demo_loop_env 65536 10
     (loop_start 4096 (\<lparr>none_data = 0, none_pc = 0\<rparr>, \<lambda>_. 0) demo_handle (3 :: nat)) = Some st'"
proof -
  have "pool_sizes demo_handle = profile_pools MEM_PROFILE_2M" by code_simp
  then have "loop_inv (\<lambda>_. True) block_none (profile_pools MEM_PROFILE_2M)
      (loop_start 4096 (\<lparr>none_data = 0, none_pc = 0\<rparr>, \<lambda>_. 0) demo_handle (3 :: nat))" by (simp add: loop_inv_def loop_start_def)
  from loop_ends_signal [OF demo_executes demo_translates this demo_stops [of _ 3]] show ?thesis by (auto simp: loop_start_def)
qed

section \<open>The guest's memory map\<close>

text \<open>C27. The list of areas refines a function from addresses to types: \<open>insert_area\<close> gives exactly
  the addresses of the range the new type, keeps the list a partition of the address range, and needs at most two descriptors.\<close>

theorem area_refined:
  assumes "contig lo (vma_list st) hi" "two_kinds (vma_list st)" "type \<in> {VMA_MAP, VMA_UNMAP}"
    "lo \<le> start" "start < stop" "stop < hi" "2 \<le> stock st"
  shows "\<exists>st'. insert_area start stop type st = Some st' \<and> contig lo (vma_list st') hi \<and> two_kinds (vma_list st') \<and>
    kind_at (vma_list st') = (\<lambda>a. if start \<le> a \<and> a < stop then Some type else kind_at (vma_list st) a) \<and>
    stock st \<le> stock st' + 2 \<and> same_rest st st'"
  using insert_area_spec [OF assms] by (simp add: retyped_def [abs_def])

theorem area_refined_witness:
  "\<exists>st'. insert_area 0x500000 0x600000 VMA_MAP demo_map = Some st' \<and> kind_at (vma_list st') 0x500000 = Some VMA_MAP \<and>
     kind_at (vma_list st') 0x600000 = kind_at (vma_list demo_map) 0x600000"
proof -
  have c: "contig MAPPING_START (vma_list demo_map) (MAPPING_RESERVE_IN_SIGNAL_START + 4096)" "two_kinds (vma_list demo_map)"
    using demo_map_wf(1) by (simp_all add: mmap_wf_def areas_ok_def)
  have b: "MAPPING_START \<le> 0x500000" "0x600000 < MAPPING_RESERVE_IN_SIGNAL_START + 4096"
    by (simp_all add: MAPPING_START_def MAPPING_RESERVE_IN_SIGNAL_START_def)
  show ?thesis using area_refined [OF c _ b(1) _ b(2), of VMA_MAP] demo_map_wf(2) by auto
qed

text \<open>C28. A map without a fixed address returns. Either no unmapped area has room, the result is ENOMEM and the
  map is as before, or the host was asked to map at an address whose whole range was unmapped in the guest; when the host
  refuses, the map is as before, and otherwise exactly this range has become mapped.\<close>

theorem mmap_places:
  assumes "mmap_wf st" "0 < len" "len \<le> MAPPING_RESERVE_IN_SIGNAL_START" "addr = 0 \<or> (ucast flags :: u32) AND MAP_FIXED = 0" "4 \<le> stock st"
  shows "(\<exists>st'. internal_mmap K addr len prot flags fd off st = Some (ENOMEM_64, st') \<and> no_room st (PAGE_ALIGN_UP len) \<and>
       mmap_wf st' \<and> vma_list st' = vma_list st \<and> kernel st' = kernel st) \<or>
    (\<exists>a res k st'. sys_mmap K a len (ucast prot) (ucast flags OR MAP_FIXED) (ucast fd) off (kernel st) = (res, k) \<and>
       internal_mmap K addr len prot flags fd off st = Some (res, st') \<and> guest_range a len \<and> unmapped st a (PAGE_ALIGN_UP (a + len)) \<and>
       mmap_wf st' \<and> kernel st' = k \<and> kind_at (vma_list st') = (if is_syscall_error res then kind_at (vma_list st)
         else retyped a (PAGE_ALIGN_UP (a + len)) VMA_MAP (kind_at (vma_list st))))"
  by (rule mmap_anywhere_spec [OF assms, of K prot fd off, unfolded kept_def]) blast+

theorem mmap_places_witness:
  "\<exists>res st'. internal_mmap demo_kernel 0 0x1000 3 0x22 0 0 demo_map = Some (res, st') \<and> mmap_wf st'"
proof -
  have b: "(0x1000 :: u64) \<le> MAPPING_RESERVE_IN_SIGNAL_START" by (simp add: MAPPING_RESERVE_IN_SIGNAL_START_def)
  show ?thesis using mmap_places [OF demo_map_wf(1) _ b, where addr = 0 and flags = "0x22" and K = demo_kernel and prot = 3 and fd = 0 and off = 0] demo_map_wf(2) by auto
qed





text \<open>C31. \<open>munmap\<close> returns what the host returns; the map changes only when the host has unmapped, and
  then exactly the pages of the range are unmapped.\<close>

theorem munmap_unmaps:
  assumes "mmap_wf st" "guest_range addr len" "2 \<le> stock st"
  shows "\<exists>res k st'. sys_munmap K addr len (kernel st) = (res, k) \<and> internal_munmap K addr len st = Some (res, st') \<and> mmap_wf st' \<and>
    kernel st' = k \<and> kind_at (vma_list st') = (if is_syscall_error res then kind_at (vma_list st)
       else retyped addr (PAGE_ALIGN_UP (addr + len)) VMA_UNMAP (kind_at (vma_list st)))"
  by (rule munmap_spec [OF assms, of K]) blast

theorem munmap_unmaps_witness: "\<exists>res st'. internal_munmap demo_kernel 0x500000 0x100000 demo_map = Some (res, st')"
  using munmap_unmaps [OF demo_map_wf(1) demo_guest_range, of demo_kernel] demo_map_wf(2) by auto







section \<open>The helpers of the arm64 guest\<close>

text \<open>C37. The flags the helpers compute are those of the architecture: of the sum of the operands and a carry for
  additions, of the sum with the complement and the carry 1 for subtractions, and of the sign and zero of the result for logical
  operations; the other bits of the word are kept, and an unknown operation is illegal.\<close>

theorem nzcv_correct:
  "arm64_hlp_compute_next_nzcv_32 opcode x y old = map_option (\<lambda>k. flags_of k x y old) (ops_of opcode) \<and>
   arm64_hlp_compute_next_nzcv_64 opcode x' y' old = map_option (\<lambda>k. flags_of k x' y' old) (ops_of opcode)"
  by (simp add: next_nzcv_32 next_nzcv_64)

text \<open>C38. The predicate helper decides the sixteen condition codes of the architecture.\<close>

theorem condition_correct:
  assumes "cond < 16"
  shows "arm64_hlp_compute_flags_pred (of_nat cond) nzcv = Some (of_bool (condition_holds cond nzcv))"
  by (rule flags_pred [OF assms])

theorem condition_correct_witness: "arm64_hlp_compute_flags_pred 12 0x90000000 = Some 1"
  using condition_correct [of 12 "0x90000000"] by (simp add: condition_holds_def flag_bits(1-4) [symmetric])

text \<open>C39. The checksum instructions divide the bits of the operand, least significant first, by the polynomial of
  CRC-32 or CRC-32C: the table driven loop agrees with the division bit by bit.\<close>

theorem checksum_correct:
  "arm64_hlp_dirty_crc32 insn r (unat (INSN insn 4 0)) =
     crc_message (if INSN insn 12 12 \<noteq> 0 then 0x82f63b78 else 0xedb88320) (r (unat (INSN insn 9 5)) AND 0xffffffff)
       (map (\<lambda>i. byte i (r (unat (INSN insn 20 16)))) [0..<2 ^ unat (INSN insn 11 10)])"
  by (simp add: arm64_hlp_dirty_crc32_def Let_def crc32_message crc32c_message crc_bytes_masked)

text \<open>C40. A store exclusive after a load exclusive of the same address and size succeeds, and writes, exactly when the
  memory holds the loaded value; otherwise it reports 1 and changes nothing.\<close>

theorem exclusive_stored:
  assumes "arm64_hlp_ldxr a sz st = Some (v, st1)" "exclusive_value st2 = exclusive_value st1"
  shows "arm64_hlp_stxr a sz w st2 = Some (if read_mem (excl_mem st2) a (2 ^ unat sz) = v
    then (0, st2\<lparr>excl_mem := write_mem (excl_mem st2) a (2 ^ unat sz) w\<rparr>) else (1, st2))"
  by (rule exclusive_pair [OF assms])

theorem exclusive_stored_witness:
  "arm64_hlp_stxr 4096 3 7 torn_state = Some (0, torn_state\<lparr>excl_mem := write_mem (excl_mem torn_state) 4096 8 7\<rparr>)"
proof -
  have l: "arm64_hlp_ldxr 4096 3 torn_state = Some (0, torn_state)"
    by (simp add: arm64_hlp_ldxr_def stxp_torn(2)) (simp add: torn_state_def)
  from exclusive_stored [OF l refl, of 7] stxp_torn(2) show ?thesis by simp
qed

section \<open>The arm64 disassembler\<close>

text \<open>C35. The disassembler makes only calls the builder accepts: for every sequence of instruction words, every number of
  instructions and every stepping mode, all the calls of a block succeed on an empty jitter whose pools hold 56 entries for each
  instruction and nine for the final exit, and leave code that meets the builder's invariant.\<close>

theorem block_typed:
  assumes "ir_built j" "regs_of j = []" "insns_of j = []"
    "64 * (56 * int m + 9) \<le> pool_size (registerPoolAllocator j)" "64 * (56 * int m + 9) \<le> pool_size (instructionPoolAllocator j)"
    "pc AND 3 = 0"
  shows "\<exists>s j'. disassemble_arm64 fetch hlp pc m (dis_start st) = Some s \<and> replay (dis_ops s) j = Some j' \<and> ir_built j' \<and>
    insns_of j' = ops_insns 0 (dis_ops s)"
  by (rule block_built [OF assms])

theorem block_typed_witness:
  "\<exists>j. createJitter id () 65536 = Some (j, ()) \<and> (\<exists>s j'. disassemble_arm64 (\<lambda>_. rbit_insn) (\<lambda>_. 0) 4096 8 (dis_start False) = Some s \<and>
     replay (dis_ops s) j = Some j' \<and> ir_built j' \<and> insns_of j' = ops_insns 0 (dis_ops s))"
proof -
  obtain j where j: "createJitter id () 65536 = Some (j, ())" by (auto simp: createJitter_def resetJitter_def JITTER_MIN_CONTEXT_SIZE_def Let_def)
  have p: "pool_size (registerPoolAllocator j) = 32352" "pool_size (instructionPoolAllocator j) = 32352" using j
    by (auto simp: createJitter_def resetJitter_def memoryPoolReset_def memoryPoolInit_def sizeof_jitter_def JITTER_MIN_CONTEXT_SIZE_def Let_def)
  show ?thesis
    using block_typed [OF ir_built.created [OF j] createJitter_wf(2,3) [OF j], where m = 8 and pc = 4096] j by (auto simp: p)
qed

text \<open>C36. The sizes the program is configured with are too small for this bound: in every memory profile, a block
  of the configured number of \<open>rbit\<close> instructions makes more calls than the pool of instructions has room for, and the
  assertion of the allocator fails.\<close>

theorem block_exhausts:
  assumes "createJitter id () (jitter_context_size (cache_memory_config p)) = Some (j, be)" "pc AND 3 = 0"
    "disassemble_arm64 (\<lambda>_. rbit_insn) hlp pc (nat (max_insn (cache_memory_config p))) (dis_start False) = Some s"
  shows "replay (dis_ops s) j = None"
  by (rule rbit_exhausts [OF assms])

theorem block_exhausts_witness:
  "\<exists>j s. createJitter id () 65536 = Some (j, ()) \<and> disassemble_arm64 (\<lambda>_. rbit_insn) (\<lambda>_. 0) 4096 10 (dis_start False) = Some s \<and>
     replay (dis_ops s) j = None"
proof -
  obtain j where j: "createJitter id () 65536 = Some (j, ())" by (auto simp: createJitter_def resetJitter_def JITTER_MIN_CONTEXT_SIZE_def Let_def)
  obtain s where s: "disassemble_arm64 (\<lambda>_. rbit_insn) (\<lambda>_. 0) 4096 10 (dis_start False) = Some s" by (auto simp: disassemble_arm64_def)
  show ?thesis using block_exhausts [of MEM_PROFILE_2M j "()" 4096 "\<lambda>_. 0" s] j s by (auto simp: KB_def)
qed

end
